(* ===== verification/Go_Prelude.thy ===== *)
theory Go_Prelude
  imports Main "HOL-Library.AList"
begin

text \<open>
  The prelude of the development: what the Go code of every component shares.

  \<^item> \<open>app_error\<close> is \<open>apperror.AppError\<close> as the sources build it (kind, code and a
    string map of parameters); a Go \<open>error\<close> result is \<open>app_error option\<close>, with
    \<open>None\<close> for \<open>nil\<close>.
  \<^item> A Go map is an association list with distinct keys, kept in insertion order: reading an
    absent key gives the zero value (\<open>map_get\<close>), writing replaces or appends
    (\<open>AList.update\<close>). Go leaves the iteration order of a map open; a definition that
    iterates over a map uses the insertion order, and the theorems that depend on a
    \<open>range\<close> over a map are about the result being \<open>nil\<close>, which does not depend on it.
  \<^item> A loop that returns at the first error is \<open>first_err\<close>; two checks in sequence
    are \<open>err_seq\<close>.
\<close>

named_theorems go_simps \<open>unfolding rules that evaluate the Go library functions\<close>
named_theorems err_simps \<open>rules for sequences of checks that return the first error\<close>
named_theorems wf_intros \<open>preservation of well-formedness invariants\<close>

subsection \<open>Errors\<close>

datatype error_kind = KindBadRequest | KindForbidden | KindNotFound | KindConflict |
  KindRateLimited | KindUnavailable | KindInternal

record app_error =
  err_Kind :: error_kind
  err_Code :: string
  err_Params :: "(string \<times> string) list"

type_synonym err = "app_error option"

abbreviation nil_err :: "'e option" where
  "nil_err \<equiv> None"

fun err_seq :: "'e option \<Rightarrow> 'e option \<Rightarrow> 'e option" where
  "err_seq (Some e) _ = Some e"
| "err_seq None r = r"

fun first_err :: "('a \<Rightarrow> 'e option) \<Rightarrow> 'a list \<Rightarrow> 'e option" where
  "first_err f [] = None"
| "first_err f (x # xs) = (case f x of Some e \<Rightarrow> Some e | None \<Rightarrow> first_err f xs)"

definition fail_if :: "bool \<Rightarrow> 'e \<Rightarrow> 'e option" where
  "fail_if b e = (if b then Some e else None)"

lemma err_seq_None [simp, err_simps]: "err_seq a b = None \<longleftrightarrow> a = None \<and> b = None"
  by (cases a) auto

lemma err_seq_None_right [simp]: "err_seq a None = a"
  by (cases a) auto

lemma err_seq_assoc: "err_seq (err_seq a b) c = err_seq a (err_seq b c)"
  by (cases a) auto

lemma fail_if_None [simp, err_simps]: "fail_if b e = None \<longleftrightarrow> \<not> b"
  by (simp add: fail_if_def)

lemma first_err_None [simp, err_simps]: "first_err f xs = None \<longleftrightarrow> (\<forall>x \<in> set xs. f x = None)"
  by (induction xs) (auto split: option.splits)

lemma first_err_SomeD: "first_err f xs = Some e \<Longrightarrow> \<exists>x \<in> set xs. f x = Some e"
  by (induction xs) (auto split: option.splits)

lemma first_err_append: "first_err f (xs @ ys) = err_seq (first_err f xs) (first_err f ys)"
  by (induction xs) (auto split: option.splits)

lemma first_err_cong [fundef_cong]:
  "xs = ys \<Longrightarrow> (\<And>x. x \<in> set ys \<Longrightarrow> f x = g x) \<Longrightarrow> first_err f xs = first_err g ys"
  by (induction ys arbitrary: xs) (auto split: option.splits)

text \<open>Whether a loop over checks fails does not depend on the order of its elements.\<close>

lemma first_err_None_set: "set xs = set ys \<Longrightarrow> first_err f xs = None \<longleftrightarrow> first_err f ys = None"
  by simp

subsection \<open>Maps\<close>

definition map_get :: "'v \<Rightarrow> ('k \<times> 'v) list \<Rightarrow> 'k \<Rightarrow> 'v" where
  "map_get zero m k = (case map_of m k of None \<Rightarrow> zero | Some v \<Rightarrow> v)"

definition map_has :: "('k \<times> 'v) list \<Rightarrow> 'k \<Rightarrow> bool" where
  "map_has m k = (map_of m k \<noteq> None)"

definition map_keys :: "('k \<times> 'v) list \<Rightarrow> 'k list" where
  "map_keys m = map fst m"

abbreviation wf_map :: "('k \<times> 'v) list \<Rightarrow> bool" where
  "wf_map m \<equiv> distinct (map fst m)"

lemma map_get_update [simp]:
  "map_get z (AList.update k v m) k' = (if k' = k then v else map_get z m k')"
  by (simp add: map_get_def update_conv)

lemma map_get_Nil [simp]: "map_get z [] k = z"
  by (simp add: map_get_def)

lemma map_has_iff: "map_has m k \<longleftrightarrow> k \<in> fst ` set m"
  by (simp add: map_has_def map_of_eq_None_iff)

lemma map_has_update [simp]: "map_has (AList.update k v m) k' \<longleftrightarrow> k' = k \<or> map_has m k'"
  by (simp add: map_has_def update_conv)

lemma wf_map_update [simp, wf_intros]: "wf_map m \<Longrightarrow> wf_map (AList.update k v m)"
  by (rule distinct_update)

lemma fst_set_update: "fst ` set (AList.update k v m) = insert k (fst ` set m)"
  by (induction m) auto

lemma update_fresh: "k \<notin> fst ` set m \<Longrightarrow> AList.update k v m = m @ [(k, v)]"
  by (induction m) auto

lemma map_get_absent: "k \<notin> fst ` set m \<Longrightarrow> map_get z m k = z"
  by (simp add: map_get_def map_of_eq_None_iff [THEN iffD2])

lemma map_get_in: "wf_map m \<Longrightarrow> (k, v) \<in> set m \<Longrightarrow> map_get z m k = v"
  by (simp add: map_get_def)

lemma map_getE:
  assumes "map_get z m k = v" and "v \<noteq> z"
  shows "(k, v) \<in> set m"
  using assms by (auto simp: map_get_def split: option.splits dest: map_of_SomeD)

subsection \<open>Order-preserving duplicate removal\<close>

text \<open>
  The loop \<open>for v in values: if seen[v] continue; seen[v] = true; append\<close>: the first
  occurrence of every element, in order.
\<close>

fun uniq_acc :: "'a list \<Rightarrow> 'a list \<Rightarrow> 'a list" where
  "uniq_acc seen [] = []"
| "uniq_acc seen (x # xs) =
     (if x \<in> set seen then uniq_acc seen xs else x # uniq_acc (x # seen) xs)"

lemma set_uniq_acc: "set (uniq_acc seen xs) = set xs - set seen"
  by (induction xs arbitrary: seen) auto

lemma distinct_uniq_acc [simp]: "distinct (uniq_acc seen xs)"
  by (induction xs arbitrary: seen) (auto simp: set_uniq_acc)

lemma uniq_acc_id: "distinct xs \<Longrightarrow> set xs \<inter> set seen = {} \<Longrightarrow> uniq_acc seen xs = xs"
  by (induction xs arbitrary: seen) auto

lemma uniq_acc_seen_cong: "set s = set t \<Longrightarrow> uniq_acc s xs = uniq_acc t xs"
proof (induction xs arbitrary: s t)
  case (Cons x xs)
  from Cons.prems have "set (x # s) = set (x # t)" by simp
  then show ?case using Cons.IH[of s t] Cons.IH[of "x # s" "x # t"] Cons.prems by simp
qed simp

lemma subseq_length_uniq_acc: "length (uniq_acc seen xs) \<le> length xs"
  by (induction xs arbitrary: seen) (auto intro: le_SucI)

subsection \<open>A shared contract: normalizers\<close>

text \<open>
  Several components put a definition into canonical form before they validate, hash or
  execute it, and later normalize it again (the calendar catalog normalizes what
  \<open>AddBusinessDuration\<close> normalizes once more, the route defaults are applied on every
  read). They all rely on the second pass changing nothing.
\<close>

locale normalizer =
  fixes normalize :: "'a \<Rightarrow> 'a" and canonical :: "'a \<Rightarrow> bool"
  assumes normalize_canonical: "canonical (normalize x)"
    and canonical_fixed: "canonical x \<Longrightarrow> normalize x = x"
begin

lemma normalize_idem: "normalize (normalize x) = normalize x"
  by (simp add: normalize_canonical canonical_fixed)

lemma canonical_iff: "canonical x \<longleftrightarrow> normalize x = x"
  using normalize_canonical [of x] canonical_fixed by auto

lemma check_stable: "f (normalize (normalize x)) = f (normalize x)"
  by (simp add: normalize_idem)

end

end
