(* ===== verification/Go_Strings.thy ===== *)
theory Go_Strings
  imports Go_Prelude "HOL-Library.Sublist" "HOL-Library.Char_ord" "HOL-Library.List_Lexorder"
begin

text \<open>
  The functions of Go's \<open>strings\<close>, \<open>strconv\<close> and \<open>sort\<close> packages that the sources call,
  on byte strings (a Go string is a byte sequence; \<open>string\<close> is a list of 8-bit characters).

  \<^item> \<open>trim_space\<close> is \<open>strings.TrimSpace\<close> with every code point of \<open>unicode.IsSpace\<close>, as its
    UTF-8 bytes.
  \<^item> \<open>to_lower\<close>, \<open>to_upper\<close> and \<open>equal_fold\<close> map the ASCII letters; the model leaves the
    bytes of non-ASCII letters as they are.
  \<^item> Strings compare bytewise, which is the order \<open>List_Lexorder\<close> and \<open>Char_ord\<close> give.
  \<^item> \<open>itoa\<close>, \<open>parse_int\<close> and \<open>atoi\<close> are decimal printing, \<open>big.Int.SetString(s, 10)\<close> and
    \<open>strconv.Atoi\<close> with its 64-bit range check.
\<close>

subsection \<open>Trimming white space\<close>

definition space_runes :: "string list" where
  "space_runes =
     [[CHR 0x20], [CHR 0x09], [CHR 0x0A], [CHR 0x0B], [CHR 0x0C], [CHR 0x0D],
      [CHR 0xC2, CHR 0x85], [CHR 0xC2, CHR 0xA0], [CHR 0xE1, CHR 0x9A, CHR 0x80],
      [CHR 0xE2, CHR 0x80, CHR 0x80], [CHR 0xE2, CHR 0x80, CHR 0x81],
      [CHR 0xE2, CHR 0x80, CHR 0x82], [CHR 0xE2, CHR 0x80, CHR 0x83],
      [CHR 0xE2, CHR 0x80, CHR 0x84], [CHR 0xE2, CHR 0x80, CHR 0x85],
      [CHR 0xE2, CHR 0x80, CHR 0x86], [CHR 0xE2, CHR 0x80, CHR 0x87],
      [CHR 0xE2, CHR 0x80, CHR 0x88], [CHR 0xE2, CHR 0x80, CHR 0x89],
      [CHR 0xE2, CHR 0x80, CHR 0x8A], [CHR 0xE2, CHR 0x80, CHR 0xA8],
      [CHR 0xE2, CHR 0x80, CHR 0xA9], [CHR 0xE2, CHR 0x80, CHR 0xAF],
      [CHR 0xE2, CHR 0x81, CHR 0x9F], [CHR 0xE3, CHR 0x80, CHR 0x80]]"

fun lead_pat :: "'a list list \<Rightarrow> 'a list \<Rightarrow> 'a list option" where
  "lead_pat [] s = None"
| "lead_pat (p # ps) s = (if p \<noteq> [] \<and> prefix p s then Some p else lead_pat ps s)"

lemma lead_pat_Some: "lead_pat ps s = Some p \<Longrightarrow> p \<in> set ps \<and> p \<noteq> [] \<and> prefix p s"
  by (induction ps) (auto split: if_splits)

lemma lead_pat_None: "lead_pat ps s = None \<longleftrightarrow> (\<forall>p \<in> set ps. p \<noteq> [] \<longrightarrow> \<not> prefix p s)"
  by (induction ps) auto

function strip_pats :: "'a list list \<Rightarrow> 'a list \<Rightarrow> 'a list" where
  "strip_pats ps s =
     (case lead_pat ps s of None \<Rightarrow> s | Some p \<Rightarrow> strip_pats ps (drop (length p) s))"
  by pat_completeness auto
termination
  by (relation "measure (\<lambda>(ps, s). length s)")
     (auto dest!: lead_pat_Some simp: prefix_def)

declare strip_pats.simps [simp del]

lemma strip_pats_Nil [simp]: "strip_pats ps [] = []"
  by (subst strip_pats.simps) (auto split: option.splits dest: lead_pat_Some)

lemma strip_pats_stuck: "lead_pat ps (strip_pats ps s) = None"
proof (induction ps s rule: strip_pats.induct)
  case (1 ps s)
  then show ?case
    by (subst strip_pats.simps) (auto split: option.splits)
qed

lemma strip_pats_fixed: "lead_pat ps s = None \<Longrightarrow> strip_pats ps s = s"
  by (subst strip_pats.simps) simp

lemma suffix_strip_pats: "suffix (strip_pats ps s) s"
proof (induction ps s rule: strip_pats.induct)
  case (1 ps s)
  show ?case
  proof (cases "lead_pat ps s")
    case None
    then show ?thesis by (simp add: strip_pats_fixed)
  next
    case (Some p)
    with 1 have "suffix (strip_pats ps (drop (length p) s)) (drop (length p) s)" by simp
    moreover have "suffix (drop (length p) s) s" by (rule suffix_drop)
    ultimately show ?thesis
      using Some by (subst strip_pats.simps) (auto intro: suffix_order.trans)
  qed
qed

definition trim_left :: "string \<Rightarrow> string" where
  "trim_left s = strip_pats space_runes s"

definition trim_right :: "string \<Rightarrow> string" where
  "trim_right s = rev (strip_pats (map rev space_runes) (rev s))"

definition trim_space :: "string \<Rightarrow> string" where
  "trim_space s = trim_right (trim_left s)"

abbreviation trimmed :: "string \<Rightarrow> bool" where
  "trimmed s \<equiv> trim_space s = s"

lemma prefix_trim_right: "prefix (trim_right s) s"
  using suffix_strip_pats [of "map rev space_runes" "rev s"]
  by (simp add: trim_right_def suffix_to_prefix)

lemma trim_left_of_prefix:
  assumes "trim_left t = t" and "prefix u t"
  shows "trim_left u = u"
proof -
  from assms(1) have "lead_pat space_runes t = None"
    by (metis strip_pats_stuck trim_left_def)
  with assms(2) have "lead_pat space_runes u = None"
    by (auto simp: lead_pat_None dest: prefix_order.trans)
  then show ?thesis by (simp add: trim_left_def strip_pats_fixed)
qed

lemma trim_left_idem: "trim_left (trim_left s) = trim_left s"
  by (simp add: trim_left_def strip_pats_fixed strip_pats_stuck)

lemma trim_right_idem: "trim_right (trim_right s) = trim_right s"
  by (simp add: trim_right_def strip_pats_fixed strip_pats_stuck)

lemma trim_space_idem [simp]: "trim_space (trim_space s) = trim_space s"
proof -
  have "trim_left (trim_right (trim_left s)) = trim_right (trim_left s)"
    by (rule trim_left_of_prefix [OF trim_left_idem prefix_trim_right])
  then show ?thesis by (simp add: trim_space_def trim_right_idem)
qed

lemma trim_space_Nil [simp]: "trim_space [] = []"
  by (simp add: trim_space_def trim_left_def trim_right_def)

text \<open>
  A string whose first and last bytes start and end no white-space code point is trimmed; the
  test is what evaluation on literals needs.
\<close>

definition edge_bytes :: "string" where
  "edge_bytes =
     [CHR 0x20, CHR 0x09, CHR 0x0A, CHR 0x0B, CHR 0x0C, CHR 0x0D, CHR 0xC2, CHR 0xE1, CHR 0xE2,
      CHR 0xE3, CHR 0x85, CHR 0xA0, CHR 0x80, CHR 0x81, CHR 0x82, CHR 0x83, CHR 0x84, CHR 0x86,
      CHR 0x87, CHR 0x88, CHR 0x89, CHR 0x8A, CHR 0xA8, CHR 0xA9, CHR 0xAF, CHR 0x9F]"

lemma space_runes_edges:
  "\<forall>p \<in> set space_runes. p \<noteq> [] \<and> hd p \<in> set edge_bytes \<and> last p \<in> set edge_bytes"
  by (simp add: space_runes_def edge_bytes_def)

lemma prefix_hd: "prefix p s \<Longrightarrow> p \<noteq> [] \<Longrightarrow> hd s = hd p"
  by (auto simp: prefix_def)

lemma trim_left_by_edge: "s = [] \<or> hd s \<notin> set edge_bytes \<Longrightarrow> trim_left s = s"
  using space_runes_edges prefix_hd [of _ s]
  by (fastforce simp: trim_left_def lead_pat_None intro!: strip_pats_fixed)

lemma trim_right_by_edge: "s = [] \<or> last s \<notin> set edge_bytes \<Longrightarrow> trim_right s = s"
proof -
  assume a: "s = [] \<or> last s \<notin> set edge_bytes"
  have "lead_pat (map rev space_runes) (rev s) = None"
    unfolding lead_pat_None
  proof safe
    fix q assume q: "q \<in> set (map rev space_runes)" "q \<noteq> []" "prefix q (rev s)"
    then obtain p where p: "p \<in> set space_runes" "q = rev p" by auto
    from q(2,3) have s: "s \<noteq> []" "hd (rev s) = hd q" by (auto dest: prefix_hd)
    with p q(2) have "last s = last p" by (simp add: hd_rev)
    with p(1) space_runes_edges s(1) a show False by auto
  qed
  then show ?thesis by (simp add: trim_right_def strip_pats_fixed)
qed

lemma trim_space_by_edges:
  "s = [] \<or> hd s \<notin> set edge_bytes \<and> last s \<notin> set edge_bytes \<Longrightarrow> trim_space s = s"
  using trim_left_by_edge [of s] trim_right_by_edge [of s] by (auto simp: trim_space_def)

lemma strip_pats_gone: "strip_pats ps t = [] \<Longrightarrow> t \<noteq> [] \<Longrightarrow> \<exists>p \<in> set ps. p \<noteq> [] \<and> last t = last p"
proof (induction ps t rule: strip_pats.induct)
  case (1 ps t)
  from 1(2,3) obtain p where p: "lead_pat ps t = Some p" by (subst (asm) strip_pats.simps) (auto split: option.splits)
  then have pp: "p \<in> set ps" "p \<noteq> []" "prefix p t" by (auto simp: lead_pat_Some)
  from 1(2) p have rest: "strip_pats ps (drop (length p) t) = []" by (subst (asm) strip_pats.simps) simp
  show ?case
  proof (cases "drop (length p) t = []")
    case True
    with pp(3) have "t = p" by (auto simp: prefix_def)
    with pp show ?thesis by blast
  next
    case False
    from 1(1) [OF p rest False] False show ?thesis by (simp add: last_drop)
  qed
qed

lemma trim_space_Nil_edge: "trim_space s = [] \<Longrightarrow> s = [] \<or> hd s \<in> set edge_bytes"
proof (rule disjCI)
  assume t: "trim_space s = []" and h: "hd s \<notin> set edge_bytes"
  then have r: "strip_pats (map rev space_runes) (rev s) = []" by (simp add: trim_space_def trim_right_def trim_left_by_edge)
  show "s = []"
  proof (rule ccontr)
    assume "s \<noteq> []"
    with strip_pats_gone [OF r] obtain p where "p \<in> set space_runes" "p \<noteq> []" "hd s = hd p" by (auto simp: last_rev)
    with space_runes_edges h show False by auto
  qed
qed

subsection \<open>Case mapping\<close>

definition lower_char :: "char \<Rightarrow> char" where
  "lower_char c = (let n = (of_char c :: nat) in
     if 65 \<le> n \<and> n \<le> 90 then char_of (n + 32) else c)"

definition upper_char :: "char \<Rightarrow> char" where
  "upper_char c = (let n = (of_char c :: nat) in
     if 97 \<le> n \<and> n \<le> 122 then char_of (n - 32) else c)"

definition to_lower :: "string \<Rightarrow> string" where
  "to_lower s = map lower_char s"

definition to_upper :: "string \<Rightarrow> string" where
  "to_upper s = map upper_char s"

definition equal_fold :: "string \<Rightarrow> string \<Rightarrow> bool" where
  "equal_fold a b = (to_lower a = to_lower b)"

lemma lower_char_idem [simp]: "lower_char (lower_char c) = lower_char c"
  by (simp add: lower_char_def Let_def)

lemma upper_char_idem [simp]: "upper_char (upper_char c) = upper_char c"
proof (cases "97 \<le> (of_char c :: nat) \<and> (of_char c :: nat) \<le> 122")
  case True
  then have "(of_char c :: nat) - 32 < 256" by linarith
  then have "((of_char c :: nat) - 32) mod 256 = of_char c - 32" by (rule mod_less)
  with True show ?thesis by (auto simp: upper_char_def Let_def)
next
  case False
  then show ?thesis by (auto simp: upper_char_def Let_def)
qed

lemma to_lower_idem [simp]: "to_lower (to_lower s) = to_lower s"
  by (simp add: to_lower_def)

lemma to_upper_idem [simp]: "to_upper (to_upper s) = to_upper s"
  by (simp add: to_upper_def)

lemma to_lower_Nil_iff [simp]: "to_lower s = [] \<longleftrightarrow> s = []"
  by (simp add: to_lower_def)

lemma to_lower_Nil [simp]: "to_lower [] = []"
  by (simp add: to_lower_def)

text \<open>White space has no case: trimming and lowering commute.\<close>

lemma prefix_map_fixed:
  assumes "\<And>c d. c \<in> set p \<Longrightarrow> f d = c \<longleftrightarrow> d = c"
  shows "prefix p (map f s) \<longleftrightarrow> prefix p s"
  using assms
proof (induction p arbitrary: s)
  case (Cons c p)
  show ?case
  proof (cases s)
    case (Cons d s')
    with Cons.IH [of s'] Cons.prems [of c d] Cons.prems show ?thesis by auto
  qed simp
qed simp

lemma lead_pat_map_fixed:
  assumes "\<And>p c d. p \<in> set ps \<Longrightarrow> c \<in> set p \<Longrightarrow> f d = c \<longleftrightarrow> d = c"
  shows "lead_pat ps (map f s) = lead_pat ps s"
  using assms
proof (induction ps)
  case (Cons p ps)
  have "prefix p (map f s) \<longleftrightarrow> prefix p s"
    by (rule prefix_map_fixed) (rule Cons.prems, simp_all)
  moreover have "lead_pat ps (map f s) = lead_pat ps s"
    by (rule Cons.IH) (rule Cons.prems, simp_all)
  ultimately show ?case by simp
qed simp

lemma strip_pats_map_fixed:
  assumes "\<And>p c d. p \<in> set ps \<Longrightarrow> c \<in> set p \<Longrightarrow> f d = c \<longleftrightarrow> d = c"
  shows "strip_pats ps (map f s) = map f (strip_pats ps s)"
  using assms
proof (induction ps s rule: strip_pats.induct)
  case (1 ps s)
  note lp = lead_pat_map_fixed [OF "1.prems"]
  show ?case
  proof (cases "lead_pat ps s")
    case None
    then show ?thesis by (simp add: strip_pats_fixed lp)
  next
    case (Some p)
    have "strip_pats ps (map f (drop (length p) s)) = map f (strip_pats ps (drop (length p) s))"
      by (rule "1.IH" [OF Some]) (rule "1.prems")
    with Some show ?thesis
      by (subst (1 2) strip_pats.simps) (simp add: lp drop_map)
  qed
qed

lemma lower_char_fixed:
  assumes "(of_char c :: nat) < 65 \<or> 122 < (of_char c :: nat)"
  shows "lower_char d = c \<longleftrightarrow> d = c"
proof (cases "65 \<le> (of_char d :: nat) \<and> (of_char d :: nat) \<le> 90")
  case True
  then have "(of_char (lower_char d) :: nat) = of_char d + 32"
    by (simp add: lower_char_def Let_def)
  with True assms show ?thesis by auto
next
  case False
  then show ?thesis by (auto simp: lower_char_def Let_def)
qed

lemma space_runes_no_letter:
  "\<forall>p \<in> set space_runes. \<forall>c \<in> set p. (of_char c :: nat) < 65 \<or> 122 < (of_char c :: nat)"
  by (simp add: space_runes_def)

lemma trim_space_to_lower: "trim_space (to_lower s) = to_lower (trim_space s)"
proof -
  have fixed: "lower_char d = c \<longleftrightarrow> d = c" if "p \<in> set space_runes" "c \<in> set p" for p c d
    using that space_runes_no_letter lower_char_fixed by blast
  have l: "strip_pats space_runes (map lower_char s) = map lower_char (strip_pats space_runes s)" for s
    by (rule strip_pats_map_fixed) (rule fixed)
  have r: "strip_pats (map rev space_runes) (map lower_char s) =
      map lower_char (strip_pats (map rev space_runes) s)" for s
    by (rule strip_pats_map_fixed) (metis fixed imageE list.set_map set_rev)
  show ?thesis by (simp add: trim_space_def trim_left_def trim_right_def to_lower_def l r rev_map)
qed

subsection \<open>valueOrDefault\<close>

text \<open>
  Every policy package has a helper of this shape; \<open>valueOrDefault\<close> is the one of the
  workflow package.
\<close>

definition valueOrDefault :: "string \<Rightarrow> string \<Rightarrow> string" where
  "valueOrDefault value fallback =
     (if trim_space value \<noteq> [] then trim_space value else fallback)"

lemma valueOrDefault_idem [simp]:
  "trimmed d \<Longrightarrow> valueOrDefault (valueOrDefault v d) d = valueOrDefault v d"
  by (simp add: valueOrDefault_def)

lemma valueOrDefault_trim [simp]: "valueOrDefault (trim_space v) d = valueOrDefault v d"
  by (simp add: valueOrDefault_def)

lemma valueOrDefault_trimmed: "trimmed d \<Longrightarrow> trimmed (valueOrDefault v d)"
  by (simp add: valueOrDefault_def)

lemma valueOrDefault_nonempty: "d \<noteq> [] \<Longrightarrow> valueOrDefault v d \<noteq> []"
  by (simp add: valueOrDefault_def)

subsection \<open>Searching and splitting\<close>

fun str_cut :: "string \<Rightarrow> string \<Rightarrow> (string \<times> string) option" where
  "str_cut sep [] = (if sep = [] then Some ([], []) else None)"
| "str_cut sep (c # cs) =
     (if prefix sep (c # cs) then Some ([], drop (length sep) (c # cs))
      else map_option (\<lambda>(a, b). (c # a, b)) (str_cut sep cs))"

lemma str_cut_Some: "str_cut sep s = Some (a, b) \<Longrightarrow> s = a @ sep @ b"
proof (induction sep s arbitrary: a b rule: str_cut.induct)
  case (2 sep c cs)
  then show ?case
    by (cases "prefix sep (c # cs)") (auto simp: prefix_def split: if_splits)
qed (auto split: if_splits)

definition str_contains :: "string \<Rightarrow> string \<Rightarrow> bool" where
  "str_contains s sub = (str_cut sub s \<noteq> None)"

function str_split :: "string \<Rightarrow> string \<Rightarrow> string list" where
  "str_split sep s =
     (if sep = [] then [s]
      else (case str_cut sep s of None \<Rightarrow> [s] | Some (a, b) \<Rightarrow> a # str_split sep b))"
  by pat_completeness auto
termination
  by (relation "measure (\<lambda>(sep, s). length s)") (auto dest!: str_cut_Some)

declare str_split.simps [simp del]

fun str_join :: "string \<Rightarrow> string list \<Rightarrow> string" where
  "str_join sep [] = []"
| "str_join sep [x] = x"
| "str_join sep (x # y # xs) = x @ sep @ str_join sep (y # xs)"

lemma str_split_nonempty: "str_split sep s \<noteq> []"
  by (subst str_split.simps) (auto split: option.splits)

lemma str_join_split: "sep \<noteq> [] \<Longrightarrow> str_join sep (str_split sep s) = s"
proof (induction sep s rule: str_split.induct)
  case (1 sep s)
  show ?case
  proof (cases "str_cut sep s")
    case None
    with "1.prems" show ?thesis by (subst str_split.simps) simp
  next
    case (Some ab)
    obtain a b where ab: "ab = (a, b)" by (cases ab)
    with Some "1.IH" "1.prems" have "str_join sep (str_split sep b) = b" by simp
    moreover obtain y ys where "str_split sep b = y # ys"
      using str_split_nonempty by (metis neq_Nil_conv)
    moreover have "str_split sep s = a # str_split sep b"
      using Some ab "1.prems" by (subst str_split.simps) simp
    moreover have "s = a @ sep @ b" using Some ab by (simp add: str_cut_Some)
    ultimately show ?thesis by (metis str_join.simps(3))
  qed
qed

definition has_prefix :: "string \<Rightarrow> string \<Rightarrow> bool" where
  "has_prefix s p = prefix p s"

subsection \<open>Decimal numerals\<close>

definition digit_char :: "nat \<Rightarrow> char" where
  "digit_char n = char_of (48 + n)"

definition digit_val :: "char \<Rightarrow> nat option" where
  "digit_val c = (let n = (of_char c :: nat) in if 48 \<le> n \<and> n \<le> 57 then Some (n - 48) else None)"

fun nat_str :: "nat \<Rightarrow> string" where
  "nat_str n = (if n < 10 then [digit_char n] else nat_str (n div 10) @ [digit_char (n mod 10)])"

declare nat_str.simps [simp del]

fun parse_digits :: "nat \<Rightarrow> string \<Rightarrow> nat option" where
  "parse_digits acc [] = Some acc"
| "parse_digits acc (c # cs) =
     (case digit_val c of None \<Rightarrow> None | Some d \<Rightarrow> parse_digits (10 * acc + d) cs)"

definition itoa :: "int \<Rightarrow> string" where
  "itoa i = (if i < 0 then CHR ''-'' # nat_str (nat (- i)) else nat_str (nat i))"

definition parse_int :: "string \<Rightarrow> int option" where
  "parse_int s = (case s of
      [] \<Rightarrow> None
    | c # cs \<Rightarrow>
        if c = CHR ''-'' then (if cs = [] then None else map_option (\<lambda>n. - int n) (parse_digits 0 cs))
        else if c = CHR ''+'' then (if cs = [] then None else map_option int (parse_digits 0 cs))
        else map_option int (parse_digits 0 s))"

definition in_int64 :: "int \<Rightarrow> bool" where
  "in_int64 i = (- (2 ^ 63) \<le> i \<and> i < 2 ^ 63)"

definition atoi :: "string \<Rightarrow> int option" where
  "atoi s = (case parse_int s of None \<Rightarrow> None | Some i \<Rightarrow> if in_int64 i then Some i else None)"

lemma digit_val_char [simp]: "d < 10 \<Longrightarrow> digit_val (digit_char d) = Some d"
  by (simp add: digit_val_def digit_char_def)

lemma digit_val_bound: "digit_val c = Some d \<Longrightarrow> d < 10"
  by (auto simp: digit_val_def Let_def split: if_splits)

lemma digit_char_val: "digit_val c = Some d \<Longrightarrow> digit_char d = c"
  by (auto simp: digit_val_def digit_char_def Let_def split: if_splits)

lemma parse_digits_append:
  "parse_digits acc (xs @ ys) =
     (case parse_digits acc xs of None \<Rightarrow> None | Some n \<Rightarrow> parse_digits n ys)"
  by (induction acc xs rule: parse_digits.induct) (auto split: option.splits)

lemma parse_nat_str [simp]: "parse_digits 0 (nat_str n) = Some n"
proof (induction n rule: nat_str.induct)
  case (1 n)
  then show ?case
    by (cases "n < 10") (simp_all add: nat_str.simps [of n] parse_digits_append)
qed

lemma nat_str_nonempty [simp]: "nat_str n \<noteq> []"
  by (subst nat_str.simps) simp

lemma nat_str_digits: "c \<in> set (nat_str n) \<Longrightarrow> \<exists>d < 10. c = digit_char d"
proof (induction n rule: nat_str.induct)
  case (1 n)
  show ?case
  proof (cases "n < 10")
    case True
    with 1 show ?thesis by (auto simp: nat_str.simps [of n])
  next
    case False
    with "1.prems" have "c \<in> set (nat_str (n div 10)) \<or> c = digit_char (n mod 10)"
      by (auto simp: nat_str.simps [of n])
    moreover have "n mod 10 < 10" by simp
    ultimately show ?thesis using "1.IH" False by blast
  qed
qed

lemma digit_char_not_sign: "d < 10 \<Longrightarrow> digit_char d \<noteq> CHR ''-'' \<and> digit_char d \<noteq> CHR ''+''"
proof -
  assume "d < 10"
  then have "digit_val (digit_char d) = Some d" by simp
  then show ?thesis by (auto simp: digit_val_def)
qed

lemma nat_str_hd: "hd (nat_str n) \<noteq> CHR ''-'' \<and> hd (nat_str n) \<noteq> CHR ''+''"
  using nat_str_digits [of "hd (nat_str n)" n] digit_char_not_sign hd_in_set [OF nat_str_nonempty]
  by metis

lemma parse_int_nat_str [simp]: "parse_int (nat_str n) = Some (int n)"
proof -
  obtain c cs where s: "nat_str n = c # cs"
    using nat_str_nonempty by (meson neq_Nil_conv)
  with nat_str_hd [of n] parse_nat_str [of n] show ?thesis
    by (simp add: parse_int_def)
qed

lemma parse_int_itoa [simp]: "parse_int (itoa i) = Some i"
proof (cases "i < 0")
  case True
  then show ?thesis by (simp add: itoa_def parse_int_def)
next
  case False
  then show ?thesis by (simp add: itoa_def)
qed

lemma atoi_itoa [simp]: "in_int64 i \<Longrightarrow> atoi (itoa i) = Some i"
  by (simp add: atoi_def)

text \<open>The length of a numeral: \<open>n\<close> has at most \<open>k\<close> digits exactly when it is below \<open>10 ^ k\<close>.\<close>

lemma length_nat_str_le: "0 < k \<Longrightarrow> length (nat_str n) \<le> k \<longleftrightarrow> n < 10 ^ k"
proof (induction n arbitrary: k rule: nat_str.induct)
  case (1 n)
  show ?case
  proof (cases "n < 10")
    case True
    have "(10::nat) ^ 1 \<le> 10 ^ k" using "1.prems" by (intro power_increasing) auto
    with True "1.prems" show ?thesis by (simp add: nat_str.simps [of n])
  next
    case False
    obtain j where k: "k = Suc j" using "1.prems" by (cases k) auto
    show ?thesis
    proof (cases "j = 0")
      case True
      have "0 < length (nat_str (n div 10))" by simp
      with True False k show ?thesis by (simp add: nat_str.simps [of n])
    next
      case j: False
      have "length (nat_str (n div 10)) \<le> j \<longleftrightarrow> n div 10 < 10 ^ j"
        using "1.IH" False j by simp
      moreover have "n div 10 < 10 ^ j \<longleftrightarrow> n < 10 ^ k"
        unfolding k by (simp add: div_less_iff_less_mult mult.commute)
      ultimately show ?thesis using False k by (simp add: nat_str.simps [of n])
    qed
  qed
qed

definition pad_left :: "nat \<Rightarrow> char \<Rightarrow> string \<Rightarrow> string" where
  "pad_left w c s = replicate (w - length s) c @ s"

lemma length_pad_left [simp]: "length (pad_left w c s) = max w (length s)"
  by (simp add: pad_left_def)

lemma parse_digits_zeros: "parse_digits 0 (replicate k (CHR ''0'') @ s) = parse_digits 0 s"
  by (induction k) (simp_all add: digit_val_def)

end
