(* ===== verification/Go_Values.thy ===== *)
theory Go_Values
  imports Go_Strings
begin

text \<open>
  The dynamic values of the sources: \<open>any\<close> as it occurs in record data, definition
  configuration, workflow variables and payloads.

  A \<open>float64\<close> is carried by the text \<open>fmt.Sprint\<close> prints for it, the shortest decimal that
  reads back as the same number, which determines the value; the definitions that need its
  magnitude are outside the modelled part. \<open>sprint\<close> is \<open>fmt.Sprint\<close> of one operand.
  \<open>reflect.DeepEqual\<close> distinguishes the dynamic types as \<open>=\<close> on \<open>gval\<close> does, and compares
  maps as sets of entries (\<open>deep_equal\<close>).
\<close>

datatype gval =
    VNil
  | VBool bool
  | VInt int            \<comment> \<open>\<open>int\<close>\<close>
  | VInt64 int          \<comment> \<open>\<open>int64\<close>\<close>
  | VFloat string       \<comment> \<open>\<open>float64\<close>, by its shortest decimal text\<close>
  | VNumber string      \<comment> \<open>\<open>json.Number\<close>\<close>
  | VStr string
  | VStrs "string list" \<comment> \<open>\<open>[]string\<close>\<close>
  | VList "gval list"   \<comment> \<open>\<open>[]any\<close>\<close>
  | VMap "(string \<times> gval) list" \<comment> \<open>\<open>map[string]any\<close>\<close>
  | VStrMap "(string \<times> string) list" \<comment> \<open>\<open>map[string]string\<close>\<close>

type_synonym data = "(string \<times> gval) list"

abbreviation data_get :: "data \<Rightarrow> string \<Rightarrow> gval" where
  "data_get \<equiv> map_get VNil"

subsection \<open>fmt.Sprint\<close>

definition nil_text :: string where
  "nil_text = ''<nil>''"

definition bool_text :: "bool \<Rightarrow> string" where
  "bool_text b = (if b then ''true'' else ''false'')"

fun sprint :: "gval \<Rightarrow> string" where
  "sprint VNil = nil_text"
| "sprint (VBool b) = bool_text b"
| "sprint (VInt i) = itoa i"
| "sprint (VInt64 i) = itoa i"
| "sprint (VFloat t) = t"
| "sprint (VNumber t) = t"
| "sprint (VStr s) = s"
| "sprint (VStrs xs) = ''['' @ str_join '' '' xs @ '']''"
| "sprint (VList vs) = ''['' @ str_join '' '' (map sprint vs) @ '']''"
| "sprint (VMap m) =
     ''map['' @ str_join '' '' (map snd (sort_key fst (map (\<lambda>(k, v). (k, k @ '':'' @ sprint v)) m))) @ '']''"
| "sprint (VStrMap m) =
     ''map['' @ str_join '' '' (map (\<lambda>(k, v). k @ '':'' @ v) (sort_key fst m)) @ '']''"

definition sprint_trim :: "gval \<Rightarrow> string" where
  "sprint_trim v = trim_space (sprint v)"

lemma sprint_trim_trimmed [simp]: "trim_space (sprint_trim v) = sprint_trim v"
  by (simp add: sprint_trim_def)

lemma sprint_trim_VStr: "sprint_trim (VStr s) = trim_space s"
  by (simp add: sprint_trim_def)

text \<open>Whole numbers print without white space, so reading a printed counter gives it back.\<close>

lemma digit_char_code: "d < 10 \<Longrightarrow> (of_char (digit_char d) :: nat) = 48 + d"
  by (simp add: digit_char_def)

lemma digit_char_not_edge: "d < 10 \<Longrightarrow> digit_char d \<notin> set edge_bytes"
proof
  assume d: "d < 10" and "digit_char d \<in> set edge_bytes"
  then have "(of_char (digit_char d) :: nat) \<in> of_char ` set edge_bytes" by blast
  with d have "48 + d \<in> of_char ` set edge_bytes" by (simp only: digit_char_code)
  then show False using d by (auto simp: edge_bytes_def)
qed

lemma itoa_edges: "hd (itoa i) \<notin> set edge_bytes \<and> last (itoa i) \<notin> set edge_bytes"
proof -
  have n: "hd (nat_str n) \<notin> set edge_bytes \<and> last (nat_str n) \<notin> set edge_bytes" for n
    using nat_str_digits hd_in_set [OF nat_str_nonempty] last_in_set [OF nat_str_nonempty]
      digit_char_not_edge by metis
  have "CHR ''-'' \<notin> set edge_bytes" by (simp add: edge_bytes_def)
  with n show ?thesis by (simp add: itoa_def)
qed

lemma trim_itoa [simp]: "trim_space (itoa i) = itoa i"
  using itoa_edges by (intro trim_space_by_edges) blast

lemma sprint_trim_VInt [simp]: "sprint_trim (VInt i) = itoa i"
  by (simp add: sprint_trim_def)

subsection \<open>Emptiness and text\<close>

text \<open>
  \<open>WorkflowValueIsEmpty\<close>, \<open>workflowRecordIsEmptyValue\<close> and \<open>RecordIsEmptyValue\<close> share this
  body: \<open>nil\<close> and blank strings are empty, every other value is not.
\<close>

definition value_is_empty :: "gval \<Rightarrow> bool" where
  "value_is_empty v = (case v of VNil \<Rightarrow> True | VStr s \<Rightarrow> trim_space s = [] | _ \<Rightarrow> False)"

subsection \<open>reflect.DeepEqual\<close>

fun deep_equal :: "gval \<Rightarrow> gval \<Rightarrow> bool" where
  "deep_equal (VList xs) (VList ys) = list_all2 deep_equal xs ys"
| "deep_equal (VMap m) (VMap n) =
     (length m = length n \<and>
      (\<forall>(k, v) \<in> set m. (case map_of n k of None \<Rightarrow> False | Some w \<Rightarrow> deep_equal v w)))"
| "deep_equal (VStrMap m) (VStrMap n) =
     (length m = length n \<and> (\<forall>(k, v) \<in> set m. map_of n k = Some v))"
| "deep_equal x y = (x = y)"

end
