(* ===== verification/Workflow_Model.thy ===== *)
theory Workflow_Model
  imports Go_Values
begin

text \<open>
  The data of the workflow component: the definition types of
  \<open>runtime/domain/definition/model/definition_model.go\<close> (graph, nodes, node contracts,
  conditions, retry policy) and the runtime types of \<open>runtime/domain/workflow/model\<close>
  (process and node instance, task with its evidence, event, route step, execution, decision request). Every struct is a record with the fields of
  the source in the source's order; a pointer field is an \<open>option\<close>, a Go \<open>int\<close> or \<open>int64\<close> is an
  \<open>int\<close> (the definitions that multiply one wrap it at 64 bits where it can overflow), and the
  recursive \<open>WorkflowConditionContract\<close> is a datatype.
\<close>

type_synonym LocalizedTextMap = "(string \<times> (string \<times> string) list) list"

subsection \<open>Definitions\<close>

record WorkflowRetryPolicy =
  rp_MaxAttempts :: int
  rp_DelaySeconds :: int

datatype WorkflowConditionContract =
  WorkflowConditionContract
    (wc_Type: string) (wc_Field: string) (wc_Value: gval) (wc_Expression: string)
    (wc_Operator: string) (wc_Conditions: "WorkflowConditionContract list")
    (wc_Condition: "WorkflowConditionContract option") (wc_Fields: data)

record WorkflowAssigneeResolver =
  ar_Type :: string
  ar_Priority :: int
  ar_UserIDs :: "string list"
  ar_RoleKey :: string
  ar_Field :: string
  ar_UserField :: string
  ar_ResolverKey :: string
  ar_Config :: data
  ar_Source :: string
  ar_RelationPath :: "string list"
  ar_RoleField :: string
  ar_MaxDepth :: int

record WorkflowApprovalRouteContract =
  rc_Source :: string
  rc_MinSteps :: int
  rc_MaxSteps :: int
  rc_MaxAssigneesPerStep :: int
  rc_EligibleRoles :: "string list"
  rc_DeferredSteps :: string
  rc_DeferredConfigurer :: string
  rc_RevalidateOnActivation :: string

record WorkflowApprovalNodeContract =
  ac_Mode :: string
  ac_RequiredApprovals :: int
  ac_Title :: string
  ac_Resolvers :: "WorkflowAssigneeResolver list"
  ac_ResolverMode :: string
  ac_EmptyAssigneePolicy :: string
  ac_DueSeconds :: int
  ac_ReminderActionKey :: string
  ac_ReminderInput :: data
  ac_EscalationSeconds :: int
  ac_EscalationResolvers :: "WorkflowAssigneeResolver list"
  ac_Route :: "WorkflowApprovalRouteContract option"

record WorkflowBusinessActionNodeContract =
  bc_ActionKey :: string
  bc_ObjectKey :: string
  bc_RecordID :: string
  bc_Input :: data
  bc_OutputVariable :: string
  bc_TimeoutSeconds :: int
  bc_Retry :: "WorkflowRetryPolicy option"
  bc_OnError :: string

record WorkflowCCNodeContract =
  cc_NotificationActionKey :: string
  cc_Resolvers :: "WorkflowAssigneeResolver list"
  cc_Input :: data

record WorkflowTimerNodeContract =
  tc_TimerKey :: string
  tc_Purpose :: string
  tc_At :: string
  tc_DurationSeconds :: int
  tc_SourceField :: string
  tc_OffsetSeconds :: int
  tc_Timezone :: string
  tc_BusinessCalendarKey :: string

record WorkflowAgentTaskIdentity =
  ai_Mode :: string
  ai_PrincipalKey :: string

text \<open>\<open>Input\<close> is an \<open>option\<close>: the validator distinguishes a nil map from an empty one.\<close>

record WorkflowAgentTaskNodeContract =
  at_TaskKey :: string
  at_TaskVersion :: string
  at_Identity :: WorkflowAgentTaskIdentity
  at_Input :: "data option"
  at_OutputVariable :: string
  at_ExecutionMode :: string
  at_TimeoutSeconds :: int
  at_Retry :: "WorkflowRetryPolicy option"
  at_OnError :: string
  at_AllowedObjects :: "string list"
  at_AllowedActions :: "string list"
  at_AllowedOutcomes :: "string list"

record WorkflowNodeContract =
  nc_Condition :: "WorkflowConditionContract option"
  nc_Approval :: "WorkflowApprovalNodeContract option"
  nc_Action :: "WorkflowBusinessActionNodeContract option"
  nc_CC :: "WorkflowCCNodeContract option"
  nc_Timer :: "WorkflowTimerNodeContract option"
  nc_AgentTask :: "WorkflowAgentTaskNodeContract option"

record WorkflowGraphNode =
  gn_ID :: string
  gn_Type :: string
  gn_Name :: string
  gn_I18n :: LocalizedTextMap
  gn_Position :: data
  gn_Config :: data
  gn_Contract :: "WorkflowNodeContract option"

record WorkflowGraphEdge =
  ge_ID :: string
  ge_Source :: string
  ge_Target :: string
  ge_Branch :: string
  ge_Label :: string

text \<open>The \<open>Viewport\<close> of the graph holds screen coordinates and is not modelled.\<close>

record WorkflowGraphSchema =
  gs_Version :: int
  gs_Nodes :: "WorkflowGraphNode list"
  gs_Edges :: "WorkflowGraphEdge list"

record WorkflowTriggerContract =
  tr_Type :: string
  tr_ObjectKey :: string
  tr_ObjectKeys :: "string list"
  tr_FieldKey :: string
  tr_Offset :: string
  tr_Event :: string

text \<open>
  \<open>WorkflowSchema\<close> without its descriptive members (the untyped trigger and condition
  summaries, the input fields and the action contract), which no modelled operation reads.
\<close>

record WorkflowSchema =
  ws_DefinitionVersionID :: string
  ws_PublishedVersion :: int
  ws_Key :: string
  ws_Name :: string
  ws_Action :: data
  ws_TriggerContract :: "WorkflowTriggerContract option"
  ws_ConditionContract :: "WorkflowConditionContract option"
  ws_Enabled :: bool
  ws_RunAs :: string
  ws_IdempotencyKeys :: "string list"
  ws_Retry :: "WorkflowRetryPolicy option"
  ws_TimeoutSeconds :: int
  ws_Graph :: "WorkflowGraphSchema option"

subsection \<open>Runtime state\<close>

record WorkflowRouteAssignee =
  ra_UserID :: string
  ra_DisplayName :: string
  ra_RoleKey :: string

record WorkflowRouteStep =
  rs_WorkspaceID :: string
  rs_ID :: string
  rs_ProcessID :: string
  rs_NodeID :: string
  rs_StepNo :: int
  rs_StepKey :: string
  rs_Title :: string
  rs_Mode :: string
  rs_RequiredApprovals :: int
  rs_Status :: string
  rs_AssigneeSnapshot :: "WorkflowRouteAssignee list"
  rs_ConfiguredBy :: string
  rs_ConfiguredAt :: string
  rs_ConfigureSource :: string
  rs_NodeInstanceID :: string
  rs_CreatedAt :: string
  rs_UpdatedAt :: string

record AssigneeEvidenceFact =
  ef_Key :: string
  ef_Value :: string

record AssigneeEvidenceMatch =
  em_ResolverType :: string
  em_ResolverKey :: string
  em_ResolverIndex :: int
  em_RoleKey :: string
  em_VariableKey :: string
  em_ObjectKey :: string
  em_RecordID :: string
  em_FieldKey :: string
  em_SubjectUserID :: string
  em_Facts :: "AssigneeEvidenceFact list"

text \<open>\<open>AssigneeEvidence\<close> has its \<open>Matches\<close> as only member.\<close>

type_synonym AssigneeEvidence = "AssigneeEvidenceMatch list"

record WorkflowTask =
  wt_WorkspaceID :: string
  wt_ID :: string
  wt_ProcessID :: string
  wt_NodeInstanceID :: string
  wt_NodeID :: string
  wt_Title :: string
  wt_AssigneeUserID :: string
  wt_AssigneeName :: string
  wt_AssigneeRoleKey :: string
  wt_AssigneeResolverKey :: string
  wt_AssigneeEvidence :: AssigneeEvidence
  wt_ResolverSnapshot :: "WorkflowAssigneeResolver list"
  wt_CandidateSource :: string
  wt_NodeDefinitionVersion :: int
  wt_Sequence :: int
  wt_Status :: string
  wt_Decision :: string
  wt_Comment :: string
  wt_DueAt :: string
  wt_CompletedBy :: string
  wt_CompletedAt :: string
  wt_CreatedAt :: string
  wt_UpdatedAt :: string

record WorkflowNodeInstance =
  wn_WorkspaceID :: string
  wn_ID :: string
  wn_ProcessID :: string
  wn_NodeID :: string
  wn_NodeType :: string
  wn_Iteration :: int
  wn_Status :: string
  wn_Input :: data
  wn_Output :: data
  wn_ErrorCode :: string
  wn_StartedAt :: string
  wn_CompletedAt :: string

record WorkflowProcessEvent =
  ev_WorkspaceID :: string
  ev_ID :: string
  ev_ProcessID :: string
  ev_NodeID :: string
  ev_TaskID :: string
  ev_Event :: string
  ev_ActorID :: string
  ev_Summary :: string
  ev_Metadata :: data
  ev_CreatedAt :: string

record WorkflowNextStepConfiguration =
  ns_StepKey :: string
  ns_AssigneeUserIDs :: "string list"
  ns_RequiredApprovals :: int

record WorkflowTaskDecisionRequest =
  dr_Decision :: string
  dr_Comment :: string
  dr_IdempotencyKey :: string
  dr_NextStep :: "WorkflowNextStepConfiguration option"

record WorkflowProcessInstance =
  wp_WorkspaceID :: string
  wp_ID :: string
  wp_WorkflowKey :: string
  wp_WorkflowName :: string
  wp_DefinitionVersionID :: string
  wp_DefinitionVersion :: int
  wp_DefinitionHash :: string
  wp_DefinitionSnapshot :: WorkflowSchema
  wp_ObjectKey :: string
  wp_RecordID :: string
  wp_InitiatorID :: string
  wp_InitiatorRoleKey :: string
  wp_Status :: string
  wp_CurrentNodeIDs :: "string list"
  wp_Variables :: data
  wp_Result :: data
  wp_ErrorCode :: string
  wp_CreatedAt :: string
  wp_UpdatedAt :: string
  wp_CompletedAt :: string
  wp_CurrentNodeNames :: "string list"
  wp_FailedNodeNames :: "string list"
  wp_WaitingSeconds :: int
  wp_WorkflowRetryCount :: int
  wp_BusinessOutcome :: string

record WorkflowExecution =
  we_WorkspaceID :: string
  we_ID :: string
  we_WorkflowKey :: string
  we_Name :: string
  we_Trigger :: string
  we_Status :: string
  we_ActionType :: string
  we_Action :: data
  we_Payload :: data
  we_Result :: data
  we_ProcessID :: string
  we_NodeID :: string
  we_ObjectKey :: string
  we_RecordID :: string
  we_ActorID :: string
  we_RunAs :: string
  we_IdempotencyKey :: string
  we_Attempt :: int
  we_MaxAttempts :: int
  we_NextRunAt :: string
  we_LastError :: string
  we_LeaseOwner :: string
  we_LeaseExpiresAt :: string
  we_FencingToken :: int
  we_Message :: string
  we_CreatedAt :: string
  we_UpdatedAt :: string

text \<open>The receipt of an execution that was requested with an idempotency key.\<close>

record WorkflowExecutionReceipt =
  rr_ID :: string
  rr_WorkspaceID :: string
  rr_WorkflowKey :: string
  rr_IdempotencyKey :: string
  rr_RequestFingerprint :: string
  rr_Status :: string
  rr_ExecutionID :: string
  rr_LeaseOwner :: string
  rr_LeaseExpiresAt :: string
  rr_FencingToken :: int
  rr_CreatedAt :: string
  rr_UpdatedAt :: string
  rr_ExpiresAt :: string

subsection \<open>Zero values\<close>

text \<open>What Go's composite literal \<open>T{}\<close> denotes, for the types that are read as zero values.\<close>

definition zero_approval :: WorkflowApprovalNodeContract where
  "zero_approval = \<lparr> ac_Mode = [], ac_RequiredApprovals = 0, ac_Title = [], ac_Resolvers = [],
     ac_ResolverMode = [], ac_EmptyAssigneePolicy = [], ac_DueSeconds = 0,
     ac_ReminderActionKey = [], ac_ReminderInput = [], ac_EscalationSeconds = 0,
     ac_EscalationResolvers = [], ac_Route = None \<rparr>"

definition zero_action :: WorkflowBusinessActionNodeContract where
  "zero_action = \<lparr> bc_ActionKey = [], bc_ObjectKey = [], bc_RecordID = [], bc_Input = [],
     bc_OutputVariable = [], bc_TimeoutSeconds = 0, bc_Retry = None, bc_OnError = [] \<rparr>"

definition zero_cc :: WorkflowCCNodeContract where
  "zero_cc = \<lparr> cc_NotificationActionKey = [], cc_Resolvers = [], cc_Input = [] \<rparr>"

definition zero_timer :: WorkflowTimerNodeContract where
  "zero_timer = \<lparr> tc_TimerKey = [], tc_Purpose = [], tc_At = [], tc_DurationSeconds = 0,
     tc_SourceField = [], tc_OffsetSeconds = 0, tc_Timezone = [], tc_BusinessCalendarKey = [] \<rparr>"

definition zero_agent :: WorkflowAgentTaskNodeContract where
  "zero_agent = \<lparr> at_TaskKey = [], at_TaskVersion = [],
     at_Identity = \<lparr> ai_Mode = [], ai_PrincipalKey = [] \<rparr>, at_Input = None,
     at_OutputVariable = [], at_ExecutionMode = [], at_TimeoutSeconds = 0, at_Retry = None,
     at_OnError = [], at_AllowedObjects = [], at_AllowedActions = [], at_AllowedOutcomes = [] \<rparr>"

definition zero_node :: WorkflowGraphNode where
  "zero_node = \<lparr> gn_ID = [], gn_Type = [], gn_Name = [], gn_I18n = [], gn_Position = [],
     gn_Config = [], gn_Contract = None \<rparr>"

definition zero_route :: WorkflowApprovalRouteContract where
  "zero_route = \<lparr> rc_Source = [], rc_MinSteps = 0, rc_MaxSteps = 0, rc_MaxAssigneesPerStep = 0,
     rc_EligibleRoles = [], rc_DeferredSteps = [], rc_DeferredConfigurer = [],
     rc_RevalidateOnActivation = [] \<rparr>"

definition zero_step :: WorkflowRouteStep where
  "zero_step = \<lparr> rs_WorkspaceID = [], rs_ID = [], rs_ProcessID = [], rs_NodeID = [], rs_StepNo = 0,
     rs_StepKey = [], rs_Title = [], rs_Mode = [], rs_RequiredApprovals = 0, rs_Status = [],
     rs_AssigneeSnapshot = [], rs_ConfiguredBy = [], rs_ConfiguredAt = [], rs_ConfigureSource = [],
     rs_NodeInstanceID = [], rs_CreatedAt = [], rs_UpdatedAt = [] \<rparr>"

definition zero_task :: WorkflowTask where
  "zero_task = \<lparr> wt_WorkspaceID = [], wt_ID = [], wt_ProcessID = [], wt_NodeInstanceID = [], wt_NodeID = [],
     wt_Title = [], wt_AssigneeUserID = [], wt_AssigneeName = [], wt_AssigneeRoleKey = [],
     wt_AssigneeResolverKey = [], wt_AssigneeEvidence = [], wt_ResolverSnapshot = [], wt_CandidateSource = [],
     wt_NodeDefinitionVersion = 0, wt_Sequence = 0, wt_Status = [], wt_Decision = [], wt_Comment = [],
     wt_DueAt = [], wt_CompletedBy = [], wt_CompletedAt = [], wt_CreatedAt = [], wt_UpdatedAt = [] \<rparr>"

definition zero_resolver :: WorkflowAssigneeResolver where
  "zero_resolver = \<lparr> ar_Type = [], ar_Priority = 0, ar_UserIDs = [], ar_RoleKey = [],
     ar_Field = [], ar_UserField = [], ar_ResolverKey = [], ar_Config = [], ar_Source = [],
     ar_RelationPath = [], ar_RoleField = [], ar_MaxDepth = 0 \<rparr>"

definition zero_schema :: WorkflowSchema where
  "zero_schema = \<lparr> ws_DefinitionVersionID = [], ws_PublishedVersion = 0, ws_Key = [], ws_Name = [], ws_Action = [],
     ws_TriggerContract = None, ws_ConditionContract = None, ws_Enabled = False, ws_RunAs = [], ws_IdempotencyKeys = [],
     ws_Retry = None, ws_TimeoutSeconds = 0, ws_Graph = None \<rparr>"

definition zero_process :: WorkflowProcessInstance where
  "zero_process = \<lparr> wp_WorkspaceID = [], wp_ID = [], wp_WorkflowKey = [], wp_WorkflowName = [], wp_DefinitionVersionID = [],
     wp_DefinitionVersion = 0, wp_DefinitionHash = [], wp_DefinitionSnapshot = zero_schema, wp_ObjectKey = [], wp_RecordID = [],
     wp_InitiatorID = [], wp_InitiatorRoleKey = [], wp_Status = [], wp_CurrentNodeIDs = [], wp_Variables = [], wp_Result = [],
     wp_ErrorCode = [], wp_CreatedAt = [], wp_UpdatedAt = [], wp_CompletedAt = [], wp_CurrentNodeNames = [],
     wp_FailedNodeNames = [], wp_WaitingSeconds = 0, wp_WorkflowRetryCount = 0, wp_BusinessOutcome = [] \<rparr>"

definition zero_execution :: WorkflowExecution where
  "zero_execution = \<lparr> we_WorkspaceID = [], we_ID = [], we_WorkflowKey = [], we_Name = [], we_Trigger = [], we_Status = [],
     we_ActionType = [], we_Action = [], we_Payload = [], we_Result = [], we_ProcessID = [], we_NodeID = [], we_ObjectKey = [],
     we_RecordID = [], we_ActorID = [], we_RunAs = [], we_IdempotencyKey = [], we_Attempt = 0, we_MaxAttempts = 0,
     we_NextRunAt = [], we_LastError = [], we_LeaseOwner = [], we_LeaseExpiresAt = [], we_FencingToken = 0, we_Message = [],
     we_CreatedAt = [], we_UpdatedAt = [] \<rparr>"

lemmas zero_defs = zero_schema_def zero_process_def zero_execution_def zero_approval_def zero_action_def zero_cc_def zero_timer_def zero_agent_def
  zero_node_def zero_route_def zero_step_def zero_task_def zero_resolver_def

end
