(* ===== verification/Go_Time.thy ===== *)
theory Go_Time
  imports Go_Values
begin

text \<open>
  The parts of Go's \<open>time\<close> package the sources use.

  \<^item> An instant (\<open>time.Time\<close>) is the number of nanoseconds since the Unix epoch, an \<open>int\<close>;
    the location a time is shown in is an explicit argument. A \<open>time.Duration\<close> is an \<open>int\<close>
    of nanoseconds in the 64-bit range; products that can leave the range go through \<open>wrap64\<close>.
  \<^item> The calendar is the proleptic Gregorian calendar: \<open>civil_to_days\<close> counts the days since
    0001-01-01, \<open>days_to_civil\<close> is its inverse.
  \<^item> A \<open>location\<close> answers \<open>Location.lookup\<close>: the offset in force at a Unix second and the
    bounds of the period it is in force (\<open>None\<close> where it is unbounded). Locations come from
    the time-zone database, so \<open>time.LoadLocation\<close> is an argument of the definitions that use
    it. \<open>wall_to_unix\<close> is the zone resolution of \<open>time.Date\<close>.
  \<^item> \<open>parse_rfc3339\<close> is \<open>time.Parse\<close> with the layout \<open>RFC3339Nano\<close>; the layout \<open>RFC3339\<close>
    accepts the same texts, since \<open>Parse\<close> reads a fraction after the seconds even where the
    layout has none.
\<close>

subsection \<open>64-bit arithmetic\<close>

definition wrap64 :: "int \<Rightarrow> int" where
  "wrap64 i = (i + 2 ^ 63) mod 2 ^ 64 - 2 ^ 63"

lemma wrap64_in [simp]: "in_int64 i \<Longrightarrow> wrap64 i = i"
  by (simp add: wrap64_def in_int64_def)

lemma in_int64_wrap64 [simp]: "in_int64 (wrap64 i)"
proof -
  have "0 \<le> (i + 2 ^ 63) mod 2 ^ 64" "(i + 2 ^ 63) mod 2 ^ 64 < 2 ^ 64"
    by (simp_all add: pos_mod_bound)
  then show ?thesis by (simp add: wrap64_def in_int64_def)
qed

definition second :: int where "second = 1000000000"
definition minute :: int where "minute = 60 * second"
definition hour :: int where "hour = 60 * minute"
definition day :: int where "day = 24 * hour"

lemmas time_units = second_def minute_def hour_def day_def

subsection \<open>The calendar\<close>

definition is_leap :: "int \<Rightarrow> bool" where
  "is_leap y = (y mod 4 = 0 \<and> (y mod 100 \<noteq> 0 \<or> y mod 400 = 0))"

definition days_in :: "int \<Rightarrow> int \<Rightarrow> int" where
  "days_in m y =
     (if m = 2 then (if is_leap y then 29 else 28)
      else if m = 4 \<or> m = 6 \<or> m = 9 \<or> m = 11 then 30 else 31)"

definition days_before_year :: "int \<Rightarrow> int" where
  "days_before_year y =
     365 * (y - 1) + (y - 1) div 4 - (y - 1) div 100 + (y - 1) div 400"

definition days_before_month :: "int \<Rightarrow> int \<Rightarrow> int" where
  "days_before_month m y =
     (if m \<le> 1 then 0 else if m = 2 then 31 else
      (if m = 3 then 59 else if m = 4 then 90 else if m = 5 then 120 else if m = 6 then 151
       else if m = 7 then 181 else if m = 8 then 212 else if m = 9 then 243
       else if m = 10 then 273 else if m = 11 then 304 else 334)
      + (if is_leap y then 1 else 0))"

definition civil_to_days :: "int \<Rightarrow> int \<Rightarrow> int \<Rightarrow> int" where
  "civil_to_days y m d = days_before_year y + days_before_month m y + (d - 1)"

definition year_of_days :: "int \<Rightarrow> int" where
  "year_of_days n =
     (let y = n * 400 div 146097 + 1
      in if n < days_before_year y then y - 1
         else if days_before_year (y + 1) \<le> n then y + 1 else y)"

fun month_from :: "nat \<Rightarrow> int \<Rightarrow> int \<Rightarrow> int \<Rightarrow> int" where
  "month_from 0 y r m = m"
| "month_from (Suc k) y r m =
     (if r < days_before_month (m + 1) y then m else month_from k y r (m + 1))"

definition month_of_day :: "int \<Rightarrow> int \<Rightarrow> int" where
  "month_of_day y r = month_from 11 y r 1"

definition days_to_civil :: "int \<Rightarrow> int \<times> int \<times> int" where
  "days_to_civil n =
     (let y = year_of_days n; r = n - days_before_year y; m = month_of_day y r
      in (y, m, r - days_before_month m y + 1))"

definition valid_civil :: "int \<Rightarrow> int \<Rightarrow> int \<Rightarrow> bool" where
  "valid_civil y m d = (1 \<le> m \<and> m \<le> 12 \<and> 1 \<le> d \<and> d \<le> days_in m y)"

lemma div_pred:
  fixes y k :: int
  assumes "0 < k"
  shows "y div k = (y - 1) div k + (if y mod k = 0 then 1 else 0)"
proof (cases "y mod k = 0")
  case True
  have "y = k * (y div k) + y mod k" by simp
  with True have "y - 1 = k * (y div k - 1) + (k - 1)" by (simp add: algebra_simps)
  from int_div_pos_eq [OF this] assms have "(y - 1) div k = y div k - 1" by simp
  with True show ?thesis by simp
next
  case False
  have "y = k * (y div k) + y mod k" by simp
  then have "y - 1 = k * (y div k) + (y mod k - 1)" by simp
  moreover have "0 \<le> y mod k - 1" "y mod k - 1 < k"
    using False assms pos_mod_sign [of k y] pos_mod_bound [of k y] by linarith+
  ultimately have "(y - 1) div k = y div k" by (rule int_div_pos_eq)
  with False show ?thesis by simp
qed

lemma year_length:
  "days_before_year (y + 1) = days_before_year y + (if is_leap y then 366 else 365)"
proof -
  have d4: "y div 4 = (y - 1) div 4 + (if y mod 4 = 0 then 1 else 0)" by (rule div_pred) simp
  have d100: "y div 100 = (y - 1) div 100 + (if y mod 100 = 0 then 1 else 0)"
    by (rule div_pred) simp
  have d400: "y div 400 = (y - 1) div 400 + (if y mod 400 = 0 then 1 else 0)"
    by (rule div_pred) simp
  have i1: "y mod 100 = 0 \<longrightarrow> y mod 4 = 0"
    using mod_mod_cancel [of 4 100 y] by (auto simp del: mod_mod_trivial)
  have i2: "y mod 400 = 0 \<longrightarrow> y mod 100 = 0"
    using mod_mod_cancel [of 100 400 y] by (auto simp del: mod_mod_trivial)
  have "days_before_year (y + 1) = 365 * y + y div 4 - y div 100 + y div 400"
    by (simp add: days_before_year_def)
  also have "\<dots> = days_before_year y + 365 + (if y mod 4 = 0 then 1 else 0)
      - (if y mod 100 = 0 then 1 else 0) + (if y mod 400 = 0 then 1 else 0)"
    unfolding d4 d100 d400 days_before_year_def by simp
  finally show ?thesis using i1 i2 by (cases "y mod 100 = 0") (simp_all add: is_leap_def)
qed

lemma year_length_ge: "days_before_year y + 365 \<le> days_before_year (y + 1)"
  by (simp add: year_length)

text \<open>The first guess of \<open>year_of_days\<close> is off by at most one year.\<close>

lemma year_guess_lower:
  fixes k n a b c p q :: int
  assumes "p + 365 \<le> q" "q = 365 * k + a - b + c" "146097 * k \<le> 400 * n"
    "4 * a \<le> k" "k < 100 * b + 100" "400 * c \<le> k"
  shows "p \<le> n"
  using assms by linarith

lemma year_guess_upper:
  fixes k n a b c q r s :: int
  assumes "q + 365 \<le> r" "r + 365 \<le> s" "q = 365 * k + a - b + c"
    "400 * n < 146097 * k + 146097" "k < 4 * a + 4" "100 * b \<le> k" "k < 400 * c + 400"
  shows "n < s"
  using assms by linarith

lemma year_of_days_bounds:
  "days_before_year (year_of_days n) \<le> n \<and> n < days_before_year (year_of_days n + 1)"
proof -
  define k where "k = n * 400 div 146097"
  define y where "y = k + 1"
  have k1: "146097 * k \<le> 400 * n" "400 * n < 146097 * k + 146097"
    unfolding k_def by (simp_all add: mult.commute)
  have B: "days_before_year y = 365 * k + k div 4 - k div 100 + k div 400"
    by (simp add: days_before_year_def y_def)
  have "days_before_year (y - 1) + 365 \<le> days_before_year y"
    using year_length_ge [of "y - 1"] by simp
  from year_guess_lower [OF this B k1(1)] have lo: "days_before_year (y - 1) \<le> n"
    by (simp add: mult.commute)
  from year_guess_upper [OF year_length_ge [of y] year_length_ge [of "y + 1"] B k1(2)]
  have hi: "n < days_before_year (y + 1 + 1)" by (simp add: mult.commute)
  have "year_of_days n = (if n < days_before_year y then y - 1
      else if days_before_year (y + 1) \<le> n then y + 1 else y)"
    by (simp add: year_of_days_def Let_def y_def k_def)
  then show ?thesis using lo hi by auto
qed

lemma month_length:
  assumes "1 \<le> m" "m \<le> 11"
  shows "days_before_month (m + 1) y = days_before_month m y + days_in m y"
proof -
  have "m = 1 \<or> m = 2 \<or> m = 3 \<or> m = 4 \<or> m = 5 \<or> m = 6 \<or> m = 7 \<or> m = 8 \<or> m = 9 \<or> m = 10 \<or> m = 11"
    using assms by arith
  then show ?thesis
    by (elim disjE) (simp_all add: days_before_month_def days_in_def)
qed

lemma month_from_bounds:
  assumes "1 \<le> m" "m + int k = 12" "days_before_month m y \<le> r"
    "r < (if is_leap y then 366 else 365)"
  shows "1 \<le> month_from k y r m \<and> month_from k y r m \<le> 12
    \<and> days_before_month (month_from k y r m) y \<le> r
    \<and> r < days_before_month (month_from k y r m) y + days_in (month_from k y r m) y"
  using assms
proof (induction k arbitrary: m)
  case 0
  then show ?case by (auto simp: days_before_month_def days_in_def)
next
  case (Suc k)
  then show ?case using Suc.IH [of "m + 1"] month_length [of m y] by simp
qed

lemma month_bounds:
  assumes "0 \<le> r" and "r < (if is_leap y then 366 else 365)"
  shows "1 \<le> month_of_day y r" "month_of_day y r \<le> 12"
    "days_before_month (month_of_day y r) y \<le> r"
    "r < days_before_month (month_of_day y r) y + days_in (month_of_day y r) y"
  using month_from_bounds [of 1 11 y r] assms
  by (simp_all add: month_of_day_def days_before_month_def [of 1])

lemma days_to_civil_valid:
  "days_to_civil n = (y, m, d) \<Longrightarrow> valid_civil y m d"
  using year_of_days_bounds [of n] year_length [of "year_of_days n"]
    month_bounds [of "n - days_before_year (year_of_days n)" "year_of_days n"]
  by (auto simp: days_to_civil_def valid_civil_def Let_def)

lemma civil_days_inverse: "days_to_civil n = (y, m, d) \<Longrightarrow> civil_to_days y m d = n"
  by (auto simp: days_to_civil_def civil_to_days_def Let_def)

definition weekday_of_days :: "int \<Rightarrow> int" where
  "weekday_of_days n = (n + 1) mod 7"

definition unix_epoch_days :: int where
  "unix_epoch_days = 719162"

text \<open>The zero \<open>time.Time\<close>, January 1 of year 1.\<close>

definition zero_time :: int where
  "zero_time = - (unix_epoch_days * day)"

lemma unix_epoch_days_correct: "civil_to_days 1970 1 1 = unix_epoch_days"
  by (simp add: civil_to_days_def days_before_year_def days_before_month_def unix_epoch_days_def)

subsection \<open>Locations and wall clocks\<close>

type_synonym location = "int \<Rightarrow> int \<times> int option \<times> int option"

definition utc_location :: location where
  "utc_location = (\<lambda>_. (0, None, None))"

definition fixed_zone :: "int \<Rightarrow> location" where
  "fixed_zone off = (\<lambda>_. (off, None, None))"

definition zone_offset :: "location \<Rightarrow> int \<Rightarrow> int" where
  "zone_offset loc s = fst (loc s)"

definition unix_sec :: "int \<Rightarrow> int" where
  "unix_sec t = t div second"

text \<open>\<open>wall loc t\<close> is the wall clock of \<open>t.In(loc)\<close>, as nanoseconds since 1970-01-01 00:00.\<close>

definition wall :: "location \<Rightarrow> int \<Rightarrow> int" where
  "wall loc t = t + zone_offset loc (unix_sec t) * second"

definition wall_days :: "location \<Rightarrow> int \<Rightarrow> int" where
  "wall_days loc t = wall loc t div day + unix_epoch_days"

definition wall_to_unix :: "location \<Rightarrow> int \<Rightarrow> int" where
  "wall_to_unix loc w =
     (let s = w div second; (off, st, en) = loc s
      in if off = 0 then w
         else (let u = s - off;
                   outside = (case st of None \<Rightarrow> False | Some a \<Rightarrow> u < a) \<or>
                             (case en of None \<Rightarrow> False | Some b \<Rightarrow> b \<le> u)
               in w - (if outside then zone_offset loc u else off) * second))"

text \<open>\<open>time.Date(y, m, d, hh, mm, 0, 0, loc)\<close> for the civil day with day number \<open>n\<close>.\<close>

definition go_date :: "location \<Rightarrow> int \<Rightarrow> int \<Rightarrow> int \<Rightarrow> int" where
  "go_date loc n hh mm = wall_to_unix loc ((n - unix_epoch_days) * day + hh * hour + mm * minute)"

text \<open>\<open>t.AddDate(0, 0, k)\<close> for a time shown in \<open>loc\<close>.\<close>

definition add_days :: "location \<Rightarrow> int \<Rightarrow> int \<Rightarrow> int" where
  "add_days loc t k = wall_to_unix loc (wall loc t + k * day)"

lemma wall_fixed_zone [simp]: "wall (fixed_zone off) t = t + off * second"
  by (simp add: wall_def zone_offset_def fixed_zone_def)

lemma wall_to_unix_fixed_zone [simp]: "wall_to_unix (fixed_zone off) w = w - off * second"
  by (simp add: wall_to_unix_def fixed_zone_def zone_offset_def Let_def)

lemma utc_is_fixed: "utc_location = fixed_zone 0"
  by (simp add: utc_location_def fixed_zone_def)

subsection \<open>Printing\<close>

definition pad2 :: "int \<Rightarrow> string" where
  "pad2 n = [digit_char (nat n div 10 mod 10), digit_char (nat n mod 10)]"

definition year_str :: "int \<Rightarrow> string" where
  "year_str y =
     (if 0 \<le> y \<and> y < 10000
      then [digit_char (nat y div 1000), digit_char (nat y div 100 mod 10),
            digit_char (nat y div 10 mod 10), digit_char (nat y mod 10)]
      else if y < 0 then CHR ''-'' # pad_left 4 (CHR ''0'') (nat_str (nat (- y)))
      else nat_str (nat y))"

definition format_date_days :: "int \<Rightarrow> string" where
  "format_date_days n =
     (let (y, m, d) = days_to_civil n in year_str y @ ''-'' @ pad2 m @ ''-'' @ pad2 d)"

definition strip_zeros :: "string \<Rightarrow> string" where
  "strip_zeros s = rev (dropWhile (\<lambda>c. c = CHR ''0'') (rev s))"

definition frac_str :: "int \<Rightarrow> string" where
  "frac_str ns =
     (if ns = 0 then [] else ''.'' @ strip_zeros (pad_left 9 (CHR ''0'') (nat_str (nat ns))))"

text \<open>\<open>t.UTC().Format(time.RFC3339Nano)\<close>\<close>

definition format_rfc3339nano :: "int \<Rightarrow> string" where
  "format_rfc3339nano t =
     (let r = t mod day in
      format_date_days (t div day + unix_epoch_days) @ ''T'' @ pad2 (r div hour) @ '':'' @
      pad2 (r mod hour div minute) @ '':'' @ pad2 (r mod minute div second) @
      frac_str (r mod second) @ ''Z'')"

text \<open>\<open>t.UTC().Format(time.RFC3339)\<close>: the fraction is dropped.\<close>

definition format_rfc3339 :: "int \<Rightarrow> string" where
  "format_rfc3339 t = format_rfc3339nano (t - t mod second)"

subsection \<open>Parsing\<close>

fun getnum :: "bool \<Rightarrow> string \<Rightarrow> (nat \<times> string) option" where
  "getnum fixed [] = None"
| "getnum fixed (a # s) =
     (case digit_val a of None \<Rightarrow> None
      | Some x \<Rightarrow>
          (case s of [] \<Rightarrow> if fixed then None else Some (x, [])
           | b # s' \<Rightarrow>
               (case digit_val b of
                  None \<Rightarrow> if fixed then None else Some (x, b # s')
                | Some z \<Rightarrow> Some (10 * x + z, s'))))"

fun expect :: "char \<Rightarrow> string \<Rightarrow> string option" where
  "expect c [] = None"
| "expect c (d # s) = (if d = c then Some s else None)"

definition parse_year :: "string \<Rightarrow> (nat \<times> string) option" where
  "parse_year s =
     (if length s < 4 then None
      else (case parse_digits 0 (take 4 s) of None \<Rightarrow> None | Some y \<Rightarrow> Some (y, drop 4 s)))"

definition parse_nanos :: "string \<Rightarrow> nat" where
  "parse_nanos ds = (case parse_digits 0 (take 9 (ds @ replicate 9 (CHR ''0''))) of
     None \<Rightarrow> 0 | Some n \<Rightarrow> n)"

definition is_digit :: "char \<Rightarrow> bool" where
  "is_digit c = (digit_val c \<noteq> None)"

text \<open>The optional fraction after the seconds: a comma or a period and at least one digit.\<close>

definition parse_frac :: "string \<Rightarrow> nat \<times> string" where
  "parse_frac s =
     (case s of
        p # d # r \<Rightarrow>
          if (p = CHR ''.'' \<or> p = CHR '','') \<and> is_digit d
          then (parse_nanos (takeWhile is_digit (d # r)), dropWhile is_digit (d # r))
          else (0, s)
      | _ \<Rightarrow> (0, s))"

text \<open>The zone: \<open>Z\<close> or a signed \<open>hh:mm\<close>, in seconds east of UTC.\<close>

definition parse_zone :: "string \<Rightarrow> int option" where
  "parse_zone s =
     (case s of
        [] \<Rightarrow> None
      | c # r \<Rightarrow>
          if c = CHR ''Z'' then (if r = [] then Some 0 else None)
          else (case r of
             [h1, h2, k, m1, m2] \<Rightarrow>
               if k \<noteq> CHR '':'' then None
               else (case (getnum True [h1, h2], getnum True [m1, m2]) of
                  (Some (hr, _), Some (mm, _)) \<Rightarrow>
                    if hr > 24 \<or> mm > 60 then None
                    else if c = CHR ''+'' then Some (int (hr * 60 + mm) * 60)
                    else if c = CHR ''-'' then Some (- (int (hr * 60 + mm) * 60))
                    else None
                | _ \<Rightarrow> None)
           | _ \<Rightarrow> None))"

definition parse_clock3 :: "string \<Rightarrow> (nat \<times> nat \<times> nat \<times> string) option" where
  "parse_clock3 s =
     Option.bind (getnum False s) (\<lambda>(h, s1). if h \<ge> 24 then None else
     Option.bind (expect (CHR '':'') s1) (\<lambda>s2.
     Option.bind (getnum True s2) (\<lambda>(mi, s3). if mi \<ge> 60 then None else
     Option.bind (expect (CHR '':'') s3) (\<lambda>s4.
     Option.bind (getnum True s4) (\<lambda>(se, s5). if se \<ge> 60 then None else Some (h, mi, se, s5))))))"

definition parse_civil :: "string \<Rightarrow> (int \<times> string) option" where
  "parse_civil s =
     Option.bind (parse_year s) (\<lambda>(y, s1).
     Option.bind (expect (CHR ''-'') s1) (\<lambda>s2.
     Option.bind (getnum True s2) (\<lambda>(mo, s3).
     Option.bind (expect (CHR ''-'') s3) (\<lambda>s4.
     Option.bind (getnum True s4) (\<lambda>(d, s5).
       if valid_civil (int y) (int mo) (int d)
       then Some (civil_to_days (int y) (int mo) (int d), s5) else None)))))"

definition parse_rfc3339 :: "string \<Rightarrow> int option" where
  "parse_rfc3339 s =
     Option.bind (parse_civil s) (\<lambda>(n, s1).
     Option.bind (expect (CHR ''T'') s1) (\<lambda>s2.
     Option.bind (parse_clock3 s2) (\<lambda>(h, mi, se, s3).
     (let (ns, s4) = parse_frac s3 in
      Option.bind (parse_zone s4) (\<lambda>off.
        Some ((n - unix_epoch_days) * day + int h * hour + int mi * minute +
              (int se - off) * second + int ns))))))"

text \<open>\<open>time.Parse("2006-01-02", s)\<close>, as a day number.\<close>

definition parse_date :: "string \<Rightarrow> int option" where
  "parse_date s = (case parse_civil s of Some (n, []) \<Rightarrow> Some n | _ \<Rightarrow> None)"

subsection \<open>Reading back what was printed\<close>

lemma getnum_pad2:
  assumes "0 \<le> n" "n < 100"
  shows "getnum f (pad2 n @ s) = Some (nat n, s)"
proof -
  have "nat n < 100" using assms by simp
  then have "nat n div 10 mod 10 = nat n div 10" by simp
  then show ?thesis by (simp add: pad2_def)
qed

lemma parse_year_str:
  assumes "0 \<le> y" "y < 10000"
  shows "parse_year (year_str y @ s) = Some (nat y, s)"
proof -
  define n where "n = nat y"
  have n: "n < 10000" using assms by (simp add: n_def)
  have d: "n div 1000 < 10" using n by simp
  have e3: "10 * (n div 1000) + n div 100 mod 10 = n div 100"
    using mult_div_mod_eq [of 10 "n div 100"] by (simp add: div_mult2_eq [symmetric])
  have e2: "10 * (n div 100) + n div 10 mod 10 = n div 10"
    using mult_div_mod_eq [of 10 "n div 10"] by (simp add: div_mult2_eq [symmetric])
  have e: "10 * (10 * (10 * (n div 1000) + n div 100 mod 10) + n div 10 mod 10) + n mod 10 = n"
    unfolding e3 e2 by simp
  show ?thesis
    using assms d e
    by (simp add: year_str_def parse_year_def n_def [symmetric])
qed

lemma parse_civil_format:
  assumes "days_to_civil n = (y, m, d)" "0 \<le> y" "y < 10000"
  shows "parse_civil (format_date_days n @ s) = Some (n, s)"
proof -
  have v: "valid_civil y m d" using assms(1) by (rule days_to_civil_valid)
  then have b: "0 \<le> m" "m < 100" "0 \<le> d" "d < 100"
    by (auto simp: valid_civil_def days_in_def split: if_splits)
  then show ?thesis
    using assms v civil_days_inverse [OF assms(1)]
    by (simp add: format_date_days_def parse_civil_def parse_year_str getnum_pad2)
qed

lemma strip_zeros_pad:
  "\<exists>k. s = strip_zeros s @ replicate k (CHR ''0'')"
proof -
  have "rev s = takeWhile (\<lambda>c. c = CHR ''0'') (rev s) @ dropWhile (\<lambda>c. c = CHR ''0'') (rev s)"
    by simp
  moreover have "takeWhile (\<lambda>c. c = CHR ''0'') (rev s) =
      replicate (length (takeWhile (\<lambda>c. c = CHR ''0'') (rev s))) (CHR ''0'')"
    by (rule replicate_length_same [symmetric]) (auto dest: set_takeWhileD)
  ultimately show ?thesis
    by (metis rev_append rev_replicate rev_rev_ident strip_zeros_def)
qed

lemma parse_nanos_frac:
  assumes "0 < n" "n < 10 ^ 9"
  defines "p \<equiv> pad_left 9 (CHR ''0'') (nat_str n)"
  shows "parse_nanos (strip_zeros p) = n" "strip_zeros p \<noteq> []" "\<forall>c \<in> set (strip_zeros p). is_digit c"
proof -
  have len: "length p = 9"
    using assms length_nat_str_le [of 9 n] by (simp add: p_def)
  have val: "parse_digits 0 p = Some n"
    by (simp add: p_def pad_left_def parse_digits_zeros)
  obtain k where k: "p = strip_zeros p @ replicate k (CHR ''0'')"
    using strip_zeros_pad by blast
  have kl: "length (strip_zeros p) + k = 9" using len k by (metis length_append length_replicate)
  have "take 9 (strip_zeros p @ replicate 9 (CHR ''0'')) = p"
    using kl k by (simp add: take_append) (metis add_diff_cancel_left' kl min.absorb1 le_add2 take_replicate)
  then show "parse_nanos (strip_zeros p) = n" by (simp add: parse_nanos_def val)
  show "strip_zeros p \<noteq> []"
  proof
    assume "strip_zeros p = []"
    with k have "p = replicate k (CHR ''0'') @ []" by simp
    then have "parse_digits 0 p = Some 0" by (simp only: parse_digits_zeros) simp
    with val assms(1) show False by simp
  qed
  have "\<forall>c \<in> set p. is_digit c"
    using nat_str_digits [of _ n] digit_val_char
    by (fastforce simp: p_def pad_left_def is_digit_def digit_val_def [of "CHR ''0''"])
  then show "\<forall>c \<in> set (strip_zeros p). is_digit c"
    by (metis Un_iff k set_append)
qed

lemma parse_frac_str:
  assumes "0 \<le> n" "n < second"
  shows "parse_frac (frac_str n @ ''Z'') = (nat n, ''Z'')"
proof (cases "n = 0")
  case True
  then show ?thesis by (simp add: frac_str_def parse_frac_def)
next
  case False
  define p where "p = strip_zeros (pad_left 9 (CHR ''0'') (nat_str (nat n)))"
  have "0 < nat n" "nat n < 10 ^ 9" using False assms by (simp_all add: second_def)
  note f = parse_nanos_frac [OF this, folded p_def]
  obtain d r where p: "p = d # r" using f(2) by (meson neq_Nil_conv)
  have z: "\<not> is_digit (CHR ''Z'')" by (simp add: is_digit_def digit_val_def)
  have "takeWhile is_digit (p @ ''Z'') = p" "dropWhile is_digit (p @ ''Z'') = ''Z''"
    using f(3) z by (simp_all add: takeWhile_append2 dropWhile_append2)
  with f(1,3) p show ?thesis
    using False by (simp add: frac_str_def parse_frac_def p_def [symmetric])
qed

lemma clock_split:
  fixes r :: int
  shows "r div hour * hour + (r mod hour div minute) * minute + (r mod minute div second) * second
    + r mod second = r"
proof -
  have "r mod hour mod minute = r mod minute" "r mod minute mod second = r mod second"
    by (simp_all add: hour_def minute_def mod_mod_cancel)
  then show ?thesis
    by (metis add.assoc div_mult_mod_eq)
qed

lemma clock_bounds:
  fixes t :: int
  shows "0 \<le> t mod day div hour" "t mod day div hour < 24"
    "0 \<le> t mod day mod hour div minute" "t mod day mod hour div minute < 60"
    "0 \<le> t mod day mod minute div second" "t mod day mod minute div second < 60"
    "0 \<le> t mod day mod second" "t mod day mod second < second"
  by (simp_all add: time_units)

lemma parse_clock3_format:
  assumes "0 \<le> h" "h < 24" "0 \<le> mi" "mi < 60" "0 \<le> se" "se < 60"
  shows "parse_clock3 (pad2 h @ CHR '':'' # pad2 mi @ CHR '':'' # pad2 se @ s) =
    Some (nat h, nat mi, nat se, s)"
  using assms by (simp add: parse_clock3_def getnum_pad2 not_le nat_less_iff)

definition four_digit_year :: "int \<Rightarrow> bool" where
  "four_digit_year t =
     (let (y, _) = days_to_civil (t div day + unix_epoch_days) in 0 \<le> y \<and> y < 10000)"

lemma parse_format_rfc3339nano:
  assumes "four_digit_year t"
  shows "parse_rfc3339 (format_rfc3339nano t) = Some t"
proof -
  obtain y m d where c: "days_to_civil (t div day + unix_epoch_days) = (y, m, d)"
    by (metis prod_cases3)
  with assms have y: "0 \<le> y" "y < 10000" by (simp_all add: four_digit_year_def)
  note b = clock_bounds [of t]
  have sum: "t div day * day + t mod day div hour * hour + t mod day mod hour div minute * minute
      + t mod day mod minute div second * second + t mod day mod second = t"
    using clock_split [of "t mod day"] div_mult_mod_eq [of t day] by linarith
  have z: "parse_zone ''Z'' = Some 0" by (simp add: parse_zone_def)
  show ?thesis
    using parse_civil_format [OF c y] parse_clock3_format [OF b(1-6)] parse_frac_str [OF b(7,8)] z b sum
    by (simp add: format_rfc3339nano_def parse_rfc3339_def Let_def)
qed

text \<open>A formatted time is its own trimming: it starts with a digit or a sign and ends with \<open>Z\<close>.\<close>

lemma year_str_edge: "year_str y \<noteq> [] \<and> hd (year_str y) \<notin> set edge_bytes"
proof -
  have nat_hd: "hd (nat_str n) \<notin> set edge_bytes" for n
    using nat_str_digits hd_in_set [OF nat_str_nonempty] digit_char_not_edge by metis
  have lits: "CHR ''0'' \<notin> set edge_bytes" "CHR ''-'' \<notin> set edge_bytes"
    by (simp_all add: edge_bytes_def)
  have "digit_char (nat y div 1000) \<notin> set edge_bytes" if "0 \<le> y" "y < 10000"
    using that by (intro digit_char_not_edge) (simp add: nat_less_iff div_less_iff_less_mult)
  with nat_hd lits show ?thesis by (simp add: year_str_def)
qed

lemma format_rfc3339nano_edges:
  "format_rfc3339nano t \<noteq> []" "trim_space (format_rfc3339nano t) = format_rfc3339nano t"
proof -
  obtain y m d where c: "days_to_civil (t div day + unix_epoch_days) = (y, m, d)"
    by (metis prod_cases3)
  obtain rest where f: "format_rfc3339nano t = year_str y @ rest @ ''Z''"
    by (simp add: format_rfc3339nano_def format_date_days_def c Let_def)
  show "format_rfc3339nano t \<noteq> []" unfolding f by simp
  have "CHR ''Z'' \<notin> set edge_bytes" by (simp add: edge_bytes_def)
  then show "trim_space (format_rfc3339nano t) = format_rfc3339nano t"
    unfolding f using year_str_edge [of y] by (intro trim_space_by_edges) auto
qed

lemma floor_second_div_day: "(t - t mod second) div day = t div day"
proof -
  have d: "day = second * 86400" by (simp add: time_units)
  have "(t - t mod second) div day = (t - t mod second) div second div 86400"
    by (simp add: d zdiv_zmult2_eq time_units)
  also have "(t - t mod second) div second = t div second"
    by (simp add: minus_mod_eq_div_mult time_units)
  also have "t div second div 86400 = t div day" by (simp add: d zdiv_zmult2_eq time_units)
  finally show ?thesis .
qed

lemma parse_format_rfc3339:
  assumes "four_digit_year t"
  shows "parse_rfc3339 (format_rfc3339 t) = Some (t - t mod second)"
  using assms unfolding format_rfc3339_def
  by (intro parse_format_rfc3339nano) (simp add: four_digit_year_def floor_second_div_day)

lemma format_rfc3339_edges:
  "format_rfc3339 t \<noteq> []" "trim_space (format_rfc3339 t) = format_rfc3339 t"
  by (simp_all add: format_rfc3339_def format_rfc3339nano_edges)

text \<open>
  The text with a fraction sorts before the text of the full second it follows, as \<open>'.'\<close> precedes
  \<open>'Z'\<close>: as texts, times are not in the order of the instants.
\<close>

lemma floor_second_clock:
  fixes t :: int
  defines "f \<equiv> t - t mod second"
  shows "f mod day div hour = t mod day div hour" "f mod day mod hour div minute = t mod day mod hour div minute"
    "f mod day mod minute div second = t mod day mod minute div second" "f mod day mod second = 0"
proof -
  define k where "k = t div second"
  have f: "f = second * k" unfolding f_def k_def by (simp add: minus_mod_eq_mult_div)
  have b: "0 \<le> t mod second" "t mod second < second" by (simp_all add: time_units)
  have u: "day = second * 86400" "hour = second * 3600" "minute = second * 60" by (simp_all add: time_units)
  have m: "t mod (second * n) = second * (k mod n) + t mod second" if "0 < n" for n
  proof -
    have "t mod (second * n) = second * (t div second mod n) + t mod second"
      by (rule zmod_zmult2_eq) (use that in simp)
    then show ?thesis by (simp add: k_def)
  qed
  have d: "(second * j + t mod second) div (second * n) = j div n" if "0 < n" for j n
  proof -
    have "(second * j + t mod second) div (second * n) = (second * j + t mod second) div second div n"
      by (rule zdiv_zmult2_eq) (use that in simp)
    also have "(second * j + t mod second) div second = j"
      using b by (simp add: time_units)
    finally show ?thesis .
  qed
  have s: "second \<noteq> 0" by (simp add: time_units)
  have fm: "f mod (second * n) = second * (k mod n)" for n unfolding f by simp
  have fd: "(second * j) div (second * n) = j div n" for j n using s by simp
  have tm: "t mod day mod hour = t mod hour" "t mod day mod minute = t mod minute" "t mod day mod second = t mod second"
    "f mod day mod hour = f mod hour" "f mod day mod minute = f mod minute" "f mod day mod second = f mod second"
    by (simp_all add: time_units mod_mod_cancel)
  show "f mod day div hour = t mod day div hour"
    using fm [of 86400] fd m [of 86400] d by (simp add: u)
  show "f mod day mod hour div minute = t mod day mod hour div minute"
    unfolding tm using fm [of 3600] fd m [of 3600] d by (simp add: u)
  show "f mod day mod minute div second = t mod day mod minute div second"
    unfolding tm using fm [of 60] fd [of _ 1] m [of 60] d [of 1] by (simp add: u)
  show "f mod day mod second = 0" using tm(6) f by simp
qed

lemma rfc3339nano_text_less:
  assumes "t mod second \<noteq> 0"
  shows "format_rfc3339nano t < format_rfc3339 t"
proof -
  have c: "t mod day mod second \<noteq> 0" using assms by (simp add: time_units mod_mod_cancel)
  note k = floor_second_clock [of t]
  have l: "x < y \<Longrightarrow> p @ x < p @ y" for p x y :: string by (induction p) auto
  have "CHR ''.'' # x < CHR ''Z'' # (y :: string)" for x y by (simp add: less_char_def)
  then show ?thesis
    unfolding format_rfc3339_def format_rfc3339nano_def Let_def floor_second_div_day k
    using c by (simp add: frac_str_def l)
qed

end
