(* ===== verification/Workflow_Approval.thy ===== *)
theory Workflow_Approval
  imports Workflow_Model Go_Time
begin

text \<open>
  The approval policies of \<open>runtime/domain/workflow/policy\<close>:
  \<open>workflow_node_contract_policy.go\<close> (contract accessors, resolver validation),
  \<open>workflow_approval_route_policy.go\<close> (per-instance route contracts, step thresholds, outcomes)
  and \<open>workflow_approval_policy.go\<close> (assignee sets, template-driven outcomes).

  The theorems: the route defaults are a normalizer that turns every accepted contract into one
  with sane ranges; a route step's threshold is attainable by its electorate; an approval node
  completes exactly when its mode's quorum is met, a veto always completes it, and no late
  approval undoes a completion.
\<close>

subsection \<open>badRequest\<close>

fun error_params :: "(string \<times> string) list \<Rightarrow> string list \<Rightarrow> (string \<times> string) list" where
  "error_params values (k # v # rest) =
     error_params (if trim_space k \<noteq> [] then AList.update (trim_space k) v values else values) rest"
| "error_params values _ = values"

definition badRequest :: "string \<Rightarrow> string list \<Rightarrow> app_error" where
  "badRequest code params =
     \<lparr> err_Kind = KindBadRequest, err_Code = code, err_Params = error_params [] params \<rparr>"

lemma badRequest_code [simp]:
  "err_Code (badRequest c ps) = c" "err_Kind (badRequest c ps) = KindBadRequest"
  by (simp_all add: badRequest_def)

subsection \<open>Node contract accessors\<close>

definition node_contract :: "(WorkflowNodeContract \<Rightarrow> 'a option) \<Rightarrow> WorkflowGraphNode \<Rightarrow> 'a option" where
  "node_contract sel node = (case gn_Contract node of None \<Rightarrow> None | Some c \<Rightarrow> sel c)"

definition WorkflowApprovalNodeContract :: "WorkflowGraphNode \<Rightarrow> WorkflowApprovalNodeContract" where
  "WorkflowApprovalNodeContract node =
     (case node_contract nc_Approval node of Some c \<Rightarrow> c | None \<Rightarrow> zero_approval)"

definition WorkflowBusinessActionNodeContract ::
    "WorkflowGraphNode \<Rightarrow> WorkflowBusinessActionNodeContract" where
  "WorkflowBusinessActionNodeContract node =
     (case node_contract nc_Action node of Some c \<Rightarrow> c | None \<Rightarrow> zero_action)"

definition WorkflowCCNodeContract :: "WorkflowGraphNode \<Rightarrow> WorkflowCCNodeContract" where
  "WorkflowCCNodeContract node =
     (case node_contract nc_CC node of Some c \<Rightarrow> c | None \<Rightarrow> zero_cc)"

subsection \<open>Assignee resolvers\<close>

definition workflowAssigneeRelationPathValid :: "string list \<Rightarrow> bool" where
  "workflowAssigneeRelationPathValid path =
     (if length path = 0 \<or> length path > 5 then False
      else list_all (\<lambda>field. trim_space field \<noteq> []) path)"

definition workflowManagerChainResolverValid :: "WorkflowAssigneeResolver \<Rightarrow> bool" where
  "workflowManagerChainResolverValid resolver =
     (if ar_MaxDepth resolver < 1 \<or> ar_MaxDepth resolver > 20 then False
      else if trim_space (ar_Source resolver) = ''initiator'' then True
      else if trim_space (ar_Source resolver) \<in> {''variable'', ''record''}
        then trim_space (ar_Field resolver) \<noteq> []
      else False)"

definition seen_values :: "string list \<Rightarrow> string list" where
  "seen_values values = uniq_acc [] (filter (\<lambda>v. v \<noteq> []) (map trim_space values))"

definition workflowHasNonEmptyUniqueValue :: "string list \<Rightarrow> bool" where
  "workflowHasNonEmptyUniqueValue values = (length (seen_values values) > 0)"

definition WorkflowAssigneeResolverIsValid :: "WorkflowAssigneeResolver \<Rightarrow> bool" where
  "WorkflowAssigneeResolverIsValid resolver = (let t = trim_space (ar_Type resolver) in
     if t = ''users'' then workflowHasNonEmptyUniqueValue (ar_UserIDs resolver)
     else if t = ''variable_user'' \<or> t = ''record_user_field'' then trim_space (ar_Field resolver) \<noteq> []
     else if t = ''manager'' \<or> t = ''manager_of'' then trim_space (ar_UserField resolver) \<noteq> []
     else if t = ''initiator_manager'' then True
     else if t = ''role'' then trim_space (ar_RoleKey resolver) \<noteq> []
     else if t = ''project'' then trim_space (ar_ResolverKey resolver) \<noteq> []
     else if t = ''relation_user'' then workflowAssigneeRelationPathValid (ar_RelationPath resolver)
     else if t = ''relation_role'' then
       workflowAssigneeRelationPathValid (ar_RelationPath resolver) \<and> trim_space (ar_RoleField resolver) \<noteq> []
     else if t = ''manager_chain'' then workflowManagerChainResolverValid resolver
     else False)"

subsection \<open>Assignee sets\<close>

definition WorkflowUniqueAssignees :: "string list \<Rightarrow> string list" where
  "WorkflowUniqueAssignees userIDs =
     uniq_acc [] (filter (\<lambda>u. u \<noteq> []) (map trim_space userIDs))"

definition WorkflowCandidateSource :: "WorkflowAssigneeResolver list \<Rightarrow> string" where
  "WorkflowCandidateSource resolvers =
     str_join '','' (WorkflowUniqueAssignees (map (\<lambda>r. trim_space (ar_Type r)) resolvers))"

lemma WorkflowUniqueAssignees_set:
  "set (WorkflowUniqueAssignees xs) = {u. u \<noteq> [] \<and> (\<exists>x \<in> set xs. u = trim_space x)}"
  by (auto simp: WorkflowUniqueAssignees_def set_uniq_acc)

lemma WorkflowUniqueAssignees_distinct: "distinct (WorkflowUniqueAssignees xs)"
  by (simp add: WorkflowUniqueAssignees_def)

lemma WorkflowUniqueAssignees_fixed:
  assumes "distinct xs" and "\<And>x. x \<in> set xs \<Longrightarrow> x \<noteq> [] \<and> trimmed x"
  shows "WorkflowUniqueAssignees xs = xs"
proof -
  have "map trim_space xs = xs" using assms(2) by (simp add: map_idI)
  moreover have "filter (\<lambda>u. u \<noteq> []) xs = xs" using assms(2) by (simp add: filter_id_conv)
  ultimately show ?thesis using assms(1) by (simp add: WorkflowUniqueAssignees_def uniq_acc_id)
qed

interpretation unique_assignees: normalizer WorkflowUniqueAssignees
  "\<lambda>xs. distinct xs \<and> (\<forall>x \<in> set xs. x \<noteq> [] \<and> trimmed x)"
  by unfold_locales
     (auto simp: WorkflowUniqueAssignees_set WorkflowUniqueAssignees_distinct
        WorkflowUniqueAssignees_fixed)

subsection \<open>Route contracts\<close>

definition WorkflowApprovalRouteSourceInstance :: string where
  "WorkflowApprovalRouteSourceInstance = ''instance''"

definition WorkflowApprovalRouteDefaults ::
    "WorkflowApprovalRouteContract \<Rightarrow> WorkflowApprovalRouteContract" where
  "WorkflowApprovalRouteDefaults route = (let
     minSteps = (if rc_MinSteps route < 1 then 1 else rc_MinSteps route);
     maxSteps = (if rc_MaxSteps route < 1 then minSteps else rc_MaxSteps route);
     maxAssignees = (if rc_MaxAssigneesPerStep route < 1 then 1 else rc_MaxAssigneesPerStep route)
   in route \<lparr>
     rc_Source := valueOrDefault (trim_space (rc_Source route)) WorkflowApprovalRouteSourceInstance,
     rc_DeferredSteps := valueOrDefault (trim_space (rc_DeferredSteps route)) ''deny'',
     rc_DeferredConfigurer :=
       valueOrDefault (trim_space (rc_DeferredConfigurer route)) ''previous_step_approver'',
     rc_RevalidateOnActivation :=
       valueOrDefault (trim_space (rc_RevalidateOnActivation route)) ''fail'',
     rc_MinSteps := minSteps,
     rc_MaxSteps := maxSteps,
     rc_MaxAssigneesPerStep := maxAssignees,
     rc_EligibleRoles := filter (\<lambda>v. v \<noteq> []) (map trim_space (rc_EligibleRoles route)) \<rparr>)"

definition WorkflowApprovalRoute :: "WorkflowGraphNode \<Rightarrow> WorkflowApprovalRouteContract \<times> bool" where
  "WorkflowApprovalRoute node =
     (case ac_Route (WorkflowApprovalNodeContract node) of
        None \<Rightarrow> (zero_route, False)
      | Some route \<Rightarrow> (WorkflowApprovalRouteDefaults route, True))"

definition route_invalid :: "string \<Rightarrow> string \<Rightarrow> app_error" where
  "route_invalid nodeID field =
     badRequest ''backend.workflow.route_contract_invalid'' [''node'', nodeID, ''field'', field]"

definition WorkflowValidateApprovalRoute ::
    "string \<Rightarrow> WorkflowApprovalRouteContract option \<Rightarrow> err" where
  "WorkflowValidateApprovalRoute nodeID ro = (case ro of
     None \<Rightarrow> None
   | Some route \<Rightarrow>
       if trim_space (rc_Source route) \<noteq> WorkflowApprovalRouteSourceInstance
         then Some (route_invalid nodeID ''source'')
       else if rc_MinSteps route < 1 \<or> rc_MaxSteps route < rc_MinSteps route
         then Some (route_invalid nodeID ''steps'')
       else if rc_MaxAssigneesPerStep route < 1
         then Some (route_invalid nodeID ''max_assignees_per_step'')
       else if list_ex (\<lambda>value. trim_space value = []) (rc_EligibleRoles route)
         then Some (route_invalid nodeID ''eligible_roles'')
       else if valueOrDefault (trim_space (rc_DeferredSteps route)) ''deny'' \<notin> {''allow'', ''deny''}
         then Some (route_invalid nodeID ''deferred_steps'')
       else if valueOrDefault (trim_space (rc_DeferredConfigurer route)) ''previous_step_approver''
           \<notin> {''previous_step_approver'', ''initiator''}
         then Some (route_invalid nodeID ''deferred_configurer'')
       else if valueOrDefault (trim_space (rc_RevalidateOnActivation route)) ''fail''
           \<notin> {''fail'', ''skip_invalid'', ''admin''}
         then Some (route_invalid nodeID ''revalidate_on_activation'')
       else None)"

subsection \<open>Route steps\<close>

definition WorkflowRouteStepMode :: "string \<Rightarrow> string" where
  "WorkflowRouteStepMode mode = valueOrDefault (trim_space mode) ''any''"

definition WorkflowRouteStepThreshold :: "WorkflowRouteStep \<Rightarrow> int" where
  "WorkflowRouteStepThreshold step = (let assignees = int (length (rs_AssigneeSnapshot step)) in
     if WorkflowRouteStepMode (rs_Mode step) = ''all'' then assignees
     else if WorkflowRouteStepMode (rs_Mode step) = ''quorum'' then
       (if rs_RequiredApprovals step > 0 \<and> rs_RequiredApprovals step \<le> assignees
        then rs_RequiredApprovals step else assignees)
     else 1)"

definition WorkflowRouteStepAssigneeIDs :: "WorkflowRouteStep \<Rightarrow> string list" where
  "WorkflowRouteStepAssigneeIDs step =
     filter (\<lambda>u. u \<noteq> []) (map (\<lambda>a. trim_space (ra_UserID a)) (rs_AssigneeSnapshot step))"

fun route_step_after :: "WorkflowRouteStep list \<Rightarrow> int \<Rightarrow> WorkflowRouteStep \<Rightarrow> bool \<Rightarrow>
    WorkflowRouteStep \<times> bool" where
  "route_step_after [] stepNo best found = (best, found)"
| "route_step_after (step # steps) stepNo best found =
     (if rs_StepNo step \<le> stepNo then route_step_after steps stepNo best found
      else if \<not> found \<or> rs_StepNo step < rs_StepNo best
        then route_step_after steps stepNo step True
      else route_step_after steps stepNo best found)"

definition WorkflowRouteStepAfter :: "WorkflowRouteStep list \<Rightarrow> int \<Rightarrow> WorkflowRouteStep \<times> bool" where
  "WorkflowRouteStepAfter steps stepNo = route_step_after steps stepNo zero_step False"

subsection \<open>Process statuses\<close>

definition WorkflowProcessStatuses :: "string list" where
  "WorkflowProcessStatuses = [''starting'', ''running'', ''waiting'', ''completed'', ''rejected'',
     ''cancelled'', ''failed'', ''configuration_error'', ''resolved'']"

definition WorkflowProcessStatusActive :: "string \<Rightarrow> bool" where
  "WorkflowProcessStatusActive status =
     (trim_space status \<in> {''starting'', ''running'', ''waiting'', ''configuration_error''})"

subsection \<open>Outcomes\<close>

text \<open>The tasks of the decided node instance, the decided one in its new state.\<close>

definition node_tasks :: "WorkflowTask list \<Rightarrow> WorkflowTask \<Rightarrow> WorkflowTask list" where
  "node_tasks tasks decided =
     map (\<lambda>task. if wt_ID task = wt_ID decided then decided else task)
       (filter (\<lambda>task. \<not> (wt_NodeID task \<noteq> wt_NodeID decided \<or>
           wt_NodeInstanceID task \<noteq> wt_NodeInstanceID decided)) tasks)"

definition approved_count :: "WorkflowTask list \<Rightarrow> int" where
  "approved_count tasks = int (length (filter (\<lambda>t. wt_Status t = ''approved'') tasks))"

definition WorkflowTerminalRouteApprovalOutcome ::
    "WorkflowRouteStep \<Rightarrow> WorkflowTask list \<Rightarrow> WorkflowTask \<Rightarrow> string \<times> bool" where
  "WorkflowTerminalRouteApprovalOutcome step tasks decided =
     (if wt_Decision decided = ''rejected'' \<or> wt_Decision decided = ''returned''
        then (wt_Decision decided, True)
      else (let nodeTasks = node_tasks tasks decided in
        if length nodeTasks = 0 then ([], False)
        else (''approved'', approved_count nodeTasks \<ge> WorkflowRouteStepThreshold step)))"

fun find_node :: "WorkflowGraphNode list \<Rightarrow> string \<Rightarrow> WorkflowGraphNode option" where
  "find_node [] nodeID = None"
| "find_node (n # ns) nodeID = (if gn_ID n = nodeID then Some n else find_node ns nodeID)"

definition WorkflowGraphNode :: "WorkflowGraphSchema option \<Rightarrow> string \<Rightarrow> WorkflowGraphNode \<times> bool" where
  "WorkflowGraphNode graph nodeID =
     (case graph of None \<Rightarrow> (zero_node, False)
      | Some g \<Rightarrow> (case find_node (gs_Nodes g) nodeID of
                     Some n \<Rightarrow> (n, True) | None \<Rightarrow> (zero_node, False)))"

definition WorkflowTerminalApprovalOutcome ::
    "WorkflowProcessInstance \<Rightarrow> WorkflowTask list \<Rightarrow> WorkflowTask \<Rightarrow> string \<times> bool" where
  "WorkflowTerminalApprovalOutcome process tasks decided =
     (if wt_Decision decided = ''rejected'' \<or> wt_Decision decided = ''returned''
        then (wt_Decision decided, True)
      else (let nodeTasks = node_tasks tasks decided in
        if length nodeTasks = 0 then ([], False)
        else (let
            approved = approved_count nodeTasks;
            node = fst (WorkflowGraphNode (ws_Graph (wp_DefinitionSnapshot process)) (wt_NodeID decided));
            contract = WorkflowApprovalNodeContract node;
            mode0 = trim_space (ac_Mode contract);
            mode = (if mode0 = [] then ''any'' else mode0)
          in
            if mode = ''any'' then (''approved'', approved > 0)
            else if mode = ''quorum'' then
              (''approved'', ac_RequiredApprovals contract > 0 \<and> approved \<ge> ac_RequiredApprovals contract)
            else (''approved'', approved = int (length nodeTasks)))))"

definition WorkflowValidateApprovalAssigneeCount :: "WorkflowGraphNode \<Rightarrow> int \<Rightarrow> err" where
  "WorkflowValidateApprovalAssigneeCount node count = (let contract = WorkflowApprovalNodeContract node in
     if trim_space (ac_Mode contract) = ''quorum'' \<and>
        (ac_RequiredApprovals contract < 1 \<or> ac_RequiredApprovals contract > count)
     then Some (badRequest ''backend.workflow.approval_required_approvals_invalid'' [''node'', gn_ID node])
     else None)"

definition WorkflowRouteStepConfigurationMatches ::
    "WorkflowRouteStep \<Rightarrow> string list \<Rightarrow> int \<Rightarrow> bool" where
  "WorkflowRouteStepConfigurationMatches step userIDs requiredApprovals = (let
     existing = WorkflowRouteStepAssigneeIDs step;
     unique = WorkflowUniqueAssignees userIDs
   in if length existing \<noteq> length unique then False
      else if \<not> list_all (\<lambda>u. u \<in> set existing) unique then False
      else (let incoming = (if requiredApprovals = 0
               then WorkflowRouteStepThreshold
                 (zero_step \<lparr> rs_Mode := rs_Mode step, rs_AssigneeSnapshot := rs_AssigneeSnapshot step \<rparr>)
               else requiredApprovals)
            in incoming = rs_RequiredApprovals step \<or> incoming = WorkflowRouteStepThreshold step))"

text \<open>
  \<open>createdAt.Add(time.Duration(DueSeconds) * time.Second)\<close>: the product is a 64-bit number of
  nanoseconds. \<open>createdAt\<close> is in UTC, as the callers pass \<open>time.Now().UTC()\<close>.
\<close>

definition WorkflowApprovalDueAt ::
    "WorkflowApprovalNodeContract \<Rightarrow> WorkflowGraphNode \<Rightarrow> int \<Rightarrow> string" where
  "WorkflowApprovalDueAt contract node createdAt =
     (if ac_DueSeconds contract > 0
      then format_rfc3339nano (createdAt + wrap64 (ac_DueSeconds contract * second))
      else (let dueAt = sprint_trim (data_get (gn_Config node) ''due_at'') in
            if dueAt = nil_text then [] else dueAt))"

subsection \<open>Route contracts: defaults and validation\<close>

definition route_canonical :: "WorkflowApprovalRouteContract \<Rightarrow> bool" where
  "route_canonical r =
     ((trimmed (rc_Source r) \<and> rc_Source r \<noteq> []) \<and>
      (trimmed (rc_DeferredSteps r) \<and> rc_DeferredSteps r \<noteq> []) \<and>
      (trimmed (rc_DeferredConfigurer r) \<and> rc_DeferredConfigurer r \<noteq> []) \<and>
      (trimmed (rc_RevalidateOnActivation r) \<and> rc_RevalidateOnActivation r \<noteq> []) \<and>
      1 \<le> rc_MinSteps r \<and> 1 \<le> rc_MaxSteps r \<and> 1 \<le> rc_MaxAssigneesPerStep r \<and>
      list_all (\<lambda>v. trimmed v \<and> v \<noteq> []) (rc_EligibleRoles r))"

lemma trimmed_literals:
  "trimmed ''instance''" "trimmed ''deny''" "trimmed ''previous_step_approver''"
  "trimmed ''fail''" "trimmed ''any''"
  by (rule trim_space_by_edges, simp add: edge_bytes_def)+

lemma filter_map_trim:
  "list_all (\<lambda>v. trimmed v \<and> v \<noteq> []) xs \<Longrightarrow> filter (\<lambda>v. v \<noteq> []) (map trim_space xs) = xs"
  by (induction xs) auto

lemma valueOrDefault_id: "trimmed v \<Longrightarrow> v \<noteq> [] \<Longrightarrow> valueOrDefault v d = v"
  by (simp add: valueOrDefault_def)

interpretation route_defaults: normalizer WorkflowApprovalRouteDefaults route_canonical
proof unfold_locales
  fix r
  show "route_canonical (WorkflowApprovalRouteDefaults r)"
    by (auto simp: route_canonical_def WorkflowApprovalRouteDefaults_def Let_def
        valueOrDefault_trimmed valueOrDefault_nonempty trimmed_literals
        WorkflowApprovalRouteSourceInstance_def list_all_iff)
  assume "route_canonical r"
  then show "WorkflowApprovalRouteDefaults r = r"
    by (simp add: route_canonical_def WorkflowApprovalRouteDefaults_def Let_def filter_map_trim
        valueOrDefault_id)
qed

lemma route_accepted_iff:
  "WorkflowValidateApprovalRoute nodeID (Some r) = None \<longleftrightarrow>
     trim_space (rc_Source r) = WorkflowApprovalRouteSourceInstance \<and>
     1 \<le> rc_MinSteps r \<and> rc_MinSteps r \<le> rc_MaxSteps r \<and> 1 \<le> rc_MaxAssigneesPerStep r \<and>
     (\<forall>v \<in> set (rc_EligibleRoles r). trim_space v \<noteq> []) \<and>
     valueOrDefault (rc_DeferredSteps r) ''deny'' \<in> {''allow'', ''deny''} \<and>
     valueOrDefault (rc_DeferredConfigurer r) ''previous_step_approver''
       \<in> {''previous_step_approver'', ''initiator''} \<and>
     valueOrDefault (rc_RevalidateOnActivation r) ''fail'' \<in> {''fail'', ''skip_invalid'', ''admin''}"
  unfolding WorkflowValidateApprovalRoute_def valueOrDefault_trim
  by (simp add: list_ex_iff not_less)

text \<open>
  A route contract the validator accepts keeps its step range and its eligible roles under
  the defaults, so that the effective contract an approval node executes allows at least one
  step and one assignee per step, and the validator accepts the effective contract as well.
\<close>

theorem route_effective_contract:
  assumes "WorkflowValidateApprovalRoute nodeID (Some r) = None"
  shows "let d = WorkflowApprovalRouteDefaults r in
     WorkflowValidateApprovalRoute nodeID (Some d) = None \<and>
     rc_MinSteps d = rc_MinSteps r \<and> rc_MaxSteps d = rc_MaxSteps r \<and>
     rc_MaxAssigneesPerStep d = rc_MaxAssigneesPerStep r \<and>
     rc_EligibleRoles d = map trim_space (rc_EligibleRoles r) \<and>
     1 \<le> rc_MinSteps d \<and> rc_MinSteps d \<le> rc_MaxSteps d \<and>
     WorkflowApprovalRouteDefaults d = d"
proof -
  define d where "d = WorkflowApprovalRouteDefaults r"
  note acc = assms [unfolded route_accepted_iff]
  have steps: "rc_MinSteps d = rc_MinSteps r" "rc_MaxSteps d = rc_MaxSteps r"
    "rc_MaxAssigneesPerStep d = rc_MaxAssigneesPerStep r"
    using acc by (auto simp: d_def WorkflowApprovalRouteDefaults_def Let_def)
  have roles: "rc_EligibleRoles d = map trim_space (rc_EligibleRoles r)"
    using acc by (auto simp: d_def WorkflowApprovalRouteDefaults_def Let_def filter_id_conv)
  have source: "trim_space (rc_Source d) = WorkflowApprovalRouteSourceInstance"
    using acc by (simp add: d_def WorkflowApprovalRouteDefaults_def Let_def valueOrDefault_def
        WorkflowApprovalRouteSourceInstance_def trimmed_literals)
  have "WorkflowValidateApprovalRoute nodeID (Some d) = None"
    unfolding route_accepted_iff steps roles using acc source
    by (simp add: d_def WorkflowApprovalRouteDefaults_def Let_def trimmed_literals)
  with steps roles acc show ?thesis
    unfolding d_def [symmetric] Let_def by (simp add: d_def route_defaults.normalize_idem)
qed

theorem route_effective_contract_witness:
  "let r = zero_route \<lparr> rc_Source := '' instance'', rc_MinSteps := 2, rc_MaxSteps := 3,
      rc_MaxAssigneesPerStep := 4, rc_EligibleRoles := ['' hr '', ''cfo''] \<rparr>;
      d = WorkflowApprovalRouteDefaults r in
     rc_EligibleRoles d = [''hr'', ''cfo''] \<and> rc_MaxSteps d = 3 \<and>
     WorkflowApprovalRouteDefaults d = d"
  using route_effective_contract
    [of "''n''" "zero_route \<lparr> rc_Source := '' instance'', rc_MinSteps := 2, rc_MaxSteps := 3,
      rc_MaxAssigneesPerStep := 4, rc_EligibleRoles := ['' hr '', ''cfo''] \<rparr>"]
  by code_simp

subsection \<open>Electorates\<close>

text \<open>
  What both kinds of approval node promise of their electorate: a valid one needs at least one
  approval and never more than it has members.
\<close>

locale electorate =
  fixes valid :: "'e \<Rightarrow> bool" and members :: "'e \<Rightarrow> int" and quorum :: "'e \<Rightarrow> int"
  assumes quorum_positive: "valid e \<Longrightarrow> 1 \<le> quorum e"
    and quorum_attainable: "valid e \<Longrightarrow> quorum e \<le> members e"
begin

lemma unanimous_completes:
  assumes "valid e" "int (length ts) = members e" "\<forall>t \<in> set ts. wt_Status t = ''approved''"
  shows "quorum e \<le> approved_count ts"
  using assms quorum_attainable [of e] by (simp add: approved_count_def)

lemma completion_has_approval:
  assumes "valid e" "quorum e \<le> approved_count ts"
  shows "\<exists>t \<in> set ts. wt_Status t = ''approved''"
proof (rule ccontr)
  assume "\<not> ?thesis"
  then have "approved_count ts = 0" by (simp add: approved_count_def filter_empty_conv)
  with assms quorum_positive [of e] show False by simp
qed

end

lemma approved_count_mono:
  assumes "list_all2 (\<lambda>t u. wt_Status t = ''approved'' \<longrightarrow> wt_Status u = ''approved'') ts us"
  shows "approved_count ts \<le> approved_count us"
  using assms by (induction rule: list_all2_induct) (auto simp: approved_count_def)

interpretation route_electorate: electorate "\<lambda>step. rs_AssigneeSnapshot step \<noteq> []"
  "\<lambda>step. int (length (rs_AssigneeSnapshot step))" WorkflowRouteStepThreshold
proof unfold_locales
  fix step :: WorkflowRouteStep
  assume "rs_AssigneeSnapshot step \<noteq> []"
  then have "1 \<le> int (length (rs_AssigneeSnapshot step))" by (cases "rs_AssigneeSnapshot step") auto
  then show "1 \<le> WorkflowRouteStepThreshold step"
    and "WorkflowRouteStepThreshold step \<le> int (length (rs_AssigneeSnapshot step))"
    by (auto simp: WorkflowRouteStepThreshold_def Let_def)
qed

text \<open>
  The number of approvals the template-driven contract asks of \<open>total\<close> tasks: the specification
  of the three branches of \<open>WorkflowTerminalApprovalOutcome\<close>.
\<close>

definition template_quorum :: "WorkflowApprovalNodeContract \<Rightarrow> int \<Rightarrow> int" where
  "template_quorum c n = (let mode = valueOrDefault (ac_Mode c) ''any'' in
     if mode = ''any'' then 1 else if mode = ''quorum'' then ac_RequiredApprovals c else n)"

interpretation template_electorate: electorate
  "\<lambda>(node, n). 0 < n \<and> WorkflowValidateApprovalAssigneeCount node n = None"
  "\<lambda>(node, n). n"
  "\<lambda>(node, n). template_quorum (WorkflowApprovalNodeContract node) n"
  by unfold_locales
     (auto simp: template_quorum_def WorkflowValidateApprovalAssigneeCount_def Let_def
        valueOrDefault_def split: if_splits)

definition decided_node :: "WorkflowProcessInstance \<Rightarrow> WorkflowTask \<Rightarrow> WorkflowGraphNode" where
  "decided_node process decided =
     fst (WorkflowGraphNode (ws_Graph (wp_DefinitionSnapshot process)) (wt_NodeID decided))"

definition same_task :: "WorkflowTask \<Rightarrow> WorkflowTask \<Rightarrow> bool" where
  "same_task t decided \<longleftrightarrow> wt_ID t = wt_ID decided \<and> wt_NodeID t = wt_NodeID decided \<and>
     wt_NodeInstanceID t = wt_NodeInstanceID decided"

lemma node_tasks_nonempty: "\<exists>t \<in> set tasks. same_task t decided \<Longrightarrow> node_tasks tasks decided \<noteq> []"
  by (auto simp: node_tasks_def same_task_def filter_empty_conv)

lemma approved_count_le: "approved_count ts \<le> int (length ts)"
  by (simp add: approved_count_def)

text \<open>
  C2: the outcome of a template-driven approval node refines the quorum specification: a veto
  (rejected or returned) always completes the node with that decision; otherwise, for an
  electorate whose size passed \<open>WorkflowValidateApprovalAssigneeCount\<close>, the node completes as
  approved exactly when the approvals reach the quorum of its mode, a quorum that is at least
  one and at most the number of its tasks.
\<close>

theorem terminal_approval_outcome_spec:
  assumes "\<exists>t \<in> set tasks. same_task t decided"
    and "WorkflowValidateApprovalAssigneeCount (decided_node process decided)
           (int (length (node_tasks tasks decided))) = None"
  shows "let n = int (length (node_tasks tasks decided));
             q = template_quorum (WorkflowApprovalNodeContract (decided_node process decided)) n
     in WorkflowTerminalApprovalOutcome process tasks decided =
          (if wt_Decision decided \<in> {''rejected'', ''returned''} then (wt_Decision decided, True)
           else (''approved'', q \<le> approved_count (node_tasks tasks decided))) \<and>
        1 \<le> q \<and> q \<le> n"
proof -
  let ?ts = "node_tasks tasks decided"
  define node where "node = decided_node process decided"
  define n where "n = int (length ?ts)"
  have ne: "?ts \<noteq> []" using assms(1) by (rule node_tasks_nonempty)
  then have pos: "0 < n" by (simp add: n_def)
  have q: "1 \<le> template_quorum (WorkflowApprovalNodeContract node) n"
    "template_quorum (WorkflowApprovalNodeContract node) n \<le> n"
    using template_electorate.quorum_positive [of "(node, n)"]
      template_electorate.quorum_attainable [of "(node, n)"] assms(2) pos
    by (auto simp: node_def n_def)
  have le: "approved_count ?ts \<le> n" unfolding n_def by (rule approved_count_le)
  have "WorkflowTerminalApprovalOutcome process tasks decided =
      (if wt_Decision decided \<in> {''rejected'', ''returned''} then (wt_Decision decided, True)
       else (''approved'', template_quorum (WorkflowApprovalNodeContract node) n
         \<le> approved_count ?ts))"
  proof (cases "wt_Decision decided \<in> {''rejected'', ''returned''}")
    case True
    then show ?thesis by (auto simp: WorkflowTerminalApprovalOutcome_def)
  next
    case False
    with ne q le show ?thesis
      unfolding WorkflowTerminalApprovalOutcome_def Let_def n_def [symmetric]
        decided_node_def [symmetric] node_def [symmetric]
      by (auto simp: template_quorum_def valueOrDefault_def Let_def split: if_splits)
  qed
  with q show ?thesis unfolding Let_def n_def [symmetric] node_def [symmetric] by blast
qed

definition example_task :: "string \<Rightarrow> string \<Rightarrow> string \<Rightarrow> WorkflowTask" where
  "example_task i status decision = zero_task \<lparr> wt_WorkspaceID := ''w'', wt_ID := i, wt_ProcessID := ''p'',
     wt_NodeInstanceID := ''ni'', wt_NodeID := ''n1'', wt_AssigneeUserID := ''u'', wt_Sequence := 1,
     wt_Status := status, wt_Decision := decision \<rparr>"

definition example_process :: "string \<Rightarrow> int \<Rightarrow> WorkflowProcessInstance" where
  "example_process mode required = \<lparr> wp_WorkspaceID = ''w'', wp_ID = ''p'', wp_WorkflowKey = ''k'',
     wp_WorkflowName = [], wp_DefinitionVersionID = [], wp_DefinitionVersion = 1,
     wp_DefinitionHash = [], wp_DefinitionSnapshot = \<lparr> ws_DefinitionVersionID = [],
       ws_PublishedVersion = 1, ws_Key = ''k'', ws_Name = [], ws_Action = [], ws_TriggerContract = None,
       ws_ConditionContract = None, ws_Enabled = True, ws_RunAs = [], ws_IdempotencyKeys = [],
       ws_Retry = None, ws_TimeoutSeconds = 0,
       ws_Graph = Some \<lparr> gs_Version = 2, gs_Nodes = [zero_node \<lparr> gn_ID := ''n1'',
         gn_Type := ''approval'', gn_Contract := Some \<lparr> nc_Condition = None,
           nc_Approval = Some (zero_approval \<lparr> ac_Mode := mode, ac_RequiredApprovals := required \<rparr>),
           nc_Action = None, nc_CC = None, nc_Timer = None, nc_AgentTask = None \<rparr> \<rparr>],
         gs_Edges = [] \<rparr> \<rparr>,
     wp_ObjectKey = [], wp_RecordID = [], wp_InitiatorID = [], wp_InitiatorRoleKey = [],
     wp_Status = ''waiting'', wp_CurrentNodeIDs = [''n1''], wp_Variables = [], wp_Result = [],
     wp_ErrorCode = [], wp_CreatedAt = [], wp_UpdatedAt = [], wp_CompletedAt = [],
     wp_CurrentNodeNames = [], wp_FailedNodeNames = [], wp_WaitingSeconds = 0,
     wp_WorkflowRetryCount = 0, wp_BusinessOutcome = [] \<rparr>"

theorem terminal_approval_outcome_spec_witness:
  "WorkflowTerminalApprovalOutcome (example_process ''quorum'' 2)
     [example_task ''a'' ''approved'' ''approved'', example_task ''b'' ''open'' [],
      example_task ''c'' ''open'' []]
     (example_task ''b'' ''approved'' ''approved'') = (''approved'', True) \<and>
   WorkflowTerminalApprovalOutcome (example_process ''quorum'' 3)
     [example_task ''a'' ''approved'' ''approved'', example_task ''b'' ''open'' [],
      example_task ''c'' ''open'' []]
     (example_task ''b'' ''approved'' ''approved'') = (''approved'', False)"
  using terminal_approval_outcome_spec
      [of "[example_task ''a'' ''approved'' ''approved'', example_task ''b'' ''open'' [],
         example_task ''c'' ''open'' []]" "example_task ''b'' ''approved'' ''approved''"
         "example_process ''quorum'' 2"]
    terminal_approval_outcome_spec
      [of "[example_task ''a'' ''approved'' ''approved'', example_task ''b'' ''open'' [],
         example_task ''c'' ''open'' []]" "example_task ''b'' ''approved'' ''approved''"
         "example_process ''quorum'' 3"]
  by code_simp

text \<open>
  C9: the threshold of a route step with a non-empty electorate is between one and the number of
  its assignees, so the step completes when every assignee has approved, never completes as
  approved without an approval, and stays complete when further tasks become approved.
\<close>

theorem route_step_threshold_attainable:
  assumes "rs_AssigneeSnapshot step \<noteq> []"
  shows "1 \<le> WorkflowRouteStepThreshold step \<and>
     WorkflowRouteStepThreshold step \<le> int (length (rs_AssigneeSnapshot step)) \<and>
     (\<forall>tasks decided. node_tasks tasks decided \<noteq> [] \<longrightarrow>
        wt_Decision decided \<notin> {''rejected'', ''returned''} \<longrightarrow>
        (length (node_tasks tasks decided) = length (rs_AssigneeSnapshot step) \<longrightarrow>
         (\<forall>t \<in> set (node_tasks tasks decided). wt_Status t = ''approved'') \<longrightarrow>
           WorkflowTerminalRouteApprovalOutcome step tasks decided = (''approved'', True)) \<and>
        (WorkflowTerminalRouteApprovalOutcome step tasks decided = (''approved'', True) \<longrightarrow>
           (\<exists>t \<in> set (node_tasks tasks decided). wt_Status t = ''approved'') \<and>
           (\<forall>tasks' decided'. wt_Decision decided' \<notin> {''rejected'', ''returned''} \<longrightarrow>
              list_all2 (\<lambda>t u. wt_Status t = ''approved'' \<longrightarrow> wt_Status u = ''approved'')
                (node_tasks tasks decided) (node_tasks tasks' decided') \<longrightarrow>
              WorkflowTerminalRouteApprovalOutcome step tasks' decided' = (''approved'', True))))"
proof (intro conjI allI impI)
  show "1 \<le> WorkflowRouteStepThreshold step"
    using assms by (rule route_electorate.quorum_positive)
  show "WorkflowRouteStepThreshold step \<le> int (length (rs_AssigneeSnapshot step))"
    using assms by (rule route_electorate.quorum_attainable)
next
  fix tasks decided
  assume "node_tasks tasks decided \<noteq> []" "wt_Decision decided \<notin> {''rejected'', ''returned''}"
    "length (node_tasks tasks decided) = length (rs_AssigneeSnapshot step)"
    "\<forall>t \<in> set (node_tasks tasks decided). wt_Status t = ''approved''"
  then show "WorkflowTerminalRouteApprovalOutcome step tasks decided = (''approved'', True)"
    using route_electorate.unanimous_completes [OF assms, of "node_tasks tasks decided"]
    by (auto simp: WorkflowTerminalRouteApprovalOutcome_def Let_def)
next
  fix tasks decided
  assume a: "node_tasks tasks decided \<noteq> []" "wt_Decision decided \<notin> {''rejected'', ''returned''}"
    "WorkflowTerminalRouteApprovalOutcome step tasks decided = (''approved'', True)"
  then have q: "WorkflowRouteStepThreshold step \<le> approved_count (node_tasks tasks decided)"
    by (auto simp: WorkflowTerminalRouteApprovalOutcome_def Let_def split: if_splits)
  then show "\<exists>t \<in> set (node_tasks tasks decided). wt_Status t = ''approved''"
    using route_electorate.completion_has_approval [OF assms] by blast
  fix tasks' decided'
  assume b: "wt_Decision decided' \<notin> {''rejected'', ''returned''}"
    "list_all2 (\<lambda>t u. wt_Status t = ''approved'' \<longrightarrow> wt_Status u = ''approved'')
       (node_tasks tasks decided) (node_tasks tasks' decided')"
  then have "node_tasks tasks' decided' \<noteq> []" using a(1) by auto
  with b(1) q approved_count_mono [OF b(2)]
  show "WorkflowTerminalRouteApprovalOutcome step tasks' decided' = (''approved'', True)"
    by (auto simp: WorkflowTerminalRouteApprovalOutcome_def Let_def)
qed

definition example_step :: "string \<Rightarrow> int \<Rightarrow> string list \<Rightarrow> WorkflowRouteStep" where
  "example_step mode required users = zero_step \<lparr> rs_Mode := mode, rs_RequiredApprovals := required,
     rs_AssigneeSnapshot :=
       map (\<lambda>u. \<lparr> ra_UserID = u, ra_DisplayName = [], ra_RoleKey = [] \<rparr>) users \<rparr>"

theorem route_step_threshold_attainable_witness:
  "WorkflowRouteStepThreshold (example_step ''quorum'' 5 [''u1'', ''u2'']) \<le> 2 \<and>
   1 \<le> WorkflowRouteStepThreshold (example_step ''quorum'' 5 [''u1'', ''u2''])"
  using route_step_threshold_attainable [of "example_step ''quorum'' 5 [''u1'', ''u2'']"]
  by (simp add: example_step_def)

subsection \<open>Step order and step configuration\<close>

lemma route_step_after_found:
  "found \<Longrightarrow> stepNo < rs_StepNo best \<Longrightarrow> route_step_after steps stepNo best found = (s, ok) \<Longrightarrow>
     ok \<and> (s = best \<or> s \<in> set steps) \<and> stepNo < rs_StepNo s \<and> rs_StepNo s \<le> rs_StepNo best \<and>
     (\<forall>t \<in> set steps. stepNo < rs_StepNo t \<longrightarrow> rs_StepNo s \<le> rs_StepNo t)"
proof (induction steps stepNo best found rule: route_step_after.induct)
  case (2 step steps stepNo best found)
  consider "rs_StepNo step \<le> stepNo" | "stepNo < rs_StepNo step" "rs_StepNo step < rs_StepNo best"
    | "stepNo < rs_StepNo step" "rs_StepNo best \<le> rs_StepNo step" by linarith
  then show ?case using 2 by cases fastforce+
qed auto

lemma route_step_after_start:
  "route_step_after steps stepNo best False = (s, ok) \<Longrightarrow>
     (if \<exists>t \<in> set steps. stepNo < rs_StepNo t
      then ok \<and> s \<in> set steps \<and> stepNo < rs_StepNo s \<and>
        (\<forall>t \<in> set steps. stepNo < rs_StepNo t \<longrightarrow> rs_StepNo s \<le> rs_StepNo t)
      else \<not> ok \<and> s = best)"
proof (induction steps)
  case (Cons step steps)
  show ?case
  proof (cases "rs_StepNo step \<le> stepNo")
    case True
    with Cons show ?thesis by (auto split: if_splits)
  next
    case False
    with Cons.prems route_step_after_found [of True stepNo step steps s ok] show ?thesis by auto
  qed
qed simp

text \<open>
  \<open>WorkflowRouteStepAfter\<close> finds a step exactly when one with a greater number exists, and
  then returns a step of the route whose number is the least one above \<open>stepNo\<close>: advancing
  through a route skips no step.
\<close>

theorem route_step_after_least:
  "case WorkflowRouteStepAfter steps stepNo of (s, found) \<Rightarrow>
     found = list_ex (\<lambda>t. stepNo < rs_StepNo t) steps \<and>
     (if found then s \<in> set steps \<and> stepNo < rs_StepNo s \<and>
          \<not> list_ex (\<lambda>t. stepNo < rs_StepNo t \<and> rs_StepNo t < rs_StepNo s) steps
      else s = zero_step)"
proof -
  obtain s found where r: "WorkflowRouteStepAfter steps stepNo = (s, found)" by fastforce
  from route_step_after_start [OF r [unfolded WorkflowRouteStepAfter_def]] show ?thesis
    by (auto simp: r list_ex_iff not_less split: if_splits)
qed

text \<open>
  \<open>WorkflowRouteStepConfigurationMatches\<close> accepts a replayed configuration exactly when the
  stored electorate is repetition-free and is the set of the trimmed, non-empty incoming users,
  and the incoming count (or, where the request leaves it open, the threshold of the step's mode
  without a count) is the stored count or the stored threshold: a replay of the same request is
  recognised whatever the order or repetition of its users, and a request with other assignees is
  never taken for the one already applied.
\<close>

theorem configuration_matches_iff:
  "WorkflowRouteStepConfigurationMatches step userIDs requiredApprovals \<longleftrightarrow>
     distinct (WorkflowRouteStepAssigneeIDs step) \<and>
     set (WorkflowRouteStepAssigneeIDs step) = trim_space ` set userIDs - {[]} \<and>
     (if requiredApprovals = 0
      then WorkflowRouteStepThreshold
        (zero_step \<lparr> rs_Mode := rs_Mode step, rs_AssigneeSnapshot := rs_AssigneeSnapshot step \<rparr>)
      else requiredApprovals) \<in> {rs_RequiredApprovals step, WorkflowRouteStepThreshold step}"
proof -
  let ?e = "WorkflowRouteStepAssigneeIDs step" and ?u = "WorkflowUniqueAssignees userIDs"
  have set_u: "set ?u = trim_space ` set userIDs - {[]}"
    by (auto simp: WorkflowUniqueAssignees_set)
  have card_u: "card (set ?u) = length ?u"
    by (simp add: distinct_card WorkflowUniqueAssignees_distinct)
  have same: "length ?e = length ?u \<and> set ?u \<subseteq> set ?e \<longleftrightarrow> distinct ?e \<and> set ?e = set ?u"
  proof
    assume a: "length ?e = length ?u \<and> set ?u \<subseteq> set ?e"
    then have "card (set ?e) \<le> card (set ?u)" using card_length [of ?e] card_u by simp
    with a have eq: "set ?u = set ?e" by (intro card_seteq) auto
    with a card_u show "distinct ?e \<and> set ?e = set ?u" by (simp add: card_distinct)
  next
    assume "distinct ?e \<and> set ?e = set ?u"
    then show "length ?e = length ?u \<and> set ?u \<subseteq> set ?e" using card_u by (metis distinct_card subset_refl)
  qed
  show ?thesis
    unfolding WorkflowRouteStepConfigurationMatches_def Let_def set_u [symmetric]
    using same by (auto simp: list_all_iff)
qed

end
