(* ===== verification/Graph_Search.thy ===== *)
theory Graph_Search
  imports Go_Prelude
begin

text \<open>
  The recursive closure \<open>visit\<close> of \<open>WorkflowValidateGraph\<close>
  (\<open>runtime/domain/workflow/policy/workflow_graph_policy.go\<close>): a depth-first search that keeps
  the nodes on the stack in \<open>visiting\<close> and the finished ones in \<open>visited\<close>, and reports a cycle
  when it meets a node of the stack. The model returns the two maps as the lists of their true
  keys, the finished nodes in the order they finished (latest first), and spends one unit of
  fuel per level of the recursion; \<open>visit_enough_fuel\<close> shows that one more unit than there are
  nodes is enough.

  The locale \<open>dfs_graph\<close> is what the search relies on: the successors of a node are nodes of
  the graph.
\<close>

datatype 'a dfs_result = OutOfFuel | CycleFound | Visited "'a list" "'a list"

fun visit :: "nat \<Rightarrow> ('a \<Rightarrow> 'a list) \<Rightarrow> 'a \<Rightarrow> 'a list \<Rightarrow> 'a list \<Rightarrow> 'a dfs_result"
and visit_all :: "nat \<Rightarrow> ('a \<Rightarrow> 'a list) \<Rightarrow> 'a list \<Rightarrow> 'a list \<Rightarrow> 'a list \<Rightarrow> 'a dfs_result" where
  "visit 0 adj x visiting visited = OutOfFuel"
| "visit (Suc n) adj x visiting visited =
     (if x \<in> set visiting then CycleFound
      else if x \<in> set visited then Visited visiting visited
      else (case visit_all n adj (adj x) (x # visiting) visited of
              Visited visiting' visited' \<Rightarrow> Visited (removeAll x visiting') (x # visited')
            | r \<Rightarrow> r))"
| "visit_all n adj [] visiting visited = Visited visiting visited"
| "visit_all n adj (t # ts) visiting visited =
     (case visit n adj t visiting visited of
        Visited visiting' visited' \<Rightarrow> visit_all n adj ts visiting' visited'
      | r \<Rightarrow> r)"

definition succ_rel :: "('a \<Rightarrow> 'a list) \<Rightarrow> ('a \<times> 'a) set" where
  "succ_rel adj = {(x, y). y \<in> set (adj x)}"

text \<open>A list in which every element's successors stand behind it.\<close>

fun topo :: "('a \<Rightarrow> 'a list) \<Rightarrow> 'a list \<Rightarrow> bool" where
  "topo adj [] = True"
| "topo adj (x # xs) = (x \<notin> set xs \<and> set (adj x) \<subseteq> set xs \<and> topo adj xs)"

lemma topo_distinct: "topo adj xs \<Longrightarrow> distinct xs"
  by (induction xs) auto

lemma topo_step: "topo adj xs \<Longrightarrow> x \<in> set xs \<Longrightarrow> y \<in> set (adj x) \<Longrightarrow> y \<in> set xs"
  by (induction xs) auto

lemma topo_closed:
  assumes "(x, y) \<in> (succ_rel adj)\<^sup>*" "topo adj xs" "x \<in> set xs"
  shows "y \<in> set xs"
  using assms by (induction rule: rtrancl_induct) (auto simp: succ_rel_def intro: topo_step)

lemma topo_acyclic: "topo adj xs \<Longrightarrow> x \<in> set xs \<Longrightarrow> (x, x) \<notin> (succ_rel adj)\<^sup>+"
proof (induction xs)
  case (Cons a xs)
  show ?case
  proof (cases "x = a")
    case False
    with Cons show ?thesis by simp
  next
    case True
    show ?thesis
    proof
      assume "(x, x) \<in> (succ_rel adj)\<^sup>+"
      then obtain b where b: "(x, b) \<in> succ_rel adj" "(b, x) \<in> (succ_rel adj)\<^sup>*"
        by (meson tranclD)
      with True Cons.prems have "b \<in> set xs" by (auto simp: succ_rel_def)
      with b(2) Cons.prems have "x \<in> set xs" by (auto intro: topo_closed)
      with True Cons.prems show False by simp
    qed
  qed
qed simp

subsection \<open>Facts about the search that need no assumption on the graph\<close>

lemma visit_VisitedE:
  assumes "visit (Suc n) adj x vg vd = Visited vg' vd'"
  obtains "x \<in> set vd" "vg' = vg" "vd' = vd"
  | vg1 vd1 where "x \<notin> set vg" "x \<notin> set vd"
      "visit_all n adj (adj x) (x # vg) vd = Visited vg1 vd1"
      "vg' = removeAll x vg1" "vd' = x # vd1"
  using assms by (auto split: if_splits dfs_result.splits)

lemma visit_all_VisitedE:
  assumes "visit_all n adj (t # ts) vg vd = Visited vg' vd'"
  obtains vg1 vd1 where "visit n adj t vg vd = Visited vg1 vd1"
    "visit_all n adj ts vg1 vd1 = Visited vg' vd'"
  using assms by (auto split: dfs_result.splits)

lemma visit_visiting:
  shows "visit n adj x vg vd = Visited vg' vd' \<Longrightarrow> vg' = vg"
    and "visit_all n adj ts vg vd = Visited vg' vd' \<Longrightarrow> vg' = vg"
proof (induction n adj x vg vd and n adj ts vg vd arbitrary: vg' vd' and vg' vd'
    rule: visit_visit_all.induct)
  case (2 n adj x vg vd)
  from "2.prems" show ?case
  proof (cases rule: visit_VisitedE)
    case (2 vg1 vd1)
    with "2.IH" have "vg1 = x # vg" by blast
    with 2 show ?thesis by simp
  qed simp
next
  case (4 n adj t ts vg vd)
  from "4.prems" show ?case
  proof (cases rule: visit_all_VisitedE)
    case (1 vg1 vd1)
    with "4.IH" have "vg1 = vg" by blast
    moreover from 1 "4.IH" have "vg' = vg1" by blast
    ultimately show ?thesis by simp
  qed
qed auto

lemma visit_topo:
  shows "visit n adj x vg vd = Visited vg' vd' \<Longrightarrow> topo adj vd \<Longrightarrow> set vg \<inter> set vd = {} \<Longrightarrow>
      topo adj vd' \<and> set vd \<subseteq> set vd' \<and> x \<in> set vd' \<and> set vg \<inter> set vd' = {}"
    and "visit_all n adj ts vg vd = Visited vg' vd' \<Longrightarrow> topo adj vd \<Longrightarrow> set vg \<inter> set vd = {} \<Longrightarrow>
      topo adj vd' \<and> set vd \<subseteq> set vd' \<and> set ts \<subseteq> set vd' \<and> set vg \<inter> set vd' = {}"
proof (induction n adj x vg vd and n adj ts vg vd arbitrary: vg' vd' and vg' vd'
    rule: visit_visit_all.induct)
  case (2 n adj x vg vd)
  show ?case
  proof (cases "x \<in> set vd")
    case True
    with "2.prems" show ?thesis by (auto split: if_splits)
  next
    case False
    with "2.prems"(1) have nvg: "x \<notin> set vg" by (auto split: if_splits)
    with False "2.prems"(1) obtain vg1 vd1
      where r: "visit_all n adj (adj x) (x # vg) vd = Visited vg1 vd1" "vd' = x # vd1"
      by (auto split: dfs_result.splits)
    have "topo adj vd1 \<and> set vd \<subseteq> set vd1 \<and> set (adj x) \<subseteq> set vd1 \<and> set (x # vg) \<inter> set vd1 = {}"
      by (rule "2.IH" [OF nvg False r(1) "2.prems"(2)]) (use False "2.prems"(3) in auto)
    with r nvg show ?thesis by auto
  qed
next
  case (4 n adj t ts vg vd)
  from "4.prems"(1) obtain vg1 vd1 where r: "visit n adj t vg vd = Visited vg1 vd1"
    "visit_all n adj ts vg1 vd1 = Visited vg' vd'"
    by (auto split: dfs_result.splits)
  have eq: "vg1 = vg" by (rule visit_visiting(1) [OF r(1)])
  have a: "topo adj vd1 \<and> set vd \<subseteq> set vd1 \<and> t \<in> set vd1 \<and> set vg \<inter> set vd1 = {}"
    by (rule "4.IH"(1) [OF r(1) "4.prems"(2,3)])
  have "topo adj vd' \<and> set vd1 \<subseteq> set vd' \<and> set ts \<subseteq> set vd' \<and> set vg1 \<inter> set vd' = {}"
    by (rule "4.IH"(2) [OF r(1) r(2)]) (use a eq in auto)
  with a eq show ?case by auto
qed auto

lemma visit_reach:
  shows "visit n adj x vg vd = Visited vg' vd' \<Longrightarrow> y \<in> set vd' \<Longrightarrow>
      y \<in> set vd \<or> (x, y) \<in> (succ_rel adj)\<^sup>*"
    and "visit_all n adj ts vg vd = Visited vg' vd' \<Longrightarrow> y \<in> set vd' \<Longrightarrow>
      y \<in> set vd \<or> (\<exists>t \<in> set ts. (t, y) \<in> (succ_rel adj)\<^sup>*)"
proof (induction n adj x vg vd and n adj ts vg vd arbitrary: vg' vd' and vg' vd'
    rule: visit_visit_all.induct)
  case (2 n adj x vg vd)
  show ?case
  proof (cases "x \<in> set vg \<or> x \<in> set vd")
    case True
    with "2.prems" show ?thesis by (auto split: if_splits)
  next
    case False
    with "2.prems"(1) obtain vg1 vd1
      where r: "visit_all n adj (adj x) (x # vg) vd = Visited vg1 vd1" "vd' = x # vd1"
      by (auto split: dfs_result.splits)
    from r "2.prems"(2) have "y = x \<or> y \<in> set vd1" by simp
    then show ?thesis
    proof
      assume "y \<in> set vd1"
      with "2.IH" False r have "y \<in> set vd \<or> (\<exists>t \<in> set (adj x). (t, y) \<in> (succ_rel adj)\<^sup>*)"
        by blast
      then show ?thesis
        by (auto simp: succ_rel_def intro: converse_rtrancl_into_rtrancl)
    qed simp
  qed
next
  case (4 n adj t ts vg vd)
  from "4.prems"(1) obtain vg1 vd1 where r: "visit n adj t vg vd = Visited vg1 vd1"
    "visit_all n adj ts vg1 vd1 = Visited vg' vd'"
    by (auto split: dfs_result.splits)
  from "4.IH"(2) [OF r(1) r(2) "4.prems"(2)] "4.IH"(1) [OF r(1)] show ?case by auto
qed auto

text \<open>The stack: each node on it is a successor of the one below.\<close>

fun stack_ok :: "('a \<Rightarrow> 'a list) \<Rightarrow> 'a list \<Rightarrow> bool" where
  "stack_ok adj (x # y # zs) = (x \<in> set (adj y) \<and> stack_ok adj (y # zs))"
| "stack_ok adj _ = True"

lemma stack_path: "stack_ok adj (x # ys) \<Longrightarrow> y \<in> set ys \<Longrightarrow> (y, x) \<in> (succ_rel adj)\<^sup>+"
proof (induction ys arbitrary: x)
  case (Cons z zs)
  then have zx: "(z, x) \<in> succ_rel adj" and ok: "stack_ok adj (z # zs)"
    by (auto simp: succ_rel_def)
  show ?case
  proof (cases "y = z")
    case True
    with zx show ?thesis by auto
  next
    case False
    with Cons.prems Cons.IH [OF ok] have "(y, z) \<in> (succ_rel adj)\<^sup>+" by simp
    with zx show ?thesis by (rule trancl_into_trancl [rotated])
  qed
qed simp

lemma visit_cycle:
  shows "visit n adj x vg vd = CycleFound \<Longrightarrow> stack_ok adj (x # vg) \<Longrightarrow>
      \<exists>z. (z, z) \<in> (succ_rel adj)\<^sup>+"
    and "visit_all n adj ts vg vd = CycleFound \<Longrightarrow> stack_ok adj vg \<Longrightarrow> vg \<noteq> [] \<Longrightarrow>
      set ts \<subseteq> set (adj (hd vg)) \<Longrightarrow> \<exists>z. (z, z) \<in> (succ_rel adj)\<^sup>+"
proof (induction n adj x vg vd and n adj ts vg vd rule: visit_visit_all.induct)
  case (2 n adj x vg vd)
  show ?case
  proof (cases "x \<in> set vg")
    case True
    with "2.prems" show ?thesis by (blast dest: stack_path)
  next
    case False
    with "2.prems"(1) have "x \<notin> set vd" "visit_all n adj (adj x) (x # vg) vd = CycleFound"
      by (auto split: if_splits dfs_result.splits)
    with "2.IH" False "2.prems"(2) show ?thesis by simp
  qed
next
  case (4 n adj t ts vg vd)
  have ok: "stack_ok adj (t # vg)" using "4.prems" by (cases vg) auto
  show ?case
  proof (cases "visit n adj t vg vd")
    case (Visited vg1 vd1)
    with visit_visiting(1) [OF Visited] "4.IH"(2) [OF Visited] "4.prems" show ?thesis by simp
  qed (use "4.IH"(1) ok "4.prems"(1) in auto)
qed auto

subsection \<open>Fuel\<close>

text \<open>
  The stack holds distinct nodes of the graph, so the recursion is never deeper than there are
  nodes.
\<close>

lemma visit_enough_fuel:
  fixes nodes :: "'a list"
  shows "(\<And>z. z \<in> set nodes \<Longrightarrow> set (adj z) \<subseteq> set nodes) \<Longrightarrow> x \<in> set nodes \<Longrightarrow>
      set vg \<subseteq> set nodes \<Longrightarrow> distinct vg \<Longrightarrow> card (set nodes) - length vg < n \<Longrightarrow>
      visit n adj x vg vd \<noteq> OutOfFuel"
    and "(\<And>z. z \<in> set nodes \<Longrightarrow> set (adj z) \<subseteq> set nodes) \<Longrightarrow> set ts \<subseteq> set nodes \<Longrightarrow>
      set vg \<subseteq> set nodes \<Longrightarrow> distinct vg \<Longrightarrow> card (set nodes) - length vg < n \<Longrightarrow>
      visit_all n adj ts vg vd \<noteq> OutOfFuel"
proof (induction n adj x vg vd and n adj ts vg vd rule: visit_visit_all.induct)
  case (2 n adj x vg vd)
  show ?case
  proof (cases "x \<in> set vg \<or> x \<in> set vd")
    case True
    then show ?thesis by auto
  next
    case False
    have "card (set (x # vg)) \<le> card (set nodes)"
      using "2.prems"(2,3) by (intro card_mono) auto
    moreover have card: "card (set (x # vg)) = Suc (length vg)"
      using False "2.prems"(4) by (simp add: distinct_card)
    ultimately have "card (set nodes) - length (x # vg) < n"
      using "2.prems"(5) by simp
    then have "visit_all n adj (adj x) (x # vg) vd \<noteq> OutOfFuel"
      using "2.IH" "2.prems"(1-4) False by simp
    with False show ?thesis by (auto split: dfs_result.splits)
  qed
next
  case (4 n adj t ts vg vd)
  have t: "visit n adj t vg vd \<noteq> OutOfFuel"
    by (rule "4.IH"(1)) (use "4.prems" in auto)
  show ?case
  proof (cases "visit n adj t vg vd")
    case (Visited vg1 vd1)
    from visit_visiting(1) [OF this] have eq: "vg1 = vg" .
    have "visit_all n adj ts vg vd1 \<noteq> OutOfFuel"
      using "4.IH"(2) [OF Visited] eq "4.prems" by simp
    with Visited eq show ?thesis by simp
  qed (use t in auto)
qed auto

subsection \<open>Graphs whose edges stay inside\<close>

locale dfs_graph =
  fixes adj :: "'a \<Rightarrow> 'a list" and nodes :: "'a list"
  assumes closed: "x \<in> set nodes \<Longrightarrow> set (adj x) \<subseteq> set nodes"
begin

lemma run_returns:
  assumes "root \<in> set nodes"
  shows "visit (Suc (length nodes)) adj root [] [] \<noteq> OutOfFuel"
  by (rule visit_enough_fuel(1) [where nodes = nodes])
     (use closed assms in \<open>auto simp: less_Suc_eq_le card_length\<close>)

lemma run_visited:
  assumes "visit n adj root [] [] = Visited vg vd"
  shows "set vd = {y. (root, y) \<in> (succ_rel adj)\<^sup>*}" and "distinct vd"
    and "(root, y) \<in> (succ_rel adj)\<^sup>* \<Longrightarrow> (y, y) \<notin> (succ_rel adj)\<^sup>+"
proof -
  from visit_topo(1) [OF assms] have t: "topo adj vd" "root \<in> set vd" by auto
  show eq: "set vd = {y. (root, y) \<in> (succ_rel adj)\<^sup>*}"
    using visit_reach(1) [OF assms] topo_closed [OF _ t] by auto
  show "distinct vd" by (rule topo_distinct [OF t(1)])
  show "(root, y) \<in> (succ_rel adj)\<^sup>* \<Longrightarrow> (y, y) \<notin> (succ_rel adj)\<^sup>+"
    using topo_acyclic [OF t(1)] eq by auto
qed

lemma run_cycle:
  assumes "visit n adj root [] [] = CycleFound"
  shows "\<not> acyclic (succ_rel adj)"
  using visit_cycle(1) [OF assms] by (auto simp: acyclic_def)

text \<open>
  For a graph whose nodes are all reachable from the root the search decides acyclicity.
\<close>

lemma run_decides:
  assumes "root \<in> set nodes" and "\<And>x. adj x \<noteq> [] \<Longrightarrow> (root, x) \<in> (succ_rel adj)\<^sup>*"
  shows "visit (Suc (length nodes)) adj root [] [] = CycleFound \<longleftrightarrow> \<not> acyclic (succ_rel adj)"
proof
  assume "\<not> acyclic (succ_rel adj)"
  then obtain z where z: "(z, z) \<in> (succ_rel adj)\<^sup>+" by (auto simp: acyclic_def)
  then have "adj z \<noteq> []" by (auto simp: succ_rel_def dest!: tranclD)
  with assms(2) have "(root, z) \<in> (succ_rel adj)\<^sup>*" by blast
  with z run_returns [OF assms(1)] run_visited(3)
  show "visit (Suc (length nodes)) adj root [] [] = CycleFound"
    by (cases "visit (Suc (length nodes)) adj root [] []") auto
qed (rule run_cycle)

end

declare visit.simps [simp del] visit_all.simps [simp del]

end
