(* ===== verification/Workflow_Graph.thy ===== *)
theory Workflow_Graph
  imports Workflow_Approval Graph_Search
begin

text \<open>
  The graph validator \<open>WorkflowValidateGraph\<close> of
  \<open>runtime/domain/workflow/policy/workflow_graph_policy.go\<close>, with the contract checks of every node
  type, and the routing functions the process engine uses on validated graphs
  (\<open>workflow_process_graph_policy.go\<close> and \<open>nextNodeIDs\<close> of
  \<open>runtime/application/workflow/workflow_process_engine_application_service.go\<close>).

  The validator is split at its loops: \<open>graph_nodes\<close> is the loop over the nodes (with one check
  function per node type), \<open>graph_edges\<close> the loop over the edges, \<open>branch_check\<close> the body of the
  loop over \<open>branches\<close>, and \<open>visit\<close> of \<open>Graph_Search\<close> the search for cycles. A map whose values are
  always \<open>true\<close> (\<open>branches[source]\<close>) is the list of its keys.

  What lies outside the repository is a field of \<open>workflow_env\<close>: whether \<open>time.LoadLocation\<close>
  knows a zone, and the constants of the agent SDK.

  The theorems: an accepted graph has one trigger, every node is reachable from it and no path
  returns to its start; the search never runs out of fuel, reports a cycle only when there is
  one, and on accepted graphs approval and condition outcomes select at most one edge (exactly
  one where the contract requires it).
\<close>

record workflow_env =
  env_LoadLocation :: "string \<Rightarrow> bool"
  env_IdentityInherit :: string
  env_IdentityService :: string
  env_TaskOutcomes :: "string list"

subsection \<open>Contract checks\<close>

definition workflowAgentTaskNodeContract :: "WorkflowGraphNode \<Rightarrow> WorkflowAgentTaskNodeContract" where
  "workflowAgentTaskNodeContract node =
     (case node_contract nc_AgentTask node of Some c \<Rightarrow> c | None \<Rightarrow> zero_agent)"

definition WorkflowTimerNodeContract :: "WorkflowGraphNode \<Rightarrow> WorkflowTimerNodeContract" where
  "WorkflowTimerNodeContract node =
     (case node_contract nc_Timer node of Some c \<Rightarrow> c | None \<Rightarrow> zero_timer)"

definition validWorkflowTimerNodeContract ::
    "workflow_env \<Rightarrow> string \<Rightarrow> WorkflowTimerNodeContract \<Rightarrow> bool" where
  "validWorkflowTimerNodeContract env nodeType c = (let
     timezone = (if trim_space (tc_Timezone c) = [] then ''UTC'' else trim_space (tc_Timezone c));
     hasAt = (trim_space (tc_At c) \<noteq> []);
     hasSource = (trim_space (tc_SourceField c) \<noteq> []);
     hasCalendar = (trim_space (tc_BusinessCalendarKey c) \<noteq> [])
   in if \<not> env_LoadLocation env timezone then False
      else if hasAt \<and> parse_rfc3339 (trim_space (tc_At c)) = None then False
      else if trim_space nodeType = ''wait_until'' then hasAt \<noteq> hasSource \<and> tc_DurationSeconds c = 0
      else if trim_space nodeType = ''wait_duration'' then
        tc_DurationSeconds c > 0 \<and> \<not> hasAt \<and> \<not> hasSource \<and> \<not> hasCalendar
      else if trim_space nodeType = ''timer'' then
        (if trim_space (tc_TimerKey c) = [] \<or> trim_space (tc_Purpose c) = [] then False
         else if hasCalendar then hasAt \<noteq> hasSource
         else (tc_DurationSeconds c > 0 \<and> \<not> hasAt \<and> \<not> hasSource) \<or>
              (tc_DurationSeconds c = 0 \<and> hasAt \<noteq> hasSource))
      else False)"

text \<open>
  The package has the resolver check twice; this is the unexported copy the validator calls.
\<close>

definition validWorkflowAssigneeResolver :: "WorkflowAssigneeResolver \<Rightarrow> bool" where
  "validWorkflowAssigneeResolver resolver = (let t = trim_space (ar_Type resolver) in
     if t = ''users'' then
       length (uniq_acc [] (filter (\<lambda>u. u \<noteq> []) (map trim_space (ar_UserIDs resolver)))) > 0
     else if t = ''variable_user'' \<or> t = ''record_user_field'' then trim_space (ar_Field resolver) \<noteq> []
     else if t = ''manager'' \<or> t = ''manager_of'' then trim_space (ar_UserField resolver) \<noteq> []
     else if t = ''initiator_manager'' then True
     else if t = ''role'' then trim_space (ar_RoleKey resolver) \<noteq> []
     else if t = ''project'' then trim_space (ar_ResolverKey resolver) \<noteq> []
     else if t = ''relation_user'' then workflowAssigneeRelationPathValid (ar_RelationPath resolver)
     else if t = ''relation_role'' then
       workflowAssigneeRelationPathValid (ar_RelationPath resolver) \<and> trim_space (ar_RoleField resolver) \<noteq> []
     else if t = ''manager_chain'' then workflowManagerChainResolverValid resolver
     else False)"

function WorkflowConditionContractIsValid :: "WorkflowConditionContract \<Rightarrow> bool" where
  "WorkflowConditionContractIsValid c = (let t = valueOrDefault (trim_space (wc_Type c)) ''always'' in
     if t = ''always'' then True
     else if t = ''field_equals'' \<or> t = ''field_changed'' then trim_space (wc_Field c) \<noteq> []
     else if t = ''expression'' then trim_space (wc_Expression c) \<noteq> []
     else if t = ''all'' \<or> t = ''and'' \<or> t = ''any'' \<or> t = ''or'' then
       (if wc_Conditions c = [] then False
        else (\<forall>child \<in> set (wc_Conditions c). WorkflowConditionContractIsValid child))
     else if t = ''not'' then
       (case wc_Condition c of None \<Rightarrow> False | Some d \<Rightarrow> WorkflowConditionContractIsValid d)
     else False)"
  by pat_completeness auto
termination
proof (relation "measure size")
  fix c d :: WorkflowConditionContract
  show "d \<in> set (wc_Conditions c) \<Longrightarrow> (d, c) \<in> measure size"
    by (cases c) (auto dest: size_list_estimation' [where f = size, OF _ order_refl])
  show "wc_Condition c = Some d \<Longrightarrow> (d, c) \<in> measure size"
    by (cases c) auto
qed auto

declare WorkflowConditionContractIsValid.simps [simp del]

definition node_error :: "string \<Rightarrow> string \<Rightarrow> app_error" where
  "node_error code nodeID = badRequest code [''node'', nodeID]"

definition approval_node_check :: "string \<Rightarrow> WorkflowGraphNode \<Rightarrow> err" where
  "approval_node_check nodeID node = (case node_contract nc_Approval node of
     None \<Rightarrow> Some (node_error ''backend.workflow.approval_resolver_required'' nodeID)
   | Some contract \<Rightarrow> (let mode = trim_space (ac_Mode contract) in
       if mode \<notin> {''all'', ''any'', ''sequential'', ''quorum''}
         then Some (node_error ''backend.workflow.graph_approval_mode_invalid'' nodeID)
       else if mode = ''quorum'' \<and> ac_RequiredApprovals contract < 1 \<or>
               mode \<noteq> ''quorum'' \<and> ac_RequiredApprovals contract \<noteq> 0
         then Some (node_error ''backend.workflow.approval_required_approvals_invalid'' nodeID)
       else (case WorkflowValidateApprovalRoute nodeID (ac_Route contract) of
         Some e \<Rightarrow> Some e
       | None \<Rightarrow>
         if ac_Route contract \<noteq> None \<and> ac_Resolvers contract \<noteq> []
           then Some (badRequest ''backend.workflow.approval_resolver_invalid''
             [''node'', nodeID, ''resolver'', ''route''])
         else if ac_Route contract = None \<and> ac_Resolvers contract = []
           then Some (node_error ''backend.workflow.approval_resolver_required'' nodeID)
         else err_seq
           (first_err (\<lambda>resolver. if \<not> validWorkflowAssigneeResolver resolver
              then Some (badRequest ''backend.workflow.approval_resolver_invalid''
                [''node'', nodeID, ''resolver'', ar_Type resolver]) else None) (ac_Resolvers contract))
           (fail_if (valueOrDefault (trim_space (ac_EmptyAssigneePolicy contract)) ''fail''
                       \<notin> {''fail'', ''skip'', ''admin''})
              (node_error ''backend.workflow.approval_empty_policy_invalid'' nodeID)))))"

definition condition_node_check :: "string \<Rightarrow> WorkflowGraphNode \<Rightarrow> err" where
  "condition_node_check nodeID node =
     fail_if (case node_contract nc_Condition node of
          None \<Rightarrow> True | Some c \<Rightarrow> \<not> WorkflowConditionContractIsValid c)
       (node_error ''backend.workflow.condition_contract_invalid'' nodeID)"

definition action_node_check :: "string \<Rightarrow> WorkflowGraphNode \<Rightarrow> err" where
  "action_node_check nodeID node = (case node_contract nc_Action node of
     None \<Rightarrow> Some (node_error ''backend.workflow.action_key_required'' nodeID)
   | Some contract \<Rightarrow>
       if bc_ActionKey contract = []
         then Some (node_error ''backend.workflow.action_key_required'' nodeID)
       else if bc_TimeoutSeconds contract < 0 \<or>
           (case bc_Retry contract of None \<Rightarrow> False | Some r \<Rightarrow> rp_MaxAttempts r < 1)
         then Some (node_error ''backend.workflow.action_execution_policy_invalid'' nodeID)
       else fail_if (valueOrDefault (trim_space (bc_OnError contract)) ''fail''
             \<notin> {''fail'', ''continue'', ''error_branch''})
           (node_error ''backend.workflow.action_error_policy_invalid'' nodeID))"

fun outcomes_check :: "string list \<Rightarrow> string list \<Rightarrow> string list \<Rightarrow> bool" where
  "outcomes_check allowed seen [] = True"
| "outcomes_check allowed seen (o1 # os) =
     (if trim_space o1 \<notin> set allowed \<or> trim_space o1 \<in> set seen then False
      else outcomes_check allowed (trim_space o1 # seen) os)"

definition agent_task_node_check :: "workflow_env \<Rightarrow> string \<Rightarrow> WorkflowGraphNode \<Rightarrow> err" where
  "agent_task_node_check env nodeID node = (case node_contract nc_AgentTask node of
     None \<Rightarrow> Some (node_error ''backend.workflow.agent_task_contract_required'' nodeID)
   | Some c \<Rightarrow>
       if trim_space (at_TaskKey c) = [] \<or> trim_space (at_TaskVersion c) = [] \<or> at_Input c = None \<or>
          trim_space (at_OutputVariable c) = []
         then Some (node_error ''backend.workflow.agent_task_contract_invalid'' nodeID)
       else if trim_space (at_ExecutionMode c) \<noteq> ''async''
         then Some (node_error ''backend.workflow.agent_task_execution_policy_invalid'' nodeID)
       else if at_TimeoutSeconds c < 1
         then Some (node_error ''backend.workflow.agent_task_execution_policy_invalid'' nodeID)
       else if (case at_Retry c of None \<Rightarrow> False | Some r \<Rightarrow> rp_MaxAttempts r < 1)
         then Some (node_error ''backend.workflow.agent_task_execution_policy_invalid'' nodeID)
       else if \<not> (if trim_space (ai_Mode (at_Identity c)) = env_IdentityInherit env
                  then trim_space (ai_PrincipalKey (at_Identity c)) = []
                  else if trim_space (ai_Mode (at_Identity c)) = env_IdentityService env
                  then trim_space (ai_PrincipalKey (at_Identity c)) \<noteq> []
                  else False)
         then Some (node_error ''backend.workflow.agent_task_identity_invalid'' nodeID)
       else if valueOrDefault (trim_space (at_OnError c)) ''fail'' \<notin> {''fail'', ''error_branch''}
         then Some (node_error ''backend.workflow.agent_task_error_policy_invalid'' nodeID)
       else fail_if (\<not> outcomes_check (env_TaskOutcomes env) [] (at_AllowedOutcomes c))
         (node_error ''backend.workflow.agent_task_outcome_invalid'' nodeID))"

definition cc_node_check :: "string \<Rightarrow> WorkflowGraphNode \<Rightarrow> err" where
  "cc_node_check nodeID node =
     fail_if (case node_contract nc_CC node of
          None \<Rightarrow> True
        | Some c \<Rightarrow> cc_NotificationActionKey c = [] \<or> cc_Resolvers c = [])
       (node_error ''backend.workflow.cc_contract_required'' nodeID)"

definition timer_node_check :: "workflow_env \<Rightarrow> string \<Rightarrow> string \<Rightarrow> WorkflowGraphNode \<Rightarrow> err" where
  "timer_node_check env typeName nodeID node =
     fail_if (case node_contract nc_Timer node of
          None \<Rightarrow> True | Some c \<Rightarrow> \<not> validWorkflowTimerNodeContract env typeName c)
       (node_error ''backend.workflow.timer_contract_invalid'' nodeID)"

definition node_check :: "workflow_env \<Rightarrow> string \<Rightarrow> string \<Rightarrow> WorkflowGraphNode \<Rightarrow> err" where
  "node_check env typeName nodeID node =
     (if typeName = ''approval'' then approval_node_check nodeID node
      else if typeName = ''condition'' then condition_node_check nodeID node
      else if typeName = ''action'' then action_node_check nodeID node
      else if typeName = ''agent_task'' then agent_task_node_check env nodeID node
      else if typeName = ''cc'' then cc_node_check nodeID node
      else if typeName \<in> {''wait_until'', ''wait_duration'', ''timer''}
        then timer_node_check env typeName nodeID node
      else None)"

subsection \<open>The loops of WorkflowValidateGraph\<close>

definition allowedTypes :: "string list" where
  "allowedTypes = [''trigger'', ''condition'', ''approval'', ''cc'', ''action'', ''agent_task'',
     ''wait_until'', ''wait_duration'', ''timer'']"

type_synonym node_table = "(string \<times> WorkflowGraphNode) list"

fun graph_nodes :: "workflow_env \<Rightarrow> WorkflowGraphNode list \<Rightarrow> node_table \<Rightarrow> string \<Rightarrow>
    app_error + (node_table \<times> string)" where
  "graph_nodes env [] nodes triggerID = Inr (nodes, triggerID)"
| "graph_nodes env (node # rest) nodes triggerID = (let
     nodeID = trim_space (gn_ID node);
     typeName = trim_space (gn_Type node)
   in if nodeID = [] \<or> typeName \<notin> set allowedTypes \<or> gn_ID (map_get zero_node nodes nodeID) \<noteq> []
        then Inl (node_error ''backend.workflow.graph_node_invalid'' nodeID)
      else if typeName = ''trigger'' \<and> triggerID \<noteq> []
        then Inl (badRequest ''backend.workflow.graph_trigger_required'' [])
      else (case node_check env typeName nodeID node of
          Some e \<Rightarrow> Inl e
        | None \<Rightarrow> graph_nodes env rest
            (AList.update nodeID (node \<lparr> gn_ID := nodeID, gn_Type := typeName \<rparr>) nodes)
            (if typeName = ''trigger'' then nodeID else triggerID)))"

definition edge_branch :: "WorkflowGraphEdge \<Rightarrow> string" where
  "edge_branch edge = to_lower (trim_space (valueOrDefault (ge_Branch edge) (ge_Label edge)))"

type_synonym adjacency = "(string \<times> string list) list"

fun graph_edges :: "WorkflowGraphEdge list \<Rightarrow> node_table \<Rightarrow> adjacency \<Rightarrow> adjacency \<Rightarrow>
    app_error + (adjacency \<times> adjacency)" where
  "graph_edges [] nodes adjacency branches = Inr (adjacency, branches)"
| "graph_edges (edge # rest) nodes adjacency branches = (let
     source = trim_space (ge_Source edge);
     target = trim_space (ge_Target edge);
     branch = edge_branch edge
   in if gn_ID (map_get zero_node nodes source) = [] \<or> gn_ID (map_get zero_node nodes target) = [] \<or>
         source = target
        then Inl (badRequest ''backend.workflow.graph_edge_invalid'' [''edge'', ge_ID edge])
      else if branch \<noteq> [] \<and> branch \<in> set (map_get [] branches source)
        then Inl (badRequest ''backend.workflow.graph_branch_duplicate''
          [''node'', source, ''branch'', branch])
      else graph_edges rest nodes
        (AList.update source (map_get [] adjacency source @ [target]) adjacency)
        (AList.update source (List.insert branch (map_get [] branches source)) branches))"

definition hasUnsupportedWorkflowBranch :: "string list \<Rightarrow> string list \<Rightarrow> bool" where
  "hasUnsupportedWorkflowBranch branches allowed =
     list_ex (\<lambda>branch. branch \<noteq> [] \<and> branch \<notin> set allowed) branches"

definition branch_check :: "workflow_env \<Rightarrow> node_table \<Rightarrow> string \<times> string list \<Rightarrow> err" where
  "branch_check env nodes = (\<lambda>(nodeID, outgoing). let node = map_get zero_node nodes nodeID in
     if gn_Type node = ''condition'' then
       fail_if ([] \<in> set outgoing \<or> hasUnsupportedWorkflowBranch outgoing [''true'', ''false''])
         (node_error ''backend.workflow.condition_branch_invalid'' nodeID)
     else if gn_Type node = ''approval'' then
       (if [] \<in> set outgoing \<or>
           hasUnsupportedWorkflowBranch outgoing [''approved'', ''rejected'', ''returned'', ''skipped'']
          then Some (node_error ''backend.workflow.approval_branch_invalid'' nodeID)
        else fail_if (''approved'' \<notin> set outgoing \<or> ''rejected'' \<notin> set outgoing)
          (node_error ''backend.workflow.approval_outcomes_required'' nodeID))
     else if gn_Type node = ''action'' then
       fail_if (bc_OnError (WorkflowBusinessActionNodeContract node) = ''error_branch'' \<and>
           ''error'' \<notin> set outgoing)
         (node_error ''backend.workflow.action_error_branch_required'' nodeID)
     else if gn_Type node = ''agent_task'' then
       (if list_ex (\<lambda>branch. branch = [] \<or> branch \<notin> set (env_TaskOutcomes env)) outgoing
          then Some (node_error ''backend.workflow.agent_task_branch_invalid'' nodeID)
        else fail_if (at_OnError (workflowAgentTaskNodeContract node) = ''error_branch'' \<and>
            ''error'' \<notin> set outgoing)
          (node_error ''backend.workflow.agent_task_error_branch_required'' nodeID))
     else None)"

text \<open>The tables the loops build, before the branch checks and the search.\<close>

record graph_tables =
  gt_Nodes :: node_table
  gt_Trigger :: string
  gt_Adjacency :: adjacency
  gt_Branches :: adjacency

definition build_tables :: "workflow_env \<Rightarrow> WorkflowGraphSchema \<Rightarrow> app_error + graph_tables" where
  "build_tables env g = (case graph_nodes env (gs_Nodes g) [] [] of
     Inl e \<Rightarrow> Inl e
   | Inr (nodes, triggerID) \<Rightarrow>
       if triggerID = [] then Inl (badRequest ''backend.workflow.graph_trigger_required'' [])
       else (case graph_edges (gs_Edges g) nodes [] [] of
           Inl e \<Rightarrow> Inl e
         | Inr (adjacency, branches) \<Rightarrow> Inr \<lparr> gt_Nodes = nodes, gt_Trigger = triggerID,
             gt_Adjacency = adjacency, gt_Branches = branches \<rparr>))"

definition search_fuel_error :: app_error where
  "search_fuel_error = \<lparr> err_Kind = KindInternal, err_Code = ''out of fuel'', err_Params = [] \<rparr>"

definition search_tables :: "graph_tables \<Rightarrow> err" where
  "search_tables t =
     (case visit (Suc (length (gt_Nodes t))) (map_get [] (gt_Adjacency t)) (gt_Trigger t) [] [] of
        CycleFound \<Rightarrow> Some (badRequest ''backend.workflow.graph_cycle'' [])
      | OutOfFuel \<Rightarrow> Some search_fuel_error
      | Visited visiting visited \<Rightarrow>
          fail_if (length visited \<noteq> length (gt_Nodes t))
            (badRequest ''backend.workflow.graph_disconnected'' []))"

text \<open>The validator writes the default version into the graph it is given.\<close>

definition WorkflowValidateGraph ::
    "workflow_env \<Rightarrow> WorkflowGraphSchema option \<Rightarrow> WorkflowGraphSchema option \<times> err" where
  "WorkflowValidateGraph env graph = (case graph of
     None \<Rightarrow> (None, Some (badRequest ''backend.workflow.graph_v2_required'' []))
   | Some g0 \<Rightarrow> (let g = (if gs_Version g0 = 0 then g0 \<lparr> gs_Version := 2 \<rparr> else g0) in
       (Some g,
        if gs_Version g \<noteq> 2 \<or> gs_Nodes g = []
          then Some (badRequest ''backend.workflow.graph_invalid'' [])
        else (case build_tables env g of
            Inl e \<Rightarrow> Some e
          | Inr t \<Rightarrow> err_seq (first_err (branch_check env (gt_Nodes t)) (gt_Branches t))
              (search_tables t)))))"

subsection \<open>Routing\<close>

definition WorkflowEdgeMatches :: "WorkflowGraphEdge \<Rightarrow> string \<Rightarrow> bool" where
  "WorkflowEdgeMatches edge outcome = (let
     branch0 = to_lower (trim_space (ge_Branch edge));
     branch = (if branch0 = [] then to_lower (trim_space (ge_Label edge)) else branch0)
   in if branch = [] then outcome \<noteq> ''false'' \<and> outcome \<noteq> ''rejected''
      else if outcome = ''true'' \<or> outcome = ''approved'' then
        branch = outcome \<or> branch = ''true'' \<or> branch = ''approved'' \<or> branch = ''success''
      else if outcome = ''false'' \<or> outcome = ''rejected'' then
        branch = outcome \<or> branch = ''false'' \<or> branch = ''rejected'' \<or> branch = ''failure''
      else branch = outcome)"

fun find_trigger :: "WorkflowGraphNode list \<Rightarrow> WorkflowGraphNode" where
  "find_trigger [] = zero_node"
| "find_trigger (n # ns) = (if gn_Type n = ''trigger'' then n else find_trigger ns)"

definition WorkflowGraphTrigger :: "WorkflowGraphSchema option \<Rightarrow> WorkflowGraphNode" where
  "WorkflowGraphTrigger graph = (case graph of None \<Rightarrow> zero_node | Some g \<Rightarrow> find_trigger (gs_Nodes g))"

definition WorkflowPublishedVersion :: "WorkflowSchema \<Rightarrow> int" where
  "WorkflowPublishedVersion workflow =
     (if ws_PublishedVersion workflow > 0 then ws_PublishedVersion workflow
      else (case ws_Graph workflow of Some g \<Rightarrow> gs_Version g | None \<Rightarrow> 0))"

definition WorkflowGraphContractVersion :: "WorkflowSchema \<Rightarrow> int" where
  "WorkflowGraphContractVersion workflow =
     (case ws_Graph workflow of Some g \<Rightarrow> gs_Version g | None \<Rightarrow> 0)"

definition WorkflowRemoveString :: "string list \<Rightarrow> string \<Rightarrow> string list" where
  "WorkflowRemoveString values value = filter (\<lambda>existing. existing \<noteq> value) values"

definition appendUniqueString :: "string list \<Rightarrow> string \<Rightarrow> string list" where
  "appendUniqueString values value0 = (let value = trim_space value0 in
     if value = [] then values
     else if value \<in> set values then values
     else values @ [value])"

definition nextNodeIDs :: "WorkflowGraphSchema option \<Rightarrow> string \<Rightarrow> string \<Rightarrow> string list" where
  "nextNodeIDs graph sourceID outcome = (case graph of
     None \<Rightarrow> []
   | Some g \<Rightarrow> foldl (\<lambda>out edge.
       if ge_Source edge \<noteq> sourceID \<or> \<not> WorkflowEdgeMatches edge outcome then out
       else appendUniqueString out (ge_Target edge)) [] (gs_Edges g))"

subsection \<open>What the loops build\<close>

definition canon_node :: "WorkflowGraphNode \<Rightarrow> WorkflowGraphNode" where
  "canon_node n = n \<lparr> gn_ID := trim_space (gn_ID n), gn_Type := trim_space (gn_Type n) \<rparr>"

abbreviation node_id :: "WorkflowGraphNode \<Rightarrow> string" where
  "node_id n \<equiv> trim_space (gn_ID n)"

abbreviation node_type :: "WorkflowGraphNode \<Rightarrow> string" where
  "node_type n \<equiv> trim_space (gn_Type n)"

definition node_table_ok :: "node_table \<Rightarrow> bool" where
  "node_table_ok nodes \<longleftrightarrow> wf_map nodes \<and> (\<forall>(k, n) \<in> set nodes. gn_ID n = k \<and> k \<noteq> [])"

lemma node_table_lookup:
  assumes "node_table_ok nodes"
  shows "gn_ID (map_get zero_node nodes k) \<noteq> [] \<longleftrightarrow> k \<in> fst ` set nodes"
proof
  assume "k \<in> fst ` set nodes"
  then obtain n where n: "(k, n) \<in> set nodes" by auto
  then have "map_get zero_node nodes k = n"
    using assms by (intro map_get_in) (auto simp: node_table_ok_def)
  with n assms show "gn_ID (map_get zero_node nodes k) \<noteq> []" by (auto simp: node_table_ok_def)
qed (auto simp: map_get_absent zero_node_def intro: ccontr)

lemma graph_nodes_step:
  assumes "graph_nodes env (n # ns) nodes trig = Inr r" and "node_table_ok nodes"
  shows "node_id n \<noteq> []" "node_type n \<in> set allowedTypes" "node_id n \<notin> fst ` set nodes"
    "node_type n = ''trigger'' \<longrightarrow> trig = []"
    "node_check env (node_type n) (node_id n) n = None"
    "graph_nodes env ns (nodes @ [(node_id n, canon_node n)])
       (if node_type n = ''trigger'' then node_id n else trig) = Inr r"
    "node_table_ok (nodes @ [(node_id n, canon_node n)])"
proof -
  have c: "\<not> (node_id n = [] \<or> node_type n \<notin> set allowedTypes \<or>
      gn_ID (map_get zero_node nodes (node_id n)) \<noteq> [])"
    and t: "\<not> (node_type n = ''trigger'' \<and> trig \<noteq> [])"
    and k: "node_check env (node_type n) (node_id n) n = None"
    using assms(1) by (auto simp: Let_def split: if_splits option.splits)
  show "node_id n \<noteq> []" "node_type n \<in> set allowedTypes" using c by auto
  show fresh: "node_id n \<notin> fst ` set nodes" using c node_table_lookup [OF assms(2)] by blast
  show "node_type n = ''trigger'' \<longrightarrow> trig = []" using t by blast
  show "node_check env (node_type n) (node_id n) n = None" by (rule k)
  show "graph_nodes env ns (nodes @ [(node_id n, canon_node n)])
       (if node_type n = ''trigger'' then node_id n else trig) = Inr r"
    using assms(1) c t k fresh
    by (auto simp: Let_def update_fresh canon_node_def split: if_splits)
  show "node_table_ok (nodes @ [(node_id n, canon_node n)])"
    using assms(2) fresh c by (auto simp: node_table_ok_def canon_node_def)
qed

lemma graph_nodes_Inr:
  assumes "graph_nodes env ns nodes trig = Inr (nodes', trig')" and "node_table_ok nodes"
  shows "nodes' = nodes @ map (\<lambda>n. (node_id n, canon_node n)) ns \<and> node_table_ok nodes' \<and>
     (\<forall>n \<in> set ns. node_type n \<in> set allowedTypes \<and>
        node_check env (node_type n) (node_id n) n = None)"
  using assms
proof (induction ns arbitrary: nodes trig)
  case (Cons n ns)
  note step = graph_nodes_step [OF Cons.prems]
  from Cons.IH [OF step(6,7)] step(2,5) show ?case by auto
qed simp

lemma graph_nodes_trigger:
  assumes "graph_nodes env ns nodes trig = Inr (nodes', trig')" and "node_table_ok nodes"
  shows "if trig \<noteq> [] then trig' = trig \<and> filter (\<lambda>n. node_type n = ''trigger'') ns = []
     else (trig' = [] \<and> filter (\<lambda>n. node_type n = ''trigger'') ns = []) \<or>
       (\<exists>n. filter (\<lambda>n. node_type n = ''trigger'') ns = [n] \<and> trig' = node_id n \<and> trig' \<noteq> [])"
  using assms
proof (induction ns arbitrary: nodes trig)
  case (Cons n ns)
  note step = graph_nodes_step [OF Cons.prems]
  from Cons.IH [OF step(6,7)] step(1,4) show ?case by (auto split: if_splits)
qed auto

definition edges_from :: "WorkflowGraphEdge list \<Rightarrow> string \<Rightarrow> WorkflowGraphEdge list" where
  "edges_from es s = filter (\<lambda>e. trim_space (ge_Source e) = s) es"

lemma edges_from_simps [simp]:
  "edges_from [] s = []"
  "edges_from (e # es) s =
     (if trim_space (ge_Source e) = s then e # edges_from es s else edges_from es s)"
  by (simp_all add: edges_from_def)

lemma graph_edges_step:
  assumes "graph_edges (e # es) nodes adj br = Inr r" and "node_table_ok nodes"
  shows "trim_space (ge_Source e) \<in> fst ` set nodes" "trim_space (ge_Target e) \<in> fst ` set nodes"
    "trim_space (ge_Source e) \<noteq> trim_space (ge_Target e)"
    "edge_branch e \<noteq> [] \<longrightarrow> edge_branch e \<notin> set (map_get [] br (trim_space (ge_Source e)))"
    "graph_edges es nodes
        (AList.update (trim_space (ge_Source e))
           (map_get [] adj (trim_space (ge_Source e)) @ [trim_space (ge_Target e)]) adj)
        (AList.update (trim_space (ge_Source e))
           (List.insert (edge_branch e) (map_get [] br (trim_space (ge_Source e)))) br) = Inr r"
  using assms(1) node_table_lookup [OF assms(2)] by (auto simp: Let_def split: if_splits)

lemma graph_edges_endpoints:
  assumes "graph_edges es nodes adj br = Inr r" and "node_table_ok nodes" and "e \<in> set es"
  shows "trim_space (ge_Source e) \<in> fst ` set nodes \<and> trim_space (ge_Target e) \<in> fst ` set nodes \<and>
     trim_space (ge_Source e) \<noteq> trim_space (ge_Target e)"
  using assms
proof (induction es arbitrary: adj br)
  case (Cons a es)
  note step = graph_edges_step [OF Cons.prems(1,2)]
  show ?case
  proof (cases "e = a")
    case True
    with step(1-3) show ?thesis by simp
  next
    case False
    with Cons.prems Cons.IH [OF step(5)] show ?thesis by simp
  qed
qed simp

lemma graph_edges_adjacency:
  assumes "graph_edges es nodes adj br = Inr (adj', br')" and "node_table_ok nodes"
  shows "map_get [] adj' s =
     map_get [] adj s @ map (\<lambda>e. trim_space (ge_Target e)) (edges_from es s)"
  using assms
proof (induction es arbitrary: adj br)
  case (Cons e es)
  note step = graph_edges_step [OF Cons.prems]
  from Cons.IH [OF step(5) Cons.prems(2)] show ?case by simp
qed simp

lemma graph_edges_branches:
  assumes "graph_edges es nodes adj br = Inr (adj', br')" and "node_table_ok nodes"
  shows "set (map_get [] br' s) = set (map_get [] br s) \<union> edge_branch ` set (edges_from es s) \<and>
     (map_has br' s \<longleftrightarrow> map_has br s \<or> edges_from es s \<noteq> []) \<and> (wf_map br \<longrightarrow> wf_map br') \<and>
     distinct (filter (\<lambda>b. b \<noteq> []) (map edge_branch (edges_from es s))) \<and>
     set (filter (\<lambda>b. b \<noteq> []) (map edge_branch (edges_from es s))) \<inter> set (map_get [] br s) = {}"
  using assms
proof (induction es arbitrary: adj br)
  case (Cons e es)
  note step = graph_edges_step [OF Cons.prems]
  note IH = Cons.IH [OF step(5) Cons.prems(2)]
  show ?case
  proof (cases "trim_space (ge_Source e) = s")
    case True
    with IH step(4) show ?thesis by auto
  next
    case False
    with IH show ?thesis by auto
  qed
qed simp

subsection \<open>The search on the built tables\<close>

definition node_ids :: "WorkflowGraphSchema \<Rightarrow> string list" where
  "node_ids g = map node_id (gs_Nodes g)"

definition edge_rel :: "WorkflowGraphSchema \<Rightarrow> (string \<times> string) set" where
  "edge_rel g = (\<lambda>e. (trim_space (ge_Source e), trim_space (ge_Target e))) ` set (gs_Edges g)"

lemma node_table_ok_Nil [simp]: "node_table_ok []"
  by (simp add: node_table_ok_def)

lemma build_tables_Inr:
  assumes "build_tables env g = Inr t"
  shows "gt_Nodes t = map (\<lambda>n. (node_id n, canon_node n)) (gs_Nodes g)" "node_table_ok (gt_Nodes t)"
    "\<forall>n \<in> set (gs_Nodes g). node_type n \<in> set allowedTypes \<and>
        node_check env (node_type n) (node_id n) n = None"
    "\<exists>n. filter (\<lambda>n. node_type n = ''trigger'') (gs_Nodes g) = [n] \<and> gt_Trigger t = node_id n"
    "graph_edges (gs_Edges g) (gt_Nodes t) [] [] = Inr (gt_Adjacency t, gt_Branches t)"
proof -
  obtain nodes trig adj br where r: "graph_nodes env (gs_Nodes g) [] [] = Inr (nodes, trig)" "trig \<noteq> []"
    "graph_edges (gs_Edges g) nodes [] [] = Inr (adj, br)"
    "t = \<lparr> gt_Nodes = nodes, gt_Trigger = trig, gt_Adjacency = adj, gt_Branches = br \<rparr>"
    using assms by (auto simp: build_tables_def split: sum.splits prod.splits if_splits)
  note n = graph_nodes_Inr [OF r(1) node_table_ok_Nil]
  show "gt_Nodes t = map (\<lambda>n. (node_id n, canon_node n)) (gs_Nodes g)" "node_table_ok (gt_Nodes t)"
    "\<forall>n \<in> set (gs_Nodes g). node_type n \<in> set allowedTypes \<and>
        node_check env (node_type n) (node_id n) n = None"
    using n r(4) by auto
  show "\<exists>n. filter (\<lambda>n. node_type n = ''trigger'') (gs_Nodes g) = [n] \<and> gt_Trigger t = node_id n"
    using graph_nodes_trigger [OF r(1) node_table_ok_Nil] r(2,4) by auto
  show "graph_edges (gs_Edges g) (gt_Nodes t) [] [] = Inr (gt_Adjacency t, gt_Branches t)"
    using r(3,4) by simp
qed

lemma build_tables_keys:
  assumes "build_tables env g = Inr t"
  shows "map fst (gt_Nodes t) = node_ids g" "distinct (node_ids g)" "gt_Trigger t \<in> set (node_ids g)"
    "fst ` set (gt_Nodes t) = set (node_ids g)" "[] \<notin> set (node_ids g)"
proof -
  show eq: "map fst (gt_Nodes t) = node_ids g"
    using build_tables_Inr(1) [OF assms] by (simp add: node_ids_def)
  show "distinct (node_ids g)"
    using build_tables_Inr(2) [OF assms] eq by (simp add: node_table_ok_def)
  show set_eq: "fst ` set (gt_Nodes t) = set (node_ids g)" using eq by (metis list.set_map)
  have "[] \<notin> fst ` set (gt_Nodes t)"
    using build_tables_Inr(2) [OF assms] by (auto simp: node_table_ok_def)
  then show "[] \<notin> set (node_ids g)" unfolding set_eq .
  obtain n where n: "filter (\<lambda>n. node_type n = ''trigger'') (gs_Nodes g) = [n]" "gt_Trigger t = node_id n"
    using build_tables_Inr(4) [OF assms] by blast
  then have "n \<in> set (gs_Nodes g)" by (metis filter_is_subset list.set_intros(1) subsetD)
  with n show "gt_Trigger t \<in> set (node_ids g)" by (auto simp: node_ids_def)
qed

lemma build_tables_succ:
  assumes "build_tables env g = Inr t"
  shows "succ_rel (map_get [] (gt_Adjacency t)) = edge_rel g"
proof -
  note b = build_tables_Inr [OF assms]
  from graph_edges_adjacency [OF b(5) b(2)] show ?thesis
    by (auto simp: succ_rel_def edge_rel_def edges_from_def)
qed

lemma edge_rel_nodes:
  assumes "build_tables env g = Inr t" and "(z, w) \<in> edge_rel g"
  shows "z \<in> set (node_ids g)" "w \<in> set (node_ids g)"
proof -
  note keys = build_tables_keys(4) [OF assms(1)]
  obtain e where "e \<in> set (gs_Edges g)" "z = trim_space (ge_Source e)" "w = trim_space (ge_Target e)"
    using assms(2) by (auto simp: edge_rel_def)
  with graph_edges_endpoints [OF build_tables_Inr(5,2) [OF assms(1)]] keys
  show "z \<in> set (node_ids g)" "w \<in> set (node_ids g)" by auto
qed

text \<open>
  The graph the search runs on; without tables it has no edges.
\<close>

definition tables_adj :: "app_error + graph_tables \<Rightarrow> string \<Rightarrow> string list" where
  "tables_adj r = (case r of Inl _ \<Rightarrow> (\<lambda>_. []) | Inr t \<Rightarrow> map_get [] (gt_Adjacency t))"

interpretation graph_search: dfs_graph "tables_adj (build_tables env g)" "node_ids g" for env g
proof
  fix x
  show "set (tables_adj (build_tables env g) x) \<subseteq> set (node_ids g)"
  proof (cases "build_tables env g")
    case (Inr t)
    note b = build_tables_Inr [OF Inr]
    note build_tables_keys(4) [OF Inr]
    moreover have "trim_space (ge_Target e) \<in> fst ` set (gt_Nodes t)" if "e \<in> set (gs_Edges g)" for e
      using graph_edges_endpoints [OF b(5) b(2) that] by blast
    ultimately show ?thesis
      using graph_edges_adjacency [OF b(5) b(2), of x] Inr
      by (auto simp: tables_adj_def edges_from_def)
  qed (simp add: tables_adj_def)
qed

lemma search_tables_cases:
  assumes "build_tables env g = Inr t"
  shows "search_tables t = (case visit (Suc (length (node_ids g))) (tables_adj (build_tables env g))
      (gt_Trigger t) [] [] of
        CycleFound \<Rightarrow> Some (badRequest ''backend.workflow.graph_cycle'' [])
      | OutOfFuel \<Rightarrow> Some search_fuel_error
      | Visited vg vd \<Rightarrow> fail_if (length vd \<noteq> length (node_ids g))
            (badRequest ''backend.workflow.graph_disconnected'' []))"
proof -
  have "length (gt_Nodes t) = length (node_ids g)"
    using build_tables_keys(1) [OF assms] by (metis length_map)
  then show ?thesis unfolding search_tables_def assms tables_adj_def by (simp cong: dfs_result.case_cong)
qed

lemma search_tables_spec:
  assumes "build_tables env g = Inr t"
  shows "search_tables t \<noteq> Some search_fuel_error"
    and "search_tables t = Some (badRequest ''backend.workflow.graph_cycle'' []) \<Longrightarrow>
           \<not> acyclic (edge_rel g)"
    and "search_tables t = None \<Longrightarrow> acyclic (edge_rel g) \<and>
           set (node_ids g) = {y. (gt_Trigger t, y) \<in> (edge_rel g)\<^sup>*}"
    and "acyclic (edge_rel g) \<Longrightarrow> set (node_ids g) \<subseteq> {y. (gt_Trigger t, y) \<in> (edge_rel g)\<^sup>*} \<Longrightarrow>
           search_tables t = None"
proof -
  let ?adj = "tables_adj (build_tables env g)" and ?n = "Suc (length (node_ids g))"
  note keys = build_tables_keys [OF assms]
  have rel: "succ_rel ?adj = edge_rel g"
    using build_tables_succ [OF assms] by (simp add: tables_adj_def assms)
  note fuel = graph_search.run_returns [OF keys(3), of env]
  note cases = search_tables_cases [OF assms]
  show "search_tables t \<noteq> Some search_fuel_error"
    using cases fuel by (auto simp: search_fuel_error_def badRequest_def fail_if_def
        split: dfs_result.splits if_splits)
  show "search_tables t = Some (badRequest ''backend.workflow.graph_cycle'' []) \<Longrightarrow>
      \<not> acyclic (edge_rel g)"
    using cases fuel graph_search.run_cycle [where env = env and g = g] rel
    by (auto simp: badRequest_def fail_if_def split: dfs_result.splits if_splits)
  have reach_sub: "{y. (gt_Trigger t, y) \<in> (edge_rel g)\<^sup>*} \<subseteq> set (node_ids g)"
  proof safe
    fix y assume "(gt_Trigger t, y) \<in> (edge_rel g)\<^sup>*"
    then show "y \<in> set (node_ids g)"
      by (induction rule: rtrancl_induct)
         (use keys(3) edge_rel_nodes(2) [OF assms] in auto)
  qed
  have visited: "length vd = length (node_ids g) \<longleftrightarrow>
        set (node_ids g) = {y. (gt_Trigger t, y) \<in> (edge_rel g)\<^sup>*}"
      "length vd = length (node_ids g) \<Longrightarrow> acyclic (edge_rel g)"
    if v: "visit ?n ?adj (gt_Trigger t) [] [] = Visited vg vd" for vg vd
  proof -
    note r = graph_search.run_visited [OF v, unfolded rel]
    show iff: "length vd = length (node_ids g) \<longleftrightarrow>
        set (node_ids g) = {y. (gt_Trigger t, y) \<in> (edge_rel g)\<^sup>*}"
      using reach_sub r(1,2) keys(2) by (metis card_subset_eq distinct_card List.finite_set)
    show "acyclic (edge_rel g)" if len: "length vd = length (node_ids g)"
    proof (rule acyclicI, rule allI, rule notI)
      fix z assume z: "(z, z) \<in> (edge_rel g)\<^sup>+"
      then obtain w where "(z, w) \<in> edge_rel g" by (meson tranclD)
      then have "z \<in> set (node_ids g)" by (rule edge_rel_nodes(1) [OF assms])
      with len iff z r(3) show False by blast
    qed
  qed
  show "search_tables t = None \<Longrightarrow> acyclic (edge_rel g) \<and>
           set (node_ids g) = {y. (gt_Trigger t, y) \<in> (edge_rel g)\<^sup>*}"
    using cases visited by (auto simp: fail_if_def split: dfs_result.splits if_splits)
  assume "acyclic (edge_rel g)" "set (node_ids g) \<subseteq> {y. (gt_Trigger t, y) \<in> (edge_rel g)\<^sup>*}"
  with reach_sub have "set (node_ids g) = {y. (gt_Trigger t, y) \<in> (edge_rel g)\<^sup>*}" by blast
  with cases fuel visited(1) graph_search.run_cycle [where env = env and g = g] rel
    \<open>acyclic (edge_rel g)\<close> show "search_tables t = None"
    by (cases "visit ?n ?adj (gt_Trigger t) [] []") (auto simp: fail_if_def)
qed

subsection \<open>Accepted graphs\<close>

definition accepted :: "workflow_env \<Rightarrow> WorkflowGraphSchema \<Rightarrow> bool" where
  "accepted env g \<longleftrightarrow> snd (WorkflowValidateGraph env (Some g)) = None"

lemma build_tables_version [simp]: "build_tables env (g \<lparr> gs_Version := v \<rparr>) = build_tables env g"
  by (simp add: build_tables_def split: sum.splits prod.splits)

lemma accepted_iff:
  "accepted env g \<longleftrightarrow> gs_Version g \<in> {0, 2} \<and> gs_Nodes g \<noteq> [] \<and>
     (\<exists>t. build_tables env g = Inr t \<and>
        (\<forall>b \<in> set (gt_Branches t). branch_check env (gt_Nodes t) b = None) \<and> search_tables t = None)"
  by (auto simp: accepted_def WorkflowValidateGraph_def Let_def split: sum.splits)

text \<open>
  C1: an accepted graph is a rooted acyclic graph: it has exactly one trigger node, its node ids
  are non-empty and pairwise different, every edge joins two nodes, no path returns to its start,
  and every node is reachable from the trigger.
\<close>

theorem validate_graph_sound:
  assumes "snd (WorkflowValidateGraph env (Some g)) = None"
  shows "\<exists>trigger. filter (\<lambda>n. node_type n = ''trigger'') (gs_Nodes g) = [trigger] \<and>
     distinct (node_ids g) \<and> [] \<notin> set (node_ids g) \<and>
     edge_rel g \<subseteq> set (node_ids g) \<times> set (node_ids g) \<and> acyclic (edge_rel g) \<and>
     set (node_ids g) = {v. (node_id trigger, v) \<in> (edge_rel g)\<^sup>*}"
proof -
  obtain t where t: "build_tables env g = Inr t" "search_tables t = None"
    using assms [folded accepted_def] by (auto simp: accepted_iff)
  note keys = build_tables_keys [OF t(1)]
  obtain n where n: "filter (\<lambda>n. node_type n = ''trigger'') (gs_Nodes g) = [n]"
    "gt_Trigger t = node_id n"
    using build_tables_Inr(4) [OF t(1)] by blast
  have "edge_rel g \<subseteq> set (node_ids g) \<times> set (node_ids g)"
    using edge_rel_nodes [OF t(1)] by auto
  then show ?thesis
    using n keys(2,5) search_tables_spec(3) [OF t] by auto
qed

text \<open>
  C6: the search decides acyclicity and connectedness: once the node, edge and branch checks have
  passed, the graph is accepted exactly when its edges have no cycle and every node is reachable
  from the trigger; the fuel of the search is never exhausted.
\<close>

theorem validate_graph_decides_rooted_dag:
  assumes "gs_Version g \<in> {0, 2}" and "gs_Nodes g \<noteq> []" and "build_tables env g = Inr t"
    and "first_err (branch_check env (gt_Nodes t)) (gt_Branches t) = None"
  shows "(snd (WorkflowValidateGraph env (Some g)) = None \<longleftrightarrow>
      acyclic (edge_rel g) \<and> set (node_ids g) \<subseteq> {v. (gt_Trigger t, v) \<in> (edge_rel g)\<^sup>*}) \<and>
     (snd (WorkflowValidateGraph env (Some g)) = Some (badRequest ''backend.workflow.graph_cycle'' [])
        \<longrightarrow> \<not> acyclic (edge_rel g)) \<and>
     snd (WorkflowValidateGraph env (Some g)) \<noteq> Some search_fuel_error"
proof -
  have eq: "snd (WorkflowValidateGraph env (Some g)) = search_tables t"
    using assms(1-3) by (auto simp: WorkflowValidateGraph_def Let_def assms(4) simp del: first_err_None)
  show ?thesis unfolding eq using search_tables_spec [OF assms(3)] by blast
qed

subsection \<open>Routing on accepted graphs\<close>

lemma edge_branch_alt:
  "edge_branch e = (if to_lower (trim_space (ge_Branch e)) = [] then to_lower (trim_space (ge_Label e))
     else to_lower (trim_space (ge_Branch e)))"
  by (simp add: edge_branch_def valueOrDefault_def)

lemma WorkflowEdgeMatches_branch:
  "WorkflowEdgeMatches e outcome = (
     if edge_branch e = [] then outcome \<noteq> ''false'' \<and> outcome \<noteq> ''rejected''
     else if outcome = ''true'' \<or> outcome = ''approved'' then
       edge_branch e \<in> {outcome, ''true'', ''approved'', ''success''}
     else if outcome = ''false'' \<or> outcome = ''rejected'' then
       edge_branch e \<in> {outcome, ''false'', ''rejected'', ''failure''}
     else edge_branch e = outcome)"
  unfolding WorkflowEdgeMatches_def Let_def edge_branch_alt [of e, symmetric] by simp

lemma filter_unique:
  assumes "distinct (map f xs)" and "b \<in> f ` set xs"
  shows "\<exists>x. filter (\<lambda>x. f x = b) xs = [x]"
  using assms
proof (induction xs)
  case (Cons x xs)
  show ?case
  proof (cases "f x = b")
    case True
    with Cons.prems have "b \<notin> f ` set xs" by simp
    then have "filter (\<lambda>x. f x = b) xs = []" by (force simp: filter_empty_conv)
    with True show ?thesis by simp
  next
    case False
    with Cons show ?thesis by auto
  qed
qed simp

lemma filter_at_most_one:
  assumes "distinct (map f xs)"
  shows "length (filter (\<lambda>x. f x = b) xs) \<le> 1"
proof (cases "b \<in> f ` set xs")
  case True
  from filter_unique [OF assms True] show ?thesis by auto
next
  case False
  then have "filter (\<lambda>x. f x = b) xs = []" by (force simp: filter_empty_conv)
  then show ?thesis by simp
qed

lemma foldl_append_unique:
  "foldl (\<lambda>out e. if \<not> P e then out else appendUniqueString out (f e)) acc es =
     foldl (\<lambda>out e. appendUniqueString out (f e)) acc (filter P es)"
  by (induction es arbitrary: acc) auto

lemma nextNodeIDs_alt:
  assumes "\<forall>e \<in> set (gs_Edges g). trimmed (ge_Source e)"
  shows "nextNodeIDs (Some g) s outcome = foldl (\<lambda>out e. appendUniqueString out (ge_Target e)) []
     (filter (\<lambda>e. WorkflowEdgeMatches e outcome) (edges_from (gs_Edges g) s))"
proof -
  have "filter (\<lambda>e. ge_Source e = s \<and> WorkflowEdgeMatches e outcome) (gs_Edges g) =
      filter (\<lambda>e. WorkflowEdgeMatches e outcome) (edges_from (gs_Edges g) s)"
    unfolding edges_from_def filter_filter using assms by (intro filter_cong) auto
  then show ?thesis
    using foldl_append_unique [of "\<lambda>e. ge_Source e = s \<and> WorkflowEdgeMatches e outcome" ge_Target "[]"
        "gs_Edges g"]
    by (simp add: nextNodeIDs_def)
qed

text \<open>What an accepted graph says of the outgoing edges of one node.\<close>

lemma accepted_branches:
  assumes "accepted env g" and "n \<in> set (gs_Nodes g)" and "edges_from (gs_Edges g) (node_id n) \<noteq> []"
  shows "\<exists>outgoing. set outgoing = edge_branch ` set (edges_from (gs_Edges g) (node_id n)) \<and>
      branch_check env [(node_id n, canon_node n)] (node_id n, outgoing) = None \<and>
      ([] \<notin> set outgoing \<longrightarrow>
        distinct (map edge_branch (edges_from (gs_Edges g) (node_id n))))"
proof -
  obtain t where t: "build_tables env g = Inr t"
    "\<forall>b \<in> set (gt_Branches t). branch_check env (gt_Nodes t) b = None"
    using assms(1) by (auto simp: accepted_iff)
  note b = build_tables_Inr [OF t(1)]
  note br = graph_edges_branches [OF b(5) b(2), of "node_id n"]
  define outgoing where "outgoing = map_get [] (gt_Branches t) (node_id n)"
  have "map_has (gt_Branches t) (node_id n)" using br assms(3) by simp
  then have "(node_id n, outgoing) \<in> set (gt_Branches t)"
    unfolding outgoing_def map_has_def map_get_def by (auto dest: map_of_SomeD)
  with t(2) have c: "branch_check env (gt_Nodes t) (node_id n, outgoing) = None" by blast
  have "(node_id n, canon_node n) \<in> set (gt_Nodes t)" using b(1) assms(2) by auto
  then have "map_get zero_node (gt_Nodes t) (node_id n) = canon_node n"
    using b(2) by (intro map_get_in) (auto simp: node_table_ok_def)
  moreover have "map_get zero_node [(node_id n, canon_node n)] (node_id n) = canon_node n"
    by (simp add: map_get_def)
  ultimately have "branch_check env [(node_id n, canon_node n)] (node_id n, outgoing) = None"
    using c by (simp add: branch_check_def)
  moreover have "set outgoing = edge_branch ` set (edges_from (gs_Edges g) (node_id n))"
    using br by (simp add: outgoing_def)
  moreover have "distinct (map edge_branch (edges_from (gs_Edges g) (node_id n)))"
    if "[] \<notin> edge_branch ` set (edges_from (gs_Edges g) (node_id n))"
  proof -
    from that have "filter (\<lambda>b. b \<noteq> []) (map edge_branch (edges_from (gs_Edges g) (node_id n))) =
        map edge_branch (edges_from (gs_Edges g) (node_id n))"
      by (intro filter_True) force
    with br show ?thesis by simp
  qed
  ultimately show ?thesis by blast
qed

lemma accepted_edge_target:
  assumes "accepted env g" and "e \<in> set (gs_Edges g)"
  shows "trim_space (ge_Target e) \<in> set (node_ids g)" "trim_space (ge_Target e) \<noteq> []"
proof -
  obtain t where t: "build_tables env g = Inr t" using assms(1) by (auto simp: accepted_iff)
  have "(trim_space (ge_Source e), trim_space (ge_Target e)) \<in> edge_rel g"
    using assms(2) by (auto simp: edge_rel_def)
  from edge_rel_nodes(2) [OF t this] show in_ids: "trim_space (ge_Target e) \<in> set (node_ids g)" .
  then show "trim_space (ge_Target e) \<noteq> []" using build_tables_keys(5) [OF t] by metis
qed

lemma next_of_one:
  assumes "accepted env g" and "\<forall>e \<in> set (gs_Edges g). trimmed (ge_Source e)"
    and "filter (\<lambda>e. WorkflowEdgeMatches e outcome) (edges_from (gs_Edges g) s) = [e]"
  shows "nextNodeIDs (Some g) s outcome = [trim_space (ge_Target e)]"
    "trim_space (ge_Target e) \<in> set (node_ids g)"
proof -
  have "e \<in> set (edges_from (gs_Edges g) s)"
    using assms(3) by (metis filter_is_subset list.set_intros(1) subsetD)
  then have e: "e \<in> set (gs_Edges g)" by (simp add: edges_from_def)
  show "nextNodeIDs (Some g) s outcome = [trim_space (ge_Target e)]"
    using accepted_edge_target(2) [OF assms(1) e]
    by (simp add: nextNodeIDs_alt [OF assms(2)] assms(3) appendUniqueString_def Let_def)
  show "trim_space (ge_Target e) \<in> set (node_ids g)" by (rule accepted_edge_target(1) [OF assms(1) e])
qed

lemma next_at_most_one:
  assumes "accepted env g" and "\<forall>e \<in> set (gs_Edges g). trimmed (ge_Source e)"
    and "length (filter (\<lambda>e. WorkflowEdgeMatches e outcome) (edges_from (gs_Edges g) s)) \<le> 1"
  shows "length (nextNodeIDs (Some g) s outcome) \<le> 1"
proof (cases "filter (\<lambda>e. WorkflowEdgeMatches e outcome) (edges_from (gs_Edges g) s)")
  case Nil
  then show ?thesis by (simp add: nextNodeIDs_alt [OF assms(2)])
next
  case (Cons e es)
  with assms(3) have "filter (\<lambda>e. WorkflowEdgeMatches e outcome) (edges_from (gs_Edges g) s) = [e]"
    by simp
  from next_of_one(1) [OF assms(1,2) this] show ?thesis by simp
qed

text \<open>
  The outgoing edges of an approval node, and of a condition node, by their branch.
\<close>

lemma branch_check_approval:
  assumes "gn_Type (map_get zero_node nodes k) = ''approval''"
  shows "branch_check env nodes (k, out) = None \<longleftrightarrow> [] \<notin> set out \<and>
     (\<forall>b \<in> set out. b \<in> {''approved'', ''rejected'', ''returned'', ''skipped''}) \<and>
     ''approved'' \<in> set out \<and> ''rejected'' \<in> set out"
proof -
  have "[] \<notin> set out \<Longrightarrow>
      hasUnsupportedWorkflowBranch out [''approved'', ''rejected'', ''returned'', ''skipped''] \<longleftrightarrow>
      (\<exists>b \<in> set out. b \<notin> {''approved'', ''rejected'', ''returned'', ''skipped''})"
    unfolding hasUnsupportedWorkflowBranch_def list_ex_iff by (metis list.set(1) list.set(2))
  then show ?thesis using assms unfolding branch_check_def by (simp add: Let_def) blast
qed

lemma branch_check_condition:
  assumes "gn_Type (map_get zero_node nodes k) = ''condition''"
  shows "branch_check env nodes (k, out) = None \<longleftrightarrow> [] \<notin> set out \<and>
     (\<forall>b \<in> set out. b \<in> {''true'', ''false''})"
proof -
  have "[] \<notin> set out \<Longrightarrow> hasUnsupportedWorkflowBranch out [''true'', ''false''] \<longleftrightarrow>
      (\<exists>b \<in> set out. b \<notin> {''true'', ''false''})"
    unfolding hasUnsupportedWorkflowBranch_def list_ex_iff by (metis list.set(1) list.set(2))
  then show ?thesis using assms unfolding branch_check_def by (simp add: Let_def) blast
qed

lemma canon_table_type: "gn_Type (map_get zero_node [(k, canon_node n)] k) = node_type n"
  by (simp add: map_get_def canon_node_def)

lemma approval_outgoing:
  assumes "accepted env g" and "n \<in> set (gs_Nodes g)" and "node_type n = ''approval''"
    and "edges_from (gs_Edges g) (node_id n) \<noteq> []"
  shows "\<forall>b \<in> edge_branch ` set (edges_from (gs_Edges g) (node_id n)).
           b \<in> {''approved'', ''rejected'', ''returned'', ''skipped''}"
    "''approved'' \<in> edge_branch ` set (edges_from (gs_Edges g) (node_id n))"
    "''rejected'' \<in> edge_branch ` set (edges_from (gs_Edges g) (node_id n))"
    "distinct (map edge_branch (edges_from (gs_Edges g) (node_id n)))"
proof -
  obtain out where out: "set out = edge_branch ` set (edges_from (gs_Edges g) (node_id n))"
    "branch_check env [(node_id n, canon_node n)] (node_id n, out) = None"
    "[] \<notin> set out \<longrightarrow> distinct (map edge_branch (edges_from (gs_Edges g) (node_id n)))"
    using accepted_branches [OF assms(1,2,4)] by blast
  have "gn_Type (map_get zero_node [(node_id n, canon_node n)] (node_id n)) = ''approval''"
    by (simp only: canon_table_type assms(3))
  from out(2) [unfolded branch_check_approval [OF this]] out(1,3)
  show "\<forall>b \<in> edge_branch ` set (edges_from (gs_Edges g) (node_id n)).
           b \<in> {''approved'', ''rejected'', ''returned'', ''skipped''}"
    "''approved'' \<in> edge_branch ` set (edges_from (gs_Edges g) (node_id n))"
    "''rejected'' \<in> edge_branch ` set (edges_from (gs_Edges g) (node_id n))"
    "distinct (map edge_branch (edges_from (gs_Edges g) (node_id n)))" by simp_all
qed

lemma condition_outgoing:
  assumes "accepted env g" and "n \<in> set (gs_Nodes g)" and "node_type n = ''condition''"
  shows "\<forall>b \<in> edge_branch ` set (edges_from (gs_Edges g) (node_id n)). b \<in> {''true'', ''false''}"
    "distinct (map edge_branch (edges_from (gs_Edges g) (node_id n)))"
proof -
  have "(\<forall>b \<in> edge_branch ` set (edges_from (gs_Edges g) (node_id n)). b \<in> {''true'', ''false''}) \<and>
     distinct (map edge_branch (edges_from (gs_Edges g) (node_id n)))"
  proof (cases "edges_from (gs_Edges g) (node_id n) = []")
    case False
    from accepted_branches [OF assms(1,2) False] obtain out where
      out: "set out = edge_branch ` set (edges_from (gs_Edges g) (node_id n))"
      "branch_check env [(node_id n, canon_node n)] (node_id n, out) = None"
      "[] \<notin> set out \<longrightarrow> distinct (map edge_branch (edges_from (gs_Edges g) (node_id n)))" by blast
    have "gn_Type (map_get zero_node [(node_id n, canon_node n)] (node_id n)) = ''condition''"
      by (simp only: canon_table_type assms(3))
    from out(2) [unfolded branch_check_condition [OF this]] out(1,3) show ?thesis by simp
  qed simp
  then show "\<forall>b \<in> edge_branch ` set (edges_from (gs_Edges g) (node_id n)). b \<in> {''true'', ''false''}"
    "distinct (map edge_branch (edges_from (gs_Edges g) (node_id n)))" by simp_all
qed

lemma matches_approval_branch:
  assumes "edge_branch e \<in> {''approved'', ''rejected'', ''returned'', ''skipped''}"
    and "outcome \<in> {''approved'', ''rejected'', ''returned'', ''skipped''}"
  shows "WorkflowEdgeMatches e outcome \<longleftrightarrow> edge_branch e = outcome"
  using assms unfolding WorkflowEdgeMatches_branch by (elim insertE emptyE; simp)

lemma matches_condition_branch:
  assumes "edge_branch e \<in> {''true'', ''false''}" and "outcome \<in> {''true'', ''false''}"
  shows "WorkflowEdgeMatches e outcome \<longleftrightarrow> edge_branch e = outcome"
  using assms unfolding WorkflowEdgeMatches_branch by (elim insertE emptyE; simp)


text \<open>
  On an accepted graph whose edges name their source without padding, a condition node
  continues to at most one node for each of its two outcomes, and every edge that leaves it is
  taken for exactly one of them.
\<close>

theorem condition_routing:
  assumes "snd (WorkflowValidateGraph env (Some g)) = None"
    and "\<forall>e \<in> set (gs_Edges g). trimmed (ge_Source e)"
    and "n \<in> set (gs_Nodes g)" and "node_type n = ''condition''"
  shows "length (nextNodeIDs (Some g) (node_id n) ''true'') \<le> 1 \<and>
     length (nextNodeIDs (Some g) (node_id n) ''false'') \<le> 1 \<and>
     (\<forall>e \<in> set (gs_Edges g). ge_Source e = node_id n \<longrightarrow>
        WorkflowEdgeMatches e ''true'' \<noteq> WorkflowEdgeMatches e ''false'')"
proof -
  let ?out = "edges_from (gs_Edges g) (node_id n)"
  have acc: "accepted env g" using assms(1) by (simp add: accepted_def)
  note out = condition_outgoing [OF acc assms(3,4)]
  have m: "WorkflowEdgeMatches e b \<longleftrightarrow> edge_branch e = b"
    if "e \<in> set ?out" "b \<in> {''true'', ''false''}" for e b
    using out(1) that by (intro matches_condition_branch) blast+
  have "length (nextNodeIDs (Some g) (node_id n) b) \<le> 1" if b: "b \<in> {''true'', ''false''}" for b
  proof -
    have "filter (\<lambda>e. WorkflowEdgeMatches e b) ?out = filter (\<lambda>e. edge_branch e = b) ?out"
      using m b by (intro filter_cong) auto
    with filter_at_most_one [OF out(2), of b] show ?thesis
      by (intro next_at_most_one [OF acc assms(2)]) simp
  qed
  moreover have "WorkflowEdgeMatches e ''true'' \<noteq> WorkflowEdgeMatches e ''false''"
    if "e \<in> set (gs_Edges g)" "ge_Source e = node_id n" for e
  proof -
    from that assms(2) have "e \<in> set ?out" by (auto simp: edges_from_def)
    with m [of e "''true''"] m [of e "''false''"] out(1)
    have "WorkflowEdgeMatches e ''true'' = (edge_branch e = ''true'')"
      "WorkflowEdgeMatches e ''false'' = (edge_branch e = ''false'')"
      "edge_branch e = ''true'' \<or> edge_branch e = ''false''" by blast+
    then show ?thesis by (elim disjE) simp_all
  qed
  ultimately show ?thesis by blast
qed

subsection \<open>An example graph\<close>

text \<open>
  A trigger, a condition with both branches, an approval with both outcomes, and two actions:
  the instance the witnesses evaluate.
\<close>

definition example_env :: workflow_env where
  "example_env = \<lparr> env_LoadLocation = (\<lambda>z. z = ''UTC''), env_IdentityInherit = ''inherit'',
     env_IdentityService = ''service'', env_TaskOutcomes = [''success'', ''error''] \<rparr>"

definition no_contract :: WorkflowNodeContract where
  "no_contract = \<lparr> nc_Condition = None, nc_Approval = None, nc_Action = None, nc_CC = None,
     nc_Timer = None, nc_AgentTask = None \<rparr>"

definition example_node :: "string \<Rightarrow> string \<Rightarrow> WorkflowNodeContract \<Rightarrow> WorkflowGraphNode" where
  "example_node i t c = zero_node \<lparr> gn_ID := i, gn_Type := t, gn_Contract := Some c \<rparr>"

definition example_edge :: "string \<Rightarrow> string \<Rightarrow> string \<Rightarrow> WorkflowGraphEdge" where
  "example_edge a b branch =
     \<lparr> ge_ID = a @ b, ge_Source = a, ge_Target = b, ge_Branch = branch, ge_Label = [] \<rparr>"

definition example_action :: "string \<Rightarrow> WorkflowGraphNode" where
  "example_action i = example_node i ''action''
     (no_contract \<lparr> nc_Action := Some (zero_action \<lparr> bc_ActionKey := ''notify'' \<rparr>) \<rparr>)"

definition example_nodes :: "WorkflowGraphNode list" where
  "example_nodes = [example_node ''t'' ''trigger'' no_contract,
     example_node ''c'' ''condition'' (no_contract \<lparr> nc_Condition :=
       Some (WorkflowConditionContract ''always'' [] VNil [] [] [] None []) \<rparr>),
     example_node ''a'' ''approval'' (no_contract \<lparr> nc_Approval := Some (zero_approval \<lparr>
       ac_Mode := ''any'', ac_Resolvers := [zero_resolver \<lparr> ar_Type := ''role'', ar_RoleKey := ''hr'' \<rparr>] \<rparr>) \<rparr>),
     example_action ''x'', example_action ''y'']"

definition example_graph :: WorkflowGraphSchema where
  "example_graph = \<lparr> gs_Version = 2, gs_Nodes = example_nodes,
     gs_Edges = [example_edge ''t'' ''c'' [], example_edge ''c'' ''a'' ''true'',
       example_edge ''c'' ''y'' ''false'', example_edge ''a'' ''x'' ''Approved'',
       example_edge ''a'' ''y'' ''rejected''] \<rparr>"

lemma example_graph_accepted: "snd (WorkflowValidateGraph example_env (Some example_graph)) = None"
  by code_simp

lemma example_graph_sources: "\<forall>e \<in> set (gs_Edges example_graph). trimmed (ge_Source e)"
  by code_simp

theorem validate_graph_sound_witness:
  "acyclic (edge_rel example_graph) \<and> distinct (node_ids example_graph) \<and>
   ''y'' \<in> set (node_ids example_graph)"
proof -
  have "''y'' \<in> set (node_ids example_graph)" by code_simp
  with validate_graph_sound [OF example_graph_accepted] show ?thesis by blast
qed

definition looped_graph :: WorkflowGraphSchema where
  "looped_graph = \<lparr> gs_Version = 0,
     gs_Nodes = [example_node ''t'' ''trigger'' no_contract, example_action ''x'', example_action ''y''],
     gs_Edges = [example_edge ''t'' ''x'' [], example_edge ''x'' ''y'' [], example_edge ''y'' ''x'' []] \<rparr>"

definition looped_tables :: graph_tables where
  "looped_tables = (case build_tables example_env looped_graph of
     Inr t \<Rightarrow> t | Inl _ \<Rightarrow> \<lparr> gt_Nodes = [], gt_Trigger = [], gt_Adjacency = [], gt_Branches = [] \<rparr>)"

theorem validate_graph_decides_rooted_dag_witness:
  "snd (WorkflowValidateGraph example_env (Some looped_graph)) =
     Some (badRequest ''backend.workflow.graph_cycle'' []) \<and> \<not> acyclic (edge_rel looped_graph)"
proof -
  have g: "gs_Version looped_graph \<in> {0, 2}" "gs_Nodes looped_graph \<noteq> []"
    by (simp_all add: looped_graph_def)
  have "build_tables example_env looped_graph = Inr looped_tables" by code_simp
  moreover have "first_err (branch_check example_env (gt_Nodes looped_tables)) (gt_Branches looped_tables) = None"
    by code_simp
  moreover have "snd (WorkflowValidateGraph example_env (Some looped_graph)) =
     Some (badRequest ''backend.workflow.graph_cycle'' [])" by code_simp
  ultimately show ?thesis using validate_graph_decides_rooted_dag [OF g] by blast
qed


theorem condition_routing_witness:
  "nextNodeIDs (Some example_graph) ''c'' ''false'' = [''y''] \<and>
   length (nextNodeIDs (Some example_graph) ''c'' ''true'') \<le> 1"
proof -
  have n: "example_nodes ! 1 \<in> set (gs_Nodes example_graph)"
    "node_type (example_nodes ! 1) = ''condition''" "node_id (example_nodes ! 1) = ''c''"
    "nextNodeIDs (Some example_graph) ''c'' ''false'' = [''y'']"
    by (simp add: example_graph_def example_nodes_def, code_simp, code_simp, code_simp)
  from condition_routing [OF example_graph_accepted example_graph_sources n(1,2)] n(3,4)
  show ?thesis by simp
qed

subsection \<open>Where the validator and the engine disagree\<close>

text \<open>
  The validator trims node types before it compares them, the engine's \<open>WorkflowGraphTrigger\<close>
  does not.
\<close>

definition padded_graph :: WorkflowGraphSchema where
  "padded_graph = \<lparr> gs_Version = 2,
     gs_Nodes = [example_node ''t'' '' trigger'' no_contract, example_action ''x''],
     gs_Edges = [example_edge ''t'' ''x'' []] \<rparr>"

text \<open>
  A graph whose trigger type is written with a leading blank is accepted, but the engine finds
  no trigger in it and no node to start from, so that a process of this graph completes without
  executing its action.
\<close>

theorem padded_trigger_never_runs:
  "snd (WorkflowValidateGraph example_env (Some padded_graph)) = None \<and>
   WorkflowGraphTrigger (Some padded_graph) = zero_node \<and>
   nextNodeIDs (Some padded_graph) (gn_ID (WorkflowGraphTrigger (Some padded_graph))) ''success'' = []"
  by code_simp

definition stranded_graph :: WorkflowGraphSchema where
  "stranded_graph = \<lparr> gs_Version = 2,
     gs_Nodes = [example_node ''t'' ''trigger'' no_contract, example_node ''x'' ''action''
       (no_contract \<lparr> nc_Action := Some (zero_action \<lparr> bc_ActionKey := ''pay'',
         bc_OnError := '' error_branch'' \<rparr>) \<rparr>), example_action ''y''],
     gs_Edges = [example_edge ''t'' ''x'' [], example_edge ''x'' ''y'' []] \<rparr>"

text \<open>
  The check that an action with the error policy \<open>error_branch\<close> has an error branch compares
  the policy untrimmed: with a leading blank the graph is accepted, while the engine, which trims
  the policy, sends a failure of the action to the outcome \<open>error\<close>, which no labelled edge takes;
  only the unlabelled success edge matches it.
\<close>

theorem padded_error_policy_skips_check:
  "snd (WorkflowValidateGraph example_env (Some stranded_graph)) = None \<and>
   valueOrDefault (trim_space (bc_OnError (WorkflowBusinessActionNodeContract
     (gs_Nodes stranded_graph ! 1)))) ''fail'' = ''error_branch'' \<and>
   nextNodeIDs (Some stranded_graph) ''x'' ''error'' = [''y'']"
  by code_simp

end
