(* ===== verification/Workflow_Execution.thy ===== *)
theory Workflow_Execution
  imports Workflow_Model Go_Time
begin

text \<open>
  The execution policies of \<open>runtime/domain/workflow/policy/workflow_execution_policy.go\<close>: when
  an execution row is due, how a failure schedules a retry or dead-letters the row, and how the
  idempotency key of a run is projected from its payload.

  The clock shows UTC; \<open>now.Format(time.RFC3339)\<close> is \<open>format_rfc3339\<close>. An error is an
  \<open>apperror.AppError\<close> or another Go error; the methods \<open>ErrorCode\<close> and \<open>ErrorParams\<close> of the
  foundation package and its \<open>idempotency.Fingerprint\<close> are arguments. \<open>WorkflowRetryCount\<close>, which
  truncates floating-point numbers, is not modelled.

  The theorems: after a failure below the attempt limit the row is due again exactly from the
  scheduled second on; at the limit it is dead-lettered and never due again; with a constant
  attempt limit a row survives at most that many failures.
\<close>

subsection \<open>Reading definitions and payloads\<close>

definition workflowContainsText :: "string list \<Rightarrow> string \<Rightarrow> bool" where
  "workflowContainsText values want = list_ex (\<lambda>value. value = want) values"

definition WorkflowChangedFieldsFromTrigger :: "WorkflowSchema \<Rightarrow> string \<Rightarrow> string list" where
  "WorkflowChangedFieldsFromTrigger workflow trigger = (let
     parts = str_split ''.'' trigger;
     field = trim_space (last parts);
     fields = (if has_prefix (trim_space trigger) ''record_updated:'' \<and> length parts \<ge> 2 \<and> field \<noteq> []
               then [field] else [])
   in (case ws_TriggerContract workflow of
         None \<Rightarrow> fields
       | Some contract \<Rightarrow> (let key = trim_space (tr_FieldKey contract) in
           if key \<noteq> [] \<and> \<not> workflowContainsText fields key then fields @ [key] else fields)))"

definition WorkflowPayloadString :: "data \<Rightarrow> string \<Rightarrow> string" where
  "WorkflowPayloadString payload key =
     (if \<not> map_has payload key \<or> data_get payload key = VNil then []
      else sprint_trim (data_get payload key))"

definition WorkflowApprovalSubjectUserID :: "data \<Rightarrow> string \<Rightarrow> string" where
  "WorkflowApprovalSubjectUserID variables employeeField =
     (case filter (\<lambda>u. u \<noteq> [])
        (map (WorkflowPayloadString variables) [employeeField, ''owner'', ''initiating_user_id'']) of
        [] \<Rightarrow> [] | u # _ \<Rightarrow> u)"

definition WorkflowRunAs :: "WorkflowSchema \<Rightarrow> string" where
  "WorkflowRunAs workflow = trim_space (ws_RunAs workflow)"

definition WorkflowManualRunAllowed :: "WorkflowSchema \<Rightarrow> bool" where
  "WorkflowManualRunAllowed workflow = (case ws_TriggerContract workflow of
     None \<Rightarrow> False | Some c \<Rightarrow> trim_space (tr_Type c) = ''manual'')"

definition WorkflowMaxAttempts :: "WorkflowSchema \<Rightarrow> int" where
  "WorkflowMaxAttempts workflow = (case ws_Retry workflow of
     Some r \<Rightarrow> if rp_MaxAttempts r > 0 then rp_MaxAttempts r else 3 | None \<Rightarrow> 3)"

definition WorkflowRetryDelaySeconds :: "WorkflowSchema \<Rightarrow> int" where
  "WorkflowRetryDelaySeconds workflow = (case ws_Retry workflow of
     Some r \<Rightarrow> if rp_DelaySeconds r > 0 then rp_DelaySeconds r else 60 | None \<Rightarrow> 60)"

definition WorkflowCloneMap :: "data \<Rightarrow> data" where
  "WorkflowCloneMap value = foldl (\<lambda>out (key, item). AList.update key item out) [] value"

definition WorkflowValueIsEmpty :: "gval \<Rightarrow> bool" where
  "WorkflowValueIsEmpty value = value_is_empty value"

definition WorkflowIdempotencyKey ::
    "(string \<Rightarrow> data \<Rightarrow> string option) \<Rightarrow> WorkflowSchema \<Rightarrow> data \<Rightarrow> string" where
  "WorkflowIdempotencyKey fingerprint workflow payload =
     (if ws_IdempotencyKeys workflow = [] then []
      else (let projection = foldl (\<lambda>m key. AList.update (trim_space key) (data_get payload key) m) []
              (ws_IdempotencyKeys workflow)
            in (case fingerprint (trim_space (ws_Key workflow)) projection of
                  None \<Rightarrow> [] | Some f \<Rightarrow> f)))"

subsection \<open>Due executions\<close>

definition WorkflowExecutionRetryScheduled :: "WorkflowExecution \<Rightarrow> bool" where
  "WorkflowExecutionRetryScheduled execution = (let status = trim_space (we_Status execution) in
     if status \<noteq> ''failed'' \<and> status \<noteq> ''pending'' then False
     else if we_MaxAttempts execution > 0 \<and> we_Attempt execution \<ge> we_MaxAttempts execution then False
     else trim_space (we_NextRunAt execution) \<noteq> [])"

text \<open>
  The source parses with the layout \<open>RFC3339Nano\<close> and, when that fails, with \<open>RFC3339\<close>; the
  two layouts accept the same texts.
\<close>

definition due_by :: "string \<Rightarrow> int \<Rightarrow> bool" where
  "due_by text now = (case parse_rfc3339 (trim_space text) of None \<Rightarrow> False | Some t \<Rightarrow> \<not> t > now)"

definition WorkflowExecutionDue :: "WorkflowExecution \<Rightarrow> int \<Rightarrow> bool" where
  "WorkflowExecutionDue execution now = (let status = trim_space (we_Status execution) in
     if status = ''running'' then due_by (we_LeaseExpiresAt execution) now
     else if status \<noteq> ''pending'' \<and> status \<noteq> ''failed'' then False
     else if we_MaxAttempts execution > 0 \<and> we_Attempt execution \<ge> we_MaxAttempts execution then False
     else if trim_space (we_NextRunAt execution) = [] then status = ''pending''
     else due_by (we_NextRunAt execution) now)"

subsection \<open>Failures\<close>

datatype go_error = AppError app_error | OtherError

record apperror_api =
  ErrorCode :: "app_error \<Rightarrow> string"
  ErrorParams :: "app_error \<Rightarrow> (string \<times> string) list"

definition workflowNormalizedErrorCode :: "error_kind \<Rightarrow> string \<Rightarrow> string" where
  "workflowNormalizedErrorCode kind code =
     (if str_contains (trim_space code) ''.'' then trim_space code
      else (case kind of
          KindBadRequest \<Rightarrow> ''backend.bad_request''
        | KindForbidden \<Rightarrow> ''backend.forbidden''
        | KindNotFound \<Rightarrow> ''backend.not_found''
        | KindConflict \<Rightarrow> ''backend.conflict''
        | _ \<Rightarrow> ''backend.internal''))"

definition workflowErrorCode ::
    "apperror_api \<Rightarrow> go_error option \<Rightarrow> string \<times> (string \<times> string) list" where
  "workflowErrorCode api err = (case err of
     None \<Rightarrow> (''backend.internal'', [])
   | Some (AppError e) \<Rightarrow>
       (workflowNormalizedErrorCode (err_Kind e) (ErrorCode api e), ErrorParams api e)
   | Some OtherError \<Rightarrow> (''backend.internal'', [(''operation'', ''workflow'')]))"

definition set_result :: "string \<Rightarrow> gval \<Rightarrow> WorkflowExecution \<Rightarrow> WorkflowExecution" where
  "set_result k v e = e \<lparr> we_Result := AList.update k v (we_Result e) \<rparr>"

text \<open>
  \<open>time.Duration(delay) * time.Second\<close> is a 64-bit product.
\<close>

definition WorkflowMarkFailed ::
    "apperror_api \<Rightarrow> WorkflowExecution \<Rightarrow> WorkflowSchema \<Rightarrow> go_error option \<Rightarrow> int \<Rightarrow> WorkflowExecution" where
  "WorkflowMarkFailed api execution workflow err now = (let
     (code, params) = workflowErrorCode api err;
     e1 = execution \<lparr> we_Status := ''failed'', we_LastError := code, we_Message := code \<rparr>;
     e2 = set_result ''last_error_code'' (VStr code) (set_result ''last_error'' (VStr code) e1);
     e3 = (if params \<noteq> [] then set_result ''last_error_params'' (VStrMap params) e2 else e2);
     maxAttempts = (if we_MaxAttempts execution \<le> 0 then WorkflowMaxAttempts workflow
                    else we_MaxAttempts execution);
     e4 = e3 \<lparr> we_MaxAttempts := maxAttempts \<rparr>
   in if we_Attempt e4 \<ge> maxAttempts then
        set_result ''dead_lettered'' (VBool True)
          (e4 \<lparr> we_Status := ''dead_letter'', we_NextRunAt := [] \<rparr>)
      else (let
          next_run = format_rfc3339 (now + wrap64 (WorkflowRetryDelaySeconds workflow * second));
          e5 = e4 \<lparr> we_NextRunAt := next_run \<rparr>
        in set_result ''retry_delay_seconds'' (VInt (WorkflowRetryDelaySeconds workflow))
             (set_result ''retry_after'' (VStr next_run)
               (set_result ''retry_scheduled'' (VBool True) e5))))"

subsection \<open>What a failure does to the row\<close>

definition attempt_limit :: "WorkflowSchema \<Rightarrow> WorkflowExecution \<Rightarrow> int" where
  "attempt_limit workflow e =
     (if we_MaxAttempts e \<le> 0 then WorkflowMaxAttempts workflow else we_MaxAttempts e)"

definition retry_at :: "WorkflowSchema \<Rightarrow> int \<Rightarrow> int" where
  "retry_at workflow now = now + wrap64 (WorkflowRetryDelaySeconds workflow * second)"

lemma attempt_limit_pos: "1 \<le> attempt_limit workflow e"
  by (auto simp: attempt_limit_def WorkflowMaxAttempts_def split: option.splits)

lemma set_result_simps [simp]:
  "we_Status (set_result k v e) = we_Status e" "we_Attempt (set_result k v e) = we_Attempt e"
  "we_MaxAttempts (set_result k v e) = we_MaxAttempts e"
  "we_NextRunAt (set_result k v e) = we_NextRunAt e"
  "we_LeaseExpiresAt (set_result k v e) = we_LeaseExpiresAt e"
  "we_FencingToken (set_result k v e) = we_FencingToken e"
  "we_LeaseOwner (set_result k v e) = we_LeaseOwner e" "we_ID (set_result k v e) = we_ID e"
  by (simp_all add: set_result_def)

lemma mark_failed_fields:
  "we_Attempt (WorkflowMarkFailed api e wfl err now) = we_Attempt e"
  "we_MaxAttempts (WorkflowMarkFailed api e wfl err now) = attempt_limit wfl e"
  "we_FencingToken (WorkflowMarkFailed api e wfl err now) = we_FencingToken e"
  "we_LeaseOwner (WorkflowMarkFailed api e wfl err now) = we_LeaseOwner e"
  "we_ID (WorkflowMarkFailed api e wfl err now) = we_ID e"
  "we_Status (WorkflowMarkFailed api e wfl err now) =
     (if attempt_limit wfl e \<le> we_Attempt e then ''dead_letter'' else ''failed'')"
  "we_NextRunAt (WorkflowMarkFailed api e wfl err now) =
     (if attempt_limit wfl e \<le> we_Attempt e then [] else format_rfc3339 (retry_at wfl now))"
  by (simp_all add: WorkflowMarkFailed_def attempt_limit_def retry_at_def Let_def
      split: prod.splits)

lemma status_literals:
  "trim_space ''failed'' = ''failed''" "trim_space ''dead_letter'' = ''dead_letter''"
  "trim_space ''running'' = ''running''" "trim_space ''pending'' = ''pending''"
  by (rule trim_space_by_edges, simp add: edge_bytes_def)+

lemma due_by_format:
  "four_digit_year t \<Longrightarrow> due_by (format_rfc3339 t) now \<longleftrightarrow> t - t mod second \<le> now"
  by (simp add: due_by_def format_rfc3339_edges parse_format_rfc3339 not_less)

lemma mark_failed_retry_due:
  assumes "we_Attempt e < attempt_limit wfl e" and "four_digit_year (retry_at wfl now)"
  shows "WorkflowExecutionRetryScheduled (WorkflowMarkFailed api e wfl err now)"
    "WorkflowExecutionDue (WorkflowMarkFailed api e wfl err now) t \<longleftrightarrow>
       retry_at wfl now - retry_at wfl now mod second \<le> t"
proof -
  have "attempt_limit wfl e > 0" using attempt_limit_pos [of wfl e] by simp
  with assms show "WorkflowExecutionRetryScheduled (WorkflowMarkFailed api e wfl err now)"
    "WorkflowExecutionDue (WorkflowMarkFailed api e wfl err now) t \<longleftrightarrow>
       retry_at wfl now - retry_at wfl now mod second \<le> t"
    by (simp_all add: mark_failed_fields WorkflowExecutionRetryScheduled_def WorkflowExecutionDue_def
        status_literals format_rfc3339_edges due_by_format Let_def)
qed

text \<open>
  A failure below the attempt limit leaves the row with a scheduled retry: it keeps its attempt
  count, and it is due from the second of \<open>now\<close> plus the retry delay on, and not before.
\<close>

theorem mark_failed_schedules_retry:
  assumes "we_Attempt e < attempt_limit wfl e" and "four_digit_year (retry_at wfl now)"
  shows "let e' = WorkflowMarkFailed api e wfl err now in
     WorkflowExecutionRetryScheduled e' \<and> we_Attempt e' = we_Attempt e \<and>
     (\<forall>t. WorkflowExecutionDue e' t \<longleftrightarrow> retry_at wfl now - retry_at wfl now mod second \<le> t)"
  using mark_failed_retry_due [OF assms] by (simp add: mark_failed_fields Let_def)

definition example_execution :: "string \<Rightarrow> int \<Rightarrow> int \<Rightarrow> WorkflowExecution" where
  "example_execution status attempt limit = \<lparr> we_WorkspaceID = ''w'', we_ID = ''e1'',
     we_WorkflowKey = ''k'', we_Name = [], we_Trigger = [], we_Status = status, we_ActionType = [],
     we_Action = [], we_Payload = [], we_Result = [], we_ProcessID = [], we_NodeID = [],
     we_ObjectKey = [], we_RecordID = [], we_ActorID = [], we_RunAs = [], we_IdempotencyKey = [],
     we_Attempt = attempt, we_MaxAttempts = limit, we_NextRunAt = [], we_LastError = [],
     we_LeaseOwner = [], we_LeaseExpiresAt = [], we_FencingToken = 0, we_Message = [],
     we_CreatedAt = [], we_UpdatedAt = [] \<rparr>"

definition example_schema :: "WorkflowRetryPolicy option \<Rightarrow> WorkflowSchema" where
  "example_schema retry = \<lparr> ws_DefinitionVersionID = [], ws_PublishedVersion = 1, ws_Key = ''k'',
     ws_Name = [], ws_Action = [], ws_TriggerContract = None, ws_ConditionContract = None, ws_Enabled = True,
     ws_RunAs = [], ws_IdempotencyKeys = [''order'', ''line ''], ws_Retry = retry,
     ws_TimeoutSeconds = 0, ws_Graph = None \<rparr>"

definition example_api :: apperror_api where
  "example_api = \<lparr> ErrorCode = err_Code, ErrorParams = err_Params \<rparr>"

theorem mark_failed_schedules_retry_witness:
  "WorkflowExecutionDue (WorkflowMarkFailed example_api (example_execution ''running'' 1 3)
     (example_schema None) (Some OtherError) 1500000000) (61 * second) \<and>
   \<not> WorkflowExecutionDue (WorkflowMarkFailed example_api (example_execution ''running'' 1 3)
     (example_schema None) (Some OtherError) 1500000000) (60 * second)"
proof -
  have r: "retry_at (example_schema None) 1500000000 = 61500000000"
    by (simp add: retry_at_def WorkflowRetryDelaySeconds_def example_schema_def second_def in_int64_def)
  have "four_digit_year (61500000000 :: int)" by code_simp
  moreover have "we_Attempt (example_execution ''running'' 1 3) <
      attempt_limit (example_schema None) (example_execution ''running'' 1 3)"
    by (simp add: example_execution_def attempt_limit_def)
  ultimately show ?thesis
    using mark_failed_schedules_retry
      [of "example_execution ''running'' 1 3" "example_schema None" 1500000000 example_api "Some OtherError"]
    by (simp add: r Let_def second_def)
qed

text \<open>
  A failure at or above the attempt limit dead-letters the row: it has no next run, no retry is
  scheduled, and it is due at no time.
\<close>

theorem mark_failed_dead_letters:
  assumes "attempt_limit wfl e \<le> we_Attempt e"
  shows "let e' = WorkflowMarkFailed api e wfl err now in
     we_Status e' = ''dead_letter'' \<and> we_NextRunAt e' = [] \<and>
     \<not> WorkflowExecutionRetryScheduled e' \<and> (\<forall>t. \<not> WorkflowExecutionDue e' t)"
  using assms by (simp add: mark_failed_fields WorkflowExecutionRetryScheduled_def
      WorkflowExecutionDue_def status_literals Let_def)

theorem mark_failed_dead_letters_witness:
  "\<not> WorkflowExecutionDue (WorkflowMarkFailed example_api (example_execution ''running'' 3 0)
     (example_schema None) None 0) (10 ^ 18)"
  using mark_failed_dead_letters
    [of "example_schema None" "example_execution ''running'' 3 0" example_api None 0]
  by (simp add: attempt_limit_def example_execution_def example_schema_def WorkflowMaxAttempts_def
      Let_def)

text \<open>
  A retry delay whose nanoseconds do not fit in 64 bits wraps around: with a delay of
  9223372037 seconds the retry is scheduled centuries before the failure and is due at once.
\<close>

theorem retry_delay_overflow:
  "WorkflowExecutionDue (WorkflowMarkFailed example_api (example_execution ''running'' 1 3)
     (example_schema (Some \<lparr> rp_MaxAttempts = 3, rp_DelaySeconds = 9223372037 \<rparr>)) None
     (20000 * day)) (20000 * day)"
proof -
  let ?wfl = "example_schema (Some \<lparr> rp_MaxAttempts = 3, rp_DelaySeconds = 9223372037 \<rparr>)"
  have r: "retry_at ?wfl (20000 * day) = 20000 * day - 9223372036709551616"
    by (simp add: retry_at_def WorkflowRetryDelaySeconds_def example_schema_def wrap64_def time_units)
  have "four_digit_year (retry_at ?wfl (20000 * day))" unfolding r by code_simp
  moreover have "we_Attempt (example_execution ''running'' 1 3) <
      attempt_limit ?wfl (example_execution ''running'' 1 3)"
    by (simp add: example_execution_def attempt_limit_def)
  ultimately show ?thesis
    by (simp only: mark_failed_retry_due(2)) (simp only: r, simp add: time_units)
qed

subsection \<open>Payload projections\<close>

text \<open>
  the idempotency key of a run depends only on the workflow and on the payload values of its
  idempotency keys: two payloads that agree there are the same run for any fingerprint function.
\<close>

theorem idempotency_key_projection:
  assumes "\<forall>k \<in> set (ws_IdempotencyKeys wfl). data_get p k = data_get q k"
  shows "WorkflowIdempotencyKey fingerprint wfl p = WorkflowIdempotencyKey fingerprint wfl q"
proof -
  have "foldl (\<lambda>m key. AList.update (trim_space key) (data_get p key) m) [] (ws_IdempotencyKeys wfl) =
      foldl (\<lambda>m key. AList.update (trim_space key) (data_get q key) m) [] (ws_IdempotencyKeys wfl)"
    using assms by (intro foldl_cong) auto
  then show ?thesis by (simp add: WorkflowIdempotencyKey_def)
qed

theorem idempotency_key_projection_witness:
  "WorkflowIdempotencyKey (\<lambda>k m. Some (k @ sprint (VMap m))) (example_schema None)
     [(''order'', VInt 7), (''line '', VInt 1), (''time'', VStr ''10:00'')] =
   WorkflowIdempotencyKey (\<lambda>k m. Some (k @ sprint (VMap m))) (example_schema None)
     [(''order'', VInt 7), (''line '', VInt 1), (''time'', VStr ''10:05'')]"
  by (rule idempotency_key_projection) (simp add: example_schema_def map_get_def)

lemma update_foldl_fresh:
  "wf_map (m @ n) \<Longrightarrow> foldl (\<lambda>out (key, item). AList.update key item out) m n = m @ n"
proof (induction n arbitrary: m)
  case (Cons x n)
  then have "fst x \<notin> fst ` set m" by auto
  with Cons show ?case by (simp add: update_fresh case_prod_beta)
qed simp

lemma WorkflowCloneMap_id: "wf_map m \<Longrightarrow> WorkflowCloneMap m = m"
  using update_foldl_fresh [of "[]" m] by (simp add: WorkflowCloneMap_def)

end
