(* ===== verification/Fenced_Lease.thy ===== *)
theory Fenced_Lease
  imports Go_Prelude
begin

text \<open>
  The contract behind every leased row of the runtime (workflow executions, record timers,
  boundary intents): a claim raises the row's fencing token by one, and an update by a holder
  succeeds only while the row still has the token the holder was given, and keeps it.

  The locale \<open>fenced_lease\<close> states the contract; \<open>lease_step\<close> is the interleaving of any number
  of holders on one row. What follows for every implementation: tokens identify holders, at most
  one holder can update the row at any time, and a holder that was overtaken never can again.
\<close>

text \<open>A state is the row and the holders that were ever granted a lease, with their tokens.\<close>

inductive lease_step ::
  "('row \<Rightarrow> int) \<Rightarrow> ('c \<Rightarrow> 'row \<Rightarrow> 'row option) \<Rightarrow> ('m \<Rightarrow> int \<Rightarrow> 'row \<Rightarrow> 'row option) \<Rightarrow>
     'row \<times> ('c \<times> int) list \<Rightarrow> 'row \<times> ('c \<times> int) list \<Rightarrow> bool"
  for token claim commit where
  Grant: "claim c row = Some row' \<Longrightarrow>
     lease_step token claim commit (row, held) (row', (c, token row') # held)"
| Update: "(c, t) \<in> set held \<Longrightarrow> commit m t row = Some row' \<Longrightarrow>
     lease_step token claim commit (row, held) (row', held)"

inductive_cases lease_stepE: "lease_step token claim commit (row, held) s'"

definition lease_inv :: "('row \<Rightarrow> int) \<Rightarrow> 'row \<times> ('c \<times> int) list \<Rightarrow> bool" where
  "lease_inv token s \<longleftrightarrow> distinct (map snd (snd s)) \<and> (\<forall>(c, t) \<in> set (snd s). t \<le> token (fst s))"

locale fenced_lease =
  fixes token :: "'row \<Rightarrow> int" and claim :: "'c \<Rightarrow> 'row \<Rightarrow> 'row option"
    and commit :: "'m \<Rightarrow> int \<Rightarrow> 'row \<Rightarrow> 'row option"
  assumes claim_raises: "claim c row = Some row' \<Longrightarrow> token row' = token row + 1"
    and commit_current: "commit m t row = Some row' \<Longrightarrow> token row = t"
    and commit_keeps: "commit m t row = Some row' \<Longrightarrow> token row' = token row"
begin

lemma token_mono:
  "lease_step token claim commit s s' \<Longrightarrow> token (fst s) \<le> token (fst s')"
  by (induction rule: lease_step.induct) (auto dest: claim_raises commit_keeps)

lemma lease_inv_step:
  assumes "lease_step token claim commit s s'" and "lease_inv token s"
  shows "lease_inv token s'"
  using assms
proof (induction rule: lease_step.induct)
  case (Grant c row row' held)
  then have "token row' = token row + 1" by (simp add: claim_raises)
  moreover from this Grant have "token row' \<notin> snd ` set held"
    by (force simp: lease_inv_def)
  ultimately show ?case using Grant by (force simp: lease_inv_def)
next
  case (Update c t held m row row')
  then have "token row' = token row" by (simp add: commit_keeps)
  with Update show ?case by (auto simp: lease_inv_def)
qed

lemma lease_inv_reachable:
  assumes "(lease_step token claim commit)\<^sup>*\<^sup>* (row, []) s"
  shows "lease_inv token s"
  using assms
proof (induction rule: rtranclp_induct)
  case base
  show ?case by (simp add: lease_inv_def)
next
  case (step s s')
  then show ?case by (simp add: lease_inv_step)
qed

lemma exclusive:
  assumes "(lease_step token claim commit)\<^sup>*\<^sup>* (row0, []) (row, held)"
    and "(a, t) \<in> set held" "(b, u) \<in> set held"
    and "commit m t row \<noteq> None" "commit n u row \<noteq> None"
  shows "(a, t) = (b, u)"
proof -
  have "t = u" using assms(4,5) commit_current by (metis not_None_eq)
  moreover have "distinct (map snd held)"
    using lease_inv_reachable [OF assms(1)] by (simp add: lease_inv_def)
  ultimately show ?thesis
    using assms(2,3) by (metis distinct_map inj_on_eq_iff snd_conv)
qed

lemma token_mono_reachable:
  "(lease_step token claim commit)\<^sup>*\<^sup>* s s' \<Longrightarrow> token (fst s) \<le> token (fst s')"
  by (induction rule: rtranclp_induct) (auto dest: token_mono intro: order_trans)

lemma overtaken_forever:
  assumes "(lease_step token claim commit)\<^sup>*\<^sup>* (row, held) (row', held')" and "t < token row"
  shows "commit m t row' = None"
proof (rule ccontr)
  assume "commit m t row' \<noteq> None"
  then have "token row' = t" using commit_current by blast
  with assms(2) token_mono_reachable [OF assms(1)] show False by simp
qed

lemma fencing:
  assumes "(lease_step token claim commit)\<^sup>*\<^sup>* (row0, []) (row, held)"
    and "(a, t) \<in> set held" and "(b, u) \<in> set held" and "commit m t row \<noteq> None"
  shows "(commit n u row \<noteq> None \<longrightarrow> (a, t) = (b, u)) \<and>
    (t \<noteq> u \<longrightarrow> (\<forall>row' held'. (lease_step token claim commit)\<^sup>*\<^sup>* (row, held) (row', held') \<longrightarrow>
       commit n u row' = None))"
proof (intro conjI impI allI)
  assume "commit n u row \<noteq> None"
  then show "(a, t) = (b, u)" by (rule exclusive [OF assms])
next
  fix row' held'
  assume "t \<noteq> u" and steps: "(lease_step token claim commit)\<^sup>*\<^sup>* (row, held) (row', held')"
  have "token row = t" using assms(4) commit_current by blast
  moreover have "u \<le> token row"
    using lease_inv_reachable [OF assms(1)] assms(3) by (auto simp: lease_inv_def)
  ultimately show "commit n u row' = None"
    using \<open>t \<noteq> u\<close> by (intro overtaken_forever [OF steps]) simp
qed

end

end
