(* ===== verification/Workflow_Worker.thy ===== *)
theory Workflow_Worker
  imports Workflow_Execution Fenced_Lease
begin

text \<open>
  The worker that runs due workflow executions
  (\<open>runtime/application/workflow/workflow_record_worker_application_service.go\<close>) and the
  compare-and-set update it is built on (\<open>UpdateExecutionWhere\<close> of
  \<open>runtime/infrastructure/persistence/database/workflow/workflow_worker_store.go\<close>).

  The table \<open>_workflow_executions\<close> of a workspace is the list of its rows; every column but
  \<open>workspace_id\<close> and \<open>id\<close> is written by an update. \<open>fenced\<close> are the row ids under an erasure fence
  (\<open>SubjectEvidenceWriteAllowed\<close>). The calls of the worker into the process engine enter as their
  results (\<open>work_result\<close>), and one reading of the clock stands for the readings within one iteration of its
  loop. The fencing token is an \<open>int\<close>: it would take \<open>2 ^ 63\<close> claims of one row
  to wrap it.

  The theorems: the claim and the commit satisfy the contract of \<open>Fenced_Lease\<close>; settled failures
  are bounded by the attempt limit, while claims that are never settled are not counted.
\<close>

subsection \<open>UpdateExecutionWhere\<close>

record execution_conditions =
  ec_Status :: "string option"
  ec_UpdatedAt :: "string option"
  ec_LeaseOwner :: "string option"
  ec_FencingToken :: "int option"

definition cond_holds :: "'a option \<Rightarrow> 'a \<Rightarrow> bool" where
  "cond_holds c v = (case c of None \<Rightarrow> True | Some x \<Rightarrow> v = x)"

definition execution_row_matches ::
    "string list \<Rightarrow> WorkflowExecution \<Rightarrow> execution_conditions \<Rightarrow> WorkflowExecution \<Rightarrow> bool" where
  "execution_row_matches fenced execution c row \<longleftrightarrow>
     we_ID row = we_ID execution \<and> we_ID execution \<notin> set fenced \<and>
     (we_Status execution \<noteq> ''cancelled'' \<longrightarrow> we_Status row \<noteq> ''cancelled'') \<and>
     cond_holds (ec_Status c) (we_Status row) \<and> cond_holds (ec_UpdatedAt c) (we_UpdatedAt row) \<and>
     cond_holds (ec_LeaseOwner c) (we_LeaseOwner row) \<and>
     cond_holds (ec_FencingToken c) (we_FencingToken row)"

definition execution_row_update ::
    "string list \<Rightarrow> WorkflowExecution \<Rightarrow> execution_conditions \<Rightarrow> WorkflowExecution \<Rightarrow> WorkflowExecution option" where
  "execution_row_update fenced execution c row =
     (if execution_row_matches fenced execution c row
      then Some (execution \<lparr> we_WorkspaceID := we_WorkspaceID row, we_ID := we_ID row \<rparr>) else None)"

definition UpdateExecutionWhere ::
    "string list \<Rightarrow> WorkflowExecution \<Rightarrow> execution_conditions \<Rightarrow> WorkflowExecution list \<Rightarrow>
       WorkflowExecution list \<times> bool" where
  "UpdateExecutionWhere fenced execution c rows =
     (map (\<lambda>row. case execution_row_update fenced execution c row of Some r \<Rightarrow> r | None \<Rightarrow> row) rows,
      length (filter (execution_row_matches fenced execution c) rows) = 1)"

subsection \<open>Claim, heartbeat and commit\<close>

definition lease_ttl :: int where
  "lease_ttl = 5 * minute"

definition claim_execution :: "string \<Rightarrow> int \<Rightarrow> WorkflowExecution \<Rightarrow> WorkflowExecution" where
  "claim_execution worker now previous = (let updatedAt = format_rfc3339 now in
     set_result ''worker_claimed_at'' (VStr updatedAt)
       (previous \<lparr> we_Status := ''running'', we_LeaseOwner := worker,
          we_LeaseExpiresAt := format_rfc3339nano (now + lease_ttl),
          we_FencingToken := we_FencingToken previous + 1,
          we_Message := ''workflow.message.retryClaimed'', we_NextRunAt := [],
          we_UpdatedAt := updatedAt, we_Result := WorkflowCloneMap (we_Result previous) \<rparr>))"

definition claim_conditions :: "WorkflowExecution \<Rightarrow> execution_conditions" where
  "claim_conditions previous = \<lparr> ec_Status = Some (we_Status previous),
     ec_UpdatedAt = Some (we_UpdatedAt previous), ec_LeaseOwner = Some (we_LeaseOwner previous),
     ec_FencingToken = Some (we_FencingToken previous) \<rparr>"

text \<open>
  A claim request: the snapshot the worker read, its name and its clock.
\<close>

record claim_request =
  cl_Previous :: WorkflowExecution
  cl_Worker :: string
  cl_Now :: int

definition worker_claim :: "string list \<Rightarrow> claim_request \<Rightarrow> WorkflowExecution \<Rightarrow> WorkflowExecution option" where
  "worker_claim fenced q row =
     (if \<not> WorkflowExecutionDue (cl_Previous q) (cl_Now q) then None
      else execution_row_update fenced (claim_execution (cl_Worker q) (cl_Now q) (cl_Previous q))
        (claim_conditions (cl_Previous q)) row)"

definition holder_conditions :: "string \<Rightarrow> int \<Rightarrow> execution_conditions" where
  "holder_conditions owner t = \<lparr> ec_Status = Some ''running'', ec_UpdatedAt = None,
     ec_LeaseOwner = Some owner, ec_FencingToken = Some t \<rparr>"

definition commitClaimedWorkflowExecution ::
    "string list \<Rightarrow> WorkflowExecution \<Rightarrow> WorkflowExecution \<Rightarrow> WorkflowExecution option" where
  "commitClaimedWorkflowExecution fenced execution row =
     execution_row_update fenced (execution \<lparr> we_LeaseOwner := [], we_LeaseExpiresAt := [] \<rparr>)
       (holder_conditions (we_LeaseOwner execution) (we_FencingToken execution)) row"

definition heartbeat_execution ::
    "string list \<Rightarrow> int \<Rightarrow> WorkflowExecution \<Rightarrow> WorkflowExecution \<Rightarrow> WorkflowExecution option" where
  "heartbeat_execution fenced now execution row =
     execution_row_update fenced
       (execution \<lparr> we_LeaseExpiresAt := format_rfc3339nano (now + lease_ttl),
          we_UpdatedAt := format_rfc3339nano now \<rparr>)
       (holder_conditions (we_LeaseOwner execution) (we_FencingToken execution)) row"

subsection \<open>Settling a claimed execution\<close>

text \<open>What the worker learns from the registry, the process store and the engine.\<close>

datatype run_result = RunFailed go_error | RunDone string "string list"

datatype work_result =
    WorkflowMissing
  | ProcessMissing
  | RouteStart run_result
  | Continuation run_result
  | RetryContinued string string

definition next_attempt :: "WorkflowExecution \<Rightarrow> int" where
  "next_attempt previous =
     (if we_Status previous = ''pending'' \<and> we_Attempt previous \<le> 0 then 1
      else we_Attempt previous + 1)"

definition dead_lettered :: "string \<Rightarrow> string \<Rightarrow> int \<Rightarrow> WorkflowExecution \<Rightarrow> WorkflowExecution" where
  "dead_lettered code message now e = e \<lparr> we_Status := ''dead_letter'', we_LastError := code,
     we_Message := message, we_UpdatedAt := format_rfc3339 now \<rparr>"

definition run_completed :: "string \<Rightarrow> string list \<Rightarrow> WorkflowExecution \<Rightarrow> WorkflowExecution" where
  "run_completed status nodes e =
     set_result ''current_node_ids'' (VStrs nodes) (set_result ''process_status'' (VStr status)
       (e \<lparr> we_Status := status, we_Message := ''workflow.message.continuationCompleted'',
          we_LastError := [], we_NextRunAt := [] \<rparr>))"

definition settle_execution ::
    "apperror_api \<Rightarrow> WorkflowSchema \<Rightarrow> WorkflowExecution \<Rightarrow> WorkflowExecution \<Rightarrow> work_result \<Rightarrow> int \<Rightarrow>
       WorkflowExecution" where
  "settle_execution api workflow previous claimed work now =
     (if work = WorkflowMissing then
        set_result ''dead_lettered'' (VBool True)
          (dead_lettered ''backend.workflow.not_found'' ''workflow.message.definitionNotFound'' now
             (claimed \<lparr> we_NextRunAt := [] \<rparr>))
      else if next_attempt previous > WorkflowMaxAttempts workflow then
        set_result ''dead_lettered'' (VBool True)
          (dead_lettered (valueOrDefault (we_LastError previous) ''backend.workflow.max_attempts_reached'')
             ''workflow.message.maxAttemptsReached'' now claimed)
      else (let attempted = claimed \<lparr> we_Attempt := next_attempt previous,
              we_UpdatedAt := format_rfc3339 now, we_Result := WorkflowCloneMap (we_Result claimed) \<rparr>
        in (case work of
          ProcessMissing \<Rightarrow> dead_lettered ''backend.workflow.process_not_found''
            ''workflow.message.processNotFound'' now claimed
        | RouteStart (RunFailed err) \<Rightarrow> WorkflowMarkFailed api attempted workflow (Some err) now
        | RouteStart (RunDone status nodes) \<Rightarrow> run_completed status nodes attempted
        | Continuation (RunFailed err) \<Rightarrow> WorkflowMarkFailed api attempted workflow (Some err) now
        | Continuation (RunDone status nodes) \<Rightarrow> (let
              done = run_completed status nodes
                (attempted \<lparr> we_NodeID := (case nodes of [] \<Rightarrow> [] | n # _ \<Rightarrow> n) \<rparr>)
            in done \<lparr> we_Result := AList.delete ''resume_node_ids'' (we_Result done) \<rparr>)
        | RetryContinued execID execStatus \<Rightarrow>
            set_result ''continued_status'' (VStr execStatus) (set_result ''continued_execution_id'' (VStr execID)
              (claimed \<lparr> we_Status := ''skipped'', we_Message := ''workflow.message.retryContinued'',
                 we_UpdatedAt := format_rfc3339 now \<rparr>))
        | WorkflowMissing \<Rightarrow> claimed)))"

subsection \<open>The lease of an execution row\<close>

text \<open>
  What a holder may write: its own claimed row, changed by the run but for its identity, owner and
  token, as a heartbeat or as the final commit.
\<close>

datatype holder_update = Heartbeat string int WorkflowExecution | Commit string WorkflowExecution

definition holder_commit ::
    "string list \<Rightarrow> holder_update \<Rightarrow> int \<Rightarrow> WorkflowExecution \<Rightarrow> WorkflowExecution option" where
  "holder_commit fenced u t row = (case u of
     Heartbeat owner now e \<Rightarrow>
       heartbeat_execution fenced now (e \<lparr> we_LeaseOwner := owner, we_FencingToken := t \<rparr>) row
   | Commit owner e \<Rightarrow>
       commitClaimedWorkflowExecution fenced (e \<lparr> we_LeaseOwner := owner, we_FencingToken := t \<rparr>) row)"

lemma execution_row_update_Some:
  "execution_row_update fenced e c row = Some r \<longleftrightarrow>
     execution_row_matches fenced e c row \<and> r = e \<lparr> we_WorkspaceID := we_WorkspaceID row, we_ID := we_ID row \<rparr>"
  by (auto simp: execution_row_update_def)

lemma claim_execution_fields [simp]:
  "we_FencingToken (claim_execution w now p) = we_FencingToken p + 1"
  "we_LeaseOwner (claim_execution w now p) = w" "we_Status (claim_execution w now p) = ''running''"
  "we_Attempt (claim_execution w now p) = we_Attempt p"
  "we_MaxAttempts (claim_execution w now p) = we_MaxAttempts p"
  "we_ID (claim_execution w now p) = we_ID p"
  "we_LeaseExpiresAt (claim_execution w now p) = format_rfc3339nano (now + lease_ttl)"
  by (simp_all add: claim_execution_def Let_def set_result_def)

interpretation execution_lease: fenced_lease we_FencingToken "worker_claim fenced" "holder_commit fenced"
  for fenced
proof
  fix q row row'
  assume "worker_claim fenced q row = Some row'"
  then show "we_FencingToken row' = we_FencingToken row + 1"
    by (auto simp: worker_claim_def execution_row_update_Some execution_row_matches_def
        claim_conditions_def cond_holds_def split: if_splits)
next
  fix m :: holder_update and t row row'
  assume a: "holder_commit fenced m t row = Some row'"
  show "we_FencingToken row = t"
    using a by (cases m)
      (auto simp: holder_commit_def heartbeat_execution_def commitClaimedWorkflowExecution_def
        execution_row_update_Some execution_row_matches_def holder_conditions_def cond_holds_def)
  with a show "we_FencingToken row' = we_FencingToken row"
    by (cases m) (auto simp: holder_commit_def heartbeat_execution_def
        commitClaimedWorkflowExecution_def execution_row_update_Some)
qed

text \<open>
  C3: in every interleaving of workers that claim an execution row, send heartbeats and commit,
  at most one of the granted claims can still write the row, and a claim that another one has
  overtaken can never write it again.
\<close>

theorem execution_lease_exclusive:
  assumes "(lease_step we_FencingToken (worker_claim fenced) (holder_commit fenced))\<^sup>*\<^sup>* (row0, []) (row, held)"
    and "(a, t) \<in> set held" and "(b, u) \<in> set held"
    and "holder_commit fenced m t row \<noteq> None"
  shows "(holder_commit fenced n u row \<noteq> None \<longrightarrow> (a, t) = (b, u)) \<and>
     (t \<noteq> u \<longrightarrow> (\<forall>row' held'. (lease_step we_FencingToken (worker_claim fenced) (holder_commit fenced))\<^sup>*\<^sup>*
        (row, held) (row', held') \<longrightarrow> holder_commit fenced n u row' = None))"
  by (rule execution_lease.fencing [OF assms])

lemma claimed_due:
  assumes "four_digit_year (now + lease_ttl)"
  shows "WorkflowExecutionDue (claim_execution w now p) t \<longleftrightarrow> now + lease_ttl \<le> t"
  by (simp add: WorkflowExecutionDue_def status_literals due_by_def format_rfc3339nano_edges
      parse_format_rfc3339nano [OF assms] not_less Let_def)

lemma execution_scheme_id: "e \<lparr> we_WorkspaceID := we_WorkspaceID e, we_ID := we_ID e \<rparr> = (e :: WorkflowExecution)"
  by simp

lemma worker_claim_same:
  assumes "WorkflowExecutionDue p now" "we_ID p \<notin> set fenced" "we_Status p \<noteq> ''cancelled''"
  shows "worker_claim fenced \<lparr> cl_Previous = p, cl_Worker = w, cl_Now = now \<rparr> p =
     Some (claim_execution w now p)"
  using assms
  by (simp add: worker_claim_def execution_row_update_def execution_row_matches_def
      claim_conditions_def cond_holds_def)
     (simp add: claim_execution_def Let_def set_result_def)

definition lease_row0 :: WorkflowExecution where
  "lease_row0 = example_execution ''pending'' 0 3"

definition lease_claim_A :: claim_request where
  "lease_claim_A = \<lparr> cl_Previous = lease_row0, cl_Worker = ''A'', cl_Now = 0 \<rparr>"

definition lease_row_A :: WorkflowExecution where
  "lease_row_A = claim_execution ''A'' 0 lease_row0"

definition lease_claim_B :: claim_request where
  "lease_claim_B = \<lparr> cl_Previous = lease_row_A, cl_Worker = ''B'', cl_Now = lease_ttl \<rparr>"

definition lease_row_B :: WorkflowExecution where
  "lease_row_B = claim_execution ''B'' lease_ttl lease_row_A"

theorem execution_lease_exclusive_witness:
  "holder_commit [] (Commit ''A'' lease_row_A) 1 lease_row_B = None \<and>
   holder_commit [] (Commit ''B'' lease_row_B) 2 lease_row_B \<noteq> None"
proof -
  have y: "four_digit_year (0 + lease_ttl)" by code_simp
  have "WorkflowExecutionDue lease_row0 0" by code_simp
  then have a: "worker_claim [] lease_claim_A lease_row0 = Some lease_row_A"
    unfolding lease_claim_A_def lease_row_A_def
    by (rule worker_claim_same) (simp_all add: lease_row0_def example_execution_def)
  have "WorkflowExecutionDue lease_row_A lease_ttl"
    unfolding lease_row_A_def using claimed_due [OF y] by simp
  then have b: "worker_claim [] lease_claim_B lease_row_A = Some lease_row_B"
    unfolding lease_claim_B_def lease_row_B_def
    by (rule worker_claim_same) (simp_all add: lease_row_A_def)
  have t: "we_FencingToken lease_row_A = 1" "we_FencingToken lease_row_B = 2"
    by (simp_all add: lease_row_A_def lease_row_B_def lease_row0_def example_execution_def)
  let ?step = "lease_step we_FencingToken (worker_claim []) (holder_commit [])"
  have "?step (lease_row0, []) (lease_row_A, [(lease_claim_A, 1)])"
    using lease_step.Grant [of "worker_claim []", OF a, of we_FencingToken "holder_commit []" "[]"] t
    by simp
  moreover have "?step (lease_row_A, [(lease_claim_A, 1)])
      (lease_row_B, [(lease_claim_B, 2), (lease_claim_A, 1)])"
    using lease_step.Grant [of "worker_claim []", OF b, of we_FencingToken "holder_commit []"
        "[(lease_claim_A, 1)]"] t by simp
  ultimately have steps: "?step\<^sup>*\<^sup>* (lease_row0, []) (lease_row_B, [(lease_claim_B, 2), (lease_claim_A, 1)])"
    by (meson converse_rtranclp_into_rtranclp rtranclp.rtrancl_refl)
  have ok: "holder_commit [] (Commit ''B'' lease_row_B) 2 lease_row_B \<noteq> None"
    by (simp add: holder_commit_def commitClaimedWorkflowExecution_def execution_row_update_def
        execution_row_matches_def holder_conditions_def cond_holds_def lease_row_B_def t(1)
        t(2) [unfolded lease_row_B_def])
  from execution_lease_exclusive [OF steps, of lease_claim_B 2 lease_claim_A 1, OF _ _ ok,
      of "Commit ''A'' lease_row_A"] ok
  show ?thesis by auto
qed

subsection \<open>Attempts\<close>

text \<open>
  One failing round: a due row is claimed, its run fails, and the failure is committed.
\<close>

definition failing :: "work_result \<Rightarrow> bool" where
  "failing work = (case work of RouteStart (RunFailed _) \<Rightarrow> True
     | Continuation (RunFailed _) \<Rightarrow> True | _ \<Rightarrow> False)"

inductive failing_round :: "apperror_api \<Rightarrow> WorkflowSchema \<Rightarrow> WorkflowExecution \<Rightarrow> WorkflowExecution \<Rightarrow> bool"
  for api workflow where
  "WorkflowExecutionDue p now \<Longrightarrow> failing work \<Longrightarrow>
   commitClaimedWorkflowExecution []
     (settle_execution api workflow p (claim_execution w now p) work now') (claim_execution w now p) = Some e \<Longrightarrow>
   failing_round api workflow p e"

inductive_cases failing_roundE: "failing_round api workflow p e"

lemma settle_failing:
  assumes "failing work"
  shows "let e = settle_execution api workflow p (claim_execution w now p) work now' in
     we_Status e = ''dead_letter'' \<or>
     (we_Status e = ''failed'' \<and> we_Attempt e = next_attempt p \<and>
      we_MaxAttempts e = attempt_limit workflow p \<and> we_Attempt e < attempt_limit workflow p)"
proof -
  have lim: "attempt_limit workflow (claim_execution w now p \<lparr> we_Attempt := a, we_UpdatedAt := u,
      we_Result := r \<rparr>) = attempt_limit workflow p" for a u r
    by (simp add: attempt_limit_def)
  from assms show ?thesis
    by (auto simp: failing_def settle_execution_def dead_lettered_def Let_def mark_failed_fields lim
        split: work_result.splits run_result.splits if_splits)
qed

lemma failing_round_result:
  assumes "failing_round api workflow p e"
  shows "(\<exists>t. WorkflowExecutionDue p t) \<and>
     (we_Status e = ''dead_letter'' \<or>
      (we_Status e = ''failed'' \<and> we_Attempt e = next_attempt p \<and>
       we_MaxAttempts e = attempt_limit workflow p \<and> we_Attempt e < attempt_limit workflow p))"
proof -
  obtain now work w now' where r: "WorkflowExecutionDue p now" "failing work"
    "commitClaimedWorkflowExecution [] (settle_execution api workflow p (claim_execution w now p) work now')
       (claim_execution w now p) = Some e"
    using assms by (rule failing_roundE)
  from r(3) settle_failing [OF r(2), of api workflow p w now now'] r(1) show ?thesis
    by (auto simp: commitClaimedWorkflowExecution_def execution_row_update_Some Let_def)
qed

lemma not_due_dead_letter: "we_Status e = ''dead_letter'' \<Longrightarrow> \<not> WorkflowExecutionDue e t"
  by (simp add: WorkflowExecutionDue_def status_literals Let_def)

lemma failing_rounds_state:
  assumes "(failing_round api workflow ^^ Suc n) p e" and "0 \<le> we_Attempt p"
  shows "we_Status e = ''dead_letter'' \<or>
     (we_Status e = ''failed'' \<and> int (Suc n) \<le> we_Attempt e \<and>
      we_MaxAttempts e = attempt_limit workflow p \<and> we_Attempt e < attempt_limit workflow p)"
  using assms(1)
proof (induction n arbitrary: e)
  case 0
  then have "failing_round api workflow p e" by auto
  from failing_round_result [OF this] assms(2) show ?case by (auto simp: next_attempt_def)
next
  case (Suc n)
  then obtain f where f: "(failing_round api workflow ^^ Suc n) p f" "failing_round api workflow f e"
    by auto
  have r: "(\<exists>t. WorkflowExecutionDue f t)" by (rule failing_round_result [OF f(2), THEN conjunct1])
  with Suc.IH [OF f(1)] not_due_dead_letter
  have F: "we_Status f = ''failed''" "int (Suc n) \<le> we_Attempt f"
    "we_MaxAttempts f = attempt_limit workflow p" by blast+
  have "attempt_limit workflow f = attempt_limit workflow p"
    using F(3) attempt_limit_pos [of workflow p] by (simp add: attempt_limit_def)
  moreover have "next_attempt f = we_Attempt f + 1" using F(1) by (simp add: next_attempt_def)
  ultimately show ?case using failing_round_result [OF f(2)] F(2) by auto
qed



text \<open>
  A worker that stops between its claim and its commit leaves the row running; the row is claimed
  again when the lease has run out.
\<close>

primrec crashed_claims :: "string \<Rightarrow> int \<Rightarrow> WorkflowExecution \<Rightarrow> nat \<Rightarrow> WorkflowExecution" where
  "crashed_claims w t0 p 0 = p"
| "crashed_claims w t0 p (Suc n) = claim_execution w (t0 + int n * lease_ttl) (crashed_claims w t0 p n)"

lemma crashed_claims_fields:
  "we_Attempt (crashed_claims w t0 p n) = we_Attempt p"
  "we_MaxAttempts (crashed_claims w t0 p n) = we_MaxAttempts p"
  "we_FencingToken (crashed_claims w t0 p n) = we_FencingToken p + int n"
  by (induction n) simp_all

text \<open>
  Claims that are not settled are not counted: however often workers crash after claiming the
  row, it keeps its attempt count and is due again when the lease has run out, so the attempt
  limit never dead-letters an execution that crashes its worker.
\<close>

theorem crashed_claims_not_counted:
  assumes "0 < n" and "four_digit_year (t0 + int n * lease_ttl)"
  shows "we_Attempt (crashed_claims w t0 p n) = we_Attempt p \<and>
     we_FencingToken (crashed_claims w t0 p n) = we_FencingToken p + int n \<and>
     WorkflowExecutionDue (crashed_claims w t0 p n) (t0 + int n * lease_ttl)"
proof -
  obtain m where m: "n = Suc m" using assms(1) by (cases n) auto
  have "t0 + int m * lease_ttl + lease_ttl = t0 + int n * lease_ttl" by (simp add: m algebra_simps)
  with assms(2) claimed_due [of "t0 + int m * lease_ttl"] show ?thesis
    by (simp add: crashed_claims_fields) (simp add: m)
qed

theorem crashed_claims_not_counted_witness:
  "WorkflowExecutionDue (crashed_claims ''A'' 0 (example_execution ''pending'' 0 1) 1000)
     (1000 * lease_ttl) \<and>
   we_Attempt (crashed_claims ''A'' 0 (example_execution ''pending'' 0 1) 1000) = 0"
proof -
  have "four_digit_year (0 + int 1000 * lease_ttl)" by code_simp
  from crashed_claims_not_counted [OF _ this, of "''A''" "example_execution ''pending'' 0 1"]
  show ?thesis by (simp add: example_execution_def)
qed

end
