(* ===== verification/Business_Calendar.thy ===== *)
theory Business_Calendar
  imports Go_Time
begin

text \<open>
  Business calendars (\<open>runtime/domain/businesscalendar\<close>): normalization, validation and
  \<open>AddBusinessDuration\<close>, which adds elapsed working time to an instant.

  \<open>time.LoadLocation\<close> is the argument \<open>load\<close>; \<open>ctx i\<close> tells whether the context is cancelled at
  the \<open>i\<close>-th of the checks of \<open>AddBusinessDuration\<close> (0 on entry, \<open>d + 1\<close> in iteration \<open>d\<close>). The
  search loop runs at most 3661 times, the bound of the source, as a recursion on the iterations
  that are left; \<open>uint64\<close> conversions are \<open>mod 2 ^ 64\<close>. \<open>sort.Slice\<close> is not stable in general; for
  the lists of at most 12 intervals it is an insertion sort, which is what \<open>sort_key\<close> gives, and
  longer lists are refused by the validator.

  The theorems: normalization is idempotent; in a zone of constant offset, and when no interval
  ends at 24:00, the result is the instant at which exactly the requested working time has
  elapsed, forward and backward, and the search gives up only when ten years do not hold that
  much working time. An interval that ends at 24:00 makes the forward search skip the next day.
\<close>

subsection \<open>Data\<close>

record BusinessCalendarTimeInterval =
  ti_Start :: string
  ti_End :: string

record BusinessCalendarWeeklySchedule =
  wk_Weekday :: string
  wk_Intervals :: "BusinessCalendarTimeInterval list"

record BusinessCalendarDateException =
  dx_Date :: string
  dx_Intervals :: "BusinessCalendarTimeInterval list"

record BusinessCalendarSchema =
  cal_Key :: string
  cal_Name :: string
  cal_Revision :: string
  cal_Timezone :: string
  cal_WeeklyWorkingIntervals :: "BusinessCalendarWeeklySchedule list"
  cal_Holidays :: "string list"
  cal_DateExceptions :: "BusinessCalendarDateException list"

record ValidationError =
  ve_Code :: string
  ve_Path :: string

definition validationError :: "string \<Rightarrow> string \<Rightarrow> ValidationError" where
  "validationError code path = \<lparr> ve_Code = code, ve_Path = path \<rparr>"

definition CodeIdentityRequired :: string where
  "CodeIdentityRequired = ''backend.business_calendar.identity_required''"
definition CodeTimezoneInvalid :: string where
  "CodeTimezoneInvalid = ''backend.business_calendar.timezone_invalid''"
definition CodeWeeklyScheduleInvalid :: string where
  "CodeWeeklyScheduleInvalid = ''backend.business_calendar.weekly_schedule_invalid''"
definition CodeDateInvalid :: string where
  "CodeDateInvalid = ''backend.business_calendar.date_invalid''"
definition CodeDateDuplicate :: string where
  "CodeDateDuplicate = ''backend.business_calendar.date_duplicate''"
definition CodeIntervalInvalid :: string where
  "CodeIntervalInvalid = ''backend.business_calendar.interval_invalid''"
definition CodeSearchExhausted :: string where
  "CodeSearchExhausted = ''backend.business_calendar.search_exhausted''"

subsection \<open>Normalize\<close>

definition normalizeIntervals ::
    "BusinessCalendarTimeInterval list \<Rightarrow> BusinessCalendarTimeInterval list" where
  "normalizeIntervals values = sort_key ti_Start
     (map (\<lambda>v. v \<lparr> ti_Start := trim_space (ti_Start v), ti_End := trim_space (ti_End v) \<rparr>) values)"

definition Normalize :: "BusinessCalendarSchema \<Rightarrow> BusinessCalendarSchema" where
  "Normalize value = value \<lparr>
     cal_Key := trim_space (cal_Key value), cal_Name := trim_space (cal_Name value),
     cal_Revision := trim_space (cal_Revision value), cal_Timezone := trim_space (cal_Timezone value),
     cal_WeeklyWorkingIntervals := map (\<lambda>d. d \<lparr> wk_Weekday := to_lower (trim_space (wk_Weekday d)),
       wk_Intervals := normalizeIntervals (wk_Intervals d) \<rparr>) (cal_WeeklyWorkingIntervals value),
     cal_DateExceptions := map (\<lambda>x. x \<lparr> dx_Date := trim_space (dx_Date x),
       dx_Intervals := normalizeIntervals (dx_Intervals x) \<rparr>) (cal_DateExceptions value),
     cal_Holidays := map trim_space (cal_Holidays value) \<rparr>"

subsection \<open>Validate\<close>

text \<open>The pattern \<open>^[a-z][a-z0-9_.-]*$\<close>.\<close>

definition lower_letter :: "char \<Rightarrow> bool" where
  "lower_letter c = (let n = (of_char c :: nat) in 97 \<le> n \<and> n \<le> 122)"

definition key_char :: "char \<Rightarrow> bool" where
  "key_char c = (lower_letter c \<or> is_digit c \<or> c = CHR ''_'' \<or> c = CHR ''.'' \<or> c = CHR ''-'')"

definition businessCalendarKeyPattern :: "string \<Rightarrow> bool" where
  "businessCalendarKeyPattern s = (case s of [] \<Rightarrow> False | c # cs \<Rightarrow> lower_letter c \<and> list_all key_char cs)"

definition parse_hm :: "string \<Rightarrow> (nat \<times> nat) option" where
  "parse_hm value = (case getnum False value of
     None \<Rightarrow> None
   | Some (h, r) \<Rightarrow> if h \<ge> 24 then None else (case expect (CHR '':'') r of
       None \<Rightarrow> None
     | Some r2 \<Rightarrow> (case getnum True r2 of
         None \<Rightarrow> None
       | Some (m, r3) \<Rightarrow> if m \<ge> 60 \<or> r3 \<noteq> [] then None else Some (h, m))))"

definition parseClock :: "string \<Rightarrow> bool \<Rightarrow> int \<times> bool" where
  "parseClock value allowEndOfDay =
     (if allowEndOfDay \<and> value = ''24:00'' then (24 * 60, True)
      else (case parse_hm value of
          None \<Rightarrow> (0, False)
        | Some (h, m) \<Rightarrow> if pad2 (int h) @ '':'' @ pad2 (int m) \<noteq> value then (0, False)
            else (int h * 60 + int m, True)))"

definition weekday_names :: "(string \<times> int) list" where
  "weekday_names = [(''sunday'', 0), (''monday'', 1), (''tuesday'', 2), (''wednesday'', 3),
     (''thursday'', 4), (''friday'', 5), (''saturday'', 6)]"

definition parseWeekday :: "string \<Rightarrow> int \<times> bool" where
  "parseWeekday value = (let key = to_lower (trim_space value) in
     (map_get 0 weekday_names key, map_has weekday_names key))"

definition validDate :: "string \<Rightarrow> bool" where
  "validDate value = (case parse_date value of None \<Rightarrow> False | Some n \<Rightarrow> format_date_days n = value)"

definition index_path :: "string \<Rightarrow> nat \<Rightarrow> string" where
  "index_path path i = path @ ''['' @ itoa (int i) @ '']''"

fun validate_intervals_from :: "nat \<Rightarrow> int \<Rightarrow> BusinessCalendarTimeInterval list \<Rightarrow> string \<Rightarrow>
    ValidationError option" where
  "validate_intervals_from index previousEnd [] path = None"
| "validate_intervals_from index previousEnd (interval # rest) path = (let
     (start, startOK) = parseClock (ti_Start interval) False;
     (stop, endOK) = parseClock (ti_End interval) True
   in if \<not> startOK \<or> \<not> endOK \<or> start \<ge> stop \<or> start < previousEnd
      then Some (validationError CodeIntervalInvalid (index_path path index))
      else validate_intervals_from (Suc index) stop rest path)"

definition validateIntervals :: "BusinessCalendarTimeInterval list \<Rightarrow> string \<Rightarrow> ValidationError option" where
  "validateIntervals values path = validate_intervals_from 0 (- 1) values path"

fun validate_weekly :: "nat \<Rightarrow> string list \<Rightarrow> BusinessCalendarWeeklySchedule list \<Rightarrow> ValidationError option" where
  "validate_weekly index weekdays [] = None"
| "validate_weekly index weekdays (d # rest) = (let path = index_path ''weekly_working_intervals'' index in
     if \<not> snd (parseWeekday (wk_Weekday d)) \<or> wk_Weekday d \<in> set weekdays
       then Some (validationError CodeWeeklyScheduleInvalid (path @ ''.weekday''))
     else if length (wk_Intervals d) = 0 \<or> length (wk_Intervals d) > 8
       then Some (validationError CodeWeeklyScheduleInvalid (path @ ''.intervals''))
     else (case validateIntervals (wk_Intervals d) (path @ ''.intervals'') of
         Some e \<Rightarrow> Some e
       | None \<Rightarrow> validate_weekly (Suc index) (wk_Weekday d # weekdays) rest))"

fun validate_holidays :: "nat \<Rightarrow> string list \<Rightarrow> string list \<Rightarrow> ValidationError + string list" where
  "validate_holidays index dates [] = Inr dates"
| "validate_holidays index dates (date # rest) =
     (if \<not> validDate date then Inl (validationError CodeDateInvalid (index_path ''holidays'' index))
      else if date \<in> set dates then Inl (validationError CodeDateDuplicate (index_path ''holidays'' index))
      else validate_holidays (Suc index) (date # dates) rest)"

fun validate_exceptions :: "nat \<Rightarrow> string list \<Rightarrow> BusinessCalendarDateException list \<Rightarrow>
    ValidationError option" where
  "validate_exceptions index dates [] = None"
| "validate_exceptions index dates (x # rest) = (let path = index_path ''date_exceptions'' index in
     if \<not> validDate (dx_Date x) then Some (validationError CodeDateInvalid (path @ ''.date''))
     else if dx_Date x \<in> set dates then Some (validationError CodeDateDuplicate (path @ ''.date''))
     else if length (dx_Intervals x) > 8
       then Some (validationError CodeIntervalInvalid (path @ ''.intervals''))
     else (case validateIntervals (dx_Intervals x) (path @ ''.intervals'') of
         Some e \<Rightarrow> Some e
       | None \<Rightarrow> validate_exceptions (Suc index) (dx_Date x # dates) rest))"

definition Validate :: "(string \<Rightarrow> location option) \<Rightarrow> BusinessCalendarSchema \<Rightarrow> ValidationError option" where
  "Validate load value0 = (let value = Normalize value0 in
     if \<not> businessCalendarKeyPattern (cal_Key value) then Some (validationError CodeIdentityRequired ''key'')
     else if cal_Name value = [] then Some (validationError CodeIdentityRequired ''name'')
     else if cal_Revision value = [] then Some (validationError CodeIdentityRequired ''revision'')
     else if load (cal_Timezone value) = None then Some (validationError CodeTimezoneInvalid ''timezone'')
     else if length (cal_WeeklyWorkingIntervals value) = 0 \<or> length (cal_WeeklyWorkingIntervals value) > 7
       then Some (validationError CodeWeeklyScheduleInvalid ''weekly_working_intervals'')
     else (case validate_weekly 0 [] (cal_WeeklyWorkingIntervals value) of
         Some e \<Rightarrow> Some e
       | None \<Rightarrow>
           if length (cal_Holidays value) > 366 \<or> length (cal_DateExceptions value) > 366
             then Some (validationError CodeDateInvalid ''holidays'')
           else (case validate_holidays 0 [] (cal_Holidays value) of
               Inl e \<Rightarrow> Some e
             | Inr dates \<Rightarrow> validate_exceptions 0 dates (cal_DateExceptions value))))"

subsection \<open>Working windows\<close>

definition localDayStart :: "location \<Rightarrow> int \<Rightarrow> int" where
  "localDayStart loc t = go_date loc (wall_days loc t) 0 0"

definition materializeWindows ::
    "int \<Rightarrow> BusinessCalendarTimeInterval list \<Rightarrow> location \<Rightarrow> (int \<times> int) list" where
  "materializeWindows t intervals loc = map (\<lambda>interval. let
       startMinutes = fst (parseClock (ti_Start interval) False);
       endMinutes = fst (parseClock (ti_End interval) True);
       start = go_date loc (wall_days loc t) (startMinutes div 60) (startMinutes mod 60);
       stop = (if endMinutes = 24 * 60 then add_days loc (localDayStart loc t) 1
               else go_date loc (wall_days loc t) (endMinutes div 60) (endMinutes mod 60))
     in (start, stop)) intervals"

definition workingWindows :: "BusinessCalendarSchema \<Rightarrow> int \<Rightarrow> location \<Rightarrow> (int \<times> int) list" where
  "workingWindows value t loc = (let date = format_date_days (wall_days loc t) in
     (case find (\<lambda>x. dx_Date x = date) (cal_DateExceptions value) of
        Some x \<Rightarrow> materializeWindows t (dx_Intervals x) loc
      | None \<Rightarrow>
          if date \<in> set (cal_Holidays value) then []
          else (case find (\<lambda>w. fst (parseWeekday (wk_Weekday w)) = weekday_of_days (wall_days loc t))
                  (cal_WeeklyWorkingIntervals value) of
              Some w \<Rightarrow> materializeWindows t (wk_Intervals w) loc
            | None \<Rightarrow> [])))"

subsection \<open>AddBusinessDuration\<close>

definition uint64 :: "int \<Rightarrow> int" where
  "uint64 i = i mod 2 ^ 64"

text \<open>\<open>Time.Sub\<close> saturates at the ends of the 64-bit range.\<close>

definition time_sub :: "int \<Rightarrow> int \<Rightarrow> int" where
  "time_sub a b = max (- (2 ^ 63)) (min (2 ^ 63 - 1) (a - b))"

fun forward_windows :: "(int \<times> int) list \<Rightarrow> int \<Rightarrow> int \<Rightarrow> int + (int \<times> int)" where
  "forward_windows [] current remaining = Inr (current, remaining)"
| "forward_windows ((start, stop) # ws) current remaining =
     (if \<not> current < stop then forward_windows ws current remaining
      else (let
          current1 = (if current < start then start else current);
          available = uint64 (time_sub stop current1)
        in if remaining \<le> available then Inl (current1 + wrap64 remaining)
           else forward_windows ws stop (remaining - available)))"

text \<open>The windows in the order of the loop, which runs from the last index to the first.\<close>

fun backward_windows :: "(int \<times> int) list \<Rightarrow> int \<Rightarrow> int \<Rightarrow> int + (int \<times> int)" where
  "backward_windows [] current remaining = Inr (current, remaining)"
| "backward_windows ((start, stop) # ws) current remaining =
     (if \<not> current > start then backward_windows ws current remaining
      else (let
          current1 = (if current > stop then stop else current);
          available = uint64 (time_sub current1 start)
        in if remaining \<le> available then Inl (current1 + wrap64 (- wrap64 remaining))
           else backward_windows ws start (remaining - available)))"

datatype calendar_error = ContextError | CalendarError ValidationError

fun forward_days :: "(nat \<Rightarrow> bool) \<Rightarrow> nat \<Rightarrow> (int \<Rightarrow> (int \<times> int) list) \<Rightarrow> (int \<Rightarrow> int) \<Rightarrow> int \<Rightarrow> int \<Rightarrow>
    calendar_error + int" where
  "forward_days ctx 0 wins next current remaining =
     Inl (CalendarError (validationError CodeSearchExhausted ''weekly_working_intervals''))"
| "forward_days ctx (Suc n) wins next current remaining =
     (if ctx (3661 - n) then Inl ContextError
      else (case forward_windows (wins current) current remaining of
          Inl r \<Rightarrow> Inr r
        | Inr (current', remaining') \<Rightarrow> forward_days ctx n wins next (next current') remaining'))"

fun backward_days :: "(nat \<Rightarrow> bool) \<Rightarrow> nat \<Rightarrow> (int \<Rightarrow> (int \<times> int) list) \<Rightarrow> (int \<Rightarrow> int) \<Rightarrow> int \<Rightarrow> int \<Rightarrow>
    calendar_error + int" where
  "backward_days ctx 0 wins prev current remaining =
     Inl (CalendarError (validationError CodeSearchExhausted ''weekly_working_intervals''))"
| "backward_days ctx (Suc n) wins prev current remaining =
     (if ctx (3661 - n) then Inl ContextError
      else (case backward_windows (rev (wins current)) current remaining of
          Inl r \<Rightarrow> Inr r
        | Inr (current', remaining') \<Rightarrow> backward_days ctx n wins prev (prev current') remaining'))"

definition AddBusinessDuration ::
    "(string \<Rightarrow> location option) \<Rightarrow> (nat \<Rightarrow> bool) \<Rightarrow> BusinessCalendarSchema \<Rightarrow> int \<Rightarrow> int \<Rightarrow>
       calendar_error + int" where
  "AddBusinessDuration load ctx value0 base offset =
     (if ctx 0 then Inl ContextError
      else (let value = Normalize value0 in (case Validate load value of
          Some e \<Rightarrow> Inl (CalendarError e)
        | None \<Rightarrow> (let loc = (case load (cal_Timezone value) of Some l \<Rightarrow> l | None \<Rightarrow> utc_location) in
            if offset = 0 then Inr base
            else if offset < 0 then
              backward_days ctx 3661 (\<lambda>t. workingWindows value t loc)
                (\<lambda>t. localDayStart loc t - 1) base (uint64 (uint64 (wrap64 (- (offset + 1))) + 1))
            else
              forward_days ctx 3661 (\<lambda>t. workingWindows value t loc)
                (\<lambda>t. add_days loc (localDayStart loc t) 1) base (uint64 offset)))))"

subsection \<open>Working time\<close>

text \<open>
  The specification: the working time between two instants is the length of the windows in
  between.
\<close>

definition worked :: "(int \<times> int) list \<Rightarrow> int \<Rightarrow> int \<Rightarrow> int" where
  "worked ws a b = sum_list (map (\<lambda>(s, e). max 0 (min e b - max s a)) ws)"

fun ordered_windows :: "int \<Rightarrow> (int \<times> int) list \<Rightarrow> bool" where
  "ordered_windows lo [] = True"
| "ordered_windows lo ((s, e) # ws) = (lo \<le> s \<and> s < e \<and> ordered_windows e ws)"

lemma worked_simps [simp]:
  "worked [] a b = 0" "worked ((s, e) # ws) a b = max 0 (min e b - max s a) + worked ws a b"
  by (simp_all add: worked_def)

lemma ordered_windows_mono: "ordered_windows lo ws \<Longrightarrow> lo' \<le> lo \<Longrightarrow> ordered_windows lo' ws"
  by (cases ws) auto

lemma ordered_windows_in:
  "ordered_windows lo ws \<Longrightarrow> (s, e) \<in> set ws \<Longrightarrow> lo \<le> s \<and> s < e"
proof (induction lo ws rule: ordered_windows.induct)
  case (2 lo s' e' ws)
  then show ?case by fastforce
qed simp

lemma worked_from_before:
  assumes "ordered_windows lo ws" "a \<le> lo"
  shows "worked ws a b = worked ws lo b"
  using assms
proof (induction lo ws arbitrary: a rule: ordered_windows.induct)
  case (2 lo s e ws)
  from "2.prems" have o: "ordered_windows e ws" "a \<le> e" "lo \<le> e" "max s a = s" "max s lo = s" by auto
  have "worked ws a b = worked ws e b" by (rule "2.IH" [OF o(1,2)])
  moreover have "worked ws lo b = worked ws e b" by (rule "2.IH" [OF o(1,3)])
  ultimately show ?case using o by simp
qed simp

lemma worked_until_before:
  assumes "ordered_windows lo ws" "b \<le> lo"
  shows "worked ws a b = 0"
  using assms
proof (induction lo ws rule: ordered_windows.induct)
  case (2 lo s e ws)
  then have "worked ws a b = 0" by simp
  moreover have "max 0 (min e b - max s a) = 0" using "2.prems" by auto
  ultimately show ?case by simp
qed simp

lemma worked_past_end:
  assumes "\<forall>w \<in> set ws. snd w \<le> b \<and> snd w \<le> b'"
  shows "worked ws a b = worked ws a b'"
  using assms by (induction ws) (auto simp: min_absorb1)

lemma worked_from_past_end:
  assumes "\<forall>w \<in> set ws. snd w \<le> a"
  shows "worked ws a b = 0"
  using assms by (induction ws) auto

lemma worked_nonneg: "0 \<le> worked ws a b"
  by (induction ws) auto

lemma available_exact: "0 \<le> e - c \<Longrightarrow> e - c < 2 ^ 63 \<Longrightarrow> uint64 (time_sub e c) = e - c"
  by (simp add: uint64_def time_sub_def)

definition forward_ok :: "(int \<times> int) list \<Rightarrow> int \<Rightarrow> int \<Rightarrow> int \<Rightarrow> int + (int \<times> int) \<Rightarrow> bool" where
  "forward_ok ws hi cur rem out = (case out of
      Inl r \<Rightarrow> cur \<le> r \<and> worked ws cur r = rem \<and> (\<exists>w \<in> set ws. fst w < r \<and> r \<le> snd w)
    | Inr (c, q) \<Rightarrow> 0 < q \<and> q = rem - worked ws cur hi \<and> cur \<le> c \<and> c \<le> max cur hi)"

lemma forward_ok_skip:
  assumes "forward_ok ws hi cur rem out" "e \<le> cur"
  shows "forward_ok ((s, e) # ws) hi cur rem out"
proof -
  have "max 0 (min e b - max s cur) = 0" for b using assms(2) by simp
  then have eq: "worked ((s, e) # ws) cur b = worked ws cur b" for b by simp
  show ?thesis
    using assms(1) unfolding forward_ok_def eq by (auto split: sum.splits simp del: worked_simps)
qed

lemma forward_ok_consume:
  assumes "forward_ok ws hi e (rem - (e - max s cur)) out" "ordered_windows e ws" "cur < e" "s < e" "e \<le> hi"
  shows "forward_ok ((s, e) # ws) hi cur rem out"
proof -
  have rest: "worked ws cur b = worked ws e b" for b
    by (rule worked_from_before [OF assms(2)]) (use assms(3) in simp)
  have first: "max 0 (min e t - max s cur) = e - max s cur" if "e \<le> t" for t
    using assms(3,4) that by simp
  show ?thesis
  proof (cases out)
    case (Inl r)
    with assms(1) have "e \<le> r" "worked ws e r = rem - (e - max s cur)"
      "\<exists>w \<in> set ws. fst w < r \<and> r \<le> snd w" by (auto simp: forward_ok_def)
    with Inl assms(3) rest [of r] first [of r] show ?thesis by (auto simp: forward_ok_def)
  next
    case (Inr cq)
    obtain c q where cq: "cq = (c, q)" by fastforce
    with Inr assms(1) have "0 < q" "q = rem - (e - max s cur) - worked ws e hi" "e \<le> c" "c \<le> max e hi"
      by (auto simp: forward_ok_def)
    with Inr cq assms(3,5) rest [of hi] first [of hi] show ?thesis by (simp add: forward_ok_def)
  qed
qed

lemma forward_windows_spec:
  assumes "ordered_windows lo ws" "\<forall>w \<in> set ws. snd w \<le> hi" "hi - lo < 2 ^ 63" "0 < rem"
  shows "forward_ok ws hi cur rem (forward_windows ws cur rem)"
  using assms
proof (induction lo ws arbitrary: cur rem rule: ordered_windows.induct)
  case (2 lo s e ws)
  have w: "lo \<le> s" "s < e" "ordered_windows e ws" "e \<le> hi" "\<forall>w \<in> set ws. snd w \<le> hi" "hi - e < 2 ^ 63"
    using "2.prems"(1-3) by auto
  note IH = "2.IH" [OF w(3,5,6)]
  show ?case
  proof (cases "cur < e")
    case False
    with forward_ok_skip [OF IH [OF "2.prems"(4)], of e cur s] show ?thesis by simp
  next
    case True
    have c1: "(if cur < s then s else cur) = max s cur" by simp
    have len: "0 \<le> e - max s cur" "e - max s cur < 2 ^ 63" using True w "2.prems"(3) by auto
    note av = available_exact [OF len]
    show ?thesis
    proof (cases "rem \<le> e - max s cur")
      case le: True
      have rw: "wrap64 rem = rem"
        using le len "2.prems"(4) by (intro wrap64_in) (auto simp: in_int64_def)
      have "worked ws cur (max s cur + rem) = 0"
        using le by (intro worked_until_before [OF w(3)]) simp
      moreover have "max 0 (min e (max s cur + rem) - max s cur) = rem" using le "2.prems"(4) by simp
      ultimately have "worked ((s, e) # ws) cur (max s cur + rem) = rem" by simp
      moreover have "forward_windows ((s, e) # ws) cur rem = Inl (max s cur + rem)"
        using True av le by (simp only: forward_windows.simps c1 Let_def rw) simp
      ultimately show ?thesis using le "2.prems"(4) by (auto simp: forward_ok_def)
    next
      case False
      have "forward_windows ((s, e) # ws) cur rem = forward_windows ws e (rem - (e - max s cur))"
        using True av False by (simp only: forward_windows.simps c1 Let_def) simp
      with forward_ok_consume [OF IH [of "rem - (e - max s cur)" e] w(3) True w(2,4)] False
      show ?thesis by simp
    qed
  qed
qed (simp add: forward_ok_def)

text \<open>The backward loop is the forward loop on the reflected time line.\<close>

definition reflect :: "(int \<times> int) list \<Rightarrow> (int \<times> int) list" where
  "reflect ws = map (\<lambda>(s, e). (- e, - s)) ws"

lemma worked_reflect: "worked (reflect ws) (- b) (- a) = worked ws a b"
proof (induction ws)
  case (Cons w ws)
  obtain s e where w: "w = (s, e)" by fastforce
  have "min (- s) (- a) - max (- e) (- b) = min e b - max s a" by (simp add: min_def max_def)
  with Cons show ?case by (simp add: reflect_def w)
qed (simp add: reflect_def)

lemma time_sub_reflect: "time_sub (- a) (- b) = time_sub b a"
  by (simp add: time_sub_def algebra_simps)

lemma backward_windows_reflect:
  assumes "0 < rem" "rem < 2 ^ 63"
  shows "backward_windows ws cur rem = (case forward_windows (reflect ws) (- cur) rem of
      Inl r \<Rightarrow> Inl (- r) | Inr (c, q) \<Rightarrow> Inr (- c, q))"
  using assms
proof (induction ws arbitrary: cur rem)
  case (Cons w ws)
  obtain s e where w: "w = (s, e)" by fastforce
  have rw: "wrap64 rem = rem" "wrap64 (- rem) = - rem"
    using Cons.prems by (auto intro!: wrap64_in simp: in_int64_def)
  define c1 where "c1 = (if cur > e then e else cur)"
  have c1: "(if - cur < - e then - e else - cur) = - c1" by (simp add: c1_def)
  have av: "uint64 (time_sub (- s) (- c1)) = uint64 (time_sub c1 s)" by (simp add: time_sub_reflect)
  have pos: "0 \<le> uint64 x" for x by (simp add: uint64_def)
  have fw: "forward_windows (reflect (w # ws)) (- cur) rem =
      (if \<not> cur > s then forward_windows (reflect ws) (- cur) rem
       else if rem \<le> uint64 (time_sub c1 s) then Inl (- c1 + rem)
       else forward_windows (reflect ws) (- s) (rem - uint64 (time_sub c1 s)))"
    by (simp only: w reflect_def list.map prod.case forward_windows.simps Let_def c1 av rw) simp
  have bw: "backward_windows (w # ws) cur rem =
      (if \<not> cur > s then backward_windows ws cur rem
       else if rem \<le> uint64 (time_sub c1 s) then Inl (c1 - rem)
       else backward_windows ws s (rem - uint64 (time_sub c1 s)))"
    by (simp only: w backward_windows.simps Let_def c1_def [symmetric] rw) simp
  show ?case
  proof (cases "cur > s \<and> \<not> rem \<le> uint64 (time_sub c1 s)")
    case True
    with Cons.prems pos [of "time_sub c1 s"]
    have "0 < rem - uint64 (time_sub c1 s)" "rem - uint64 (time_sub c1 s) < 2 ^ 63" by linarith+
    from Cons.IH [OF this, of s] True show ?thesis unfolding fw bw by simp
  next
    case False
    with Cons.IH [OF Cons.prems, of cur] show ?thesis unfolding fw bw by auto
  qed
qed (simp add: reflect_def)

lemma ordered_windows_append:
  "ordered_windows lo (ws @ [(s, e)]) \<longleftrightarrow>
     ordered_windows lo ws \<and> (\<forall>w \<in> set ws. snd w \<le> s) \<and> lo \<le> s \<and> s < e"
  by (induction lo ws rule: ordered_windows.induct) auto

lemma ordered_reflect:
  assumes "ordered_windows lo ws" "\<forall>w \<in> set ws. snd w \<le> hi"
  shows "ordered_windows (- hi) (reflect (rev ws))"
  using assms
proof (induction lo ws rule: ordered_windows.induct)
  case (2 lo s e ws)
  then have "ordered_windows (- hi) (reflect (rev ws))" by simp
  moreover have "\<forall>w \<in> set ws. e \<le> fst w" using "2.prems" ordered_windows_in by fastforce
  ultimately show ?case
    using "2.prems" by (auto simp: reflect_def ordered_windows_append)
qed (simp add: reflect_def)

definition backward_ok :: "(int \<times> int) list \<Rightarrow> int \<Rightarrow> int \<Rightarrow> int \<Rightarrow> int + (int \<times> int) \<Rightarrow> bool" where
  "backward_ok ws lo cur rem out = (case out of
      Inl r \<Rightarrow> r \<le> cur \<and> worked ws r cur = rem \<and> (\<exists>w \<in> set ws. fst w \<le> r \<and> r < snd w)
    | Inr (c, q) \<Rightarrow> 0 < q \<and> q = rem - worked ws lo cur \<and> c \<le> cur \<and> min cur lo \<le> c)"

lemma worked_rev: "worked (rev ws) a b = worked ws a b"
  by (simp add: worked_def rev_map [symmetric])

lemma backward_windows_spec:
  assumes "ordered_windows lo ws" "\<forall>w \<in> set ws. snd w \<le> hi" "hi - lo < 2 ^ 63" "0 < rem" "rem < 2 ^ 63"
  shows "backward_ok ws lo cur rem (backward_windows (rev ws) cur rem)"
proof -
  have f: "forward_ok (reflect (rev ws)) (- lo) (- cur) rem (forward_windows (reflect (rev ws)) (- cur) rem)"
  proof (rule forward_windows_spec [OF ordered_reflect [OF assms(1,2)] _ _ assms(4)])
    show "\<forall>w \<in> set (reflect (rev ws)). snd w \<le> - lo"
      using ordered_windows_in [OF assms(1)] by (auto simp: reflect_def)
  qed (use assms(3) in simp)
  have wk: "worked (reflect (rev ws)) (- cur) t = worked ws (- t) cur" for t
    using worked_reflect [of "rev ws" cur "- t"] by (simp add: worked_rev)
  show ?thesis
  proof (cases "forward_windows (reflect (rev ws)) (- cur) rem")
    case (Inl r)
    with f have r: "- cur \<le> r" "worked ws (- r) cur = rem"
      "\<exists>w \<in> set (reflect (rev ws)). fst w < r \<and> r \<le> snd w" by (auto simp: forward_ok_def wk)
    then have "\<exists>w \<in> set ws. fst w \<le> - r \<and> - r < snd w" by (force simp: reflect_def)
    with r Inl show ?thesis
      by (simp add: backward_windows_reflect [OF assms(4,5)] backward_ok_def)
  next
    case (Inr cq)
    obtain c q where cq: "cq = (c, q)" by fastforce
    with Inr f have "0 < q" "q = rem - worked ws lo cur" "- cur \<le> c" "c \<le> max (- cur) (- lo)"
      by (auto simp: forward_ok_def wk)
    with Inr cq show ?thesis
      by (simp add: backward_windows_reflect [OF assms(4,5)] backward_ok_def)
  qed
qed

subsection \<open>Clocks whose days hold their windows\<close>

text \<open>
  What the search relies on: every instant belongs to one day, days follow each other, and the
  windows of a day are disjoint, in order, and end before the next day begins.
\<close>

locale business_clock =
  fixes day_of :: "int \<Rightarrow> int" and day_start :: "int \<Rightarrow> int" and windows :: "int \<Rightarrow> (int \<times> int) list"
  assumes day_lower: "day_start (day_of t) \<le> t"
    and day_upper: "t < day_start (day_of t + 1)"
    and day_of_start: "day_of (day_start d) = d"
    and day_short: "day_start (d + 1) - day_start d < 2 ^ 63"
    and windows_ordered: "ordered_windows (day_start d) (windows d)"
    and windows_inside: "w \<in> set (windows d) \<Longrightarrow> snd w < day_start (d + 1)"
begin

lemma day_start_step: "day_start d < day_start (d + 1)"
  using day_upper [of "day_start d"] by (simp add: day_of_start)

lemma day_start_mono: "day_start d \<le> day_start (d + int k)"
proof (induction k)
  case (Suc k)
  have "day_start (d + int k) < day_start (d + int k + 1)" by (rule day_start_step)
  with Suc show ?case by (simp add: ac_simps)
qed simp

lemma day_start_mono_le: "a \<le> b \<Longrightarrow> day_start a \<le> day_start b"
  using day_start_mono [of a "nat (b - a)"] by simp

lemma day_of_unique:
  assumes "day_start d \<le> t" "t < day_start (d + 1)"
  shows "day_of t = d"
proof (rule antisym)
  show "day_of t \<le> d"
  proof (rule ccontr)
    assume "\<not> day_of t \<le> d"
    then have "day_start (d + 1) \<le> day_start (day_of t)" by (intro day_start_mono_le) simp
    with day_lower [of t] assms(2) show False by simp
  qed
  show "d \<le> day_of t"
  proof (rule ccontr)
    assume "\<not> d \<le> day_of t"
    then have "day_start (day_of t + 1) \<le> day_start d" by (intro day_start_mono_le) simp
    with day_upper [of t] assms(1) show False by simp
  qed
qed

lemma forward_day:
  assumes "0 < rem"
  shows "forward_ok (windows (day_of cur)) (day_start (day_of cur + 1) - 1) cur rem
    (forward_windows (windows (day_of cur)) cur rem)"
  by (rule forward_windows_spec [OF windows_ordered])
     (use assms day_short [of "day_of cur"] in \<open>auto dest: windows_inside\<close>)

lemma forward_next:
  assumes "0 < rem" "forward_windows (windows (day_of cur)) cur rem = Inr (c, q)"
  shows "day_of c = day_of cur" "0 < q"
    "day_start (day_of cur + 1) \<le> b \<Longrightarrow> worked (windows (day_of cur)) cur b = rem - q"
proof -
  let ?d = "day_of cur"
  have ok: "0 < q" "q = rem - worked (windows ?d) cur (day_start (?d + 1) - 1)" "cur \<le> c"
    "c \<le> max cur (day_start (?d + 1) - 1)"
    using forward_day [OF assms(1), of cur] assms(2) by (auto simp: forward_ok_def)
  show "0 < q" by (rule ok(1))
  show "day_of c = ?d"
    using ok(3,4) day_lower [of cur] day_upper [of cur] by (intro day_of_unique) auto
  assume b: "day_start (?d + 1) \<le> b"
  have "worked (windows ?d) cur b = worked (windows ?d) cur (day_start (?d + 1) - 1)"
    using b by (intro worked_past_end) (auto dest: windows_inside)
  with ok(2) show "worked (windows ?d) cur b = rem - q" by simp
qed

lemma worked_later_day:
  "worked (windows (day_of cur + 1 + int i)) (day_start (day_of cur + 1)) b =
     worked (windows (day_of cur + int (Suc i))) cur b"
proof -
  have eq: "day_of cur + int (Suc i) = day_of cur + 1 + int i" by simp
  have le: "day_start (day_of cur + 1) \<le> day_start (day_of cur + 1 + int i)" by (rule day_start_mono)
  have "worked (windows (day_of cur + 1 + int i)) (day_start (day_of cur + 1)) b =
      worked (windows (day_of cur + 1 + int i)) (day_start (day_of cur + 1 + int i)) b"
    by (rule worked_from_before [OF windows_ordered le])
  moreover have "worked (windows (day_of cur + 1 + int i)) cur b =
      worked (windows (day_of cur + 1 + int i)) (day_start (day_of cur + 1 + int i)) b"
    by (rule worked_from_before [OF windows_ordered]) (use le day_upper [of cur] in simp)
  ultimately show ?thesis by (simp only: eq)
qed

lemma forward_days_result:
  assumes "forward_days ctx n (\<lambda>t. windows (day_of t)) (\<lambda>t. day_start (day_of t + 1)) cur rem = Inr r"
    and "0 < rem"
  shows "cur \<le> r \<and> (\<exists>k < n. (\<Sum>i\<le>k. worked (windows (day_of cur + int i)) cur r) = rem \<and>
     (\<exists>w \<in> set (windows (day_of cur + int k)). fst w < r \<and> r \<le> snd w))"
  using assms
proof (induction n arbitrary: cur rem)
  case (Suc n)
  let ?d = "day_of cur"
  show ?case
  proof (cases "forward_windows (windows ?d) cur rem")
    case (Inl r')
    with Suc.prems have "r' = r" by (simp split: if_splits)
    with Inl forward_day [OF Suc.prems(2), of cur]
    have "cur \<le> r \<and> worked (windows ?d) cur r = rem \<and> (\<exists>w \<in> set (windows ?d). fst w < r \<and> r \<le> snd w)"
      by (simp add: forward_ok_def)
    then have "cur \<le> r \<and> (\<Sum>i\<le>0. worked (windows (?d + int i)) cur r) = rem \<and>
        (\<exists>w \<in> set (windows (?d + int 0)). fst w < r \<and> r \<le> snd w)" by simp
    then show ?thesis by blast
  next
    case (Inr cq)
    obtain c q where cq: "cq = (c, q)" by fastforce
    note nx = forward_next [OF Suc.prems(2) Inr [unfolded cq]]
    let ?c2 = "day_start (?d + 1)"
    have "forward_days ctx n (\<lambda>t. windows (day_of t)) (\<lambda>t. day_start (day_of t + 1)) ?c2 q = Inr r"
      using Suc.prems(1) Inr cq nx(1) by (simp split: if_splits)
    from Suc.IH [OF this nx(2)] obtain k where k: "?c2 \<le> r" "k < n"
      "(\<Sum>i\<le>k. worked (windows (?d + 1 + int i)) ?c2 r) = q"
      "\<exists>w \<in> set (windows (?d + 1 + int k)). fst w < r \<and> r \<le> snd w"
      by (auto simp: day_of_start)
    have "(\<Sum>i\<le>k. worked (windows (?d + int (Suc i))) cur r) = q"
      using k(3) by (simp only: worked_later_day)
    then have "(\<Sum>i\<le>Suc k. worked (windows (?d + int i)) cur r) = rem"
      unfolding sum.atMost_Suc_shift using nx(3) [OF k(1)] by simp
    moreover have "cur \<le> r" using k(1) day_upper [of cur] by simp
    moreover have "\<exists>w \<in> set (windows (?d + int (Suc k))). fst w < r \<and> r \<le> snd w"
      using k(4) by (simp add: ac_simps)
    ultimately show ?thesis using k(2) by blast
  qed
qed simp

lemma forward_days_exhausted:
  assumes "forward_days ctx n (\<lambda>t. windows (day_of t)) (\<lambda>t. day_start (day_of t + 1)) cur rem =
      Inl (CalendarError e)" and "0 < rem"
  shows "(\<Sum>i<n. worked (windows (day_of cur + int i)) cur (day_start (day_of cur + int n))) < rem"
  using assms
proof (induction n arbitrary: cur rem)
  case (Suc n)
  let ?d = "day_of cur"
  have "\<exists>c q. forward_windows (windows ?d) cur rem = Inr (c, q)"
    using Suc.prems(1) by (auto split: if_splits sum.splits)
  then obtain c q where cq: "forward_windows (windows ?d) cur rem = Inr (c, q)" by blast
  note nx = forward_next [OF Suc.prems(2) cq]
  let ?c2 = "day_start (?d + 1)" and ?b = "day_start (?d + int (Suc n))"
  have "forward_days ctx n (\<lambda>t. windows (day_of t)) (\<lambda>t. day_start (day_of t + 1)) ?c2 q =
      Inl (CalendarError e)"
    using Suc.prems(1) cq nx(1) by (simp split: if_splits)
  from Suc.IH [OF this nx(2)] have "(\<Sum>i<n. worked (windows (?d + 1 + int i)) ?c2 ?b) < q"
    by (simp add: day_of_start ac_simps)
  then have "(\<Sum>i<n. worked (windows (?d + int (Suc i))) cur ?b) < q"
    by (simp only: worked_later_day)
  moreover have "worked (windows ?d) cur ?b = rem - q"
    using nx(3) [of ?b] day_start_mono_le [of "?d + 1" "?d + int (Suc n)"] by simp
  ultimately show ?case unfolding sum.lessThan_Suc_shift by simp
qed simp

lemma backward_day:
  assumes "0 < rem" "rem < 2 ^ 63"
  shows "backward_ok (windows (day_of cur)) (day_start (day_of cur)) cur rem
    (backward_windows (rev (windows (day_of cur))) cur rem)"
  by (rule backward_windows_spec [OF windows_ordered, where hi = "day_start (day_of cur + 1) - 1"])
     (use assms day_short [of "day_of cur"] in \<open>auto dest: windows_inside\<close>)

lemma backward_next:
  assumes "0 < rem" "rem < 2 ^ 63" "backward_windows (rev (windows (day_of cur))) cur rem = Inr (c, q)"
  shows "day_of c = day_of cur" "0 < q" "q < 2 ^ 63"
    "a \<le> day_start (day_of cur) \<Longrightarrow> worked (windows (day_of cur)) a cur = rem - q"
proof -
  let ?d = "day_of cur"
  have ok: "0 < q" "q = rem - worked (windows ?d) (day_start ?d) cur" "c \<le> cur" "min cur (day_start ?d) \<le> c"
    using backward_day [OF assms(1,2), of cur] assms(3) by (auto simp: backward_ok_def)
  show "0 < q" by (rule ok(1))
  show "q < 2 ^ 63" using ok(2) assms(2) worked_nonneg [of "windows ?d" "day_start ?d" cur] by simp
  show "day_of c = ?d"
    using ok(3,4) day_lower [of cur] day_upper [of cur] by (intro day_of_unique) auto
  assume "a \<le> day_start ?d"
  with worked_from_before [OF windows_ordered, of a ?d cur] ok(2)
  show "worked (windows ?d) a cur = rem - q" by simp
qed

lemma day_before: "day_of (day_start d - 1) = d - 1"
  using day_start_step [of "d - 1"] by (intro day_of_unique) auto

lemma worked_earlier_day:
  "worked (windows (day_of cur - 1 - int i)) a (day_start (day_of cur) - 1) =
     worked (windows (day_of cur - int (Suc i))) a cur"
proof -
  have eq: "day_of cur - int (Suc i) = day_of cur - 1 - int i" by simp
  have "day_start (day_of cur - 1 - int i + 1) \<le> day_start (day_of cur)"
    by (rule day_start_mono_le) simp
  with day_lower [of cur] windows_inside [of _ "day_of cur - 1 - int i"]
  have "worked (windows (day_of cur - 1 - int i)) a (day_start (day_of cur) - 1) =
     worked (windows (day_of cur - 1 - int i)) a cur"
    by (intro worked_past_end) fastforce
  then show ?thesis by (simp only: eq)
qed

lemma backward_days_result:
  assumes "backward_days ctx n (\<lambda>t. windows (day_of t)) (\<lambda>t. day_start (day_of t) - 1) cur rem = Inr r"
    and "0 < rem" "rem < 2 ^ 63"
  shows "r \<le> cur \<and> (\<exists>k < n. (\<Sum>i\<le>k. worked (windows (day_of cur - int i)) r cur) = rem \<and>
     (\<exists>w \<in> set (windows (day_of cur - int k)). fst w \<le> r \<and> r < snd w))"
  using assms
proof (induction n arbitrary: cur rem)
  case (Suc n)
  let ?d = "day_of cur"
  show ?case
  proof (cases "backward_windows (rev (windows ?d)) cur rem")
    case (Inl r')
    with Suc.prems have "r' = r" by (simp split: if_splits)
    with Inl backward_day [OF Suc.prems(2,3), of cur]
    have "r \<le> cur \<and> worked (windows ?d) r cur = rem \<and> (\<exists>w \<in> set (windows ?d). fst w \<le> r \<and> r < snd w)"
      by (simp add: backward_ok_def)
    then have "r \<le> cur \<and> (\<Sum>i\<le>0. worked (windows (?d - int i)) r cur) = rem \<and>
        (\<exists>w \<in> set (windows (?d - int 0)). fst w \<le> r \<and> r < snd w)" by simp
    then show ?thesis by blast
  next
    case (Inr cq)
    obtain c q where cq: "cq = (c, q)" by fastforce
    note nx = backward_next [OF Suc.prems(2,3) Inr [unfolded cq]]
    let ?c2 = "day_start ?d - 1"
    have "backward_days ctx n (\<lambda>t. windows (day_of t)) (\<lambda>t. day_start (day_of t) - 1) ?c2 q = Inr r"
      using Suc.prems(1) Inr cq nx(1) by (simp split: if_splits)
    from Suc.IH [OF this nx(2,3)] obtain k where k: "r \<le> ?c2" "k < n"
      "(\<Sum>i\<le>k. worked (windows (?d - 1 - int i)) r ?c2) = q"
      "\<exists>w \<in> set (windows (?d - 1 - int k)). fst w \<le> r \<and> r < snd w"
      by (auto simp: day_before)
    have "(\<Sum>i\<le>k. worked (windows (?d - int (Suc i))) r cur) = q"
      using k(3) by (simp only: worked_earlier_day)
    then have "(\<Sum>i\<le>Suc k. worked (windows (?d - int i)) r cur) = rem"
      unfolding sum.atMost_Suc_shift using nx(4) [of r] k(1) by simp
    moreover have "r \<le> cur" using k(1) day_lower [of cur] by simp
    moreover have "\<exists>w \<in> set (windows (?d - int (Suc k))). fst w \<le> r \<and> r < snd w"
      using k(4) by (simp add: algebra_simps)
    ultimately show ?thesis using k(2) by blast
  qed
qed simp

end

subsection \<open>Zones of constant offset\<close>

definition fixed_day_start :: "int \<Rightarrow> int \<Rightarrow> int" where
  "fixed_day_start off d = (d - unix_epoch_days) * day - off * second"

definition fixed_day_of :: "int \<Rightarrow> int \<Rightarrow> int" where
  "fixed_day_of off t = wall_days (fixed_zone off) t"

lemma fixed_go_date: "go_date (fixed_zone off) d hh mm = fixed_day_start off d + hh * hour + mm * minute"
  by (simp add: go_date_def fixed_day_start_def)

lemma fixed_localDayStart: "localDayStart (fixed_zone off) t = fixed_day_start off (fixed_day_of off t)"
  by (simp add: localDayStart_def fixed_go_date fixed_day_of_def)

lemma fixed_next_day: "add_days (fixed_zone off) (fixed_day_start off d) 1 = fixed_day_start off (d + 1)"
  by (simp add: add_days_def fixed_day_start_def algebra_simps)

lemma fixed_day_bounds:
  "fixed_day_start off (fixed_day_of off t) \<le> t" "t < fixed_day_start off (fixed_day_of off t + 1)"
  "fixed_day_of off (fixed_day_start off d) = d"
proof -
  have pos: "0 < day" by (simp add: time_units)
  have split: "(t + off * second) div day * day + (t + off * second) mod day = t + off * second"
    by (rule div_mult_mod_eq)
  have r: "0 \<le> (t + off * second) mod day" "(t + off * second) mod day < day" using pos by simp_all
  have s: "fixed_day_start off (fixed_day_of off t) = (t + off * second) div day * day - off * second"
    "fixed_day_start off (fixed_day_of off t + 1) = (t + off * second) div day * day + day - off * second"
    by (simp_all add: fixed_day_start_def fixed_day_of_def wall_days_def distrib_right)
  show "fixed_day_start off (fixed_day_of off t) \<le> t" "t < fixed_day_start off (fixed_day_of off t + 1)"
    unfolding s using split r by linarith+
  show "fixed_day_of off (fixed_day_start off d) = d"
    using pos by (simp add: fixed_day_start_def fixed_day_of_def wall_days_def)
qed

lemma clock_minutes: "m div 60 * hour + m mod 60 * minute = m * minute"
proof -
  have "m div 60 * hour + m mod 60 * minute = (m div 60 * 60 + m mod 60) * minute"
    unfolding hour_def distrib_right by simp
  then show ?thesis by simp
qed

lemma parseClock_range:
  assumes "snd (parseClock v b)"
  shows "0 \<le> fst (parseClock v b)" "v \<noteq> ''24:00'' \<Longrightarrow> fst (parseClock v b) < 1440"
proof -
  have "v = ''24:00'' \<and> fst (parseClock v b) = 1440 \<or>
      (\<exists>h m. h < 24 \<and> m < 60 \<and> fst (parseClock v b) = int h * 60 + int m)"
    using assms unfolding parseClock_def parse_hm_def
    by (auto split: if_splits option.splits prod.splits simp: not_le)
  then show "0 \<le> fst (parseClock v b)" "v \<noteq> ''24:00'' \<Longrightarrow> fst (parseClock v b) < 1440" by auto
qed

definition intervals_ok :: "BusinessCalendarTimeInterval list \<Rightarrow> bool" where
  "intervals_ok xs \<longleftrightarrow> validateIntervals xs [] = None \<and> (\<forall>x \<in> set xs. ti_End x \<noteq> ''24:00'')"

definition calendar_ok :: "BusinessCalendarSchema \<Rightarrow> bool" where
  "calendar_ok cal \<longleftrightarrow> (\<forall>d \<in> set (cal_WeeklyWorkingIntervals cal). intervals_ok (wk_Intervals d)) \<and>
     (\<forall>x \<in> set (cal_DateExceptions cal). intervals_ok (dx_Intervals x))"

definition interval_window :: "int \<Rightarrow> BusinessCalendarTimeInterval \<Rightarrow> int \<times> int" where
  "interval_window base x = (base + fst (parseClock (ti_Start x) False) * minute,
     base + fst (parseClock (ti_End x) True) * minute)"

lemma interval_windows_ordered:
  assumes "validate_intervals_from i prev xs path = None" "\<forall>x \<in> set xs. ti_End x \<noteq> ''24:00''"
  shows "ordered_windows (base + max 0 prev * minute) (map (interval_window base) xs) \<and>
     (\<forall>w \<in> set (map (interval_window base) xs). snd w < base + day)"
  using assms
proof (induction xs arbitrary: i prev)
  case (Cons x xs)
  obtain s so e eo where p: "parseClock (ti_Start x) False = (s, so)" "parseClock (ti_End x) True = (e, eo)"
    by fastforce
  have c: "so" "eo" "s < e" "prev \<le> s" "validate_intervals_from (Suc i) e xs path = None"
    using Cons.prems(1) by (auto simp: p Let_def split: if_splits)
  have s0: "0 \<le> s" using parseClock_range(1) [of "ti_Start x" False] p(1) c(1) by simp
  have e1: "e < 1440" using parseClock_range(2) [of "ti_End x" True] p(2) c(2) Cons.prems(2) by simp
  have m: "0 < minute" "day = 1440 * minute" by (simp_all add: time_units)
  have IH: "ordered_windows (base + e * minute) (map (interval_window base) xs) \<and>
     (\<forall>w \<in> set (map (interval_window base) xs). snd w < base + day)"
    using Cons.IH [OF c(5)] Cons.prems(2) s0 c(3) by (simp add: max_def)
  have "max 0 prev * minute \<le> s * minute" using c(4) s0 m by (intro mult_right_mono) auto
  moreover have "s * minute < e * minute" "e * minute < day"
    unfolding m(2) using c(3) e1 m(1) by (auto intro: mult_strict_right_mono)
  ultimately show ?case using IH by (simp add: interval_window_def [of base x] p)
qed simp

lemma intervals_ok_ordered:
  assumes "intervals_ok xs"
  shows "ordered_windows base (map (interval_window base) xs)"
    "w \<in> set (map (interval_window base) xs) \<Longrightarrow> snd w < base + day"
  using interval_windows_ordered [of 0 "- 1" xs "[]" base] assms
  by (auto simp: intervals_ok_def validateIntervals_def)

lemma fixed_materialize:
  assumes "\<forall>x \<in> set xs. ti_End x \<noteq> ''24:00''" "validateIntervals xs [] = None"
  shows "materializeWindows t xs (fixed_zone off) =
     map (interval_window (fixed_day_start off (fixed_day_of off t))) xs"
proof -
  have e: "fst (parseClock (ti_End x) True) \<noteq> 24 * 60" if "x \<in> set xs" for x
  proof (cases "snd (parseClock (ti_End x) True)")
    case True
    with parseClock_range(2) [of "ti_End x" True] assms(1) that show ?thesis by simp
  next
    case False
    then show ?thesis using assms(1) that
      by (auto simp: parseClock_def split: if_splits option.splits prod.splits)
  qed
  show ?thesis
    unfolding materializeWindows_def interval_window_def Let_def fixed_go_date
      fixed_day_of_def [symmetric]
    using e by (auto simp: add.assoc clock_minutes)
qed

text \<open>
  The windows of a local day; a calendar that is not in the fragment of \<open>calendar_ok\<close> has none.
\<close>

definition calendar_windows :: "BusinessCalendarSchema \<Rightarrow> int \<Rightarrow> int \<Rightarrow> (int \<times> int) list" where
  "calendar_windows cal off d = (if calendar_ok cal
     then workingWindows cal (fixed_day_start off d) (fixed_zone off) else [])"

lemma workingWindows_intervals:
  "workingWindows cal t loc = [] \<or>
   (\<exists>xs. workingWindows cal t loc = materializeWindows t xs loc \<and>
      (xs \<in> wk_Intervals ` set (cal_WeeklyWorkingIntervals cal) \<or>
       xs \<in> dx_Intervals ` set (cal_DateExceptions cal)))"
  unfolding workingWindows_def Let_def
  by (auto split: option.splits simp: find_Some_iff2 dest: nth_mem) (metis find_Some_iff image_eqI nth_mem)+

lemma calendar_windows_ordered:
  "ordered_windows (fixed_day_start off d) (calendar_windows cal off d)"
  "w \<in> set (calendar_windows cal off d) \<Longrightarrow> snd w < fixed_day_start off (d + 1)"
proof -
  have "ordered_windows (fixed_day_start off d) (calendar_windows cal off d) \<and>
     (\<forall>w \<in> set (calendar_windows cal off d). snd w < fixed_day_start off d + day)"
  proof (cases "calendar_windows cal off d = []")
    case False
    then have ok: "calendar_ok cal"
      and w: "calendar_windows cal off d = workingWindows cal (fixed_day_start off d) (fixed_zone off)"
      by (auto simp: calendar_windows_def split: if_splits)
    from workingWindows_intervals [of cal "fixed_day_start off d" "fixed_zone off"] False w
    obtain xs where xs: "calendar_windows cal off d = materializeWindows (fixed_day_start off d) xs (fixed_zone off)"
      "xs \<in> wk_Intervals ` set (cal_WeeklyWorkingIntervals cal) \<or>
       xs \<in> dx_Intervals ` set (cal_DateExceptions cal)" by auto
    from xs(2) ok have io: "intervals_ok xs" by (auto simp: calendar_ok_def)
    then have "calendar_windows cal off d = map (interval_window (fixed_day_start off d)) xs"
      unfolding xs(1) by (subst fixed_materialize) (auto simp: intervals_ok_def fixed_day_bounds(3))
    with intervals_ok_ordered [OF io] show ?thesis by simp
  qed simp
  moreover have "fixed_day_start off (d + 1) = fixed_day_start off d + day"
    by (simp add: fixed_day_start_def algebra_simps)
  ultimately show "ordered_windows (fixed_day_start off d) (calendar_windows cal off d)"
    "w \<in> set (calendar_windows cal off d) \<Longrightarrow> snd w < fixed_day_start off (d + 1)" by auto
qed

interpretation calendar_clock: business_clock "fixed_day_of off" "fixed_day_start off" "calendar_windows cal off"
  for off cal
proof
  fix t d
  show "fixed_day_start off (fixed_day_of off t) \<le> t" "t < fixed_day_start off (fixed_day_of off t + 1)"
    "fixed_day_of off (fixed_day_start off d) = d" by (rule fixed_day_bounds)+
  show "fixed_day_start off (d + 1) - fixed_day_start off d < 2 ^ 63"
    by (simp add: fixed_day_start_def algebra_simps time_units)
  show "ordered_windows (fixed_day_start off d) (calendar_windows cal off d)"
    by (rule calendar_windows_ordered)
qed (rule calendar_windows_ordered)

lemma workingWindows_day:
  assumes "calendar_ok cal"
  shows "workingWindows cal t (fixed_zone off) = calendar_windows cal off (fixed_day_of off t)"
proof -
  have d: "wall_days (fixed_zone off) (fixed_day_start off (fixed_day_of off t)) = wall_days (fixed_zone off) t"
    using fixed_day_bounds(3) [of off "fixed_day_of off t"] by (simp add: fixed_day_of_def)
  have "materializeWindows (fixed_day_start off (fixed_day_of off t)) xs (fixed_zone off) =
      materializeWindows t xs (fixed_zone off)" for xs
    unfolding materializeWindows_def localDayStart_def d ..
  with assms d show ?thesis
    by (simp add: calendar_windows_def workingWindows_def Let_def split: option.splits)
qed

subsection \<open>Normalization\<close>

lemma sort_key_fixed: "sorted (map f xs) \<Longrightarrow> sort_key f xs = xs"
  by (rule sort_key_id_if_sorted)

lemma normalizeIntervals_idem: "normalizeIntervals (normalizeIntervals xs) = normalizeIntervals xs"
proof -
  let ?n = "\<lambda>v. v \<lparr> ti_Start := trim_space (ti_Start v), ti_End := trim_space (ti_End v) \<rparr>"
  let ?s = "sort_key ti_Start (map ?n xs)"
  have "map ?n ?s = ?s" by (rule map_idI) auto
  then have "normalizeIntervals ?s = sort_key ti_Start ?s" by (simp only: normalizeIntervals_def)
  also have "\<dots> = ?s" by (rule sort_key_fixed) (rule sorted_sort_key)
  finally show ?thesis by (simp only: normalizeIntervals_def)
qed

definition interval_canonical :: "BusinessCalendarTimeInterval list \<Rightarrow> bool" where
  "interval_canonical xs \<longleftrightarrow> normalizeIntervals xs = xs"

definition calendar_canonical :: "BusinessCalendarSchema \<Rightarrow> bool" where
  "calendar_canonical cal \<longleftrightarrow> trimmed (cal_Key cal) \<and> trimmed (cal_Name cal) \<and>
     trimmed (cal_Revision cal) \<and> trimmed (cal_Timezone cal) \<and>
     (\<forall>h \<in> set (cal_Holidays cal). trimmed h) \<and>
     (\<forall>d \<in> set (cal_WeeklyWorkingIntervals cal).
        to_lower (trim_space (wk_Weekday d)) = wk_Weekday d \<and> interval_canonical (wk_Intervals d)) \<and>
     (\<forall>x \<in> set (cal_DateExceptions cal). trimmed (dx_Date x) \<and> interval_canonical (dx_Intervals x))"

interpretation calendar_normal: normalizer Normalize calendar_canonical
proof
  fix cal
  show "calendar_canonical (Normalize cal)"
    by (auto simp: calendar_canonical_def Normalize_def interval_canonical_def normalizeIntervals_idem
        trim_space_to_lower)
  assume c: "calendar_canonical cal"
  have "map (\<lambda>d. d \<lparr> wk_Weekday := to_lower (trim_space (wk_Weekday d)),
      wk_Intervals := normalizeIntervals (wk_Intervals d) \<rparr>) (cal_WeeklyWorkingIntervals cal) =
      cal_WeeklyWorkingIntervals cal"
    using c by (intro map_idI) (auto simp: calendar_canonical_def interval_canonical_def)
  moreover have "map (\<lambda>x. x \<lparr> dx_Date := trim_space (dx_Date x),
      dx_Intervals := normalizeIntervals (dx_Intervals x) \<rparr>) (cal_DateExceptions cal) = cal_DateExceptions cal"
    using c by (intro map_idI) (auto simp: calendar_canonical_def interval_canonical_def)
  moreover have "map trim_space (cal_Holidays cal) = cal_Holidays cal"
    using c by (intro map_idI) (auto simp: calendar_canonical_def)
  ultimately show "Normalize cal = cal" using c by (simp add: Normalize_def calendar_canonical_def)
qed

subsection \<open>Validated calendars\<close>

text \<open>No interval of the (normalized) calendar ends at midnight.\<close>

definition no_midnight_end :: "BusinessCalendarSchema \<Rightarrow> bool" where
  "no_midnight_end cal \<longleftrightarrow>
     (\<forall>d \<in> set (cal_WeeklyWorkingIntervals cal). \<forall>x \<in> set (wk_Intervals d). ti_End x \<noteq> ''24:00'') \<and>
     (\<forall>d \<in> set (cal_DateExceptions cal). \<forall>x \<in> set (dx_Intervals d). ti_End x \<noteq> ''24:00'')"

lemma validate_intervals_path:
  "validate_intervals_from i prev xs path = None \<longleftrightarrow> validate_intervals_from j prev xs path' = None"
  by (induction xs arbitrary: i j prev) (auto simp: Let_def split: prod.splits)

lemma validateIntervals_path: "validateIntervals xs path = None \<Longrightarrow> validateIntervals xs path' = None"
  unfolding validateIntervals_def using validate_intervals_path by blast

lemma validate_weekly_intervals:
  "validate_weekly i seen ds = None \<Longrightarrow> d \<in> set ds \<Longrightarrow> validateIntervals (wk_Intervals d) [] = None"
proof (induction i seen ds rule: validate_weekly.induct)
  case (2 index weekdays d' rest)
  then have "validateIntervals (wk_Intervals d') (index_path ''weekly_working_intervals'' index @ ''.intervals'') = None"
    "validate_weekly (Suc index) (wk_Weekday d' # weekdays) rest = None"
    by (auto simp: Let_def split: if_splits option.splits)
  with 2 show ?case by (auto simp: Let_def split: if_splits dest: validateIntervals_path)
qed simp

lemma validate_exceptions_intervals:
  "validate_exceptions i seen ds = None \<Longrightarrow> d \<in> set ds \<Longrightarrow> validateIntervals (dx_Intervals d) [] = None"
proof (induction i seen ds rule: validate_exceptions.induct)
  case (2 index dates d' rest)
  then have "validateIntervals (dx_Intervals d') (index_path ''date_exceptions'' index @ ''.intervals'') = None"
    "validate_exceptions (Suc index) (dx_Date d' # dates) rest = None"
    by (auto simp: Let_def split: if_splits option.splits)
  with 2 show ?case by (auto simp: Let_def split: if_splits dest: validateIntervals_path)
qed simp

lemma validated_calendar_ok:
  assumes "Validate load cal = None" "no_midnight_end (Normalize cal)"
  shows "calendar_ok (Normalize cal)" "\<exists>loc. load (cal_Timezone (Normalize cal)) = Some loc"
proof -
  obtain dates where v: "validate_weekly 0 [] (cal_WeeklyWorkingIntervals (Normalize cal)) = None"
    "validate_exceptions 0 dates (cal_DateExceptions (Normalize cal)) = None"
    "load (cal_Timezone (Normalize cal)) \<noteq> None"
    using assms(1) by (auto simp: Validate_def Let_def split: if_splits option.splits sum.splits)
  with validate_weekly_intervals [OF v(1)] validate_exceptions_intervals [OF v(2)] assms(2)
  show "calendar_ok (Normalize cal)"
    by (auto simp: calendar_ok_def intervals_ok_def no_midnight_end_def)
  show "\<exists>loc. load (cal_Timezone (Normalize cal)) = Some loc" using v(3) by simp
qed

text \<open>The windows of local day \<open>d\<close> as the search reads them.\<close>

definition day_windows :: "BusinessCalendarSchema \<Rightarrow> int \<Rightarrow> int \<Rightarrow> (int \<times> int) list" where
  "day_windows cal off d = workingWindows cal (fixed_day_start off d) (fixed_zone off)"

lemma day_windows_ok: "calendar_ok cal \<Longrightarrow> calendar_windows cal off = day_windows cal off"
  by (rule ext) (simp add: calendar_windows_def day_windows_def)

lemma Validate_Normalize: "Validate load (Normalize cal) = Validate load cal"
  by (simp only: Validate_def calendar_normal.normalize_idem)

lemma add_business_forward:
  assumes "load (cal_Timezone (Normalize cal)) = Some (fixed_zone off)" "no_midnight_end (Normalize cal)"
    "Validate load cal = None" "\<not> ctx 0" "0 < offset" "in_int64 offset"
  shows "AddBusinessDuration load ctx cal base offset =
     forward_days ctx 3661 (\<lambda>t. calendar_windows (Normalize cal) off (fixed_day_of off t))
       (\<lambda>t. fixed_day_start off (fixed_day_of off t + 1)) base offset"
proof -
  have v: "Validate load (Normalize cal) = None" using assms(3) by (simp only: Validate_Normalize)
  have u: "uint64 offset = offset" using assms(5,6) by (simp add: uint64_def in_int64_def)
  note ok = validated_calendar_ok(1) [OF assms(3,2)]
  have w: "(\<lambda>t. workingWindows (Normalize cal) t (fixed_zone off)) =
      (\<lambda>t. calendar_windows (Normalize cal) off (fixed_day_of off t))"
    by (rule ext) (rule workingWindows_day [OF ok])
  have n: "(\<lambda>t. add_days (fixed_zone off) (localDayStart (fixed_zone off) t) 1) =
      (\<lambda>t. fixed_day_start off (fixed_day_of off t + 1))"
    by (rule ext) (simp add: fixed_localDayStart fixed_next_day)
  show ?thesis
    unfolding AddBusinessDuration_def Let_def v using assms(1,4,5) u
    by (simp add: w n calendar_normal.normalize_idem)
qed

lemma add_business_backward:
  assumes "load (cal_Timezone (Normalize cal)) = Some (fixed_zone off)" "no_midnight_end (Normalize cal)"
    "Validate load cal = None" "\<not> ctx 0" "offset < 0" "- (2 ^ 63) < offset"
  shows "AddBusinessDuration load ctx cal base offset =
     backward_days ctx 3661 (\<lambda>t. calendar_windows (Normalize cal) off (fixed_day_of off t))
       (\<lambda>t. fixed_day_start off (fixed_day_of off t) - 1) base (- offset)"
proof -
  have v: "Validate load (Normalize cal) = None" using assms(3) by (simp only: Validate_Normalize)
  have "in_int64 (- (offset + 1))" using assms(5,6) by (simp add: in_int64_def)
  then have u: "uint64 (uint64 (wrap64 (- (offset + 1))) + 1) = - offset"
    using assms(5,6) by (simp add: uint64_def)
  note ok = validated_calendar_ok(1) [OF assms(3,2)]
  have w: "(\<lambda>t. workingWindows (Normalize cal) t (fixed_zone off)) =
      (\<lambda>t. calendar_windows (Normalize cal) off (fixed_day_of off t))"
    by (rule ext) (rule workingWindows_day [OF ok])
  have n: "(\<lambda>t. localDayStart (fixed_zone off) t - 1) = (\<lambda>t. fixed_day_start off (fixed_day_of off t) - 1)"
    by (rule ext) (simp add: fixed_localDayStart)
  show ?thesis
    unfolding AddBusinessDuration_def Let_def v using assms(1,4,5)
    by (simp add: w n u calendar_normal.normalize_idem del: minus_add_distrib)
qed

lemma add_business_Inr:
  assumes "AddBusinessDuration load ctx cal base offset = Inr r"
  shows "\<not> ctx 0" "Validate load cal = None"
  using assms
  unfolding AddBusinessDuration_def Let_def Validate_Normalize
  by (auto split: if_splits option.splits)

lemma forward_days_no_context:
  "forward_days ctx n wins next cur rem = Inl e \<Longrightarrow> \<forall>i. \<not> ctx i \<Longrightarrow> \<exists>v. e = CalendarError v"
  by (induction n arbitrary: cur rem) (auto split: sum.splits prod.splits)

lemma forward_exact:
  assumes "AddBusinessDuration load ctx cal base offset = Inr r"
    and "load (cal_Timezone (Normalize cal)) = Some (fixed_zone off)"
    and "no_midnight_end (Normalize cal)" and "0 < offset" and "in_int64 offset"
  shows "base \<le> r \<and> (\<exists>k < 3661.
     (\<Sum>i\<le>k. worked (day_windows (Normalize cal) off (fixed_day_of off base + int i)) base r) = offset \<and>
     (\<exists>w \<in> set (day_windows (Normalize cal) off (fixed_day_of off base + int k)). fst w < r \<and> r \<le> snd w))"
proof -
  note pre = add_business_Inr [OF assms(1)]
  note ok = day_windows_ok [OF validated_calendar_ok(1) [OF pre(2) assms(3)]]
  have "forward_days ctx 3661 (\<lambda>t. calendar_windows (Normalize cal) off (fixed_day_of off t))
       (\<lambda>t. fixed_day_start off (fixed_day_of off t + 1)) base offset = Inr r"
    using assms(1) add_business_forward [where load = load and ctx = ctx, OF assms(2,3) pre(2,1) assms(4,5)] by simp
  from calendar_clock.forward_days_result [OF this assms(4)] show ?thesis unfolding ok .
qed


text \<open>
  Backward addition is exact: under the same conditions, subtracting working time returns an
  instant \<open>r\<close> in a working window (before its end) such that the working time between \<open>r\<close> and \<open>base\<close>
  is exactly the magnitude of the offset.
\<close>

theorem add_business_duration_backward:
  assumes "AddBusinessDuration load ctx cal base offset = Inr r"
    and "load (cal_Timezone (Normalize cal)) = Some (fixed_zone off)"
    and "no_midnight_end (Normalize cal)" and "offset < 0" and "- (2 ^ 63) < offset"
  shows "r \<le> base \<and> (\<exists>k < 3661.
     (\<Sum>i\<le>k. worked (day_windows (Normalize cal) off (fixed_day_of off base - int i)) r base) = - offset \<and>
     (\<exists>w \<in> set (day_windows (Normalize cal) off (fixed_day_of off base - int k)). fst w \<le> r \<and> r < snd w))"
proof -
  note pre = add_business_Inr [OF assms(1)]
  note ok = day_windows_ok [OF validated_calendar_ok(1) [OF pre(2) assms(3)]]
  have b: "backward_days ctx 3661 (\<lambda>t. calendar_windows (Normalize cal) off (fixed_day_of off t))
       (\<lambda>t. fixed_day_start off (fixed_day_of off t) - 1) base (- offset) = Inr r"
    using assms(1) add_business_backward [where load = load and ctx = ctx, OF assms(2,3) pre(2,1) assms(4,5)] by simp
  have p: "0 < - offset" "- offset < 2 ^ 63" using assms(4,5) by auto
  from calendar_clock.backward_days_result [OF b p] show ?thesis unfolding ok .
qed


subsection \<open>An example calendar\<close>

definition example_hours :: "string \<Rightarrow> string \<Rightarrow> string \<Rightarrow> BusinessCalendarWeeklySchedule" where
  "example_hours w a b =
     \<lparr> wk_Weekday = w, wk_Intervals = [\<lparr> ti_Start = a, ti_End = b \<rparr>] \<rparr>"

definition office_calendar :: BusinessCalendarSchema where
  "office_calendar = \<lparr> cal_Key = ''office'', cal_Name = ''Office'', cal_Revision = ''1'',
     cal_Timezone = '' UTC'', cal_WeeklyWorkingIntervals =
       [example_hours ''Monday'' ''09:00'' ''17:00'', example_hours ''tuesday'' ''09:00'' ''17:00''],
     cal_Holidays = [], cal_DateExceptions = [] \<rparr>"

definition example_load :: "string \<Rightarrow> location option" where
  "example_load z = (if z = ''UTC'' then Some (fixed_zone 0) else None)"

lemma forward_days_found:
  assumes "0 < n" "\<forall>i. \<not> ctx i" "forward_windows (wins cur) cur rem = Inl r"
  shows "forward_days ctx n wins next cur rem = Inr r"
  using assms by (cases n) auto

lemma forward_days_move:
  assumes "0 < n" "\<forall>i. \<not> ctx i" "forward_windows (wins cur) cur rem = Inr (c, q)"
  shows "forward_days ctx n wins next cur rem = forward_days ctx (n - 1) wins next (next c) q"
  using assms by (cases n) auto

lemma backward_days_found:
  assumes "0 < n" "\<forall>i. \<not> ctx i" "backward_windows (rev (wins cur)) cur rem = Inl r"
  shows "backward_days ctx n wins prev cur rem = Inr r"
  using assms by (cases n) auto

lemma backward_days_move:
  assumes "0 < n" "\<forall>i. \<not> ctx i" "backward_windows (rev (wins cur)) cur rem = Inr (c, q)"
  shows "backward_days ctx n wins prev cur rem = backward_days ctx (n - 1) wins prev (prev c) q"
  using assms by (cases n) auto

lemma office_facts:
  "example_load (cal_Timezone (Normalize office_calendar)) = Some (fixed_zone 0)"
  "no_midnight_end (Normalize office_calendar)" "Validate example_load office_calendar = None"
proof -
  have "cal_Timezone (Normalize office_calendar) = ''UTC''" by code_simp
  then show "example_load (cal_Timezone (Normalize office_calendar)) = Some (fixed_zone 0)"
    by (simp add: example_load_def)
  show "no_midnight_end (Normalize office_calendar)" "Validate example_load office_calendar = None"
    by code_simp+
qed

lemma office_normal:
  "cal_WeeklyWorkingIntervals (Normalize office_calendar) =
     [example_hours ''monday'' ''09:00'' ''17:00'', example_hours ''tuesday'' ''09:00'' ''17:00'']"
  "cal_DateExceptions (Normalize office_calendar) = []" "cal_Holidays (Normalize office_calendar) = []"
  by code_simp+

lemma example_weekdays: "fst (parseWeekday ''monday'') = 1" "fst (parseWeekday ''tuesday'') = 2"
  by code_simp+

lemma example_clock: "fst (parseClock ''09:00'' False) = 540" "fst (parseClock ''17:00'' True) = 1020"
  by code_simp+

lemma fixed_wall_days: "wall_days (fixed_zone off) (fixed_day_start off d) = d"
  using fixed_day_bounds(3) [of off d] by (simp add: fixed_day_of_def)

lemma office_windows:
  assumes "weekday_of_days d = 1 \<or> weekday_of_days d = 2"
  shows "calendar_windows (Normalize office_calendar) 0 d =
     [(fixed_day_start 0 d + 9 * hour, fixed_day_start 0 d + 17 * hour)]"
proof -
  have "calendar_windows (Normalize office_calendar) 0 d =
      materializeWindows (fixed_day_start 0 d) [\<lparr> ti_Start = ''09:00'', ti_End = ''17:00'' \<rparr>] (fixed_zone 0)"
    using assms validated_calendar_ok(1) [OF office_facts(3,2)]
    by (auto simp: calendar_windows_def workingWindows_def office_normal example_weekdays example_hours_def
        fixed_wall_days Let_def)
  then show ?thesis
    by (simp add: materializeWindows_def example_clock fixed_go_date fixed_wall_days)
qed

lemmas example_time = fixed_day_of_def wall_days_def fixed_day_start_def unix_epoch_days_def
  time_units weekday_of_days_def uint64_def time_sub_def

text \<open>Monday 1970-01-05, 16:00, and Tuesday, 10:00.\<close>

lemma office_monday:
  "AddBusinessDuration example_load (\<lambda>_. False) office_calendar (4 * day + 16 * hour) (2 * hour) =
     Inr (5 * day + 10 * hour)"
proof -
  let ?w = "\<lambda>t. calendar_windows (Normalize office_calendar) 0 (fixed_day_of 0 t)"
  let ?n = "\<lambda>t. fixed_day_start 0 (fixed_day_of 0 t + 1)"
  have "?w (4 * day + 16 * hour) = [(4 * day + 9 * hour, 4 * day + 17 * hour)]"
    by (subst office_windows) (simp_all add: example_time)
  then have "forward_days (\<lambda>_. False) 3661 ?w ?n (4 * day + 16 * hour) (2 * hour) =
      forward_days (\<lambda>_. False) (3661 - 1) ?w ?n (?n (4 * day + 17 * hour)) hour"
    by (intro forward_days_move) (simp_all add: example_time)
  moreover have "?n (4 * day + 17 * hour) = 5 * day" by (simp add: example_time)
  moreover have "?w (5 * day) = [(5 * day + 9 * hour, 5 * day + 17 * hour)]"
    by (subst office_windows) (simp_all add: example_time)
  then have "forward_days (\<lambda>_. False) (3661 - 1) ?w ?n (5 * day) hour = Inr (5 * day + 10 * hour)"
    by (intro forward_days_found) (simp_all add: example_time wrap64_in in_int64_def)
  ultimately show ?thesis
    using add_business_forward [of example_load office_calendar 0 "\<lambda>_. False" "2 * hour", OF office_facts]
    by (simp add: time_units in_int64_def)
qed

lemma office_tuesday:
  "AddBusinessDuration example_load (\<lambda>_. False) office_calendar (5 * day + 10 * hour) (- (2 * hour)) =
     Inr (4 * day + 16 * hour)"
proof -
  let ?w = "\<lambda>t. calendar_windows (Normalize office_calendar) 0 (fixed_day_of 0 t)"
  let ?p = "\<lambda>t. fixed_day_start 0 (fixed_day_of 0 t) - 1"
  have "?w (5 * day + 10 * hour) = [(5 * day + 9 * hour, 5 * day + 17 * hour)]"
    by (subst office_windows) (simp_all add: example_time)
  then have "backward_days (\<lambda>_. False) 3661 ?w ?p (5 * day + 10 * hour) (2 * hour) =
      backward_days (\<lambda>_. False) (3661 - 1) ?w ?p (?p (5 * day + 9 * hour)) hour"
    by (intro backward_days_move) (simp_all add: example_time)
  moreover have "?p (5 * day + 9 * hour) = 5 * day - 1" by (simp add: example_time)
  moreover have "?w (5 * day - 1) = [(4 * day + 9 * hour, 4 * day + 17 * hour)]"
    by (subst office_windows) (simp_all add: example_time)
  then have "backward_days (\<lambda>_. False) (3661 - 1) ?w ?p (5 * day - 1) hour = Inr (4 * day + 16 * hour)"
    by (intro backward_days_found) (simp_all add: example_time wrap64_in in_int64_def)
  ultimately show ?thesis
    using add_business_backward [of example_load office_calendar 0 "\<lambda>_. False" "- (2 * hour)", OF office_facts]
    by (simp add: time_units)
qed

lemma two_hours: "0 < 2 * hour" "in_int64 (2 * hour)" "- (2 * hour) < 0" "- (2 ^ 63) < - (2 * hour)"
  by (simp_all add: time_units in_int64_def)


theorem add_business_duration_backward_witness:
  "\<exists>k < 3661. (\<Sum>i\<le>k. worked (day_windows (Normalize office_calendar) 0
      (fixed_day_of 0 (5 * day + 10 * hour) - int i)) (4 * day + 16 * hour) (5 * day + 10 * hour)) =
      - (- (2 * hour))"
  using add_business_duration_backward [OF office_tuesday office_facts(1,2) two_hours(3,4)] by blast


subsection \<open>Intervals that end at midnight\<close>

definition open_calendar :: BusinessCalendarSchema where
  "open_calendar = office_calendar \<lparr> cal_WeeklyWorkingIntervals :=
     map (\<lambda>w. example_hours w ''00:00'' ''24:00'') (map fst weekday_names) \<rparr>"

lemma open_facts:
  "cal_Timezone (Normalize open_calendar) = ''UTC''" "Validate example_load open_calendar = None"
  "cal_DateExceptions (Normalize open_calendar) = []" "cal_Holidays (Normalize open_calendar) = []"
  "cal_WeeklyWorkingIntervals (Normalize open_calendar) =
     map (\<lambda>w. example_hours w ''00:00'' ''24:00'') (map fst weekday_names)"
  by code_simp+

lemma open_weekdays: "map (\<lambda>w. fst (parseWeekday w)) (map fst weekday_names) = [0, 1, 2, 3, 4, 5, 6]"
  by code_simp

lemma midnight_clock: "fst (parseClock ''00:00'' False) = 0" "fst (parseClock ''24:00'' True) = 1440"
  by code_simp+

lemma open_windows:
  "workingWindows (Normalize open_calendar) t (fixed_zone 0) =
     [(fixed_day_start 0 (fixed_day_of 0 t), fixed_day_start 0 (fixed_day_of 0 t + 1))]"
proof -
  let ?d = "weekday_of_days (wall_days (fixed_zone 0) t)"
  have "?d \<in> {0..6}" by (simp add: weekday_of_days_def)
  then have "?d = 0 \<or> ?d = 1 \<or> ?d = 2 \<or> ?d = 3 \<or> ?d = 4 \<or> ?d = 5 \<or> ?d = 6" by auto
  then have "workingWindows (Normalize open_calendar) t (fixed_zone 0) =
      materializeWindows t [\<lparr> ti_Start = ''00:00'', ti_End = ''24:00'' \<rparr>] (fixed_zone 0)"
    using open_weekdays
    by (elim disjE) (simp_all add: workingWindows_def open_facts weekday_names_def example_hours_def Let_def)
  then show ?thesis
    by (simp add: materializeWindows_def midnight_clock fixed_go_date fixed_day_of_def [symmetric]
        fixed_localDayStart fixed_next_day)
qed

text \<open>
  The forward search skips the day after an interval that ends at 24:00: with a calendar that is
  open around the clock, 36 working hours from Monday 00:00 end on Wednesday 12:00 instead of
  Tuesday 12:00, although the windows of Monday and Tuesday hold 36 hours of working time up to
  Tuesday 12:00.
\<close>

theorem midnight_end_skips_a_day:
  "AddBusinessDuration example_load (\<lambda>_. False) open_calendar (4 * day) (36 * hour) =
     Inr (6 * day + 12 * hour) \<and>
   worked (workingWindows (Normalize open_calendar) (4 * day) utc_location @
           workingWindows (Normalize open_calendar) (5 * day) utc_location)
     (4 * day) (5 * day + 12 * hour) = 36 * hour"
proof
  let ?w = "\<lambda>t. workingWindows (Normalize open_calendar) t (fixed_zone 0)"
  let ?n = "\<lambda>t. add_days (fixed_zone 0) (localDayStart (fixed_zone 0) t) 1"
  have n: "?n t = fixed_day_start 0 (fixed_day_of 0 t + 1)" for t
    by (simp add: fixed_localDayStart fixed_next_day)
  have "forward_days (\<lambda>_. False) 3661 ?w ?n (4 * day) (36 * hour) =
      forward_days (\<lambda>_. False) (3661 - 1) ?w ?n (?n (5 * day)) (12 * hour)"
    by (intro forward_days_move) (simp_all add: open_windows example_time)
  also have "\<dots> = Inr (6 * day + 12 * hour)"
    unfolding n by (intro forward_days_found) (simp_all add: open_windows example_time wrap64_in in_int64_def)
  finally show "AddBusinessDuration example_load (\<lambda>_. False) open_calendar (4 * day) (36 * hour) =
      Inr (6 * day + 12 * hour)"
    by (simp add: AddBusinessDuration_def Let_def Validate_Normalize open_facts example_load_def
        calendar_normal.normalize_idem uint64_def time_units)
  show "worked (workingWindows (Normalize open_calendar) (4 * day) utc_location @
      workingWindows (Normalize open_calendar) (5 * day) utc_location) (4 * day) (5 * day + 12 * hour) = 36 * hour"
    by (simp add: utc_is_fixed open_windows example_time)
qed

end
