(* ===== verification/Record_Store.thy ===== *)
theory Record_Store
  imports Go_Values
begin

text \<open>
  The record store (\<open>runtime/infrastructure/persistence/database/record\<close>): a batch of record
  mutations applied in one serializable transaction.

  A table is the list of its rows, a row the association list of its columns (an absent column is
  NULL). The commits modelled carry the row mutation with its conditions and its optimistic
  precondition; authorization scopes, aggregate and temporal invariants, mutation predicates,
  localized values and the attached audit, outbox, workflow and notification rows are not
  modelled. What the environment fixes is in \<open>store_env\<close>: the field keys of an object, the column
  encoding of a field (\<open>dbFieldValue\<close>), the system columns (\<open>recordschema.SystemColumn\<close>), the
  erasure guards of a record, the JSON text of \<open>ext_info\<close>, and \<open>conditional_update_many\<close>.

  SQL equality of a column and a parameter is equality of their printed values, which is right for
  the texts and whole numbers that conditions compare; NULL equals nothing.
\<close>

subsection \<open>Records and commits\<close>

record Record =
  rec_ID :: string
  rec_Data :: data
  rec_CreatedAt :: string
  rec_UpdatedAt :: string
  rec_Deleted :: bool
  rec_ExtInfo :: "data option"
  rec_CreateBy :: string
  rec_UpdateBy :: string
  rec_OwnerUserID :: string
  rec_OwnerOrgID :: string

record RecordMutationCommit =
  mc_Operation :: string
  mc_Object :: string
  mc_Record :: Record
  mc_RecordID :: string
  mc_ExpectedUpdatedAt :: string
  mc_OptimisticExpectedUpdatedAt :: string
  mc_Conditions :: data

definition OptimisticUpdatedAt :: "RecordMutationCommit \<Rightarrow> string" where
  "OptimisticUpdatedAt c =
     (if mc_OptimisticExpectedUpdatedAt c \<noteq> [] then mc_OptimisticExpectedUpdatedAt c
      else mc_ExpectedUpdatedAt c)"

datatype mutation_conflict = ConflictUnique | ConflictOptimistic | ConflictLeaseLost

datatype store_error =
    MutationConflict string string mutation_conflict
  | SubjectErased
  | UnsupportedOperation string
  | WorkspaceRequired
  | UpdateManyError string

type_synonym row = data
type_synonym store = "string \<Rightarrow> row list"

record store_env =
  se_Fields :: "string \<Rightarrow> string list"
  se_Encode :: "string \<Rightarrow> string \<Rightarrow> gval \<Rightarrow> gval"
  se_SystemOwned :: "string \<Rightarrow> bool"
  se_WriteAllowed :: "string \<Rightarrow> string \<Rightarrow> bool"
  se_ExtInfo :: "data \<Rightarrow> string"
  se_UpdateMany :: "RecordMutationCommit \<Rightarrow> store \<Rightarrow> store_error + store"

definition dbValue :: "gval \<Rightarrow> gval" where
  "dbValue v = (case v of VInt i \<Rightarrow> VInt64 i | _ \<Rightarrow> v)"

subsection \<open>Columns\<close>

definition set_columns :: "data \<Rightarrow> row \<Rightarrow> row" where
  "set_columns assigns r = fold (\<lambda>(k, v). AList.update k v) assigns r"

definition text_column :: "string \<Rightarrow> string \<Rightarrow> data" where
  "text_column column t = (let u = trim_space t in if u \<noteq> [] then [(column, VStr u)] else [])"

definition field_columns :: "store_env \<Rightarrow> string \<Rightarrow> Record \<Rightarrow> data" where
  "field_columns env object r = concat (map (\<lambda>f.
     if se_SystemOwned env f then []
     else (case map_of (rec_Data r) f of
         Some v \<Rightarrow> [(f, se_Encode env object f v)]
       | None \<Rightarrow> [])) (se_Fields env object))"

definition ext_info_column :: "store_env \<Rightarrow> Record \<Rightarrow> data" where
  "ext_info_column env r = (case rec_ExtInfo r of
      Some m \<Rightarrow> [(''ext_info'', VStr (se_ExtInfo env m))] | None \<Rightarrow> [])"

definition appendRecordInsertMetadata :: "store_env \<Rightarrow> Record \<Rightarrow> data" where
  "appendRecordInsertMetadata env r =
     (if rec_Deleted r then [(''deleted'', VBool True)] else []) @ ext_info_column env r @
     text_column ''create_by'' (rec_CreateBy r) @ text_column ''update_by'' (rec_UpdateBy r) @
     text_column ''owner_user_id'' (rec_OwnerUserID r) @ text_column ''owner_org_id'' (rec_OwnerOrgID r)"

definition applyRecordUpdateBuilder :: "store_env \<Rightarrow> Record \<Rightarrow> bool \<Rightarrow> data" where
  "applyRecordUpdateBuilder env r writeDeleted =
     (if writeDeleted then [(''deleted'', VBool (rec_Deleted r))] else []) @ ext_info_column env r @
     text_column ''update_by'' (rec_UpdateBy r) @
     text_column ''owner_user_id'' (rec_OwnerUserID r) @ text_column ''owner_org_id'' (rec_OwnerOrgID r)"

definition insert_columns :: "store_env \<Rightarrow> string \<Rightarrow> Record \<Rightarrow> data" where
  "insert_columns env object r =
     [(''id'', VStr (rec_ID r)), (''created_at'', VStr (rec_CreatedAt r)), (''updated_at'', VStr (rec_UpdatedAt r))] @
     appendRecordInsertMetadata env r @ field_columns env object r"

definition update_columns :: "store_env \<Rightarrow> string \<Rightarrow> bool \<Rightarrow> Record \<Rightarrow> data" where
  "update_columns env object writeDeleted r =
     [(''updated_at'', VStr (rec_UpdatedAt r))] @ applyRecordUpdateBuilder env r writeDeleted @
     field_columns env object r"

definition sql_equal :: "gval \<Rightarrow> gval \<Rightarrow> bool" where
  "sql_equal a b \<longleftrightarrow> a \<noteq> VNil \<and> b \<noteq> VNil \<and> sprint a = sprint b"

definition row_is :: "string \<Rightarrow> row \<Rightarrow> bool" where
  "row_is i r \<longleftrightarrow> sql_equal (data_get r ''id'') (VStr i)"

definition recordConditionDBValue :: "store_env \<Rightarrow> string \<Rightarrow> string \<Rightarrow> gval \<Rightarrow> gval" where
  "recordConditionDBValue env object key v =
     (if key \<in> set (se_Fields env object) then se_Encode env object key v else dbValue v)"

definition conditions_hold :: "store_env \<Rightarrow> string \<Rightarrow> data \<Rightarrow> row \<Rightarrow> bool" where
  "conditions_hold env object conditions r \<longleftrightarrow> (\<forall>(key, v) \<in> set conditions.
     trim_space key \<noteq> [] \<and> key \<noteq> ''id'' \<and> key \<noteq> ''updated_at'' \<longrightarrow>
     sql_equal (data_get r key) (recordConditionDBValue env object key v))"

definition optimistic_holds :: "RecordMutationCommit \<Rightarrow> row \<Rightarrow> bool" where
  "optimistic_holds c r \<longleftrightarrow> (let expected = trim_space (OptimisticUpdatedAt c) in
     expected \<noteq> [] \<longrightarrow> sql_equal (data_get r ''updated_at'') (VStr expected))"

subsection \<open>Mutations\<close>

definition update_matches :: "store_env \<Rightarrow> RecordMutationCommit \<Rightarrow> row \<Rightarrow> bool" where
  "update_matches env c r \<longleftrightarrow>
     row_is (rec_ID (mc_Record c)) r \<and> se_WriteAllowed env (mc_Object c) (rec_ID (mc_Record c)) \<and>
     conditions_hold env (mc_Object c) (mc_Conditions c) r \<and> optimistic_holds c r"

definition update_row :: "store_env \<Rightarrow> RecordMutationCommit \<Rightarrow> row \<Rightarrow> row" where
  "update_row env c r = (if update_matches env c r
     then set_columns (update_columns env (mc_Object c)
       (trim_space (mc_Operation c) = ''restore'' \<or> rec_Deleted (mc_Record c)) (mc_Record c)) r
     else r)"

definition delete_id :: "RecordMutationCommit \<Rightarrow> string" where
  "delete_id c = (if trim_space (mc_RecordID c) = [] then rec_ID (mc_Record c) else trim_space (mc_RecordID c))"

definition delete_matches :: "store_env \<Rightarrow> RecordMutationCommit \<Rightarrow> row \<Rightarrow> bool" where
  "delete_matches env c r \<longleftrightarrow> row_is (delete_id c) r \<and>
     se_WriteAllowed env (mc_Object c) (delete_id c) \<and> optimistic_holds c r"

definition applyRecordMutationTx :: "store_env \<Rightarrow> RecordMutationCommit \<Rightarrow> store \<Rightarrow> store_error + store" where
  "applyRecordMutationTx env c st = (let
     operation = trim_space (mc_Operation c); object = mc_Object c; rows = st object; r = mc_Record c
   in if operation = ''create'' then
        (if \<not> se_WriteAllowed env object (rec_ID r) then Inl SubjectErased
         else if \<exists>x \<in> set rows. row_is (rec_ID r) x
           then Inl (MutationConflict object (rec_ID r) ConflictUnique)
         else Inr (st(object := rows @ [set_columns (insert_columns env object r) []])))
      else if operation = ''update'' \<or> operation = ''restore'' then
        (if \<not> (\<exists>x \<in> set rows. update_matches env c x)
         then Inl (MutationConflict object (rec_ID r) ConflictOptimistic)
         else Inr (st(object := map (update_row env c) rows)))
      else if operation = ''conditional_update_many'' then se_UpdateMany env c st
      else if operation = ''delete'' then
        (if \<not> (\<exists>x \<in> set rows. delete_matches env c x)
         then Inl (MutationConflict object (delete_id c) ConflictOptimistic)
         else Inr (st(object := filter (\<lambda>x. \<not> delete_matches env c x) rows)))
      else Inl (UnsupportedOperation (mc_Operation c)))"

fun apply_commits :: "store_env \<Rightarrow> RecordMutationCommit list \<Rightarrow> store \<Rightarrow> store_error + store" where
  "apply_commits env [] st = Inr st"
| "apply_commits env (c # cs) st = (case applyRecordMutationTx env c st of
      Inl e \<Rightarrow> Inl e | Inr st' \<Rightarrow> apply_commits env cs st')"

text \<open>The transaction: the store it leaves, rolled back on an error, and the error.\<close>

definition CommitRecordMutationBatch ::
    "store_env \<Rightarrow> string \<Rightarrow> RecordMutationCommit list \<Rightarrow> store \<Rightarrow> store \<times> store_error option" where
  "CommitRecordMutationBatch env workspaceID commits st =
     (if trim_space workspaceID = [] then (st, Some WorkspaceRequired)
      else (case apply_commits env commits st of
          Inl e \<Rightarrow> (st, Some e)
        | Inr st' \<Rightarrow> (st', None)))"

subsection \<open>Reading columns back\<close>

lemma set_columns_get:
  "data_get (set_columns as r) k = (case map_of (rev as) k of Some v \<Rightarrow> v | None \<Rightarrow> data_get r k)"
  by (induction as arbitrary: r)
     (auto simp: set_columns_def map_get_def update_conv map_add_def split: option.splits)

text \<open>
  What the schema layer guarantees: the field keys of an object are distinct, and the columns the
  store writes itself are system columns.
\<close>

definition own_columns :: "string list" where
  "own_columns = [''id'', ''created_at'', ''updated_at'', ''deleted'', ''ext_info'', ''create_by'',
     ''update_by'', ''owner_user_id'', ''owner_org_id'']"

definition env_ok :: "store_env \<Rightarrow> bool" where
  "env_ok env \<longleftrightarrow> (\<forall>object. distinct (se_Fields env object)) \<and> list_all (se_SystemOwned env) own_columns"

lemma map_of_field_columns:
  "map_of (field_columns env object r) f =
     (if f \<in> set (se_Fields env object) \<and> \<not> se_SystemOwned env f
      then map_option (se_Encode env object f) (map_of (rec_Data r) f) else None)"
proof -
  have "map_of (concat (map (\<lambda>f. if se_SystemOwned env f then []
      else (case map_of (rec_Data r) f of Some v \<Rightarrow> [(f, se_Encode env object f v)] | None \<Rightarrow> [])) fs)) f =
    (if f \<in> set fs \<and> \<not> se_SystemOwned env f
     then map_option (se_Encode env object f) (map_of (rec_Data r) f) else None)" for fs
    by (induction fs) (auto simp: map_add_def split: option.splits)
  then show ?thesis by (simp add: field_columns_def)
qed

lemma rev_field_columns:
  assumes "distinct (se_Fields env object)"
  shows "map_of (rev (field_columns env object r)) = map_of (field_columns env object r)"
proof -
  have "distinct (map fst (concat (map (\<lambda>f. if se_SystemOwned env f then []
      else (case map_of (rec_Data r) f of Some v \<Rightarrow> [(f, se_Encode env object f v)] | None \<Rightarrow> [])) fs))) \<and>
      fst ` set (concat (map (\<lambda>f. if se_SystemOwned env f then []
      else (case map_of (rec_Data r) f of Some v \<Rightarrow> [(f, se_Encode env object f v)] | None \<Rightarrow> [])) fs)) \<subseteq> set fs"
    if "distinct fs" for fs
    using that by (induction fs) (auto split: option.splits)
  then have d: "distinct (map fst (field_columns env object r))"
    using assms by (simp add: field_columns_def)
  show ?thesis using d by (subst map_of_inject_set) (simp_all add: rev_map [symmetric])
qed

lemma own_column_not_field: "env_ok env \<Longrightarrow> f \<in> set own_columns \<Longrightarrow> map_of (field_columns env object r) f = None"
  by (auto simp: env_ok_def list_all_iff map_of_field_columns)

lemma text_column_get: "f \<noteq> column \<Longrightarrow> map_of (rev (text_column column t)) f = None"
  by (simp add: text_column_def Let_def)

lemma ext_info_get: "f \<noteq> ''ext_info'' \<Longrightarrow> map_of (rev (ext_info_column env r)) f = None"
  by (simp add: ext_info_column_def split: option.splits)

lemma update_metadata_get:
  "f \<notin> {''deleted'', ''ext_info'', ''update_by'', ''owner_user_id'', ''owner_org_id''} \<Longrightarrow>
   map_of (rev (applyRecordUpdateBuilder env r b)) f = None"
  by (simp add: applyRecordUpdateBuilder_def text_column_get ext_info_get map_add_def)

lemma update_columns_own:
  assumes "env_ok env"
  shows "data_get (set_columns (update_columns env object b r) x) ''id'' = data_get x ''id''"
    "data_get (set_columns (update_columns env object b r) x) ''updated_at'' = VStr (rec_UpdatedAt r)"
proof -
  have f: "map_of (rev (field_columns env object r)) k = None" if "k \<in> set own_columns" for k
    using assms own_column_not_field [OF assms that] by (simp add: rev_field_columns env_ok_def)
  have "map_of (rev (field_columns env object r)) ''id'' = None"
    "map_of (rev (field_columns env object r)) ''updated_at'' = None"
    by (rule f, simp add: own_columns_def)+
  then show "data_get (set_columns (update_columns env object b r) x) ''id'' = data_get x ''id''"
    "data_get (set_columns (update_columns env object b r) x) ''updated_at'' = VStr (rec_UpdatedAt r)"
    by (simp_all add: set_columns_get update_columns_def map_add_def update_metadata_get)
qed

lemma update_columns_field:
  assumes "env_ok env" "f \<in> set (se_Fields env object)" "\<not> se_SystemOwned env f"
  shows "data_get (set_columns (update_columns env object b r) x) f =
    (case map_of (rec_Data r) f of Some v \<Rightarrow> se_Encode env object f v | None \<Rightarrow> data_get x f)"
proof -
  have own: "f \<notin> set own_columns" using assms(1,3) by (auto simp: env_ok_def list_all_iff)
  then have "map_of (rev (applyRecordUpdateBuilder env r b)) f = None" "f \<noteq> ''updated_at''"
    by (auto simp: own_columns_def intro!: update_metadata_get)
  then show ?thesis
    using assms rev_field_columns [of env object r]
    by (simp add: set_columns_get update_columns_def map_add_def map_of_field_columns env_ok_def
        split: option.splits)
qed

lemma insert_columns_id:
  assumes "env_ok env"
  shows "data_get (set_columns (insert_columns env object r) []) ''id'' = VStr (rec_ID r)"
proof -
  have "map_of (rev (field_columns env object r)) ''id'' = None"
    using assms own_column_not_field [OF assms, of "''id''"]
    by (simp add: rev_field_columns env_ok_def own_columns_def)
  then show ?thesis
    by (simp add: set_columns_get insert_columns_def map_add_def appendRecordInsertMetadata_def
        text_column_get ext_info_get)
qed

subsection \<open>Keys\<close>

definition row_id :: "row \<Rightarrow> gval" where
  "row_id r = data_get r ''id''"

text \<open>Ids are texts and identify the rows of a table.\<close>

definition keys_ok :: "store \<Rightarrow> bool" where
  "keys_ok st \<longleftrightarrow> (\<forall>object. distinct (map row_id (st object)) \<and> (\<forall>r \<in> set (st object). \<exists>i. row_id r = VStr i))"

lemma row_is_id: "row_id r = VStr j \<Longrightarrow> row_is i r \<longleftrightarrow> i = j"
  by (auto simp: row_is_def row_id_def sql_equal_def)

lemma keys_ok_row_is:
  assumes "keys_ok st" "r \<in> set (st object)"
  shows "row_is i r \<longleftrightarrow> row_id r = VStr i"
  using assms row_is_id unfolding keys_ok_def by (metis gval.inject(6))

lemma update_row_id: "env_ok env \<Longrightarrow> row_id (update_row env c r) = row_id r"
  by (simp add: update_row_def row_id_def update_columns_own)

lemma map_update_row_ids: "env_ok env \<Longrightarrow> map row_id (map (update_row env c) rows) = map row_id rows"
  by (simp add: update_row_id comp_def)

definition update_many_ok :: "store_env \<Rightarrow> bool" where
  "update_many_ok env \<longleftrightarrow> (\<forall>c st st'. keys_ok st \<longrightarrow> se_UpdateMany env c st = Inr st' \<longrightarrow> keys_ok st')"

lemma keys_ok_upd:
  assumes "keys_ok st" "distinct (map row_id rows)" "\<forall>r \<in> set rows. \<exists>i. row_id r = VStr i"
  shows "keys_ok (st(object := rows))"
  using assms by (simp add: keys_ok_def)

lemma keys_ok_table:
  assumes "keys_ok st"
  shows "distinct (map row_id (st object))" "r \<in> set (st object) \<Longrightarrow> \<exists>i. row_id r = VStr i"
  using assms by (simp_all add: keys_ok_def)

lemma apply_mutation_cases:
  assumes "applyRecordMutationTx env c st = Inr st'"
  shows "(\<not> (\<exists>x \<in> set (st (mc_Object c)). row_is (rec_ID (mc_Record c)) x) \<and>
      st' = st(mc_Object c := st (mc_Object c) @ [set_columns (insert_columns env (mc_Object c) (mc_Record c)) []])) \<or>
    st' = st(mc_Object c := map (update_row env c) (st (mc_Object c))) \<or>
    se_UpdateMany env c st = Inr st' \<or>
    st' = st(mc_Object c := filter (\<lambda>x. \<not> delete_matches env c x) (st (mc_Object c)))"
proof -
  note d = applyRecordMutationTx_def [of env c st, unfolded Let_def]
  show ?thesis
  proof (cases "trim_space (mc_Operation c) = ''create''")
    case True
    then show ?thesis using assms unfolding d by (simp split: if_splits)
  next
    case a: False
    show ?thesis
    proof (cases "trim_space (mc_Operation c) = ''update'' \<or> trim_space (mc_Operation c) = ''restore''")
      case True
      show ?thesis using assms unfolding d if_not_P [OF a] if_P [OF True] by (simp split: if_splits)
    next
      case b: False
      show ?thesis
        using assms unfolding d if_not_P [OF a] if_not_P [OF b] by (simp split: if_splits)
    qed
  qed
qed

lemma apply_mutation_keys:
  assumes env: "env_ok env" "update_many_ok env" and ok: "keys_ok st"
    and res: "applyRecordMutationTx env c st = Inr st'"
  shows "keys_ok st'"
proof -
  let ?op = "trim_space (mc_Operation c)" and ?rows = "st (mc_Object c)" and ?r = "mc_Record c"
  note tab = keys_ok_table [OF ok]
  consider (create) "\<not> (\<exists>x \<in> set ?rows. row_is (rec_ID ?r) x)"
      "st' = st(mc_Object c := ?rows @ [set_columns (insert_columns env (mc_Object c) ?r) []])"
    | (update) "st' = st(mc_Object c := map (update_row env c) ?rows)"
    | (many) "se_UpdateMany env c st = Inr st'"
    | (delete) "st' = st(mc_Object c := filter (\<lambda>x. \<not> delete_matches env c x) ?rows)"
    using apply_mutation_cases [OF res] by blast
  then show ?thesis
  proof cases
    case create
    have new: "row_id (set_columns (insert_columns env (mc_Object c) ?r) []) = VStr (rec_ID ?r)"
      by (simp add: row_id_def insert_columns_id [OF env(1)])
    moreover have "VStr (rec_ID ?r) \<notin> row_id ` set ?rows"
      using create(1) keys_ok_row_is [OF ok, of _ "mc_Object c"] by fastforce
    ultimately show ?thesis
      unfolding create(2) using tab [where object = "mc_Object c"] by (intro keys_ok_upd [OF ok]) auto
  next
    case update
    show ?thesis
      unfolding update using tab [where object = "mc_Object c"]
      by (intro keys_ok_upd [OF ok]) (auto simp: map_update_row_ids [OF env(1)] update_row_id [OF env(1)] simp del: map_map)
  next
    case many
    then show ?thesis using env(2) ok unfolding update_many_ok_def by blast
  next
    case delete
    show ?thesis
      unfolding delete using tab [where object = "mc_Object c"]
      by (intro keys_ok_upd [OF ok]) (auto simp: distinct_map_filter)
  qed
qed

lemma apply_commits_keys:
  "env_ok env \<Longrightarrow> update_many_ok env \<Longrightarrow> keys_ok st \<Longrightarrow> apply_commits env cs st = Inr st' \<Longrightarrow> keys_ok st'"
  by (induction env cs st rule: apply_commits.induct) (auto split: sum.splits dest: apply_mutation_keys)


subsection \<open>Effect of an update\<close>

definition is_update :: "RecordMutationCommit \<Rightarrow> bool" where
  "is_update c \<longleftrightarrow> trim_space (mc_Operation c) = ''update'' \<or> trim_space (mc_Operation c) = ''restore''"

lemma apply_update:
  "is_update c \<Longrightarrow> applyRecordMutationTx env c st =
    (if \<not> (\<exists>x \<in> set (st (mc_Object c)). update_matches env c x)
     then Inl (MutationConflict (mc_Object c) (rec_ID (mc_Record c)) ConflictOptimistic)
     else Inr (st(mc_Object c := map (update_row env c) (st (mc_Object c)))))"
  unfolding is_update_def by (elim disjE) (simp_all add: applyRecordMutationTx_def Let_def)

lemma update_row_other:
  assumes "row_id r = VStr j" "j \<noteq> rec_ID (mc_Record c)"
  shows "update_row env c r = r"
  using assms by (simp add: update_row_def update_matches_def row_is_id)

lemma update_effect:
  assumes "env_ok env" "keys_ok st" "is_update c" "applyRecordMutationTx env c st = Inr st'"
  shows "\<exists>k < length (st (mc_Object c)). let r = st (mc_Object c) ! k; r' = st' (mc_Object c) ! k in
    row_id r = VStr (rec_ID (mc_Record c)) \<and>
    conditions_hold env (mc_Object c) (mc_Conditions c) r \<and> optimistic_holds c r \<and>
    row_id r' = row_id r \<and> data_get r' ''updated_at'' = VStr (rec_UpdatedAt (mc_Record c)) \<and>
    (\<forall>f \<in> set (se_Fields env (mc_Object c)). \<not> se_SystemOwned env f \<longrightarrow>
       data_get r' f = (case map_of (rec_Data (mc_Record c)) f of
         Some v \<Rightarrow> se_Encode env (mc_Object c) f v | None \<Rightarrow> data_get r f)) \<and>
    st' = st(mc_Object c := (st (mc_Object c))[k := r'])"
proof -
  let ?o = "mc_Object c" and ?i = "rec_ID (mc_Record c)"
  from assms(3,4) obtain x where x: "x \<in> set (st ?o)" "update_matches env c x"
    and st': "st' = st(?o := map (update_row env c) (st ?o))"
    by (auto simp: apply_update split: if_splits)
  from x(1) obtain k where k: "k < length (st ?o)" "st ?o ! k = x" by (auto simp: in_set_conv_nth)
  have i: "row_id x = VStr ?i" "conditions_hold env ?o (mc_Conditions c) x" "optimistic_holds c x"
    using x keys_ok_row_is [OF assms(2) x(1)] by (simp_all add: update_matches_def)
  have others: "update_row env c (st ?o ! j) = st ?o ! j" if j: "j < length (st ?o)" "j \<noteq> k" for j
  proof -
    have d: "distinct (map row_id (st ?o))" using assms(2) by (simp add: keys_ok_def)
    obtain n where n: "row_id (st ?o ! j) = VStr n"
      using keys_ok_table(2) [OF assms(2) nth_mem [OF j(1)]] by blast
    have "n \<noteq> ?i"
      using d j k i(1) n nth_eq_iff_index_eq [OF d, of j k] by auto
    with n show ?thesis by (rule update_row_other)
  qed
  have "map (update_row env c) (st ?o) = (st ?o)[k := update_row env c x]"
    by (rule nth_equalityI) (auto simp: nth_list_update k others)
  with st' k have "st' ?o ! k = update_row env c x" "st' = st(?o := (st ?o)[k := update_row env c x])" by simp_all
  moreover have "row_id (update_row env c x) = row_id x" by (rule update_row_id [OF assms(1)])
  moreover have "data_get (update_row env c x) ''updated_at'' = VStr (rec_UpdatedAt (mc_Record c))"
    using x(2) by (simp add: update_row_def update_columns_own [OF assms(1)])
  moreover have "\<forall>f \<in> set (se_Fields env ?o). \<not> se_SystemOwned env f \<longrightarrow>
      data_get (update_row env c x) f = (case map_of (rec_Data (mc_Record c)) f of
         Some v \<Rightarrow> se_Encode env ?o f v | None \<Rightarrow> data_get x f)"
    using x(2) update_columns_field [OF assms(1)] by (simp add: update_row_def)
  ultimately show ?thesis using k i by (auto simp: Let_def)
qed

text \<open>
  A committed update is exactly the requested change: its preconditions held of the addressed
  row; that row now has the new time stamp and, for every field the record carries, the encoded
  value, and keeps its other fields; every other row and every other table is unchanged.
\<close>

theorem update_commit_effect:
  assumes "env_ok env" "keys_ok st" "is_update c" "applyRecordMutationTx env c st = Inr st'"
  shows "\<exists>k < length (st (mc_Object c)). let r = st (mc_Object c) ! k; r' = st' (mc_Object c) ! k in
    row_id r = VStr (rec_ID (mc_Record c)) \<and>
    conditions_hold env (mc_Object c) (mc_Conditions c) r \<and> optimistic_holds c r \<and>
    row_id r' = row_id r \<and> data_get r' ''updated_at'' = VStr (rec_UpdatedAt (mc_Record c)) \<and>
    (\<forall>f \<in> set (se_Fields env (mc_Object c)). \<not> se_SystemOwned env f \<longrightarrow>
       data_get r' f = (case map_of (rec_Data (mc_Record c)) f of
         Some v \<Rightarrow> se_Encode env (mc_Object c) f v | None \<Rightarrow> data_get r f)) \<and>
    st' = st(mc_Object c := (st (mc_Object c))[k := r'])"
  by (rule update_effect [OF assms])

text \<open>
  C12: no lost updates: of two updates prepared from the same version of a record, the second to
  arrive is refused with an optimistic conflict, provided the first one moves the time stamp.
\<close>

theorem optimistic_no_lost_update:
  assumes "env_ok env" "keys_ok st" "is_update a" "is_update b"
    and "mc_Object b = mc_Object a" "rec_ID (mc_Record b) = rec_ID (mc_Record a)"
    and "trim_space (OptimisticUpdatedAt b) = version" "version \<noteq> []"
    and "applyRecordMutationTx env a st = Inr st'"
    and "rec_UpdatedAt (mc_Record a) \<noteq> version"
  shows "applyRecordMutationTx env b st' =
    Inl (MutationConflict (mc_Object b) (rec_ID (mc_Record b)) ConflictOptimistic)"
proof -
  let ?o = "mc_Object a"
  from assms(3,9) have st': "st' ?o = map (update_row env a) (st ?o)"
    and ex: "\<exists>x \<in> set (st ?o). update_matches env a x"
    by (auto simp: apply_update split: if_splits)
  obtain y where y: "y \<in> set (st ?o)" "update_matches env a y" using ex by blast
  have yid: "row_id y = VStr (rec_ID (mc_Record a))"
    using y keys_ok_row_is [OF assms(2) y(1)] by (simp add: update_matches_def)
  have "\<not> update_matches env b (update_row env a x)" if x: "x \<in> set (st ?o)" for x
  proof
    assume m: "update_matches env b (update_row env a x)"
    obtain n where n: "row_id x = VStr n" using keys_ok_table(2) [OF assms(2) x] by blast
    have "n = rec_ID (mc_Record a)"
      using m row_is_id [of "update_row env a x" n] n update_row_id [OF assms(1)] assms(6)
      by (simp add: update_matches_def)
    with n yid have "row_id x = row_id y" by simp
    then have "x = y"
      using x y(1) keys_ok_table(1) [OF assms(2), of ?o] by (simp add: distinct_map inj_on_def)
    then have "data_get (update_row env a x) ''updated_at'' = VStr (rec_UpdatedAt (mc_Record a))"
      using y(2) by (simp add: update_row_def update_columns_own [OF assms(1)])
    with m assms(7,8,10) show False
      by (simp add: update_matches_def optimistic_holds_def sql_equal_def)
  qed
  then show ?thesis using st' by (simp add: apply_update [OF assms(4)] assms(5))
qed

subsection \<open>An example store\<close>

definition example_store_env :: store_env where
  "example_store_env = \<lparr> se_Fields = (\<lambda>_. [''status'', ''qty'']), se_Encode = (\<lambda>_ _. dbValue),
     se_SystemOwned = (\<lambda>k. k \<in> set own_columns), se_WriteAllowed = (\<lambda>_ _. True),
     se_ExtInfo = (\<lambda>_. ''{}''), se_UpdateMany = (\<lambda>c st. Inr st) \<rparr>"

definition example_record :: "string \<Rightarrow> data \<Rightarrow> Record" where
  "example_record stamp d = \<lparr> rec_ID = ''r1'', rec_Data = d, rec_CreatedAt = ''t0'', rec_UpdatedAt = stamp,
     rec_Deleted = False, rec_ExtInfo = None, rec_CreateBy = [], rec_UpdateBy = [], rec_OwnerUserID = [],
     rec_OwnerOrgID = [] \<rparr>"

definition example_update :: "string \<Rightarrow> data \<Rightarrow> RecordMutationCommit" where
  "example_update stamp d = \<lparr> mc_Operation = ''update'', mc_Object = ''order'', mc_Record = example_record stamp d,
     mc_RecordID = [], mc_ExpectedUpdatedAt = ''t0'', mc_OptimisticExpectedUpdatedAt = [],
     mc_Conditions = [(''status'', VStr ''open'')] \<rparr>"

definition example_store :: store where
  "example_store = (\<lambda>object. if object = ''order'' then [[(''id'', VStr ''r1''), (''created_at'', VStr ''t0''),
     (''updated_at'', VStr ''t0''), (''status'', VStr ''open''), (''qty'', VInt64 3)]] else [])"

definition example_store' :: store where
  "example_store' = (\<lambda>object. if object = ''order'' then [[(''id'', VStr ''r1''), (''created_at'', VStr ''t0''),
     (''updated_at'', VStr ''t1''), (''status'', VStr ''open''), (''qty'', VInt64 4)]] else [])"

lemma example_env_ok: "env_ok example_store_env" "update_many_ok example_store_env"
  by (simp_all add: env_ok_def update_many_ok_def example_store_env_def list_all_iff)

lemma example_keys_ok: "keys_ok example_store"
  by (simp add: keys_ok_def example_store_def row_id_def map_get_def)

lemma example_update_facts:
  "is_update (example_update stamp d)" "mc_Object (example_update stamp d) = ''order''"
  "rec_ID (mc_Record (example_update stamp d)) = ''r1''"
  "rec_UpdatedAt (mc_Record (example_update stamp d)) = stamp"
  "trim_space (OptimisticUpdatedAt (example_update stamp d)) = ''t0''"
proof -
  have t: "trim_space ''update'' = ''update''" "trim_space ''t0'' = ''t0''" by code_simp+
  show "is_update (example_update stamp d)" "mc_Object (example_update stamp d) = ''order''"
    "rec_ID (mc_Record (example_update stamp d)) = ''r1''"
    "rec_UpdatedAt (mc_Record (example_update stamp d)) = stamp"
    "trim_space (OptimisticUpdatedAt (example_update stamp d)) = ''t0''"
    by (simp_all add: is_update_def example_update_def example_record_def OptimisticUpdatedAt_def t)
qed

lemma example_update_applies:
  "applyRecordMutationTx example_store_env (example_update ''t1'' [(''qty'', VInt 4)]) example_store = Inr example_store'"
proof -
  let ?c = "example_update ''t1'' [(''qty'', VInt 4)]"
  let ?rows = "example_store ''order''"
  have m: "list_ex (update_matches example_store_env ?c) ?rows" by code_simp
  have r: "map (update_row example_store_env ?c) ?rows = example_store' ''order''" by code_simp
  have "example_store(''order'' := example_store' ''order'') = example_store'"
    by (simp add: example_store_def example_store'_def fun_eq_iff)
  with m r show ?thesis
    by (simp add: apply_update example_update_facts list_ex_iff)
qed


theorem update_commit_effect_witness:
  "\<exists>k < length (example_store ''order'').
     row_id (example_store ''order'' ! k) = VStr ''r1'' \<and>
     data_get (example_store' ''order'' ! k) ''updated_at'' = VStr ''t1''"
  using update_commit_effect [OF example_env_ok(1) example_keys_ok example_update_facts(1) example_update_applies]
  by (auto simp: Let_def example_update_facts)

theorem optimistic_no_lost_update_witness:
  "applyRecordMutationTx example_store_env (example_update ''t2'' [(''qty'', VInt 9)]) example_store' =
     Inl (MutationConflict ''order'' ''r1'' ConflictOptimistic)"
  using optimistic_no_lost_update [OF example_env_ok(1) example_keys_ok example_update_facts(1)
      example_update_facts(1) _ _ example_update_facts(5) _ example_update_applies,
      of "''t2''" "[(''qty'', VInt 9)]"]
  by (simp add: example_update_facts)

end
