(* ===== verification/Record_Timer_Policy.thy ===== *)
theory Record_Timer_Policy
  imports Business_Calendar Record_Store
begin

text \<open>
  Record timers, the policy (\<open>runtime/domain/recordtimer/policy/record_timer_policy.go\<close>): the
  calendar catalog, resolution, normalization and validation of a schedule, the retry delay and
  the preparation of a claim.

  \<open>time.LoadLocation\<close> is \<open>load\<close>; \<open>json.Unmarshal\<close> into a map is \<open>json\<close> (\<open>None\<close> for an error,
  \<open>Some None\<close> for a nil map). The context checks are numbered: 0 in the catalog, \<open>i + 1\<close> for the
  \<open>i\<close>-th check of \<open>AddBusinessDuration\<close>. The retry loop runs at most \<open>attempt - 1\<close> times.
\<close>

subsection \<open>Data\<close>

record Schedule =
  sc_TimerKey :: string
  sc_ObjectKey :: string
  sc_RecordID :: string
  sc_Purpose :: string
  sc_ScheduleMode :: string
  sc_DueAt :: int
  sc_SourceField :: string
  sc_OffsetSeconds :: int
  sc_Timezone :: string
  sc_BusinessCalendarKey :: string
  sc_BusinessCalendarRevision :: string
  sc_TargetType :: string
  sc_TargetKey :: string
  sc_PayloadJSON :: string
  sc_Priority :: int
  sc_Sequence :: int
  sc_MaxAttempts :: int
  sc_RetryDelaySeconds :: int
  sc_RetryMaxDelaySeconds :: int
  sc_SupersedesTimerID :: string

record Lease =
  le_Record :: Record
  le_Owner :: string
  le_Token :: int

definition policyError :: "string \<Rightarrow> app_error" where
  "policyError code = \<lparr> err_Kind = KindBadRequest, err_Code = code, err_Params = [] \<rparr>"

definition intValue :: "gval \<Rightarrow> int \<Rightarrow> int" where
  "intValue v fallback = (case atoi (sprint_trim v) of Some i \<Rightarrow> i | None \<Rightarrow> fallback)"

subsection \<open>The calendar catalog\<close>

datatype catalog_error = CatalogInvalid nat ValidationError | CatalogDuplicate string

type_synonym catalog = "(string \<times> BusinessCalendarSchema) list"

fun catalog_from :: "(string \<Rightarrow> location option) \<Rightarrow> nat \<Rightarrow> catalog \<Rightarrow> BusinessCalendarSchema list \<Rightarrow>
    catalog_error + catalog" where
  "catalog_from load index definitions [] = Inr definitions"
| "catalog_from load index definitions (v # rest) = (let calendar = Normalize v in
     (case Validate load calendar of
        Some e \<Rightarrow> Inl (CatalogInvalid index e)
      | None \<Rightarrow> if map_has definitions (cal_Key calendar) then Inl (CatalogDuplicate (cal_Key calendar))
          else catalog_from load (Suc index) (AList.update (cal_Key calendar) calendar definitions) rest))"

definition NewBusinessCalendarCatalog ::
    "(string \<Rightarrow> location option) \<Rightarrow> BusinessCalendarSchema list \<Rightarrow> catalog_error + catalog" where
  "NewBusinessCalendarCatalog load values = catalog_from load 0 [] values"

datatype resolve_error = ResolveContext | CatalogUnavailable | UnknownCalendar string

text \<open>A nil catalog is \<open>None\<close>.\<close>

definition catalog_Resolve ::
    "catalog option \<Rightarrow> bool \<Rightarrow> string \<Rightarrow> resolve_error + BusinessCalendarSchema" where
  "catalog_Resolve c cancelled key =
     (if cancelled then Inl ResolveContext
      else (case c of
          None \<Rightarrow> Inl CatalogUnavailable
        | Some definitions \<Rightarrow> (case map_of definitions (trim_space key) of
            None \<Rightarrow> Inl (UnknownCalendar key) | Some v \<Rightarrow> Inr v)))"

subsection \<open>Schedules\<close>

text \<open>A trimmed text with its default, and a number whose zero means the default.\<close>

definition text_or :: "string \<Rightarrow> string \<Rightarrow> string" where
  "text_or s d = (if trim_space s = [] then d else trim_space s)"

definition int_or :: "int \<Rightarrow> int \<Rightarrow> int" where
  "int_or i d = (if i = 0 then d else i)"

definition NormalizeSchedule :: "Schedule \<Rightarrow> Schedule" where
  "NormalizeSchedule q = (let mode = text_or (sc_ScheduleMode q) ''absolute'' in
     q \<lparr> sc_TimerKey := trim_space (sc_TimerKey q), sc_ObjectKey := trim_space (sc_ObjectKey q),
       sc_RecordID := trim_space (sc_RecordID q), sc_Purpose := trim_space (sc_Purpose q),
       sc_ScheduleMode := mode, sc_SourceField := trim_space (sc_SourceField q),
       sc_Timezone := text_or (sc_Timezone q) (if mode = ''business_calendar'' then [] else ''UTC''),
       sc_BusinessCalendarKey := trim_space (sc_BusinessCalendarKey q),
       sc_BusinessCalendarRevision := trim_space (sc_BusinessCalendarRevision q),
       sc_TargetType := trim_space (sc_TargetType q), sc_TargetKey := trim_space (sc_TargetKey q),
       sc_PayloadJSON := text_or (sc_PayloadJSON q) ''{}'',
       sc_SupersedesTimerID := trim_space (sc_SupersedesTimerID q),
       sc_MaxAttempts := int_or (sc_MaxAttempts q) 10,
       sc_RetryDelaySeconds := int_or (sc_RetryDelaySeconds q) 1,
       sc_RetryMaxDelaySeconds := int_or (sc_RetryMaxDelaySeconds q) 60 \<rparr>)"

text \<open>The calendar part of \<open>ResolveSchedule\<close>: the pinned request and the calendar it uses.\<close>

definition pin_calendar ::
    "(bool \<Rightarrow> string \<Rightarrow> resolve_error + BusinessCalendarSchema) option \<Rightarrow> bool \<Rightarrow> Schedule \<Rightarrow>
       app_error + (Schedule \<times> BusinessCalendarSchema option)" where
  "pin_calendar calendar cancelled q =
     (if sc_ScheduleMode q \<noteq> ''business_calendar'' then Inr (q, None)
      else (case calendar of
          None \<Rightarrow> Inl (policyError ''backend.record_timer.business_calendar_required'')
        | Some resolve \<Rightarrow> (case resolve cancelled (sc_BusinessCalendarKey q) of
            Inl e \<Rightarrow> Inl (policyError ''backend.record_timer.business_calendar_invalid'')
          | Inr definition \<Rightarrow>
              if sc_BusinessCalendarRevision q \<noteq> [] \<and> sc_BusinessCalendarRevision q \<noteq> cal_Revision definition
                then Inl (policyError ''backend.record_timer.business_calendar_revision_mismatch'')
              else if sc_Timezone q \<noteq> [] \<and> sc_Timezone q \<noteq> cal_Timezone definition
                then Inl (policyError ''backend.record_timer.business_calendar_timezone_mismatch'')
              else Inr (q \<lparr> sc_BusinessCalendarRevision := cal_Revision definition,
                sc_Timezone := cal_Timezone definition \<rparr>, Some definition))))"

definition reads_source :: "Schedule \<Rightarrow> bool" where
  "reads_source q \<longleftrightarrow> sc_ScheduleMode q = ''relative_field'' \<or>
     sc_ScheduleMode q = ''business_calendar'' \<and> sc_SourceField q \<noteq> []"

definition schedule_base :: "Schedule \<Rightarrow> Record \<Rightarrow> app_error + int" where
  "schedule_base q source = (if reads_source q
     then (case parse_rfc3339 (sprint_trim (data_get (rec_Data source) (sc_SourceField q))) of
         None \<Rightarrow> Inl (policyError ''backend.record_timer.source_datetime_invalid'')
       | Some base \<Rightarrow> Inr base)
     else Inr (sc_DueAt q))"

definition offset_duration :: "Schedule \<Rightarrow> int" where
  "offset_duration q = wrap64 (sc_OffsetSeconds q * second)"

definition ResolveSchedule ::
    "(string \<Rightarrow> location option) \<Rightarrow> (nat \<Rightarrow> bool) \<Rightarrow> Schedule \<Rightarrow> Record \<Rightarrow>
       (bool \<Rightarrow> string \<Rightarrow> resolve_error + BusinessCalendarSchema) option \<Rightarrow> app_error + Schedule" where
  "ResolveSchedule load ctx q0 source calendar =
     (case pin_calendar calendar (ctx 0) (NormalizeSchedule q0) of
        Inl e \<Rightarrow> Inl e
      | Inr (q, definition) \<Rightarrow>
          if load (sc_Timezone q) = None then Inl (policyError ''backend.record_timer.timezone_invalid'')
          else (case schedule_base q source of
              Inl e \<Rightarrow> Inl e
            | Inr base \<Rightarrow>
                if sc_ScheduleMode q = ''relative_field''
                  then Inr (q \<lparr> sc_DueAt := base + offset_duration q \<rparr>)
                else (case definition of
                    None \<Rightarrow> Inr q
                  | Some cal \<Rightarrow> (case AddBusinessDuration load (\<lambda>i. ctx (Suc i)) cal base (offset_duration q) of
                      Inl e \<Rightarrow> Inl (policyError ''backend.record_timer.business_calendar_invalid'')
                    | Inr due \<Rightarrow> Inr (q \<lparr> sc_DueAt := due \<rparr>)))))"

definition MaximumPayloadJSONBytes :: int where
  "MaximumPayloadJSONBytes = 65536"

definition ValidateSchedule ::
    "(string \<Rightarrow> location option) \<Rightarrow> (string \<Rightarrow> data option option) \<Rightarrow> Schedule \<Rightarrow> err" where
  "ValidateSchedule load json q =
     (if sc_TimerKey q = [] \<or> sc_ObjectKey q = [] \<or> sc_RecordID q = [] \<or> sc_Purpose q = [] \<or>
         sc_TargetKey q = [] \<or> sc_DueAt q = zero_time
        then Some (policyError ''backend.record_timer.required'')
      else if sc_ScheduleMode q \<noteq> ''absolute'' \<and> sc_ScheduleMode q \<noteq> ''relative_field'' \<and>
         sc_ScheduleMode q \<noteq> ''business_calendar''
        then Some (policyError ''backend.record_timer.schedule_mode_invalid'')
      else if sc_ScheduleMode q = ''relative_field'' \<and> sc_SourceField q = [] \<or>
         sc_ScheduleMode q = ''business_calendar'' \<and>
           (sc_BusinessCalendarKey q = [] \<or> sc_BusinessCalendarRevision q = [])
        then Some (policyError ''backend.record_timer.schedule_source_required'')
      else if sc_TargetType q \<noteq> ''action'' \<and> sc_TargetType q \<noteq> ''workflow''
        then Some (policyError ''backend.record_timer.target_invalid'')
      else if int (length (sc_PayloadJSON q)) > MaximumPayloadJSONBytes \<or>
         json (sc_PayloadJSON q) = None \<or> json (sc_PayloadJSON q) = Some None
        then Some (policyError ''backend.record_timer.payload_invalid'')
      else if sc_MaxAttempts q < 1 \<or> sc_MaxAttempts q > 100 \<or> sc_RetryDelaySeconds q < 1 \<or>
         sc_RetryMaxDelaySeconds q < sc_RetryDelaySeconds q \<or> sc_RetryMaxDelaySeconds q > 86400
        then Some (policyError ''backend.record_timer.retry_policy_invalid'')
      else if load (sc_Timezone q) = None then Some (policyError ''backend.record_timer.timezone_invalid'')
      else None)"

subsection \<open>Retry delay\<close>

fun retry_loop :: "nat \<Rightarrow> int \<Rightarrow> int \<Rightarrow> int" where
  "retry_loop 0 maximum delay = delay"
| "retry_loop (Suc n) maximum delay =
     (if delay < maximum then (let d = wrap64 (delay * 2) in
        retry_loop n maximum (if d > maximum then maximum else d))
      else delay)"

definition RetryDelay :: "Record \<Rightarrow> int" where
  "RetryDelay r = (let
     base = intValue (data_get (rec_Data r) ''retry_delay_seconds'') 1;
     maximum = intValue (data_get (rec_Data r) ''retry_max_delay_seconds'') 60;
     attempt = intValue (data_get (rec_Data r) ''attempt'') 1
   in wrap64 (retry_loop (nat (attempt - 1)) maximum base * second))"

subsection \<open>Claims\<close>

definition PrepareClaim :: "Record \<Rightarrow> string \<Rightarrow> int \<Rightarrow> int \<Rightarrow> (Record \<times> Lease \<times> data) option" where
  "PrepareClaim candidate owner now leaseTTL = (let
     previousStatus = sprint_trim (data_get (rec_Data candidate) ''status'');
     previousLeaseExpires = sprint_trim (data_get (rec_Data candidate) ''lease_expires_at'')
   in if previousStatus = ''leased'' \<and> (case parse_rfc3339 previousLeaseExpires of
          None \<Rightarrow> True | Some expiresAt \<Rightarrow> expiresAt > now) then None
      else (let
          previousToken = intValue (data_get (rec_Data candidate) ''fencing_token'') 0;
          d1 = AList.update ''status'' (VStr ''leased'') (rec_Data candidate);
          d2 = AList.update ''lease_owner'' (VStr owner) d1;
          d3 = AList.update ''lease_expires_at'' (VStr (format_rfc3339nano (now + leaseTTL))) d2;
          d4 = AList.update ''fencing_token'' (VInt (wrap64 (previousToken + 1))) d3;
          d5 = AList.update ''attempt'' (VInt (wrap64 (intValue (data_get d4 ''attempt'') 0 + 1))) d4;
          updated = candidate \<lparr> rec_Data := d5, rec_UpdatedAt := format_rfc3339nano now \<rparr>;
          conditions = [(''status'', VStr previousStatus), (''fencing_token'', VInt previousToken)] @
            (if previousStatus = ''leased'' then [(''lease_expires_at'', VStr previousLeaseExpires)] else [])
        in Some (updated, \<lparr> le_Record = updated, le_Owner = owner, le_Token = wrap64 (previousToken + 1) \<rparr>,
             conditions)))"

subsection \<open>Normalization\<close>

definition schedule_canonical :: "Schedule \<Rightarrow> bool" where
  "schedule_canonical q \<longleftrightarrow> trimmed (sc_TimerKey q) \<and> trimmed (sc_ObjectKey q) \<and> trimmed (sc_RecordID q) \<and>
     trimmed (sc_Purpose q) \<and> trimmed (sc_ScheduleMode q) \<and> trimmed (sc_SourceField q) \<and>
     trimmed (sc_Timezone q) \<and> trimmed (sc_BusinessCalendarKey q) \<and> trimmed (sc_BusinessCalendarRevision q) \<and>
     trimmed (sc_TargetType q) \<and> trimmed (sc_TargetKey q) \<and> trimmed (sc_PayloadJSON q) \<and>
     trimmed (sc_SupersedesTimerID q) \<and> sc_ScheduleMode q \<noteq> [] \<and>
     (sc_Timezone q \<noteq> [] \<or> sc_ScheduleMode q = ''business_calendar'') \<and> sc_PayloadJSON q \<noteq> [] \<and>
     sc_MaxAttempts q \<noteq> 0 \<and> sc_RetryDelaySeconds q \<noteq> 0 \<and> sc_RetryMaxDelaySeconds q \<noteq> 0"

lemma default_texts_trimmed: "trimmed ''absolute''" "trimmed ''UTC''" "trimmed ''{}''" "trimmed []"
  by code_simp+

lemma text_or_trimmed: "trimmed d \<Longrightarrow> trimmed (text_or s d)"
  by (simp add: text_or_def)

lemma text_or_nonempty: "d \<noteq> [] \<Longrightarrow> text_or s d \<noteq> []"
  by (simp add: text_or_def)

lemma text_or_fixed: "trimmed s \<Longrightarrow> s \<noteq> [] \<Longrightarrow> text_or s d = s" "text_or [] d = d"
  by (simp_all add: text_or_def default_texts_trimmed)

lemma int_or_nonzero: "d \<noteq> 0 \<Longrightarrow> int_or i d \<noteq> 0"
  by (simp add: int_or_def)

lemma int_or_fixed: "i \<noteq> 0 \<Longrightarrow> int_or i d = i"
  by (simp add: int_or_def)

interpretation schedule_normal: normalizer NormalizeSchedule schedule_canonical
proof
  fix q
  show "schedule_canonical (NormalizeSchedule q)"
    by (simp add: schedule_canonical_def NormalizeSchedule_def Let_def default_texts_trimmed
        text_or_trimmed text_or_nonempty int_or_nonzero)
next
  fix q
  assume c: "schedule_canonical q"
  then have m: "text_or (sc_ScheduleMode q) ''absolute'' = sc_ScheduleMode q"
    "text_or (sc_PayloadJSON q) ''{}'' = sc_PayloadJSON q"
    by (simp_all add: schedule_canonical_def text_or_fixed)
  have z: "text_or (sc_Timezone q) (if sc_ScheduleMode q = ''business_calendar'' then [] else ''UTC'') = sc_Timezone q"
    using c by (cases "sc_Timezone q = []") (simp_all add: schedule_canonical_def text_or_fixed)
  show "NormalizeSchedule q = q"
    using c unfolding NormalizeSchedule_def m Let_def z
    by (simp add: schedule_canonical_def int_or_fixed)
qed

subsection \<open>The retry delay in closed form\<close>

lemma scale_le: "0 \<le> (b :: int) \<Longrightarrow> b \<le> b * 2 ^ n"
  using mult_left_mono [of 1 "2 ^ n" b] by simp

lemma retry_loop_closed:
  assumes "1 \<le> base" "base \<le> maximum" "maximum < 2 ^ 62"
  shows "retry_loop n maximum base = min maximum (base * 2 ^ n)"
  using assms
proof (induction n arbitrary: base)
  case (Suc n)
  show ?case
  proof (cases "base < maximum")
    case True
    have w: "wrap64 (base * 2) = base * 2"
      using True Suc.prems by (intro wrap64_in) (simp add: in_int64_def)
    show ?thesis
    proof (cases "base * 2 > maximum")
      case big: True
      have "maximum \<le> base * 2 ^ Suc n"
      proof -
        have "base * 2 \<le> base * 2 * 2 ^ n" using Suc.prems(1) by (intro scale_le) simp
        then show ?thesis using big unfolding power_Suc mult.assoc by linarith
      qed
      moreover have "retry_loop n maximum maximum = maximum" by (cases n) auto
      ultimately show ?thesis using True big w by (simp add: Let_def min_absorb1)
    next
      case False
      with Suc.IH [of "base * 2"] Suc.prems True w show ?thesis by (simp add: Let_def mult.assoc)
    qed
  next
    case False
    then have "maximum = base" using Suc.prems(2) by simp
    moreover have "base \<le> base * 2 ^ Suc n" using Suc.prems(1) by (intro scale_le) simp
    ultimately show ?thesis by (simp only: retry_loop.simps min_absorb1 if_False less_irrefl)
  qed
qed simp

text \<open>
  The retry delay of a timer whose retry settings passed \<open>ValidateSchedule\<close> is capped
  exponential backoff, \<open>min(maximum, base * 2^(attempt - 1))\<close> seconds: the loop equals the closed
  form, never overflows and never exceeds a day.
\<close>

theorem retry_delay_closed_form:
  assumes "ValidateSchedule load json q = None"
    and "intValue (data_get (rec_Data r) ''retry_delay_seconds'') 1 = sc_RetryDelaySeconds q"
    and "intValue (data_get (rec_Data r) ''retry_max_delay_seconds'') 60 = sc_RetryMaxDelaySeconds q"
    and "intValue (data_get (rec_Data r) ''attempt'') 1 = attempt" "1 \<le> attempt"
  shows "RetryDelay r =
      min (sc_RetryMaxDelaySeconds q) (sc_RetryDelaySeconds q * 2 ^ nat (attempt - 1)) * second \<and>
    second \<le> RetryDelay r \<and> RetryDelay r \<le> day"
proof -
  let ?b = "sc_RetryDelaySeconds q" and ?m = "sc_RetryMaxDelaySeconds q"
  have v: "1 \<le> ?b" "?b \<le> ?m" "?m \<le> 86400"
    using assms(1) unfolding ValidateSchedule_def by (simp_all split: if_splits)
  define d where "d = min ?m (?b * 2 ^ nat (attempt - 1))"
  have "?b \<le> ?b * 2 ^ nat (attempt - 1)" using v(1) by (intro scale_le) simp
  with v have d: "1 \<le> d" "d \<le> 86400" unfolding d_def by linarith+
  have "retry_loop (nat (attempt - 1)) ?m ?b = d"
    unfolding d_def using v by (intro retry_loop_closed) auto
  moreover have "wrap64 (d * second) = d * second"
    using d by (intro wrap64_in) (simp add: in_int64_def second_def)
  ultimately have "RetryDelay r = d * second"
    unfolding RetryDelay_def Let_def assms(2-4) by simp
  then show ?thesis using d by (simp add: d_def [symmetric] time_units)
qed

subsection \<open>The catalog\<close>

definition catalog_ok :: "(string \<Rightarrow> location option) \<Rightarrow> catalog \<Rightarrow> bool" where
  "catalog_ok load c \<longleftrightarrow> (\<forall>(key, cal) \<in> set c. cal_Key cal = key \<and> Normalize cal = cal \<and> Validate load cal = None)"

lemma catalog_from_ok:
  "catalog_from load i c vs = Inr c' \<Longrightarrow> catalog_ok load c \<Longrightarrow> catalog_ok load c'"
proof (induction load i c vs rule: catalog_from.induct)
  case (2 load index definitions v rest)
  from "2.prems" have ok: "Validate load (Normalize v) = None" "\<not> map_has definitions (cal_Key (Normalize v))"
    "catalog_from load (Suc index) (AList.update (cal_Key (Normalize v)) (Normalize v) definitions) rest = Inr c'"
    by (auto simp: Let_def split: option.splits if_splits)
  have "catalog_ok load (AList.update (cal_Key (Normalize v)) (Normalize v) definitions)"
    using ok(1,2) "2.prems"(2)
    by (auto simp: update_fresh map_has_iff catalog_ok_def calendar_normal.normalize_idem)
  with "2.IH" [OF refl ok(1,2,3)] show ?case by blast
qed simp

lemma catalog_resolve_ok:
  assumes "NewBusinessCalendarCatalog load values = Inr c" "catalog_Resolve (Some c) b key = Inr cal"
  shows "cal_Key cal = trim_space key" "Normalize cal = cal" "Validate load cal = None"
proof -
  have "catalog_ok load c"
    using assms(1) catalog_from_ok [of load 0 "[]" "values" c]
    by (simp add: NewBusinessCalendarCatalog_def catalog_ok_def)
  moreover have "(trim_space key, cal) \<in> set c"
    using assms(2) by (auto simp: catalog_Resolve_def split: if_splits option.splits dest: map_of_SomeD)
  ultimately show "cal_Key cal = trim_space key" "Normalize cal = cal" "Validate load cal = None"
    by (auto simp: catalog_ok_def)
qed

end
