(* ===== verification/Go_Scan.thy ===== *)
theory Go_Scan
  imports Go_Values
begin

text \<open>
  \<open>fmt.Sscan\<close> into an \<open>int\<close> variable: after an optional sign the scanner takes a base prefix
  (\<open>0b\<close>, \<open>0o\<close>, \<open>0x\<close>, or a leading \<open>0\<close> for octal), then the longest run of digits and
  underscores, and gives the run to \<open>strconv.ParseInt\<close> with base 0; what follows the run is left
  unread and is no error. The texts scanned here are trimmed, so leading white space is not
  modelled.
\<close>

definition base_digit :: "nat \<Rightarrow> char \<Rightarrow> nat option" where
  "base_digit b c = (let n = (of_char c :: nat);
     v = (if 48 \<le> n \<and> n \<le> 57 then n - 48
          else if 97 \<le> n \<and> n \<le> 102 then n - 87
          else if 65 \<le> n \<and> n \<le> 70 then n - 55 else 16)
   in if v < b then Some v else None)"

definition scan_run :: "nat \<Rightarrow> string \<Rightarrow> string" where
  "scan_run b s = takeWhile (\<lambda>c. c = CHR ''_'' \<or> base_digit b c \<noteq> None) s"

text \<open>An underscore follows a digit or the base prefix and is followed by a digit.\<close>

fun underscores_ok :: "bool \<Rightarrow> string \<Rightarrow> bool" where
  "underscores_ok after_digit [] = True"
| "underscores_ok after_digit (c # cs) =
     (if c = CHR ''_'' then after_digit \<and> cs \<noteq> [] \<and> underscores_ok False cs
      else underscores_ok True cs)"

fun run_value :: "nat \<Rightarrow> nat \<Rightarrow> string \<Rightarrow> nat" where
  "run_value b acc [] = acc"
| "run_value b acc (c # cs) =
     run_value b (case base_digit b c of None \<Rightarrow> acc | Some d \<Rightarrow> b * acc + d) cs"

definition run_number :: "nat \<Rightarrow> bool \<Rightarrow> string \<Rightarrow> nat option" where
  "run_number b prefixed s = (let r = scan_run b s in
     if underscores_ok prefixed r then Some (run_value b 0 r) else None)"

definition sscan_nat :: "string \<Rightarrow> nat option" where
  "sscan_nat s = (case s of
      [] \<Rightarrow> None
    | c # cs \<Rightarrow>
        if c = CHR ''0'' then (case cs of
            [] \<Rightarrow> Some 0
          | p # ps \<Rightarrow>
              if p \<in> set ''bB'' then (if scan_run 2 ps = [] then None else run_number 2 True ps)
              else if p \<in> set ''oO'' then (if scan_run 8 ps = [] then None else run_number 8 True ps)
              else if p \<in> set ''xX'' then (if scan_run 16 ps = [] then None else run_number 16 True ps)
              else run_number 8 True cs)
        else if scan_run 10 s = [] then None else run_number 10 False s)"

definition sscan_int :: "string \<Rightarrow> int option" where
  "sscan_int s = (let
     i = (case s of
         [] \<Rightarrow> None
       | c # cs \<Rightarrow> if c = CHR ''-'' then map_option (\<lambda>n. - int n) (sscan_nat cs)
                   else if c = CHR ''+'' then map_option int (sscan_nat cs)
                   else map_option int (sscan_nat s))
   in (case i of Some n \<Rightarrow> if in_int64 n then Some n else None | None \<Rightarrow> None))"

text \<open>A printed number reads back.\<close>

lemma base_digit_char: "d < 10 \<Longrightarrow> base_digit 10 (digit_char d) = Some d"
  by (simp add: base_digit_def digit_char_code)

lemma digit_char_not_underscore: "d < 10 \<Longrightarrow> digit_char d \<noteq> CHR ''_''"
proof
  assume d: "d < 10" "digit_char d = CHR ''_''"
  then have "(of_char (CHR ''_'') :: nat) = 48 + d" using digit_char_code [OF d(1)] by simp
  with d(1) show False by simp
qed

lemma run_value_append: "run_value b acc (xs @ ys) = run_value b (run_value b acc xs) ys"
  by (induction xs arbitrary: acc) (auto split: option.splits)

lemma run_value_nat_str: "run_value 10 0 (nat_str n) = n"
proof (induction n rule: nat_str.induct)
  case (1 n)
  show ?case
  proof (cases "n < 10")
    case True
    then show ?thesis by (simp add: nat_str.simps [of n] base_digit_char)
  next
    case False
    with 1 show ?thesis
      by (simp add: nat_str.simps [of n] run_value_append base_digit_char)
  qed
qed

lemma nat_str_scan: "scan_run 10 (nat_str n) = nat_str n"
  unfolding scan_run_def takeWhile_eq_all_conv
  using nat_str_digits base_digit_char by fastforce

lemma underscores_ok_digits: "CHR ''_'' \<notin> set s \<Longrightarrow> underscores_ok b s"
  by (induction s arbitrary: b) auto

lemma nat_str_no_underscore: "CHR ''_'' \<notin> set (nat_str n)"
  using nat_str_digits digit_char_not_underscore by metis

lemma nat_str_leading_zero: "0 < n \<Longrightarrow> hd (nat_str n) \<noteq> CHR ''0''"
proof (induction n rule: nat_str.induct)
  case (1 n)
  show ?case
  proof (cases "n < 10")
    case True
    have "digit_char n \<noteq> CHR ''0''"
    proof
      assume "digit_char n = CHR ''0''"
      then have "(of_char (CHR ''0'') :: nat) = 48 + n" using digit_char_code [OF True] by simp
      with "1.prems" show False by simp
    qed
    with True show ?thesis by (simp add: nat_str.simps [of n])
  next
    case False
    with 1 show ?thesis by (simp add: nat_str.simps [of n])
  qed
qed

lemma sscan_nat_str [simp]: "sscan_nat (nat_str n) = Some n"
proof (cases "n = 0")
  case True
  have "nat_str 0 = ''0''" by code_simp
  with True show ?thesis by (simp add: sscan_nat_def)
next
  case False
  then obtain c cs where s: "nat_str n = c # cs" "c \<noteq> CHR ''0''"
    using nat_str_leading_zero [of n] nat_str_nonempty [of n] by (cases "nat_str n") auto
  then have "sscan_nat (nat_str n) = (if scan_run 10 (nat_str n) = [] then None else run_number 10 False (nat_str n))"
    by (simp add: sscan_nat_def)
  then show ?thesis
    by (simp add: nat_str_scan run_number_def Let_def run_value_nat_str underscores_ok_digits nat_str_no_underscore)
qed

lemma sscan_itoa [simp]: "in_int64 i \<Longrightarrow> sscan_int (itoa i) = Some i"
proof (cases "i < 0")
  case True
  assume "in_int64 i"
  with True show ?thesis by (simp add: sscan_int_def itoa_def)
next
  case False
  assume "in_int64 i"
  moreover obtain c cs where s: "nat_str (nat i) = c # cs" "c \<noteq> CHR ''-''" "c \<noteq> CHR ''+''"
    using nat_str_hd [of "nat i"] nat_str_nonempty [of "nat i"] by (cases "nat_str (nat i)") auto
  moreover have "sscan_nat (c # cs) = Some (nat i)" using sscan_nat_str [of "nat i"] s(1) by simp
  ultimately show ?thesis using False by (simp add: sscan_int_def itoa_def)
qed

lemma sscan_int_range: "sscan_int s = Some i \<Longrightarrow> in_int64 i"
  by (auto simp: sscan_int_def Let_def split: option.splits if_splits)

end
