(* ===== verification/Record_Timer.thy ===== *)
theory Record_Timer
  imports Record_Timer_Policy Fenced_Lease Go_Scan "HOL-Library.Multiset"
begin

text \<open>
  Record timers, the application service (\<open>runtime/application/recordtimer\<close>): building, claiming,
  finishing, failing, cancelling and recovering timers, and the dispatch over workspaces, on the
  record store of \<open>Record_Store\<close>.

  What the service gets from outside is in \<open>timer_env\<close>: the schema objects it may use, the clock,
  the worker's configuration and name, \<open>sha256\<close> in hexadecimal, the JSON decoder, the two list
  queries of a claim (their filters and sort order are the database's work), the text and code of
  an execution error, and the target runtime that executes a timer. The two locks of the service
  are not modelled: the dispatch cursor is a state that is passed on.
\<close>

subsection \<open>The timer objects\<close>

definition recordTimerObject :: "(string \<times> string) list" where
  "recordTimerObject = [(''timer_key'', ''text''), (''object_key'', ''text''), (''record_id'', ''text''),
     (''purpose'', ''text''), (''status'', ''select''), (''schedule_mode'', ''select''), (''due_at'', ''datetime''),
     (''source_field'', ''text''), (''offset_seconds'', ''number''), (''timezone'', ''text''),
     (''business_calendar_key'', ''text''), (''business_calendar_revision'', ''text''),
     (''target_type'', ''select''), (''target_key'', ''text''), (''payload_json'', ''long_text''),
     (''priority'', ''number''), (''sequence'', ''number''), (''lease_owner'', ''text''),
     (''lease_expires_at'', ''datetime''), (''fencing_token'', ''number''), (''attempt'', ''number''),
     (''max_attempts'', ''number''), (''retry_delay_seconds'', ''number''),
     (''retry_max_delay_seconds'', ''number''), (''last_error'', ''long_text''), (''failed_at'', ''datetime''),
     (''supersedes_timer_id'', ''text''), (''fired_at'', ''datetime''), (''cancelled_at'', ''datetime'')]"

definition recordTimerEventObject :: "(string \<times> string) list" where
  "recordTimerEventObject = [(''record_timer_id'', ''relation''), (''event_type'', ''select''),
     (''attempt'', ''number''), (''fencing_token'', ''number''), (''worker_id'', ''text''),
     (''error_code'', ''text''), (''message'', ''long_text''), (''next_due_at'', ''datetime'')]"

definition RecordTimerSystemObjects :: "(string \<times> (string \<times> string) list) list" where
  "RecordTimerSystemObjects = [(''record_timer'', recordTimerObject), (''record_timer_event'', recordTimerEventObject)]"

definition object_fields :: "string \<Rightarrow> (string \<times> string) list" where
  "object_fields object = map_get [] RecordTimerSystemObjects object"

text \<open>
  The store of the timer objects: none of their field types is encoded by the store, so
  \<open>dbFieldValue\<close> is \<open>dbValue\<close>.
\<close>

definition timer_store_env ::
    "(string \<Rightarrow> string \<Rightarrow> bool) \<Rightarrow> (data \<Rightarrow> string) \<Rightarrow>
       (RecordMutationCommit \<Rightarrow> store \<Rightarrow> store_error + store) \<Rightarrow> store_env" where
  "timer_store_env allowed ext many = \<lparr> se_Fields = (\<lambda>object. map fst (object_fields object)),
     se_Encode = (\<lambda>_ _. dbValue), se_SystemOwned = (\<lambda>k. k \<in> set (''workspace_id'' # own_columns)),
     se_WriteAllowed = allowed, se_ExtInfo = ext, se_UpdateMany = many \<rparr>"

text \<open>
  Reading a row back: numbers come back as \<open>float64\<close>, whose text is that of the whole number, and
  NULL columns are left out.
\<close>

definition normalizeDBValue :: "string \<Rightarrow> gval \<Rightarrow> gval" where
  "normalizeDBValue type v = (case v of VInt64 i \<Rightarrow> if type = ''number'' then VFloat (itoa i) else v | _ \<Rightarrow> v)"

definition recordStringValue :: "gval \<Rightarrow> string" where
  "recordStringValue v = (if v = VNil then [] else sprint v)"

definition record_of_row :: "string \<Rightarrow> row \<Rightarrow> Record" where
  "record_of_row object r = \<lparr> rec_ID = sprint (data_get r ''id''),
     rec_Data = [(k, normalizeDBValue (map_get [] (object_fields object) k) v). (k, v) \<leftarrow> r,
        k \<notin> set (''workspace_id'' # own_columns) \<and> v \<noteq> VNil],
     rec_CreatedAt = sprint (data_get r ''created_at''), rec_UpdatedAt = sprint (data_get r ''updated_at''),
     rec_Deleted = (data_get r ''deleted'' = VBool True), rec_ExtInfo = None,
     rec_CreateBy = recordStringValue (data_get r ''create_by''),
     rec_UpdateBy = recordStringValue (data_get r ''update_by''),
     rec_OwnerUserID = recordStringValue (data_get r ''owner_user_id''),
     rec_OwnerOrgID = recordStringValue (data_get r ''owner_org_id'') \<rparr>"

definition GetRecord :: "store \<Rightarrow> string \<Rightarrow> string \<Rightarrow> Record option" where
  "GetRecord st object i = map_option (record_of_row object) (find (row_is i) (st object))"

subsection \<open>The service\<close>

record WorkerConfig =
  wc_Enabled :: bool
  wc_PollInterval :: int
  wc_BatchSize :: int
  wc_LeaseTTL :: int

definition NormalizeWorkerConfig :: "WorkerConfig \<Rightarrow> WorkerConfig" where
  "NormalizeWorkerConfig c = c \<lparr>
     wc_PollInterval := (if wc_PollInterval c \<le> 0 then 500000000 else wc_PollInterval c),
     wc_BatchSize := (if wc_BatchSize c \<le> 0 then 25 else if wc_BatchSize c > 500 then 500 else wc_BatchSize c),
     wc_LeaseTTL := (if wc_LeaseTTL c \<le> 0 then 5 * minute else wc_LeaseTTL c) \<rparr>"

record RecordTimerExecution =
  tx_TimerID :: string
  tx_WorkspaceID :: string
  tx_ObjectKey :: string
  tx_RecordID :: string
  tx_TargetType :: string
  tx_TargetKey :: string
  tx_Payload :: data
  tx_IdempotencyKey :: string

record timer_env =
  te_Store :: store_env
  te_Objects :: "string list"
  te_Clock :: int
  te_Config :: WorkerConfig
  te_WorkerID :: string
  te_SHA256 :: "string \<Rightarrow> string"
  te_Load :: "string \<Rightarrow> location option"
  te_JSON :: "string \<Rightarrow> data option option"
  te_ListScheduled :: "store \<Rightarrow> string \<Rightarrow> int \<Rightarrow> Record list option"
  te_ListExpired :: "store \<Rightarrow> string \<Rightarrow> int \<Rightarrow> Record list option"
  te_ListCancellable :: "store \<Rightarrow> data \<Rightarrow> Record list option"
  te_ListWorkspaces :: "int \<Rightarrow> string list option"
  te_CodeOf :: "app_error \<Rightarrow> string"
  te_ErrorText :: "app_error \<Rightarrow> string"
  te_Execute :: "(RecordTimerExecution \<Rightarrow> store \<Rightarrow> store \<times> app_error option) option"

datatype timer_error = TimerApp app_error | TimerStore store_error | TimerContext

definition timerError :: "error_kind \<Rightarrow> string \<Rightarrow> (string \<times> string) list \<Rightarrow> app_error" where
  "timerError kind code params = \<lparr> err_Kind = kind, err_Code = code, err_Params = params \<rparr>"

fun param_pairs :: "(string \<times> string) list \<Rightarrow> string list \<Rightarrow> (string \<times> string) list" where
  "param_pairs values (k # v # rest) =
     param_pairs (if trim_space k = [] then values else AList.update (trim_space k) v values) rest"
| "param_pairs values _ = values"

definition recordTimerError :: "error_kind \<Rightarrow> string \<Rightarrow> string list \<Rightarrow> app_error" where
  "recordTimerError kind code params = timerError kind code (param_pairs [] params)"

definition recordTimerInternalError :: "string \<Rightarrow> app_error" where
  "recordTimerInternalError operation = recordTimerError KindInternal ''backend.internal'' [''operation'', operation]"

definition objectForPrincipal :: "timer_env \<Rightarrow> string \<Rightarrow> app_error + string" where
  "objectForPrincipal env objectKey = (if objectKey \<in> set (te_Objects env) then Inr objectKey
     else Inl (recordTimerError KindNotFound ''backend.record_timer.runtime_object_not_found'' [''object_key'', objectKey]))"

definition timer_objects :: "timer_env \<Rightarrow> app_error + string \<times> string" where
  "timer_objects env = (case objectForPrincipal env ''record_timer'' of
      Inl e \<Rightarrow> Inl e
    | Inr object \<Rightarrow> (case objectForPrincipal env ''record_timer_event'' of
        Inl e \<Rightarrow> Inl e | Inr event \<Rightarrow> Inr (object, event)))"

definition recordTimerString :: "Record \<Rightarrow> string \<Rightarrow> string" where
  "recordTimerString r key = (let v = sprint_trim (data_get (rec_Data r) key) in if v = nil_text then [] else v)"

definition recordTimerInt :: "gval \<Rightarrow> int \<Rightarrow> int" where
  "recordTimerInt v fallback = (case sscan_int (sprint_trim v) of Some i \<Rightarrow> i | None \<Rightarrow> fallback)"

definition recordTimerLimit :: "int \<Rightarrow> int" where
  "recordTimerLimit limit = (if limit \<le> 0 then 25 else if limit > 500 then 500 else limit)"

definition timer_now :: "timer_env \<Rightarrow> int \<Rightarrow> int" where
  "timer_now env now = (if now = zero_time then te_Clock env else now)"

definition leaseTTL :: "timer_env \<Rightarrow> int" where
  "leaseTTL env = wc_LeaseTTL (NormalizeWorkerConfig (te_Config env))"

definition scope_error :: app_error where
  "scope_error = recordTimerError KindForbidden ''backend.system_scope_required'' []"

subsection \<open>Commits\<close>

definition plain_commit :: "string \<Rightarrow> string \<Rightarrow> Record \<Rightarrow> data \<Rightarrow> RecordMutationCommit" where
  "plain_commit operation object r conditions = \<lparr> mc_Operation = operation, mc_Object = object, mc_Record = r,
     mc_RecordID = [], mc_ExpectedUpdatedAt = [], mc_OptimisticExpectedUpdatedAt = [], mc_Conditions = conditions \<rparr>"

definition new_record :: "string \<Rightarrow> string \<Rightarrow> data \<Rightarrow> Record" where
  "new_record i stamp d = \<lparr> rec_ID = i, rec_Data = d, rec_CreatedAt = stamp, rec_UpdatedAt = stamp,
     rec_Deleted = False, rec_ExtInfo = None, rec_CreateBy = [], rec_UpdateBy = [], rec_OwnerUserID = [],
     rec_OwnerOrgID = [] \<rparr>"

definition set_data :: "data \<Rightarrow> Record \<Rightarrow> Record" where
  "set_data assigns r = r \<lparr> rec_Data := fold (\<lambda>(k, v). AList.update k v) assigns (rec_Data r) \<rparr>"

definition recordTimerID :: "timer_env \<Rightarrow> string \<Rightarrow> Schedule \<Rightarrow> string" where
  "recordTimerID env workspaceID q = ''record_timer:'' @ take 24 (te_SHA256 env
     (str_join '':'' [trim_space workspaceID, sc_TimerKey q, sc_ObjectKey q, sc_RecordID q, sc_Purpose q]))"

definition nul :: string where
  "nul = [char_of (0 :: nat)]"

definition buildRecordTimerEventCommit ::
    "timer_env \<Rightarrow> string \<Rightarrow> Record \<Rightarrow> string \<Rightarrow> string \<Rightarrow> string \<Rightarrow> string \<Rightarrow> string \<Rightarrow> int \<Rightarrow>
       RecordMutationCommit" where
  "buildRecordTimerEventCommit env object timer eventType workerID errorCode message nextDueAt now = (let
     attempt = recordTimerInt (data_get (rec_Data timer) ''attempt'') 0;
     token = recordTimerInt (data_get (rec_Data timer) ''fencing_token'') 0;
     stamp = format_rfc3339nano now;
     hash = te_SHA256 env (str_join nul [rec_ID timer, eventType, stamp, workerID, itoa attempt, itoa token])
   in plain_commit ''create'' object (new_record (''record_timer_event_'' @ take 24 hash) stamp
       [(''record_timer_id'', VStr (rec_ID timer)), (''event_type'', VStr eventType), (''attempt'', VInt attempt),
        (''fencing_token'', VInt token), (''worker_id'', VStr (trim_space workerID)),
        (''error_code'', VStr (trim_space errorCode)), (''message'', VStr (trim_space message)),
        (''next_due_at'', VStr (trim_space nextDueAt))]) [])"

definition timer_data :: "Schedule \<Rightarrow> data" where
  "timer_data q =
     [(''timer_key'', VStr (sc_TimerKey q)), (''object_key'', VStr (sc_ObjectKey q)),
      (''record_id'', VStr (sc_RecordID q)), (''purpose'', VStr (sc_Purpose q)), (''status'', VStr ''scheduled''),
      (''schedule_mode'', VStr (sc_ScheduleMode q)), (''due_at'', VStr (format_rfc3339nano (sc_DueAt q))),
      (''source_field'', VStr (sc_SourceField q)), (''offset_seconds'', VInt (sc_OffsetSeconds q)),
      (''timezone'', VStr (sc_Timezone q)), (''business_calendar_key'', VStr (sc_BusinessCalendarKey q)),
      (''business_calendar_revision'', VStr (sc_BusinessCalendarRevision q)),
      (''target_type'', VStr (sc_TargetType q)), (''target_key'', VStr (sc_TargetKey q)),
      (''payload_json'', VStr (sc_PayloadJSON q)), (''priority'', VInt (sc_Priority q)),
      (''sequence'', VInt64 (sc_Sequence q)), (''lease_owner'', VStr []), (''lease_expires_at'', VStr []),
      (''fencing_token'', VInt 0), (''attempt'', VInt 0), (''max_attempts'', VInt (sc_MaxAttempts q)),
      (''retry_delay_seconds'', VInt (sc_RetryDelaySeconds q)),
      (''retry_max_delay_seconds'', VInt (sc_RetryMaxDelaySeconds q)), (''last_error'', VStr []),
      (''failed_at'', VStr []), (''supersedes_timer_id'', VStr (sc_SupersedesTimerID q)), (''fired_at'', VStr []),
      (''cancelled_at'', VStr [])]"

definition BuildRecordTimerMutation ::
    "timer_env \<Rightarrow> bool \<Rightarrow> string \<Rightarrow> Schedule \<Rightarrow> int \<Rightarrow> timer_error + RecordMutationCommit" where
  "BuildRecordTimerMutation env cancelled workspaceID q0 now =
     (if cancelled then Inl TimerContext
      else (let q = NormalizeSchedule q0 in (case ValidateSchedule (te_Load env) (te_JSON env) q of
          Some e \<Rightarrow> Inl (TimerApp e)
        | None \<Rightarrow> (case objectForPrincipal env ''record_timer'' of
            Inl e \<Rightarrow> Inl (TimerApp e)
          | Inr object \<Rightarrow> Inr (plain_commit ''create'' object
              (new_record (recordTimerID env workspaceID q) (format_rfc3339nano (timer_now env now)) (timer_data q)) [])))))"

definition BuildRecordTimerMutationFromSource ::
    "timer_env \<Rightarrow> (nat \<Rightarrow> bool) \<Rightarrow> string \<Rightarrow> Schedule \<Rightarrow> Record \<Rightarrow>
       (bool \<Rightarrow> string \<Rightarrow> resolve_error + BusinessCalendarSchema) option \<Rightarrow> int \<Rightarrow>
       timer_error + RecordMutationCommit" where
  "BuildRecordTimerMutationFromSource env ctx workspaceID q source calendar now =
     (case ResolveSchedule (te_Load env) ctx q source calendar of
        Inl e \<Rightarrow> Inl (TimerApp e)
      | Inr resolved \<Rightarrow> BuildRecordTimerMutation env (ctx 3663) workspaceID resolved now)"

definition Schedule_timer ::
    "timer_env \<Rightarrow> bool \<Rightarrow> (nat \<Rightarrow> bool) \<Rightarrow> string \<Rightarrow> Schedule \<Rightarrow> Record \<Rightarrow>
       (bool \<Rightarrow> string \<Rightarrow> resolve_error + BusinessCalendarSchema) option \<Rightarrow> int \<Rightarrow> store \<Rightarrow>
       store \<times> (timer_error + Record)" where
  "Schedule_timer env scope ctx workspaceID q source calendar now st =
     (if \<not> scope then (st, Inl (TimerApp scope_error))
      else (case BuildRecordTimerMutationFromSource env ctx workspaceID q source calendar now of
          Inl e \<Rightarrow> (st, Inl e)
        | Inr c \<Rightarrow> (case CommitRecordMutationBatch (te_Store env) workspaceID [c] st of
            (st', Some e) \<Rightarrow> (case GetRecord st' (mc_Object c) (rec_ID (mc_Record c)) of
                Some existing \<Rightarrow> (st', Inr existing) | None \<Rightarrow> (st', Inl (TimerStore e)))
          | (st', None) \<Rightarrow> (st', Inr (mc_Record c)))))"

definition BuildRecordTimerTerminalMutation ::
    "timer_env \<Rightarrow> Record \<Rightarrow> string \<Rightarrow> int \<Rightarrow> app_error + RecordMutationCommit" where
  "BuildRecordTimerTerminalMutation env timer terminalStatus now =
     (if terminalStatus \<noteq> ''cancelled'' \<and> terminalStatus \<noteq> ''superseded''
        then Inl (recordTimerError KindBadRequest ''backend.record_timer.terminal_status_invalid'' [])
      else (case objectForPrincipal env ''record_timer'' of
          Inl e \<Rightarrow> Inl e
        | Inr object \<Rightarrow> (let previousStatus = sprint_trim (data_get (rec_Data timer) ''status'');
              stamp = format_rfc3339nano (timer_now env now)
            in if previousStatus \<noteq> ''scheduled''
                 then Inl (recordTimerError KindConflict ''backend.record_timer.not_scheduled'' [])
               else Inr (plain_commit ''update'' object
                 ((set_data [(''status'', VStr terminalStatus), (''cancelled_at'', VStr stamp)] timer) \<lparr> rec_UpdatedAt := stamp \<rparr>)
                 [(''status'', VStr previousStatus),
                  (''fencing_token'', VInt (recordTimerInt (data_get (rec_Data timer) ''fencing_token'') 0))]))))"

definition BuildRecordTimerSupersedeMutations ::
    "timer_env \<Rightarrow> bool \<Rightarrow> string \<Rightarrow> Record \<Rightarrow> Schedule \<Rightarrow> int \<Rightarrow> timer_error + RecordMutationCommit list" where
  "BuildRecordTimerSupersedeMutations env cancelled workspaceID current replacement now =
     (case BuildRecordTimerTerminalMutation env current ''superseded'' now of
        Inl e \<Rightarrow> Inl (TimerApp e)
      | Inr terminal \<Rightarrow> (case BuildRecordTimerMutation env cancelled workspaceID
            (replacement \<lparr> sc_SupersedesTimerID := rec_ID current \<rparr>) now of
          Inl e \<Rightarrow> Inl e | Inr created \<Rightarrow> Inr [terminal, created]))"

subsection \<open>Claiming\<close>

definition claim_one ::
    "timer_env \<Rightarrow> string \<times> string \<Rightarrow> int \<Rightarrow> Record \<Rightarrow> (RecordMutationCommit list \<times> Lease) option" where
  "claim_one env objects now candidate =
     (case PrepareClaim candidate (te_WorkerID env) now (leaseTTL env) of
        None \<Rightarrow> None
      | Some (updated, lease, conditions) \<Rightarrow> Some ([plain_commit ''update'' (fst objects) updated conditions,
          buildRecordTimerEventCommit env (snd objects) updated ''claimed'' (te_WorkerID env) [] [] [] now], lease))"

fun claim_each :: "timer_env \<Rightarrow> string \<Rightarrow> (RecordMutationCommit list \<times> Lease) list \<Rightarrow> store \<Rightarrow> store \<times> Lease list" where
  "claim_each env ws [] st = (st, [])"
| "claim_each env ws ((commits, lease) # rest) st =
     (case CommitRecordMutationBatch (te_Store env) ws commits st of
        (st', None) \<Rightarrow> (let (st'', leases) = claim_each env ws rest st' in (st'', lease # leases))
      | (st', Some e) \<Rightarrow> claim_each env ws rest st')"

definition claim_candidates :: "timer_env \<Rightarrow> int \<Rightarrow> int \<Rightarrow> store \<Rightarrow> app_error + Record list" where
  "claim_candidates env now limit st = (let stamp = format_rfc3339nano now in
     (case te_ListScheduled env st stamp limit of
        None \<Rightarrow> Inl (recordTimerInternalError ''list due record timers'')
      | Some page \<Rightarrow>
          if int (length page) < limit then
            (case te_ListExpired env st stamp (limit - int (length page)) of
               None \<Rightarrow> Inl (recordTimerInternalError ''list expired record timer leases'')
             | Some expired \<Rightarrow> Inr (page @ expired))
          else Inr page))"

definition ClaimDueRecordTimers ::
    "timer_env \<Rightarrow> bool \<Rightarrow> string \<Rightarrow> int \<Rightarrow> int \<Rightarrow> store \<Rightarrow> store \<times> (app_error + Lease list)" where
  "ClaimDueRecordTimers env scope ws now0 limit0 st =
     (if \<not> scope then (st, Inl scope_error)
      else (let now = timer_now env now0; limit = recordTimerLimit limit0 in
        (case timer_objects env of
           Inl e \<Rightarrow> (st, Inl e)
         | Inr objects \<Rightarrow> (case claim_candidates env now limit st of
             Inl e \<Rightarrow> (st, Inl e)
           | Inr candidates \<Rightarrow> (let claims = List.map_filter (claim_one env objects now) candidates in
               if claims = [] then (st, Inr [])
               else (case CommitRecordMutationBatch (te_Store env) ws (concat (map fst claims)) st of
                   (st', None) \<Rightarrow> (st', Inr (map snd claims))
                 | (st', Some e) \<Rightarrow> (let (st'', leases) = claim_each env ws claims st' in (st'', Inr leases))))))))"

subsection \<open>Finishing and failing\<close>

definition lease_conditions :: "Lease \<Rightarrow> data" where
  "lease_conditions lease = [(''status'', VStr ''leased''), (''lease_owner'', VStr (le_Owner lease)),
     (''fencing_token'', VInt (le_Token lease))]"

definition finished_record :: "Lease \<Rightarrow> int \<Rightarrow> Record" where
  "finished_record lease now = (set_data [(''status'', VStr ''fired''), (''fired_at'', VStr (format_rfc3339nano now)),
     (''lease_owner'', VStr []), (''lease_expires_at'', VStr [])] (le_Record lease))
     \<lparr> rec_UpdatedAt := format_rfc3339nano now \<rparr>"

definition finish_commits :: "timer_env \<Rightarrow> string \<times> string \<Rightarrow> int \<Rightarrow> Lease \<Rightarrow> RecordMutationCommit list" where
  "finish_commits env objects now lease = (let r = finished_record lease now in
     [plain_commit ''update'' (fst objects) r (lease_conditions lease),
      buildRecordTimerEventCommit env (snd objects) r ''succeeded'' (le_Owner lease) [] [] [] now])"

definition recordTimerLeaseCommitError :: "string \<Rightarrow> store_error \<Rightarrow> store_error" where
  "recordTimerLeaseCommitError timerID e = (case e of
      MutationConflict object i ConflictOptimistic \<Rightarrow> MutationConflict ''record_timer'' timerID ConflictLeaseLost
    | _ \<Rightarrow> e)"

definition commit_lease ::
    "timer_env \<Rightarrow> string \<Rightarrow> string \<Rightarrow> RecordMutationCommit list \<Rightarrow> store \<Rightarrow> store \<times> timer_error option" where
  "commit_lease env ws timerID commits st = (case CommitRecordMutationBatch (te_Store env) ws commits st of
      (st', None) \<Rightarrow> (st', None)
    | (st', Some e) \<Rightarrow> (st', Some (TimerStore (recordTimerLeaseCommitError timerID e))))"

definition FinishRecordTimer ::
    "timer_env \<Rightarrow> bool \<Rightarrow> string \<Rightarrow> Lease \<Rightarrow> int \<Rightarrow> store \<Rightarrow> store \<times> timer_error option" where
  "FinishRecordTimer env scope ws lease now st =
     (if \<not> scope then (st, Some (TimerApp scope_error))
      else (case timer_objects env of
          Inl e \<Rightarrow> (st, Some (TimerApp e))
        | Inr objects \<Rightarrow> commit_lease env ws (rec_ID (le_Record lease))
            (finish_commits env objects (timer_now env now) lease) st))"

definition FinishRecordTimers ::
    "timer_env \<Rightarrow> bool \<Rightarrow> string \<Rightarrow> Lease list \<Rightarrow> int \<Rightarrow> store \<Rightarrow> store \<times> timer_error option" where
  "FinishRecordTimers env scope ws leases now st =
     (if \<not> scope then (st, Some (TimerApp scope_error))
      else if leases = [] then (st, None)
      else (case timer_objects env of
          Inl e \<Rightarrow> (st, Some (TimerApp e))
        | Inr objects \<Rightarrow> (case CommitRecordMutationBatch (te_Store env) ws
              (concat (map (finish_commits env objects (timer_now env now)) leases)) st of
            (st', e) \<Rightarrow> (st', map_option TimerStore e))))"

definition failed_record :: "timer_env \<Rightarrow> Lease \<Rightarrow> app_error \<Rightarrow> int \<Rightarrow> Record" where
  "failed_record env lease err now = (let
     r0 = le_Record lease;
     attempt = recordTimerInt (data_get (rec_Data r0) ''attempt'') 0;
     maximum = recordTimerInt (data_get (rec_Data r0) ''max_attempts'') 10;
     r1 = set_data [(''last_error'', VStr (te_CodeOf env err)), (''lease_owner'', VStr []), (''lease_expires_at'', VStr [])] r0;
     r2 = (if attempt \<ge> maximum
           then set_data [(''status'', VStr ''failed''), (''failed_at'', VStr (format_rfc3339nano now))] r1
           else set_data [(''status'', VStr ''scheduled''), (''due_at'', VStr (format_rfc3339nano (now + RetryDelay r1)))] r1)
   in r2 \<lparr> rec_UpdatedAt := format_rfc3339nano now \<rparr>)"

definition FailRecordTimer ::
    "timer_env \<Rightarrow> bool \<Rightarrow> string \<Rightarrow> Lease \<Rightarrow> app_error option \<Rightarrow> int \<Rightarrow> store \<Rightarrow> store \<times> timer_error option" where
  "FailRecordTimer env scope ws lease executionErr now0 st =
     (case executionErr of
        None \<Rightarrow> (st, Some (TimerApp (recordTimerError KindBadRequest ''backend.record_timer.failure_required'' [])))
      | Some err \<Rightarrow>
          if \<not> scope then (st, Some (TimerApp scope_error))
          else (let now = timer_now env now0 in (case timer_objects env of
              Inl e \<Rightarrow> (st, Some (TimerApp e))
            | Inr objects \<Rightarrow> (let r = failed_record env lease err now;
                  eventType = (if data_get (rec_Data r) ''status'' = VStr ''failed'' then ''failed'' else ''retry_scheduled'')
                in commit_lease env ws (rec_ID r)
                  [plain_commit ''update'' (fst objects) r (lease_conditions lease),
                   buildRecordTimerEventCommit env (snd objects) r eventType (le_Owner lease) (te_CodeOf env err)
                     (te_ErrorText env err) (sprint_trim (data_get (rec_Data r) ''due_at'')) now] st))))"

subsection \<open>Processing\<close>

definition timer_execution :: "string \<Rightarrow> Lease \<Rightarrow> data \<Rightarrow> RecordTimerExecution" where
  "timer_execution ws lease payload = (let r = le_Record lease in
     \<lparr> tx_TimerID = rec_ID r, tx_WorkspaceID = ws, tx_ObjectKey = recordTimerString r ''object_key'',
       tx_RecordID = recordTimerString r ''record_id'', tx_TargetType = recordTimerString r ''target_type'',
       tx_TargetKey = recordTimerString r ''target_key'', tx_Payload = payload, tx_IdempotencyKey = rec_ID r \<rparr>)"

text \<open>The payload of a lease; an unreadable one is an execution error.\<close>

definition lease_payload :: "timer_env \<Rightarrow> Lease \<Rightarrow> app_error + data" where
  "lease_payload env lease = (let raw = sprint_trim (data_get (rec_Data (le_Record lease)) ''payload_json'') in
     if raw = [] then Inr []
     else (case te_JSON env raw of
         None \<Rightarrow> Inl (recordTimerError KindBadRequest ''backend.record_timer.payload_invalid'' [])
       | Some m \<Rightarrow> Inr (case m of None \<Rightarrow> [] | Some d \<Rightarrow> d)))"

definition first_of :: "'a option \<Rightarrow> 'a \<Rightarrow> 'a option" where
  "first_of prior e = (case prior of None \<Rightarrow> Some e | Some f \<Rightarrow> Some f)"

fun process_leases ::
    "timer_env \<Rightarrow> (RecordTimerExecution \<Rightarrow> store \<Rightarrow> store \<times> app_error option) \<Rightarrow> bool \<Rightarrow> string \<Rightarrow> int \<Rightarrow>
       Lease list \<Rightarrow> int \<Rightarrow> timer_error option \<Rightarrow> store \<Rightarrow> store \<times> int \<times> timer_error option" where
  "process_leases env run scope ws now [] processed firstErr st = (st, processed, firstErr)"
| "process_leases env run scope ws now (lease # rest) processed firstErr st = (let
     (st1, executionErr) = (case lease_payload env lease of
         Inl e \<Rightarrow> (st, Some e)
       | Inr payload \<Rightarrow> run (timer_execution ws lease payload) st)
   in (case executionErr of
        Some e \<Rightarrow> (case FailRecordTimer env scope ws lease (Some e) now st1 of
            (st2, Some failErr) \<Rightarrow> (st2, processed, Some failErr)
          | (st2, None) \<Rightarrow> process_leases env run scope ws now rest processed (first_of firstErr (TimerApp e)) st2)
      | None \<Rightarrow> (case FinishRecordTimer env scope ws lease now st1 of
            (st2, Some e) \<Rightarrow> process_leases env run scope ws now rest processed (first_of firstErr e) st2
          | (st2, None) \<Rightarrow> process_leases env run scope ws now rest (processed + 1) firstErr st2)))"

definition processDueRecordTimers ::
    "timer_env \<Rightarrow> bool \<Rightarrow> string \<Rightarrow> int \<Rightarrow> int \<Rightarrow> store \<Rightarrow> store \<times> int \<times> int \<times> timer_error option" where
  "processDueRecordTimers env scope ws now limit st = (case te_Execute env of
      None \<Rightarrow> (st, 0, 0, Some (TimerApp (recordTimerError KindInternal ''backend.record_timer.runtime_unavailable'' [])))
    | Some run \<Rightarrow> (case ClaimDueRecordTimers env scope ws now limit st of
        (st1, Inl e) \<Rightarrow> (st1, 0, 0, Some (TimerApp e))
      | (st1, Inr leases) \<Rightarrow> (let (st2, processed, firstErr) = process_leases env run scope ws now leases 0 None st1
          in (st2, processed, int (length leases), firstErr))))"

text \<open>The share of every workspace: the limit is split evenly, the first ones get the remainder.\<close>

definition quota :: "int \<Rightarrow> int \<Rightarrow> int \<Rightarrow> int" where
  "quota limit n index = limit div n + (if index < limit mod n then 1 else 0)"

definition dispatch_order :: "nat \<Rightarrow> 'a list \<Rightarrow> 'a list" where
  "dispatch_order cursor workspaces = (let start = cursor mod length workspaces in
     drop start workspaces @ take start workspaces)"

fun process_workspaces ::
    "timer_env \<Rightarrow> bool \<Rightarrow> int \<Rightarrow> int \<Rightarrow> int \<Rightarrow> int \<Rightarrow> string list \<Rightarrow> int \<Rightarrow> timer_error option \<Rightarrow>
       (string \<Rightarrow> store) \<Rightarrow> (string \<Rightarrow> store) \<times> int \<times> timer_error option" where
  "process_workspaces env scope now limit n index [] processed firstErr sts = (sts, processed, firstErr)"
| "process_workspaces env scope now limit n index (ws # rest) processed firstErr sts =
     (if quota limit n index = 0
      then process_workspaces env scope now limit n (index + 1) rest processed firstErr sts
      else (let (st', count, attempted, processErr) =
              processDueRecordTimers env scope ws now (quota limit n index) (sts ws)
        in process_workspaces env scope now limit n (index + 1) rest (processed + count)
             (case processErr of None \<Rightarrow> firstErr | Some e \<Rightarrow> first_of firstErr e) (sts(ws := st'))))"

definition ProcessDueForAllWorkspaces ::
    "timer_env \<Rightarrow> bool \<Rightarrow> int \<Rightarrow> int \<Rightarrow> nat \<Rightarrow> (string \<Rightarrow> store) \<Rightarrow>
       (string \<Rightarrow> store) \<times> nat \<times> int \<times> timer_error option" where
  "ProcessDueForAllWorkspaces env scope now0 limit0 cursor sts =
     (if \<not> scope then (sts, cursor, 0, Some (TimerApp scope_error))
      else (let now = timer_now env now0 in (case objectForPrincipal env ''record_timer'' of
          Inl e \<Rightarrow> (sts, cursor, 0, Some (TimerApp e))
        | Inr object \<Rightarrow> (case te_ListWorkspaces env now of
            None \<Rightarrow> (sts, cursor, 0, Some (TimerApp (recordTimerInternalError ''list record timer workspaces'')))
          | Some workspaces \<Rightarrow>
              if workspaces = [] then (sts, cursor, 0, None)
              else (let (sts', processed, firstErr) = process_workspaces env scope now (recordTimerLimit limit0)
                      (int (length workspaces)) 0 (dispatch_order cursor workspaces) 0 None sts
                in (sts', (cursor + 1) mod length workspaces, processed, firstErr))))))"

subsection \<open>Recovery\<close>

definition failedRecordTimer :: "timer_env \<Rightarrow> string \<Rightarrow> store \<Rightarrow> app_error + Record" where
  "failedRecordTimer env i st = (case objectForPrincipal env ''record_timer'' of
      Inl e \<Rightarrow> Inl e
    | Inr object \<Rightarrow> (case GetRecord st object i of
        None \<Rightarrow> Inl (recordTimerError KindNotFound ''backend.record_timer.not_found'' [''record_timer_id'', i])
      | Some r \<Rightarrow> if trim_space (recordTimerString r ''status'') \<noteq> ''failed''
          then Inl (recordTimerError KindConflict ''backend.record_timer.not_failed'' []) else Inr r))"

definition InspectFailure :: "timer_env \<Rightarrow> err \<Rightarrow> string \<Rightarrow> store \<Rightarrow> app_error + Record" where
  "InspectFailure env readAuth i st = (case readAuth of
      Some e \<Rightarrow> Inl e | None \<Rightarrow> failedRecordTimer env (trim_space i) st)"

definition recovered_record :: "string \<Rightarrow> int \<Rightarrow> Record \<Rightarrow> Record" where
  "recovered_record status now r = (let
     r1 = set_data [(''status'', VStr status), (''lease_owner'', VStr []), (''lease_expires_at'', VStr []),
       (''last_error'', VStr []), (''failed_at'', VStr [])] r;
     stamp = format_rfc3339nano now;
     r2 = (if status = ''scheduled'' then set_data [(''attempt'', VInt 0), (''due_at'', VStr stamp)] r1
           else set_data [(''cancelled_at'', VStr stamp)] r1)
   in r2 \<lparr> rec_UpdatedAt := stamp \<rparr>)"

definition transitionRecordTimerFailure ::
    "timer_env \<Rightarrow> err \<Rightarrow> string \<Rightarrow> string \<Rightarrow> string \<Rightarrow> string \<Rightarrow> string \<Rightarrow> string \<Rightarrow> store \<Rightarrow>
       store \<times> (app_error + Record)" where
  "transitionRecordTimerFailure env auth ws userID i reason eventType status st =
     (case auth of
        Some e \<Rightarrow> (st, Inl e)
      | None \<Rightarrow> (case failedRecordTimer env (trim_space i) st of
          Inl e \<Rightarrow> (st, Inl e)
        | Inr failed \<Rightarrow> (case timer_objects env of
            Inl e \<Rightarrow> (st, Inl e)
          | Inr objects \<Rightarrow> (let now = te_Clock env; r = recovered_record status now failed in
              (case CommitRecordMutationBatch (te_Store env) ws
                 [plain_commit ''update'' (fst objects) r
                    [(''status'', VStr ''failed''), (''fencing_token'', data_get (rec_Data r) ''fencing_token'')],
                  buildRecordTimerEventCommit env (snd objects) r eventType userID [] (trim_space reason)
                    (recordTimerString r ''due_at'') now] st of
                (st', Some e) \<Rightarrow> (st', Inl (recordTimerInternalError ''transition failed record timer''))
              | (st', None) \<Rightarrow> (st', Inr r))))))"

definition RetryFailure ::
    "timer_env \<Rightarrow> err \<Rightarrow> string \<Rightarrow> string \<Rightarrow> string \<Rightarrow> string \<Rightarrow> store \<Rightarrow> store \<times> (app_error + Record)" where
  "RetryFailure env auth ws userID i reason st =
     transitionRecordTimerFailure env auth ws userID i reason ''requeued'' ''scheduled'' st"

definition ResolveFailure ::
    "timer_env \<Rightarrow> err \<Rightarrow> string \<Rightarrow> string \<Rightarrow> string \<Rightarrow> string \<Rightarrow> store \<Rightarrow> store \<times> (app_error + Record)" where
  "ResolveFailure env auth ws userID i reason st =
     transitionRecordTimerFailure env auth ws userID i reason ''resolved'' ''cancelled'' st"

subsection \<open>Cancelling\<close>

fun terminal_commits :: "timer_env \<Rightarrow> int \<Rightarrow> Record list \<Rightarrow> app_error + RecordMutationCommit list" where
  "terminal_commits env now [] = Inr []"
| "terminal_commits env now (timer # rest) = (case BuildRecordTimerTerminalMutation env timer ''cancelled'' now of
      Inl e \<Rightarrow> Inl e
    | Inr c \<Rightarrow> (case terminal_commits env now rest of Inl e \<Rightarrow> Inl e | Inr cs \<Rightarrow> Inr (c # cs)))"

text \<open>The paging loop; \<open>None\<close> when the fuel runs out.\<close>

fun cancel_pages ::
    "nat \<Rightarrow> timer_env \<Rightarrow> string \<Rightarrow> data \<Rightarrow> int \<Rightarrow> int \<Rightarrow> store \<Rightarrow> (store \<times> int \<times> timer_error option) option" where
  "cancel_pages 0 env ws filters now cancelled st = None"
| "cancel_pages (Suc n) env ws filters now cancelled st = (case te_ListCancellable env st filters of
      None \<Rightarrow> Some (st, cancelled, Some (TimerApp (recordTimerInternalError ''list record timers to cancel'')))
    | Some items \<Rightarrow>
        if items = [] then Some (st, cancelled, None)
        else (case terminal_commits env now items of
            Inl e \<Rightarrow> Some (st, cancelled, Some (TimerApp e))
          | Inr commits \<Rightarrow> (case CommitRecordMutationBatch (te_Store env) ws commits st of
              (st', Some e) \<Rightarrow> Some (st', cancelled, Some (TimerStore e))
            | (st', None) \<Rightarrow> cancel_pages n env ws filters now (cancelled + int (length commits)) st')))"

definition cancel_filters :: "string \<Rightarrow> string \<Rightarrow> string \<Rightarrow> data" where
  "cancel_filters objectKey recordID purpose =
     [(''object_key'', VStr (trim_space objectKey)), (''record_id'', VStr (trim_space recordID)),
      (''status'', VStr ''scheduled'')] @
     (if trim_space purpose \<noteq> [] then [(''purpose'', VStr (trim_space purpose))] else [])"

definition CancelRecordTimers ::
    "nat \<Rightarrow> timer_env \<Rightarrow> bool \<Rightarrow> string \<Rightarrow> string \<Rightarrow> string \<Rightarrow> string \<Rightarrow> int \<Rightarrow> store \<Rightarrow>
       (store \<times> int \<times> timer_error option) option" where
  "CancelRecordTimers fuel env scope ws objectKey recordID purpose now st =
     (if \<not> scope then Some (st, 0, Some (TimerApp scope_error))
      else (case objectForPrincipal env ''record_timer'' of
          Inl e \<Rightarrow> Some (st, 0, Some (TimerApp e))
        | Inr object \<Rightarrow> cancel_pages fuel env ws (cancel_filters objectKey recordID purpose) now 0 st))"

subsection \<open>Columns of a timer row\<close>

lemma timer_fields_distinct: "distinct (map fst recordTimerObject)" "distinct (map fst recordTimerEventObject)"
  by code_simp+

lemma timer_store_fields:
  "se_Fields (timer_store_env allowed ext many) ''record_timer'' = map fst recordTimerObject"
  "se_Encode (timer_store_env allowed ext many) object f = dbValue"
  by (simp_all add: timer_store_env_def object_fields_def RecordTimerSystemObjects_def map_get_def)

lemma timer_store_env_ok: "env_ok (timer_store_env allowed ext many)"
proof -
  have "distinct (map fst (object_fields object))" for object
  proof -
    have "object_fields object \<in> {recordTimerObject, recordTimerEventObject, []}"
    proof (cases "map_of RecordTimerSystemObjects object")
      case (Some fs)
      then have "(object, fs) \<in> set RecordTimerSystemObjects" by (rule map_of_SomeD)
      with Some show ?thesis by (auto simp: object_fields_def map_get_def RecordTimerSystemObjects_def)
    qed (simp add: object_fields_def map_get_def)
    then show ?thesis using timer_fields_distinct by auto
  qed
  then show ?thesis
    unfolding env_ok_def by (simp add: timer_store_env_def list_all_iff)
qed

definition timer_columns :: "string list" where
  "timer_columns = [''status'', ''lease_owner'', ''lease_expires_at'', ''fencing_token'', ''attempt'', ''due_at'',
     ''last_error'', ''failed_at'', ''fired_at'', ''cancelled_at'']"

lemma timer_columns_are_fields: "list_all (\<lambda>f. f \<in> set (map fst recordTimerObject) \<and> f \<notin> set (''workspace_id'' # own_columns)) timer_columns"
  by code_simp

lemma timer_column_field:
  assumes "f \<in> set timer_columns"
  shows "f \<in> set (se_Fields (timer_store_env allowed ext many) ''record_timer'')"
    "\<not> se_SystemOwned (timer_store_env allowed ext many) f"
  using assms timer_columns_are_fields
  by (auto simp: list_all_iff timer_store_fields) (auto simp: timer_store_env_def)

lemma timer_condition:
  assumes "conditions_hold (timer_store_env allowed ext many) ''record_timer'' conds r" "(f, v) \<in> set conds"
    and "f \<in> set timer_columns"
  shows "sql_equal (data_get r f) (dbValue v)"
proof -
  have "list_all (\<lambda>f. trim_space f \<noteq> [] \<and> f \<noteq> ''id'' \<and> f \<noteq> ''updated_at'') timer_columns" by code_simp
  with assms(3) have "trim_space f \<noteq> []" "f \<noteq> ''id''" "f \<noteq> ''updated_at''"
    by (simp_all only: list_all_iff) blast+
  with assms(1,2) have "sql_equal (data_get r f)
      (recordConditionDBValue (timer_store_env allowed ext many) ''record_timer'' f v)"
    unfolding conditions_hold_def by blast
  then show ?thesis
    using timer_column_field(1) [OF assms(3), of allowed ext many]
    by (simp add: recordConditionDBValue_def timer_store_fields)
qed

lemma timer_column_written:
  assumes "f \<in> set timer_columns" "map_of (rec_Data r) f = Some v"
  shows "data_get (set_columns (update_columns (timer_store_env allowed ext many) ''record_timer'' b r) x) f = dbValue v"
  using update_columns_field [OF timer_store_env_ok timer_column_field [OF assms(1)]] assms(2)
  by (simp add: timer_store_fields)

subsection \<open>The lease of a timer row\<close>

definition row_token :: "row \<Rightarrow> int" where
  "row_token r = intValue (data_get r ''fencing_token'') 0"

definition timer_update :: "store_env \<Rightarrow> RecordMutationCommit \<Rightarrow> row \<Rightarrow> row option" where
  "timer_update env c r = (if update_matches env c r then Some (update_row env c r) else None)"

record timer_claim_request =
  tq_Candidate :: Record
  tq_Owner :: string
  tq_Now :: int
  tq_TTL :: int

text \<open>A claim on the row; the token of a row stays below the largest \<open>int\<close>.\<close>

definition timer_claim :: "store_env \<Rightarrow> timer_claim_request \<Rightarrow> row \<Rightarrow> row option" where
  "timer_claim env q r = (case PrepareClaim (tq_Candidate q) (tq_Owner q) (tq_Now q) (tq_TTL q) of
      None \<Rightarrow> None
    | Some (updated, lease, conditions) \<Rightarrow>
        if row_token r < 2 ^ 63 - 1
        then timer_update env (plain_commit ''update'' ''record_timer'' updated conditions) r else None)"

text \<open>What the holder of a lease writes: the fired or the failed record of its lease.\<close>

datatype timer_holder = Fired timer_claim_request int | Failed timer_env timer_claim_request app_error int

definition timer_commit :: "store_env \<Rightarrow> timer_holder \<Rightarrow> int \<Rightarrow> row \<Rightarrow> row option" where
  "timer_commit env m t r = (let
     q = (case m of Fired q now \<Rightarrow> q | Failed tenv q err now \<Rightarrow> q)
   in (case PrepareClaim (tq_Candidate q) (tq_Owner q) (tq_Now q) (tq_TTL q) of
        None \<Rightarrow> None
      | Some (updated, lease, conditions) \<Rightarrow>
          if le_Token lease \<noteq> t then None
          else timer_update env (plain_commit ''update'' ''record_timer''
            (case m of Fired q now \<Rightarrow> finished_record lease now | Failed tenv q err now \<Rightarrow> failed_record tenv lease err now)
            (lease_conditions lease)) r))"

lemma timer_update_Some:
  "timer_update env (plain_commit op object u conds) r = Some r' \<longleftrightarrow>
     update_matches env (plain_commit op object u conds) r \<and>
     r' = set_columns (update_columns env object (trim_space op = ''restore'' \<or> rec_Deleted u) u) r"
  by (auto simp: timer_update_def update_row_def) (simp_all add: plain_commit_def)

lemma in_int64_intValue: "in_int64 d \<Longrightarrow> in_int64 (intValue v d)"
  by (auto simp: intValue_def atoi_def split: option.splits if_splits)

lemma intValue_int: "in_int64 i \<Longrightarrow> intValue (VInt64 i) d = i" "in_int64 i \<Longrightarrow> intValue (VInt i) d = i"
  by (simp_all add: intValue_def sprint_trim_def)

lemma token_condition:
  assumes "sql_equal (data_get r ''fencing_token'') (dbValue (VInt n))" "in_int64 n"
  shows "row_token r = n"
  using assms by (simp add: sql_equal_def dbValue_def row_token_def intValue_def sprint_trim_def)

lemma set_data_get:
  "map_of (rec_Data (set_data as r)) k = (case map_of (rev as) k of Some v \<Rightarrow> Some v | None \<Rightarrow> map_of (rec_Data r) k)"
proof -
  have "map_of (fold (\<lambda>(k, v). AList.update k v) as m) k = (case map_of (rev as) k of Some v \<Rightarrow> Some v | None \<Rightarrow> map_of m k)" for m
    by (induction as arbitrary: m) (auto simp: update_conv map_add_def split: option.splits)
  then show ?thesis by (simp add: set_data_def)
qed

lemma prepare_claim_Some:
  assumes "PrepareClaim cand owner now ttl = Some (updated, lease, conds)"
  defines "prev \<equiv> intValue (data_get (rec_Data cand) ''fencing_token'') 0"
  shows "map_of (rec_Data updated) ''fencing_token'' = Some (VInt (wrap64 (prev + 1)))"
    "(''fencing_token'', VInt prev) \<in> set conds" "le_Token lease = wrap64 (prev + 1)" "le_Record lease = updated"
    "rec_ID updated = rec_ID cand" "le_Owner lease = owner"
  using assms(1) unfolding PrepareClaim_def Let_def prev_def
  by (auto simp: update_conv split: if_splits option.splits)

lemma finished_record_token:
  "map_of (rec_Data (finished_record lease now)) ''fencing_token'' = map_of (rec_Data (le_Record lease)) ''fencing_token''"
  by (simp add: finished_record_def set_data_get)

lemma failed_record_token:
  "map_of (rec_Data (failed_record tenv lease err now)) ''fencing_token'' = map_of (rec_Data (le_Record lease)) ''fencing_token''"
  by (simp add: failed_record_def Let_def set_data_get)

lemma timer_update_token:
  assumes "timer_update (timer_store_env allowed ext many) (plain_commit ''update'' ''record_timer'' u conds) r = Some r'"
    and "(''fencing_token'', VInt p) \<in> set conds" "map_of (rec_Data u) ''fencing_token'' = Some (VInt n)"
    and "in_int64 p" "in_int64 n"
  shows "row_token r = p" "row_token r' = n"
proof -
  have f: "''fencing_token'' \<in> set timer_columns" by (simp add: timer_columns_def)
  from assms(1) have m: "conditions_hold (timer_store_env allowed ext many) ''record_timer'' conds r"
    and r': "\<exists>b. r' = set_columns (update_columns (timer_store_env allowed ext many) ''record_timer'' b u) r"
    unfolding timer_update_Some update_matches_def by (auto simp: plain_commit_def)
  show "row_token r = p"
    by (rule token_condition [OF timer_condition [OF m assms(2) f] assms(4)])
  from r' show "row_token r' = n"
    using timer_column_written [OF f assms(3)] assms(5)
    by (auto simp: row_token_def dbValue_def intValue_int)
qed

interpretation timer_lease: fenced_lease row_token "timer_claim (timer_store_env allowed ext many)"
  "timer_commit (timer_store_env allowed ext many)" for allowed ext many
proof
  fix q r r'
  assume a: "timer_claim (timer_store_env allowed ext many) q r = Some r'"
  then obtain u l c where p: "PrepareClaim (tq_Candidate q) (tq_Owner q) (tq_Now q) (tq_TTL q) = Some (u, l, c)"
    and t: "row_token r < 2 ^ 63 - 1"
    and up: "timer_update (timer_store_env allowed ext many) (plain_commit ''update'' ''record_timer'' u c) r = Some r'"
    by (auto simp: timer_claim_def split: option.splits if_splits)
  note pc = prepare_claim_Some [OF p]
  let ?prev = "intValue (data_get (rec_Data (tq_Candidate q)) ''fencing_token'') 0"
  have prev: "in_int64 ?prev" by (rule in_int64_intValue) (simp add: in_int64_def)
  have "row_token r = ?prev" "row_token r' = wrap64 (?prev + 1)"
    using timer_update_token [OF up pc(2,1) prev] by simp_all
  with t prev show "row_token r' = row_token r + 1" by (simp add: wrap64_in in_int64_def)
next
  fix m t r r'
  assume a: "timer_commit (timer_store_env allowed ext many) m t r = Some r'"
  define q where "q = (case m of Fired q now \<Rightarrow> q | Failed tenv q err now \<Rightarrow> q)"
  from a obtain u l c where p: "PrepareClaim (tq_Candidate q) (tq_Owner q) (tq_Now q) (tq_TTL q) = Some (u, l, c)"
    and t: "le_Token l = t"
    and up: "timer_update (timer_store_env allowed ext many) (plain_commit ''update'' ''record_timer''
      (case m of Fired q now \<Rightarrow> finished_record l now | Failed tenv q err now \<Rightarrow> failed_record tenv l err now)
      (lease_conditions l)) r = Some r'"
    unfolding timer_commit_def Let_def q_def [symmetric] by (auto split: option.splits if_splits)
  define w where "w = (case m of Fired q now \<Rightarrow> finished_record l now | Failed tenv q err now \<Rightarrow> failed_record tenv l err now)"
  have w: "map_of (rec_Data w) ''fencing_token'' = map_of (rec_Data (le_Record l)) ''fencing_token''"
    "timer_update (timer_store_env allowed ext many) (plain_commit ''update'' ''record_timer'' w (lease_conditions l)) r = Some r'"
    using up by (cases m; simp add: w_def finished_record_token failed_record_token)+
  note pc = prepare_claim_Some [OF p]
  have "map_of (rec_Data w) ''fencing_token'' = Some (VInt t)" "in_int64 t"
    using pc(1,3,4) w(1) t by auto
  moreover have "(''fencing_token'', VInt t) \<in> set (lease_conditions l)" by (simp add: lease_conditions_def t)
  ultimately show "row_token r = t" "row_token r' = row_token r"
    using timer_update_token [OF w(2)] by simp_all
qed

text \<open>
  C13: in every interleaving of workers that claim a timer row and write its outcome, at most one
  granted lease can still write, and a lease that a later claim has overtaken never can again.
\<close>

theorem timer_lease_exclusive:
  assumes "(lease_step row_token (timer_claim (timer_store_env allowed ext many))
      (timer_commit (timer_store_env allowed ext many)))\<^sup>*\<^sup>* (row0, []) (row, held)"
    and "(a, t) \<in> set held" and "(b, u) \<in> set held"
    and "timer_commit (timer_store_env allowed ext many) m t row \<noteq> None"
  shows "(timer_commit (timer_store_env allowed ext many) n u row \<noteq> None \<longrightarrow> (a, t) = (b, u)) \<and>
    (t \<noteq> u \<longrightarrow> (\<forall>row' held'. (lease_step row_token (timer_claim (timer_store_env allowed ext many))
       (timer_commit (timer_store_env allowed ext many)))\<^sup>*\<^sup>* (row, held) (row', held') \<longrightarrow>
       timer_commit (timer_store_env allowed ext many) n u row' = None))"
  by (rule timer_lease.fencing [OF assms])

lemma prepare_claim_columns:
  assumes "PrepareClaim cand owner now ttl = Some (u, l, c)"
  shows "map_of (rec_Data u) ''status'' = Some (VStr ''leased'')"
    "map_of (rec_Data u) ''lease_owner'' = Some (VStr owner)"
  using assms unfolding PrepareClaim_def Let_def
  by (auto simp: update_conv split: if_splits option.splits)

lemma plain_commit_matches:
  "update_matches env (plain_commit op object u conds) r \<longleftrightarrow>
     row_is (rec_ID u) r \<and> se_WriteAllowed env object (rec_ID u) \<and> conditions_hold env object conds r"
proof -
  have "trim_space [] = []" by code_simp
  then show ?thesis
    by (simp add: update_matches_def plain_commit_def optimistic_holds_def OptimisticUpdatedAt_def)
qed

lemma finished_record_id: "rec_ID (finished_record l now) = rec_ID (le_Record l)"
  by (simp add: finished_record_def set_data_def)

lemma granted_can_fire:
  assumes "timer_claim (timer_store_env allowed ext many) q r = Some r'"
  shows "timer_commit (timer_store_env allowed ext many) (Fired q now) (row_token r') r' \<noteq> None"
    and claim_writes_token: "data_get r' ''fencing_token'' = VInt64 (row_token r')"
proof -
  let ?env = "timer_store_env allowed ext many"
  from assms obtain u l c where p: "PrepareClaim (tq_Candidate q) (tq_Owner q) (tq_Now q) (tq_TTL q) = Some (u, l, c)"
    and t: "row_token r < 2 ^ 63 - 1"
    and up: "timer_update ?env (plain_commit ''update'' ''record_timer'' u c) r = Some r'"
    by (auto simp: timer_claim_def split: option.splits if_splits)
  note pc = prepare_claim_Some [OF p] and pcol = prepare_claim_columns [OF p]
  from up obtain b where m: "row_is (rec_ID u) r" "se_WriteAllowed ?env ''record_timer'' (rec_ID u)"
    and r': "r' = set_columns (update_columns ?env ''record_timer'' b u) r"
    unfolding timer_update_Some plain_commit_matches by blast
  have cols: "data_get r' ''status'' = VStr ''leased''" "data_get r' ''lease_owner'' = VStr (tq_Owner q)"
    "data_get r' ''fencing_token'' = VInt64 (le_Token l)"
    unfolding r' using timer_column_written [OF _ pcol(1)] timer_column_written [OF _ pcol(2)]
      timer_column_written [OF _ pc(1)] pc(3)
    by (simp_all add: timer_columns_def dbValue_def)
  have tok: "row_token r' = le_Token l"
    using pc(3) by (simp add: row_token_def cols intValue_int)
  have "row_is (rec_ID u) r'"
    using m(1) by (simp add: row_is_def r' update_columns_own [OF timer_store_env_ok])
  moreover have "conditions_hold ?env ''record_timer'' (lease_conditions l) r'"
    unfolding conditions_hold_def lease_conditions_def
    by (simp add: cols pc(6) recordConditionDBValue_def timer_store_fields dbValue_def sql_equal_def)
  ultimately have "update_matches ?env (plain_commit ''update'' ''record_timer'' (finished_record l now) (lease_conditions l)) r'"
    using m(2) by (simp add: plain_commit_matches finished_record_id pc(4))
  then show "timer_commit ?env (Fired q now) (row_token r') r' \<noteq> None"
    using p by (simp add: timer_commit_def tok timer_update_def)
  show "data_get r' ''fencing_token'' = VInt64 (row_token r')" by (simp add: cols tok)
qed

text \<open>
  Progress: the holder of a lease just granted can record that the timer fired; the write is
  refused only after another claim.
\<close>

theorem claimed_timer_can_finish:
  assumes "timer_claim (timer_store_env allowed ext many) q r = Some r'"
  shows "timer_commit (timer_store_env allowed ext many) (Fired q now) (row_token r') r' \<noteq> None"
  by (rule granted_can_fire [OF assms])

subsection \<open>An example timer\<close>

abbreviation example_timer_store :: store_env where
  "example_timer_store \<equiv> timer_store_env (\<lambda>_ _. True) (\<lambda>_. ''{}'') (\<lambda>c st. Inr st)"

definition timer_row0 :: row where
  "timer_row0 = [(''id'', VStr ''t1''), (''status'', VStr ''scheduled''), (''fencing_token'', VInt64 0)]"

definition timer_request_A :: timer_claim_request where
  "timer_request_A = \<lparr> tq_Candidate = new_record ''t1'' ''x'' [(''status'', VStr ''scheduled''), (''fencing_token'', VFloat ''0'')],
     tq_Owner = ''A'', tq_Now = 0, tq_TTL = 5 * minute \<rparr>"

definition timer_request_B :: timer_claim_request where
  "timer_request_B = \<lparr> tq_Candidate = new_record ''t1'' ''x'' [(''status'', VStr ''leased''),
       (''lease_expires_at'', VStr (format_rfc3339nano (5 * minute))), (''fencing_token'', VFloat ''1'')],
     tq_Owner = ''B'', tq_Now = 10 * minute, tq_TTL = 5 * minute \<rparr>"

lemma example_texts:
  "sprint_trim (VStr ''scheduled'') = ''scheduled''" "sprint_trim (VStr ''leased'') = ''leased''"
  "atoi (sprint_trim (VFloat ''0'')) = Some 0" "atoi (sprint_trim (VFloat ''1'')) = Some 1"
  "sprint_trim VNil = nil_text" "itoa 0 = ''0''" "itoa 1 = ''1''"
  by code_simp+

lemma timer_grant_A:
  "\<exists>r. timer_claim example_timer_store timer_request_A timer_row0 = Some r \<and> row_token r = 1 \<and>
     data_get r ''id'' = VStr ''t1'' \<and> data_get r ''status'' = VStr ''leased'' \<and>
     data_get r ''lease_expires_at'' = VStr (format_rfc3339nano (5 * minute))"
proof -
  obtain u l c where p: "PrepareClaim (tq_Candidate timer_request_A) ''A'' 0 (5 * minute) = Some (u, l, c)"
    and c: "c = [(''status'', VStr ''scheduled''), (''fencing_token'', VInt 0)]" and i: "rec_ID u = ''t1''"
    and e: "map_of (rec_Data u) ''lease_expires_at'' = Some (VStr (format_rfc3339nano (5 * minute)))"
    by (simp add: PrepareClaim_def timer_request_A_def new_record_def map_get_def example_texts Let_def intValue_def)
  have q: "tq_Owner timer_request_A = ''A''" "tq_Now timer_request_A = 0" "tq_TTL timer_request_A = 5 * minute"
    by (simp_all add: timer_request_A_def)
  have "update_matches example_timer_store (plain_commit ''update'' ''record_timer'' u c) timer_row0"
    unfolding plain_commit_matches c i conditions_hold_def
    by (simp add: timer_row0_def row_is_def map_get_def sql_equal_def recordConditionDBValue_def timer_store_fields
        dbValue_def) (simp add: timer_store_env_def)
  then obtain r where up: "timer_update example_timer_store (plain_commit ''update'' ''record_timer'' u c) timer_row0 = Some r"
    by (simp add: timer_update_def)
  have t0: "row_token timer_row0 = 0" by code_simp
  have claim: "timer_claim example_timer_store timer_request_A timer_row0 = Some r"
    using p up t0 q by (simp add: timer_claim_def)
  then have "row_token r = 1" using timer_lease.claim_raises [OF claim] t0 by simp
  moreover have "data_get r ''id'' = VStr ''t1''"
    using up unfolding timer_update_Some
    by (simp add: update_columns_own [OF timer_store_env_ok]) (simp add: timer_row0_def map_get_def)
  moreover have "data_get r ''status'' = VStr ''leased''" "data_get r ''lease_expires_at'' = VStr (format_rfc3339nano (5 * minute))"
    using up timer_column_written [OF _ prepare_claim_columns(1) [OF p]] timer_column_written [OF _ e]
    unfolding timer_update_Some by (simp_all add: timer_columns_def dbValue_def)
  ultimately show ?thesis using claim by blast
qed

lemma timer_grant_B:
  assumes "row_token r = 1" "data_get r ''id'' = VStr ''t1''" "data_get r ''status'' = VStr ''leased''"
    "data_get r ''lease_expires_at'' = VStr (format_rfc3339nano (5 * minute))" "data_get r ''fencing_token'' = VInt64 1"
  shows "\<exists>r'. timer_claim example_timer_store timer_request_B r = Some r' \<and> row_token r' = 2"
proof -
  have y: "four_digit_year (5 * minute)" by code_simp
  have t: "sprint_trim (VStr (format_rfc3339nano (5 * minute))) = format_rfc3339nano (5 * minute)"
    by (simp add: sprint_trim_VStr format_rfc3339nano_edges)
  have lt: "\<not> 10 * minute < 5 * minute" "\<not> minute < 0" by (simp_all add: time_units)
  obtain u l c where p: "PrepareClaim (tq_Candidate timer_request_B) ''B'' (10 * minute) (5 * minute) = Some (u, l, c)"
    and c: "c = [(''status'', VStr ''leased''), (''fencing_token'', VInt 1),
      (''lease_expires_at'', VStr (format_rfc3339nano (5 * minute)))]" and i: "rec_ID u = ''t1''"
    by (simp add: PrepareClaim_def timer_request_B_def new_record_def map_get_def example_texts Let_def intValue_def t
        parse_format_rfc3339nano [OF y] lt)
  have q: "tq_Owner timer_request_B = ''B''" "tq_Now timer_request_B = 10 * minute" "tq_TTL timer_request_B = 5 * minute"
    by (simp_all add: timer_request_B_def)
  have "update_matches example_timer_store (plain_commit ''update'' ''record_timer'' u c) r"
    unfolding plain_commit_matches c i conditions_hold_def
    by (simp add: assms row_is_def sql_equal_def recordConditionDBValue_def timer_store_fields
        dbValue_def) (simp add: timer_store_env_def)
  then have "\<exists>r'. timer_claim example_timer_store timer_request_B r = Some r'"
    using p q assms(1) by (simp add: timer_claim_def timer_update_def)
  with timer_lease.claim_raises assms(1) show ?thesis by fastforce
qed

theorem timer_lease_exclusive_witness:
  "\<exists>row. timer_commit example_timer_store (Fired timer_request_B 0) 2 row \<noteq> None \<and>
     timer_commit example_timer_store (Fired timer_request_A 0) 1 row = None"
proof -
  let ?step = "lease_step row_token (timer_claim example_timer_store) (timer_commit example_timer_store)"
  obtain r where r: "timer_claim example_timer_store timer_request_A timer_row0 = Some r" "row_token r = 1"
    "data_get r ''id'' = VStr ''t1''" "data_get r ''status'' = VStr ''leased''"
    "data_get r ''lease_expires_at'' = VStr (format_rfc3339nano (5 * minute))"
    using timer_grant_A by blast
  have tok: "data_get r ''fencing_token'' = VInt64 1"
    using claim_writes_token [OF r(1)] r(2) by simp
  from timer_grant_B [OF r(2-5) tok] obtain r' where r': "timer_claim example_timer_store timer_request_B r = Some r'"
    "row_token r' = 2" by blast
  have "?step (timer_row0, []) (r, [(timer_request_A, 1)])"
    using lease_step.Grant [of "timer_claim example_timer_store", OF r(1), of row_token] r(2) by simp
  moreover have "?step (r, [(timer_request_A, 1)]) (r', [(timer_request_B, 2), (timer_request_A, 1)])"
    using lease_step.Grant [of "timer_claim example_timer_store", OF r'(1), of row_token] r'(2) by simp
  ultimately have steps: "?step\<^sup>*\<^sup>* (timer_row0, []) (r', [(timer_request_B, 2), (timer_request_A, 1)])"
    by (meson converse_rtranclp_into_rtranclp rtranclp.rtrancl_refl)
  have ok: "timer_commit example_timer_store (Fired timer_request_B 0) 2 r' \<noteq> None"
    using granted_can_fire [OF r'(1)] r'(2) by simp
  from timer_lease_exclusive [OF steps, of timer_request_B 2 timer_request_A 1, OF _ _ ok, of "Fired timer_request_A 0"] ok
  show ?thesis by auto
qed

theorem claimed_timer_can_finish_witness:
  "\<exists>r. timer_commit example_timer_store (Fired timer_request_A 7) 1 r \<noteq> None"
proof -
  obtain r where "timer_claim example_timer_store timer_request_A timer_row0 = Some r" "row_token r = 1"
    using timer_grant_A by blast
  with claimed_timer_can_finish [of _ _ _ timer_request_A timer_row0 r 7] show ?thesis by metis
qed

subsection \<open>Dispatch over workspaces\<close>

lemma sum_quota:
  assumes "0 < n" "0 \<le> limit"
  shows "(\<Sum>i<n. quota limit (int n) (int i)) = limit"
proof -
  have m: "0 \<le> limit mod int n" "limit mod int n < int n" using assms(1) by simp_all
  have "(\<Sum>i<n. quota limit (int n) (int i)) =
      int n * (limit div int n) + (\<Sum>i<n. if int i < limit mod int n then 1 else 0)"
    by (simp add: quota_def sum.distrib)
  also have "(\<Sum>i<n. if int i < limit mod int n then 1 else 0) = (\<Sum>i \<in> {i. i < n \<and> int i < limit mod int n}. 1 :: int)"
    by (subst sum.inter_filter [symmetric]) (simp_all add: lessThan_def)
  also have "{i. i < n \<and> int i < limit mod int n} = {..< nat (limit mod int n)}" using m by auto
  finally show ?thesis using m(1) by simp
qed

lemma quota_first: "0 < n \<Longrightarrow> 1 \<le> limit \<Longrightarrow> 1 \<le> quota limit n 0"
proof -
  assume n: "0 < n" and l: "1 \<le> limit"
  show ?thesis
  proof (cases "limit < n")
    case True
    with n l show ?thesis by (simp add: quota_def)
  next
    case False
    then have "1 \<le> limit div n" using n by (simp add: pos_imp_zdiv_pos_iff zdiv_mono1 int_one_le_iff_zero_less)
    then show ?thesis by (simp add: quota_def)
  qed
qed

lemma mset_dispatch_order: "mset (dispatch_order cursor ws) = mset ws"
  by (simp add: dispatch_order_def Let_def) (metis append_take_drop_id mset_append union_commute)

lemma hd_dispatch_order: "ws \<noteq> [] \<Longrightarrow> hd (dispatch_order cursor ws) = ws ! (cursor mod length ws)"
  using mod_less_divisor [of "length ws" cursor]
  by (simp add: dispatch_order_def Let_def hd_append hd_drop_conv_nth not_le [symmetric] del: mod_less_divisor)

lemma cursor_rounds: "0 < n \<Longrightarrow> (((\<lambda>c. Suc c mod n) ^^ j) cursor) mod n = (cursor + j) mod n"
proof (induction j)
  case (Suc j)
  then show ?case by (simp add: mod_Suc_eq) (metis mod_Suc_eq)
qed simp

lemma recordTimerLimit_range: "1 \<le> recordTimerLimit limit" "recordTimerLimit limit \<le> 500"
  by (simp_all add: recordTimerLimit_def)


subsection \<open>The outcome of a failed execution\<close>

lemma batch_pair:
  assumes "CommitRecordMutationBatch env ws [c, d] st = (st', None)"
  shows "\<exists>st1. applyRecordMutationTx env c st = Inr st1 \<and> applyRecordMutationTx env d st1 = Inr st'"
  using assms by (auto simp: CommitRecordMutationBatch_def split: if_splits sum.splits)

lemma create_trim: "trim_space ''create'' = ''create''" "trim_space ''update'' = ''update''"
  by code_simp+

lemma create_other_table:
  assumes "applyRecordMutationTx env (plain_commit ''create'' object u conds) st = Inr st'" "table \<noteq> object"
  shows "st' table = st table"
  using assms unfolding applyRecordMutationTx_def Let_def
  by (auto simp: plain_commit_def create_trim split: if_splits)

lemma event_commit_plain:
  "\<exists>u. buildRecordTimerEventCommit env object timer ev w e m n now = plain_commit ''create'' object u []"
  by (simp add: buildRecordTimerEventCommit_def Let_def) blast

lemma plain_update: "is_update (plain_commit ''update'' object u conds)"
  by (simp add: is_update_def plain_commit_def create_trim)

lemma update_and_event:
  assumes "keys_ok st" "CommitRecordMutationBatch (timer_store_env allowed ext many) ws
      [plain_commit ''update'' ''record_timer'' u conds, buildRecordTimerEventCommit env ''record_timer_event'' timer ev w e m n now] st =
      (st', None)"
  shows "\<exists>k < length (st ''record_timer''). let r = st ''record_timer'' ! k; r' = st' ''record_timer'' ! k in
    row_id r = VStr (rec_ID u) \<and>
    (\<forall>(f, v) \<in> set conds. f \<in> set timer_columns \<longrightarrow> sql_equal (data_get r f) (dbValue v)) \<and>
    (\<forall>f \<in> set timer_columns. data_get r' f = (case map_of (rec_Data u) f of Some v \<Rightarrow> dbValue v | None \<Rightarrow> data_get r f)) \<and>
    st' ''record_timer'' = (st ''record_timer'')[k := r']"
proof -
  let ?env = "timer_store_env allowed ext many" and ?c = "plain_commit ''update'' ''record_timer'' u conds"
  have pc: "mc_Object ?c = ''record_timer''" "mc_Record ?c = u" "mc_Conditions ?c = conds" by (simp_all add: plain_commit_def)
  from batch_pair [OF assms(2)] obtain st1 where st1: "applyRecordMutationTx ?env ?c st = Inr st1"
    "applyRecordMutationTx ?env (buildRecordTimerEventCommit env ''record_timer_event'' timer ev w e m n now) st1 = Inr st'"
    by blast
  obtain v where v: "buildRecordTimerEventCommit env ''record_timer_event'' timer ev w e m n now =
      plain_commit ''create'' ''record_timer_event'' v []"
    using event_commit_plain by blast
  have same: "st' ''record_timer'' = st1 ''record_timer''"
    by (rule create_other_table [OF st1(2) [unfolded v]]) simp
  from update_effect [OF timer_store_env_ok assms(1) plain_update st1(1)]
  obtain k where k: "k < length (st ''record_timer'')"
    "row_id (st ''record_timer'' ! k) = VStr (rec_ID u)"
    "conditions_hold ?env ''record_timer'' conds (st ''record_timer'' ! k)"
    "\<forall>f \<in> set (se_Fields ?env ''record_timer''). \<not> se_SystemOwned ?env f \<longrightarrow>
       data_get (st1 ''record_timer'' ! k) f = (case map_of (rec_Data u) f of
         Some v \<Rightarrow> se_Encode ?env ''record_timer'' f v | None \<Rightarrow> data_get (st ''record_timer'' ! k) f)"
    "st1 = st(''record_timer'' := (st ''record_timer'')[k := st1 ''record_timer'' ! k])"
    unfolding pc Let_def by blast
  from k(5) have "st1 ''record_timer'' = (st ''record_timer'')[k := st1 ''record_timer'' ! k]"
    by (metis fun_upd_same)
  moreover have "\<forall>f \<in> set timer_columns. data_get (st1 ''record_timer'' ! k) f =
      (case map_of (rec_Data u) f of Some v \<Rightarrow> dbValue v | None \<Rightarrow> data_get (st ''record_timer'' ! k) f)"
    using k(4) timer_column_field [of _ allowed ext many] unfolding timer_store_fields(2) by blast
  moreover have "\<forall>(f, v) \<in> set conds. f \<in> set timer_columns \<longrightarrow> sql_equal (data_get (st ''record_timer'' ! k) f) (dbValue v)"
    using timer_condition [OF k(3)] by blast
  ultimately show ?thesis unfolding same Let_def using k(1,2) by blast
qed

lemma failed_record_columns:
  fixes env lease err now
  defines "u \<equiv> failed_record env lease err now"
    and "exhausted \<equiv> recordTimerInt (data_get (rec_Data (le_Record lease)) ''attempt'') 0 \<ge>
      recordTimerInt (data_get (rec_Data (le_Record lease)) ''max_attempts'') 10"
  shows "rec_ID u = rec_ID (le_Record lease)" "map_of (rec_Data u) ''lease_owner'' = Some (VStr [])"
    "map_of (rec_Data u) ''lease_expires_at'' = Some (VStr [])"
    "map_of (rec_Data u) ''last_error'' = Some (VStr (te_CodeOf env err))"
    "map_of (rec_Data u) ''status'' = Some (VStr (if exhausted then ''failed'' else ''scheduled''))"
    "exhausted \<Longrightarrow> map_of (rec_Data u) ''failed_at'' = Some (VStr (format_rfc3339nano now))"
    "\<not> exhausted \<Longrightarrow> map_of (rec_Data u) ''due_at'' =
       Some (VStr (format_rfc3339nano (now + RetryDelay (le_Record lease))))"
proof -
  have "RetryDelay (set_data as r) = RetryDelay r"
    if "\<forall>k \<in> {''retry_delay_seconds'', ''retry_max_delay_seconds'', ''attempt''}. map_of (rev as) k = None" for as r
    using that by (simp add: RetryDelay_def map_get_def set_data_get)
  then have d: "RetryDelay (set_data [(''last_error'', v1), (''lease_owner'', v2), (''lease_expires_at'', v3)] r) = RetryDelay r"
    for v1 v2 v3 r by simp
  show "rec_ID u = rec_ID (le_Record lease)" "map_of (rec_Data u) ''lease_owner'' = Some (VStr [])"
    "map_of (rec_Data u) ''lease_expires_at'' = Some (VStr [])"
    "map_of (rec_Data u) ''last_error'' = Some (VStr (te_CodeOf env err))"
    "map_of (rec_Data u) ''status'' = Some (VStr (if exhausted then ''failed'' else ''scheduled''))"
    "exhausted \<Longrightarrow> map_of (rec_Data u) ''failed_at'' = Some (VStr (format_rfc3339nano now))"
    "\<not> exhausted \<Longrightarrow> map_of (rec_Data u) ''due_at'' =
       Some (VStr (format_rfc3339nano (now + RetryDelay (le_Record lease))))"
    unfolding u_def exhausted_def failed_record_def Let_def d
    by (simp_all add: set_data_get) (simp_all add: set_data_def)
qed

text \<open>
  Recording a failed execution succeeds only while the row still carries the lease (status,
  owner and fencing token), clears the lease, stores the error code, and either, at the attempt
  limit, ends the timer as failed, or schedules it again after the retry delay.
\<close>

theorem failed_timer_effect:
  assumes "te_Store env = timer_store_env allowed ext many" "keys_ok st" "now \<noteq> zero_time"
    and "FailRecordTimer env True ws lease (Some err) now st = (st', None)"
  shows "\<exists>k < length (st ''record_timer''). let r = st ''record_timer'' ! k; r' = st' ''record_timer'' ! k;
      d = rec_Data (le_Record lease);
      exhausted = (recordTimerInt (data_get d ''attempt'') 0 \<ge> recordTimerInt (data_get d ''max_attempts'') 10) in
    row_id r = VStr (rec_ID (le_Record lease)) \<and>
    sql_equal (data_get r ''status'') (VStr ''leased'') \<and>
    sql_equal (data_get r ''lease_owner'') (VStr (le_Owner lease)) \<and>
    sql_equal (data_get r ''fencing_token'') (VInt64 (le_Token lease)) \<and>
    data_get r' ''lease_owner'' = VStr [] \<and> data_get r' ''lease_expires_at'' = VStr [] \<and>
    data_get r' ''last_error'' = VStr (te_CodeOf env err) \<and>
    data_get r' ''status'' = VStr (if exhausted then ''failed'' else ''scheduled'') \<and>
    (exhausted \<longrightarrow> data_get r' ''failed_at'' = VStr (format_rfc3339nano now)) \<and>
    (\<not> exhausted \<longrightarrow> data_get r' ''due_at'' = VStr (format_rfc3339nano (now + RetryDelay (le_Record lease)))) \<and>
    st' ''record_timer'' = (st ''record_timer'')[k := r']"
proof -
  let ?u = "failed_record env lease err now"
  note fc = failed_record_columns [where env = env and lease = lease and err = err and now = now]
  obtain ev where "CommitRecordMutationBatch (timer_store_env allowed ext many) ws
      [plain_commit ''update'' ''record_timer'' ?u (lease_conditions lease),
       buildRecordTimerEventCommit env ''record_timer_event'' ?u ev (le_Owner lease) (te_CodeOf env err)
         (te_ErrorText env err) (sprint_trim (data_get (rec_Data ?u) ''due_at'')) now] st = (st', None)"
    using assms(1,3,4)
    by (auto simp: FailRecordTimer_def timer_now_def timer_objects_def objectForPrincipal_def commit_lease_def Let_def
        split: if_splits prod.splits option.splits)
  from update_and_event [OF assms(2) this] obtain k where k: "k < length (st ''record_timer'')"
    "row_id (st ''record_timer'' ! k) = VStr (rec_ID ?u)"
    "\<forall>(f, v) \<in> set (lease_conditions lease). f \<in> set timer_columns \<longrightarrow>
       sql_equal (data_get (st ''record_timer'' ! k) f) (dbValue v)"
    "\<forall>f \<in> set timer_columns. data_get (st' ''record_timer'' ! k) f =
       (case map_of (rec_Data ?u) f of Some v \<Rightarrow> dbValue v | None \<Rightarrow> data_get (st ''record_timer'' ! k) f)"
    "st' ''record_timer'' = (st ''record_timer'')[k := st' ''record_timer'' ! k]"
    unfolding Let_def by blast
  have w: "data_get (st' ''record_timer'' ! k) f = v" if "f \<in> set timer_columns" "map_of (rec_Data ?u) f = Some v" "dbValue v = v" for f v
    using k(4) that by simp
  have t: "dbValue (VStr x) = VStr x" for x by (simp add: dbValue_def)
  have c: "sql_equal (data_get (st ''record_timer'' ! k) ''status'') (VStr ''leased'')"
    "sql_equal (data_get (st ''record_timer'' ! k) ''lease_owner'') (VStr (le_Owner lease))"
    "sql_equal (data_get (st ''record_timer'' ! k) ''fencing_token'') (VInt64 (le_Token lease))"
    using k(3) by (simp_all add: lease_conditions_def timer_columns_def dbValue_def)
  show ?thesis
    using k(1,2,5) c fc(1) w [OF _ fc(2) t] w [OF _ fc(3) t] w [OF _ fc(4) t] w [OF _ fc(5) t]
      w [OF _ fc(6) t] w [OF _ fc(7) t]
    by (auto simp: Let_def timer_columns_def)
qed

lemma batch_pair_ok:
  assumes "applyRecordMutationTx env c st = Inr st1" "\<exists>st'. applyRecordMutationTx env d st1 = Inr st'"
    "trim_space ws \<noteq> []"
  shows "\<exists>st'. CommitRecordMutationBatch env ws [c, d] st = (st', None)"
  using assms by (auto simp: CommitRecordMutationBatch_def)

lemma commit_lease_ok:
  "\<exists>st'. CommitRecordMutationBatch (te_Store env) ws cs st = (st', None) \<Longrightarrow> \<exists>st'. commit_lease env ws i cs st = (st', None)"
  by (auto simp: commit_lease_def)

subsection \<open>Scheduling twice\<close>

lemma build_from_source_commit:
  assumes "BuildRecordTimerMutationFromSource env ctx ws q source cal now = Inr c"
  shows "\<exists>i d. \<forall>now'. BuildRecordTimerMutationFromSource env ctx ws q source cal now' =
      Inr (plain_commit ''create'' ''record_timer'' (new_record i (format_rfc3339nano (timer_now env now')) d) [])"
  using assms
  by (auto simp: BuildRecordTimerMutationFromSource_def BuildRecordTimerMutation_def objectForPrincipal_def Let_def
      split: sum.splits if_splits option.splits)

lemma create_result:
  assumes "CommitRecordMutationBatch env ws [plain_commit ''create'' object u []] st = (st', e)"
  shows "(\<exists>x \<in> set (st object). row_is (rec_ID u) x) \<Longrightarrow> st' = st \<and> e \<noteq> None"
    "e = None \<Longrightarrow> st' = st(object := st object @ [set_columns (insert_columns env object u) []])"
    "e \<noteq> None \<Longrightarrow> st' = st"
  using assms
  by (auto simp: CommitRecordMutationBatch_def applyRecordMutationTx_def plain_commit_def create_trim Let_def
      split: if_splits)

lemma row_is_sprint: "row_is i x \<Longrightarrow> sprint (data_get x ''id'') = i"
  by (auto simp: row_is_def sql_equal_def)

lemma GetRecord_Some: "GetRecord st object i = Some r \<Longrightarrow> (\<exists>x \<in> set (st object). row_is i x) \<and> rec_ID r = i"
  by (auto simp: GetRecord_def find_Some_iff record_of_row_def row_is_sprint)

lemma GetRecord_exists: "\<exists>x \<in> set (st object). row_is i x \<Longrightarrow> \<exists>r. GetRecord st object i = Some r"
  by (cases "find (row_is i) (st object)") (auto simp: GetRecord_def find_None_iff)

text \<open>
  C14: scheduling is idempotent: when a request has been scheduled, or was found scheduled already,
  the same request at any later time changes nothing and returns the timer with the same id.
\<close>

theorem schedule_idempotent:
  assumes "env_ok (te_Store env)" "Schedule_timer env True ctx ws q source cal now st = (st1, Inr r)"
  shows "\<exists>r'. Schedule_timer env True ctx ws q source cal now' st1 = (st1, Inr r') \<and> rec_ID r' = rec_ID r"
proof -
  from assms(2) obtain c where "BuildRecordTimerMutationFromSource env ctx ws q source cal now = Inr c"
    by (auto simp: Schedule_timer_def split: sum.splits)
  from build_from_source_commit [OF this] obtain i d where b: "\<And>now'. BuildRecordTimerMutationFromSource env ctx ws q source cal now' =
      Inr (plain_commit ''create'' ''record_timer'' (new_record i (format_rfc3339nano (timer_now env now')) d) [])" by blast
  let ?c = "\<lambda>n. plain_commit ''create'' ''record_timer'' (new_record i (format_rfc3339nano (timer_now env n)) d) []"
  have pc: "mc_Object (?c n) = ''record_timer''" "rec_ID (mc_Record (?c n)) = i" "rec_ID (new_record i s d) = i" for n s
    by (simp_all add: plain_commit_def new_record_def)
  obtain st' e where 1: "CommitRecordMutationBatch (te_Store env) ws [?c now] st = (st', e)" by fastforce
  have ex: "(\<exists>x \<in> set (st1 ''record_timer''). row_is i x) \<and> rec_ID r = i"
  proof (cases e)
    case None
    with assms(2) 1 have st1: "st1 = st'" "r = mc_Record (?c now)" by (simp_all add: Schedule_timer_def b)
    let ?x = "set_columns (insert_columns (te_Store env) ''record_timer'' (mc_Record (?c now))) []"
    have "?x \<in> set (st1 ''record_timer'')"
      using create_result(2) [OF 1 None] st1 by (simp add: plain_commit_def)
    moreover have "row_is i ?x"
      by (simp add: row_is_def insert_columns_id [OF assms(1)] sql_equal_def pc)
    ultimately show ?thesis using st1 pc by auto
  next
    case (Some err)
    with assms(2) 1 have "st1 = st'" "GetRecord st' ''record_timer'' i = Some r"
      by (auto simp: Schedule_timer_def b pc split: option.splits)
    with GetRecord_Some show ?thesis by blast
  qed
  obtain st2 e2 where 2: "CommitRecordMutationBatch (te_Store env) ws [?c now'] st1 = (st2, e2)" by fastforce
  have s2: "st2 = st1" "e2 \<noteq> None" using create_result(1) [OF 2] ex by (simp_all add: pc)
  obtain r' where r': "GetRecord st1 ''record_timer'' i = Some r'" using GetRecord_exists ex by blast
  have "Schedule_timer env True ctx ws q source cal now' st1 = (st1, Inr r')"
    using 2 s2 r' by (auto simp: Schedule_timer_def b pc)
  moreover have "rec_ID r' = i" using GetRecord_Some [OF r'] by simp
  ultimately show ?thesis using ex by auto
qed

subsection \<open>Cancelling ends\<close>

definition is_scheduled :: "row \<Rightarrow> bool" where
  "is_scheduled r \<longleftrightarrow> sql_equal (data_get r ''status'') (VStr ''scheduled'')"

definition scheduled_count :: "store \<Rightarrow> nat" where
  "scheduled_count st = length (filter is_scheduled (st ''record_timer''))"

lemma filter_map_less:
  assumes "\<forall>x \<in> set xs. P (f x) \<longrightarrow> P x" "x \<in> set xs" "P x" "\<not> P (f x)"
  shows "length (filter P (map f xs)) < length (filter P xs)"
proof -
  have le: "length (filter P (map f ys)) \<le> length (filter P ys)" if "\<forall>y \<in> set ys. P (f y) \<longrightarrow> P y" for ys
    using that by (induction ys) auto
  from assms(2) obtain ys zs where xs: "xs = ys @ x # zs" by (auto simp: in_set_conv_decomp)
  with assms le [of ys] le [of zs] show ?thesis by auto
qed

lemma terminal_commit:
  assumes "BuildRecordTimerTerminalMutation env timer ''cancelled'' now = Inr c"
  shows "\<exists>u conds. c = plain_commit ''update'' ''record_timer'' u conds \<and> (''status'', VStr ''scheduled'') \<in> set conds \<and>
    map_of (rec_Data u) ''status'' = Some (VStr ''cancelled'')"
proof -
  let ?u = "(set_data [(''status'', VStr ''cancelled''), (''cancelled_at'', VStr (format_rfc3339nano (timer_now env now)))] timer)
    \<lparr> rec_UpdatedAt := format_rfc3339nano (timer_now env now) \<rparr>"
  let ?conds = "[(''status'', VStr (sprint_trim (data_get (rec_Data timer) ''status''))),
    (''fencing_token'', VInt (recordTimerInt (data_get (rec_Data timer) ''fencing_token'') 0))]"
  have "c = plain_commit ''update'' ''record_timer'' ?u ?conds" "sprint_trim (data_get (rec_Data timer) ''status'') = ''scheduled''"
    using assms unfolding BuildRecordTimerTerminalMutation_def objectForPrincipal_def Let_def
    by (simp_all split: if_splits)
  moreover have "map_of (rec_Data ?u) ''status'' = Some (VStr ''cancelled'')" by (simp add: set_data_get)
  moreover have "(''status'', VStr ''scheduled'') \<in> set ?conds" using calculation(2) by simp
  ultimately show ?thesis by blast
qed

lemma cancel_commit_decreases:
  assumes "applyRecordMutationTx (timer_store_env allowed ext many) (plain_commit ''update'' ''record_timer'' u conds) st = Inr st'"
    and "(''status'', VStr ''scheduled'') \<in> set conds" "map_of (rec_Data u) ''status'' = Some (VStr ''cancelled'')"
  shows "scheduled_count st' < scheduled_count st"
proof -
  let ?env = "timer_store_env allowed ext many" and ?c = "plain_commit ''update'' ''record_timer'' u conds"
  have pc: "mc_Object ?c = ''record_timer''" "mc_Record ?c = u" "mc_Conditions ?c = conds" by (simp_all add: plain_commit_def)
  have f: "''status'' \<in> set timer_columns" by (simp add: timer_columns_def)
  from assms(1) obtain x where x: "x \<in> set (st ''record_timer'')" "update_matches ?env ?c x"
    and st': "st' = st(''record_timer'' := map (update_row ?env ?c) (st ''record_timer''))"
    by (auto simp: apply_update [OF plain_update] pc split: if_splits)
  have m: "is_scheduled y \<and> \<not> is_scheduled (update_row ?env ?c y)" if y: "update_matches ?env ?c y" for y
  proof
    have "conditions_hold ?env ''record_timer'' conds y" using y by (simp add: update_matches_def pc)
    from timer_condition [OF this assms(2) f] show "is_scheduled y" by (simp add: is_scheduled_def dbValue_def)
    have "data_get (update_row ?env ?c y) ''status'' = VStr ''cancelled''"
      using y timer_column_written [OF f assms(3)] by (simp add: update_row_def pc dbValue_def)
    then show "\<not> is_scheduled (update_row ?env ?c y)" by (simp add: is_scheduled_def sql_equal_def)
  qed
  have keep: "is_scheduled (update_row ?env ?c y) \<longrightarrow> is_scheduled y" for y
    using m [of y] by (cases "update_matches ?env ?c y") (simp_all add: update_row_def)
  have "length (filter is_scheduled (map (update_row ?env ?c) (st ''record_timer''))) <
      length (filter is_scheduled (st ''record_timer''))"
    by (rule filter_map_less [OF _ x(1)]) (use keep m [OF x(2)] in auto)
  then show ?thesis by (simp add: scheduled_count_def st')
qed

lemma cancel_batch_decreases:
  assumes "terminal_commits env now items = Inr commits" "apply_commits (timer_store_env allowed ext many) commits st = Inr st'"
  shows "scheduled_count st' + length commits \<le> scheduled_count st"
  using assms
proof (induction env now items arbitrary: commits st rule: terminal_commits.induct)
  case (2 env now timer rest)
  from "2.prems"(1) obtain c cs where c: "BuildRecordTimerTerminalMutation env timer ''cancelled'' now = Inr c"
    and cs: "terminal_commits env now rest = Inr cs" and eq: "commits = c # cs"
    by (auto split: sum.splits)
  from "2.prems"(2) eq obtain st1 where st1: "applyRecordMutationTx (timer_store_env allowed ext many) c st = Inr st1"
    "apply_commits (timer_store_env allowed ext many) cs st1 = Inr st'" by (auto split: sum.splits)
  have "scheduled_count st1 < scheduled_count st"
    using terminal_commit [OF c] st1(1) cancel_commit_decreases by blast
  with "2.IH" [OF c cs st1(2)] eq show ?case by simp
qed simp

lemma terminal_commits_length: "terminal_commits env now items = Inr commits \<Longrightarrow> length commits = length items"
  by (induction env now items arbitrary: commits rule: terminal_commits.induct) (auto split: sum.splits)

lemma cancel_pages_returns:
  assumes "te_Store env = timer_store_env allowed ext many" "scheduled_count st < fuel"
  shows "\<exists>result. cancel_pages fuel env ws filters now cancelled st = Some result"
  using assms(2)
proof (induction fuel arbitrary: cancelled st)
  case (Suc fuel)
  show ?case
  proof (cases "\<exists>items commits st'. te_ListCancellable env st filters = Some items \<and> items \<noteq> [] \<and>
      terminal_commits env now items = Inr commits \<and>
      CommitRecordMutationBatch (te_Store env) ws commits st = (st', None)")
    case True
    then obtain items commits st' where i: "te_ListCancellable env st filters = Some items" "items \<noteq> []"
      "terminal_commits env now items = Inr commits" "CommitRecordMutationBatch (te_Store env) ws commits st = (st', None)"
      by blast
    have "apply_commits (timer_store_env allowed ext many) commits st = Inr st'"
      using i(4) assms(1) by (auto simp: CommitRecordMutationBatch_def split: if_splits sum.splits)
    from cancel_batch_decreases [OF i(3) this] have "scheduled_count st' < fuel"
      using Suc.prems i(2) terminal_commits_length [OF i(3)] by (cases items) auto
    from Suc.IH [OF this] i show ?thesis by simp
  next
    case False
    then show ?thesis by (auto split: option.splits sum.splits prod.splits)
  qed
qed simp

text \<open>
  Cancelling the timers of a record ends: every page that is cancelled leaves fewer scheduled
  timers, so one more round than there are scheduled timers is enough for the loop to return,
  whatever pages the queries answer.
\<close>

theorem cancel_timers_terminates:
  assumes "te_Store env = timer_store_env allowed ext many" "scheduled_count st < fuel"
  shows "\<exists>result. CancelRecordTimers fuel env scope ws objectKey recordID purpose now st = Some result"
  using cancel_pages_returns [OF assms] by (simp add: CancelRecordTimers_def split: sum.splits)

subsection \<open>Example runs\<close>

definition example_timer_env :: timer_env where
  "example_timer_env = \<lparr> te_Store = example_timer_store, te_Objects = [''record_timer'', ''record_timer_event''],
     te_Clock = 0, te_Config = \<lparr> wc_Enabled = True, wc_PollInterval = 0, wc_BatchSize = 0, wc_LeaseTTL = 0 \<rparr>,
     te_WorkerID = ''A'', te_SHA256 = (\<lambda>s. s), te_Load = example_load, te_JSON = (\<lambda>s. Some (Some [])),
     te_ListScheduled = (\<lambda>st stamp n. Some []), te_ListExpired = (\<lambda>st stamp n. Some []),
     te_ListCancellable = (\<lambda>st fs. Some []), te_ListWorkspaces = (\<lambda>now. Some [''w1'', ''w2'', ''w3'']),
     te_CodeOf = err_Code, te_ErrorText = err_Code, te_Execute = Some (\<lambda>x st. (st, None)) \<rparr>"

definition example_workspaces :: "string list" where
  "example_workspaces = [''w1'', ''w2'', ''w3'']"


definition example_schedule :: Schedule where
  "example_schedule = \<lparr> sc_TimerKey = ''k'', sc_ObjectKey = ''order'', sc_RecordID = ''o1'', sc_Purpose = ''remind'',
     sc_ScheduleMode = [], sc_DueAt = 0, sc_SourceField = [], sc_OffsetSeconds = 0, sc_Timezone = [],
     sc_BusinessCalendarKey = [], sc_BusinessCalendarRevision = [], sc_TargetType = ''action'', sc_TargetKey = ''a'',
     sc_PayloadJSON = [], sc_Priority = 0, sc_Sequence = 0, sc_MaxAttempts = 0, sc_RetryDelaySeconds = 0,
     sc_RetryMaxDelaySeconds = 0, sc_SupersedesTimerID = [] \<rparr>"

lemma example_validate: "ValidateSchedule example_load (\<lambda>s. Some (Some [])) (NormalizeSchedule example_schedule) = None"
  by code_simp

theorem retry_delay_closed_form_witness:
  "RetryDelay (new_record ''t1'' ''x'' [(''retry_delay_seconds'', VInt 1), (''retry_max_delay_seconds'', VInt 60),
     (''attempt'', VInt 4)]) = 8 * second"
proof -
  let ?r = "new_record ''t1'' ''x'' [(''retry_delay_seconds'', VInt 1), (''retry_max_delay_seconds'', VInt 60), (''attempt'', VInt 4)]"
  have n: "sc_RetryDelaySeconds (NormalizeSchedule example_schedule) = 1"
    "sc_RetryMaxDelaySeconds (NormalizeSchedule example_schedule) = 60"
    by (simp_all add: NormalizeSchedule_def example_schedule_def int_or_def Let_def)
  have "intValue (data_get (rec_Data ?r) ''retry_delay_seconds'') 1 = 1"
    "intValue (data_get (rec_Data ?r) ''retry_max_delay_seconds'') 60 = 60"
    "intValue (data_get (rec_Data ?r) ''attempt'') 1 = 4"
    by (simp_all add: new_record_def map_get_def intValue_int in_int64_def)
  from retry_delay_closed_form [OF example_validate, of ?r, unfolded n, OF this] show ?thesis
    by (simp add: second_def)
qed

theorem schedule_idempotent_witness:
  "\<exists>st1 r r'. Schedule_timer example_timer_env True (\<lambda>_. False) ''w1'' example_schedule (new_record [] [] []) None 1 (\<lambda>_. []) = (st1, Inr r) \<and>
     Schedule_timer example_timer_env True (\<lambda>_. False) ''w1'' example_schedule (new_record [] [] []) None 2 st1 = (st1, Inr r')"
proof -
  let ?S = "Schedule_timer example_timer_env True (\<lambda>_. False) ''w1'' example_schedule (new_record [] [] []) None"
  have n: "sc_ScheduleMode (NormalizeSchedule example_schedule) = ''absolute''"
    "example_load (sc_Timezone (NormalizeSchedule example_schedule)) = Some (fixed_zone 0)"
    by (simp_all add: NormalizeSchedule_def example_schedule_def text_or_def default_texts_trimmed example_load_def Let_def)
  have r: "ResolveSchedule example_load (\<lambda>_. False) example_schedule (new_record [] [] []) None =
      Inr (NormalizeSchedule example_schedule)"
    by (simp add: ResolveSchedule_def pin_calendar_def n schedule_base_def reads_source_def)
  have "\<exists>c. BuildRecordTimerMutationFromSource example_timer_env (\<lambda>_. False) ''w1'' example_schedule (new_record [] [] []) None 1 = Inr c"
    by (simp add: BuildRecordTimerMutationFromSource_def BuildRecordTimerMutation_def example_timer_env_def r
        schedule_normal.normalize_idem example_validate objectForPrincipal_def Let_def)
  then obtain c where c: "BuildRecordTimerMutationFromSource example_timer_env (\<lambda>_. False) ''w1'' example_schedule
      (new_record [] [] []) None 1 = Inr c" by blast
  from build_from_source_commit [OF c] obtain i d where pc: "c = plain_commit ''create'' ''record_timer''
      (new_record i (format_rfc3339nano (timer_now example_timer_env 1)) d) []"
    using c by auto
  have w: "trim_space ''w1'' = ''w1''" by code_simp
  have "\<exists>st1. CommitRecordMutationBatch example_timer_store ''w1'' [c] (\<lambda>_. []) = (st1, None)"
    by (simp add: CommitRecordMutationBatch_def applyRecordMutationTx_def pc plain_commit_def create_trim w Let_def)
       (simp add: timer_store_env_def)
  then obtain st1 where "?S 1 (\<lambda>_. []) = (st1, Inr (mc_Record c))"
    by (auto simp: Schedule_timer_def c) (auto simp: example_timer_env_def)
  moreover have "env_ok (te_Store example_timer_env)"
    by (simp add: example_timer_env_def timer_store_env_ok)
  ultimately show ?thesis using schedule_idempotent by blast
qed

definition example_lease :: Lease where
  "example_lease = \<lparr> le_Record = new_record ''t1'' ''x'' [(''attempt'', VInt 3), (''max_attempts'', VInt 3)],
     le_Owner = ''A'', le_Token = 1 \<rparr>"

definition example_timer_table :: store where
  "example_timer_table = (\<lambda>object. if object = ''record_timer'' then [[(''id'', VStr ''t1''), (''status'', VStr ''leased''),
     (''lease_owner'', VStr ''A''), (''fencing_token'', VInt64 1)]] else [])"

theorem failed_timer_effect_witness:
  "\<exists>st'. FailRecordTimer example_timer_env True ''w1'' example_lease (Some scope_error) 5 example_timer_table = (st', None) \<and>
     data_get (hd (st' ''record_timer'')) ''status'' = VStr ''failed''"
proof -
  let ?u = "failed_record example_timer_env example_lease scope_error 5"
  let ?c = "plain_commit ''update'' ''record_timer'' ?u (lease_conditions example_lease)"
  have w: "trim_space ''w1'' = ''w1''" by code_simp
  have z: "(5 :: int) \<noteq> zero_time" by (simp add: zero_time_def unix_epoch_days_def time_units)
  have keys: "keys_ok example_timer_table"
    by (simp add: keys_ok_def example_timer_table_def row_id_def map_get_def)
  have store: "te_Store example_timer_env = example_timer_store" by (simp add: example_timer_env_def)
  have "rec_ID ?u = ''t1''" by (simp add: failed_record_columns(1) example_lease_def new_record_def)
  then have "\<exists>x \<in> set (example_timer_table ''record_timer''). update_matches example_timer_store ?c x"
    unfolding plain_commit_matches conditions_hold_def
    by (simp add: example_timer_table_def row_is_def map_get_def sql_equal_def recordConditionDBValue_def
        timer_store_fields dbValue_def lease_conditions_def example_lease_def) (simp add: timer_store_env_def)
  then obtain st1 where st1: "applyRecordMutationTx example_timer_store ?c example_timer_table = Inr st1"
    "st1 ''record_timer_event'' = []"
    by (simp add: apply_update [OF plain_update]) (simp add: plain_commit_def example_timer_table_def)
  have "\<exists>st'. applyRecordMutationTx example_timer_store (plain_commit ''create'' ''record_timer_event'' v []) st1 = Inr st'" for v
    by (simp add: applyRecordMutationTx_def plain_commit_def create_trim st1(2) Let_def) (simp add: timer_store_env_def)
  then have "\<exists>st'. applyRecordMutationTx example_timer_store (buildRecordTimerEventCommit example_timer_env ''record_timer_event''
      ?u ev o' e m n 5) st1 = Inr st'" for ev o' e m n
    using event_commit_plain by metis
  note event = this
  have batch: "\<exists>st'. CommitRecordMutationBatch example_timer_store ''w1'' [?c, buildRecordTimerEventCommit example_timer_env
      ''record_timer_event'' ?u ev o' e m n 5] example_timer_table = (st', None)" for ev o' e m n
    by (rule batch_pair_ok [OF st1(1) event]) (simp add: w)
  have "timer_objects example_timer_env = Inr (''record_timer'', ''record_timer_event'')"
    by (simp add: timer_objects_def objectForPrincipal_def example_timer_env_def)
  then have "\<exists>st'. FailRecordTimer example_timer_env True ''w1'' example_lease (Some scope_error) 5 example_timer_table = (st', None)"
    using z unfolding FailRecordTimer_def timer_now_def Let_def
    by (simp only: option.case sum.case if_False not_True_eq_False fst_conv snd_conv)
       (rule commit_lease_ok, unfold store, rule batch)
  then obtain st' where st': "FailRecordTimer example_timer_env True ''w1'' example_lease (Some scope_error) 5 example_timer_table = (st', None)"
    by blast
  have i: "recordTimerInt (VInt 3) d = 3" for d by (simp add: recordTimerInt_def in_int64_def)
  from failed_timer_effect [OF store keys z st'] have "data_get (st' ''record_timer'' ! 0) ''status'' = VStr ''failed''"
    "st' ''record_timer'' \<noteq> []"
    by (auto simp: Let_def example_timer_table_def example_lease_def new_record_def map_get_def i)
  with st' show ?thesis by (auto simp: hd_conv_nth)
qed

theorem cancel_timers_terminates_witness:
  "\<exists>result. CancelRecordTimers 1 example_timer_env True ''w1'' ''order'' ''o1'' [] 0 example_timer_table = Some result"
proof (rule cancel_timers_terminates)
  show "te_Store example_timer_env = example_timer_store" by (simp add: example_timer_env_def)
  show "scheduled_count example_timer_table < 1"
    by (simp add: scheduled_count_def is_scheduled_def example_timer_table_def map_get_def sql_equal_def)
qed

end
