(* ===== verification/Boundary_Intent.thy ===== *)
theory Boundary_Intent
  imports Go_Time Go_Values Fenced_Lease
begin

text \<open>
  Boundary intents (\<open>runtime/domain/transaction/model/transaction_boundary_intent.go\<close> and
  \<open>runtime/infrastructure/persistence/database/transaction/boundary_intent_store.go\<close>): durable
  intents to call across a transaction boundary, with their state machine, claim and fenced
  transition.

  The table is the list of its rows. Two constraints of the schema reject an insert: the primary
  key \<open>id\<close> and the unique index on workspace, owner, operation and idempotency key. Timestamps are
  text columns and compare as texts. Outside the model are \<open>sha256\<close> in hexadecimal, the clock, and
  JSON: whether a payload can be encoded, and what decoding an encoded payload gives.
\<close>

subsection \<open>Intents and their states\<close>

definition BoundaryIntentPending :: string where "BoundaryIntentPending = ''pending''"
definition BoundaryIntentExecuting :: string where "BoundaryIntentExecuting = ''executing''"
definition BoundaryIntentReconciliationRequired :: string where
  "BoundaryIntentReconciliationRequired = ''reconciliation_required''"
definition BoundaryIntentCompensating :: string where "BoundaryIntentCompensating = ''compensating''"
definition BoundaryIntentSucceeded :: string where "BoundaryIntentSucceeded = ''succeeded''"
definition BoundaryIntentCompensated :: string where "BoundaryIntentCompensated = ''compensated''"
definition BoundaryIntentManualReview :: string where "BoundaryIntentManualReview = ''manual_review''"

lemmas intent_states = BoundaryIntentPending_def BoundaryIntentExecuting_def
  BoundaryIntentReconciliationRequired_def BoundaryIntentCompensating_def BoundaryIntentSucceeded_def
  BoundaryIntentCompensated_def BoundaryIntentManualReview_def

record BoundaryIntent =
  bi_ID :: string
  bi_WorkspaceID :: string
  bi_Owner :: string
  bi_Operation :: string
  bi_ResourceID :: string
  bi_IdempotencyKey :: string
  bi_Status :: string
  bi_Payload :: data
  bi_CompensationPayload :: data
  bi_AttemptCount :: int
  bi_NextAttemptAt :: string
  bi_LeaseOwner :: string
  bi_LeaseExpiresAt :: string
  bi_FencingToken :: int
  bi_LastError :: string
  bi_CreatedAt :: string
  bi_UpdatedAt :: string

definition allowed_transitions :: "(string \<times> string list) list" where
  "allowed_transitions =
     [(BoundaryIntentPending, [BoundaryIntentExecuting]),
      (BoundaryIntentExecuting, [BoundaryIntentSucceeded, BoundaryIntentReconciliationRequired]),
      (BoundaryIntentReconciliationRequired, [BoundaryIntentExecuting, BoundaryIntentCompensating, BoundaryIntentManualReview]),
      (BoundaryIntentCompensating, [BoundaryIntentCompensated, BoundaryIntentManualReview])]"

definition BoundaryIntentTransitionAllowed :: "string \<Rightarrow> string \<Rightarrow> bool" where
  "BoundaryIntentTransitionAllowed from to \<longleftrightarrow>
     trim_space from \<noteq> [] \<and> to \<in> set (map_get [] allowed_transitions from)"

subsection \<open>The store\<close>

datatype intent_error =
    IntentContext | IntentWorkspaceRequired | IntentIdentityRequired | IntentEncode | IntentInsert
  | IntentClaimIdentity | IntentClaimTime | IntentNotFound | IntentTransitionNotAllowed string string
  | IntentTransactionRequired | IntentLeaseLost string

record intent_env =
  ie_SHA256 :: "string \<Rightarrow> string"
  ie_Now :: int
  ie_Encodable :: "data \<Rightarrow> bool"
  ie_Recoded :: "data \<Rightarrow> data"

definition requireBoundaryIntentWorkspaceID :: "string \<Rightarrow> intent_error + string" where
  "requireBoundaryIntentWorkspaceID workspaceID =
     (if trim_space workspaceID = [] then Inl IntentWorkspaceRequired else Inr (trim_space workspaceID))"

definition scanBoundaryIntent :: "intent_env \<Rightarrow> BoundaryIntent \<Rightarrow> BoundaryIntent" where
  "scanBoundaryIntent env r = r \<lparr> bi_Payload := ie_Recoded env (bi_Payload r),
     bi_CompensationPayload := ie_Recoded env (bi_CompensationPayload r) \<rparr>"

definition GetBoundaryIntent :: "intent_env \<Rightarrow> BoundaryIntent list \<Rightarrow> string \<Rightarrow> string \<Rightarrow> BoundaryIntent option" where
  "GetBoundaryIntent env rows workspaceID i = map_option (scanBoundaryIntent env)
     (find (\<lambda>r. bi_WorkspaceID r = workspaceID \<and> bi_ID r = trim_space i) rows)"

definition findByIdentity ::
    "intent_env \<Rightarrow> BoundaryIntent list \<Rightarrow> string \<Rightarrow> string \<Rightarrow> string \<Rightarrow> string \<Rightarrow> BoundaryIntent option" where
  "findByIdentity env rows workspaceID owner operation key = map_option (scanBoundaryIntent env)
     (find (\<lambda>r. bi_WorkspaceID r = workspaceID \<and> bi_Owner r = owner \<and> bi_Operation r = operation \<and>
        bi_IdempotencyKey r = key) rows)"

definition nul_byte :: string where
  "nul_byte = [char_of (0 :: nat)]"

definition boundaryIntentInsert :: "intent_env \<Rightarrow> BoundaryIntent \<Rightarrow> intent_error + BoundaryIntent" where
  "boundaryIntentInsert env intent0 = (case requireBoundaryIntentWorkspaceID (bi_WorkspaceID intent0) of
      Inl e \<Rightarrow> Inl e
    | Inr workspaceID \<Rightarrow> (let
        owner = trim_space (bi_Owner intent0); operation = trim_space (bi_Operation intent0);
        key = trim_space (bi_IdempotencyKey intent0)
      in if owner = [] \<or> operation = [] \<or> key = [] then Inl IntentIdentityRequired
         else if \<not> ie_Encodable env (bi_Payload intent0) \<or> \<not> ie_Encodable env (bi_CompensationPayload intent0)
           then Inl IntentEncode
         else (let now = format_rfc3339nano (ie_Now env) in
           Inr (intent0 \<lparr> bi_WorkspaceID := workspaceID, bi_Owner := owner, bi_Operation := operation,
             bi_IdempotencyKey := key,
             bi_ID := (if bi_ID intent0 = [] then ''boundary_intent:'' @ take 24 (ie_SHA256 env
               (str_join nul_byte [workspaceID, owner, operation, key])) else bi_ID intent0),
             bi_Status := (if bi_Status intent0 = [] then BoundaryIntentPending else bi_Status intent0),
             bi_CreatedAt := now, bi_UpdatedAt := now \<rparr>))))"

definition same_identity :: "BoundaryIntent \<Rightarrow> BoundaryIntent \<Rightarrow> bool" where
  "same_identity a b \<longleftrightarrow> bi_WorkspaceID a = bi_WorkspaceID b \<and> bi_Owner a = bi_Owner b \<and>
     bi_Operation a = bi_Operation b \<and> bi_IdempotencyKey a = bi_IdempotencyKey b"

text \<open>The insert statement; \<open>None\<close> when a constraint rejects it.\<close>

definition insert_row :: "BoundaryIntent \<Rightarrow> BoundaryIntent list \<Rightarrow> BoundaryIntent list option" where
  "insert_row intent rows = (if \<exists>r \<in> set rows. bi_ID r = bi_ID intent \<or> same_identity r intent
     then None else Some (rows @ [intent]))"

definition CreateBoundaryIntent ::
    "intent_env \<Rightarrow> bool \<Rightarrow> BoundaryIntent \<Rightarrow> BoundaryIntent list \<Rightarrow>
       BoundaryIntent list \<times> (intent_error + BoundaryIntent \<times> bool)" where
  "CreateBoundaryIntent env cancelled intent0 rows =
     (if cancelled then (rows, Inl IntentContext)
      else (case boundaryIntentInsert env intent0 of
          Inl e \<Rightarrow> (rows, Inl e)
        | Inr intent \<Rightarrow> (case insert_row intent rows of
            Some rows' \<Rightarrow> (rows', Inr (intent, False))
          | None \<Rightarrow> (case findByIdentity env rows (bi_WorkspaceID intent) (bi_Owner intent) (bi_Operation intent)
                (bi_IdempotencyKey intent) of
              Some existing \<Rightarrow> (rows, Inr (existing, True))
            | None \<Rightarrow> (rows, Inl IntentInsert)))))"

text \<open>The insert on a caller's transaction; the transaction's table is an option, \<open>None\<close> for nil.\<close>

definition InsertBoundaryIntentTx ::
    "intent_env \<Rightarrow> bool \<Rightarrow> BoundaryIntent \<Rightarrow> BoundaryIntent list option \<Rightarrow>
       BoundaryIntent list option \<times> (intent_error + BoundaryIntent)" where
  "InsertBoundaryIntentTx env cancelled intent0 tx = (case tx of
      None \<Rightarrow> (tx, Inl IntentTransactionRequired)
    | Some rows \<Rightarrow>
        if cancelled then (tx, Inl IntentContext)
        else (case boundaryIntentInsert env intent0 of
            Inl e \<Rightarrow> (tx, Inl e)
          | Inr intent \<Rightarrow> (case insert_row intent rows of
              Some rows' \<Rightarrow> (Some rows', Inr intent) | None \<Rightarrow> (tx, Inl IntentInsert))))"

subsection \<open>Claim\<close>

text \<open>A parsed time keeps the zone of its text, in which it is printed again.\<close>

definition text_zone :: "string \<Rightarrow> int" where
  "text_zone s = (case parse_zone (drop (length s - 6) s) of
      Some off \<Rightarrow> if last s = CHR ''Z'' then 0 else off | None \<Rightarrow> 0)"

definition zone_suffix :: "int \<Rightarrow> string" where
  "zone_suffix off = (if off = 0 then ''Z'' else (let m = \<bar>off\<bar> div 60 in
     (if off < 0 then ''-'' else ''+'') @ pad2 (m div 60) @ '':'' @ pad2 (m mod 60)))"

definition format_in_zone :: "int \<Rightarrow> int \<Rightarrow> string" where
  "format_in_zone off t = butlast (format_rfc3339nano (t + off * second)) @ zone_suffix off"

definition claimable :: "string \<Rightarrow> BoundaryIntent \<Rightarrow> bool" where
  "claimable nowText r \<longleftrightarrow>
     (bi_Status r = BoundaryIntentPending \<or> bi_Status r = BoundaryIntentReconciliationRequired) \<and>
       (bi_NextAttemptAt r = [] \<or> bi_NextAttemptAt r \<le> nowText) \<or>
     bi_Status r = BoundaryIntentExecuting \<and> bi_LeaseExpiresAt r \<le> nowText"

definition claim_row :: "string \<Rightarrow> string \<Rightarrow> string \<Rightarrow> BoundaryIntent \<Rightarrow> BoundaryIntent" where
  "claim_row owner nowText expires r = r \<lparr> bi_Status := BoundaryIntentExecuting, bi_LeaseOwner := owner,
     bi_LeaseExpiresAt := expires, bi_FencingToken := bi_FencingToken r + 1, bi_UpdatedAt := nowText \<rparr>"

definition update_where :: "(BoundaryIntent \<Rightarrow> bool) \<Rightarrow> (BoundaryIntent \<Rightarrow> BoundaryIntent) \<Rightarrow> BoundaryIntent list \<Rightarrow>
    BoundaryIntent list \<times> nat" where
  "update_where p f rows = (map (\<lambda>r. if p r then f r else r) rows, length (filter p rows))"

definition claim_expires :: "string \<Rightarrow> int \<Rightarrow> string" where
  "claim_expires nowText now = format_in_zone (text_zone nowText) (now + 90 * second)"

definition ClaimBoundaryIntent ::
    "intent_env \<Rightarrow> string \<Rightarrow> string \<Rightarrow> string \<Rightarrow> string \<Rightarrow> BoundaryIntent list \<Rightarrow>
       BoundaryIntent list \<times> (intent_error + BoundaryIntent option \<times> bool)" where
  "ClaimBoundaryIntent env workspaceID0 i0 owner0 nowText rows =
     (case requireBoundaryIntentWorkspaceID workspaceID0 of
        Inl e \<Rightarrow> (rows, Inl e)
      | Inr workspaceID \<Rightarrow> (let i = trim_space i0; owner = trim_space owner0 in
          if i = [] \<or> owner = [] then (rows, Inl IntentClaimIdentity)
          else (case parse_rfc3339 nowText of
              None \<Rightarrow> (rows, Inl IntentClaimTime)
            | Some now \<Rightarrow> (let
                (rows', affected) = update_where (\<lambda>r. bi_WorkspaceID r = workspaceID \<and> bi_ID r = i \<and> claimable nowText r)
                  (claim_row owner nowText (claim_expires nowText now)) rows
              in (case GetBoundaryIntent env rows' workspaceID i of
                  None \<Rightarrow> (rows', Inr (None, False))
                | Some intent \<Rightarrow> (rows', Inr (Some intent, affected = 1)))))))"

subsection \<open>Transition\<close>

definition attempt_increment :: "string \<Rightarrow> int" where
  "attempt_increment next =
     (if next = BoundaryIntentReconciliationRequired \<or> next = BoundaryIntentManualReview then 1 else 0)"

definition transition_row :: "string \<Rightarrow> string \<Rightarrow> string \<Rightarrow> string \<Rightarrow> BoundaryIntent \<Rightarrow> BoundaryIntent" where
  "transition_row next errorText nextAttemptAt now r = r \<lparr> bi_Status := next, bi_LastError := trim_space errorText,
     bi_NextAttemptAt := trim_space nextAttemptAt, bi_AttemptCount := bi_AttemptCount r + attempt_increment next,
     bi_LeaseOwner := [], bi_LeaseExpiresAt := [], bi_UpdatedAt := now \<rparr>"

definition TransitionBoundaryIntent ::
    "intent_env \<Rightarrow> string \<Rightarrow> string \<Rightarrow> string \<Rightarrow> int \<Rightarrow> string \<Rightarrow> string \<Rightarrow> string \<Rightarrow> BoundaryIntent list \<Rightarrow>
       BoundaryIntent list \<times> (intent_error + BoundaryIntent option)" where
  "TransitionBoundaryIntent env workspaceID0 i owner token next errorText nextAttemptAt rows =
     (case requireBoundaryIntentWorkspaceID workspaceID0 of
        Inl e \<Rightarrow> (rows, Inl e)
      | Inr workspaceID \<Rightarrow> (case GetBoundaryIntent env rows workspaceID i of
          None \<Rightarrow> (rows, Inl IntentNotFound)
        | Some current \<Rightarrow>
            if \<not> BoundaryIntentTransitionAllowed (bi_Status current) next
              then (rows, Inl (IntentTransitionNotAllowed (bi_Status current) next))
            else (let (rows', affected) = update_where
                (\<lambda>r. bi_WorkspaceID r = workspaceID \<and> bi_ID r = i \<and> bi_Status r = bi_Status current \<and>
                   bi_LeaseOwner r = trim_space owner \<and> bi_FencingToken r = token)
                (transition_row next errorText nextAttemptAt (format_rfc3339nano (ie_Now env))) rows
              in if affected \<noteq> 1 then (rows', Inl (IntentLeaseLost i))
                 else (rows', Inr (GetBoundaryIntent env rows' workspaceID i)))))"


subsection \<open>The life cycle of an intent\<close>

text \<open>Any interleaving of the store's operations, by any number of callers and clocks.\<close>

inductive intent_step :: "BoundaryIntent list \<Rightarrow> BoundaryIntent list \<Rightarrow> bool" where
  Create: "intent_step rows (fst (CreateBoundaryIntent env cancelled intent rows))"
| Insert: "InsertBoundaryIntentTx env cancelled intent (Some rows) = (Some rows', res) \<Longrightarrow> intent_step rows rows'"
| Claim: "intent_step rows (fst (ClaimBoundaryIntent env workspaceID i owner nowText rows))"
| Transition: "intent_step rows
    (fst (TransitionBoundaryIntent env workspaceID i owner token next errorText nextAttemptAt rows))"

lemma allowed_iff:
  "BoundaryIntentTransitionAllowed from to \<longleftrightarrow>
     from = BoundaryIntentPending \<and> to = BoundaryIntentExecuting \<or>
     from = BoundaryIntentExecuting \<and> (to = BoundaryIntentSucceeded \<or> to = BoundaryIntentReconciliationRequired) \<or>
     from = BoundaryIntentReconciliationRequired \<and>
       (to = BoundaryIntentExecuting \<or> to = BoundaryIntentCompensating \<or> to = BoundaryIntentManualReview) \<or>
     from = BoundaryIntentCompensating \<and> (to = BoundaryIntentCompensated \<or> to = BoundaryIntentManualReview)"
proof -
  have "trim_space BoundaryIntentPending \<noteq> []" "trim_space BoundaryIntentExecuting \<noteq> []"
    "trim_space BoundaryIntentReconciliationRequired \<noteq> []" "trim_space BoundaryIntentCompensating \<noteq> []"
    by code_simp+
  moreover have "distinct [BoundaryIntentPending, BoundaryIntentExecuting, BoundaryIntentReconciliationRequired,
    BoundaryIntentCompensating]" by code_simp
  ultimately show ?thesis
    unfolding BoundaryIntentTransitionAllowed_def allowed_transitions_def map_get_def by auto
qed

definition terminal_status :: "string \<Rightarrow> bool" where
  "terminal_status st \<longleftrightarrow> (\<forall>to. \<not> BoundaryIntentTransitionAllowed st to)"

text \<open>What one operation may do to one row.\<close>

definition row_progress :: "BoundaryIntent \<Rightarrow> BoundaryIntent \<Rightarrow> bool" where
  "row_progress r r' \<longleftrightarrow> r' = r \<or>
     bi_ID r' = bi_ID r \<and> same_identity r' r \<and> bi_Payload r' = bi_Payload r \<and>
     bi_CompensationPayload r' = bi_CompensationPayload r \<and>
     bi_FencingToken r \<le> bi_FencingToken r' \<and> bi_AttemptCount r \<le> bi_AttemptCount r' \<and>
     (BoundaryIntentTransitionAllowed (bi_Status r) (bi_Status r') \<or>
      bi_Status r = BoundaryIntentExecuting \<and> bi_Status r' = BoundaryIntentExecuting \<and>
        bi_FencingToken r < bi_FencingToken r')"

lemma claim_progress: "claimable nowText r \<Longrightarrow> row_progress r (claim_row owner nowText expires r)"
  by (auto simp: row_progress_def claim_row_def claimable_def allowed_iff same_identity_def)

lemma transition_progress:
  "BoundaryIntentTransitionAllowed (bi_Status r) next \<Longrightarrow> row_progress r (transition_row next e n now r)"
  by (simp add: row_progress_def transition_row_def same_identity_def attempt_increment_def)

lemma row_progress_refl: "row_progress r r"
  by (simp add: row_progress_def)

lemma update_where_progress:
  "(\<And>r. p r \<Longrightarrow> row_progress r (f r)) \<Longrightarrow> list_all2 row_progress rows (fst (update_where p f rows))"
  by (simp add: update_where_def list_all2_conv_all_nth row_progress_refl)

lemma rows_refl: "list_all2 row_progress rows rows"
  by (simp add: list_all2_refl row_progress_refl)

lemma get_status: "GetBoundaryIntent env rows w i = Some c \<Longrightarrow> \<exists>r \<in> set rows. bi_Status c = bi_Status r"
  by (auto simp: GetBoundaryIntent_def scanBoundaryIntent_def find_Some_iff)

lemma insert_row_Some: "insert_row intent rows = Some rows' \<Longrightarrow> rows' = rows @ [intent]"
  by (simp add: insert_row_def split: if_splits)

lemma claim_rows:
  "fst (ClaimBoundaryIntent env w i owner nowText rows) = rows \<or>
   (\<exists>p expires. (\<forall>r. p r \<longrightarrow> claimable nowText r) \<and> fst (ClaimBoundaryIntent env w i owner nowText rows) =
      fst (update_where p (claim_row (trim_space owner) nowText expires) rows))"
proof (cases "\<exists>ws now. requireBoundaryIntentWorkspaceID w = Inr ws \<and> trim_space i \<noteq> [] \<and> trim_space owner \<noteq> [] \<and>
    parse_rfc3339 nowText = Some now")
  case True
  then obtain ws now where c: "requireBoundaryIntentWorkspaceID w = Inr ws" "trim_space i \<noteq> []"
    "trim_space owner \<noteq> []" "parse_rfc3339 nowText = Some now" by blast
  let ?p = "\<lambda>r. bi_WorkspaceID r = ws \<and> bi_ID r = trim_space i \<and> claimable nowText r"
  have "fst (ClaimBoundaryIntent env w i owner nowText rows) =
    fst (update_where ?p (claim_row (trim_space owner) nowText (claim_expires nowText now)) rows)"
    by (simp add: ClaimBoundaryIntent_def c update_where_def Let_def split: option.split)
  then show ?thesis
    by (intro disjI2 exI [of _ ?p] exI [of _ "claim_expires nowText now"] conjI) simp_all
next
  case False
  then have "fst (ClaimBoundaryIntent env w i owner nowText rows) = rows"
    by (auto simp: ClaimBoundaryIntent_def Let_def split: sum.split option.split)
  then show ?thesis by simp
qed

lemma transition_rows:
  "fst (TransitionBoundaryIntent env w i owner token next e n rows) = rows \<or>
   (\<exists>p now. (\<forall>r. p r \<longrightarrow> BoundaryIntentTransitionAllowed (bi_Status r) next \<and> bi_FencingToken r = token) \<and>
      fst (TransitionBoundaryIntent env w i owner token next e n rows) =
      fst (update_where p (transition_row next e n now) rows))"
proof (cases "\<exists>ws c. requireBoundaryIntentWorkspaceID w = Inr ws \<and> GetBoundaryIntent env rows ws i = Some c \<and>
    BoundaryIntentTransitionAllowed (bi_Status c) next")
  case True
  then obtain ws c where c: "requireBoundaryIntentWorkspaceID w = Inr ws" "GetBoundaryIntent env rows ws i = Some c"
    "BoundaryIntentTransitionAllowed (bi_Status c) next" by blast
  let ?p = "\<lambda>r. bi_WorkspaceID r = ws \<and> bi_ID r = i \<and> bi_Status r = bi_Status c \<and>
    bi_LeaseOwner r = trim_space owner \<and> bi_FencingToken r = token"
  have "fst (TransitionBoundaryIntent env w i owner token next e n rows) =
    fst (update_where ?p (transition_row next e n (format_rfc3339nano (ie_Now env))) rows)"
    by (simp add: TransitionBoundaryIntent_def c update_where_def)
  then show ?thesis
    using c(3) by (intro disjI2 exI [of _ ?p] exI [of _ "format_rfc3339nano (ie_Now env)"] conjI) simp_all
next
  case False
  then have "fst (TransitionBoundaryIntent env w i owner token next e n rows) = rows"
    by (auto simp: TransitionBoundaryIntent_def split: sum.split option.split)
  then show ?thesis by simp
qed

lemma create_rows:
  "fst (CreateBoundaryIntent env cancelled intent rows) = rows \<or>
   (\<exists>x. fst (CreateBoundaryIntent env cancelled intent rows) = rows @ [x])"
  unfolding CreateBoundaryIntent_def by (auto split: sum.splits option.splits dest: insert_row_Some)

lemma insert_tx_rows:
  "InsertBoundaryIntentTx env cancelled intent (Some rows) = (Some rows', res) \<Longrightarrow> rows' = rows \<or> (\<exists>x. rows' = rows @ [x])"
  unfolding InsertBoundaryIntentTx_def by (auto split: sum.splits option.splits if_splits dest: insert_row_Some)

lemma intent_step_progress:
  assumes "intent_step rows rows'"
  shows "\<exists>old new. rows' = old @ new \<and> list_all2 row_progress rows old"
proof -
  from assms have "(\<exists>x. rows' = rows @ x) \<or> list_all2 row_progress rows rows'"
  proof cases
    case (Create env cancelled intent)
    with create_rows [of env cancelled intent rows] show ?thesis by auto
  next
    case (Insert env cancelled intent res)
    with insert_tx_rows [OF Insert] show ?thesis by auto
  next
    case (Claim env workspaceID i owner nowText)
    with claim_rows [of env workspaceID i owner nowText rows] show ?thesis
      by (auto simp: rows_refl intro!: update_where_progress claim_progress)
  next
    case (Transition env workspaceID i owner token nxt e n)
    with transition_rows [of env workspaceID i owner token nxt e n rows] show ?thesis
      by (auto simp: rows_refl intro!: update_where_progress transition_progress)
  qed
  then show ?thesis using rows_refl by (metis append_Nil2)
qed

text \<open>The fate of the row at one position, over any number of steps.\<close>

definition row_follows :: "BoundaryIntent \<Rightarrow> BoundaryIntent \<Rightarrow> bool" where
  "row_follows r r' \<longleftrightarrow> bi_ID r' = bi_ID r \<and> same_identity r' r \<and> bi_Payload r' = bi_Payload r \<and>
     bi_CompensationPayload r' = bi_CompensationPayload r \<and>
     bi_FencingToken r \<le> bi_FencingToken r' \<and> bi_AttemptCount r \<le> bi_AttemptCount r' \<and>
     BoundaryIntentTransitionAllowed\<^sup>*\<^sup>* (bi_Status r) (bi_Status r') \<and>
     (terminal_status (bi_Status r) \<longrightarrow> r' = r)"

lemma executing_not_terminal: "\<not> terminal_status BoundaryIntentExecuting"
  by (auto simp: terminal_status_def allowed_iff)

lemma progress_follows: "row_progress r r' \<Longrightarrow> row_follows r r'"
  using executing_not_terminal
  by (auto simp: row_progress_def row_follows_def same_identity_def terminal_status_def)

lemma row_follows_trans: "row_follows a b \<Longrightarrow> row_follows b c \<Longrightarrow> row_follows a c"
  unfolding row_follows_def same_identity_def by (auto intro: rtranclp_trans)

lemma intent_steps_follow:
  assumes "intent_step\<^sup>*\<^sup>* rows rows'" and "k < length rows"
  shows "k < length rows' \<and> row_follows (rows ! k) (rows' ! k)"
  using assms(1)
proof (induction rule: rtranclp_induct)
  case base
  show ?case using assms(2) progress_follows [OF row_progress_refl] by simp
next
  case (step ys zs)
  from intent_step_progress [OF step.hyps(2)] obtain old new where z: "zs = old @ new"
    "list_all2 row_progress ys old" by blast
  from z(2) step.IH have "k < length old" "row_progress (ys ! k) (old ! k)"
    by (auto simp: list_all2_conv_all_nth)
  with z(1) step.IH row_follows_trans progress_follows show ?case
    by (auto simp: nth_append)
qed

text \<open>
  C16: the life cycle of a boundary intent. In every interleaving of creations, inserts, claims and
  transitions a stored intent stays in the table under its id, identity and payloads, its fencing
  token and attempt count never decrease, its status moves only along the declared transitions,
  and once it succeeded, was compensated or went to manual review its row never changes again.
\<close>

theorem intent_life_cycle:
  assumes "intent_step\<^sup>*\<^sup>* rows rows'" and "k < length rows"
  shows "k < length rows' \<and> bi_ID (rows' ! k) = bi_ID (rows ! k) \<and> same_identity (rows' ! k) (rows ! k) \<and>
    bi_Payload (rows' ! k) = bi_Payload (rows ! k) \<and>
    bi_FencingToken (rows ! k) \<le> bi_FencingToken (rows' ! k) \<and>
    bi_AttemptCount (rows ! k) \<le> bi_AttemptCount (rows' ! k) \<and>
    BoundaryIntentTransitionAllowed\<^sup>*\<^sup>* (bi_Status (rows ! k)) (bi_Status (rows' ! k)) \<and>
    (bi_Status (rows ! k) \<in> {BoundaryIntentSucceeded, BoundaryIntentCompensated, BoundaryIntentManualReview} \<longrightarrow>
       rows' ! k = rows ! k)"
proof -
  have "terminal_status st"
    if "st \<in> {BoundaryIntentSucceeded, BoundaryIntentCompensated, BoundaryIntentManualReview}" for st
    using that unfolding terminal_status_def allowed_iff by (auto simp: intent_states)
  with intent_steps_follow [OF assms] show ?thesis unfolding row_follows_def by blast
qed


definition example_intent :: BoundaryIntent where
  "example_intent = \<lparr> bi_ID = ''i1'', bi_WorkspaceID = ''w'', bi_Owner = ''billing'', bi_Operation = ''charge'',
     bi_ResourceID = ''r'', bi_IdempotencyKey = ''k'', bi_Status = BoundaryIntentPending, bi_Payload = [],
     bi_CompensationPayload = [], bi_AttemptCount = 0, bi_NextAttemptAt = [], bi_LeaseOwner = [],
     bi_LeaseExpiresAt = [], bi_FencingToken = 0, bi_LastError = [], bi_CreatedAt = [], bi_UpdatedAt = [] \<rparr>"

definition example_intent_env :: intent_env where
  "example_intent_env = \<lparr> ie_SHA256 = (\<lambda>s. s), ie_Now = 0, ie_Encodable = (\<lambda>_. True), ie_Recoded = (\<lambda>p. p) \<rparr>"

text \<open>A worker's view of a row: the store's operations on the table that holds it.\<close>

record intent_request =
  iq_Workspace :: string
  iq_ID :: string
  iq_Owner :: string
  iq_Now :: string

definition intent_claim :: "intent_env \<Rightarrow> intent_request \<Rightarrow> BoundaryIntent \<Rightarrow> BoundaryIntent option" where
  "intent_claim env q row = (case ClaimBoundaryIntent env (iq_Workspace q) (iq_ID q) (iq_Owner q) (iq_Now q) [row] of
      (rows', Inr (_, True)) \<Rightarrow> Some (hd rows') | _ \<Rightarrow> None)"

definition intent_transition ::
    "intent_env \<Rightarrow> intent_request \<times> string \<times> string \<times> string \<Rightarrow> int \<Rightarrow> BoundaryIntent \<Rightarrow> BoundaryIntent option" where
  "intent_transition env m token row = (case m of (q, next, errorText, nextAttemptAt) \<Rightarrow>
     (case TransitionBoundaryIntent env (iq_Workspace q) (iq_ID q) (iq_Owner q) token next errorText nextAttemptAt [row] of
        (rows', Inr _) \<Rightarrow> Some (hd rows') | _ \<Rightarrow> None))"

lemma intent_claim_Some:
  assumes "intent_claim env q row = Some row'"
  shows "\<exists>expires. claimable (iq_Now q) row \<and> row' = claim_row (trim_space (iq_Owner q)) (iq_Now q) expires row"
  using assms unfolding intent_claim_def ClaimBoundaryIntent_def
  by (auto simp: update_where_def Let_def split: sum.splits option.splits if_splits bool.splits)

lemma intent_transition_Some:
  assumes "intent_transition env (q, next, e, n) token row = Some row'"
  shows "\<exists>now. bi_FencingToken row = token \<and> bi_LeaseOwner row = trim_space (iq_Owner q) \<and>
    row' = transition_row next e n now row"
  using assms unfolding intent_transition_def TransitionBoundaryIntent_def
  by (auto simp: update_where_def Let_def split: sum.splits option.splits if_splits)

interpretation intent_lease: fenced_lease bi_FencingToken "intent_claim env" "intent_transition env" for env
proof
  show "bi_FencingToken row' = bi_FencingToken row + 1" if "intent_claim env q row = Some row'" for q row row'
    using intent_claim_Some [OF that] by (auto simp: claim_row_def)
  show "bi_FencingToken row = t" if "intent_transition env m t row = Some row'" for m t row row'
    using that intent_transition_Some by (cases m) blast
  show "bi_FencingToken row' = bi_FencingToken row" if "intent_transition env m t row = Some row'" for m t row row'
    using that by (cases m) (auto dest!: intent_transition_Some simp: transition_row_def)
qed

text \<open>
  C17: in every interleaving of workers that claim an intent and move it on, at most one granted
  claim can still move it, and a claim that a later one has overtaken never can again.
\<close>

theorem intent_lease_exclusive:
  assumes "(lease_step bi_FencingToken (intent_claim env) (intent_transition env))\<^sup>*\<^sup>* (row0, []) (row, held)"
    and "(a, t) \<in> set held" and "(b, u) \<in> set held" and "intent_transition env m t row \<noteq> None"
  shows "(intent_transition env n u row \<noteq> None \<longrightarrow> (a, t) = (b, u)) \<and>
    (t \<noteq> u \<longrightarrow> (\<forall>row' held'. (lease_step bi_FencingToken (intent_claim env) (intent_transition env))\<^sup>*\<^sup>* (row, held) (row', held')
       \<longrightarrow> intent_transition env n u row' = None))"
  by (rule intent_lease.fencing [OF assms])

lemma insert_identity_trim:
  assumes "boundaryIntentInsert env a = Inr x" and "boundaryIntentInsert env' b = Inr y"
    and "trim_space (bi_WorkspaceID a) = trim_space (bi_WorkspaceID b)" "trim_space (bi_Owner a) = trim_space (bi_Owner b)"
      "trim_space (bi_Operation a) = trim_space (bi_Operation b)"
      "trim_space (bi_IdempotencyKey a) = trim_space (bi_IdempotencyKey b)"
  shows "same_identity x y"
  using assms unfolding boundaryIntentInsert_def requireBoundaryIntentWorkspaceID_def same_identity_def Let_def
  by (auto split: if_splits)

lemma create_fresh:
  assumes "CreateBoundaryIntent env c a rows = (rows', Inr (x, False))"
  shows "boundaryIntentInsert env a = Inr x" "rows' = rows @ [x]"
    "\<And>r. r \<in> set rows \<Longrightarrow> bi_ID r \<noteq> bi_ID x \<and> \<not> same_identity r x"
  using assms unfolding CreateBoundaryIntent_def insert_row_def
  by (auto split: sum.splits option.splits if_splits)

lemma find_fresh_last: "(\<And>r. r \<in> set rows \<Longrightarrow> \<not> p r) \<Longrightarrow> p x \<Longrightarrow> find p (rows @ [x]) = Some x"
  by (induction rows) auto


subsection \<open>Leases and text timestamps\<close>

lemma intent_claim_granted:
  assumes "trim_space (iq_Workspace q) = bi_WorkspaceID r" "bi_WorkspaceID r \<noteq> []" "trim_space (iq_ID q) = bi_ID r"
    "bi_ID r \<noteq> []" "trim_space (iq_Owner q) \<noteq> []" "parse_rfc3339 (iq_Now q) = Some now" "claimable (iq_Now q) r"
  shows "intent_claim env q r = Some (claim_row (trim_space (iq_Owner q)) (iq_Now q) (claim_expires (iq_Now q) now) r)"
proof -
  have "bi_WorkspaceID (claim_row a b c r) = bi_WorkspaceID r" "bi_ID (claim_row a b c r) = bi_ID r" for a b c
    by (simp_all add: claim_row_def)
  then show ?thesis
    unfolding intent_claim_def ClaimBoundaryIntent_def requireBoundaryIntentWorkspaceID_def
    using assms trim_space_idem [of "iq_ID q"] by (simp add: update_where_def GetBoundaryIntent_def Let_def)
qed

text \<open>
  A lease on an intent can be taken over before it expires. The claim compares RFC3339Nano
  texts: at the full second before the expiry, printed without a fraction, the claim of another
  worker is granted, although the instant of the lease's expiry is still ahead.
\<close>

theorem intent_lease_taken_early:
  assumes "four_digit_year e" and "e mod second \<noteq> 0"
    and "bi_Status r = BoundaryIntentExecuting" and "bi_LeaseExpiresAt r = format_rfc3339nano e"
    and "bi_WorkspaceID r = trim_space w" and "bi_ID r = trim_space i"
    and "trim_space w \<noteq> []" and "trim_space i \<noteq> []" and "trim_space owner \<noteq> []"
  shows "\<exists>r' now. intent_claim env \<lparr> iq_Workspace = w, iq_ID = i, iq_Owner = owner, iq_Now = format_rfc3339 e \<rparr> r = Some r' \<and>
    bi_LeaseOwner r' = trim_space owner \<and> parse_rfc3339 (format_rfc3339 e) = Some now \<and>
    parse_rfc3339 (bi_LeaseExpiresAt r) = Some e \<and> now < e"
proof -
  let ?q = "\<lparr> iq_Workspace = w, iq_ID = i, iq_Owner = owner, iq_Now = format_rfc3339 e \<rparr>"
  note p = parse_format_rfc3339 [OF assms(1)]
  have c: "claimable (iq_Now ?q) r"
    using order.strict_implies_order [OF rfc3339nano_text_less [OF assms(2)]] by (simp add: claimable_def assms(3,4))
  have "0 \<le> e mod second" by (simp add: time_units)
  with assms(2) have lt: "e - e mod second < e" by simp
  have "intent_claim env ?q r = Some (claim_row (trim_space owner) (format_rfc3339 e)
      (claim_expires (format_rfc3339 e) (e - e mod second)) r)"
    using intent_claim_granted [OF _ _ _ _ _ _ c, of "e - e mod second" env] p assms(5-9) by simp
  with p lt parse_format_rfc3339nano [OF assms(1)] assms(4) show ?thesis by (auto simp: claim_row_def)
qed

theorem intent_lease_taken_early_witness:
  "\<exists>(r' :: BoundaryIntent) now. intent_claim example_intent_env
      \<lparr> iq_Workspace = ''w'', iq_ID = ''i1'', iq_Owner = ''B'', iq_Now = format_rfc3339 (90 * second + 500) \<rparr>
      (example_intent \<lparr> bi_Status := BoundaryIntentExecuting, bi_LeaseExpiresAt := format_rfc3339nano (90 * second + 500) \<rparr>)
      = Some r' \<and> bi_LeaseOwner r' = ''B'' \<and> now < 90 * second + 500"
proof -
  let ?e = "90 * second + 500"
  let ?r = "example_intent \<lparr> bi_Status := BoundaryIntentExecuting, bi_LeaseExpiresAt := format_rfc3339nano ?e \<rparr>"
  have y: "four_digit_year ?e" by code_simp
  have f: "?e mod second \<noteq> 0" by (simp add: second_def)
  have t: "trim_space ''w'' = ''w''" "trim_space ''i1'' = ''i1''" "trim_space ''B'' = ''B''" by code_simp+
  have "bi_WorkspaceID ?r = ''w''" "bi_ID ?r = ''i1''" by (simp_all add: example_intent_def)
  with intent_lease_taken_early [OF y f, of ?r "''w''" "''i1''" "''B''" example_intent_env] t show ?thesis by auto
qed

subsection \<open>Witnesses\<close>

definition example_claim :: "string \<Rightarrow> intent_request" where
  "example_claim owner = \<lparr> iq_Workspace = ''w'', iq_ID = ''i1'', iq_Owner = owner, iq_Now = format_rfc3339nano 0 \<rparr>"

lemma example_trims: "trim_space ''w'' = ''w''" "trim_space ''i1'' = ''i1''" "trim_space ''A'' = ''A''"
  "trim_space ''B'' = ''B''" "trim_space ''billing'' = ''billing''" "trim_space ''charge'' = ''charge''" "trim_space ''k'' = ''k''"
  by code_simp+

lemma example_claim_granted:
  assumes "trim_space owner \<noteq> []" "bi_WorkspaceID r = ''w''" "bi_ID r = ''i1''" "claimable (format_rfc3339nano 0) r"
  shows "intent_claim env (example_claim owner) r = Some (claim_row (trim_space owner) (format_rfc3339nano 0)
    (claim_expires (format_rfc3339nano 0) 0) r)"
proof -
  have y: "four_digit_year 0" by code_simp
  show ?thesis
    using intent_claim_granted [of "example_claim owner" r 0 env] parse_format_rfc3339nano [OF y] assms
    by (simp add: example_claim_def example_trims)
qed

lemma intent_transition_done:
  assumes "trim_space (iq_Workspace q) = bi_WorkspaceID r" "bi_WorkspaceID r \<noteq> []" "iq_ID q = bi_ID r"
    "trimmed (bi_ID r)" "bi_LeaseOwner r = trim_space (iq_Owner q)" "BoundaryIntentTransitionAllowed (bi_Status r) next"
  shows "intent_transition env (q, next, e, n) (bi_FencingToken r) r =
    Some (transition_row next e n (format_rfc3339nano (ie_Now env)) r)"
  using assms unfolding intent_transition_def TransitionBoundaryIntent_def requireBoundaryIntentWorkspaceID_def
  by (simp add: update_where_def GetBoundaryIntent_def scanBoundaryIntent_def Let_def)

definition claimed_intent :: "string \<Rightarrow> BoundaryIntent \<Rightarrow> BoundaryIntent" where
  "claimed_intent owner r = claim_row owner (format_rfc3339nano 0) (claim_expires (format_rfc3339nano 0) 0) r"

definition reconciled_intent :: BoundaryIntent where
  "reconciled_intent = transition_row BoundaryIntentReconciliationRequired [] [] (format_rfc3339nano 0)
     (claimed_intent ''A'' example_intent)"

theorem intent_lease_exclusive_witness:
  "intent_transition example_intent_env (example_claim ''B'', BoundaryIntentSucceeded, [], []) 2
      (claimed_intent ''B'' reconciled_intent) \<noteq> None \<and>
   intent_transition example_intent_env (example_claim ''A'', BoundaryIntentSucceeded, [], []) 1
      (claimed_intent ''B'' reconciled_intent) = None"
proof -
  let ?env = example_intent_env and ?A = "example_claim ''A''" and ?B = "example_claim ''B''"
  let ?a = "claimed_intent ''A'' example_intent" and ?b = "claimed_intent ''B'' reconciled_intent"
  let ?step = "lease_step bi_FencingToken (intent_claim ?env) (intent_transition ?env)"
  note r = claimed_intent_def reconciled_intent_def claim_row_def transition_row_def example_intent_def
  have a: "intent_claim ?env ?A example_intent = Some ?a"
    using example_claim_granted [of "''A''" example_intent ?env]
    by (simp add: claimed_intent_def example_trims) (simp add: example_intent_def claimable_def)
  have m: "intent_transition ?env (?A, BoundaryIntentReconciliationRequired, [], []) 1 ?a = Some reconciled_intent"
    using intent_transition_done [of ?A ?a BoundaryIntentReconciliationRequired ?env "[]" "[]"]
    by (simp add: r allowed_iff example_claim_def example_trims example_intent_env_def)
  have b: "intent_claim ?env ?B reconciled_intent = Some ?b"
    using example_claim_granted [of "''B''" reconciled_intent ?env]
    by (simp add: claimed_intent_def example_trims) (simp add: r claimable_def)
  have tok: "bi_FencingToken ?a = 1" "bi_FencingToken ?b = 2" by (simp_all add: r)
  have "?step (example_intent, []) (?a, [(?A, 1)])"
    using lease_step.Grant [of "intent_claim ?env", OF a, of bi_FencingToken] tok by simp
  moreover have "?step (?a, [(?A, 1)]) (reconciled_intent, [(?A, 1)])"
    using lease_step.Update [of ?A 1 "[(?A, 1)]" "intent_transition ?env", OF _ m] by simp
  moreover have "?step (reconciled_intent, [(?A, 1)]) (?b, [(?B, 2), (?A, 1)])"
    using lease_step.Grant [of "intent_claim ?env", OF b, of bi_FencingToken] tok by simp
  ultimately have steps: "?step\<^sup>*\<^sup>* (example_intent, []) (?b, [(?B, 2), (?A, 1)])"
    by (meson converse_rtranclp_into_rtranclp rtranclp.rtrancl_refl)
  have ok: "intent_transition ?env (?B, BoundaryIntentSucceeded, [], []) 2 ?b \<noteq> None"
    using intent_transition_done [of ?B ?b BoundaryIntentSucceeded ?env "[]" "[]"]
    by (simp add: r allowed_iff example_claim_def example_trims)
  from intent_lease_exclusive [OF steps, of ?B 2 ?A 1, OF _ _ ok, of "(?A, BoundaryIntentSucceeded, [], [])"] ok
  show ?thesis by auto
qed

theorem intent_life_cycle_witness:
  "fst (ClaimBoundaryIntent example_intent_env ''w'' ''i1'' ''A'' (format_rfc3339nano 0)
     [example_intent \<lparr> bi_Status := BoundaryIntentSucceeded \<rparr>]) ! 0 = example_intent \<lparr> bi_Status := BoundaryIntentSucceeded \<rparr>"
proof -
  let ?rows = "[example_intent \<lparr> bi_Status := BoundaryIntentSucceeded \<rparr>]"
  have "intent_step\<^sup>*\<^sup>* ?rows (fst (ClaimBoundaryIntent example_intent_env ''w'' ''i1'' ''A'' (format_rfc3339nano 0) ?rows))"
    by (blast intro: intent_step.Claim)
  from intent_life_cycle [OF this, of 0] show ?thesis by simp
qed


end
