(* ===== verification/Workflow_Table.thy ===== *)
theory Workflow_Table
  imports Workflow_Model Record_Store
begin

text \<open>
  The tables of the workflow store (\<open>runtime/infrastructure/persistence/database/workflow\<close>): what their
  statements have in common, the database as a record of them, and the check of a workspace id. A
  table is the list of its rows, of all workspaces.

  The locale \<open>status_table\<close> states what an update keeps of a table whose rows have a key and a status.
\<close>

subsection \<open>Statements and what they keep\<close>

datatype workflow_error =
    WorkflowWorkspace | WorkflowErased | WorkflowUnique string | WorkflowNoRows string
  | WorkflowSnapshotRequired | WorkflowSnapshotChanged | WorkflowRecord store_error | WorkflowNotify
  | WorkflowEncode | WorkflowArguments | WorkflowUnknownColumn string | WorkflowTimerClaim | WorkflowWithdrawal | WorkflowWithdrawalChanged
  | WorkflowReceiptConstraint string | WorkflowReceiptLeaseLost string | WorkflowBusy | WorkflowContextDone

text \<open>
  \<open>updateTx\<close> and \<open>updateScopedRow\<close>: the row with the key of the new one is overwritten, column by
  column (\<open>put\<close>), unless a fence protects it or it is cancelled and the new status is another.
\<close>

definition updateTx ::
    "('row \<Rightarrow> 'k) \<Rightarrow> ('row \<Rightarrow> string) \<Rightarrow> ('row \<Rightarrow> 'row \<Rightarrow> 'row) \<Rightarrow> bool \<Rightarrow> 'row \<Rightarrow> 'row list \<Rightarrow> 'row list option" where
  "updateTx key status put fenced new rows = (let
     p = (\<lambda>r. key r = key new \<and> \<not> fenced \<and> (status new \<noteq> ''cancelled'' \<longrightarrow> status r \<noteq> ''cancelled''))
   in if \<exists>r \<in> set rows. p r then Some (map (\<lambda>r. if p r then put new r else r) rows) else None)"

definition insertTx :: "('row \<Rightarrow> 'row \<Rightarrow> bool) \<Rightarrow> 'row \<Rightarrow> 'row list \<Rightarrow> 'row list option" where
  "insertTx clash new rows = (if \<exists>r \<in> set rows. clash new r then None else Some (rows @ [new]))"

text \<open>
  What a table of rows with a status keeps under these writes: every row stays, under its key, and
  a cancelled row stays cancelled.
\<close>

definition row_kept :: "('row \<Rightarrow> 'k) \<Rightarrow> ('row \<Rightarrow> string) \<Rightarrow> 'row \<Rightarrow> 'row \<Rightarrow> bool" where
  "row_kept key status r r' \<longleftrightarrow> key r' = key r \<and> (status r = ''cancelled'' \<longrightarrow> status r' = ''cancelled'')"

definition rows_kept :: "('row \<Rightarrow> 'k) \<Rightarrow> ('row \<Rightarrow> string) \<Rightarrow> 'row list \<Rightarrow> 'row list \<Rightarrow> bool" where
  "rows_kept key status rows rows' \<longleftrightarrow>
     (\<exists>old new. rows' = old @ new \<and> list_all2 (row_kept key status) rows old) \<and>
     (distinct (map key rows) \<longrightarrow> distinct (map key rows'))"

lemma row_kept_refl [simp]: "row_kept key status r r"
  by (simp add: row_kept_def)

lemma rows_kept_append:
  assumes "\<And>r. r \<in> set rows \<Longrightarrow> key r \<noteq> key new"
  shows "rows_kept key status rows (rows @ [new])"
proof -
  have "key new \<notin> key ` set rows" using assms by (metis imageE)
  moreover have "list_all2 (row_kept key status) rows rows" by (simp add: list_all2_refl)
  ultimately show ?thesis unfolding rows_kept_def by auto
qed

lemma rows_kept_map:
  assumes "\<And>r. r \<in> set rows \<Longrightarrow> row_kept key status r (f r)"
  shows "rows_kept key status rows (map f rows)"
proof -
  have "map key (map f rows) = map key rows" using assms by (simp add: row_kept_def)
  moreover have "list_all2 (row_kept key status) rows (map f rows)" using assms by (simp add: list_all2_conv_all_nth)
  ultimately show ?thesis unfolding rows_kept_def by (metis append_Nil2)
qed

lemma rows_kept_refl [simp]: "rows_kept key status rows rows"
  using rows_kept_map [of rows key status "\<lambda>r. r"] by simp

lemma rows_kept_trans [trans]:
  assumes "rows_kept key status a b" and "rows_kept key status b c"
  shows "rows_kept key status a c"
proof -
  from assms obtain b1 b2 c1 c2 where b: "b = b1 @ b2" "list_all2 (row_kept key status) a b1"
    and c: "c = c1 @ c2" "list_all2 (row_kept key status) b c1" unfolding rows_kept_def by blast
  from c(2) b(1) obtain d1 d2 where d: "c1 = d1 @ d2" "list_all2 (row_kept key status) b1 d1"
    by (auto simp: list_all2_append1)
  have "list_all2 (row_kept key status) a d1"
    using b(2) d(2) by (rule list_all2_trans [rotated]) (auto simp: row_kept_def)
  with c(1) d(1) assms show ?thesis unfolding rows_kept_def by auto
qed

lemma rows_keptD:
  assumes "rows_kept key status rows rows'" and "r \<in> set rows"
  shows "\<exists>r' \<in> set rows'. row_kept key status r r'"
  using assms unfolding rows_kept_def by (metis in_set_conv_nth list_all2_conv_all_nth nth_append set_append UnI1)

lemma rows_kept_cancelled:
  assumes "rows_kept key status rows rows'" and "distinct (map key rows)" and "r \<in> set rows" and "status r = ''cancelled''"
    and "r' \<in> set rows'" and "key r' = key r"
  shows "status r' = ''cancelled''"
proof -
  from rows_keptD [OF assms(1,3)] obtain x where x: "x \<in> set rows'" "key x = key r" "status x = ''cancelled''"
    using assms(4) by (auto simp: row_kept_def)
  have "distinct (map key rows')" using assms(1,2) by (simp add: rows_kept_def)
  with x(1,2) assms(5,6) have "x = r'" by (metis distinct_map inj_on_eq_iff)
  with x(3) show ?thesis by simp
qed

lemma rows_kept_all:
  assumes "rows_kept key status rows rows'" and "distinct (map key rows)"
  shows "\<forall>r \<in> set rows. \<forall>r' \<in> set rows'. key r' = key r \<longrightarrow> status r = ''cancelled'' \<longrightarrow> status r' = ''cancelled''"
    and "key ` set rows \<subseteq> key ` set rows'"
proof -
  show "\<forall>r \<in> set rows. \<forall>r' \<in> set rows'. key r' = key r \<longrightarrow> status r = ''cancelled'' \<longrightarrow> status r' = ''cancelled''"
    by (intro ballI impI, rule rows_kept_cancelled [OF assms])
  show "key ` set rows \<subseteq> key ` set rows'"
  proof
    fix k assume "k \<in> key ` set rows"
    then obtain r where "r \<in> set rows" "k = key r" by blast
    with rows_keptD [OF assms(1), of r] show "k \<in> key ` set rows'" by (metis image_eqI row_kept_def)
  qed
qed

locale status_table =
  fixes key :: "'row \<Rightarrow> 'k" and status :: "'row \<Rightarrow> string" and put :: "'row \<Rightarrow> 'row \<Rightarrow> 'row"
  assumes put_key: "key new = key r \<Longrightarrow> key (put new r) = key r"
    and put_status: "status (put new r) = status new"
begin

lemma update_kept: "updateTx key status put fenced new rows = Some rows' \<Longrightarrow> rows_kept key status rows rows'"
  unfolding updateTx_def Let_def
  by (auto split: if_splits intro!: rows_kept_map simp: row_kept_def put_key put_status)

lemma update_blocked:
  assumes "\<And>r. r \<in> set rows \<Longrightarrow> key r = key new \<Longrightarrow> status r = ''cancelled''" and "status new \<noteq> ''cancelled''"
  shows "updateTx key status put fenced new rows = None"
  using assms by (auto simp: updateTx_def Let_def)

lemma update_written:
  assumes "updateTx key status put fenced new rows = Some rows'"
  shows "\<exists>r' \<in> set rows'. key r' = key new \<and> status r' = status new"
proof -
  let ?p = "\<lambda>r. key r = key new \<and> \<not> fenced \<and> (status new \<noteq> ''cancelled'' \<longrightarrow> status r \<noteq> ''cancelled'')"
  from assms obtain r where r: "r \<in> set rows" "?p r" and rows': "rows' = map (\<lambda>r. if ?p r then put new r else r) rows"
    unfolding updateTx_def Let_def by (auto split: if_splits)
  have "put new r \<in> set rows'" unfolding rows' using r by force
  with r(2) show ?thesis using put_key [of new r] put_status by auto
qed

end

subsection \<open>The database\<close>

type_synonym NotificationEvent = data

record workflow_db =
  db_Processes :: "WorkflowProcessInstance list"
  db_Nodes :: "WorkflowNodeInstance list"
  db_Tasks :: "WorkflowTask list"
  db_Steps :: "WorkflowRouteStep list"
  db_Events :: "WorkflowProcessEvent list"
  db_Executions :: "WorkflowExecution list"
  db_Records :: "string \<Rightarrow> store"
  db_Notifications :: "NotificationEvent list"
  db_Scopes :: "(string \<times> string) list"
  db_Receipts :: "WorkflowExecutionReceipt list"

definition requireWorkflowWorkspaceID :: "string \<Rightarrow> workflow_error + string" where
  "requireWorkflowWorkspaceID v = (let w = trim_space v in
     if w = [] \<or> equal_fold w ''default'' then Inl WorkflowWorkspace else Inr w)"

definition read_in :: "string \<Rightarrow> (string \<Rightarrow> workflow_error + 'a) \<Rightarrow> workflow_error + 'a" where
  "read_in workspaceID f = (case requireWorkflowWorkspaceID workspaceID of Inl e \<Rightarrow> Inl e | Inr w \<Rightarrow> f w)"

subsection \<open>Rows by their key\<close>

lemma key_unique: "distinct (map key rows) \<Longrightarrow> a \<in> set rows \<Longrightarrow> b \<in> set rows \<Longrightarrow> key a = key b \<Longrightarrow> a = b"
  by (auto simp: distinct_map dest: inj_onD)

lemma find_key: "distinct (map key rows) \<Longrightarrow> r \<in> set rows \<Longrightarrow> find (\<lambda>x. key x = key r) rows = Some r"
  by (induction rows) (auto intro: rev_image_eqI)

lemma filter_hit: "length (filter p xs) = 1 \<Longrightarrow> \<exists>x \<in> set xs. p x"
  by (induction xs) (auto split: if_splits)

end
