(* ===== verification/Workflow_Receipt.thy ===== *)
theory Workflow_Receipt
  imports Workflow_Table Fenced_Lease Go_Time
begin

text \<open>
  The receipts of executions that were requested with an idempotency key
  (\<open>runtime/infrastructure/persistence/database/workflow/workflow_execution_receipt_store.go\<close>): the
  first request inserts the receipt and holds its lease; a later one is answered from it, or takes the lease over
  when it has expired; the holder completes the receipt with the execution it started.

  A receipt has the primary key \<open>id\<close>, a digest of workspace, workflow and key, and a unique index on the three
  (\<open>schema/evidence.go\<close>, \<open>evidence_tables.go\<close>). The classification of a stored receipt
  (\<open>idempotency.Classify\<close>) is a parameter from the foundation library, as are sha256, the errors of a busy
  database (\<open>busy\<close>, which attempt of a claim fails with one) and the back-off between attempts. The token is an \<open>int\<close>.

  The theorems: the lease of a receipt satisfies the contract of \<open>Fenced_Lease\<close>, from its insertion on; a
  receipt is completed at most once, and never changes afterwards.
\<close>

subsection \<open>Requests and answers\<close>

datatype Decision = DecisionAcquired | DecisionReplay | DecisionFingerprintConflict | DecisionInProgress | DecisionUnknown

record ReceiptState =
  st_Status :: string
  st_Fingerprint :: string
  st_Owner :: string
  st_Token :: int
  st_ExpiresAt :: int

record receipt_env =
  re_Classify :: "ReceiptState \<Rightarrow> string \<Rightarrow> int \<Rightarrow> Decision"
  re_Sha256 :: "string \<Rightarrow> string"
  re_Now :: int
  re_Busy :: "nat \<Rightarrow> bool"
  re_Backoff :: "nat \<Rightarrow> workflow_error option"

record WorkflowExecutionClaimRequest =
  cq_Receipt :: WorkflowExecutionReceipt
  cq_RequestFingerprint :: string
  cq_LeaseOwner :: string
  cq_LeaseTTL :: int
  cq_Now :: int
  cq_PreventReclaim :: bool

record WorkflowExecutionClaimResult =
  cr_Decision :: Decision
  cr_Receipt :: WorkflowExecutionReceipt

record WorkflowExecutionReceiptCompletion =
  rc_WorkspaceID :: string
  rc_ReceiptID :: string
  rc_ExecutionID :: string
  rc_LeaseOwner :: string
  rc_FencingToken :: int
  rc_ExpiresAt :: int
  rc_Now :: int

definition workflowReceiptID :: "receipt_env \<Rightarrow> string \<Rightarrow> string \<Rightarrow> string \<Rightarrow> string" where
  "workflowReceiptID env workspaceID workflowKey key = ''workflow_receipt:'' @
     take 20 (re_Sha256 env (trim_space workspaceID @ '':'' @ trim_space workflowKey @ '':'' @ trim_space key))"

definition workflowReceiptLease :: "WorkflowExecutionReceipt \<Rightarrow> ReceiptState" where
  "workflowReceiptLease r = \<lparr> st_Status = rr_Status r, st_Fingerprint = rr_RequestFingerprint r, st_Owner = rr_LeaseOwner r,
     st_Token = rr_FencingToken r,
     st_ExpiresAt = (case parse_rfc3339 (rr_LeaseExpiresAt r) of Some t \<Rightarrow> t | None \<Rightarrow> zero_time) \<rparr>"

subsection \<open>The statements\<close>

abbreviation receipt_identity :: "WorkflowExecutionReceipt \<Rightarrow> string \<times> string \<times> string" where
  "receipt_identity r \<equiv> (rr_WorkspaceID r, rr_WorkflowKey r, rr_IdempotencyKey r)"

definition receipt_clash :: "WorkflowExecutionReceipt \<Rightarrow> WorkflowExecutionReceipt \<Rightarrow> bool" where
  "receipt_clash a b \<longleftrightarrow> rr_ID a = rr_ID b \<or> receipt_identity a = receipt_identity b"

definition findExecutionReceipt ::
    "string \<Rightarrow> string \<Rightarrow> string \<Rightarrow> workflow_db \<Rightarrow> workflow_error + WorkflowExecutionReceipt option" where
  "findExecutionReceipt workspaceID workflowKey key db = read_in workspaceID (\<lambda>w. Inr
     (find (\<lambda>r. receipt_identity r = (w, trim_space workflowKey, trim_space key)) (db_Receipts db)))"

definition FindExecutionReceipt ::
    "string \<Rightarrow> string \<Rightarrow> string \<Rightarrow> workflow_db \<Rightarrow> workflow_error + WorkflowExecutionReceipt option" where
  "FindExecutionReceipt workspaceID workflowKey key db =
     (if trim_space workflowKey = [] \<or> trim_space key = [] then Inl WorkflowArguments
      else findExecutionReceipt workspaceID workflowKey key db)"

text \<open>The update of an expired lease, on one row.\<close>

definition reclaim_receipt :: "WorkflowExecutionReceipt \<Rightarrow> string \<Rightarrow> WorkflowExecutionReceipt \<Rightarrow> WorkflowExecutionReceipt option" where
  "reclaim_receipt receipt now r =
     (if rr_WorkspaceID r = rr_WorkspaceID receipt \<and> rr_ID r = rr_ID receipt \<and>
        rr_RequestFingerprint r = rr_RequestFingerprint receipt \<and> rr_Status r = ''processing'' \<and> rr_LeaseExpiresAt r \<le> now
      then Some (r \<lparr> rr_Status := ''processing'', rr_LeaseOwner := rr_LeaseOwner receipt,
        rr_LeaseExpiresAt := rr_LeaseExpiresAt receipt, rr_FencingToken := rr_FencingToken r + 1,
        rr_UpdatedAt := rr_UpdatedAt receipt \<rparr>) else None)"

text \<open>The completion by the holder of the lease, on one row.\<close>

definition complete_receipt :: "string \<Rightarrow> WorkflowExecutionReceiptCompletion \<Rightarrow> string \<Rightarrow> WorkflowExecutionReceipt \<Rightarrow> WorkflowExecutionReceipt option" where
  "complete_receipt workspaceID c now r =
     (if rr_WorkspaceID r = workspaceID \<and> rr_ID r = rc_ReceiptID c \<and> rr_LeaseOwner r = trim_space (rc_LeaseOwner c) \<and>
        rr_FencingToken r = rc_FencingToken c \<and> rr_Status r = ''processing''
      then Some (r \<lparr> rr_Status := ''succeeded'', rr_ExecutionID := trim_space (rc_ExecutionID c),
        rr_ExpiresAt := format_rfc3339nano (rc_ExpiresAt c), rr_UpdatedAt := now \<rparr>) else None)"

text \<open>An update statement: the new rows and the number of rows that it changed.\<close>

definition write_rows :: "('row \<Rightarrow> 'row option) \<Rightarrow> 'row list \<Rightarrow> 'row list \<times> nat" where
  "write_rows f rows = (map (\<lambda>r. case f r of Some r' \<Rightarrow> r' | None \<Rightarrow> r) rows, length (filter (\<lambda>r. f r \<noteq> None) rows))"

subsection \<open>Claim and completion\<close>

text \<open>The receipt that a request would insert.\<close>

definition new_receipt :: "receipt_env \<Rightarrow> WorkflowExecutionClaimRequest \<Rightarrow> string \<Rightarrow> int \<Rightarrow> WorkflowExecutionReceipt" where
  "new_receipt env request workspaceID now = (let
     ttl = (if cq_LeaseTTL request \<le> 0 then 5 * minute else cq_LeaseTTL request);
     receipt = cq_Receipt request;
     workflowKey = trim_space (rr_WorkflowKey receipt);
     key = trim_space (rr_IdempotencyKey receipt)
   in receipt \<lparr> rr_WorkspaceID := workspaceID, rr_WorkflowKey := workflowKey, rr_IdempotencyKey := key,
     rr_RequestFingerprint := trim_space (cq_RequestFingerprint request), rr_LeaseOwner := trim_space (cq_LeaseOwner request),
     rr_ID := workflowReceiptID env workspaceID workflowKey key, rr_Status := ''processing'', rr_FencingToken := 1,
     rr_LeaseExpiresAt := format_rfc3339nano (now + ttl), rr_CreatedAt := format_rfc3339nano now, rr_UpdatedAt := format_rfc3339nano now \<rparr>)"

type_synonym claim_answer = "workflow_db \<times> (workflow_error + WorkflowExecutionClaimResult)"

definition claimed :: "Decision \<Rightarrow> WorkflowExecutionReceipt \<Rightarrow> workflow_error + WorkflowExecutionClaimResult" where
  "claimed d r = Inr \<lparr> cr_Decision = d, cr_Receipt = r \<rparr>"

definition zero_receipt :: WorkflowExecutionReceipt where
  "zero_receipt = \<lparr> rr_ID = [], rr_WorkspaceID = [], rr_WorkflowKey = [], rr_IdempotencyKey = [], rr_RequestFingerprint = [],
     rr_Status = [], rr_ExecutionID = [], rr_LeaseOwner = [], rr_LeaseExpiresAt = [], rr_FencingToken = 0, rr_CreatedAt = [],
     rr_UpdatedAt = [], rr_ExpiresAt = [] \<rparr>"

text \<open>The receipt that the classification gives to the request; the statement decides whether it gets it.\<close>

definition take_over :: "WorkflowExecutionReceipt \<Rightarrow> int \<Rightarrow> workflow_db \<Rightarrow> claim_answer" where
  "take_over receipt now db = (case write_rows (reclaim_receipt receipt (format_rfc3339nano now)) (db_Receipts db) of
     (rows, n) \<Rightarrow> (let db' = db \<lparr> db_Receipts := rows \<rparr> in
       (case findExecutionReceipt (rr_WorkspaceID receipt) (rr_WorkflowKey receipt) (rr_IdempotencyKey receipt) db' of
          Inl e \<Rightarrow> (db', Inl e)
        | Inr found \<Rightarrow> (db', claimed (if n = 1 then DecisionAcquired else DecisionInProgress)
            (case found of Some r \<Rightarrow> r | None \<Rightarrow> zero_receipt)))))"

definition classified :: "receipt_env \<Rightarrow> WorkflowExecutionClaimRequest \<Rightarrow> WorkflowExecutionReceipt \<Rightarrow> string \<Rightarrow> int \<Rightarrow> Decision" where
  "classified env request current fingerprint now = (let d = re_Classify env (workflowReceiptLease current) fingerprint now in
     if cq_PreventReclaim request \<and> d = DecisionAcquired then DecisionInProgress else d)"

definition tryBeginExecutionOnce :: "receipt_env \<Rightarrow> WorkflowExecutionClaimRequest \<Rightarrow> workflow_db \<Rightarrow> claim_answer" where
  "tryBeginExecutionOnce env request db = (let now = (if cq_Now request = zero_time then re_Now env else cq_Now request) in
     (case requireWorkflowWorkspaceID (rr_WorkspaceID (cq_Receipt request)) of
        Inl e \<Rightarrow> (db, Inl e)
      | Inr w \<Rightarrow> (let receipt = new_receipt env request w now in
          (case insertTx receipt_clash receipt (db_Receipts db) of
             Some rows \<Rightarrow> (db \<lparr> db_Receipts := rows \<rparr>, claimed DecisionAcquired receipt)
           | None \<Rightarrow> (case findExecutionReceipt w (rr_WorkflowKey receipt) (rr_IdempotencyKey receipt) db of
               Inl e \<Rightarrow> (db, Inl e)
             | Inr None \<Rightarrow> (db, Inl (WorkflowReceiptConstraint (rr_ID receipt)))
             | Inr (Some current) \<Rightarrow> (let decision = classified env request current (rr_RequestFingerprint receipt) now in
                 if decision \<noteq> DecisionAcquired then (db, claimed decision current) else take_over receipt now db))))))"

text \<open>A busy database is asked again, 50 times at most.\<close>

fun try_begin :: "receipt_env \<Rightarrow> WorkflowExecutionClaimRequest \<Rightarrow> workflow_db \<Rightarrow> nat \<Rightarrow> nat \<Rightarrow> claim_answer" where
  "try_begin env request db 0 i = (db, Inl WorkflowBusy)"
| "try_begin env request db (Suc n) i = (if re_Busy env i
     then (case re_Backoff env i of Some e \<Rightarrow> (db, Inl e) | None \<Rightarrow> try_begin env request db n (Suc i))
     else tryBeginExecutionOnce env request db)"

definition TryBeginExecution :: "receipt_env \<Rightarrow> WorkflowExecutionClaimRequest \<Rightarrow> workflow_db \<Rightarrow> claim_answer" where
  "TryBeginExecution env request db = try_begin env request db 50 0"

definition CompleteExecutionReceipt ::
    "receipt_env \<Rightarrow> WorkflowExecutionReceiptCompletion \<Rightarrow> workflow_db \<Rightarrow> workflow_db \<times> workflow_error option" where
  "CompleteExecutionReceipt env completion db = (case requireWorkflowWorkspaceID (rc_WorkspaceID completion) of
      Inl e \<Rightarrow> (db, Some e)
    | Inr w \<Rightarrow> (let now = (if rc_Now completion = zero_time then re_Now env else rc_Now completion) in
        (case write_rows (complete_receipt w completion (format_rfc3339nano now)) (db_Receipts db) of
           (rows, n) \<Rightarrow> (db \<lparr> db_Receipts := rows \<rparr>,
             if n = 1 then None else Some (WorkflowReceiptLeaseLost (rc_ReceiptID completion))))))"

subsection \<open>The lease of a receipt\<close>

text \<open>
  The place of a receipt: empty until the first request inserts it with token one. A request claims the
  place by inserting or by taking an expired lease over.
\<close>

definition place_token :: "WorkflowExecutionReceipt option \<Rightarrow> int" where
  "place_token r = (case r of None \<Rightarrow> 0 | Some r \<Rightarrow> rr_FencingToken r)"

definition claim_place ::
    "WorkflowExecutionReceipt \<times> string \<Rightarrow> WorkflowExecutionReceipt option \<Rightarrow> WorkflowExecutionReceipt option option" where
  "claim_place q r = (case q of (receipt, now) \<Rightarrow> (case r of
      None \<Rightarrow> if rr_FencingToken receipt = 1 then Some (Some receipt) else None
    | Some r \<Rightarrow> map_option Some (reclaim_receipt receipt now r)))"

definition complete_place :: "string \<times> WorkflowExecutionReceiptCompletion \<times> string \<Rightarrow> int \<Rightarrow>
    WorkflowExecutionReceipt option \<Rightarrow> WorkflowExecutionReceipt option option" where
  "complete_place m t r = (case m of (w, c, now) \<Rightarrow> (case r of
      None \<Rightarrow> None | Some r \<Rightarrow> map_option Some (complete_receipt w (c \<lparr> rc_FencingToken := t \<rparr>) now r)))"

interpretation receipt_lease: fenced_lease place_token claim_place complete_place
  by unfold_locales
    (auto simp: place_token_def claim_place_def complete_place_def reclaim_receipt_def complete_receipt_def split: option.splits if_splits)

subsection \<open>What claims and completions keep of a receipt\<close>

definition receipt_kept :: "WorkflowExecutionReceipt \<Rightarrow> WorkflowExecutionReceipt \<Rightarrow> bool" where
  "receipt_kept r r' \<longleftrightarrow> rr_ID r' = rr_ID r \<and> receipt_identity r' = receipt_identity r \<and>
     rr_RequestFingerprint r' = rr_RequestFingerprint r \<and> rr_FencingToken r \<le> rr_FencingToken r' \<and>
     (rr_Status r = ''succeeded'' \<longrightarrow> r' = r)"

lemma receipt_kept_refl [simp]: "receipt_kept r r"
  by (simp add: receipt_kept_def)

lemma receipt_kept_trans: "receipt_kept a b \<Longrightarrow> receipt_kept b c \<Longrightarrow> receipt_kept a c"
  by (auto simp: receipt_kept_def)

definition receipts_unique :: "workflow_db \<Rightarrow> bool" where
  "receipts_unique db \<longleftrightarrow> distinct (map rr_ID (db_Receipts db)) \<and> distinct (map receipt_identity (db_Receipts db))"

text \<open>The rows stay where they are; new ones come at the end, with keys of their own.\<close>

definition receipts_kept :: "workflow_db \<Rightarrow> workflow_db \<Rightarrow> bool" where
  "receipts_kept db db' \<longleftrightarrow> (\<exists>old new. db_Receipts db' = old @ new \<and> list_all2 receipt_kept (db_Receipts db) old \<and>
     (receipts_unique db \<longrightarrow> receipts_unique db'))"

lemma receipts_kept_refl [simp]: "receipts_kept db db"
  unfolding receipts_kept_def by (intro exI [of _ "db_Receipts db"] exI [of _ "[]"]) (simp add: list.rel_refl)

lemma receipts_kept_trans:
  assumes "receipts_kept a b" "receipts_kept b c"
  shows "receipts_kept a c"
proof -
  from assms(1) obtain old new where b: "db_Receipts b = old @ new" "list_all2 receipt_kept (db_Receipts a) old"
    "receipts_unique a \<longrightarrow> receipts_unique b" unfolding receipts_kept_def by (elim exE conjE)
  from assms(2) obtain old' new' where c: "db_Receipts c = old' @ new'" "list_all2 receipt_kept (old @ new) old'"
    "receipts_unique b \<longrightarrow> receipts_unique c" unfolding receipts_kept_def b(1) by (elim exE conjE)
  from c(2) obtain u v where o: "old' = u @ v" "list_all2 receipt_kept old u" by (auto simp: list_all2_append1)
  have "list_all2 receipt_kept (db_Receipts a) u"
    by (rule list_all2_trans [OF receipt_kept_trans b(2) o(2)])
  then show ?thesis unfolding receipts_kept_def
    by (intro exI [of _ u] exI [of _ "v @ new'"]) (use b(3) c(1,3) o(1) in simp)
qed

lemma write_rows_kept:
  assumes "\<And>r r'. f r = Some r' \<Longrightarrow> receipt_kept r r'"
  shows "receipts_kept db (db \<lparr> db_Receipts := fst (write_rows f (db_Receipts db)) \<rparr>)"
proof -
  let ?g = "\<lambda>r. case f r of Some r' \<Rightarrow> r' | None \<Rightarrow> r"
  have k: "receipt_kept r (?g r)" for r using assms by (cases "f r") auto
  have "map rr_ID (map ?g rows) = map rr_ID rows" "map receipt_identity (map ?g rows) = map receipt_identity rows"
    "list_all2 receipt_kept rows (map ?g rows)" for rows
    using k by (induction rows) (simp_all add: receipt_kept_def)
  then show ?thesis unfolding receipts_kept_def write_rows_def receipts_unique_def
    by (intro exI [of _ "map ?g (db_Receipts db)"] exI [of _ "[]"]) (simp del: map_map)
qed

lemma row_writes_kept:
  "reclaim_receipt q now r = Some r' \<Longrightarrow> receipt_kept r r'"
  "complete_receipt w c now r = Some r' \<Longrightarrow> receipt_kept r r'"
  by (auto simp: reclaim_receipt_def complete_receipt_def receipt_kept_def split: if_splits)

lemma insert_receipt_kept:
  assumes "insertTx receipt_clash r (db_Receipts db) = Some rows"
  shows "receipts_kept db (db \<lparr> db_Receipts := rows \<rparr>)"
proof -
  from assms have rows: "rows = db_Receipts db @ [r]" and "\<not> (\<exists>x \<in> set (db_Receipts db). receipt_clash r x)"
    by (auto simp: insertTx_def split: if_splits)
  then have "receipts_unique db \<longrightarrow> receipts_unique (db \<lparr> db_Receipts := rows \<rparr>)"
    by (auto simp: receipts_unique_def receipt_clash_def)
  with rows show ?thesis unfolding receipts_kept_def
    by (intro exI [of _ "db_Receipts db"] exI [of _ "[r]"]) (simp add: list.rel_refl)
qed

lemma write_rows_split: "write_rows f rows = (rows', n) \<longleftrightarrow> rows' = fst (write_rows f rows) \<and> n = snd (write_rows f rows)"
  by (cases "write_rows f rows") auto

lemma begin_once_kept: "receipts_kept db (fst (tryBeginExecutionOnce env q db))"
  unfolding tryBeginExecutionOnce_def take_over_def Let_def
  by (auto intro: insert_receipt_kept write_rows_kept row_writes_kept split: sum.splits option.splits prod.splits
      simp: write_rows_split)

lemma try_begin_kept: "receipts_kept db (fst (try_begin env q db n i))"
  by (induction n arbitrary: i) (auto simp: begin_once_kept split: option.split)

lemma complete_kept: "receipts_kept db (fst (CompleteExecutionReceipt env c db))"
  unfolding CompleteExecutionReceipt_def Let_def
  by (auto intro: write_rows_kept row_writes_kept split: sum.splits prod.splits simp: write_rows_split)

text \<open>Any interleaving of requests and completions, of any number of services.\<close>

inductive receipt_step :: "workflow_db \<Rightarrow> workflow_db \<Rightarrow> bool" where
  Begin: "receipt_step db (fst (TryBeginExecution env q db))"
| Complete: "receipt_step db (fst (CompleteExecutionReceipt env c db))"

lemma receipt_step_kept: "receipt_step db db' \<Longrightarrow> receipts_kept db db'"
  by (induction rule: receipt_step.induct) (simp_all add: TryBeginExecution_def try_begin_kept complete_kept)

text \<open>No other table is touched.\<close>

lemma begin_once_tables: "\<exists>rows. fst (tryBeginExecutionOnce env q db) = db \<lparr> db_Receipts := rows \<rparr>"
proof -
  have take: "\<exists>rows. fst (take_over r now db) = db \<lparr> db_Receipts := rows \<rparr>" for r now
    unfolding take_over_def Let_def by (auto split: sum.split prod.split)
  show ?thesis
    unfolding tryBeginExecutionOnce_def Let_def
    by (auto split: sum.split option.split intro: take exI [of _ "db_Receipts db"])
qed

lemma try_begin_tables: "\<exists>rows. fst (try_begin env q db n i) = db \<lparr> db_Receipts := rows \<rparr>"
  by (induction n arbitrary: i) (auto split: option.split intro: begin_once_tables exI [of _ "db_Receipts db"])

lemma receipt_step_tables: "receipt_step db db' \<Longrightarrow> \<exists>rows. db' = db \<lparr> db_Receipts := rows \<rparr>"
proof (induction rule: receipt_step.induct)
  case (Complete db env c)
  show ?case unfolding CompleteExecutionReceipt_def Let_def
    by (auto split: sum.split prod.split intro: exI [of _ "db_Receipts db"])
qed (simp add: TryBeginExecution_def try_begin_tables)

lemma receipt_steps_kept: "receipt_step\<^sup>*\<^sup>* db db' \<Longrightarrow> receipts_kept db db'"
proof (induction rule: rtranclp_induct)
  case (step b c)
  from step.IH receipt_step_kept [OF step.hyps(2)] show ?case by (rule receipts_kept_trans)
qed simp

subsection \<open>A receipt names one execution\<close>

lemma complete_None:
  assumes "CompleteExecutionReceipt env c db = (db', None)"
  obtains w now r r' where "requireWorkflowWorkspaceID (rc_WorkspaceID c) = Inr w" "r \<in> set (db_Receipts db)"
    "complete_receipt w c now r = Some r'" "r' \<in> set (db_Receipts db')"
proof -
  from assms obtain w now where w: "requireWorkflowWorkspaceID (rc_WorkspaceID c) = Inr w"
    and n: "length (filter (\<lambda>r. complete_receipt w c now r \<noteq> None) (db_Receipts db)) = 1"
    and db': "db_Receipts db' = map (\<lambda>r. case complete_receipt w c now r of Some r' \<Rightarrow> r' | None \<Rightarrow> r) (db_Receipts db)"
    unfolding CompleteExecutionReceipt_def Let_def write_rows_def
    by (auto split: sum.splits if_splits)
  from filter_hit [OF n] obtain r r' where r: "r \<in> set (db_Receipts db)" "complete_receipt w c now r = Some r'" by auto
  have "r' \<in> set (db_Receipts db')" unfolding db' using r by force
  with w r show thesis by (rule that)
qed

text \<open>A receipt that was completed is found unchanged after any number of steps.\<close>

lemma receipts_keptD:
  assumes "receipts_kept db db'" and "r \<in> set (db_Receipts db)"
  shows "\<exists>r' \<in> set (db_Receipts db'). receipt_kept r r'"
proof -
  from assms(1) obtain old new where o: "db_Receipts db' = old @ new" "list_all2 receipt_kept (db_Receipts db) old"
    unfolding receipts_kept_def by (elim exE conjE)
  from o(2) assms(2) have "\<exists>r' \<in> set old. receipt_kept r r'"
    unfolding list_all2_conv_all_nth by (metis in_set_conv_nth nth_mem)
  with o(1) show ?thesis by auto
qed

lemma succeeded_kept: "receipts_kept db db' \<Longrightarrow> r \<in> set (db_Receipts db) \<Longrightarrow> rr_Status r = ''succeeded'' \<Longrightarrow> r \<in> set (db_Receipts db')"
  by (drule (1) receipts_keptD) (auto simp: receipt_kept_def)

lemma receipts_unique_kept: "receipts_kept db db' \<Longrightarrow> receipts_unique db \<Longrightarrow> receipts_unique db'"
  by (auto simp: receipts_kept_def)

text \<open>
  C22: a receipt is completed once and names one execution. When the completion of a receipt was
  accepted, then in every interleaving of later requests and completions the one receipt with this id is
  still there, succeeded, with the execution it was completed with; every further completion of it is
  refused and changes nothing.
\<close>

theorem receipt_completed_once:
  assumes "CompleteExecutionReceipt env c db = (db1, None)" and "receipts_unique db"
    and "receipt_step\<^sup>*\<^sup>* db1 db2"
  shows "(\<exists>r \<in> set (db_Receipts db2). rr_ID r = rc_ReceiptID c \<and> rr_Status r = ''succeeded'' \<and>
      rr_ExecutionID r = trim_space (rc_ExecutionID c) \<and> (\<forall>r' \<in> set (db_Receipts db2). rr_ID r' = rc_ReceiptID c \<longrightarrow> r' = r)) \<and>
    (\<forall>env' c'. rc_ReceiptID c' = rc_ReceiptID c \<longrightarrow> (\<exists>e. CompleteExecutionReceipt env' c' db2 = (db2, Some e)))"
proof -
  from complete_None [OF assms(1)] obtain w now r0 r where r0: "r0 \<in> set (db_Receipts db)"
    and fin: "complete_receipt w c now r0 = Some r" and r1: "r \<in> set (db_Receipts db1)" .
  from fin have r: "rr_ID r = rc_ReceiptID c" "rr_Status r = ''succeeded''" "rr_ExecutionID r = trim_space (rc_ExecutionID c)"
    by (auto simp: complete_receipt_def split: if_splits)
  have there: "r \<in> set (db_Receipts db2)" by (rule succeeded_kept [OF receipt_steps_kept [OF assms(3)] r1 r(2)])
  have "receipt_step db (fst (CompleteExecutionReceipt env c db))" by (rule receipt_step.Complete)
  then have "receipt_step\<^sup>*\<^sup>* db db2" using assms(1,3) by (simp add: converse_rtranclp_into_rtranclp)
  from receipts_unique_kept [OF receipt_steps_kept [OF this] assms(2)] have uniq: "distinct (map rr_ID (db_Receipts db2))" by (simp add: receipts_unique_def)
  have one: "r' = r" if "r' \<in> set (db_Receipts db2)" "rr_ID r' = rc_ReceiptID c" for r'
    using key_unique [OF uniq that(1) there] that(2) r(1) by simp
  have refused: "complete_receipt v c' t x = None" if "rc_ReceiptID c' = rc_ReceiptID c" "x \<in> set (db_Receipts db2)" for v c' t x
    using one [OF that(2)] that(1) r(2) by (auto simp: complete_receipt_def)
  have "\<exists>e. CompleteExecutionReceipt env' c' db2 = (db2, Some e)" if "rc_ReceiptID c' = rc_ReceiptID c" for env' c'
  proof -
    have "write_rows (complete_receipt v c' t) (db_Receipts db2) = (db_Receipts db2, 0)" for v t
      using refused [OF that] by (auto simp: write_rows_def filter_empty_conv intro!: map_idI)
    then show ?thesis by (auto simp: CompleteExecutionReceipt_def Let_def split: sum.split)
  qed
  with there r one show ?thesis by blast
qed

subsection \<open>Witnesses\<close>

text \<open>The classification as the foundation library documents it.\<close>

definition example_classify :: "ReceiptState \<Rightarrow> string \<Rightarrow> int \<Rightarrow> Decision" where
  "example_classify st fingerprint now = (if st_Fingerprint st \<noteq> fingerprint then DecisionFingerprintConflict
     else if st_Status st = ''succeeded'' then DecisionReplay
     else if now < st_ExpiresAt st then DecisionInProgress else DecisionAcquired)"

definition example_receipts :: receipt_env where
  "example_receipts = \<lparr> re_Classify = example_classify, re_Sha256 = (\<lambda>s. s), re_Now = 0, re_Busy = (\<lambda>_. False), re_Backoff = (\<lambda>_. None) \<rparr>"

definition receipt_request :: WorkflowExecutionClaimRequest where
  "receipt_request = \<lparr> cq_Receipt = zero_receipt \<lparr> rr_WorkspaceID := ''w'', rr_WorkflowKey := ''flow'', rr_IdempotencyKey := ''k'' \<rparr>,
     cq_RequestFingerprint = ''f'', cq_LeaseOwner = ''o'', cq_LeaseTTL = 0, cq_Now = 0, cq_PreventReclaim = False \<rparr>"

definition example_completion :: WorkflowExecutionReceiptCompletion where
  "example_completion = \<lparr> rc_WorkspaceID = ''w'', rc_ReceiptID = ''workflow_receipt:w:flow:k'', rc_ExecutionID = ''p1'',
     rc_LeaseOwner = ''o'', rc_FencingToken = 1, rc_ExpiresAt = 0, rc_Now = 0 \<rparr>"

lemma receipt_texts: "trim_space ''w'' = ''w''" "trim_space ''flow'' = ''flow''" "trim_space ''k'' = ''k''" "trim_space ''f'' = ''f''"
  "trim_space ''o'' = ''o''" "requireWorkflowWorkspaceID ''w'' = Inr ''w''" "(0 :: int) = zero_time \<longleftrightarrow> False"
  by code_simp+

definition no_rows :: workflow_db where
  "no_rows = \<lparr> db_Processes = [], db_Nodes = [], db_Tasks = [], db_Steps = [], db_Events = [], db_Executions = [],
     db_Records = (\<lambda>_ _. []), db_Notifications = [], db_Scopes = [], db_Receipts = [] \<rparr>"

definition receipt_db :: workflow_db where
  "receipt_db = no_rows \<lparr> db_Receipts := [new_receipt example_receipts receipt_request ''w'' 0] \<rparr>"

lemma receipt_db_facts:
  "map rr_ID (db_Receipts receipt_db) = [''workflow_receipt:w:flow:k'']"
  "fst (TryBeginExecution example_receipts receipt_request no_rows) = receipt_db"
  "snd (CompleteExecutionReceipt example_receipts example_completion receipt_db) = None"
  by (simp_all add: receipt_db_def new_receipt_def Let_def receipt_request_def example_receipts_def workflowReceiptID_def receipt_texts
      TryBeginExecution_def tryBeginExecutionOnce_def insertTx_def no_rows_def zero_receipt_def eval_nat_numeral
      CompleteExecutionReceipt_def write_rows_def complete_receipt_def example_completion_def)

theorem receipt_completed_once_witness:
  "\<exists>db1 db2. CompleteExecutionReceipt example_receipts example_completion receipt_db = (db1, None) \<and>
     receipt_step\<^sup>*\<^sup>* db1 db2 \<and> (\<exists>r \<in> set (db_Receipts db2). rr_ExecutionID r = trim_space ''p1'')"
proof -
  let ?r = "CompleteExecutionReceipt example_receipts example_completion receipt_db"
  have c: "?r = (fst ?r, None)" using receipt_db_facts(3) by (metis prod.collapse)
  have u: "receipts_unique receipt_db" by (simp add: receipt_db_def receipts_unique_def)
  have st: "receipt_step\<^sup>*\<^sup>* (fst ?r) (fst (TryBeginExecution example_receipts receipt_request (fst ?r)))"
    by (intro r_into_rtranclp receipt_step.Begin)
  from receipt_completed_once [OF c u st] obtain x where
    x: "x \<in> set (db_Receipts (fst (TryBeginExecution example_receipts receipt_request (fst ?r))))"
    "rr_ExecutionID x = trim_space (rc_ExecutionID example_completion)" by blast
  have "rc_ExecutionID example_completion = ''p1''" by (simp add: example_completion_def)
  with x have "\<exists>x \<in> set (db_Receipts (fst (TryBeginExecution example_receipts receipt_request (fst ?r)))). rr_ExecutionID x = trim_space ''p1''"
    by auto
  with c st show ?thesis by (intro exI conjI)
qed

end
