(* ===== verification/Workflow_Store.thy ===== *)
theory Workflow_Store
  imports Workflow_Approval Workflow_Worker Workflow_Receipt
begin

text \<open>
  The durable state of workflow processes and the transactions on it
  (\<open>runtime/infrastructure/persistence/database/workflow/workflow_decision_store.go\<close>,
  \<open>workflow_process_store.go\<close>, \<open>workflow_approval_store.go\<close>, \<open>workflow_route_store.go\<close>,
  \<open>workflow_withdrawal_store.go\<close> and \<open>database/workflow_withdrawal.go\<close>).

  A table is the list of its rows, of all workspaces. Its unique indexes reject an insert; an update
  by id fails when no row has the id, or when it would take a cancelled row out of its state. A
  transaction that returns an error leaves the database as it was. A row holds the values that were
  written; what JSON makes of them on the way back is a parameter of the reading operations, as are
  the rows that an erasure fence protects and what the notification service does with an event.

  The theorems: of two votes counted on the same revision of a process at most one is stored; a
  task is decided once; what was cancelled stays cancelled, whatever is written concurrently, and
  after a withdrawal no vote on the process is stored; a failed decision whose siblings were
  cancelled can not be rolled back.
\<close>

subsection \<open>The database\<close>

record workflow_env =
  en_Fenced :: "string \<Rightarrow> string \<Rightarrow> string \<Rightarrow> bool"
  en_NodeErased :: "WorkflowNodeInstance \<Rightarrow> bool"
  en_TaskErased :: "WorkflowTask \<Rightarrow> bool"
  en_EventErased :: "WorkflowProcessEvent \<Rightarrow> bool"
  en_ExecutionErased :: "WorkflowExecution \<Rightarrow> bool"
  en_ProcessErased :: "WorkflowProcessInstance \<Rightarrow> bool"
  en_Encodable :: "data \<Rightarrow> bool"
  en_Recode :: "data \<Rightarrow> data"
  en_RecodeDefinition :: "WorkflowSchema \<Rightarrow> WorkflowSchema"
  en_RecodeResolvers :: "WorkflowAssigneeResolver list \<Rightarrow> WorkflowAssigneeResolver list"
  en_UnknownColumnIsText :: bool
  en_Notify :: "NotificationEvent \<Rightarrow> bool"
  en_Records :: "string \<Rightarrow> store_env"
  en_Now :: int

abbreviation process_key :: "WorkflowProcessInstance \<Rightarrow> string \<times> string" where
  "process_key p \<equiv> (wp_WorkspaceID p, wp_ID p)"
abbreviation node_key :: "WorkflowNodeInstance \<Rightarrow> string \<times> string" where
  "node_key n \<equiv> (wn_WorkspaceID n, wn_ID n)"
abbreviation task_key :: "WorkflowTask \<Rightarrow> string \<times> string" where
  "task_key t \<equiv> (wt_WorkspaceID t, wt_ID t)"
abbreviation step_key :: "WorkflowRouteStep \<Rightarrow> string \<times> string" where
  "step_key t \<equiv> (rs_WorkspaceID t, rs_ID t)"
abbreviation event_key :: "WorkflowProcessEvent \<Rightarrow> string \<times> string" where
  "event_key e \<equiv> (ev_WorkspaceID e, ev_ID e)"
abbreviation execution_key :: "WorkflowExecution \<Rightarrow> string \<times> string" where
  "execution_key e \<equiv> (we_WorkspaceID e, we_ID e)"

subsection \<open>Columns written by an update\<close>

text \<open>The members of a process that are computed for display have no column.\<close>

definition put_process :: "WorkflowProcessInstance \<Rightarrow> WorkflowProcessInstance \<Rightarrow> WorkflowProcessInstance" where
  "put_process new r = new \<lparr> wp_WorkspaceID := wp_WorkspaceID r, wp_ID := wp_ID r,
     wp_CurrentNodeNames := wp_CurrentNodeNames r, wp_FailedNodeNames := wp_FailedNodeNames r,
     wp_WaitingSeconds := wp_WaitingSeconds r, wp_WorkflowRetryCount := wp_WorkflowRetryCount r,
     wp_BusinessOutcome := wp_BusinessOutcome r \<rparr>"

definition put_node :: "WorkflowNodeInstance \<Rightarrow> WorkflowNodeInstance \<Rightarrow> WorkflowNodeInstance" where
  "put_node new r = r \<lparr> wn_Status := wn_Status new, wn_Input := wn_Input new, wn_Output := wn_Output new,
     wn_ErrorCode := wn_ErrorCode new, wn_CompletedAt := wn_CompletedAt new \<rparr>"

definition put_task :: "WorkflowTask \<Rightarrow> WorkflowTask \<Rightarrow> WorkflowTask" where
  "put_task new r = r \<lparr> wt_AssigneeUserID := wt_AssigneeUserID new, wt_AssigneeName := wt_AssigneeName new,
     wt_AssigneeRoleKey := wt_AssigneeRoleKey new, wt_AssigneeResolverKey := wt_AssigneeResolverKey new,
     wt_AssigneeEvidence := wt_AssigneeEvidence new, wt_Status := wt_Status new, wt_Decision := wt_Decision new,
     wt_Comment := wt_Comment new, wt_DueAt := wt_DueAt new, wt_CompletedBy := wt_CompletedBy new,
     wt_CompletedAt := wt_CompletedAt new, wt_UpdatedAt := wt_UpdatedAt new \<rparr>"

definition put_execution :: "WorkflowExecution \<Rightarrow> WorkflowExecution \<Rightarrow> WorkflowExecution" where
  "put_execution new r = new \<lparr> we_WorkspaceID := we_WorkspaceID r, we_ID := we_ID r \<rparr>"

definition put_step :: "WorkflowRouteStep \<Rightarrow> WorkflowRouteStep \<Rightarrow> WorkflowRouteStep" where
  "put_step new r = new \<lparr> rs_WorkspaceID := rs_WorkspaceID r, rs_ID := rs_ID r \<rparr>"

interpretation processes: status_table process_key wp_Status put_process
  by unfold_locales (simp_all add: put_process_def)

interpretation nodes: status_table node_key wn_Status put_node
  by unfold_locales (simp_all add: put_node_def)

interpretation tasks: status_table task_key wt_Status put_task
  by unfold_locales (simp_all add: put_task_def)

interpretation executions: status_table execution_key we_Status put_execution
  by unfold_locales (simp_all add: put_execution_def)

subsection \<open>Statements of a transaction\<close>

type_synonym tx = "workflow_db \<Rightarrow> workflow_error + workflow_db"

definition tx_then :: "tx \<Rightarrow> tx \<Rightarrow> tx" where
  "tx_then a b db = (case a db of Inl e \<Rightarrow> Inl e | Inr db' \<Rightarrow> b db')"

fun tx_each :: "('a \<Rightarrow> tx) \<Rightarrow> 'a list \<Rightarrow> tx" where
  "tx_each f [] db = Inr db"
| "tx_each f (x # xs) db = (case f x db of Inl e \<Rightarrow> Inl e | Inr db' \<Rightarrow> tx_each f xs db')"

definition tx_opt :: "('a \<Rightarrow> tx) \<Rightarrow> 'a option \<Rightarrow> tx" where
  "tx_opt f v db = (case v of None \<Rightarrow> Inr db | Some x \<Rightarrow> f x db)"

definition insertNodeTx :: "workflow_env \<Rightarrow> WorkflowNodeInstance \<Rightarrow> tx" where
  "insertNodeTx env node db =
     (if en_NodeErased env node then Inl WorkflowErased
      else (case insertTx (\<lambda>a b. node_key a = node_key b \<or>
          wn_WorkspaceID a = wn_WorkspaceID b \<and> wn_ProcessID a = wn_ProcessID b \<and> wn_NodeID a = wn_NodeID b \<and>
          wn_Iteration a = wn_Iteration b) node (db_Nodes db) of
        None \<Rightarrow> Inl (WorkflowUnique (wn_ID node)) | Some rows \<Rightarrow> Inr (db \<lparr> db_Nodes := rows \<rparr>)))"

definition updateNodeTx :: "workflow_env \<Rightarrow> WorkflowNodeInstance \<Rightarrow> tx" where
  "updateNodeTx env node db = (case updateTx node_key wn_Status put_node
       (en_Fenced env (wn_WorkspaceID node) ''_workflow_node_instances'' (wn_ID node)) node (db_Nodes db) of
     None \<Rightarrow> Inl (WorkflowNoRows (wn_ID node)) | Some rows \<Rightarrow> Inr (db \<lparr> db_Nodes := rows \<rparr>))"

definition insertTaskTx :: "workflow_env \<Rightarrow> WorkflowTask \<Rightarrow> tx" where
  "insertTaskTx env task db =
     (if en_TaskErased env task then Inl WorkflowErased
      else (case insertTx (\<lambda>a b. task_key a = task_key b) task (db_Tasks db) of
        None \<Rightarrow> Inl (WorkflowUnique (wt_ID task)) | Some rows \<Rightarrow> Inr (db \<lparr> db_Tasks := rows \<rparr>)))"

definition updateTaskTx :: "workflow_env \<Rightarrow> WorkflowTask \<Rightarrow> tx" where
  "updateTaskTx env task db = (case updateTx task_key wt_Status put_task
       (en_Fenced env (wt_WorkspaceID task) ''_workflow_tasks'' (wt_ID task)) task (db_Tasks db) of
     None \<Rightarrow> Inl (WorkflowNoRows (wt_ID task)) | Some rows \<Rightarrow> Inr (db \<lparr> db_Tasks := rows \<rparr>))"

definition updateProcessTx :: "workflow_env \<Rightarrow> WorkflowProcessInstance \<Rightarrow> tx" where
  "updateProcessTx env process db = (case updateTx process_key wp_Status put_process
       (en_Fenced env (wp_WorkspaceID process) ''_workflow_process_instances'' (wp_ID process)) process (db_Processes db) of
     None \<Rightarrow> Inl (WorkflowNoRows (wp_ID process)) | Some rows \<Rightarrow> Inr (db \<lparr> db_Processes := rows \<rparr>))"

definition insertEventTx :: "workflow_env \<Rightarrow> WorkflowProcessEvent \<Rightarrow> tx" where
  "insertEventTx env event db =
     (if en_EventErased env event then Inl WorkflowErased
      else (case insertTx (\<lambda>a b. event_key a = event_key b) event (db_Events db) of
        None \<Rightarrow> Inl (WorkflowUnique (ev_ID event)) | Some rows \<Rightarrow> Inr (db \<lparr> db_Events := rows \<rparr>)))"

definition execution_encodable :: "workflow_env \<Rightarrow> WorkflowExecution \<Rightarrow> bool" where
  "execution_encodable env e \<longleftrightarrow> en_Encodable env (we_Action e) \<and> en_Encodable env (we_Payload e) \<and>
     en_Encodable env (we_Result e)"

definition insertExecutionTx :: "workflow_env \<Rightarrow> WorkflowExecution \<Rightarrow> tx" where
  "insertExecutionTx env e db =
     (if \<not> execution_encodable env e then Inl WorkflowEncode
      else if en_ExecutionErased env e then Inl WorkflowErased
      else (case insertTx (\<lambda>a b. execution_key a = execution_key b) e (db_Executions db) of
        None \<Rightarrow> Inl (WorkflowUnique (we_ID e)) | Some rows \<Rightarrow> Inr (db \<lparr> db_Executions := rows \<rparr>)))"

definition updateExecutionTx :: "workflow_env \<Rightarrow> WorkflowExecution \<Rightarrow> tx" where
  "updateExecutionTx env e db =
     (if \<not> execution_encodable env e then Inl WorkflowEncode
      else (case updateTx execution_key we_Status put_execution
          (en_Fenced env (we_WorkspaceID e) ''_workflow_executions'' (we_ID e)) e (db_Executions db) of
        None \<Rightarrow> Inl (WorkflowNoRows (we_ID e)) | Some rows \<Rightarrow> Inr (db \<lparr> db_Executions := rows \<rparr>)))"

definition RegisterWorkflowContinuationScope :: "workflow_env \<Rightarrow> string \<Rightarrow> string \<Rightarrow> tx" where
  "RegisterWorkflowContinuationScope env workspaceID updatedAt db = Inr (db \<lparr> db_Scopes :=
     AList.update workspaceID (if trim_space updatedAt = [] then format_rfc3339nano (en_Now env) else trim_space updatedAt)
       (db_Scopes db) \<rparr>)"

definition workflowRouteStepExpectedStatus :: "WorkflowRouteStep \<Rightarrow> string" where
  "workflowRouteStepExpectedStatus step = (let status = trim_space (rs_Status step) in
     if status = ''pending'' then ''configurable''
     else if status = ''active'' then ''pending''
     else if status \<in> {''approved'', ''rejected'', ''returned'', ''skipped''} then ''active''
     else [])"

text \<open>The update of a route step: the database, and whether a row was updated.\<close>

definition updateWorkflowRouteStepTx ::
    "workflow_env \<Rightarrow> WorkflowRouteStep \<Rightarrow> string \<Rightarrow> workflow_db \<Rightarrow> workflow_db \<times> bool" where
  "updateWorkflowRouteStepTx env step expectedStatus db = (let
     p = (\<lambda>r. step_key r = step_key step \<and> \<not> en_Fenced env (rs_WorkspaceID step) ''_workflow_route_steps'' (rs_ID step) \<and>
       (trim_space expectedStatus \<noteq> [] \<longrightarrow> rs_Status r = trim_space expectedStatus))
   in (db \<lparr> db_Steps := map (\<lambda>r. if p r then put_step step r else r) (db_Steps db) \<rparr>,
       length (filter p (db_Steps db)) = 1))"

definition notifyTx :: "workflow_env \<Rightarrow> NotificationEvent \<Rightarrow> tx" where
  "notifyTx env event db = (if en_Notify env event
     then Inr (db \<lparr> db_Notifications := db_Notifications db @ [event] \<rparr>) else Inl WorkflowNotify)"

definition recordTx :: "workflow_env \<Rightarrow> string \<Rightarrow> RecordMutationCommit \<Rightarrow> tx" where
  "recordTx env workspaceID m db = (case applyRecordMutationTx (en_Records env workspaceID) m (db_Records db workspaceID) of
     Inl e \<Rightarrow> Inl (WorkflowRecord e) | Inr st \<Rightarrow> Inr (db \<lparr> db_Records := (db_Records db)(workspaceID := st) \<rparr>))"

subsection \<open>Transactions\<close>

record WorkflowDecisionCommit =
  dc_WorkspaceID :: string
  dc_DecidedTask :: WorkflowTask
  dc_ExpectedTaskStatus :: string
  dc_ExpectedAssigneeID :: string
  dc_ExpectedProcessUpdatedAt :: string
  dc_Process :: "WorkflowProcessInstance option"
  dc_InsertNodes :: "WorkflowNodeInstance list"
  dc_UpdateNodes :: "WorkflowNodeInstance list"
  dc_InsertTasks :: "WorkflowTask list"
  dc_UpdateTasks :: "WorkflowTask list"
  dc_UpdateRouteSteps :: "WorkflowRouteStep list"
  dc_Events :: "WorkflowProcessEvent list"
  dc_RecordMutations :: "RecordMutationCommit list"
  dc_WorkflowExecution :: "WorkflowExecution option"
  dc_InsertExecutions :: "WorkflowExecution list"
  dc_NotificationEvents :: "NotificationEvent list"

record WorkflowStateCommit =
  sc_WorkspaceID :: string
  sc_Process :: "WorkflowProcessInstance option"
  sc_InsertNodes :: "WorkflowNodeInstance list"
  sc_UpdateNodes :: "WorkflowNodeInstance list"
  sc_UpdateTasks :: "WorkflowTask list"
  sc_Events :: "WorkflowProcessEvent list"
  sc_WorkflowExecution :: "WorkflowExecution option"
  sc_InsertExecutions :: "WorkflowExecution list"

record WorkflowWithdrawalCommit =
  wd_Process :: WorkflowProcessInstance
  wd_ExpectedUpdatedAt :: string
  wd_ExpectedStatus :: string
  wd_CommandID :: string
  wd_ActorID :: string

text \<open>An update statement with its own predicate: the rows, and how many it changed.\<close>

definition update_rows :: "('row \<Rightarrow> bool) \<Rightarrow> ('row \<Rightarrow> 'row) \<Rightarrow> 'row list \<Rightarrow> 'row list" where
  "update_rows p f rows = map (\<lambda>r. if p r then f r else r) rows"

definition guardApprovalSnapshotTx :: "string \<Rightarrow> WorkflowDecisionCommit \<Rightarrow> tx" where
  "guardApprovalSnapshotTx workspaceID commit db =
     (if dc_ExpectedProcessUpdatedAt commit = [] then Inr db
      else (case dc_Process commit of
          None \<Rightarrow> Inl WorkflowSnapshotRequired
        | Some process \<Rightarrow>
            if wp_ID process \<noteq> wt_ProcessID (dc_DecidedTask commit) \<or>
              wp_UpdatedAt process = dc_ExpectedProcessUpdatedAt commit then Inl WorkflowSnapshotRequired
            else (let p = (\<lambda>r. wp_WorkspaceID r = workspaceID \<and> wp_ID r = wp_ID process \<and>
                wp_UpdatedAt r = dc_ExpectedProcessUpdatedAt commit \<and> wp_Status r = ''waiting'')
              in if length (filter p (db_Processes db)) \<noteq> 1 then Inl WorkflowSnapshotChanged
                 else Inr (db \<lparr> db_Processes := update_rows p
                   (\<lambda>r. r \<lparr> wp_UpdatedAt := wp_UpdatedAt process \<rparr>) (db_Processes db) \<rparr>))))"

definition decide_task :: "WorkflowTask \<Rightarrow> WorkflowTask \<Rightarrow> WorkflowTask" where
  "decide_task task r = r \<lparr> wt_Status := wt_Status task, wt_Decision := wt_Decision task, wt_Comment := wt_Comment task,
     wt_CompletedBy := wt_CompletedBy task, wt_CompletedAt := wt_CompletedAt task, wt_UpdatedAt := wt_UpdatedAt task \<rparr>"

definition decideTaskTx :: "string \<Rightarrow> WorkflowDecisionCommit \<Rightarrow> workflow_db \<Rightarrow> workflow_db \<times> bool" where
  "decideTaskTx workspaceID commit db = (let
     task = dc_DecidedTask commit;
     status = (if trim_space (dc_ExpectedTaskStatus commit) = [] then ''open'' else trim_space (dc_ExpectedTaskStatus commit));
     p = (\<lambda>r. wt_WorkspaceID r = workspaceID \<and> wt_ID r = wt_ID task \<and>
       wt_AssigneeUserID r = dc_ExpectedAssigneeID commit \<and> wt_Status r = status)
   in (db \<lparr> db_Tasks := update_rows p (decide_task task) (db_Tasks db) \<rparr>, length (filter p (db_Tasks db)) = 1))"

text \<open>The writes of a decision, in the order of the transaction: rows, process, trail.\<close>

definition decision_rows :: "workflow_env \<Rightarrow> string \<Rightarrow> WorkflowDecisionCommit \<Rightarrow> tx" where
  "decision_rows env w commit =
     tx_then (tx_each (recordTx env w) (dc_RecordMutations commit))
    (tx_then (tx_each (\<lambda>n. insertNodeTx env (n \<lparr> wn_WorkspaceID := w \<rparr>)) (dc_InsertNodes commit))
    (tx_then (tx_each (\<lambda>n. updateNodeTx env (n \<lparr> wn_WorkspaceID := w \<rparr>)) (dc_UpdateNodes commit))
    (tx_then (tx_each (\<lambda>t. insertTaskTx env (t \<lparr> wt_WorkspaceID := w \<rparr>)) (dc_InsertTasks commit))
    (tx_then (tx_each (\<lambda>t. if wt_ID t = wt_ID (dc_DecidedTask commit) then Inr
        else updateTaskTx env (t \<lparr> wt_WorkspaceID := w \<rparr>)) (dc_UpdateTasks commit))
     (tx_each (\<lambda>st db. case updateWorkflowRouteStepTx env (st \<lparr> rs_WorkspaceID := w \<rparr>)
          (workflowRouteStepExpectedStatus st) db of
        (db', updated) \<Rightarrow> if updated then Inr db' else Inl WorkflowSnapshotChanged) (dc_UpdateRouteSteps commit))))))"

definition decision_trail :: "workflow_env \<Rightarrow> string \<Rightarrow> WorkflowDecisionCommit \<Rightarrow> tx" where
  "decision_trail env w commit =
     tx_then (tx_each (\<lambda>e. insertEventTx env (e \<lparr> ev_WorkspaceID := w \<rparr>)) (dc_Events commit))
    (tx_then (tx_each (\<lambda>e. tx_then (insertExecutionTx env (e \<lparr> we_WorkspaceID := w \<rparr>))
        (RegisterWorkflowContinuationScope env w (we_UpdatedAt e))) (dc_InsertExecutions commit))
    (tx_then (tx_each (\<lambda>e. notifyTx env (AList.update ''workspace_id'' (VStr w) e)) (dc_NotificationEvents commit))
     (tx_opt (\<lambda>e. updateExecutionTx env (e \<lparr> we_WorkspaceID := w \<rparr>)) (dc_WorkflowExecution commit))))"

definition decision_writes :: "workflow_env \<Rightarrow> string \<Rightarrow> WorkflowDecisionCommit \<Rightarrow> tx" where
  "decision_writes env w commit = tx_then (decision_rows env w commit)
     (tx_then (tx_opt (\<lambda>p. updateProcessTx env (p \<lparr> wp_WorkspaceID := w \<rparr>)) (dc_Process commit))
       (decision_trail env w commit))"

text \<open>The transaction: the database it leaves, and whether it committed or the error.\<close>

definition CommitWorkflowDecision ::
    "workflow_env \<Rightarrow> WorkflowDecisionCommit \<Rightarrow> workflow_db \<Rightarrow> workflow_db \<times> (workflow_error + bool)" where
  "CommitWorkflowDecision env commit db = (case requireWorkflowWorkspaceID (dc_WorkspaceID commit) of
      Inl e \<Rightarrow> (db, Inl e)
    | Inr w \<Rightarrow> (case guardApprovalSnapshotTx w commit db of
        Inl e \<Rightarrow> (db, Inl e)
      | Inr db1 \<Rightarrow> (case decideTaskTx w commit db1 of
          (db2, decided) \<Rightarrow>
            if \<not> decided then (db, Inr False)
            else (case decision_writes env w commit db2 of
                Inl e \<Rightarrow> (db, Inl e) | Inr db3 \<Rightarrow> (db3, Inr True)))))"

definition state_writes :: "workflow_env \<Rightarrow> string \<Rightarrow> WorkflowStateCommit \<Rightarrow> tx" where
  "state_writes env w commit =
     tx_then (tx_each (\<lambda>n. insertNodeTx env (n \<lparr> wn_WorkspaceID := w \<rparr>)) (sc_InsertNodes commit))
    (tx_then (tx_each (\<lambda>n. updateNodeTx env (n \<lparr> wn_WorkspaceID := w \<rparr>)) (sc_UpdateNodes commit))
    (tx_then (tx_each (\<lambda>t. updateTaskTx env (t \<lparr> wt_WorkspaceID := w \<rparr>)) (sc_UpdateTasks commit))
    (tx_then (tx_opt (\<lambda>p. updateProcessTx env (p \<lparr> wp_WorkspaceID := w \<rparr>)) (sc_Process commit))
    (tx_then (tx_each (\<lambda>e. insertEventTx env (e \<lparr> ev_WorkspaceID := w \<rparr>)) (sc_Events commit))
    (tx_then (tx_opt (\<lambda>e. updateExecutionTx env (e \<lparr> we_WorkspaceID := w \<rparr>)) (sc_WorkflowExecution commit))
     (tx_each (\<lambda>e. tx_then (insertExecutionTx env (e \<lparr> we_WorkspaceID := w \<rparr>))
        (RegisterWorkflowContinuationScope env w (we_UpdatedAt e))) (sc_InsertExecutions commit)))))))"

definition CommitWorkflowState ::
    "workflow_env \<Rightarrow> WorkflowStateCommit \<Rightarrow> workflow_db \<Rightarrow> workflow_db \<times> workflow_error option" where
  "CommitWorkflowState env commit db = (case requireWorkflowWorkspaceID (sc_WorkspaceID commit) of
      Inl e \<Rightarrow> (db, Some e)
    | Inr w \<Rightarrow> (case state_writes env w commit db of Inl e \<Rightarrow> (db, Some e) | Inr db' \<Rightarrow> (db', None)))"

definition ClaimWorkflowTimer ::
    "workflow_env \<Rightarrow> string \<Rightarrow> WorkflowProcessInstance \<Rightarrow> WorkflowNodeInstance \<Rightarrow> string \<Rightarrow> workflow_db \<Rightarrow>
       workflow_db \<times> (workflow_error + bool)" where
  "ClaimWorkflowTimer env workspaceID0 process node expectedUpdatedAt db =
     (case requireWorkflowWorkspaceID workspaceID0 of
        Inl e \<Rightarrow> (db, Inl e)
      | Inr w \<Rightarrow>
          if wp_ID process = [] \<or> wp_UpdatedAt process = expectedUpdatedAt \<or> expectedUpdatedAt = [] \<or>
            wp_Status process \<noteq> ''running'' \<or> wn_ProcessID node \<noteq> wp_ID process \<or> wn_Status node \<noteq> ''success''
            then (db, Inl WorkflowTimerClaim)
          else (let p = (\<lambda>r. wp_WorkspaceID r = w \<and> wp_ID r = wp_ID process \<and> wp_Status r = ''waiting'' \<and>
              wp_UpdatedAt r = expectedUpdatedAt)
            in if length (filter p (db_Processes db)) \<noteq> 1 then (db, Inr False)
               else (case updateNodeTx env (node \<lparr> wn_WorkspaceID := w \<rparr>) (db \<lparr> db_Processes := update_rows p
                   (\<lambda>r. r \<lparr> wp_Status := wp_Status process, wp_UpdatedAt := wp_UpdatedAt process \<rparr>) (db_Processes db) \<rparr>) of
                  Inl e \<Rightarrow> (db, Inl e) | Inr db' \<Rightarrow> (db', Inr True))))"

subsection \<open>Withdrawal\<close>

definition withdrawal_ok :: "string \<Rightarrow> WorkflowWithdrawalCommit \<Rightarrow> bool" where
  "withdrawal_ok workspaceID c \<longleftrightarrow> (let p = wd_Process c in
     \<not> (trim_space workspaceID = [] \<or> wp_WorkspaceID p \<noteq> workspaceID \<or> wp_ID p = [] \<or> wp_InitiatorID p \<noteq> wd_ActorID c \<or>
        wd_ActorID c = [] \<or> wd_CommandID c = [] \<or> wp_Status p \<noteq> ''cancelled'' \<or> wd_ExpectedStatus c \<noteq> ''waiting'' \<or>
        wd_ExpectedUpdatedAt c = [] \<or> wp_UpdatedAt p = wd_ExpectedUpdatedAt c))"

definition withdrawal_children :: "string \<Rightarrow> WorkflowWithdrawalCommit \<Rightarrow> workflow_db \<Rightarrow> workflow_db" where
  "withdrawal_children w c db = (let p = wd_Process c in db \<lparr>
     db_Tasks := update_rows (\<lambda>r. wt_WorkspaceID r = w \<and> wt_ProcessID r = wp_ID p \<and> wt_Status r \<in> {''open'', ''pending''})
       (\<lambda>r. r \<lparr> wt_Status := ''cancelled'', wt_UpdatedAt := wp_UpdatedAt p, wt_CompletedAt := wp_CompletedAt p,
          wt_CompletedBy := wd_ActorID c \<rparr>) (db_Tasks db),
     db_Nodes := update_rows (\<lambda>r. wn_WorkspaceID r = w \<and> wn_ProcessID r = wp_ID p \<and>
         wn_Status r \<in> {''waiting'', ''running'', ''pending''})
       (\<lambda>r. r \<lparr> wn_Status := ''cancelled'', wn_CompletedAt := wp_CompletedAt p \<rparr>) (db_Nodes db),
     db_Steps := update_rows (\<lambda>r. rs_WorkspaceID r = w \<and> rs_ProcessID r = wp_ID p \<and>
         rs_Status r \<in> {''active'', ''pending'', ''configurable''})
       (\<lambda>r. r \<lparr> rs_Status := ''cancelled'', rs_UpdatedAt := wp_UpdatedAt p \<rparr>) (db_Steps db),
     db_Executions := update_rows (\<lambda>r. we_WorkspaceID r = w \<and> we_ProcessID r = wp_ID p \<and>
         (we_Status r \<in> {''pending'', ''running'', ''waiting'', ''retrying''} \<or> we_Status r = ''failed'' \<and> we_NextRunAt r \<noteq> []))
       (\<lambda>r. r \<lparr> we_Status := ''cancelled'', we_UpdatedAt := wp_UpdatedAt p, we_NodeID := [], we_NextRunAt := [],
          we_LastError := [], we_LeaseOwner := [], we_LeaseExpiresAt := [] \<rparr>) (db_Executions db) \<rparr>)"

definition withdrawal_event :: "string \<Rightarrow> WorkflowWithdrawalCommit \<Rightarrow> WorkflowProcessEvent" where
  "withdrawal_event w c = \<lparr> ev_WorkspaceID = w, ev_ID = wd_CommandID c, ev_ProcessID = wp_ID (wd_Process c), ev_NodeID = [],
     ev_TaskID = [], ev_Event = ''process_cancelled'', ev_ActorID = wd_ActorID c,
     ev_Summary = ''workflow.event.process.cancelled'',
     ev_Metadata = [(''command_id'', VStr (wd_CommandID c)), (''business_outcome'', VStr ''withdrawn'')],
     ev_CreatedAt = wp_CompletedAt (wd_Process c) \<rparr>"

definition ApplyWorkflowWithdrawalTx :: "workflow_env \<Rightarrow> string \<Rightarrow> WorkflowWithdrawalCommit \<Rightarrow> tx" where
  "ApplyWorkflowWithdrawalTx env w c db = (let p = wd_Process c in
     if \<not> withdrawal_ok w c then Inl WorkflowWithdrawal
     else if \<not> en_Encodable env (wp_Variables p) \<or> \<not> en_Encodable env (wp_Result p) then Inl WorkflowEncode
     else (let m = (\<lambda>r. wp_WorkspaceID r = w \<and> wp_ID r = wp_ID p \<and> wp_WorkflowKey r = wp_WorkflowKey p \<and>
         wp_InitiatorID r = wd_ActorID c \<and> wp_Status r = wd_ExpectedStatus c \<and> wp_UpdatedAt r = wd_ExpectedUpdatedAt c)
       in if length (filter m (db_Processes db)) \<noteq> 1 then Inl WorkflowWithdrawalChanged
          else (let db1 = db \<lparr> db_Processes := update_rows m (\<lambda>r. r \<lparr> wp_Status := wp_Status p, wp_CurrentNodeIDs := [],
                wp_Variables := wp_Variables p, wp_Result := wp_Result p, wp_UpdatedAt := wp_UpdatedAt p,
                wp_CompletedAt := wp_CompletedAt p \<rparr>) (db_Processes db) \<rparr>;
              db2 = withdrawal_children w c db1
            in (case insertTx (\<lambda>a b. event_key a = event_key b) (withdrawal_event w c) (db_Events db2) of
                None \<Rightarrow> Inl (WorkflowUnique (wd_CommandID c))
              | Some rows \<Rightarrow> Inr (db2 \<lparr> db_Events := rows \<rparr>)))))"

definition CommitWorkflowWithdrawal ::
    "workflow_env \<Rightarrow> WorkflowWithdrawalCommit \<Rightarrow> workflow_db \<Rightarrow> workflow_db \<times> workflow_error option" where
  "CommitWorkflowWithdrawal env c db = (case ApplyWorkflowWithdrawalTx env (wp_WorkspaceID (wd_Process c)) c db of
     Inl e \<Rightarrow> (db, Some e) | Inr db' \<Rightarrow> (db', None))"

subsection \<open>Single statements of the process store\<close>

definition stmt :: "tx \<Rightarrow> workflow_db \<Rightarrow> workflow_db \<times> workflow_error option" where
  "stmt t db = (case t db of Inl e \<Rightarrow> (db, Some e) | Inr db' \<Rightarrow> (db', None))"

definition in_workspace :: "string \<Rightarrow> (string \<Rightarrow> tx) \<Rightarrow> tx" where
  "in_workspace workspaceID t db = (case requireWorkflowWorkspaceID workspaceID of Inl e \<Rightarrow> Inl e | Inr w \<Rightarrow> t w db)"

definition InsertProcess :: "workflow_env \<Rightarrow> string \<Rightarrow> WorkflowProcessInstance \<Rightarrow> tx" where
  "InsertProcess env workspaceID process = in_workspace workspaceID (\<lambda>w db. let p = process \<lparr> wp_WorkspaceID := w \<rparr> in
     if en_ProcessErased env p then Inl WorkflowErased
     else (case insertTx (\<lambda>a b. process_key a = process_key b) p (db_Processes db) of
        None \<Rightarrow> Inl (WorkflowUnique (wp_ID p)) | Some rows \<Rightarrow> Inr (db \<lparr> db_Processes := rows \<rparr>)))"

definition UpdateProcess :: "workflow_env \<Rightarrow> string \<Rightarrow> WorkflowProcessInstance \<Rightarrow> tx" where
  "UpdateProcess env workspaceID process =
     in_workspace workspaceID (\<lambda>w. updateProcessTx env (process \<lparr> wp_WorkspaceID := w \<rparr>))"

definition InsertNode :: "workflow_env \<Rightarrow> string \<Rightarrow> WorkflowNodeInstance \<Rightarrow> tx" where
  "InsertNode env workspaceID node = in_workspace workspaceID (\<lambda>w. insertNodeTx env (node \<lparr> wn_WorkspaceID := w \<rparr>))"

definition UpdateNode :: "workflow_env \<Rightarrow> string \<Rightarrow> WorkflowNodeInstance \<Rightarrow> tx" where
  "UpdateNode env workspaceID node = in_workspace workspaceID (\<lambda>w. updateNodeTx env (node \<lparr> wn_WorkspaceID := w \<rparr>))"

definition InsertTask :: "workflow_env \<Rightarrow> string \<Rightarrow> WorkflowTask \<Rightarrow> tx" where
  "InsertTask env workspaceID task = in_workspace workspaceID (\<lambda>w. insertTaskTx env (task \<lparr> wt_WorkspaceID := w \<rparr>))"

definition UpdateTask :: "workflow_env \<Rightarrow> string \<Rightarrow> WorkflowTask \<Rightarrow> tx" where
  "UpdateTask env workspaceID task = in_workspace workspaceID (\<lambda>w. updateTaskTx env (task \<lparr> wt_WorkspaceID := w \<rparr>))"

definition InsertEvent :: "workflow_env \<Rightarrow> string \<Rightarrow> WorkflowProcessEvent \<Rightarrow> tx" where
  "InsertEvent env workspaceID event = in_workspace workspaceID (\<lambda>w. insertEventTx env (event \<lparr> ev_WorkspaceID := w \<rparr>))"

text \<open>\<open>None\<close> when no open task of the assignee has the id, the stored task otherwise.\<close>

definition DecideTask_store ::
    "string \<Rightarrow> string \<Rightarrow> string \<Rightarrow> string \<Rightarrow> string \<Rightarrow> string \<Rightarrow> workflow_db \<Rightarrow>
       workflow_db \<times> (workflow_error + WorkflowTask option)" where
  "DecideTask_store workspaceID taskID user decision comment completedAt db =
     (case requireWorkflowWorkspaceID workspaceID of
        Inl e \<Rightarrow> (db, Inl e)
      | Inr w \<Rightarrow> (let
          p = (\<lambda>r. wt_WorkspaceID r = w \<and> wt_ID r = taskID \<and> wt_AssigneeUserID r = user \<and> wt_Status r = ''open'');
          rows = update_rows p (\<lambda>r. r \<lparr> wt_Status := decision, wt_Decision := decision, wt_Comment := comment,
            wt_CompletedBy := user, wt_CompletedAt := completedAt, wt_UpdatedAt := completedAt \<rparr>) (db_Tasks db)
        in if \<not> (\<exists>r \<in> set (db_Tasks db). p r) then (db, Inr None)
           else (db \<lparr> db_Tasks := rows \<rparr>, Inr (find (\<lambda>r. wt_WorkspaceID r = w \<and> wt_ID r = taskID) rows))))"

definition UpdateRouteStepCAS ::
    "workflow_env \<Rightarrow> string \<Rightarrow> WorkflowRouteStep \<Rightarrow> string \<Rightarrow> workflow_db \<Rightarrow> workflow_db \<times> (workflow_error + bool)" where
  "UpdateRouteStepCAS env workspaceID step expectedStatus db = (case requireWorkflowWorkspaceID workspaceID of
      Inl e \<Rightarrow> (db, Inl e)
    | Inr w \<Rightarrow> (case updateWorkflowRouteStepTx env (step \<lparr> rs_WorkspaceID := w \<rparr>) expectedStatus db of
        (db', updated) \<Rightarrow> if updated then (db', Inr True) else (db, Inr False)))"

text \<open>
  Executions are updated under conditions (\<open>workflow_worker_store.go\<close>), on the rows of one workspace;
  an update without conditions that changes no row is an error.
\<close>

definition UpdateExecutionWhere_store ::
    "workflow_env \<Rightarrow> string \<Rightarrow> WorkflowExecution \<Rightarrow> execution_conditions \<Rightarrow> workflow_db \<Rightarrow> workflow_db \<times> (workflow_error + bool)" where
  "UpdateExecutionWhere_store env workspaceID e c db = (case requireWorkflowWorkspaceID workspaceID of
      Inl x \<Rightarrow> (db, Inl x)
    | Inr w \<Rightarrow>
        if \<not> execution_encodable env e then (db, Inl WorkflowEncode)
        else (let p = (\<lambda>r. we_WorkspaceID r = w \<and>
            execution_row_matches (if en_Fenced env w ''_workflow_executions'' (we_ID e) then [we_ID e] else []) e c r)
          in (db \<lparr> db_Executions := update_rows p (put_execution e) (db_Executions db) \<rparr>,
              Inr (length (filter p (db_Executions db)) = 1))))"

definition no_conditions :: execution_conditions where
  "no_conditions = \<lparr> ec_Status = None, ec_UpdatedAt = None, ec_LeaseOwner = None, ec_FencingToken = None \<rparr>"

definition UpdateExecution_store ::
    "workflow_env \<Rightarrow> string \<Rightarrow> WorkflowExecution \<Rightarrow> workflow_db \<Rightarrow> workflow_db \<times> workflow_error option" where
  "UpdateExecution_store env workspaceID e db = (case UpdateExecutionWhere_store env workspaceID e no_conditions db of
      (db', Inl x) \<Rightarrow> (db', Some x)
    | (db', Inr updated) \<Rightarrow> (db', if updated then None else Some (WorkflowNoRows (we_ID e))))"

text \<open>
  The row of a run is inserted after its process: the process is locked first, and the row of a run
  that a withdrawal has overtaken is refused.
\<close>

definition guardExecutionProcessTx :: "string \<Rightarrow> string \<Rightarrow> tx" where
  "guardExecutionProcessTx w processID db =
     (if \<exists>r \<in> set (db_Processes db). process_key r = (w, processID) \<and> wp_Status r = ''cancelled''
      then Inl WorkflowSnapshotChanged else Inr db)"

definition InsertExecution :: "workflow_env \<Rightarrow> string \<Rightarrow> WorkflowExecution \<Rightarrow> tx" where
  "InsertExecution env workspaceID e = in_workspace workspaceID (\<lambda>w.
     if \<not> execution_encodable env e then (\<lambda>_. Inl WorkflowEncode)
     else tx_then (if we_ProcessID e \<noteq> [] \<and> we_Status e \<noteq> ''cancelled'' then guardExecutionProcessTx w (we_ProcessID e) else Inr)
       (tx_then (insertExecutionTx env (e \<lparr> we_WorkspaceID := w \<rparr>)) (RegisterWorkflowContinuationScope env w (we_UpdatedAt e))))"

text \<open>
  The batch update of tasks is an upsert: it has no guard for cancelled rows. Its only caller
  (\<open>cancelUnfinishedApprovalTasks\<close>) cancels. A blank id is skipped; of several tasks with one id the
  last is written, in the place of the first.
\<close>

definition batch_tasks :: "WorkflowTask list \<Rightarrow> WorkflowTask list" where
  "batch_tasks tasks = (let ts = filter (\<lambda>t. trim_space (wt_ID t) \<noteq> []) tasks in
     map (\<lambda>i. last (filter (\<lambda>t. trim_space (wt_ID t) = i) ts)) (uniq_acc [] (map (\<lambda>t. trim_space (wt_ID t)) ts)))"

definition upsert_task :: "WorkflowTask \<Rightarrow> WorkflowTask list \<Rightarrow> WorkflowTask list" where
  "upsert_task t rows = (if \<exists>r \<in> set rows. task_key r = task_key t
     then map (\<lambda>r. if task_key r = task_key t then put_task t r else r) rows else rows @ [t])"

definition UpdateTasks :: "string \<Rightarrow> WorkflowTask list \<Rightarrow> tx" where
  "UpdateTasks workspaceID tasks = in_workspace workspaceID (\<lambda>w db. Inr (db \<lparr> db_Tasks :=
     fold (\<lambda>t. upsert_task (t \<lparr> wt_WorkspaceID := w \<rparr>)) (batch_tasks tasks) (db_Tasks db) \<rparr>))"

text \<open>Tasks and events stored together with their notification (\<open>workflow_task_notification_store.go\<close>).\<close>

definition commitWorkflowTaskNotification :: "workflow_env \<Rightarrow> string \<Rightarrow> WorkflowTask \<Rightarrow> NotificationEvent \<Rightarrow> bool \<Rightarrow> tx" where
  "commitWorkflowTaskNotification env workspaceID task event update = in_workspace workspaceID (\<lambda>w.
     tx_then (if update then updateTaskTx env (task \<lparr> wt_WorkspaceID := w \<rparr>) else insertTaskTx env (task \<lparr> wt_WorkspaceID := w \<rparr>))
       (notifyTx env (AList.update ''workspace_id'' (VStr w) event)))"

definition CommitWorkflowTaskReminderNotification ::
    "workflow_env \<Rightarrow> string \<Rightarrow> WorkflowProcessEvent \<Rightarrow> NotificationEvent \<Rightarrow> tx" where
  "CommitWorkflowTaskReminderNotification env workspaceID processEvent event = in_workspace workspaceID (\<lambda>w.
     tx_then (insertEventTx env (processEvent \<lparr> ev_WorkspaceID := w \<rparr>))
       (notifyTx env (AList.update ''workspace_id'' (VStr w) event)))"

definition CommitWorkflowTaskEscalationNotification ::
    "workflow_env \<Rightarrow> string \<Rightarrow> WorkflowTask \<Rightarrow> WorkflowProcessEvent \<Rightarrow> NotificationEvent list \<Rightarrow> tx" where
  "CommitWorkflowTaskEscalationNotification env workspaceID task processEvent events = in_workspace workspaceID (\<lambda>w.
     tx_then (updateTaskTx env (task \<lparr> wt_WorkspaceID := w \<rparr>))
    (tx_then (insertEventTx env (processEvent \<lparr> ev_WorkspaceID := w \<rparr>))
       (tx_each (\<lambda>e. notifyTx env (AList.update ''workspace_id'' (VStr w) e)) events)))"

subsection \<open>Reading\<close>

definition scanWorkflowProcess :: "workflow_env \<Rightarrow> WorkflowProcessInstance \<Rightarrow> WorkflowProcessInstance" where
  "scanWorkflowProcess env r = r \<lparr> wp_DefinitionSnapshot := (en_RecodeDefinition env (wp_DefinitionSnapshot r))
       \<lparr> ws_DefinitionVersionID := wp_DefinitionVersionID r, ws_PublishedVersion := wp_DefinitionVersion r \<rparr>,
     wp_Variables := en_Recode env (wp_Variables r), wp_Result := en_Recode env (wp_Result r) \<rparr>"

definition scanWorkflowNode :: "workflow_env \<Rightarrow> WorkflowNodeInstance \<Rightarrow> WorkflowNodeInstance" where
  "scanWorkflowNode env r = r \<lparr> wn_Input := en_Recode env (wn_Input r), wn_Output := en_Recode env (wn_Output r) \<rparr>"

definition scanWorkflowTask :: "workflow_env \<Rightarrow> WorkflowTask \<Rightarrow> WorkflowTask" where
  "scanWorkflowTask env r = r \<lparr> wt_ResolverSnapshot := en_RecodeResolvers env (wt_ResolverSnapshot r) \<rparr>"

definition scanWorkflowExecution :: "workflow_env \<Rightarrow> WorkflowExecution \<Rightarrow> WorkflowExecution" where
  "scanWorkflowExecution env r = r \<lparr> we_Action := en_Recode env (we_Action r), we_Payload := en_Recode env (we_Payload r),
     we_Result := en_Recode env (we_Result r) \<rparr>"

definition GetProcess :: "workflow_env \<Rightarrow> string \<Rightarrow> string \<Rightarrow> workflow_db \<Rightarrow> workflow_error + WorkflowProcessInstance option" where
  "GetProcess env workspaceID i db = read_in workspaceID (\<lambda>w. Inr (map_option (scanWorkflowProcess env)
     (find (\<lambda>r. process_key r = (w, i)) (db_Processes db))))"

definition GetTask :: "workflow_env \<Rightarrow> string \<Rightarrow> string \<Rightarrow> workflow_db \<Rightarrow> workflow_error + WorkflowTask option" where
  "GetTask env workspaceID i db = read_in workspaceID (\<lambda>w. Inr (map_option (scanWorkflowTask env)
     (find (\<lambda>r. task_key r = (w, i)) (db_Tasks db))))"

definition GetExecution :: "workflow_env \<Rightarrow> string \<Rightarrow> string \<Rightarrow> workflow_db \<Rightarrow> workflow_error + WorkflowExecution option" where
  "GetExecution env workspaceID i db = read_in workspaceID (\<lambda>w. Inr (map_option (scanWorkflowExecution env)
     (find (\<lambda>r. execution_key r = (w, i)) (db_Executions db))))"

definition ListNodes :: "workflow_env \<Rightarrow> string \<Rightarrow> string \<Rightarrow> workflow_db \<Rightarrow> workflow_error + WorkflowNodeInstance list" where
  "ListNodes env workspaceID processID db = read_in workspaceID (\<lambda>w. Inr (map (scanWorkflowNode env)
     (sort_key (\<lambda>r. [wn_StartedAt r, wn_NodeID r, wn_ID r])
       (filter (\<lambda>r. wn_WorkspaceID r = w \<and> wn_ProcessID r = processID) (db_Nodes db)))))"

definition list_filter :: "string \<Rightarrow> string \<Rightarrow> bool" where
  "list_filter wanted v \<longleftrightarrow> trim_space wanted = [] \<or> v = trim_space wanted"

text \<open>
  The executions of a workspace, newest first. Rows of one \<open>created_at\<close> come in an order the database
  chooses, here by a text \<open>tie\<close>. A limit above 1000 is 1000.
\<close>

definition ListExecutions ::
    "workflow_env \<Rightarrow> (WorkflowExecution \<Rightarrow> string) \<Rightarrow> string \<Rightarrow> int \<Rightarrow> workflow_db \<Rightarrow> workflow_error + WorkflowExecution list" where
  "ListExecutions env tie workspaceID limit0 db = read_in workspaceID (\<lambda>w. let
     limit = (if limit0 \<le> 0 then 100 else if 1000 < limit0 then 1000 else limit0)
   in Inr (map (scanWorkflowExecution env) (take (nat limit) (rev (sort_key (\<lambda>r. [we_CreatedAt r, tie r])
     (filter (\<lambda>r. we_WorkspaceID r = w) (db_Executions db)))))))"

text \<open>Newest first: the order by \<open>created_at\<close> and \<open>id\<close>, descending.\<close>

definition ListTasks ::
    "workflow_env \<Rightarrow> string \<Rightarrow> string \<Rightarrow> string \<Rightarrow> string \<Rightarrow> int \<Rightarrow> workflow_db \<Rightarrow> workflow_error + WorkflowTask list" where
  "ListTasks env workspaceID processID userID status limit0 db = read_in workspaceID (\<lambda>w. let
     limit = (if limit0 \<le> 0 \<or> 500 < limit0 then 100 else limit0)
   in Inr (map (scanWorkflowTask env) (take (nat limit) (rev (sort_key (\<lambda>r. [wt_CreatedAt r, wt_ID r])
     (filter (\<lambda>r. wt_WorkspaceID r = w \<and> list_filter processID (wt_ProcessID r) \<and> list_filter userID (wt_AssigneeUserID r) \<and>
        list_filter status (wt_Status r)) (db_Tasks db)))))))"

text \<open>
  The reader of the tasks of one approval orders by a column \<open>sequence\<close>; the table calls it
  \<open>sequence_no\<close>. PostgreSQL and MySQL reject the statement; SQLite reads a quoted name that is no
  column as a text, which leaves the order to \<open>id\<close>.
\<close>

definition ListApprovalTasks ::
    "workflow_env \<Rightarrow> string \<Rightarrow> string \<Rightarrow> string \<Rightarrow> workflow_db \<Rightarrow> workflow_error + WorkflowTask list" where
  "ListApprovalTasks env workspaceID processID nodeInstanceID db = read_in workspaceID (\<lambda>w.
     if trim_space processID = [] \<or> trim_space nodeInstanceID = [] then Inl WorkflowArguments
     else if \<not> en_UnknownColumnIsText env then Inl (WorkflowUnknownColumn ''sequence'')
     else Inr (map (scanWorkflowTask env) (sort_key wt_ID
       (filter (\<lambda>r. wt_WorkspaceID r = w \<and> wt_ProcessID r = processID \<and> wt_NodeInstanceID r = nodeInstanceID) (db_Tasks db)))))"

definition ListRouteSteps :: "string \<Rightarrow> string \<Rightarrow> workflow_db \<Rightarrow> workflow_error + WorkflowRouteStep list" where
  "ListRouteSteps workspaceID processID db = read_in workspaceID (\<lambda>w.
     if trim_space processID = [] then Inl WorkflowArguments
     else Inr (sort_key rs_StepNo (filter (\<lambda>r. rs_WorkspaceID r = w \<and> rs_ProcessID r = processID) (db_Steps db))))"

subsection \<open>What every write keeps\<close>

definition db_kept :: "workflow_db \<Rightarrow> workflow_db \<Rightarrow> bool" where
  "db_kept db db' \<longleftrightarrow> rows_kept process_key wp_Status (db_Processes db) (db_Processes db') \<and>
     rows_kept node_key wn_Status (db_Nodes db) (db_Nodes db') \<and>
     rows_kept task_key wt_Status (db_Tasks db) (db_Tasks db') \<and>
     rows_kept execution_key we_Status (db_Executions db) (db_Executions db')"

lemma db_kept_refl [simp]: "db_kept db db"
  by (simp add: db_kept_def)

lemma db_kept_trans [trans]: "db_kept a b \<Longrightarrow> db_kept b c \<Longrightarrow> db_kept a c"
  unfolding db_kept_def by (blast intro: rows_kept_trans)

definition tx_keeps :: "tx \<Rightarrow> bool" where
  "tx_keeps t \<longleftrightarrow> (\<forall>db db'. t db = Inr db' \<longrightarrow> db_kept db db')"

named_theorems keeps

lemma tx_keepsD: "tx_keeps t \<Longrightarrow> t db = Inr db' \<Longrightarrow> db_kept db db'"
  by (simp add: tx_keeps_def)

lemma tx_keeps_then [keeps]: "tx_keeps a \<Longrightarrow> tx_keeps b \<Longrightarrow> tx_keeps (tx_then a b)"
  unfolding tx_keeps_def tx_then_def by (auto split: sum.splits) (metis db_kept_trans)

lemma tx_keeps_each [keeps]:
  assumes "\<And>x. tx_keeps (f x)"
  shows "tx_keeps (tx_each f xs)"
proof (induction xs)
  case Nil
  show ?case by (simp add: tx_keeps_def)
next
  case (Cons x xs)
  then show ?case using assms [of x] unfolding tx_keeps_def by (auto split: sum.splits) (metis db_kept_trans)
qed

lemma tx_keeps_opt [keeps]: "(\<And>x. tx_keeps (f x)) \<Longrightarrow> tx_keeps (tx_opt f v)"
  unfolding tx_keeps_def tx_opt_def by (auto split: option.splits)

lemma tx_keeps_Inr [keeps]: "tx_keeps Inr"
  by (simp add: tx_keeps_def)

lemma insertTx_kept:
  "insertTx clash new rows = Some rows' \<Longrightarrow> (\<And>r. key r = key new \<Longrightarrow> clash new r) \<Longrightarrow> rows_kept key status rows rows'"
  by (auto simp: insertTx_def split: if_splits intro!: rows_kept_append)

lemma insert_keeps [keeps]: "tx_keeps (insertNodeTx env n)" "tx_keeps (insertTaskTx env t)" "tx_keeps (insertEventTx env v)"
  "tx_keeps (insertExecutionTx env x)"
  unfolding tx_keeps_def insertNodeTx_def insertTaskTx_def insertEventTx_def insertExecutionTx_def
  by (auto simp: db_kept_def intro!: insertTx_kept split: if_splits option.splits)

lemma update_keeps [keeps]: "tx_keeps (updateNodeTx env n)" "tx_keeps (updateTaskTx env t)"
  "tx_keeps (updateProcessTx env p)" "tx_keeps (updateExecutionTx env x)"
  unfolding tx_keeps_def updateNodeTx_def updateTaskTx_def updateProcessTx_def updateExecutionTx_def
  by (auto simp: db_kept_def nodes.update_kept tasks.update_kept processes.update_kept executions.update_kept
      split: if_splits option.splits)

lemma other_keeps [keeps]: "tx_keeps (RegisterWorkflowContinuationScope env w u)" "tx_keeps (notifyTx env e)"
  "tx_keeps (recordTx env w m)"
  unfolding tx_keeps_def RegisterWorkflowContinuationScope_def notifyTx_def recordTx_def
  by (auto simp: db_kept_def split: sum.splits)

lemma guard_execution_keeps [keeps]: "tx_keeps (guardExecutionProcessTx w i)"
  by (auto simp: tx_keeps_def guardExecutionProcessTx_def split: if_splits)

lemma step_keeps [keeps]:
  "tx_keeps (\<lambda>db. case updateWorkflowRouteStepTx env st u db of (db', updated) \<Rightarrow> if updated then Inr db' else Inl e)"
  unfolding tx_keeps_def updateWorkflowRouteStepTx_def Let_def by (auto simp: db_kept_def split: if_splits)

lemma if_keeps [keeps]: "tx_keeps a \<Longrightarrow> tx_keeps b \<Longrightarrow> tx_keeps (if c then a else b)"
  by simp

lemma in_workspace_keeps [keeps]: "(\<And>w. tx_keeps (t w)) \<Longrightarrow> tx_keeps (in_workspace workspaceID t)"
  unfolding tx_keeps_def in_workspace_def by (auto split: sum.splits)

lemma update_rows_kept:
  "(\<And>r. p r \<Longrightarrow> row_kept key status r (f r)) \<Longrightarrow> rows_kept key status rows (update_rows p f rows)"
  unfolding update_rows_def by (auto intro!: rows_kept_map)

lemma guard_keeps: "tx_keeps (guardApprovalSnapshotTx w c)"
  unfolding tx_keeps_def guardApprovalSnapshotTx_def Let_def
  by (auto simp: db_kept_def row_kept_def intro!: update_rows_kept split: if_splits option.splits)

lemma decide_kept:
  assumes "trim_space (dc_ExpectedTaskStatus c) \<noteq> ''cancelled''" and "decideTaskTx w c db = (db', b)"
  shows "db_kept db db'"
  using assms unfolding decideTaskTx_def Let_def
  by (auto simp: db_kept_def row_kept_def decide_task_def intro!: update_rows_kept)

lemma decision_writes_keeps: "tx_keeps (decision_writes env w c)"
  unfolding decision_writes_def decision_rows_def decision_trail_def by (intro keeps)

lemma commit_decision_kept:
  assumes "trim_space (dc_ExpectedTaskStatus c) \<noteq> ''cancelled''"
  shows "db_kept db (fst (CommitWorkflowDecision env c db))"
proof -
  have "db_kept db db3" if "guardApprovalSnapshotTx w c db = Inr db1" "decideTaskTx w c db1 = (db2, b)"
    "decision_writes env w c db2 = Inr db3" for w db1 db2 db3 b
    using tx_keepsD [OF guard_keeps that(1)] decide_kept [OF assms that(2)] tx_keepsD [OF decision_writes_keeps that(3)]
    by (blast intro: db_kept_trans)
  then show ?thesis
    unfolding CommitWorkflowDecision_def by (auto split: sum.splits prod.splits)
qed

lemma stmt_kept: "tx_keeps t \<Longrightarrow> db_kept db (fst (stmt t db))"
  unfolding stmt_def by (auto split: sum.splits dest: tx_keepsD)

lemma state_writes_keeps: "tx_keeps (state_writes env w c)"
  unfolding state_writes_def by (intro keeps)

lemma commit_state_kept: "db_kept db (fst (CommitWorkflowState env c db))"
  unfolding CommitWorkflowState_def by (auto split: sum.splits dest: tx_keepsD [OF state_writes_keeps])

lemma claim_timer_kept: "db_kept db (fst (ClaimWorkflowTimer env w p n u db))"
proof -
  have "db_kept db db2" if "updateNodeTx env n' (db \<lparr> db_Processes := update_rows q f (db_Processes db) \<rparr>) = Inr db2"
    "\<And>r. q r \<Longrightarrow> row_kept process_key wp_Status r (f r)" for q f n' db2
  proof -
    have "db_kept db (db \<lparr> db_Processes := update_rows q f (db_Processes db) \<rparr>)"
      using that(2) by (simp add: db_kept_def update_rows_kept)
    with tx_keepsD [OF update_keeps(1) that(1)] show ?thesis by (rule db_kept_trans [rotated])
  qed
  then show ?thesis
    unfolding ClaimWorkflowTimer_def Let_def by (auto simp: row_kept_def split: sum.splits)
qed

lemma withdrawal_kept: "tx_keeps (ApplyWorkflowWithdrawalTx env w c)"
  unfolding tx_keeps_def ApplyWorkflowWithdrawalTx_def withdrawal_children_def withdrawal_ok_def Let_def db_kept_def
  by (auto simp: row_kept_def intro!: update_rows_kept split: if_splits option.splits)

lemma decide_task_store_kept: "db_kept db (fst (DecideTask_store w i u d c t db))"
  unfolding DecideTask_store_def Let_def
  by (auto simp: db_kept_def row_kept_def intro!: update_rows_kept split: sum.splits)

lemma route_cas_kept: "db_kept db (fst (UpdateRouteStepCAS env w st u db))"
  unfolding UpdateRouteStepCAS_def updateWorkflowRouteStepTx_def Let_def
  by (auto simp: db_kept_def split: sum.splits)

lemma execution_where_kept: "db_kept db (fst (UpdateExecutionWhere_store env w e c db))"
  unfolding UpdateExecutionWhere_store_def Let_def
  by (auto simp: db_kept_def row_kept_def put_execution_def execution_row_matches_def intro!: update_rows_kept split: sum.splits)

lemma fst_update_execution: "fst (UpdateExecution_store env w e db) = fst (UpdateExecutionWhere_store env w e no_conditions db)"
  by (auto simp: UpdateExecution_store_def split: prod.splits sum.splits)

text \<open>
  Any interleaving of the store's operations, by the engine, deciders, timers and withdrawals. The
  deciders expect an open task (\<open>workflowApprovalDecisionCommit\<close>). Requests claim and complete receipts in between.
\<close>

inductive workflow_step :: "workflow_db \<Rightarrow> workflow_db \<Rightarrow> bool" where
  Decision: "dc_ExpectedTaskStatus c = ''open'' \<Longrightarrow> workflow_step db (fst (CommitWorkflowDecision env c db))"
| State: "workflow_step db (fst (CommitWorkflowState env st db))"
| Timer: "workflow_step db (fst (ClaimWorkflowTimer env w p n u db))"
| Withdraw: "workflow_step db (fst (CommitWorkflowWithdrawal env wd db))"
| Statement: "t \<in> {InsertProcess env w p, UpdateProcess env w p, InsertNode env w n, UpdateNode env w n, InsertTask env w tk,
    UpdateTask env w tk, InsertEvent env w ev, commitWorkflowTaskNotification env w tk nv b, InsertExecution env w e,
    CommitWorkflowTaskReminderNotification env w ev nv, CommitWorkflowTaskEscalationNotification env w tk ev nvs} \<Longrightarrow>
    workflow_step db (fst (stmt t db))"
| Cancel: "(\<And>t. t \<in> set ts \<Longrightarrow> wt_Status t = ''cancelled'') \<Longrightarrow> workflow_step db (fst (stmt (UpdateTasks w ts) db))"
| DecideTask: "workflow_step db (fst (DecideTask_store w i u d cm at db))"
| RouteStep: "workflow_step db (fst (UpdateRouteStepCAS env w rs u db))"
| Execution: "workflow_step db (fst (UpdateExecutionWhere_store env w e c db))"
| Receipt: "receipt_step db db' \<Longrightarrow> workflow_step db db'"

lemma store_statement_keeps [keeps]: "tx_keeps (InsertProcess env w p)" "tx_keeps (UpdateProcess env w p)"
  "tx_keeps (InsertNode env w n)" "tx_keeps (UpdateNode env w n)" "tx_keeps (InsertTask env w tk)"
  "tx_keeps (UpdateTask env w tk)" "tx_keeps (InsertEvent env w ev)" "tx_keeps (commitWorkflowTaskNotification env w tk nv b)"
  "tx_keeps (CommitWorkflowTaskReminderNotification env w ev nv)"
  "tx_keeps (CommitWorkflowTaskEscalationNotification env w tk ev nvs)" "tx_keeps (InsertExecution env w x)"
proof -
  have "tx_keeps (\<lambda>db. if e then Inl WorkflowErased else (case insertTx cl p (db_Processes db) of
        None \<Rightarrow> Inl x | Some rows \<Rightarrow> Inr (db \<lparr> db_Processes := rows \<rparr>)))"
    if "\<And>r. process_key r = process_key p \<Longrightarrow> cl p r" for e cl p x
    unfolding tx_keeps_def using that by (auto simp: db_kept_def intro!: insertTx_kept split: if_splits option.splits)
  then show "tx_keeps (InsertProcess env w p)"
    unfolding InsertProcess_def Let_def by (intro in_workspace_keeps) simp
qed (auto simp: UpdateProcess_def InsertNode_def UpdateNode_def InsertTask_def UpdateTask_def InsertEvent_def
    commitWorkflowTaskNotification_def CommitWorkflowTaskReminderNotification_def
    CommitWorkflowTaskEscalationNotification_def InsertExecution_def tx_keeps_def [of "\<lambda>_. Inl x" for x] intro!: keeps)

lemma upsert_task_kept:
  assumes "wt_Status t = ''cancelled''"
  shows "rows_kept task_key wt_Status rows (upsert_task t rows)"
proof (cases "\<exists>r \<in> set rows. task_key r = task_key t")
  case True
  then show ?thesis
    using assms unfolding upsert_task_def by (auto intro!: rows_kept_map simp: row_kept_def put_task_def)
next
  case False
  then show ?thesis unfolding upsert_task_def by (auto intro!: rows_kept_append)
qed

lemma upsert_tasks_kept:
  "(\<And>t. t \<in> set ts \<Longrightarrow> wt_Status t = ''cancelled'') \<Longrightarrow>
     rows_kept task_key wt_Status rows (fold (\<lambda>t. upsert_task (t \<lparr> wt_WorkspaceID := w \<rparr>)) ts rows)"
proof (induction ts arbitrary: rows)
  case (Cons t ts)
  have "rows_kept task_key wt_Status rows (upsert_task (t \<lparr> wt_WorkspaceID := w \<rparr>) rows)"
    using Cons.prems by (intro upsert_task_kept) simp
  also have "rows_kept task_key wt_Status \<dots> (fold (\<lambda>t. upsert_task (t \<lparr> wt_WorkspaceID := w \<rparr>)) ts \<dots>)"
    using Cons by simp
  finally show ?case by simp
qed simp

lemma batch_tasks_subset: "set (batch_tasks tasks) \<subseteq> set tasks"
proof
  fix t
  assume "t \<in> set (batch_tasks tasks)"
  then obtain x where x: "x \<in> set (filter (\<lambda>t. trim_space (wt_ID t) \<noteq> []) tasks)"
    and t: "t = last (filter (\<lambda>t. trim_space (wt_ID t) = trim_space (wt_ID x)) (filter (\<lambda>t. trim_space (wt_ID t) \<noteq> []) tasks))"
    unfolding batch_tasks_def Let_def by (force simp: set_uniq_acc)
  from x have "filter (\<lambda>t. trim_space (wt_ID t) = trim_space (wt_ID x)) (filter (\<lambda>t. trim_space (wt_ID t) \<noteq> []) tasks) \<noteq> []"
    by (auto simp: filter_empty_conv)
  from last_in_set [OF this] t show "t \<in> set tasks" by simp
qed

lemma cancel_tasks_keeps:
  assumes "\<And>t. t \<in> set ts \<Longrightarrow> wt_Status t = ''cancelled''"
  shows "tx_keeps (UpdateTasks w ts)"
  unfolding UpdateTasks_def
proof (rule in_workspace_keeps)
  show "tx_keeps (\<lambda>db. Inr (db \<lparr> db_Tasks := fold (\<lambda>t. upsert_task (t \<lparr> wt_WorkspaceID := v \<rparr>)) (batch_tasks ts) (db_Tasks db) \<rparr>))" for v
    using assms batch_tasks_subset [of ts] by (auto simp: tx_keeps_def db_kept_def intro!: upsert_tasks_kept)
qed

lemma workflow_step_kept: "workflow_step db db' \<Longrightarrow> db_kept db db'"
proof (induction rule: workflow_step.induct)
  case (Decision c db env)
  have "trim_space ''open'' \<noteq> ''cancelled''" by code_simp
  with Decision commit_decision_kept [of c db env] show ?case by simp
next
  case (Withdraw db env wd)
  show ?case unfolding CommitWorkflowWithdrawal_def by (auto split: sum.splits dest: tx_keepsD [OF withdrawal_kept])
next
  case (Statement t env w p n tk ev nv b e nvs db)
  then show ?case by (auto intro!: stmt_kept keeps)
next
  case (Cancel ts db w)
  then show ?case by (intro stmt_kept cancel_tasks_keeps)
next
  case (Receipt db db')
  from receipt_step_tables [OF Receipt] show ?case by (auto simp: db_kept_def)
qed (simp_all add: commit_state_kept claim_timer_kept decide_task_store_kept route_cas_kept
    execution_where_kept)

lemma workflow_steps_kept: "workflow_step\<^sup>*\<^sup>* db db' \<Longrightarrow> db_kept db db'"
  by (induction rule: rtranclp_induct) (auto intro: db_kept_trans workflow_step_kept)

subsection \<open>Cancelled rows, votes and withdrawals\<close>

definition keys_unique :: "workflow_db \<Rightarrow> bool" where
  "keys_unique db \<longleftrightarrow> distinct (map process_key (db_Processes db)) \<and> distinct (map node_key (db_Nodes db)) \<and>
     distinct (map task_key (db_Tasks db)) \<and> distinct (map execution_key (db_Executions db))"

lemma keys_unique_kept: "db_kept db db' \<Longrightarrow> keys_unique db \<Longrightarrow> keys_unique db'"
  by (simp add: db_kept_def keys_unique_def rows_kept_def)

text \<open>
  C19: what was cancelled stays cancelled. In every interleaving of decisions, state commits, timer
  claims, withdrawals and single statements, the primary keys of the tables stay unique, and the
  row of a cancelled process, node, task or execution is still there, and still cancelled.
\<close>

theorem cancelled_is_final:
  assumes "workflow_step\<^sup>*\<^sup>* db db'" and "keys_unique db"
  shows "keys_unique db' \<and>
    (\<forall>r \<in> set (db_Processes db). \<forall>r' \<in> set (db_Processes db'). process_key r' = process_key r \<longrightarrow>
       wp_Status r = ''cancelled'' \<longrightarrow> wp_Status r' = ''cancelled'') \<and>
    (\<forall>r \<in> set (db_Nodes db). \<forall>r' \<in> set (db_Nodes db'). node_key r' = node_key r \<longrightarrow>
       wn_Status r = ''cancelled'' \<longrightarrow> wn_Status r' = ''cancelled'') \<and>
    (\<forall>r \<in> set (db_Tasks db). \<forall>r' \<in> set (db_Tasks db'). task_key r' = task_key r \<longrightarrow>
       wt_Status r = ''cancelled'' \<longrightarrow> wt_Status r' = ''cancelled'') \<and>
    (\<forall>r \<in> set (db_Executions db). \<forall>r' \<in> set (db_Executions db'). execution_key r' = execution_key r \<longrightarrow>
       we_Status r = ''cancelled'' \<longrightarrow> we_Status r' = ''cancelled'') \<and>
    process_key ` set (db_Processes db) \<subseteq> process_key ` set (db_Processes db') \<and>
    task_key ` set (db_Tasks db) \<subseteq> task_key ` set (db_Tasks db')"
proof -
  have k: "db_kept db db'" by (rule workflow_steps_kept [OF assms(1)])
  note u = assms(2) [unfolded keys_unique_def] and r = k [unfolded db_kept_def]
  have p: "rows_kept process_key wp_Status (db_Processes db) (db_Processes db')" "distinct (map process_key (db_Processes db))"
    and n: "rows_kept node_key wn_Status (db_Nodes db) (db_Nodes db')" "distinct (map node_key (db_Nodes db))"
    and t: "rows_kept task_key wt_Status (db_Tasks db) (db_Tasks db')" "distinct (map task_key (db_Tasks db))"
    and e: "rows_kept execution_key we_Status (db_Executions db) (db_Executions db')"
      "distinct (map execution_key (db_Executions db))"
    using u r by simp_all
  show ?thesis
    by (intro conjI keys_unique_kept [OF k assms(2)] rows_kept_all(1) [OF p] rows_kept_all(1) [OF n] rows_kept_all(1) [OF t]
        rows_kept_all(1) [OF e] rows_kept_all(2) [OF p] rows_kept_all(2) [OF t])
qed

text \<open>Statements that leave a part of the database alone.\<close>

definition tx_fixes :: "(workflow_db \<Rightarrow> 'x) \<Rightarrow> tx \<Rightarrow> bool" where
  "tx_fixes g t \<longleftrightarrow> (\<forall>db db'. t db = Inr db' \<longrightarrow> g db' = g db)"

named_theorems fixes_intros

lemma tx_fixesD: "tx_fixes g t \<Longrightarrow> t db = Inr db' \<Longrightarrow> g db' = g db"
  by (simp add: tx_fixes_def)

lemma tx_fixes_then [fixes_intros]: "tx_fixes g a \<Longrightarrow> tx_fixes g b \<Longrightarrow> tx_fixes g (tx_then a b)"
  unfolding tx_fixes_def tx_then_def by (auto split: sum.splits)

lemma tx_fixes_each [fixes_intros]:
  assumes "\<And>x. tx_fixes g (f x)"
  shows "tx_fixes g (tx_each f xs)"
proof (induction xs)
  case (Cons x xs)
  then show ?case using assms [of x] unfolding tx_fixes_def by (auto split: sum.splits)
qed (simp add: tx_fixes_def)

lemma tx_fixes_opt [fixes_intros]: "(\<And>x. tx_fixes g (f x)) \<Longrightarrow> tx_fixes g (tx_opt f v)"
  unfolding tx_fixes_def tx_opt_def by (auto split: option.splits)

lemma tx_fixes_if [fixes_intros]: "tx_fixes g a \<Longrightarrow> tx_fixes g b \<Longrightarrow> tx_fixes g (if c then a else b)"
  by simp

lemma tx_fixes_Inr [fixes_intros]: "tx_fixes g Inr"
  by (simp add: tx_fixes_def)

lemma statements_fix_processes [fixes_intros]:
  "tx_fixes db_Processes (insertNodeTx env n)" "tx_fixes db_Processes (insertTaskTx env t)"
  "tx_fixes db_Processes (insertEventTx env v)" "tx_fixes db_Processes (insertExecutionTx env x)"
  "tx_fixes db_Processes (updateNodeTx env n)" "tx_fixes db_Processes (updateTaskTx env t)"
  "tx_fixes db_Processes (updateExecutionTx env x)" "tx_fixes db_Processes (RegisterWorkflowContinuationScope env w u)"
  "tx_fixes db_Processes (notifyTx env e)" "tx_fixes db_Processes (recordTx env w m)"
  "tx_fixes db_Processes (\<lambda>db. case updateWorkflowRouteStepTx env st u db of (db', updated) \<Rightarrow> if updated then Inr db' else Inl er)"
  unfolding tx_fixes_def insertNodeTx_def insertTaskTx_def insertEventTx_def insertExecutionTx_def updateNodeTx_def
    updateTaskTx_def updateExecutionTx_def RegisterWorkflowContinuationScope_def notifyTx_def recordTx_def
    updateWorkflowRouteStepTx_def Let_def
  by (auto split: if_splits option.splits sum.splits)

lemma statements_fix_tasks [fixes_intros]:
  "tx_fixes db_Tasks (insertNodeTx env n)" "tx_fixes db_Tasks (updateProcessTx env p)"
  "tx_fixes db_Tasks (insertEventTx env v)" "tx_fixes db_Tasks (insertExecutionTx env x)"
  "tx_fixes db_Tasks (updateNodeTx env n)"
  "tx_fixes db_Tasks (updateExecutionTx env x)" "tx_fixes db_Tasks (RegisterWorkflowContinuationScope env w u)"
  "tx_fixes db_Tasks (notifyTx env e)" "tx_fixes db_Tasks (recordTx env w m)"
  "tx_fixes db_Tasks (\<lambda>db. case updateWorkflowRouteStepTx env st u db of (db', updated) \<Rightarrow> if updated then Inr db' else Inl er)"
  unfolding tx_fixes_def insertNodeTx_def updateProcessTx_def insertEventTx_def insertExecutionTx_def updateNodeTx_def
    updateExecutionTx_def RegisterWorkflowContinuationScope_def notifyTx_def recordTx_def updateWorkflowRouteStepTx_def Let_def
  by (auto split: if_splits option.splits sum.splits)

lemma statements_fix_receipts [fixes_intros]:
  "tx_fixes db_Receipts (insertNodeTx env n)" "tx_fixes db_Receipts (insertTaskTx env t)" "tx_fixes db_Receipts (updateTaskTx env t)"
  "tx_fixes db_Receipts (updateProcessTx env p)" "tx_fixes db_Receipts (insertEventTx env v)"
  "tx_fixes db_Receipts (insertExecutionTx env x)" "tx_fixes db_Receipts (updateNodeTx env n)"
  "tx_fixes db_Receipts (updateExecutionTx env x)" "tx_fixes db_Receipts (RegisterWorkflowContinuationScope env w u)"
  "tx_fixes db_Receipts (notifyTx env e)" "tx_fixes db_Receipts (recordTx env w m)" "tx_fixes db_Receipts (guardExecutionProcessTx w i)"
  "tx_fixes db_Receipts (\<lambda>_. Inl er)"
  "tx_fixes db_Receipts (\<lambda>db. case updateWorkflowRouteStepTx env st u db of (db', updated) \<Rightarrow> if updated then Inr db' else Inl er)"
  unfolding tx_fixes_def insertNodeTx_def insertTaskTx_def updateTaskTx_def updateProcessTx_def insertEventTx_def insertExecutionTx_def updateNodeTx_def
    updateExecutionTx_def RegisterWorkflowContinuationScope_def notifyTx_def recordTx_def updateWorkflowRouteStepTx_def guardExecutionProcessTx_def Let_def
  by (auto split: if_splits option.splits sum.splits)

lemma tx_fixes_workspace [fixes_intros]: "(\<And>w. tx_fixes g (t w)) \<Longrightarrow> tx_fixes g (in_workspace workspaceID t)"
  unfolding tx_fixes_def in_workspace_def by (auto split: sum.splits)

lemma tx_then_Inr: "tx_then a b db = Inr db'' \<longleftrightarrow> (\<exists>db'. a db = Inr db' \<and> b db' = Inr db'')"
  by (auto simp: tx_then_def split: sum.splits)

lemma decision_parts_fix:
  "tx_fixes db_Processes (decision_rows env w c)" "tx_fixes db_Processes (decision_trail env w c)"
  "tx_fixes db_Tasks (decision_trail env w c)"
  unfolding decision_rows_def decision_trail_def by (intro fixes_intros)+

lemma decision_writes_process:
  assumes "decision_writes env w c db = Inr db'" and "dc_Process c = Some p"
  shows "updateTx process_key wp_Status put_process (en_Fenced env w ''_workflow_process_instances'' (wp_ID p))
      (p \<lparr> wp_WorkspaceID := w \<rparr>) (db_Processes db) = Some (db_Processes db')"
proof -
  from assms(1) obtain a b where a: "decision_rows env w c db = Inr a" "updateProcessTx env (p \<lparr> wp_WorkspaceID := w \<rparr>) a = Inr b"
    "decision_trail env w c b = Inr db'"
    by (auto simp: decision_writes_def tx_then_Inr tx_opt_def assms(2))
  have "db_Processes a = db_Processes db" "db_Processes db' = db_Processes b"
    using tx_fixesD [OF decision_parts_fix(1) a(1)] tx_fixesD [OF decision_parts_fix(2) a(3)] by simp_all
  with a(2) show ?thesis by (auto simp: updateProcessTx_def split: option.splits)
qed

lemma update_process_stamp:
  assumes "updateTx process_key wp_Status put_process fenced p rows = Some rows'" and "r \<in> set rows'"
    and "process_key r = process_key p" and "\<And>r. r \<in> set rows \<Longrightarrow> process_key r = process_key p \<Longrightarrow> wp_UpdatedAt r = wp_UpdatedAt p"
  shows "wp_UpdatedAt r = wp_UpdatedAt p"
  using assms unfolding updateTx_def Let_def by (auto simp: put_process_def split: if_splits)

lemma commit_decision_Inr:
  assumes "CommitWorkflowDecision env c db = (db', Inr True)"
  obtains w db1 db2 where "requireWorkflowWorkspaceID (dc_WorkspaceID c) = Inr w" "guardApprovalSnapshotTx w c db = Inr db1"
    "decideTaskTx w c db1 = (db2, True)" "decision_writes env w c db2 = Inr db'"
  using assms unfolding CommitWorkflowDecision_def by (auto split: sum.splits prod.splits if_splits)

lemma stmt_fixes: "tx_fixes g t \<Longrightarrow> g (fst (stmt t db)) = g db"
  unfolding stmt_def by (auto split: sum.splits dest: tx_fixesD)

lemma transactions_fix_receipts:
  "db_Receipts (fst (CommitWorkflowDecision env c db)) = db_Receipts db"
  "db_Receipts (fst (CommitWorkflowState env st db)) = db_Receipts db"
  "db_Receipts (fst (ClaimWorkflowTimer env w p n u db)) = db_Receipts db"
  "db_Receipts (fst (CommitWorkflowWithdrawal env wd db)) = db_Receipts db"
  "db_Receipts (fst (DecideTask_store w i u' d cm at db)) = db_Receipts db"
  "db_Receipts (fst (UpdateRouteStepCAS env w rs u db)) = db_Receipts db"
  "db_Receipts (fst (UpdateExecutionWhere_store env w e cn db)) = db_Receipts db"
proof -
  have g: "tx_fixes db_Receipts (guardApprovalSnapshotTx w c)" for w
    unfolding tx_fixes_def guardApprovalSnapshotTx_def Let_def by (auto split: if_splits option.splits)
  have d: "db_Receipts (fst (decideTaskTx w c db)) = db_Receipts db" for w db
    by (simp add: decideTaskTx_def Let_def)
  have w: "tx_fixes db_Receipts (decision_writes env w c)" for w
    unfolding decision_writes_def decision_rows_def decision_trail_def by (intro fixes_intros)
  show "db_Receipts (fst (CommitWorkflowDecision env c db)) = db_Receipts db"
    unfolding CommitWorkflowDecision_def using tx_fixesD [OF g] tx_fixesD [OF w] d
    by (auto split: sum.splits prod.splits if_splits) (metis fst_conv)+
  have s: "tx_fixes db_Receipts (state_writes env w st)" for w
    unfolding state_writes_def by (intro fixes_intros)
  show "db_Receipts (fst (CommitWorkflowState env st db)) = db_Receipts db"
    unfolding CommitWorkflowState_def by (auto split: sum.splits dest: tx_fixesD [OF s])
  show "db_Receipts (fst (ClaimWorkflowTimer env w p n u db)) = db_Receipts db"
    unfolding ClaimWorkflowTimer_def Let_def by (auto split: sum.splits dest: tx_fixesD [OF statements_fix_receipts(7)])
  have wd: "tx_fixes db_Receipts (ApplyWorkflowWithdrawalTx env w wd)" for w
    unfolding tx_fixes_def ApplyWorkflowWithdrawalTx_def withdrawal_children_def withdrawal_ok_def Let_def
    by (auto split: if_splits option.splits)
  show "db_Receipts (fst (CommitWorkflowWithdrawal env wd db)) = db_Receipts db"
    unfolding CommitWorkflowWithdrawal_def by (auto split: sum.splits dest: tx_fixesD [OF wd])
qed (auto simp: DecideTask_store_def UpdateRouteStepCAS_def updateWorkflowRouteStepTx_def UpdateExecutionWhere_store_def Let_def
    split: sum.splits)

text \<open>Whatever is stored, the receipts change only by claims and completions.\<close>

lemma workflow_step_receipts: "workflow_step db db' \<Longrightarrow> receipts_kept db db'"
proof -
  have same: "receipts_kept db db'" if "db_Receipts db' = db_Receipts db" for db db' :: workflow_db
    using that unfolding receipts_kept_def receipts_unique_def
    by (intro exI [of _ "db_Receipts db"] exI [of _ "[]"]) (simp add: list.rel_refl)
  have st: "tx_fixes db_Receipts t" if "t \<in> {InsertProcess env w p, UpdateProcess env w p, InsertNode env w n, UpdateNode env w n, InsertTask env w tk,
    UpdateTask env w tk, InsertEvent env w ev, commitWorkflowTaskNotification env w tk nv b, InsertExecution env w e,
    CommitWorkflowTaskReminderNotification env w ev nv, CommitWorkflowTaskEscalationNotification env w tk ev nvs}" for t env w p n tk ev nv b e nvs
  proof -
    have "tx_fixes db_Receipts (InsertProcess env w p)"
      unfolding InsertProcess_def Let_def by (intro fixes_intros) (auto simp: tx_fixes_def split: if_splits option.splits)
    then show ?thesis
      using that by (auto simp: UpdateProcess_def InsertNode_def UpdateNode_def InsertTask_def UpdateTask_def InsertEvent_def InsertExecution_def
          commitWorkflowTaskNotification_def CommitWorkflowTaskReminderNotification_def
          CommitWorkflowTaskEscalationNotification_def intro!: fixes_intros)
  qed
  assume "workflow_step db db'"
  then show ?thesis
  proof cases
    case (Statement t env w p n tk ev nv b e nvs)
    show ?thesis unfolding Statement(1) by (rule same, rule stmt_fixes, rule st [OF Statement(2)])
  next
    case (Cancel ts w)
    then show ?thesis by (auto intro!: same stmt_fixes fixes_intros simp: UpdateTasks_def tx_fixes_def [of _ "\<lambda>db. Inr (h db)" for h])
  qed (auto intro: same receipt_step_kept simp: transactions_fix_receipts)
qed

lemma workflow_steps_receipts: "workflow_step\<^sup>*\<^sup>* db db' \<Longrightarrow> receipts_kept db db'"
  by (induction rule: rtranclp_induct) (auto intro: receipts_kept_trans workflow_step_receipts)

lemma update_rows_hit: "r \<in> set rows \<Longrightarrow> p r \<Longrightarrow> f r \<in> set (update_rows p f rows)"
  unfolding update_rows_def by force

lemma update_rows_miss: "r \<in> set rows \<Longrightarrow> \<not> p r \<Longrightarrow> r \<in> set (update_rows p f rows)"
  unfolding update_rows_def by force

lemma guard_stamp:
  assumes "guardApprovalSnapshotTx w c db = Inr db1" and "dc_ExpectedProcessUpdatedAt c \<noteq> []" and "keys_unique db"
  obtains p r0 where "dc_Process c = Some p" "wp_UpdatedAt p \<noteq> dc_ExpectedProcessUpdatedAt c" "r0 \<in> set (db_Processes db)"
    "process_key r0 = (w, wp_ID p)" "wp_UpdatedAt r0 = dc_ExpectedProcessUpdatedAt c" "wp_Status r0 = ''waiting''"
    "\<And>r. r \<in> set (db_Processes db1) \<Longrightarrow> process_key r = (w, wp_ID p) \<Longrightarrow> wp_UpdatedAt r = wp_UpdatedAt p"
proof -
  from assms(1,2) obtain p where p: "dc_Process c = Some p" "wp_UpdatedAt p \<noteq> dc_ExpectedProcessUpdatedAt c"
    and one: "length (filter (\<lambda>r. wp_WorkspaceID r = w \<and> wp_ID r = wp_ID p \<and>
      wp_UpdatedAt r = dc_ExpectedProcessUpdatedAt c \<and> wp_Status r = ''waiting'') (db_Processes db)) = 1"
    and db1: "db1 = db \<lparr> db_Processes := update_rows (\<lambda>r. wp_WorkspaceID r = w \<and> wp_ID r = wp_ID p \<and>
      wp_UpdatedAt r = dc_ExpectedProcessUpdatedAt c \<and> wp_Status r = ''waiting'')
      (\<lambda>r. r \<lparr> wp_UpdatedAt := wp_UpdatedAt p \<rparr>) (db_Processes db) \<rparr>"
    unfolding guardApprovalSnapshotTx_def Let_def by (auto split: option.splits if_splits)
  from one obtain r0 where r0: "r0 \<in> set (db_Processes db)" "process_key r0 = (w, wp_ID p)"
    "wp_UpdatedAt r0 = dc_ExpectedProcessUpdatedAt c" "wp_Status r0 = ''waiting''"
    using filter_hit [OF one] by auto
  have uniq: "r = r0" if "r \<in> set (db_Processes db)" "process_key r = (w, wp_ID p)" for r
    using assms(3) that r0 unfolding keys_unique_def by (intro key_unique [of process_key "db_Processes db"]) simp_all
  have "wp_UpdatedAt r = wp_UpdatedAt p" if "r \<in> set (db_Processes db1)" "process_key r = (w, wp_ID p)" for r
  proof -
    from that(1) obtain x where x: "x \<in> set (db_Processes db)" and r: "r = (if wp_WorkspaceID x = w \<and> wp_ID x = wp_ID p \<and>
        wp_UpdatedAt x = dc_ExpectedProcessUpdatedAt c \<and> wp_Status x = ''waiting''
        then x \<lparr> wp_UpdatedAt := wp_UpdatedAt p \<rparr> else x)"
      unfolding db1 update_rows_def by auto
    have "process_key x = (w, wp_ID p)" using that(2) r by (auto split: if_splits)
    with uniq x have "x = r0" by blast
    with r r0 show ?thesis by simp
  qed
  with p r0 show thesis by (rule that)
qed

text \<open>
  C20: votes are counted on the current revision. When a vote that was counted on a revision of its
  process is stored, another vote that was counted on the same revision of the process is refused
  with a changed snapshot and stores nothing, so no decision rests on a stale count.
\<close>

theorem stale_vote_refused:
  assumes "keys_unique db" and "CommitWorkflowDecision env c db = (db1, Inr True)" and "dc_Process c = Some p"
    and "dc_ExpectedProcessUpdatedAt c \<noteq> []" and "requireWorkflowWorkspaceID (dc_WorkspaceID c) = Inr w"
    and "requireWorkflowWorkspaceID (dc_WorkspaceID c') = Inr w" and "dc_Process c' = Some p'"
    and "wp_ID p' = wp_ID p" and "wp_ID p' = wt_ProcessID (dc_DecidedTask c')"
    and "dc_ExpectedProcessUpdatedAt c' = dc_ExpectedProcessUpdatedAt c" and "wp_UpdatedAt p' \<noteq> dc_ExpectedProcessUpdatedAt c'"
  shows "CommitWorkflowDecision env' c' db1 = (db1, Inl WorkflowSnapshotChanged)"
proof -
  obtain w0 a b where w0: "requireWorkflowWorkspaceID (dc_WorkspaceID c) = Inr w0"
    and g0: "guardApprovalSnapshotTx w0 c db = Inr a" "decideTaskTx w0 c a = (b, True)" "decision_writes env w0 c b = Inr db1"
    by (rule commit_decision_Inr [OF assms(2)])
  have "w0 = w" using w0 assms(5) by simp
  with g0 have g: "guardApprovalSnapshotTx w c db = Inr a" and d: "decideTaskTx w c a = (b, True)"
    and wr: "decision_writes env w c b = Inr db1" by simp_all
  from guard_stamp [OF g assms(4,1)] obtain r0 where ne: "wp_UpdatedAt p \<noteq> dc_ExpectedProcessUpdatedAt c"
    and st: "\<And>r. r \<in> set (db_Processes a) \<Longrightarrow> process_key r = (w, wp_ID p) \<Longrightarrow> wp_UpdatedAt r = wp_UpdatedAt p"
    using assms(3) by (metis option.inject)
  have "db_Processes b = db_Processes a" using d by (auto simp: decideTaskTx_def Let_def)
  then have stamp: "wp_UpdatedAt r = wp_UpdatedAt p" if "r \<in> set (db_Processes db1)" "process_key r = (w, wp_ID p)" for r
    using update_process_stamp [OF decision_writes_process [OF wr assms(3)], of r] st that by simp
  have "filter (\<lambda>r. wp_WorkspaceID r = w \<and> wp_ID r = wp_ID p' \<and> wp_UpdatedAt r = dc_ExpectedProcessUpdatedAt c' \<and>
      wp_Status r = ''waiting'') (db_Processes db1) = []"
    using stamp ne assms(8,10) by (auto simp: filter_empty_conv)
  then show ?thesis
    using assms(4,6-11) by (simp add: CommitWorkflowDecision_def guardApprovalSnapshotTx_def Let_def)
qed

text \<open>After a withdrawal every row of the process with a running status is cancelled, for good.\<close>

lemma withdrawn_process:
  assumes "ApplyWorkflowWithdrawalTx env w c db = Inr db1" and "keys_unique db"
  shows "\<exists>r \<in> set (db_Processes db1). process_key r = (w, wp_ID (wd_Process c)) \<and> wp_Status r = ''cancelled''"
    and "\<And>t. t \<in> set (db_Tasks db) \<Longrightarrow> wt_WorkspaceID t = w \<Longrightarrow> wt_ProcessID t = wp_ID (wd_Process c) \<Longrightarrow>
      wt_Status t \<in> {''open'', ''pending'', ''cancelled''} \<Longrightarrow>
      \<exists>t' \<in> set (db_Tasks db1). task_key t' = task_key t \<and> wt_Status t' = ''cancelled''"
proof -
  let ?p = "wd_Process c"
  let ?m = "\<lambda>r. wp_WorkspaceID r = w \<and> wp_ID r = wp_ID ?p \<and> wp_WorkflowKey r = wp_WorkflowKey ?p \<and>
    wp_InitiatorID r = wd_ActorID c \<and> wp_Status r = wd_ExpectedStatus c \<and> wp_UpdatedAt r = wd_ExpectedUpdatedAt c"
  let ?f = "\<lambda>r. r \<lparr> wp_Status := wp_Status ?p, wp_CurrentNodeIDs := [], wp_Variables := wp_Variables ?p,
    wp_Result := wp_Result ?p, wp_UpdatedAt := wp_UpdatedAt ?p, wp_CompletedAt := wp_CompletedAt ?p \<rparr>"
  have st: "wp_Status ?p = ''cancelled''" and one: "length (filter ?m (db_Processes db)) = 1"
    and pr: "db_Processes db1 = update_rows ?m ?f (db_Processes db)"
    and tk: "db_Tasks db1 = update_rows (\<lambda>r. wt_WorkspaceID r = w \<and> wt_ProcessID r = wp_ID ?p \<and> wt_Status r \<in> {''open'', ''pending''})
       (\<lambda>r. r \<lparr> wt_Status := ''cancelled'', wt_UpdatedAt := wp_UpdatedAt ?p, wt_CompletedAt := wp_CompletedAt ?p,
          wt_CompletedBy := wd_ActorID c \<rparr>) (db_Tasks db)"
    using assms(1) unfolding ApplyWorkflowWithdrawalTx_def withdrawal_ok_def withdrawal_children_def Let_def
    by (auto split: if_splits option.splits)
  from filter_hit [OF one] obtain r where r: "r \<in> set (db_Processes db)" "?m r" by blast
  have "?f r \<in> set (db_Processes db1)" unfolding pr by (rule update_rows_hit) (fact r)+
  moreover have "process_key (?f r) = (w, wp_ID ?p)" "wp_Status (?f r) = ''cancelled''" using r(2) st by simp_all
  ultimately show "\<exists>r \<in> set (db_Processes db1). process_key r = (w, wp_ID ?p) \<and> wp_Status r = ''cancelled''" by blast
  fix t
  assume t: "t \<in> set (db_Tasks db)" "wt_WorkspaceID t = w" "wt_ProcessID t = wp_ID ?p"
    "wt_Status t \<in> {''open'', ''pending'', ''cancelled''}"
  show "\<exists>t' \<in> set (db_Tasks db1). task_key t' = task_key t \<and> wt_Status t' = ''cancelled''"
  proof (cases "wt_Status t \<in> {''open'', ''pending''}")
    case True
    have "t \<lparr> wt_Status := ''cancelled'', wt_UpdatedAt := wp_UpdatedAt ?p, wt_CompletedAt := wp_CompletedAt ?p,
        wt_CompletedBy := wd_ActorID c \<rparr> \<in> set (db_Tasks db1)"
      unfolding tk by (rule update_rows_hit) (use t True in simp_all)
    then show ?thesis by (rule bexI [rotated]) simp
  next
    case False
    then have "t \<in> set (db_Tasks db1)" unfolding tk by (intro update_rows_miss) (use t in simp_all)
    with t(4) False show ?thesis by auto
  qed
qed

text \<open>
  C21: a withdrawal is final. Once a withdrawal is stored, whatever the engine, deciders and timers
  store afterwards, the process and the tasks that were open or pending are cancelled, and a vote
  counted on any revision of the process is refused with a changed snapshot and stores nothing.
\<close>

theorem withdrawal_is_final:
  assumes "keys_unique db" and "CommitWorkflowWithdrawal env c db = (db1, None)" and "workflow_step\<^sup>*\<^sup>* db1 db2"
  shows "(\<exists>r \<in> set (db_Processes db2). process_key r = process_key (wd_Process c) \<and> wp_Status r = ''cancelled'') \<and>
    (\<forall>t \<in> set (db_Tasks db). wt_WorkspaceID t = wp_WorkspaceID (wd_Process c) \<longrightarrow> wt_ProcessID t = wp_ID (wd_Process c) \<longrightarrow>
       wt_Status t \<in> {''open'', ''pending''} \<longrightarrow> (\<exists>t' \<in> set (db_Tasks db2). task_key t' = task_key t \<and> wt_Status t' = ''cancelled'')) \<and>
    (\<forall>env' v p. requireWorkflowWorkspaceID (dc_WorkspaceID v) = Inr (wp_WorkspaceID (wd_Process c)) \<longrightarrow> dc_Process v = Some p \<longrightarrow>
       wp_ID p = wp_ID (wd_Process c) \<longrightarrow> wp_ID p = wt_ProcessID (dc_DecidedTask v) \<longrightarrow>
       dc_ExpectedProcessUpdatedAt v \<noteq> [] \<longrightarrow> wp_UpdatedAt p \<noteq> dc_ExpectedProcessUpdatedAt v \<longrightarrow>
       CommitWorkflowDecision env' v db2 = (db2, Inl WorkflowSnapshotChanged))"
proof -
  let ?w = "wp_WorkspaceID (wd_Process c)"
  have a: "ApplyWorkflowWithdrawalTx env ?w c db = Inr db1"
    using assms(2) by (auto simp: CommitWorkflowWithdrawal_def split: sum.splits)
  have u1: "keys_unique db1" using keys_unique_kept [OF tx_keepsD [OF withdrawal_kept a] assms(1)] .
  have k: "db_kept db1 db2" by (rule workflow_steps_kept [OF assms(3)])
  have u2: "keys_unique db2" by (rule keys_unique_kept [OF k u1])
  have p: "\<exists>r \<in> set (db_Processes db2). process_key r = process_key (wd_Process c) \<and> wp_Status r = ''cancelled''"
    using withdrawn_process(1) [OF a assms(1)] k [unfolded db_kept_def, THEN conjunct1, THEN rows_keptD]
    by (fastforce simp: row_kept_def)
  then obtain r0 where r0: "r0 \<in> set (db_Processes db2)" "process_key r0 = process_key (wd_Process c)" "wp_Status r0 = ''cancelled''"
    by blast
  have only: "wp_Status r = ''cancelled''" if "r \<in> set (db_Processes db2)" "process_key r = process_key (wd_Process c)" for r
    using key_unique [of process_key, OF _ that(1) r0(1)] u2 that(2) r0(2,3) by (simp add: keys_unique_def)
  have t: "\<exists>t' \<in> set (db_Tasks db2). task_key t' = task_key t \<and> wt_Status t' = ''cancelled''"
    if "t \<in> set (db_Tasks db)" "wt_WorkspaceID t = ?w" "wt_ProcessID t = wp_ID (wd_Process c)" "wt_Status t \<in> {''open'', ''pending''}" for t
  proof -
    from withdrawn_process(2) [OF a assms(1) that(1-3)] that(4) obtain t' where t': "t' \<in> set (db_Tasks db1)"
      "task_key t' = task_key t" "wt_Status t' = ''cancelled''" by blast
    have "rows_kept task_key wt_Status (db_Tasks db1) (db_Tasks db2)" using k by (simp add: db_kept_def)
    from rows_keptD [OF this t'(1)] t'(2,3) show ?thesis by (auto simp: row_kept_def)
  qed
  have v: "CommitWorkflowDecision env' v db2 = (db2, Inl WorkflowSnapshotChanged)"
    if "requireWorkflowWorkspaceID (dc_WorkspaceID v) = Inr ?w" "dc_Process v = Some p" "wp_ID p = wp_ID (wd_Process c)"
      "wp_ID p = wt_ProcessID (dc_DecidedTask v)" "dc_ExpectedProcessUpdatedAt v \<noteq> []" "wp_UpdatedAt p \<noteq> dc_ExpectedProcessUpdatedAt v"
    for env' v p
  proof -
    have "filter (\<lambda>r. wp_WorkspaceID r = ?w \<and> wp_ID r = wp_ID p \<and> wp_UpdatedAt r = dc_ExpectedProcessUpdatedAt v \<and>
        wp_Status r = ''waiting'') (db_Processes db2) = []"
      using only that(3) by (fastforce simp: filter_empty_conv)
    with that show ?thesis by (simp add: CommitWorkflowDecision_def guardApprovalSnapshotTx_def Let_def)
  qed
  from p t v show ?thesis by blast
qed

text \<open>The sibling tasks that a decision cancels are cancelled in the database it leaves.\<close>

lemma tx_each_visits:
  assumes "tx_each f xs db = Inr db'" and "x \<in> set xs"
  shows "\<exists>a b. f x a = Inr b \<and> (\<exists>ys. tx_each f ys b = Inr db')"
  using assms by (induction xs arbitrary: db) (auto split: sum.splits)

lemma update_task_cancelled:
  assumes "updateTaskTx env t db = Inr db'" and "wt_Status t = ''cancelled''"
  shows "\<exists>r \<in> set (db_Tasks db'). task_key r = task_key t \<and> wt_Status r = ''cancelled''"
  using assms tasks.update_written [of _ t "db_Tasks db"]
  unfolding updateTaskTx_def by (auto split: option.splits)

lemma decision_cancels_siblings:
  assumes "CommitWorkflowDecision env c db = (db', Inr True)" and "requireWorkflowWorkspaceID (dc_WorkspaceID c) = Inr w"
    and "t \<in> set (dc_UpdateTasks c)" and "wt_ID t \<noteq> wt_ID (dc_DecidedTask c)" and "wt_Status t = ''cancelled''"
  shows "\<exists>r \<in> set (db_Tasks db'). task_key r = (w, wt_ID t) \<and> wt_Status r = ''cancelled''"
proof -
  let ?f = "\<lambda>t. if wt_ID t = wt_ID (dc_DecidedTask c) then Inr else updateTaskTx env (t \<lparr> wt_WorkspaceID := w \<rparr>)"
  obtain w0 a b where w0: "requireWorkflowWorkspaceID (dc_WorkspaceID c) = Inr w0" "decision_writes env w0 c b = Inr db'"
    by (rule commit_decision_Inr [OF assms(1)])
  then have wr: "decision_writes env w c b = Inr db'" using assms(2) by simp
  then obtain d1 d2 d3 where d: "tx_each ?f (dc_UpdateTasks c) d1 = Inr d2"
    and post: "tx_then (tx_each (\<lambda>st db. case updateWorkflowRouteStepTx env (st \<lparr> rs_WorkspaceID := w \<rparr>)
        (workflowRouteStepExpectedStatus st) db of (db', updated) \<Rightarrow> if updated then Inr db' else Inl WorkflowSnapshotChanged)
        (dc_UpdateRouteSteps c)) (tx_then (tx_opt (\<lambda>p. updateProcessTx env (p \<lparr> wp_WorkspaceID := w \<rparr>)) (dc_Process c))
        (decision_trail env w c)) d2 = Inr db'"
    unfolding decision_writes_def decision_rows_def tx_then_Inr by blast
  from tx_each_visits [OF d assms(3)] assms(4) obtain x y ys where
    x: "updateTaskTx env (t \<lparr> wt_WorkspaceID := w \<rparr>) x = Inr y" "tx_each ?f ys y = Inr d2" by auto
  obtain r where r: "r \<in> set (db_Tasks y)" "task_key r = (w, wt_ID t)" "wt_Status r = ''cancelled''"
    using update_task_cancelled [OF x(1)] assms(5) by auto
  have "tx_keeps (tx_each ?f ys)" by (intro keeps)
  from tx_keepsD [OF this x(2)] have k1: "db_kept y d2" .
  have "db_kept d2 db'"
    using post unfolding decision_trail_def by (rule tx_keepsD [rotated]) (intro keeps)
  with k1 have "db_kept y db'" by (rule db_kept_trans)
  then have "rows_kept task_key wt_Status (db_Tasks y) (db_Tasks db')" by (simp add: db_kept_def)
  from rows_keptD [OF this r(1)] r(2,3) show ?thesis by (auto simp: row_kept_def)
qed

text \<open>Restoring a list of tasks stops at one that is cancelled and was not.\<close>

lemma restore_stuck:
  assumes "s \<in> set ts" and "distinct (map task_key rows)" and "r \<in> set rows" and "task_key r = (w, wt_ID s)"
    and "wt_Status r = ''cancelled''" and "wt_Status s \<noteq> ''cancelled''" and "rows_kept task_key wt_Status rows (db_Tasks x)"
  shows "tx_each (\<lambda>t. updateTaskTx env (t \<lparr> wt_WorkspaceID := w \<rparr>)) ts x \<noteq> Inr b"
  using assms(1,7)
proof (induction ts arbitrary: x)
  case (Cons y ys)
  have blocked: "updateTaskTx env (s \<lparr> wt_WorkspaceID := w \<rparr>) x = Inl (WorkflowNoRows (wt_ID s))"
    unfolding updateTaskTx_def using tasks.update_blocked [of "db_Tasks x" "s \<lparr> wt_WorkspaceID := w \<rparr>"]
      rows_kept_cancelled [OF Cons.prems(2) assms(2,3,5)] assms(4,6) by simp
  show ?case
  proof
    assume "tx_each (\<lambda>t. updateTaskTx env (t \<lparr> wt_WorkspaceID := w \<rparr>)) (y # ys) x = Inr b"
    then obtain z where z: "updateTaskTx env (y \<lparr> wt_WorkspaceID := w \<rparr>) x = Inr z"
      "tx_each (\<lambda>t. updateTaskTx env (t \<lparr> wt_WorkspaceID := w \<rparr>)) ys z = Inr b" by (auto split: sum.splits)
    with blocked have "y \<noteq> s" by auto
    moreover have "rows_kept task_key wt_Status rows (db_Tasks z)"
      using tx_keepsD [OF update_keeps(2) z(1)] Cons.prems(2) by (auto simp: db_kept_def intro: rows_kept_trans)
    ultimately show False using Cons.IH [of z] Cons.prems(1) z(2) by simp
  qed
qed simp

text \<open>
  A decision that cancelled sibling tasks can not be rolled back. When the decision is stored
  and the continuation of the process fails, the recovery (\<open>recoverWorkflowDecision\<close>) restores the
  snapshots of all tasks, among them the sibling that was open; the store refuses to take a
  cancelled row out of its state, so the whole recovery fails and the decided task stays decided.
\<close>

theorem recovery_blocked_by_siblings:
  assumes "keys_unique db" and "dc_ExpectedTaskStatus c = ''open''" and "CommitWorkflowDecision env c db = (db1, Inr True)"
    and "requireWorkflowWorkspaceID (dc_WorkspaceID c) = Inr w"
    and "t \<in> set (dc_UpdateTasks c)" and "wt_ID t \<noteq> wt_ID (dc_DecidedTask c)" and "wt_Status t = ''cancelled''"
    and "requireWorkflowWorkspaceID (sc_WorkspaceID st) = Inr w"
    and "s \<in> set (sc_UpdateTasks st)" and "wt_ID s = wt_ID t" and "wt_Status s \<noteq> ''cancelled''"
  shows "\<exists>e. CommitWorkflowState env' st db1 = (db1, Some e)"
proof -
  have u: "keys_unique db1"
    using keys_unique_kept [OF workflow_step_kept [OF workflow_step.Decision [OF assms(2)]] assms(1), of env] assms(3) by simp
  obtain r where r: "r \<in> set (db_Tasks db1)" "task_key r = (w, wt_ID t)" "wt_Status r = ''cancelled''"
    using decision_cancels_siblings [OF assms(3-7)] by blast
  have "state_writes env' w st db1 \<noteq> Inr db2" for db2
  proof
    assume "state_writes env' w st db1 = Inr db2"
    then obtain a b d where pre: "tx_then (tx_each (\<lambda>n. insertNodeTx env' (n \<lparr> wn_WorkspaceID := w \<rparr>)) (sc_InsertNodes st))
        (tx_each (\<lambda>n. updateNodeTx env' (n \<lparr> wn_WorkspaceID := w \<rparr>)) (sc_UpdateNodes st)) db1 = Inr a"
      and d: "tx_each (\<lambda>t. updateTaskTx env' (t \<lparr> wt_WorkspaceID := w \<rparr>)) (sc_UpdateTasks st) a = Inr b"
      unfolding state_writes_def tx_then_Inr by blast
    have "tx_fixes db_Tasks (tx_then (tx_each (\<lambda>n. insertNodeTx env' (n \<lparr> wn_WorkspaceID := w \<rparr>)) (sc_InsertNodes st))
        (tx_each (\<lambda>n. updateNodeTx env' (n \<lparr> wn_WorkspaceID := w \<rparr>)) (sc_UpdateNodes st)))" by (intro fixes_intros)
    from tx_fixesD [OF this pre] have ta: "db_Tasks a = db_Tasks db1" .
    from restore_stuck [OF assms(9), of "db_Tasks db1" r w a env' b] u r assms(10,11) ta d show False
      by (simp add: keys_unique_def)
  qed
  then show ?thesis
    using assms(8) by (auto simp: CommitWorkflowState_def split: sum.splits)
qed

subsection \<open>Witnesses\<close>

definition example_workflow_env :: workflow_env where
  "example_workflow_env = \<lparr> en_Fenced = (\<lambda>_ _ _. False), en_NodeErased = (\<lambda>_. False), en_TaskErased = (\<lambda>_. False),
     en_EventErased = (\<lambda>_. False), en_ExecutionErased = (\<lambda>_. False), en_ProcessErased = (\<lambda>_. False),
     en_Encodable = (\<lambda>_. True), en_Recode = (\<lambda>d. d), en_RecodeDefinition = (\<lambda>d. d), en_RecodeResolvers = (\<lambda>d. d),
     en_UnknownColumnIsText = False, en_Notify = (\<lambda>_. True), en_Records = (\<lambda>_. example_store_env), en_Now = 0 \<rparr>"

definition stored_process :: WorkflowProcessInstance where
  "stored_process = (example_process ''any'' 0) \<lparr> wp_InitiatorID := ''i'', wp_Status := ''waiting'', wp_UpdatedAt := ''1'' \<rparr>"

definition stored_task :: "string \<Rightarrow> string \<Rightarrow> WorkflowTask" where
  "stored_task i user = (example_task i ''open'' []) \<lparr> wt_AssigneeUserID := user \<rparr>"

definition example_db :: workflow_db where
  "example_db = \<lparr> db_Processes = [stored_process], db_Nodes = [], db_Tasks = [stored_task ''a'' ''u1'', stored_task ''b'' ''u2''],
     db_Steps = [], db_Events = [], db_Executions = [], db_Records = (\<lambda>_ _. []), db_Notifications = [], db_Scopes = [],
     db_Receipts = [] \<rparr>"

definition example_vote :: "string \<Rightarrow> string \<Rightarrow> string \<Rightarrow> WorkflowDecisionCommit" where
  "example_vote i user sibling = \<lparr> dc_WorkspaceID = ''w'',
     dc_DecidedTask = (stored_task i user) \<lparr> wt_Status := ''approved'', wt_Decision := ''approved'' \<rparr>,
     dc_ExpectedTaskStatus = ''open'', dc_ExpectedAssigneeID = user, dc_ExpectedProcessUpdatedAt = ''1'',
     dc_Process = Some (stored_process \<lparr> wp_UpdatedAt := ''2'' \<rparr>), dc_InsertNodes = [], dc_UpdateNodes = [], dc_InsertTasks = [],
     dc_UpdateTasks = [(stored_task sibling []) \<lparr> wt_Status := ''cancelled'' \<rparr>], dc_UpdateRouteSteps = [], dc_Events = [],
     dc_RecordMutations = [], dc_WorkflowExecution = None, dc_InsertExecutions = [], dc_NotificationEvents = [] \<rparr>"

definition example_withdrawal :: WorkflowWithdrawalCommit where
  "example_withdrawal = \<lparr> wd_Process = stored_process \<lparr> wp_Status := ''cancelled'', wp_UpdatedAt := ''3'' \<rparr>,
     wd_ExpectedUpdatedAt = ''1'', wd_ExpectedStatus = ''waiting'', wd_CommandID = ''cmd'', wd_ActorID = ''i'' \<rparr>"

lemma example_db_facts: "keys_unique example_db" "requireWorkflowWorkspaceID ''w'' = Inr ''w''"
  "snd (CommitWorkflowDecision example_workflow_env (example_vote ''a'' ''u1'' ''b'') example_db) = Inr True"
  "snd (CommitWorkflowWithdrawal example_workflow_env example_withdrawal example_db) = None"
  by code_simp+

abbreviation db_after_vote :: workflow_db where
  "db_after_vote \<equiv> fst (CommitWorkflowDecision example_workflow_env (example_vote ''a'' ''u1'' ''b'') example_db)"

abbreviation db_after_withdrawal :: workflow_db where
  "db_after_withdrawal \<equiv> fst (CommitWorkflowWithdrawal example_workflow_env example_withdrawal example_db)"

lemma example_commits:
  "CommitWorkflowDecision example_workflow_env (example_vote ''a'' ''u1'' ''b'') example_db = (db_after_vote, Inr True)"
  "CommitWorkflowWithdrawal example_workflow_env example_withdrawal example_db = (db_after_withdrawal, None)"
  using example_db_facts(3,4) by (simp_all add: prod_eq_iff)

theorem cancelled_is_final_witness: "keys_unique db_after_withdrawal"
proof -
  have "workflow_step\<^sup>*\<^sup>* example_db db_after_withdrawal" by (blast intro: workflow_step.Withdraw)
  from cancelled_is_final [OF this example_db_facts(1)] show ?thesis by blast
qed

theorem stale_vote_refused_witness:
  "CommitWorkflowDecision example_workflow_env (example_vote ''b'' ''u2'' ''a'') db_after_vote =
     (db_after_vote, Inl WorkflowSnapshotChanged)"
proof -
  have v: "dc_WorkspaceID (example_vote i u s) = ''w''" "dc_Process (example_vote i u s) = Some (stored_process \<lparr> wp_UpdatedAt := ''2'' \<rparr>)"
    "dc_ExpectedProcessUpdatedAt (example_vote i u s) = ''1''" for i u s by (simp_all add: example_vote_def)
  have p: "wp_ID stored_process = wt_ProcessID (dc_DecidedTask (example_vote i u s))" for i u s
    by (simp add: example_vote_def stored_process_def stored_task_def example_process_def example_task_def)
  show ?thesis
    by (rule stale_vote_refused [OF example_db_facts(1) example_commits(1), where w = "''w''" and
      c' = "example_vote ''b'' ''u2'' ''a''" and p = "stored_process \<lparr> wp_UpdatedAt := ''2'' \<rparr>" and
      p' = "stored_process \<lparr> wp_UpdatedAt := ''2'' \<rparr>"])
       (simp_all add: v example_db_facts(2) p [symmetric])
qed

theorem withdrawal_is_final_witness:
  "CommitWorkflowDecision example_workflow_env (example_vote ''b'' ''u2'' ''a'') db_after_withdrawal =
     (db_after_withdrawal, Inl WorkflowSnapshotChanged)"
proof -
  let ?v = "example_vote ''b'' ''u2'' ''a''"
  have v: "dc_WorkspaceID ?v = ''w''" "dc_Process ?v = Some (stored_process \<lparr> wp_UpdatedAt := ''2'' \<rparr>)"
    "dc_ExpectedProcessUpdatedAt ?v = ''1''" "wp_ID stored_process = wt_ProcessID (dc_DecidedTask ?v)"
    by (simp_all add: example_vote_def stored_process_def stored_task_def example_process_def example_task_def)
  have w: "wp_WorkspaceID (wd_Process example_withdrawal) = ''w''" "wp_ID (wd_Process example_withdrawal) = wp_ID stored_process"
    by (simp_all add: example_withdrawal_def stored_process_def example_process_def)
  let ?p = "stored_process \<lparr> wp_UpdatedAt := ''2'' \<rparr>"
  have "\<forall>env' v p. requireWorkflowWorkspaceID (dc_WorkspaceID v) = Inr (wp_WorkspaceID (wd_Process example_withdrawal)) \<longrightarrow>
      dc_Process v = Some p \<longrightarrow> wp_ID p = wp_ID (wd_Process example_withdrawal) \<longrightarrow> wp_ID p = wt_ProcessID (dc_DecidedTask v) \<longrightarrow>
      dc_ExpectedProcessUpdatedAt v \<noteq> [] \<longrightarrow> wp_UpdatedAt p \<noteq> dc_ExpectedProcessUpdatedAt v \<longrightarrow>
      CommitWorkflowDecision env' v db_after_withdrawal = (db_after_withdrawal, Inl WorkflowSnapshotChanged)"
    using withdrawal_is_final [OF example_db_facts(1) example_commits(2) rtranclp.rtrancl_refl] by (elim conjE)
  from this [rule_format, of ?v ?p example_workflow_env] show ?thesis
    by (simp add: v(1-3) w example_db_facts(2) v(4) [symmetric])
qed

definition example_recovery :: WorkflowStateCommit where
  "example_recovery = \<lparr> sc_WorkspaceID = ''w'', sc_Process = Some stored_process, sc_InsertNodes = [], sc_UpdateNodes = [],
     sc_UpdateTasks = [stored_task ''a'' ''u1'', stored_task ''b'' ''u2''], sc_Events = [], sc_WorkflowExecution = None,
     sc_InsertExecutions = [] \<rparr>"

theorem recovery_blocked_by_siblings_witness:
  "\<exists>e. CommitWorkflowState example_workflow_env example_recovery db_after_vote = (db_after_vote, Some e)"
proof -
  let ?v = "example_vote ''a'' ''u1'' ''b''" and ?t = "(stored_task ''b'' []) \<lparr> wt_Status := ''cancelled'' \<rparr>"
  have v: "dc_WorkspaceID ?v = ''w''" "dc_ExpectedTaskStatus ?v = ''open''" "?t \<in> set (dc_UpdateTasks ?v)"
    "wt_ID ?t \<noteq> wt_ID (dc_DecidedTask ?v)" "wt_Status ?t = ''cancelled''"
    by (simp_all add: example_vote_def stored_task_def example_task_def)
  have r: "sc_WorkspaceID example_recovery = ''w''" "stored_task ''b'' ''u2'' \<in> set (sc_UpdateTasks example_recovery)"
    "wt_ID (stored_task ''b'' ''u2'') = wt_ID ?t" "wt_Status (stored_task ''b'' ''u2'') \<noteq> ''cancelled''"
    by (simp_all add: example_recovery_def stored_task_def example_task_def)
  show ?thesis
    by (rule recovery_blocked_by_siblings [OF example_db_facts(1) v(2) example_commits(1) _ v(3-5) _ r(2-4), where w = "''w''"])
       (simp_all add: v r example_db_facts(2))
qed

end
