(* ===== verification/Go_Result.thy ===== *)
theory Go_Result
  imports Go_Prelude
begin

text \<open>
  Results of functions that return a value and an error: \<open>Inl\<close> carries the error, \<open>Inr\<close> the
  value. \<open>res_bind\<close> is the early return \<open>if err != nil { return err }\<close>, \<open>res_fold\<close> a loop that
  threads a state and stops at the first error, and \<open>insertion_sort\<close> the stable sort of the
  standard library on a slice of at most twenty elements, whose comparison may read positions.
\<close>

definition res_bind :: "'e + 'a \<Rightarrow> ('a \<Rightarrow> 'e + 'b) \<Rightarrow> 'e + 'b" where
  "res_bind r f = (case r of Inl e \<Rightarrow> Inl e | Inr x \<Rightarrow> f x)"

lemma res_bind_simps [simp]: "res_bind (Inl e) f = Inl e" "res_bind (Inr x) f = f x"
  by (simp_all add: res_bind_def)

lemma res_bind_Inr: "res_bind r f = Inr y \<longleftrightarrow> (\<exists>x. r = Inr x \<and> f x = Inr y)"
  by (cases r) auto

primrec res_fold :: "('a \<Rightarrow> 's \<Rightarrow> 'e + 's) \<Rightarrow> 'a list \<Rightarrow> 's \<Rightarrow> 'e + 's" where
  "res_fold f [] s = Inr s"
| "res_fold f (x # xs) s = res_bind (f x s) (res_fold f xs)"

lemma res_fold_append: "res_fold f (xs @ ys) s = res_bind (res_fold f xs s) (res_fold f ys)"
  by (induction xs arbitrary: s) (auto simp: res_bind_def split: sum.splits)

text \<open>What every round keeps, the loop keeps.\<close>

lemma res_fold_keeps:
  assumes "res_fold f xs s = Inr s'" and "P s"
    and "\<And>x s s'. x \<in> set xs \<Longrightarrow> P s \<Longrightarrow> f x s = Inr s' \<Longrightarrow> P s'"
  shows "P s'"
  using assms
proof (induction xs arbitrary: s)
  case (Cons x xs)
  from Cons.prems(1) obtain t where t: "f x s = Inr t" "res_fold f xs t = Inr s'" by (auto simp: res_bind_Inr)
  have "P t" using Cons.prems(3) [of x s t] Cons.prems(2) t(1) by simp
  from t(2) this show ?case
  proof (rule Cons.IH)
    show "P v" if "y \<in> set xs" "P u" "f y u = Inr v" for y u v using Cons.prems(3) [of y u v] that by simp
  qed
qed simp

text \<open>
  \<open>insertionSort\<close> of package sort: \<open>sift\<close> moves the element at one position down while it is less
  than its left neighbour. The comparison gets the list as it is at that moment.
\<close>

definition swap_at :: "nat \<Rightarrow> 'a list \<Rightarrow> 'a list" where
  "swap_at j xs = xs[j := xs ! Suc j, Suc j := xs ! j]"

fun sift :: "('a list \<Rightarrow> nat \<Rightarrow> nat \<Rightarrow> bool) \<Rightarrow> nat \<Rightarrow> 'a list \<Rightarrow> 'a list" where
  "sift lt 0 xs = xs"
| "sift lt (Suc j) xs = (if lt xs (Suc j) j then sift lt j (swap_at j xs) else xs)"

definition insertion_sort :: "('a list \<Rightarrow> nat \<Rightarrow> nat \<Rightarrow> bool) \<Rightarrow> 'a list \<Rightarrow> 'a list" where
  "insertion_sort lt xs = fold (sift lt) [1..<length xs] xs"

lemma length_swap_at [simp]: "length (swap_at j xs) = length xs"
  by (simp add: swap_at_def)

lemma set_swap_at: "Suc j < length xs \<Longrightarrow> set (swap_at j xs) = set xs"
  by (simp add: swap_at_def)

lemma length_sift [simp]: "length (sift lt j xs) = length xs"
  by (induction lt j xs rule: sift.induct) simp_all

lemma set_sift: "j < length xs \<Longrightarrow> set (sift lt j xs) = set xs"
  by (induction lt j xs rule: sift.induct) (auto simp: set_swap_at)

lemma insertion_sort_pass:
  "(\<And>j. j \<in> set js \<Longrightarrow> j < length xs) \<Longrightarrow> set (fold (sift lt) js xs) = set xs \<and> length (fold (sift lt) js xs) = length xs"
  by (induction js arbitrary: xs) (auto simp: set_sift)

lemma set_insertion_sort [simp]: "set (insertion_sort lt xs) = set xs"
  and length_insertion_sort [simp]: "length (insertion_sort lt xs) = length xs"
  using insertion_sort_pass [of "[1..<length xs]" xs lt] by (auto simp: insertion_sort_def)

end
