(* ===== verification/Workflow_Assignees.thy ===== *)
theory Workflow_Assignees
  imports Workflow_Store Workflow_Execution Go_Result
begin

text \<open>
  The electorate of an approval node (\<open>workflow_process_approval_application_service.go\<close>): the
  resolver strategies, the merge of their candidates and the admin fallback. The identity
  projection (an SDK outside the repository), the record reader and the strategy of project
  resolvers are parameters.

  The lemmas show that an electorate has no blank and no repeated user, that it is the union of
  what its resolvers find, with the first resolver in charge of the role, and that a manager chain
  is bounded and free of cycles.
\<close>

subsection \<open>Errors of the application layer\<close>

text \<open>
  \<open>AppErr\<close> is an \<open>AppError\<close> without a cause, \<open>InternalErr\<close> what \<open>internalError\<close> makes of an operation
  and its cause (an error of the store, where there is one), \<open>BusinessErr\<close> a \<open>BusinessError\<close> with its
  code as message and its parameters, \<open>OtherErr\<close> a foreign error by its text.
\<close>

datatype engine_error = AppErr app_error | InternalErr string "workflow_error option" |
  BusinessErr string "(string \<times> string) list" | OtherErr string

definition workflowError :: "error_kind \<Rightarrow> string \<Rightarrow> string list \<Rightarrow> engine_error" where
  "workflowError kind code params = AppErr \<lparr> err_Kind = kind, err_Code = trim_space code, err_Params = error_params [] params \<rparr>"

definition bad_request :: "string \<Rightarrow> string list \<Rightarrow> engine_error" where
  "bad_request code params = workflowError KindBadRequest code params"

definition internalError :: "string \<Rightarrow> engine_error" where
  "internalError operation = InternalErr operation None"

definition serviceErrorCode :: "engine_error \<Rightarrow> string" where
  "serviceErrorCode e = (case e of
      AppErr a \<Rightarrow> trim_space (err_Code a)
    | InternalErr op c \<Rightarrow> ''backend.internal''
    | BusinessErr code params \<Rightarrow> trim_space code
    | OtherErr t \<Rightarrow> trim_space t)"

subsection \<open>Projections the strategies read\<close>

record User =
  us_ID :: string
  us_Name :: string
  us_Locale :: string
  us_Status :: string
  us_ManagerUserID :: string

record Role =
  ro_ID :: string
  ro_Key :: string

record UserRoleAssignment =
  ua_UserID :: string
  ua_RoleID :: string

definition UserStatusActive :: string where
  "UserStatusActive = ''active''"

text \<open>Of object and field schemas, the members the resolvers read.\<close>

record FieldSchema =
  fd_Key :: string
  fd_Type :: string
  fd_Config :: data
  fd_ValidationTarget :: string
  fd_DisabledAt :: string

record ObjectSchema =
  ob_Key :: string
  ob_Fields :: "FieldSchema list"

definition zero_field :: FieldSchema where
  "zero_field = \<lparr> fd_Key = [], fd_Type = [], fd_Config = [], fd_ValidationTarget = [], fd_DisabledAt = [] \<rparr>"

definition zero_object :: ObjectSchema where
  "zero_object = \<lparr> ob_Key = [], ob_Fields = [] \<rparr>"

record ResolvedAssignee =
  rv_UserID :: string
  rv_RoleKey :: string
  rv_ResolverKey :: string
  rv_Evidence :: AssigneeEvidence

text \<open>
  What the engine was given: the identity projection with its four queries, the record reader with
  the object schemas (both may be absent), reads of the acting principal, and the strategy of
  project resolvers (\<open>workflow_project_assignee_resolver.go\<close>).
\<close>

record assignee_env =
  ae_HasIdentity :: bool
  ae_FindUser :: "string \<Rightarrow> engine_error + User option"
  ae_ListUsers :: "engine_error + User list"
  ae_ListRoles :: "engine_error + Role list"
  ae_ListUserRoleAssignments :: "engine_error + UserRoleAssignment list"
  ae_HasReader :: bool
  ae_ObjectMap :: "(string \<times> ObjectSchema) list"
  ae_GetWorkflowRecord :: "string \<Rightarrow> ObjectSchema \<Rightarrow> string \<Rightarrow> engine_error + Record option"
  ae_Project :: "WorkflowProcessInstance \<Rightarrow> string \<Rightarrow> WorkflowAssigneeResolver \<Rightarrow> int \<Rightarrow> engine_error + ResolvedAssignee list"

subsection \<open>Lists of users\<close>

definition uniqueSortedStrings :: "string list \<Rightarrow> string list" where
  "uniqueSortedStrings values = sort (uniq_acc [] (filter (\<lambda>v. v \<noteq> []) (map trim_space values)))"

definition workflowAssigneeUserIDs :: "gval \<Rightarrow> string list" where
  "workflowAssigneeUserIDs v = (case v of
      VStr s \<Rightarrow> uniqueSortedStrings [s]
    | VStrs ss \<Rightarrow> uniqueSortedStrings ss
    | VList vs \<Rightarrow> uniqueSortedStrings (concat (map (\<lambda>x. case x of VStr s \<Rightarrow> [s] | _ \<Rightarrow> []) vs))
    | _ \<Rightarrow> [])"

definition resolvedAssigneesForUsers ::
    "string list \<Rightarrow> string \<Rightarrow> string \<Rightarrow> int \<Rightarrow> AssigneeEvidenceMatch \<Rightarrow> ResolvedAssignee list" where
  "resolvedAssigneesForUsers userIDs roleKey resolverKey resolverIndex match =
     map (\<lambda>userID. \<lparr> rv_UserID = userID, rv_RoleKey = roleKey, rv_ResolverKey = resolverKey,
       rv_Evidence = [match \<lparr> em_ResolverIndex := resolverIndex \<rparr>] \<rparr>) (uniqueSortedStrings userIDs)"

text \<open>Where a user stands: the map of positions keeps the last one.\<close>

definition position_of :: "string \<Rightarrow> ResolvedAssignee list \<Rightarrow> nat option" where
  "position_of u xs = (case filter (\<lambda>i. rv_UserID (xs ! i) = u) [0..<length xs] of
      [] \<Rightarrow> None | i # rest \<Rightarrow> Some (last (i # rest)))"

definition merge_candidate :: "ResolvedAssignee \<Rightarrow> ResolvedAssignee list \<Rightarrow> ResolvedAssignee list" where
  "merge_candidate candidate existing = (let u = trim_space (rv_UserID candidate) in
     if u = [] then existing
     else (case position_of u existing of
         Some i \<Rightarrow> existing[i := (existing ! i) \<lparr> rv_Evidence := rv_Evidence (existing ! i) @ rv_Evidence candidate \<rparr>]
       | None \<Rightarrow> existing @ [candidate \<lparr> rv_UserID := u \<rparr>]))"

definition mergeResolvedAssignees :: "ResolvedAssignee list \<Rightarrow> ResolvedAssignee list \<Rightarrow> ResolvedAssignee list" where
  "mergeResolvedAssignees existing candidates = fold merge_candidate candidates existing"

definition usersForApprovalRole :: "assignee_env \<Rightarrow> string \<Rightarrow> engine_error + string list" where
  "usersForApprovalRole env roleKey =
     res_bind (ae_ListRoles env) (\<lambda>roles.
     (let roleID = (case List.find (\<lambda>r. ro_ID r = roleKey \<or> ro_Key r = roleKey) roles of None \<Rightarrow> [] | Some r \<Rightarrow> ro_ID r) in
      if roleID = [] then Inl (bad_request ''backend.workflow.approval_role_not_found'' [''role'', roleKey])
      else res_bind (ae_ListUsers env) (\<lambda>users.
        res_bind (ae_ListUserRoleAssignments env) (\<lambda>assignments.
          Inr (uniqueSortedStrings (map us_ID (filter (\<lambda>u. us_Status u = UserStatusActive \<and>
            us_ID u \<in> ua_UserID ` set (filter (\<lambda>a. ua_RoleID a = roleID) assignments)) users)))))))"

subsection \<open>Fields and relations\<close>

definition normalizedWorkflowRelationPath :: "string list \<Rightarrow> string list" where
  "normalizedWorkflowRelationPath path = filter (\<lambda>f. f \<noteq> []) (map trim_space path)"

definition workflowAssigneeObjectField :: "ObjectSchema \<Rightarrow> string \<Rightarrow> FieldSchema option" where
  "workflowAssigneeObjectField object fieldKey =
     List.find (\<lambda>f. fd_Key f = trim_space fieldKey \<and> fd_DisabledAt f = []) (ob_Fields object)"

definition workflowAssigneeRelationTarget :: "FieldSchema \<Rightarrow> string" where
  "workflowAssigneeRelationTarget field = (case filter (\<lambda>t. t \<noteq> [] \<and> t \<noteq> nil_text)
       [sprint_trim (data_get (fd_Config field) ''object_key''), sprint_trim (data_get (fd_Config field) ''target''),
        trim_space (fd_ValidationTarget field)] of
      [] \<Rightarrow> [] | t # _ \<Rightarrow> t)"

definition workflowResolverRoleField :: "FieldSchema \<Rightarrow> bool" where
  "workflowResolverRoleField field = (let t = trim_space (fd_Type field) in
     if t \<in> {''text'', ''select'', ''multi_select'', ''role'', ''identity_role''} then True
     else if t = ''relation'' then workflowAssigneeRelationTarget field = ''identity_role''
     else False)"

definition workflowResolverIdentityField :: "FieldSchema \<Rightarrow> bool" where
  "workflowResolverIdentityField field = (let t = trim_space (fd_Type field) in
     if t = ''user'' \<or> t = ''identity_user'' then True
     else if t \<noteq> ''relation'' then False
     else (let
         t0 = trim_space (fd_ValidationTarget field);
         t1 = (if t0 = [] then sprint_trim (data_get (fd_Config field) ''object_key'') else t0);
         t2 = (if t1 = [] then sprint_trim (data_get (fd_Config field) ''target'') else t1)
       in t2 = ''identity_user''))"

record workflowAssigneeRelatedRecord =
  rr_ObjectKey :: string
  rr_RecordID :: string
  rr_Data :: data

definition workflowAssigneeRelationTargetLimit :: nat where
  "workflowAssigneeRelationTargetLimit = 100"

definition workflowAssigneeRecord :: "assignee_env \<Rightarrow> string \<Rightarrow> string \<Rightarrow> string \<Rightarrow> engine_error + workflowAssigneeRelatedRecord" where
  "workflowAssigneeRecord env workspaceID objectKey recordID =
     (if \<not> map_has (ae_ObjectMap env) objectKey \<or> objectKey = [] \<or> recordID = []
        then Inl (bad_request ''backend.workflow.resolver_record_not_found'' [''object'', objectKey, ''record'', recordID])
      else res_bind (ae_GetWorkflowRecord env workspaceID (map_get zero_object (ae_ObjectMap env) objectKey) recordID) (\<lambda>found.
        (case found of
            None \<Rightarrow> Inl (bad_request ''backend.workflow.resolver_record_not_found'' [''object'', objectKey, ''record'', recordID])
          | Some record \<Rightarrow> Inr \<lparr> rr_ObjectKey = objectKey, rr_RecordID = rec_ID record, rr_Data = rec_Data record \<rparr>)))"

text \<open>One record of the current level: its targets are read and appended, up to the limit.\<close>

definition follow_target :: "assignee_env \<Rightarrow> string \<Rightarrow> string \<Rightarrow> string \<Rightarrow>
    workflowAssigneeRelatedRecord list \<Rightarrow> engine_error + workflowAssigneeRelatedRecord list" where
  "follow_target env workspaceID targetObjectKey recordID next =
     res_bind (workflowAssigneeRecord env workspaceID targetObjectKey recordID) (\<lambda>target.
       if length (next @ [target]) > workflowAssigneeRelationTargetLimit
         then Inl (bad_request ''backend.workflow.resolver_relation_limit_exceeded'' [''limit'', ''100''])
       else Inr (next @ [target]))"

definition follow_record :: "assignee_env \<Rightarrow> string \<Rightarrow> string \<Rightarrow> workflowAssigneeRelatedRecord \<Rightarrow>
    workflowAssigneeRelatedRecord list \<Rightarrow> engine_error + workflowAssigneeRelatedRecord list" where
  "follow_record env workspaceID fieldKey record next = (let
     found = workflowAssigneeObjectField (map_get zero_object (ae_ObjectMap env) (rr_ObjectKey record)) fieldKey;
     field = (case found of None \<Rightarrow> zero_field | Some f \<Rightarrow> f);
     target = workflowAssigneeRelationTarget field
   in if found = None \<or> trim_space (fd_Type field) \<noteq> ''relation'' \<or> target = [] \<or> target = ''identity_user'' \<or>
        target = ''identity_role''
        then Inl (bad_request ''backend.workflow.resolver_field_type_invalid'' [''field'', rr_ObjectKey record @ ''.'' @ fieldKey])
      else res_fold (follow_target env workspaceID target) (workflowAssigneeUserIDs (data_get (rr_Data record) fieldKey)) next)"

definition related_key :: "workflowAssigneeRelatedRecord \<Rightarrow> string" where
  "related_key r = rr_ObjectKey r @ [CHR 0x00] @ rr_RecordID r"

definition uniqueWorkflowAssigneeRecords :: "workflowAssigneeRelatedRecord list \<Rightarrow> workflowAssigneeRelatedRecord list" where
  "uniqueWorkflowAssigneeRecords records =
     fold (\<lambda>r out. if related_key r \<in> related_key ` set out then out else out @ [r]) records []"

fun follow_path :: "assignee_env \<Rightarrow> string \<Rightarrow> string list \<Rightarrow> workflowAssigneeRelatedRecord list \<Rightarrow>
    engine_error + workflowAssigneeRelatedRecord list" where
  "follow_path env workspaceID [] records = Inr records"
| "follow_path env workspaceID (fieldKey # path) records =
     res_bind (res_fold (follow_record env workspaceID fieldKey) records []) (\<lambda>next.
       (let records' = uniqueWorkflowAssigneeRecords next in
        if records' = [] then Inr [] else follow_path env workspaceID path records'))"

definition followWorkflowAssigneeRelations ::
    "assignee_env \<Rightarrow> WorkflowProcessInstance \<Rightarrow> string list \<Rightarrow> engine_error + workflowAssigneeRelatedRecord list" where
  "followWorkflowAssigneeRelations env process path =
     (if \<not> ae_HasReader env then Inl (internalError ''resolve workflow assignee relation'')
      else res_bind (workflowAssigneeRecord env (wp_WorkspaceID process) (trim_space (wp_ObjectKey process))
          (trim_space (wp_RecordID process))) (\<lambda>root. follow_path env (wp_WorkspaceID process) path [root]))"

definition resolveRecordUserField :: "assignee_env \<Rightarrow> WorkflowProcessInstance \<Rightarrow> string \<Rightarrow> engine_error + string list" where
  "resolveRecordUserField env process field =
     (if \<not> ae_HasReader env then Inl (internalError ''resolve workflow record user field'')
      else (let objectKey = trim_space (wp_ObjectKey process); recordID = trim_space (wp_RecordID process) in
        if objectKey = [] \<or> recordID = [] \<or> \<not> map_has (ae_ObjectMap env) objectKey
          then Inl (bad_request ''backend.workflow.resolver_record_not_found'' [''object'', objectKey, ''record'', recordID])
        else res_bind (ae_GetWorkflowRecord env (wp_WorkspaceID process) (map_get zero_object (ae_ObjectMap env) objectKey) recordID)
          (\<lambda>found. (case found of
              None \<Rightarrow> Inl (bad_request ''backend.workflow.resolver_record_not_found'' [''object'', objectKey, ''record'', recordID])
            | Some record \<Rightarrow> Inr (workflowAssigneeUserIDs (data_get (rec_Data record) field))))))"

subsection \<open>The strategies\<close>

definition zero_match :: AssigneeEvidenceMatch where
  "zero_match = \<lparr> em_ResolverType = [], em_ResolverKey = [], em_ResolverIndex = 0, em_RoleKey = [], em_VariableKey = [],
     em_ObjectKey = [], em_RecordID = [], em_FieldKey = [], em_SubjectUserID = [], em_Facts = [] \<rparr>"

definition resolver_match :: "string \<Rightarrow> int \<Rightarrow> AssigneeEvidenceMatch" where
  "resolver_match key resolverIndex =
     zero_match \<lparr> em_ResolverType := key, em_ResolverKey := key, em_ResolverIndex := resolverIndex \<rparr>"

definition path_fact :: "string list \<Rightarrow> AssigneeEvidenceFact list" where
  "path_fact path = [\<lparr> ef_Key = ''relation_path'', ef_Value = str_join ''.'' path \<rparr>]"

text \<open>The field a relation resolver reads at the end of its path, if the schema allows it.\<close>

definition terminal_field :: "assignee_env \<Rightarrow> (FieldSchema \<Rightarrow> bool) \<Rightarrow> string \<Rightarrow> workflowAssigneeRelatedRecord \<Rightarrow> engine_error + gval" where
  "terminal_field env allowed fieldKey record =
     (case (if map_has (ae_ObjectMap env) (rr_ObjectKey record)
         then workflowAssigneeObjectField (map_get zero_object (ae_ObjectMap env) (rr_ObjectKey record)) fieldKey else None) of
        Some field \<Rightarrow> if allowed field then Inr (data_get (rr_Data record) fieldKey)
          else Inl (bad_request ''backend.workflow.resolver_field_type_invalid'' [''field'', rr_ObjectKey record @ ''.'' @ fieldKey])
      | None \<Rightarrow> Inl (bad_request ''backend.workflow.resolver_field_type_invalid'' [''field'', rr_ObjectKey record @ ''.'' @ fieldKey]))"

definition relation_users :: "assignee_env \<Rightarrow> string list \<Rightarrow> int \<Rightarrow> workflowAssigneeRelatedRecord \<Rightarrow> ResolvedAssignee list \<Rightarrow>
    engine_error + ResolvedAssignee list" where
  "relation_users env path resolverIndex record result = (let f = last path in
     res_bind (terminal_field env workflowResolverIdentityField f record) (\<lambda>v.
       Inr (mergeResolvedAssignees result (resolvedAssigneesForUsers (workflowAssigneeUserIDs v) [] ''relation_user'' resolverIndex
         (resolver_match ''relation_user'' resolverIndex \<lparr> em_ObjectKey := rr_ObjectKey record, em_RecordID := rr_RecordID record,
            em_FieldKey := f, em_Facts := path_fact path \<rparr>)))))"

definition resolveRelationUsers :: "assignee_env \<Rightarrow> WorkflowProcessInstance \<Rightarrow> WorkflowAssigneeResolver \<Rightarrow> int \<Rightarrow>
    engine_error + ResolvedAssignee list" where
  "resolveRelationUsers env process resolver resolverIndex = (let path = normalizedWorkflowRelationPath (ar_RelationPath resolver) in
     if path = [] then Inl (bad_request ''backend.workflow.approval_resolver_invalid'' [''resolver'', ar_Type resolver])
     else res_bind (followWorkflowAssigneeRelations env process (butlast path)) (\<lambda>records.
       res_fold (relation_users env path resolverIndex) records []))"

definition relation_role :: "assignee_env \<Rightarrow> string list \<Rightarrow> string \<Rightarrow> int \<Rightarrow> workflowAssigneeRelatedRecord \<Rightarrow> string \<Rightarrow>
    ResolvedAssignee list \<Rightarrow> engine_error + ResolvedAssignee list" where
  "relation_role env path roleField resolverIndex record roleKey result =
     res_bind (usersForApprovalRole env roleKey) (\<lambda>users.
       Inr (mergeResolvedAssignees result (resolvedAssigneesForUsers users roleKey ''relation_role'' resolverIndex
         (resolver_match ''relation_role'' resolverIndex \<lparr> em_RoleKey := roleKey, em_ObjectKey := rr_ObjectKey record,
            em_RecordID := rr_RecordID record, em_FieldKey := roleField, em_Facts := path_fact path \<rparr>))))"

definition resolveRelationRoles :: "assignee_env \<Rightarrow> WorkflowProcessInstance \<Rightarrow> WorkflowAssigneeResolver \<Rightarrow> int \<Rightarrow>
    engine_error + ResolvedAssignee list" where
  "resolveRelationRoles env process resolver resolverIndex = (let
     path = normalizedWorkflowRelationPath (ar_RelationPath resolver); roleField = trim_space (ar_RoleField resolver)
   in if path = [] \<or> roleField = [] then Inl (bad_request ''backend.workflow.approval_resolver_invalid'' [''resolver'', ar_Type resolver])
      else res_bind (followWorkflowAssigneeRelations env process path) (\<lambda>records.
        res_fold (\<lambda>record result. res_bind (terminal_field env workflowResolverRoleField roleField record) (\<lambda>v.
          res_fold (relation_role env path roleField resolverIndex record) (workflowAssigneeUserIDs v) result)) records []))"

text \<open>
  The chain above one user: \<open>n\<close> managers are left to look at, \<open>visited\<close> are the users seen so far.
\<close>

fun manager_chain :: "assignee_env \<Rightarrow> AssigneeEvidenceMatch \<Rightarrow> int \<Rightarrow> string \<Rightarrow> nat \<Rightarrow> nat \<Rightarrow> string \<Rightarrow> string list \<Rightarrow>
    ResolvedAssignee list \<Rightarrow> engine_error + ResolvedAssignee list" where
  "manager_chain env match idx source 0 depth currentID visited result = Inr result"
| "manager_chain env match idx source (Suc n) depth currentID visited result =
     res_bind (ae_FindUser env currentID) (\<lambda>current.
       (case current of None \<Rightarrow> Inr result | Some cu \<Rightarrow>
         (let managerID = trim_space (us_ManagerUserID cu) in
          if managerID = [] then Inr result
          else if managerID \<in> set visited
            then Inl (bad_request ''backend.workflow.resolver_manager_cycle'' [''user'', managerID])
          else res_bind (ae_FindUser env managerID) (\<lambda>manager.
            (case manager of None \<Rightarrow> Inr result | Some m \<Rightarrow>
               if us_Status m \<noteq> UserStatusActive then Inr result
               else manager_chain env match idx source n (Suc depth) managerID (managerID # visited)
                 (mergeResolvedAssignees result (resolvedAssigneesForUsers [managerID] [] ''manager_chain'' idx
                   (match \<lparr> em_SubjectUserID := source, em_Facts := [\<lparr> ef_Key = ''depth'', ef_Value = itoa (int depth) \<rparr>,
                      \<lparr> ef_Key = ''manager_of'', ef_Value = currentID \<rparr>] \<rparr>))))))))"

definition chain_sources :: "assignee_env \<Rightarrow> WorkflowProcessInstance \<Rightarrow> WorkflowAssigneeResolver \<Rightarrow> int \<Rightarrow>
    engine_error + AssigneeEvidenceMatch \<times> string list" where
  "chain_sources env process resolver resolverIndex = (let
     match = resolver_match ''manager_chain'' resolverIndex; s = trim_space (ar_Source resolver); f = trim_space (ar_Field resolver)
   in if s = ''initiator'' then Inr (match, workflowAssigneeUserIDs (VStr (wp_InitiatorID process)))
      else if s = ''variable'' then Inr (match \<lparr> em_VariableKey := f \<rparr>, workflowAssigneeUserIDs (data_get (wp_Variables process) f))
      else if s = ''record'' then res_bind (resolveRecordUserField env process f) (\<lambda>users.
        Inr (match \<lparr> em_ObjectKey := trim_space (wp_ObjectKey process), em_RecordID := trim_space (wp_RecordID process),
          em_FieldKey := f \<rparr>, users))
      else Inl (bad_request ''backend.workflow.approval_resolver_invalid'' [''resolver'', ar_Type resolver]))"

definition resolveManagerChain :: "assignee_env \<Rightarrow> WorkflowProcessInstance \<Rightarrow> WorkflowAssigneeResolver \<Rightarrow> int \<Rightarrow>
    engine_error + ResolvedAssignee list" where
  "resolveManagerChain env process resolver resolverIndex =
     res_bind (chain_sources env process resolver resolverIndex) (\<lambda>(match, sourceUsers).
       if ar_MaxDepth resolver < 1 \<or> 20 < ar_MaxDepth resolver
         then Inl (bad_request ''backend.workflow.approval_resolver_invalid'' [''resolver'', ar_Type resolver])
       else res_fold (\<lambda>source. manager_chain env match resolverIndex source (nat (ar_MaxDepth resolver)) 1 source [source])
         sourceUsers [])"

definition resolveManager :: "assignee_env \<Rightarrow> WorkflowProcessInstance \<Rightarrow> WorkflowAssigneeResolver \<Rightarrow> int \<Rightarrow>
    engine_error + ResolvedAssignee list" where
  "resolveManager env process resolver resolverIndex = (let
     t = trim_space (ar_Type resolver);
     userID = (if ar_Type resolver \<noteq> ''initiator_manager''
       then WorkflowApprovalSubjectUserID (wp_Variables process) (trim_space (ar_UserField resolver))
       else trim_space (wp_InitiatorID process))
   in if userID = [] then Inr []
      else res_bind (ae_FindUser env userID) (\<lambda>user. (case user of None \<Rightarrow> Inr [] | Some u \<Rightarrow>
        (let managerID = trim_space (us_ManagerUserID u) in
         if managerID = [] then Inr []
         else res_bind (ae_FindUser env managerID) (\<lambda>manager. (case manager of None \<Rightarrow> Inr [] | Some m \<Rightarrow>
           if us_Status m \<noteq> UserStatusActive then Inr []
           else Inr (resolvedAssigneesForUsers [managerID] [] t resolverIndex
             (resolver_match t resolverIndex \<lparr> em_SubjectUserID := userID, em_FieldKey := trim_space (ar_UserField resolver) \<rparr>))))))))"

definition resolveApprovalAssigneeStrategyAt :: "assignee_env \<Rightarrow> WorkflowProcessInstance \<Rightarrow> string \<Rightarrow> WorkflowAssigneeResolver \<Rightarrow> int \<Rightarrow>
    engine_error + ResolvedAssignee list" where
  "resolveApprovalAssigneeStrategyAt env process nodeID resolver resolverIndex = (let
     t = trim_space (ar_Type resolver); match = resolver_match t resolverIndex; field = trim_space (ar_Field resolver)
   in if t = ''users'' then Inr (resolvedAssigneesForUsers (uniqueSortedStrings (ar_UserIDs resolver)) [] t resolverIndex match)
      else if t = ''manager'' \<or> t = ''manager_of'' \<or> t = ''initiator_manager'' then resolveManager env process resolver resolverIndex
      else if t = ''variable_user'' then (let userID = WorkflowPayloadString (wp_Variables process) field in
        if userID = [] then Inr []
        else Inr (resolvedAssigneesForUsers [userID] [] t resolverIndex (match \<lparr> em_VariableKey := field \<rparr>)))
      else if t = ''record_user_field'' then res_bind (resolveRecordUserField env process field) (\<lambda>users.
        Inr (resolvedAssigneesForUsers users [] t resolverIndex (match \<lparr> em_ObjectKey := trim_space (wp_ObjectKey process),
          em_RecordID := trim_space (wp_RecordID process), em_FieldKey := field \<rparr>)))
      else if t = ''relation_user'' then resolveRelationUsers env process resolver resolverIndex
      else if t = ''relation_role'' then resolveRelationRoles env process resolver resolverIndex
      else if t = ''manager_chain'' then resolveManagerChain env process resolver resolverIndex
      else if t = ''role'' then (let roleKey = trim_space (ar_RoleKey resolver) in
        res_bind (usersForApprovalRole env roleKey) (\<lambda>users.
          Inr (resolvedAssigneesForUsers users roleKey t resolverIndex (match \<lparr> em_RoleKey := roleKey \<rparr>))))
      else if t = ''project'' then ae_Project env process nodeID resolver resolverIndex
      else Inl (bad_request ''backend.workflow.approval_resolver_invalid'' [''resolver'', ar_Type resolver]))"

subsection \<open>The electorate\<close>

text \<open>
  A resolver without a priority takes its position in the slice, as it is when the comparison is
  made, plus one.
\<close>

definition resolver_less :: "WorkflowAssigneeResolver list \<Rightarrow> nat \<Rightarrow> nat \<Rightarrow> bool" where
  "resolver_less ordered i j = (let
     left = (if ar_Priority (ordered ! i) = 0 then int i + 1 else ar_Priority (ordered ! i));
     right = (if ar_Priority (ordered ! j) = 0 then int j + 1 else ar_Priority (ordered ! j))
   in left < right)"

definition WorkflowOrderedApprovalResolvers :: "WorkflowAssigneeResolver list \<Rightarrow> WorkflowAssigneeResolver list" where
  "WorkflowOrderedApprovalResolvers resolvers = insertion_sort resolver_less resolvers"

fun resolve_each :: "assignee_env \<Rightarrow> WorkflowProcessInstance \<Rightarrow> string \<Rightarrow> bool \<Rightarrow> WorkflowAssigneeResolver list \<Rightarrow> int \<Rightarrow>
    ResolvedAssignee list \<Rightarrow> engine_error + ResolvedAssignee list" where
  "resolve_each env process nodeID first [] index resolved = Inr resolved"
| "resolve_each env process nodeID first (resolver # rest) index resolved =
     res_bind (resolveApprovalAssigneeStrategyAt env process nodeID resolver index) (\<lambda>candidates.
       (let resolved' = mergeResolvedAssignees resolved candidates in
        if first \<and> candidates \<noteq> [] then Inr resolved'
        else resolve_each env process nodeID first rest (index + 1) resolved'))"

definition resolveWorkflowAssignees :: "assignee_env \<Rightarrow> WorkflowProcessInstance \<Rightarrow> string \<Rightarrow> WorkflowAssigneeResolver list \<Rightarrow>
    engine_error + ResolvedAssignee list" where
  "resolveWorkflowAssignees env process nodeID resolvers =
     resolve_each env process nodeID False (WorkflowOrderedApprovalResolvers resolvers) 0 []"

definition resolveApprovalAssignees :: "assignee_env \<Rightarrow> WorkflowProcessInstance \<Rightarrow> WorkflowGraphNode \<Rightarrow>
    engine_error + ResolvedAssignee list" where
  "resolveApprovalAssignees env process node =
     (if \<not> ae_HasIdentity env then Inl (bad_request ''backend.workflow.approval_identity_unavailable'' [])
      else (let contract = WorkflowApprovalNodeContract node in
        res_bind (resolve_each env process (gn_ID node) (trim_space (ac_ResolverMode contract) = ''first_match'')
          (WorkflowOrderedApprovalResolvers (ac_Resolvers contract)) 0 []) (\<lambda>found.
        res_bind (if found = [] \<and> valueOrDefault (trim_space (ac_EmptyAssigneePolicy contract)) ''fail'' = ''admin''
            then res_bind (usersForApprovalRole env ''admin'') (\<lambda>admins.
              Inr (resolvedAssigneesForUsers admins ''admin'' ''role'' 0 (resolver_match ''role'' 0 \<lparr> em_RoleKey := ''admin'' \<rparr>)))
            else Inr found) (\<lambda>resolved.
          (case WorkflowValidateApprovalAssigneeCount node (int (length resolved)) of
              Some e \<Rightarrow> Inl (AppErr e) | None \<Rightarrow> Inr resolved)))))"

subsection \<open>The merge against its specification\<close>

lemma uniq_acc_snoc: "uniq_acc seen (xs @ [y]) = uniq_acc seen xs @ (if y \<in> set seen \<union> set xs then [] else [y])"
  by (induction xs arbitrary: seen) auto

text \<open>
  What the merge promises: one entry per user that is not blank, in the order of first appearance,
  with role and resolver of the first candidate for the user and the evidence of all of them.
\<close>

definition first_candidate :: "string \<Rightarrow> ResolvedAssignee list \<Rightarrow> ResolvedAssignee" where
  "first_candidate u cs = hd (filter (\<lambda>c. trim_space (rv_UserID c) = u) cs)"

definition electorate_entry :: "ResolvedAssignee list \<Rightarrow> string \<Rightarrow> ResolvedAssignee" where
  "electorate_entry cs u = (first_candidate u cs) \<lparr> rv_UserID := u,
     rv_Evidence := concat (map rv_Evidence (filter (\<lambda>c. trim_space (rv_UserID c) = u) cs)) \<rparr>"

definition electorate_of :: "ResolvedAssignee list \<Rightarrow> ResolvedAssignee list" where
  "electorate_of cs = map (electorate_entry cs) (WorkflowUniqueAssignees (map rv_UserID cs))"

lemma electorate_entry_id [simp]: "rv_UserID (electorate_entry cs u) = u"
  by (simp add: electorate_entry_def)

lemma electorate_ids [simp]: "map rv_UserID (electorate_of cs) = WorkflowUniqueAssignees (map rv_UserID cs)"
  by (simp add: electorate_of_def comp_def)

lemma unique_assignees_snoc:
  "WorkflowUniqueAssignees (xs @ [y]) = WorkflowUniqueAssignees xs @
     (if trim_space y = [] \<or> trim_space y \<in> set (WorkflowUniqueAssignees xs) then [] else [trim_space y])"
  by (auto simp: WorkflowUniqueAssignees_def uniq_acc_snoc set_uniq_acc)

lemma position_of_None: "position_of u xs = None \<longleftrightarrow> u \<notin> set (map rv_UserID xs)"
proof -
  have "position_of u xs = None \<longleftrightarrow> filter (\<lambda>i. rv_UserID (xs ! i) = u) [0..<length xs] = []"
    by (simp add: position_of_def split: list.split)
  then have "position_of u xs = None \<longleftrightarrow> (\<forall>i < length xs. rv_UserID (xs ! i) \<noteq> u)"
    by (auto simp: filter_empty_conv)
  then show ?thesis using all_set_conv_all_nth [of xs "\<lambda>x. rv_UserID x \<noteq> u"] by auto
qed

lemma position_of_Some: "position_of u xs = Some i \<Longrightarrow> i < length xs \<and> rv_UserID (xs ! i) = u"
proof -
  assume a: "position_of u xs = Some i"
  let ?is = "filter (\<lambda>i. rv_UserID (xs ! i) = u) [0..<length xs]"
  from a have "?is \<noteq> []" and "i = last ?is" by (auto simp: position_of_def split: list.splits)
  then have "i \<in> set ?is" using last_in_set [of ?is] by metis
  then show ?thesis by simp
qed

lemma merge_known:
  assumes "u \<in> set (WorkflowUniqueAssignees (map rv_UserID cs))" and "u = trim_space (rv_UserID c)"
  shows "electorate_entry (cs @ [c]) v = (if v = u then (electorate_entry cs u)
     \<lparr> rv_Evidence := rv_Evidence (electorate_entry cs u) @ rv_Evidence c \<rparr> else electorate_entry cs v)"
proof (cases "v = u")
  case True
  from assms(1) have "filter (\<lambda>c. trim_space (rv_UserID c) = u) cs \<noteq> []"
    by (auto simp: WorkflowUniqueAssignees_set filter_empty_conv)
  then show ?thesis using True assms(2) by (simp add: electorate_entry_def first_candidate_def)
next
  case False
  then show ?thesis using assms(2) by (simp add: electorate_entry_def first_candidate_def)
qed

lemma merge_step: "merge_candidate c (electorate_of cs) = electorate_of (cs @ [c])"
proof -
  let ?us = "WorkflowUniqueAssignees (map rv_UserID cs)" and ?u = "trim_space (rv_UserID c)"
  consider (blank) "?u = []" | (known) "?u \<noteq> []" "?u \<in> set ?us" | (new) "?u \<noteq> []" "?u \<notin> set ?us" by blast
  then show ?thesis
  proof cases
    case blank
    have "electorate_entry (cs @ [c]) v = electorate_entry cs v" if "v \<in> set ?us" for v
      using that blank by (auto simp: WorkflowUniqueAssignees_set electorate_entry_def first_candidate_def)
    with blank show ?thesis by (simp add: merge_candidate_def electorate_of_def unique_assignees_snoc)
  next
    case known
    then have "position_of ?u (electorate_of cs) \<noteq> None" by (simp add: position_of_None del: set_map)
    then obtain i where i: "position_of ?u (electorate_of cs) = Some i" by blast
    from position_of_Some [OF i] have i': "i < length ?us" "?us ! i = ?u" by (auto simp: electorate_of_def)
    let ?e = "(electorate_entry cs ?u) \<lparr> rv_Evidence := rv_Evidence (electorate_entry cs ?u) @ rv_Evidence c \<rparr>"
    have "(map (electorate_entry cs) ?us)[i := ?e] = map (electorate_entry (cs @ [c])) ?us"
    proof (rule nth_equalityI)
      fix j
      assume "j < length ((map (electorate_entry cs) ?us)[i := ?e])"
      then have j: "j < length ?us" by simp
      have "?us ! j = ?u \<longleftrightarrow> j = i"
        using nth_eq_iff_index_eq [OF WorkflowUniqueAssignees_distinct j i'(1)] i'(2) by simp
      then show "(map (electorate_entry cs) ?us)[i := ?e] ! j = map (electorate_entry (cs @ [c])) ?us ! j"
        using j i' merge_known [OF known(2) refl, of "?us ! j"] by (simp add: nth_list_update)
    qed simp
    then show ?thesis using known i i' by (simp add: merge_candidate_def electorate_of_def unique_assignees_snoc)
  next
    case new
    then have n: "position_of ?u (electorate_of cs) = None" by (simp add: position_of_None del: set_map)
    have f: "filter (\<lambda>c. trim_space (rv_UserID c) = ?u) cs = []"
      using new by (auto simp: WorkflowUniqueAssignees_set filter_empty_conv)
    have old: "electorate_entry (cs @ [c]) v = electorate_entry cs v" if "v \<in> set ?us" for v
      using that new by (auto simp: electorate_entry_def first_candidate_def)
    have "electorate_entry (cs @ [c]) ?u = c \<lparr> rv_UserID := ?u \<rparr>"
      using f by (simp add: electorate_entry_def first_candidate_def)
    then show ?thesis using new n old by (simp add: merge_candidate_def electorate_of_def unique_assignees_snoc)
  qed
qed

lemma merge_electorate: "mergeResolvedAssignees (electorate_of xs) cs = electorate_of (xs @ cs)"
proof (induction cs arbitrary: xs)
  case (Cons c cs)
  show ?case using Cons.IH [of "xs @ [c]"] by (simp add: mergeResolvedAssignees_def merge_step)
qed (simp add: mergeResolvedAssignees_def)

lemma electorate_of_Nil [simp]: "electorate_of [] = []"
  by (simp add: electorate_of_def WorkflowUniqueAssignees_def)

text \<open>The loop over the resolvers asks a prefix of them and merges what they found.\<close>

definition resolver_results :: "assignee_env \<Rightarrow> WorkflowProcessInstance \<Rightarrow> string \<Rightarrow> WorkflowAssigneeResolver list \<Rightarrow> int \<Rightarrow>
    ResolvedAssignee list list \<Rightarrow> bool" where
  "resolver_results env process nodeID resolvers index css \<longleftrightarrow> length css \<le> length resolvers \<and>
     (\<forall>i < length css. resolveApprovalAssigneeStrategyAt env process nodeID (resolvers ! i) (index + int i) = Inr (css ! i))"

definition asked_all :: "bool \<Rightarrow> nat \<Rightarrow> ResolvedAssignee list list \<Rightarrow> bool" where
  "asked_all first n css \<longleftrightarrow> (if first then (\<forall>i. Suc i < length css \<longrightarrow> css ! i = []) \<and>
     (length css < n \<longrightarrow> css \<noteq> [] \<and> last css \<noteq> []) else length css = n)"

lemma resolver_results_Cons:
  assumes "resolveApprovalAssigneeStrategyAt env process nodeID r index = Inr cs"
    and "resolver_results env process nodeID rest (index + 1) css"
  shows "resolver_results env process nodeID (r # rest) index (cs # css)"
  unfolding resolver_results_def
proof (intro conjI allI impI)
  show "length (cs # css) \<le> length (r # rest)" using assms(2) by (simp add: resolver_results_def)
  fix i
  assume i: "i < length (cs # css)"
  show "resolveApprovalAssigneeStrategyAt env process nodeID ((r # rest) ! i) (index + int i) = Inr ((cs # css) ! i)"
  proof (cases i)
    case (Suc j)
    then have "resolveApprovalAssigneeStrategyAt env process nodeID (rest ! j) (index + 1 + int j) = Inr (css ! j)"
      using assms(2) i by (simp add: resolver_results_def)
    then show ?thesis using Suc by (simp add: algebra_simps)
  qed (use assms(1) in simp)
qed

lemma resolve_each_spec:
  assumes "resolve_each env process nodeID first resolvers index (electorate_of xs) = Inr rs"
  obtains css where "resolver_results env process nodeID resolvers index css" and "asked_all first (length resolvers) css"
    and "rs = electorate_of (xs @ concat css)"
  using assms
proof (induction resolvers arbitrary: index xs thesis)
  case Nil
  show ?case
  proof (rule Nil.prems(1))
    show "resolver_results env process nodeID [] index []" by (simp add: resolver_results_def)
    show "asked_all first (length []) []" by (simp add: asked_all_def)
    show "rs = electorate_of (xs @ concat [])" using Nil.prems(2) by simp
  qed
next
  case (Cons r rest)
  from Cons.prems(2) obtain cs where cs: "resolveApprovalAssigneeStrategyAt env process nodeID r index = Inr cs"
    and k: "(if first \<and> cs \<noteq> [] then Inr (electorate_of (xs @ cs))
       else resolve_each env process nodeID first rest (index + 1) (electorate_of (xs @ cs))) = Inr rs"
    by (auto simp: res_bind_Inr Let_def merge_electorate)
  show ?case
  proof (cases "first \<and> cs \<noteq> []")
    case True
    have "resolver_results env process nodeID (r # rest) index [cs]" using cs by (simp add: resolver_results_def)
    moreover have "asked_all first (length (r # rest)) [cs]" using True by (simp add: asked_all_def)
    ultimately show ?thesis using Cons.prems(1) k True by simp
  next
    case False
    with k obtain css where css: "resolver_results env process nodeID rest (index + 1) css"
      "asked_all first (length rest) css" "rs = electorate_of ((xs @ cs) @ concat css)"
      using Cons.IH [of "index + 1" "xs @ cs"] by auto
    have "asked_all first (length (r # rest)) (cs # css)"
      using css(2) False by (auto simp: asked_all_def nth_Cons split: nat.splits)
    then show ?thesis using Cons.prems(1) [of "cs # css"] resolver_results_Cons [OF cs css(1)] css(3) by simp
  qed
qed

text \<open>
  C24: the electorate of an approval node is what its resolvers find. The resolvers are asked in
  order, all of them or, for \<open>first_match\<close>, up to the first that finds somebody; the electorate has
  one entry per user that is not blank, in the order of first appearance, with role and resolver of
  the first candidate and the evidence of every candidate for that user. If nobody is found and
  the policy is \<open>admin\<close>, the administrators vote. The number of voters satisfies the contract.
\<close>

theorem electorate_is_what_resolvers_find:
  assumes "resolveApprovalAssignees env process node = Inr rs"
  shows "\<exists>css. resolver_results env process (gn_ID node)
      (WorkflowOrderedApprovalResolvers (ac_Resolvers (WorkflowApprovalNodeContract node))) 0 css \<and>
    asked_all (trim_space (ac_ResolverMode (WorkflowApprovalNodeContract node)) = ''first_match'')
      (length (ac_Resolvers (WorkflowApprovalNodeContract node))) css \<and>
    (if electorate_of (concat css) = [] \<and>
        valueOrDefault (trim_space (ac_EmptyAssigneePolicy (WorkflowApprovalNodeContract node))) ''fail'' = ''admin''
      then \<exists>admins. usersForApprovalRole env ''admin'' = Inr admins \<and> map rv_UserID rs = uniqueSortedStrings admins
      else rs = electorate_of (concat css)) \<and>
    distinct (map rv_UserID rs) \<and> [] \<notin> set (map rv_UserID rs) \<and>
    WorkflowValidateApprovalAssigneeCount node (int (length rs)) = None"
proof -
  let ?c = "WorkflowApprovalNodeContract node"
  let ?admin = "valueOrDefault (trim_space (ac_EmptyAssigneePolicy ?c)) ''fail'' = ''admin''"
  from assms obtain found where f: "resolve_each env process (gn_ID node) (trim_space (ac_ResolverMode ?c) = ''first_match'')
      (WorkflowOrderedApprovalResolvers (ac_Resolvers ?c)) 0 (electorate_of []) = Inr found"
    and r: "if found = [] \<and> ?admin then \<exists>admins. usersForApprovalRole env ''admin'' = Inr admins \<and>
        rs = resolvedAssigneesForUsers admins ''admin'' ''role'' 0 (resolver_match ''role'' 0 \<lparr> em_RoleKey := ''admin'' \<rparr>)
      else rs = found"
    and n: "WorkflowValidateApprovalAssigneeCount node (int (length rs)) = None"
    by (auto simp: resolveApprovalAssignees_def Let_def res_bind_Inr split: if_splits option.splits)
  from f obtain css where css: "resolver_results env process (gn_ID node) (WorkflowOrderedApprovalResolvers (ac_Resolvers ?c)) 0 css"
    "asked_all (trim_space (ac_ResolverMode ?c) = ''first_match'') (length (WorkflowOrderedApprovalResolvers (ac_Resolvers ?c))) css"
    "found = electorate_of ([] @ concat css)"
    by (rule resolve_each_spec)
  have ids: "map rv_UserID (resolvedAssigneesForUsers us ro k i m) = uniqueSortedStrings us" for us ro k i m
    by (simp add: resolvedAssigneesForUsers_def comp_def)
  have us: "distinct (uniqueSortedStrings us) \<and> [] \<notin> set (uniqueSortedStrings us)" for us
    by (auto simp: uniqueSortedStrings_def set_uniq_acc)
  have w: "distinct (map rv_UserID rs) \<and> [] \<notin> set (map rv_UserID rs)"
  proof (cases "found = [] \<and> ?admin")
    case True
    with r show ?thesis by (auto simp: ids us simp del: set_map)
  next
    case False
    with r css(3) have "map rv_UserID rs = WorkflowUniqueAssignees (map rv_UserID (concat css))" by simp
    then show ?thesis using WorkflowUniqueAssignees_distinct WorkflowUniqueAssignees_set by (metis (mono_tags, lifting) mem_Collect_eq)
  qed
  have l: "length (WorkflowOrderedApprovalResolvers (ac_Resolvers ?c)) = length (ac_Resolvers ?c)"
    by (simp add: WorkflowOrderedApprovalResolvers_def)
  show ?thesis
    using css r n w l ids by (intro exI [of _ css]) (auto simp del: set_map)
qed

text \<open>
  The managers a chain adds: at most \<open>n\<close>, each an active user the projection knows, none of them
  visited before.
\<close>

lemma unique_sorted_single: "uniqueSortedStrings [u] = (if trim_space u = [] then [] else [trim_space u])"
  by (simp add: uniqueSortedStrings_def)

lemma manager_candidate:
  "trim_space u = u \<Longrightarrow> u \<noteq> [] \<Longrightarrow> length (resolvedAssigneesForUsers [u] ro k i m) = 1 \<and>
     map rv_UserID (resolvedAssigneesForUsers [u] ro k i m) = [u]"
  by (simp add: resolvedAssigneesForUsers_def unique_sorted_single)

lemma manager_chain_spec:
  assumes "manager_chain env match idx src n depth cur visited (electorate_of xs) = Inr rs"
  obtains cs where "rs = electorate_of (xs @ cs)" and "length cs \<le> n" and "distinct (map rv_UserID cs)"
    and "set (map rv_UserID cs) \<inter> set visited = {}"
    and "\<And>c. c \<in> set cs \<Longrightarrow> \<exists>m. ae_FindUser env (rv_UserID c) = Inr (Some m) \<and> us_Status m = UserStatusActive"
  using assms
proof (induction n arbitrary: depth cur visited xs thesis)
  case 0
  then show ?case by (metis (no_types, lifting) Int_empty_left append_Nil2 distinct.simps(1) empty_iff list.set(1) list.simps(8)
        list.size(3) manager_chain.simps(1) order_refl sum.inject(2))
next
  case (Suc n)
  have stop: thesis if "rs = electorate_of xs"
    using that by (intro Suc.prems(1) [of "[]"]) simp_all
  from Suc.prems(2) obtain current where c: "ae_FindUser env cur = Inr current" by (auto simp: res_bind_Inr)
  show ?case
  proof (cases "\<exists>cu. current = Some cu \<and> trim_space (us_ManagerUserID cu) \<noteq> []")
    case False
    with Suc.prems(2) c have "rs = electorate_of xs" by (auto split: option.splits)
    then show ?thesis by (rule stop)
  next
    case True
    then obtain cu where cu: "current = Some cu" "trim_space (us_ManagerUserID cu) \<noteq> []" by blast
    let ?m = "trim_space (us_ManagerUserID cu)"
    let ?cand = "resolvedAssigneesForUsers [?m] [] ''manager_chain'' idx
       (match \<lparr> em_SubjectUserID := src, em_Facts := [\<lparr> ef_Key = ''depth'', ef_Value = itoa (int depth) \<rparr>,
          \<lparr> ef_Key = ''manager_of'', ef_Value = cur \<rparr>] \<rparr>)"
    from Suc.prems(2) c cu have v: "?m \<notin> set visited" by (auto simp: Let_def split: if_splits)
    with Suc.prems(2) c cu obtain manager where m: "ae_FindUser env ?m = Inr manager"
      by (auto simp: Let_def res_bind_Inr)
    show ?thesis
    proof (cases "\<exists>mu. manager = Some mu \<and> us_Status mu = UserStatusActive")
      case False
      with Suc.prems(2) c cu v m have "rs = electorate_of xs" by (auto simp: Let_def split: option.splits if_splits)
      then show ?thesis by (rule stop)
    next
      case True
      then obtain mu where mu: "manager = Some mu" "us_Status mu = UserStatusActive" by blast
      have k: "manager_chain env match idx src n (Suc depth) ?m (?m # visited) (electorate_of (xs @ ?cand)) = Inr rs"
        using Suc.prems(2) c cu v m mu by (simp add: Let_def merge_electorate)
      obtain cs where cs: "rs = electorate_of ((xs @ ?cand) @ cs)" "length cs \<le> n" "distinct (map rv_UserID cs)"
        "set (map rv_UserID cs) \<inter> set (?m # visited) = {}"
        "\<And>c. c \<in> set cs \<Longrightarrow> \<exists>m. ae_FindUser env (rv_UserID c) = Inr (Some m) \<and> us_Status m = UserStatusActive"
        by (rule Suc.IH [OF _ k]) blast
      obtain d where d: "?cand = [d]" "rv_UserID d = ?m"
        using cu(2) by (simp add: resolvedAssigneesForUsers_def unique_sorted_single)
      show ?thesis
      proof (rule Suc.prems(1) [of "d # cs"])
        show "rs = electorate_of (xs @ d # cs)" using cs(1) d(1) by simp
        show "\<exists>m. ae_FindUser env (rv_UserID e) = Inr (Some m) \<and> us_Status m = UserStatusActive" if "e \<in> set (d # cs)" for e
          using that cs(5) [of e] d(2) m mu by auto
      qed (use cs d v in auto)
    qed
  qed
qed

lemma manager_chains_spec:
  assumes "res_fold (\<lambda>source. manager_chain env match idx source n 1 source [source]) us (electorate_of xs) = Inr rs"
  obtains cs where "rs = electorate_of (xs @ cs)" and "length cs \<le> length us * n"
    and "\<And>c. c \<in> set cs \<Longrightarrow> \<exists>m. ae_FindUser env (rv_UserID c) = Inr (Some m) \<and> us_Status m = UserStatusActive"
  using assms
proof (induction us arbitrary: xs thesis)
  case Nil
  then show ?case by (intro Nil.prems(1) [of "[]"]) simp_all
next
  case (Cons u us)
  from Cons.prems(2) obtain t where t: "manager_chain env match idx u n 1 u [u] (electorate_of xs) = Inr t"
    "res_fold (\<lambda>source. manager_chain env match idx source n 1 source [source]) us t = Inr rs"
    by (auto simp: res_bind_Inr)
  obtain cs where cs: "t = electorate_of (xs @ cs)" "length cs \<le> n"
    "\<And>c. c \<in> set cs \<Longrightarrow> \<exists>m. ae_FindUser env (rv_UserID c) = Inr (Some m) \<and> us_Status m = UserStatusActive"
    by (rule manager_chain_spec [OF t(1)]) blast
  obtain ds where ds: "rs = electorate_of ((xs @ cs) @ ds)" "length ds \<le> length us * n"
    "\<And>c. c \<in> set ds \<Longrightarrow> \<exists>m. ae_FindUser env (rv_UserID c) = Inr (Some m) \<and> us_Status m = UserStatusActive"
    by (rule Cons.IH [OF _ t(2) [unfolded cs(1)]]) blast
  show ?case
  proof (rule Cons.prems(1) [of "cs @ ds"])
    show "\<exists>m. ae_FindUser env (rv_UserID c) = Inr (Some m) \<and> us_Status m = UserStatusActive" if "c \<in> set (cs @ ds)" for c
      using that cs(3) ds(3) by auto
  qed (use cs ds in simp_all)
qed

lemma unique_assignees_length: "length (WorkflowUniqueAssignees xs) \<le> length xs"
proof -
  have "length (uniq_acc seen ys) \<le> length ys" for seen and ys :: "string list"
    by (induction ys arbitrary: seen) (auto intro: le_SucI)
  from order_trans [OF this length_filter_le, of "[]" "\<lambda>u. u \<noteq> []" "map trim_space xs"]
  show ?thesis by (simp add: WorkflowUniqueAssignees_def)
qed

text \<open>
  A manager chain is bounded. When the resolver returns, it looked at most twenty managers up
  from every source user, and the users it returns are distinct, not more than that many per
  source; a chain that comes back to a visited user is an error and returns nobody.
\<close>

theorem manager_chain_bounded:
  assumes "resolveManagerChain env process resolver idx = Inr rs"
  shows "\<exists>match sources. chain_sources env process resolver idx = Inr (match, sources) \<and> ar_MaxDepth resolver \<in> {1..20} \<and>
    int (length rs) \<le> int (length sources) * ar_MaxDepth resolver \<and> distinct (map rv_UserID rs)"
proof -
  from assms obtain match sources where c: "chain_sources env process resolver idx = Inr (match, sources)"
    and d: "ar_MaxDepth resolver \<in> {1..20}"
    and f: "res_fold (\<lambda>source. manager_chain env match idx source (nat (ar_MaxDepth resolver)) 1 source [source]) sources
      (electorate_of []) = Inr rs"
    by (auto simp: resolveManagerChain_def res_bind_Inr split: if_splits)
  obtain cs where cs: "rs = electorate_of cs" "length cs \<le> length sources * nat (ar_MaxDepth resolver)"
    using manager_chains_spec [OF f] by (metis append_Nil)
  have "length rs \<le> length cs"
    using unique_assignees_length [of "map rv_UserID cs"] by (simp add: cs(1) electorate_of_def)
  with cs(2) have "int (length rs) \<le> int (length sources * nat (ar_MaxDepth resolver))" by (simp only: of_nat_le_iff)
  then have "int (length rs) \<le> int (length sources) * ar_MaxDepth resolver" using d by simp
  moreover have "distinct (map rv_UserID rs)" by (simp add: cs(1) WorkflowUniqueAssignees_distinct)
  ultimately show ?thesis using c d by blast
qed

text \<open>
  Two ways to read the target of a relation: a field that names its target only as \<open>target\<close> in its
  configuration is a relation to users when relations are followed, but not when the last field of
  a path is checked, because there the text of the missing \<open>object_key\<close> is taken for a target.
\<close>

lemma relation_target_disagreement:
  "workflowAssigneeRelationTarget (zero_field \<lparr> fd_Type := ''relation'', fd_Config := [(''target'', VStr ''identity_user'')] \<rparr>) =
     ''identity_user'' \<and>
   \<not> workflowResolverIdentityField (zero_field \<lparr> fd_Type := ''relation'', fd_Config := [(''target'', VStr ''identity_user'')] \<rparr>)"
  by code_simp

text \<open>
  A resolver without a priority that stands fourth (and so has priority four) is asked before one
  with priority three: its position changes while the slice is being sorted.
\<close>

lemma unset_priority_overtakes:
  "map ar_Priority (WorkflowOrderedApprovalResolvers (map (\<lambda>p. zero_resolver \<lparr> ar_Priority := p \<rparr>) [9, 8, 3, 0])) = [0, 3, 8, 9]"
  by code_simp

subsection \<open>Witnesses\<close>

definition example_user :: "string \<Rightarrow> string \<Rightarrow> User" where
  "example_user i m = \<lparr> us_ID = i, us_Name = i, us_Locale = [], us_Status = ''active'', us_ManagerUserID = m \<rparr>"

definition example_identity :: assignee_env where
  "example_identity = \<lparr> ae_HasIdentity = True,
     ae_FindUser = (\<lambda>i. Inr (if i = ''a'' then Some (example_user ''a'' ''b'') else if i = ''b'' then Some (example_user ''b'' ''c'')
       else if i = ''c'' then Some (example_user ''c'' []) else None)),
     ae_ListUsers = Inr [example_user ''a'' ''b'', example_user ''b'' ''c'', example_user ''c'' []],
     ae_ListRoles = Inr [\<lparr> ro_ID = ''r1'', ro_Key = ''admin'' \<rparr>],
     ae_ListUserRoleAssignments = Inr [\<lparr> ua_UserID = ''c'', ua_RoleID = ''r1'' \<rparr>], ae_HasReader = False, ae_ObjectMap = [],
     ae_GetWorkflowRecord = (\<lambda>w o1 i. Inr None), ae_Project = (\<lambda>p n r i. Inr []) \<rparr>"

definition example_resolvers :: "WorkflowAssigneeResolver list" where
  "example_resolvers = [zero_resolver \<lparr> ar_Type := ''users'', ar_UserIDs := ['' b'', ''a'', []] \<rparr>,
     zero_resolver \<lparr> ar_Type := ''manager_chain'', ar_Source := ''initiator'', ar_MaxDepth := 5 \<rparr>]"

definition example_voting_node :: WorkflowGraphNode where
  "example_voting_node = zero_node \<lparr> gn_ID := ''n1'', gn_Type := ''approval'', gn_Contract := Some \<lparr> nc_Condition = None,
     nc_Approval = Some (zero_approval \<lparr> ac_Mode := ''all'', ac_Resolvers := example_resolvers \<rparr>),
     nc_Action = None, nc_CC = None, nc_Timer = None, nc_AgentTask = None \<rparr> \<rparr>"

definition example_initiated :: WorkflowProcessInstance where
  "example_initiated = example_process ''all'' 0 \<lparr> wp_InitiatorID := ''a'' \<rparr>"

theorem electorate_is_what_resolvers_find_witness:
  "\<exists>rs. resolveApprovalAssignees example_identity example_initiated example_voting_node = Inr rs \<and>
     map rv_UserID rs = [''a'', ''b'', ''c''] \<and> map rv_ResolverKey rs = [''users'', ''users'', ''manager_chain''] \<and>
     WorkflowValidateApprovalAssigneeCount example_voting_node (int (length rs)) = None"
proof -
  have e: "map_sum (\<lambda>e. ()) (\<lambda>rs. (map rv_UserID rs, map rv_ResolverKey rs))
       (resolveApprovalAssignees example_identity example_initiated example_voting_node) =
     Inr ([''a'', ''b'', ''c''], [''users'', ''users'', ''manager_chain''])"
    by code_simp
  then obtain rs where rs: "resolveApprovalAssignees example_identity example_initiated example_voting_node = Inr rs"
    by (cases "resolveApprovalAssignees example_identity example_initiated example_voting_node") simp_all
  from electorate_is_what_resolvers_find [OF rs] e rs show ?thesis by auto
qed

theorem manager_chain_bounded_witness:
  "\<exists>rs. resolveManagerChain example_identity example_initiated (example_resolvers ! 1) 1 = Inr rs \<and>
     map rv_UserID rs = [''b'', ''c''] \<and> distinct (map rv_UserID rs)"
proof -
  have e: "map_sum (\<lambda>e. ()) (map rv_UserID) (resolveManagerChain example_identity example_initiated (example_resolvers ! 1) 1) =
     Inr [''b'', ''c'']"
    by code_simp
  then obtain rs where rs: "resolveManagerChain example_identity example_initiated (example_resolvers ! 1) 1 = Inr rs"
    by (cases "resolveManagerChain example_identity example_initiated (example_resolvers ! 1) 1") simp_all
  from manager_chain_bounded [OF rs] e rs show ?thesis by auto
qed

end
