(* ===== verification/Workflow_Runtime.thy ===== *)
theory Workflow_Runtime
  imports Workflow_Assignees Workflow_Graph "HOL-Library.State_Monad"
begin

text \<open>
  What the parts of the process engine share: its state (the tables of the workflow store, the
  number of clock readings, the sequence of generated ids) as a state monad, the dependencies it is
  given, events, node instances and the insertion of approval tasks
  (\<open>workflow_process_engine_application_service.go\<close>, \<open>workflow_process_runtime_application_service.go\<close>,
  \<open>workflow_process_notification_application_service.go\<close>).

  Parameters are clock, context, action and agent invocation, timers, the notification compiler,
  and the evaluation of conditions and templates. \<open>db_steps\<close> says that a computation changes the
  tables only by steps of the store.
\<close>

subsection \<open>State and environment\<close>

record engine_state =
  es_DB :: workflow_db
  es_Tick :: nat
  es_Sequence :: nat

type_synonym 'a engine = "(engine_state, 'a) state"

text \<open>Of a principal, the members the engine reads; \<open>pr_System\<close> says that its system scope is valid.\<close>

record Principal =
  pr_WorkspaceID :: string
  pr_UserID :: string
  pr_RoleKey :: string
  pr_Known :: bool
  pr_System :: bool

record WorkflowBusinessActionInvocation =
  iv_ActionKey :: string
  iv_ObjectKey :: string
  iv_RecordID :: string
  iv_Input :: data
  iv_Principal :: Principal
  iv_ProcessID :: string
  iv_NodeID :: string
  iv_IdempotencyKey :: string

text \<open>The record of a result is given by its id, where there is one.\<close>

record WorkflowBusinessActionInvocationResult =
  ir_InvocationID :: string
  ir_Status :: string
  ir_Output :: data
  ir_ErrorCode :: string
  ir_Retryable :: bool
  ir_OutboxIDs :: "string list"
  ir_RecordID :: "string option"

record WorkflowWaitTimerRequest =
  tw_WorkspaceID :: string
  tw_ProcessID :: string
  tw_NodeID :: string
  tw_ObjectKey :: string
  tw_RecordID :: string
  tw_Contract :: WorkflowTimerNodeContract
  tw_Variables :: data
  tw_CreatedAt :: int

record WorkflowApprovalDeadlineTimerRequest =
  td_WorkspaceID :: string
  td_ProcessID :: string
  td_NodeID :: string
  td_TaskID :: string
  td_Phase :: string
  td_DueAt :: int
  td_CreatedAt :: int

text \<open>Of the preparation of an agent task, what the handler computes.\<close>

record WorkflowAgentTaskPreparation =
  ap_RunID :: string
  ap_WorkspaceID :: string
  ap_ProcessID :: string
  ap_NodeInstanceID :: string
  ap_NodeID :: string
  ap_Iteration :: int
  ap_DefinitionVersionID :: string
  ap_DefinitionSnapshotHash :: string
  ap_Contract :: WorkflowAgentTaskNodeContract
  ap_Input :: data
  ap_Initiator :: Principal

record NotificationIntent =
  ni_ID :: string
  ni_WorkspaceID :: string
  ni_SourceEventID :: string
  ni_EventType :: string
  ni_RecipientUserIDs :: "string list"
  ni_SubjectType :: string
  ni_SubjectID :: string
  ni_SubjectVersion :: string
  ni_GroupKey :: string
  ni_ActionState :: string
  ni_OccurredAt :: string
  ni_ExpiresAt :: string
  ni_Locale :: string
  ni_Variables :: data

text \<open>
  \<open>ee_Err\<close> is the error of the context at a clock reading, \<open>ee_Invoke\<close> an action, which may itself
  change the tables, \<open>ee_StartAgentTask\<close> the start of an agent task, which answers
  whether the provider accepted or runs it, and its external run, \<open>ee_Sha256\<close> the hexadecimal digest, \<open>ee_EvidenceValue\<close> and \<open>ee_AssigneesValue\<close> structured
  values as entries of event metadata, \<open>ee_Fingerprint\<close> the fingerprint of a command, its target, the key
  of its caller and its payload (from the foundation library). Time-outs of actions are the action's matter.
\<close>

record engine_env =
  ee_Store :: Workflow_Store.workflow_env
  ee_Assignees :: assignee_env
  ee_Now :: "nat \<Rightarrow> int"
  ee_Err :: "nat \<Rightarrow> engine_error option"
  ee_Condition :: "WorkflowGraphNode \<Rightarrow> data \<Rightarrow> bool"
  ee_RenderString :: "string \<Rightarrow> data \<Rightarrow> Principal \<Rightarrow> string"
  ee_RenderData :: "data \<Rightarrow> data \<Rightarrow> Principal \<Rightarrow> data"
  ee_ActionPrincipal :: "WorkflowSchema \<Rightarrow> Principal \<Rightarrow> string \<Rightarrow> engine_error + Principal"
  ee_Invoke :: "WorkflowBusinessActionInvocation \<Rightarrow> (WorkflowBusinessActionInvocationResult \<times> engine_error option) engine"
  ee_HasDecisions :: bool
  ee_HasStateStore :: bool
  ee_HasWorkers :: bool
  ee_HasRoutes :: bool
  ee_StartAgentTask :: "(WorkflowAgentTaskPreparation \<Rightarrow> (engine_error + bool \<times> string) engine) option"
  ee_Sha256 :: "string \<Rightarrow> string"
  ee_WaitTimers :: "(WorkflowWaitTimerRequest \<Rightarrow> engine_error + string) option"
  ee_DeadlineTimers :: "(WorkflowApprovalDeadlineTimerRequest \<Rightarrow> engine_error option) option"
  ee_CompileNotification :: "(NotificationIntent \<Rightarrow> engine_error + NotificationEvent) option"
  ee_TaskNotificationCommit :: bool
  ee_EvidenceValue :: "AssigneeEvidence \<Rightarrow> gval"
  ee_AssigneesValue :: "ResolvedAssignee list \<Rightarrow> gval"
  ee_DefinitionHash :: "WorkflowSchema \<Rightarrow> string"
  ee_Fingerprint :: "string \<Rightarrow> string \<Rightarrow> string \<Rightarrow> data \<Rightarrow> string"

abbreviation ret :: "'a \<Rightarrow> 'a engine" where
  "ret \<equiv> State_Monad.return"

text \<open>\<open>if err != nil { return err }\<close> in the middle of a handler.\<close>

definition tries :: "('e + 'a) engine \<Rightarrow> ('a \<Rightarrow> ('e + 'b) engine) \<Rightarrow> ('e + 'b) engine" where
  "tries m f = do { r \<leftarrow> m; (case r of Inl e \<Rightarrow> ret (Inl e) | Inr x \<Rightarrow> f x) }"

fun tries_each :: "(nat \<Rightarrow> 'a \<Rightarrow> ('e + unit) engine) \<Rightarrow> nat \<Rightarrow> 'a list \<Rightarrow> ('e + unit) engine" where
  "tries_each f i [] = ret (Inr ())"
| "tries_each f i (x # xs) = tries (f i x) (\<lambda>_. tries_each f (Suc i) xs)"

definition check :: "'e option \<Rightarrow> ('e + unit) engine" where
  "check e = ret (case e of None \<Rightarrow> Inr () | Some x \<Rightarrow> Inl x)"

definition clock :: "engine_env \<Rightarrow> int engine" where
  "clock env = do { s \<leftarrow> State_Monad.get; _ \<leftarrow> State_Monad.set (s \<lparr> es_Tick := Suc (es_Tick s) \<rparr>); ret (ee_Now env (es_Tick s)) }"

definition now_text :: "engine_env \<Rightarrow> string engine" where
  "now_text env = do { t \<leftarrow> clock env; ret (format_rfc3339nano t) }"

definition read_db :: "(workflow_db \<Rightarrow> 'a) \<Rightarrow> 'a engine" where
  "read_db f = do { s \<leftarrow> State_Monad.get; ret (f (es_DB s)) }"

definition store :: "tx \<Rightarrow> workflow_error option engine" where
  "store t = do { s \<leftarrow> State_Monad.get; _ \<leftarrow> State_Monad.set (s \<lparr> es_DB := fst (stmt t (es_DB s)) \<rparr>); ret (snd (stmt t (es_DB s))) }"

text \<open>A transaction of the store, with what it answers.\<close>

definition transact :: "(workflow_db \<Rightarrow> workflow_db \<times> 'a) \<Rightarrow> 'a engine" where
  "transact f = do { s \<leftarrow> State_Monad.get; _ \<leftarrow> State_Monad.set (s \<lparr> es_DB := fst (f (es_DB s)) \<rparr>); ret (snd (f (es_DB s))) }"

text \<open>A read or a transaction that answers an error of the store: the error is internal.\<close>

definition reads_or :: "string \<Rightarrow> (workflow_error + 'a) engine \<Rightarrow> (engine_error + 'a) engine" where
  "reads_or op m = do { r \<leftarrow> m; ret (case r of Inl e \<Rightarrow> Inl (InternalErr op (Some e)) | Inr x \<Rightarrow> Inr x) }"

text \<open>A statement whose error becomes an internal error of the named operation.\<close>

definition internal :: "string \<Rightarrow> workflow_error option \<Rightarrow> engine_error option" where
  "internal op e = map_option (\<lambda>c. InternalErr op (Some c)) e"

definition wrap_internal :: "string \<Rightarrow> engine_error \<Rightarrow> engine_error" where
  "wrap_internal op e = InternalErr op (case e of InternalErr _ c \<Rightarrow> c | _ \<Rightarrow> None)"

definition store_or :: "string \<Rightarrow> tx \<Rightarrow> (engine_error + unit) engine" where
  "store_or op t = do { e \<leftarrow> store t; check (internal op e) }"

text \<open>\<open>workflowProcessID\<close>: the prefix, a reading of the clock and the process-wide sequence.\<close>

definition workflowProcessID :: "engine_env \<Rightarrow> string \<Rightarrow> string engine" where
  "workflowProcessID env pre = do {
     t \<leftarrow> clock env;
     s \<leftarrow> State_Monad.get;
     _ \<leftarrow> State_Monad.set (s \<lparr> es_Sequence := Suc (es_Sequence s) \<rparr>);
     ret (pre @ ''_'' @ itoa t @ ''_'' @ itoa (int (Suc (es_Sequence s)))) }"

definition workflowAuthorizeCommand :: "Principal \<Rightarrow> engine_error option" where
  "workflowAuthorizeCommand actor =
     (if pr_Known actor \<and> (pr_System actor \<or> trim_space (pr_WorkspaceID actor) \<noteq> []) then None
      else Some (workflowError KindForbidden ''backend.workspace_scope_required'' []))"

definition workflowAuthorizeQuery :: "Principal \<Rightarrow> engine_error option" where
  "workflowAuthorizeQuery actor =
     (if pr_Known actor \<and> (pr_System actor \<or> trim_space (pr_WorkspaceID actor) \<noteq> []) then None
      else Some (workflowError KindForbidden ''backend.workspace_scope_required'' []))"

definition forbidden :: "string \<Rightarrow> engine_error" where
  "forbidden code = workflowError KindForbidden code []"

definition notFound :: "string \<Rightarrow> engine_error" where
  "notFound code = workflowError KindNotFound code []"

definition conflict :: "string \<Rightarrow> string list \<Rightarrow> engine_error" where
  "conflict code params = workflowError KindConflict code params"

subsection \<open>Events, node instances, failures\<close>

definition appendEvent ::
    "engine_env \<Rightarrow> string \<Rightarrow> string \<Rightarrow> string \<Rightarrow> string \<Rightarrow> string \<Rightarrow> string \<Rightarrow> string \<Rightarrow> data \<Rightarrow> unit engine" where
  "appendEvent env workspaceID processID nodeID taskID event actorID summary metadata = do {
     i \<leftarrow> workflowProcessID env ''event'';
     now \<leftarrow> now_text env;
     _ \<leftarrow> store (InsertEvent (ee_Store env) workspaceID \<lparr> ev_WorkspaceID = workspaceID, ev_ID = i, ev_ProcessID = processID,
       ev_NodeID = nodeID, ev_TaskID = taskID, ev_Event = event, ev_ActorID = valueOrDefault actorID ''system'',
       ev_Summary = summary, ev_Metadata = WorkflowCloneMap metadata, ev_CreatedAt = now \<rparr>);
     ret () }"

definition nextNodeIteration :: "engine_env \<Rightarrow> string \<Rightarrow> string \<Rightarrow> string \<Rightarrow> int engine" where
  "nextNodeIteration env workspaceID processID nodeID = read_db (\<lambda>db.
     (case ListNodes (ee_Store env) workspaceID processID db of
        Inl e \<Rightarrow> 1
      | Inr existing \<Rightarrow> fold (\<lambda>x n. if wn_NodeID x = nodeID \<and> wn_Iteration x \<ge> n then wn_Iteration x + 1 else n) existing 1))"

definition newNodeInstance ::
    "engine_env \<Rightarrow> string \<Rightarrow> string \<Rightarrow> WorkflowGraphNode \<Rightarrow> string \<Rightarrow> data \<Rightarrow> data \<Rightarrow> WorkflowNodeInstance engine" where
  "newNodeInstance env workspaceID processID node status input output = do {
     now \<leftarrow> now_text env;
     iteration \<leftarrow> nextNodeIteration env workspaceID processID (gn_ID node);
     i \<leftarrow> workflowProcessID env ''node'';
     ret \<lparr> wn_WorkspaceID = workspaceID, wn_ID = i, wn_ProcessID = processID, wn_NodeID = gn_ID node, wn_NodeType = gn_Type node,
       wn_Iteration = iteration, wn_Status = status, wn_Input = WorkflowCloneMap input, wn_Output = WorkflowCloneMap output,
       wn_ErrorCode = [], wn_StartedAt = now,
       wn_CompletedAt = (if status \<noteq> ''waiting'' \<and> status \<noteq> ''running'' then now else []) \<rparr> }"

definition failProcess ::
    "engine_env \<Rightarrow> WorkflowProcessInstance \<Rightarrow> string \<Rightarrow> string \<Rightarrow> (WorkflowProcessInstance \<times> engine_error option) engine" where
  "failProcess env process code actorID = do {
     now \<leftarrow> now_text env;
     let process = process \<lparr> wp_Status := ''configuration_error'',
       wp_ErrorCode := valueOrDefault (trim_space code) ''backend.workflow.process_failed'', wp_UpdatedAt := now, wp_CompletedAt := now \<rparr>;
     _ \<leftarrow> store (UpdateProcess (ee_Store env) (wp_WorkspaceID process) process);
     _ \<leftarrow> appendEvent env (wp_WorkspaceID process) (wp_ID process) [] [] ''process_failed'' actorID (wp_ErrorCode process) [];
     ret (process, Some (bad_request (wp_ErrorCode process) [])) }"

definition recordCompletedNode ::
    "engine_env \<Rightarrow> WorkflowProcessInstance \<Rightarrow> WorkflowGraphNode \<Rightarrow> data \<Rightarrow> data \<Rightarrow> string \<Rightarrow> (engine_error + unit) engine" where
  "recordCompletedNode env process node input output actorID = do {
     i \<leftarrow> newNodeInstance env (wp_WorkspaceID process) (wp_ID process) node ''success'' input output;
     tries (store_or ''insert workflow node'' (InsertNode (ee_Store env) (wp_WorkspaceID process) i)) (\<lambda>_. do {
       _ \<leftarrow> appendEvent env (wp_WorkspaceID process) (wp_ID process) (gn_ID node) [] ''node_completed'' actorID (gn_Name node)
         [(''node_type'', VStr (gn_Type node))];
       ret (Inr ()) }) }"

definition recordFailedNode ::
    "engine_env \<Rightarrow> WorkflowProcessInstance \<Rightarrow> WorkflowGraphNode \<Rightarrow> data \<Rightarrow> engine_error \<Rightarrow> string \<Rightarrow> unit engine" where
  "recordFailedNode env process node input nodeErr actorID = do {
     i \<leftarrow> newNodeInstance env (wp_WorkspaceID process) (wp_ID process) node ''failed'' input [];
     now \<leftarrow> now_text env;
     e \<leftarrow> store (InsertNode (ee_Store env) (wp_WorkspaceID process)
       (i \<lparr> wn_ErrorCode := serviceErrorCode nodeErr, wn_CompletedAt := now \<rparr>));
     (case e of Some _ \<Rightarrow> ret ()
      | None \<Rightarrow> appendEvent env (wp_WorkspaceID process) (wp_ID process) (gn_ID node) [] ''node_failed'' actorID
          (serviceErrorCode nodeErr) [(''node_type'', VStr (gn_Type node))]) }"

subsection \<open>Approval tasks\<close>

definition assigned_intent :: "WorkflowProcessInstance \<Rightarrow> WorkflowTask \<Rightarrow> string \<Rightarrow> NotificationIntent" where
  "assigned_intent process task locale0 = \<lparr> ni_ID = ''notification_'' @ wt_ID task @ ''_assigned'',
     ni_WorkspaceID = wp_WorkspaceID process, ni_SourceEventID = wt_ID task @ '':assigned:'' @ wt_UpdatedAt task,
     ni_EventType = ''workflow.task.assigned'', ni_RecipientUserIDs = [wt_AssigneeUserID task], ni_SubjectType = ''workflow_task'',
     ni_SubjectID = wt_ID task, ni_SubjectVersion = wt_UpdatedAt task, ni_GroupKey = ''workflow_task:'' @ trim_space (wt_ID task),
     ni_ActionState = [], ni_OccurredAt = wt_CreatedAt task, ni_ExpiresAt = wt_DueAt task, ni_Locale = locale0,
     ni_Variables = [(''task_title'', VStr (wt_Title task)), (''workflow_name'', VStr (wp_WorkflowName process)),
       (''due_at'', VStr (wt_DueAt task))] \<rparr>"

text \<open>A task that is not open yet is stored without a notification.\<close>

definition insertApprovalTaskWithNotification ::
    "engine_env \<Rightarrow> WorkflowProcessInstance \<Rightarrow> WorkflowTask \<Rightarrow> string \<Rightarrow> engine_error option engine" where
  "insertApprovalTaskWithNotification env process task locale0 = (let
     plain = (do { e \<leftarrow> store (InsertTask (ee_Store env) (wp_WorkspaceID process) task); ret (internal [] e) });
     incomplete = ret (Some (OtherErr ''workflow notification transaction dependencies are incomplete''))
   in if wt_Status task \<noteq> ''open'' then plain
      else (case ee_CompileNotification env of
          None \<Rightarrow> if ee_TaskNotificationCommit env then incomplete else plain
        | Some compiler \<Rightarrow> if \<not> ee_TaskNotificationCommit env then incomplete
            else (case compiler (assigned_intent process task locale0) of
                Inl e \<Rightarrow> ret (Some e)
              | Inr event \<Rightarrow> do {
                  e \<leftarrow> store (commitWorkflowTaskNotification (ee_Store env) (wp_WorkspaceID process) task event False);
                  ret (internal [] e) })))"

subsection \<open>Running the handlers\<close>

text \<open>The runs that end with a value, backwards through the handler.\<close>

lemma run_tries: "run_state (tries m f) s = (case run_state m s of (Inl e, s') \<Rightarrow> (Inl e, s') | (Inr x, s') \<Rightarrow> run_state (f x) s')"
  by (simp add: tries_def split: prod.split sum.split)

lemma run_tries_Inr: "run_state (tries m f) s = (Inr y, t) \<longleftrightarrow>
    (\<exists>x s'. run_state m s = (Inr x, s') \<and> run_state (f x) s' = (Inr y, t))"
  by (auto simp: run_tries split: prod.split sum.split)

lemma run_bind_eq: "run_state (State_Monad.bind m f) s = (y, t) \<longleftrightarrow> (\<exists>x s'. run_state m s = (x, s') \<and> run_state (f x) s' = (y, t))"
  by (auto split: prod.split)

lemma map_sum_Inr: "map_sum f g r = Inr y \<longleftrightarrow> (\<exists>x. r = Inr x \<and> y = g x)"
  by (cases r) auto

lemma run_check [simp]: "run_state (check e) s = ((case e of None \<Rightarrow> Inr () | Some x \<Rightarrow> Inl x), s)"
  by (simp add: check_def)

lemma run_read_db [simp]: "run_state (read_db f) s = (f (es_DB s), s)"
  by (simp add: read_db_def)

lemma run_clock [simp]: "run_state (clock env) s = (ee_Now env (es_Tick s), s \<lparr> es_Tick := Suc (es_Tick s) \<rparr>)"
  by (simp add: clock_def)

lemma run_now [simp]: "run_state (now_text env) s = (format_rfc3339nano (ee_Now env (es_Tick s)), s \<lparr> es_Tick := Suc (es_Tick s) \<rparr>)"
  by (simp add: now_text_def)

lemma run_process_id: "run_state (workflowProcessID env pre) s =
    (pre @ ''_'' @ itoa (ee_Now env (es_Tick s)) @ ''_'' @ itoa (int (Suc (es_Sequence s))),
     s \<lparr> es_Tick := Suc (es_Tick s), es_Sequence := Suc (es_Sequence s) \<rparr>)"
  by (simp add: workflowProcessID_def)

lemma run_transact [simp]: "run_state (transact f) s = (snd (f (es_DB s)), s \<lparr> es_DB := fst (f (es_DB s)) \<rparr>)"
  by (simp add: transact_def)

lemma run_store [simp]: "run_state (store t) s = (snd (stmt t (es_DB s)), s \<lparr> es_DB := fst (stmt t (es_DB s)) \<rparr>)"
  by (simp add: store_def)

subsection \<open>Computations that keep to the steps of the store\<close>

text \<open>
  \<open>keeps_to R m\<close>: whatever the state, what \<open>m\<close> does to the tables is related by \<open>R\<close>. A reflexive and
  transitive relation is kept by a handler when the calls of the handler keep it.
\<close>

definition keeps_to :: "(workflow_db \<Rightarrow> workflow_db \<Rightarrow> bool) \<Rightarrow> 'a engine \<Rightarrow> bool" where
  "keeps_to R m \<longleftrightarrow> (\<forall>s. R (es_DB s) (es_DB (snd (run_state m s))))"

lemma keeps_toD: "keeps_to R m \<Longrightarrow> run_state m s = (x, s') \<Longrightarrow> R (es_DB s) (es_DB s')"
  unfolding keeps_to_def by (metis snd_conv)

text \<open>What the value of a computation satisfies, whatever the state it starts from.\<close>

definition yields :: "'a engine \<Rightarrow> ('a \<Rightarrow> bool) \<Rightarrow> bool" where
  "yields m P \<longleftrightarrow> (\<forall>s. P (fst (run_state m s)))"

lemma yieldsD: "yields m P \<Longrightarrow> run_state m s = (x, s') \<Longrightarrow> P x"
  unfolding yields_def by (metis fst_conv)

lemma yields_return: "P x \<Longrightarrow> yields (State_Monad.return x) P"
  by (simp add: yields_def)

lemma yields_bind: "yields m Q \<Longrightarrow> (\<And>x. Q x \<Longrightarrow> yields (f x) P) \<Longrightarrow> yields (State_Monad.bind m f) P"
  unfolding yields_def
proof
  fix s
  assume m: "\<forall>s. Q (fst (run_state m s))" and f: "\<And>x. Q x \<Longrightarrow> \<forall>s. P (fst (run_state (f x) s))"
  obtain x s' where x: "run_state m s = (x, s')" by fastforce
  with m have "Q x" by (metis fst_conv)
  from f [OF this] x show "P (fst (run_state (State_Monad.bind m f) s))" by simp
qed

lemma yields_skip: "(\<And>x. yields (f x) P) \<Longrightarrow> yields (State_Monad.bind m f) P"
  by (auto simp: yields_def split: prod.split)

lemma yields_weaken: "yields m Q \<Longrightarrow> (\<And>x. Q x \<Longrightarrow> P x) \<Longrightarrow> yields m P"
  by (simp add: yields_def)

locale table_relation =
  fixes R :: "workflow_db \<Rightarrow> workflow_db \<Rightarrow> bool"
  assumes refl: "R db db"
    and trans: "R a b \<Longrightarrow> R b c \<Longrightarrow> R a c"
begin

lemma keeps_same: "(\<And>s. es_DB (snd (run_state m s)) = es_DB s) \<Longrightarrow> keeps_to R m"
  by (simp add: keeps_to_def refl)

lemma keeps_return: "keeps_to R (State_Monad.return x)"
  by (rule keeps_same) simp

lemma keeps_bind_yields:
  assumes "yields m Q" and "keeps_to R m" and "\<And>x. Q x \<Longrightarrow> keeps_to R (f x)"
  shows "keeps_to R (State_Monad.bind m f)"
  unfolding keeps_to_def
proof
  fix s
  obtain x s' where m: "run_state m s = (x, s')" by fastforce
  have "R (es_DB s') (es_DB (snd (run_state (f x) s')))" using assms(3) [OF yieldsD [OF assms(1) m]] by (simp add: keeps_to_def)
  from trans [OF keeps_toD [OF assms(2) m] this]
  show "R (es_DB s) (es_DB (snd (run_state (State_Monad.bind m f) s)))" by (simp add: m)
qed

lemma keeps_bind: "keeps_to R m \<Longrightarrow> (\<And>x. keeps_to R (f x)) \<Longrightarrow> keeps_to R (State_Monad.bind m f)"
  by (rule keeps_bind_yields [where Q = "\<lambda>_. True"]) (simp_all add: yields_def)

lemma keeps_if: "keeps_to R a \<Longrightarrow> keeps_to R b \<Longrightarrow> keeps_to R (if c then a else b)"
  by simp

lemma keeps_case_option: "keeps_to R a \<Longrightarrow> (\<And>x. keeps_to R (f x)) \<Longrightarrow> keeps_to R (case v of None \<Rightarrow> a | Some x \<Rightarrow> f x)"
  by (cases v) simp_all

lemma keeps_case_sum: "(\<And>x. keeps_to R (f x)) \<Longrightarrow> (\<And>x. keeps_to R (g x)) \<Longrightarrow> keeps_to R (case v of Inl x \<Rightarrow> f x | Inr x \<Rightarrow> g x)"
  by (cases v) simp_all

lemma keeps_case_prod: "(\<And>x y. keeps_to R (f x y)) \<Longrightarrow> keeps_to R (case v of (x, y) \<Rightarrow> f x y)"
  by (cases v) simp

lemma keeps_tries: "keeps_to R m \<Longrightarrow> (\<And>x. keeps_to R (f x)) \<Longrightarrow> keeps_to R (tries m f)"
  unfolding tries_def by (intro keeps_bind keeps_case_sum keeps_return)

lemma keeps_tries_each: "(\<And>i x. keeps_to R (f i x)) \<Longrightarrow> keeps_to R (tries_each f i xs)"
  by (induction xs arbitrary: i) (auto intro!: keeps_tries keeps_return)

lemma keeps_clock: "keeps_to R (clock env)"
  by (rule keeps_same) (simp add: clock_def)

lemma keeps_read: "keeps_to R (read_db f)"
  by (rule keeps_same) (simp add: read_db_def)

lemma keeps_reads_or: "keeps_to R m \<Longrightarrow> keeps_to R (reads_or op m)"
  unfolding reads_or_def by (intro keeps_bind keeps_case_sum keeps_return)

lemma keeps_check: "keeps_to R (check e)"
  unfolding check_def by (intro keeps_case_option keeps_return)

lemma keeps_store_or: "keeps_to R (store t) \<Longrightarrow> keeps_to R (store_or op t)"
  unfolding store_or_def by (intro keeps_bind keeps_check keeps_case_option keeps_return)

lemma keeps_now: "keeps_to R (now_text env)"
  unfolding now_text_def by (intro keeps_bind keeps_clock keeps_return)

lemma keeps_id: "keeps_to R (workflowProcessID env pre)"
  by (rule keeps_same) (simp add: run_process_id)

lemma keeps_new_node: "keeps_to R (nextNodeIteration env w p i)" "keeps_to R (newNodeInstance env w p node st inp outp)"
proof -
  show iteration: "keeps_to R (nextNodeIteration env w p i)" for i unfolding nextNodeIteration_def by (rule keeps_read)
  show "keeps_to R (newNodeInstance env w p node st inp outp)"
    unfolding newNodeInstance_def by (intro keeps_bind keeps_now keeps_id keeps_return iteration)
qed

lemmas keeps_rules = keeps_return keeps_bind keeps_if keeps_case_option keeps_case_sum keeps_case_prod keeps_tries keeps_tries_each
  keeps_clock keeps_read keeps_reads_or keeps_check keeps_store_or keeps_now keeps_id keeps_new_node

end

text \<open>The steps of the store, taken any number of times.\<close>

abbreviation db_steps :: "'a engine \<Rightarrow> bool" where
  "db_steps \<equiv> keeps_to (workflow_step\<^sup>*\<^sup>*)"

interpretation stepping: table_relation "workflow_step\<^sup>*\<^sup>*"
  by unfold_locales auto

named_theorems steps

lemmas db_steps_def = keeps_to_def [of "workflow_step\<^sup>*\<^sup>*"]
lemmas db_stepsD = keeps_toD [of "workflow_step\<^sup>*\<^sup>*"]
lemmas db_steps_return = stepping.keeps_return
lemmas db_steps_bind = stepping.keeps_bind
lemmas db_steps_bind_yields = stepping.keeps_bind_yields
lemmas db_steps_rules [steps] = stepping.keeps_rules

lemma db_steps_store:
  assumes "\<And>db. workflow_step db (fst (stmt t db))"
  shows "db_steps (store t)"
  using assms by (auto simp: db_steps_def store_def)

lemma db_steps_statements [steps]:
  "db_steps (store (InsertProcess env w p))" "db_steps (store (UpdateProcess env w p))" "db_steps (store (InsertNode env w n))"
  "db_steps (store (UpdateNode env w n))" "db_steps (store (InsertTask env w tk))" "db_steps (store (UpdateTask env w tk))"
  "db_steps (store (InsertEvent env w ev))" "db_steps (store (commitWorkflowTaskNotification env w tk nv b))"
  by (rule db_steps_store, rule workflow_step.Statement, blast)+

lemma db_steps_transact:
  assumes "\<And>db. workflow_step db (fst (f db))"
  shows "db_steps (transact f)"
  using assms by (auto simp: db_steps_def transact_def)

lemma db_steps_transactions [steps]:
  "db_steps (transact (UpdateRouteStepCAS env w st u))" "db_steps (transact (CommitWorkflowState env sc))"
  "db_steps (transact (ClaimWorkflowTimer env w p n u))" "db_steps (transact (CommitWorkflowWithdrawal env wd))"
  "db_steps (transact (UpdateExecutionWhere_store env w e c))"
  by (rule db_steps_transact, rule workflow_step.intros)+

lemma db_steps_update_execution [steps]: "db_steps (transact (UpdateExecution_store env w e))"
  by (rule db_steps_transact, unfold fst_update_execution, rule workflow_step.intros)

lemma db_steps_decision [steps]:
  "dc_ExpectedTaskStatus c = ''open'' \<Longrightarrow> db_steps (transact (CommitWorkflowDecision env c))"
  by (rule db_steps_transact, rule workflow_step.Decision)

lemma db_steps_parts [steps]:
  "db_steps (appendEvent env w p n t ev a sm md)" "db_steps (failProcess env process code a)"
  "db_steps (recordCompletedNode env process node inp outp a)" "db_steps (recordFailedNode env process node inp e a)"
  "db_steps (insertApprovalTaskWithNotification env process task l)"
  unfolding appendEvent_def failProcess_def recordCompletedNode_def
    recordFailedNode_def insertApprovalTaskWithNotification_def Let_def
  by (intro steps)+

subsection \<open>An engine for the witnesses\<close>

definition example_engine :: engine_env where
  "example_engine = \<lparr> ee_Store = example_workflow_env, ee_Assignees = example_identity, ee_Now = (\<lambda>n. int n * 1000000000),
     ee_Err = (\<lambda>_. None), ee_Condition = (\<lambda>_ _. True), ee_RenderString = (\<lambda>s _ _. s), ee_RenderData = (\<lambda>d _ _. d),
     ee_ActionPrincipal = (\<lambda>_ p _. Inr p),
     ee_Invoke = (\<lambda>i. State_Monad.return (\<lparr> ir_InvocationID = ''inv'', ir_Status = ''succeeded'', ir_Output = [], ir_ErrorCode = [],
       ir_Retryable = False, ir_OutboxIDs = [], ir_RecordID = None \<rparr>, None)),
     ee_HasDecisions = True, ee_HasStateStore = True, ee_HasWorkers = True, ee_HasRoutes = True, ee_StartAgentTask = None, ee_Sha256 = (\<lambda>s. s), ee_WaitTimers = None,
     ee_DeadlineTimers = None, ee_CompileNotification = None, ee_TaskNotificationCommit = False, ee_EvidenceValue = (\<lambda>_. VNil),
     ee_AssigneesValue = (\<lambda>_. VNil), ee_DefinitionHash = (\<lambda>_. ''hash''),
     ee_Fingerprint = (\<lambda>scope i key d. scope @ '':'' @ i @ '':'' @ key @ '':'' @ concat (map (sprint \<circ> snd) d)) \<rparr>"

definition example_actor :: "string \<Rightarrow> Principal" where
  "example_actor user = \<lparr> pr_WorkspaceID = ''w'', pr_UserID = user, pr_RoleKey = [], pr_Known = True, pr_System = False \<rparr>"

definition empty_state :: engine_state where
  "empty_state = \<lparr> es_DB = example_db \<lparr> db_Processes := [], db_Tasks := [] \<rparr>, es_Tick = 0, es_Sequence = 0 \<rparr>"

text \<open>
  Evaluation of a run by rewriting: the operations of the store on the example, in the order the
  handlers call them. The weak congruences keep the rewriting from the rest of a handler until the
  call before it has been evaluated.
\<close>

lemma bind_weak: "m = m' \<Longrightarrow> State_Monad.bind m f = State_Monad.bind m' f"
  by simp

lemma tries_weak: "m = m' \<Longrightarrow> tries m f = tries m' f"
  by simp

lemma example_workspace [simp]: "requireWorkflowWorkspaceID ''w'' = Inr ''w''"
  by code_simp

lemmas evaluate = run_tries run_process_id store_or_def internal_def reads_or_def Let_def stmt_def in_workspace_def read_in_def
  InsertProcess_def UpdateProcess_def InsertNode_def UpdateNode_def InsertTask_def InsertEvent_def insertTx_def updateTx_def insertNodeTx_def
  insertEventTx_def insertTaskTx_def updateProcessTx_def ListNodes_def newNodeInstance_def nextNodeIteration_def appendEvent_def
  recordCompletedNode_def failProcess_def example_engine_def example_workflow_env_def empty_state_def example_db_def

end
