(* ===== verification/Workflow_Route.thy ===== *)
theory Workflow_Route
  imports Workflow_Runtime
begin

text \<open>
  Routes authored per process (\<open>workflow_route_start_application_service.go\<close>,
  \<open>workflow_route_activation_application_service.go\<close> and \<open>workflow_route_projection.go\<close>): the electorate a
  route may draw from, the staging of a start with its steps, and the activation of the first step
  by the engine.

  The lemmas show that a staged route is complete and can be decided: its steps are numbered from
  one, have distinct keys and ids, and every step that is not deferred has distinct eligible voters
  and a threshold they can reach.
\<close>

subsection \<open>The electorate of a route\<close>

record WorkflowRouteElectorate =
  el_Known :: "string list"
  el_Active :: "string list"
  el_Eligible :: "(string \<times> WorkflowRouteAssignee) list"

definition workflowRouteStartError :: "string \<Rightarrow> string \<Rightarrow> (string \<times> string) list \<Rightarrow> engine_error" where
  "workflowRouteStartError code fieldPath parameters =
     BusinessErr code (fold (\<lambda>(k, v). AList.update k v) parameters [(''field_path'', fieldPath)])"

definition workflowRouteApprovePermissionRoles :: "WorkflowSchema \<Rightarrow> string list" where
  "workflowRouteApprovePermissionRoles workflow = (case ws_Graph workflow of
      None \<Rightarrow> []
    | Some g \<Rightarrow> sort (filter (\<lambda>k. k \<noteq> []) (concat (map (\<lambda>node. map (\<lambda>r. trim_space (ar_RoleKey r))
        (ac_Resolvers (WorkflowApprovalNodeContract node))) (filter (\<lambda>node. gn_Type node = ''approval'') (gs_Nodes g))))))"

definition or_internal :: "string \<Rightarrow> engine_error + 'a \<Rightarrow> engine_error + 'a" where
  "or_internal op r = (case r of Inl e \<Rightarrow> Inl (wrap_internal op e) | Inr x \<Rightarrow> Inr x)"

definition active_users :: "User list \<Rightarrow> (string \<times> User) list" where
  "active_users users = fold (\<lambda>u. AList.update (us_ID u) u) (filter (\<lambda>u. us_Status u = UserStatusActive) users) []"

definition roles_by_id :: "string list \<Rightarrow> Role list \<Rightarrow> (string \<times> string) list" where
  "roles_by_id roleKeys roles = fold (\<lambda>r. AList.update (ro_ID r) (valueOrDefault (trim_space (ro_Key r)) (ro_ID r)))
     (filter (\<lambda>r. \<exists>wanted \<in> set roleKeys. ro_ID r = wanted \<or> ro_Key r = wanted) roles) []"

definition eligible_assignment :: "(string \<times> User) list \<Rightarrow> (string \<times> string) list \<Rightarrow> UserRoleAssignment \<Rightarrow>
    (string \<times> WorkflowRouteAssignee) list \<Rightarrow> (string \<times> WorkflowRouteAssignee) list" where
  "eligible_assignment active roleByID a eligible =
     (case (map_of roleByID (ua_RoleID a), map_of active (ua_UserID a)) of
        (Some roleKey, Some user) \<Rightarrow> AList.update (ua_UserID a)
          \<lparr> ra_UserID = us_ID user, ra_DisplayName = us_Name user, ra_RoleKey = roleKey \<rparr> eligible
      | _ \<Rightarrow> eligible)"

definition workflowRouteEligibleAssignees :: "assignee_env \<Rightarrow> WorkflowSchema \<Rightarrow> WorkflowApprovalRouteContract \<Rightarrow>
    engine_error + WorkflowRouteElectorate" where
  "workflowRouteEligibleAssignees env workflow route =
     (if \<not> ae_HasIdentity env then Inl (workflowRouteStartError ''backend.workflow.approval_identity_unavailable'' ''route.steps'' [])
      else res_bind (or_internal ''list workflow route users'' (ae_ListUsers env)) (\<lambda>users. (let
        active = active_users users;
        voters = \<lparr> el_Known = map us_ID users, el_Active = map fst active, el_Eligible = [] \<rparr>;
        roleKeys = (if rc_EligibleRoles route = [] then workflowRouteApprovePermissionRoles workflow else rc_EligibleRoles route)
      in if roleKeys = [] then Inr (voters \<lparr> el_Eligible := map (\<lambda>(i, u). (us_ID u,
            \<lparr> ra_UserID = us_ID u, ra_DisplayName = us_Name u, ra_RoleKey = [] \<rparr>)) active \<rparr>)
         else res_bind (or_internal ''list workflow route roles'' (ae_ListRoles env)) (\<lambda>roles.
           res_bind (or_internal ''list workflow route role assignments'' (ae_ListUserRoleAssignments env)) (\<lambda>assignments.
             Inr (voters \<lparr> el_Eligible := fold (eligible_assignment active (roles_by_id roleKeys roles)) assignments [] \<rparr>))))))"

subsection \<open>Validation of a step\<close>

definition indexed :: "string \<Rightarrow> nat \<Rightarrow> string" where
  "indexed field i = field @ ''['' @ itoa (int i) @ '']''"

fun validate_assignees :: "WorkflowRouteElectorate \<Rightarrow> string \<Rightarrow> nat \<Rightarrow> string list \<Rightarrow> string list \<Rightarrow> WorkflowRouteAssignee list \<Rightarrow>
    engine_error + WorkflowRouteAssignee list" where
  "validate_assignees voters field i seen [] assignees = Inr assignees"
| "validate_assignees voters field i seen (raw # rest) assignees = (let
     fieldPath = indexed field i; userID = trim_space raw
   in if userID = [] then Inl (workflowRouteStartError ''backend.workflow.route_assignee_not_found'' fieldPath [])
      else if userID \<in> set seen
        then Inl (workflowRouteStartError ''backend.workflow.route_assignee_duplicate'' fieldPath [(''user_id'', userID)])
      else if userID \<notin> set (el_Known voters)
        then Inl (workflowRouteStartError ''backend.workflow.route_assignee_not_found'' fieldPath [(''user_id'', userID)])
      else if userID \<notin> set (el_Active voters)
        then Inl (workflowRouteStartError ''backend.workflow.route_assignee_inactive'' fieldPath [(''user_id'', userID)])
      else (case map_of (el_Eligible voters) userID of
          None \<Rightarrow> Inl (workflowRouteStartError ''backend.workflow.route_assignee_not_eligible'' fieldPath [(''user_id'', userID)])
        | Some assignee \<Rightarrow> validate_assignees voters field (Suc i) (userID # seen) rest (assignees @ [assignee])))"

definition WorkflowValidateRouteStepAssignees :: "string list \<Rightarrow> WorkflowApprovalRouteContract \<Rightarrow> WorkflowRouteElectorate \<Rightarrow> string \<Rightarrow>
    engine_error + WorkflowRouteAssignee list" where
  "WorkflowValidateRouteStepAssignees userIDs route voters field =
     (if int (length userIDs) > rc_MaxAssigneesPerStep route
        then Inl (workflowRouteStartError ''backend.workflow.route_step_count_invalid'' field
          [(''max'', itoa (rc_MaxAssigneesPerStep route)), (''actual'', itoa (int (length userIDs)))])
      else validate_assignees voters field 0 [] userIDs [])"

definition WorkflowRouteRequiredApprovals :: "string \<Rightarrow> int \<Rightarrow> int \<Rightarrow> string \<Rightarrow> engine_error + int" where
  "WorkflowRouteRequiredApprovals mode authored assignees fieldPath = (let m = WorkflowRouteStepMode mode in
     if m = ''quorum'' then
       (if authored < 1 \<or> authored > assignees
          then Inl (workflowRouteStartError ''backend.workflow.route_required_approvals_invalid'' fieldPath
            [(''min'', ''1''), (''max'', itoa assignees), (''actual'', itoa authored)])
        else Inr authored)
     else if m = ''all'' then
       (if authored \<noteq> 0 \<and> authored \<noteq> assignees
          then Inl (workflowRouteStartError ''backend.workflow.route_required_approvals_invalid'' fieldPath
            [(''expected'', itoa assignees), (''actual'', itoa authored)])
        else Inr assignees)
     else
       (if authored \<noteq> 0 \<and> authored \<noteq> 1
          then Inl (workflowRouteStartError ''backend.workflow.route_required_approvals_invalid'' fieldPath
            [(''expected'', ''1''), (''actual'', itoa authored)])
        else Inr 1))"

subsection \<open>Staging a start\<close>

record WorkflowRouteStartStep =
  st_StepKey :: string
  st_Title :: string
  st_Mode :: string
  st_RequiredApprovals :: int
  st_AssigneeUserIDs :: "string list"
  st_Deferred :: bool

record WorkflowRouteStartRequest =
  sr_WorkflowKey :: string
  sr_ObjectKey :: string
  sr_RecordID :: string
  sr_Steps :: "WorkflowRouteStartStep list"
  sr_Variables :: data
  sr_GrantedWorkflowKeys :: "string list"
  sr_ActionKey :: string
  sr_ExecutionID :: string
  sr_StageIndex :: int

record WorkflowStartCommit =
  wc_Process :: WorkflowProcessInstance
  wc_RouteSteps :: "WorkflowRouteStep list"
  wc_Intent :: WorkflowExecution

definition workflowRouteStartGranted :: "string list \<Rightarrow> string \<Rightarrow> bool" where
  "workflowRouteStartGranted granted workflowKey \<longleftrightarrow>
     trim_space workflowKey \<noteq> [] \<and> (\<exists>v \<in> set granted. trim_space v = workflowKey)"

definition workflowRouteApprovalNode :: "WorkflowSchema \<Rightarrow> engine_error + WorkflowGraphNode \<times> WorkflowApprovalRouteContract" where
  "workflowRouteApprovalNode workflow = (case ws_Graph workflow of
      None \<Rightarrow> Inl (workflowRouteStartError ''backend.workflow.graph_v2_required'' ''workflow_key'' [(''workflow'', ws_Key workflow)])
    | Some g \<Rightarrow> (case List.find (\<lambda>node. gn_Type node = ''approval'' \<and> snd (WorkflowApprovalRoute node) \<and>
          rc_Source (fst (WorkflowApprovalRoute node)) = ''instance'') (gs_Nodes g) of
        Some node \<Rightarrow> Inr (node, fst (WorkflowApprovalRoute node))
      | None \<Rightarrow> Inl (workflowRouteStartError ''backend.workflow.route_not_supported'' ''workflow_key'' [(''workflow'', ws_Key workflow)])))"

definition workflowRouteStartStep :: "nat \<Rightarrow> WorkflowRouteStartStep \<Rightarrow> WorkflowGraphNode \<Rightarrow> WorkflowApprovalRouteContract \<Rightarrow>
    WorkflowRouteElectorate \<Rightarrow> string \<Rightarrow> string \<Rightarrow> engine_error + WorkflowRouteStep" where
  "workflowRouteStartStep index authored node route voters field now = (let
     fieldPath = indexed field index;
     key = trim_space (st_StepKey authored);
     step = zero_step \<lparr> rs_NodeID := gn_ID node, rs_StepNo := int index + 1,
       rs_StepKey := (if key = [] then ''s'' @ itoa (int index + 1) else key),
       rs_Title := valueOrDefault (trim_space (st_Title authored))
         (valueOrDefault (trim_space (ac_Title (WorkflowApprovalNodeContract node))) (gn_Name node)),
       rs_Mode := WorkflowRouteStepMode (st_Mode authored), rs_Status := ''pending'', rs_CreatedAt := now, rs_UpdatedAt := now \<rparr>
   in if st_Deferred authored then
        (if rc_DeferredSteps route \<noteq> ''allow'' \<or> index = 0 \<or> st_AssigneeUserIDs authored \<noteq> []
           then Inl (workflowRouteStartError ''backend.workflow.route_deferred_not_allowed'' (fieldPath @ ''.deferred'')
             [(''step_key'', rs_StepKey step)])
         else Inr (step \<lparr> rs_Status := ''configurable'', rs_RequiredApprovals := st_RequiredApprovals authored \<rparr>))
      else res_bind (WorkflowValidateRouteStepAssignees (st_AssigneeUserIDs authored) route voters (fieldPath @ ''.assignees'')) (\<lambda>assignees.
        if assignees = [] then Inl (workflowRouteStartError ''backend.workflow.route_step_count_invalid'' (fieldPath @ ''.assignees'')
          [(''min'', ''1''), (''actual'', ''0'')])
        else res_bind (WorkflowRouteRequiredApprovals (rs_Mode step) (st_RequiredApprovals authored) (int (length assignees))
            (fieldPath @ ''.required_approvals'')) (\<lambda>required.
          Inr (step \<lparr> rs_AssigneeSnapshot := assignees, rs_RequiredApprovals := required \<rparr>))))"

definition workflowRouteStartProcess :: "engine_env \<Rightarrow> WorkflowSchema \<Rightarrow> WorkflowRouteStartRequest \<Rightarrow> string \<Rightarrow> Principal \<Rightarrow> string \<Rightarrow>
    WorkflowProcessInstance engine" where
  "workflowRouteStartProcess env workflow request recordID actor now = (let
     objectKey = (if trim_space (sr_ObjectKey request) = [] then
         (case ws_TriggerContract workflow of Some t \<Rightarrow> trim_space (tr_ObjectKey t) | None \<Rightarrow> [])
       else trim_space (sr_ObjectKey request));
     v = AList.update ''record_id'' (VStr recordID) (AList.update ''object_key'' (VStr objectKey) (WorkflowCloneMap (sr_Variables request)));
     v = (if pr_UserID actor = [] then v else AList.update ''initiating_user_id'' (VStr (pr_UserID actor)) v);
     v = (if pr_RoleKey actor = [] then v else AList.update ''initiating_role_key'' (VStr (pr_RoleKey actor)) v);
     executionID = trim_space (sr_ExecutionID request)
   in do {
     i \<leftarrow> (if executionID = [] then workflowProcessID env ''process''
       else ret (''process_'' @ executionID @ ''_'' @ itoa (sr_StageIndex request)));
     ret (zero_process \<lparr> wp_WorkspaceID := pr_WorkspaceID actor, wp_ID := i, wp_WorkflowKey := ws_Key workflow,
       wp_WorkflowName := ws_Name workflow, wp_DefinitionVersionID := ws_DefinitionVersionID workflow,
       wp_DefinitionVersion := WorkflowPublishedVersion workflow, wp_DefinitionHash := ee_DefinitionHash env workflow,
       wp_DefinitionSnapshot := workflow, wp_ObjectKey := objectKey, wp_RecordID := recordID, wp_InitiatorID := pr_UserID actor,
       wp_InitiatorRoleKey := pr_RoleKey actor, wp_Status := ''starting'', wp_Variables := v, wp_Result := [],
       wp_CreatedAt := now, wp_UpdatedAt := now \<rparr>) })"

definition WorkflowRouteStartTrigger :: string where
  "WorkflowRouteStartTrigger = ''workflow_route_start''"

definition workflowRouteStartIntent :: "WorkflowSchema \<Rightarrow> WorkflowProcessInstance \<Rightarrow> Principal \<Rightarrow> string \<Rightarrow> WorkflowExecution" where
  "workflowRouteStartIntent workflow process actor now = zero_execution \<lparr> we_WorkspaceID := wp_WorkspaceID process,
     we_ID := ''intent_'' @ wp_ID process, we_WorkflowKey := ws_Key workflow, we_Name := ws_Name workflow,
     we_Trigger := WorkflowRouteStartTrigger, we_Status := ''pending'', we_ActionType := ''workflow_graph'',
     we_Action := WorkflowCloneMap (ws_Action workflow),
     we_Payload := AList.update ''process_id'' (VStr (wp_ID process)) (WorkflowCloneMap (wp_Variables process)),
     we_Result := [(''transactional_intent'', VBool True), (''route_start'', VBool True), (''resume_process_id'', VStr (wp_ID process))],
     we_ProcessID := wp_ID process, we_ObjectKey := wp_ObjectKey process, we_RecordID := wp_RecordID process,
     we_ActorID := pr_UserID actor, we_RunAs := WorkflowRunAs workflow, we_Attempt := 0,
     we_MaxAttempts := WorkflowMaxAttempts workflow, we_Message := ''workflow.message.queued'', we_CreatedAt := now, we_UpdatedAt := now \<rparr>"

text \<open>The steps of the request, one by one; a key that occurred before is refused.\<close>

fun stage_steps :: "(nat \<Rightarrow> WorkflowRouteStartStep \<Rightarrow> engine_error + WorkflowRouteStep) \<Rightarrow> WorkflowProcessInstance \<Rightarrow> string \<Rightarrow> nat \<Rightarrow>
    WorkflowRouteStartStep list \<Rightarrow> WorkflowRouteStep list \<Rightarrow> engine_error + WorkflowRouteStep list" where
  "stage_steps build process workspaceID i [] steps = Inr steps"
| "stage_steps build process workspaceID i (authored # rest) steps = res_bind (build i authored) (\<lambda>step.
     if rs_StepKey step \<in> set (map rs_StepKey steps)
       then Inl (workflowRouteStartError ''backend.workflow.route_step_key_duplicate'' (indexed ''route.steps'' i @ ''.step_key'')
         [(''step_key'', rs_StepKey step)])
     else stage_steps build process workspaceID (Suc i) rest (steps @ [step \<lparr> rs_WorkspaceID := workspaceID,
       rs_ProcessID := wp_ID process, rs_ID := wp_ID process @ ''_step_'' @ itoa (rs_StepNo step) \<rparr>]))"

definition StageWorkflowRouteStart :: "engine_env \<Rightarrow> (string \<Rightarrow> WorkflowSchema option) \<Rightarrow> WorkflowRouteStartRequest \<Rightarrow> Principal \<Rightarrow>
    (engine_error + WorkflowStartCommit) engine" where
  "StageWorkflowRouteStart env registry request actor = tries (check (workflowAuthorizeCommand actor)) (\<lambda>_. (let
     workflowKey = trim_space (sr_WorkflowKey request)
   in if \<not> workflowRouteStartGranted (sr_GrantedWorkflowKeys request) workflowKey
        then ret (Inl (workflowRouteStartError ''backend.action.workflow_grant_denied'' ''workflow_key'' [(''workflow'', workflowKey)]))
      else (case registry workflowKey of
          None \<Rightarrow> ret (Inl (workflowRouteStartError ''backend.workflow.not_found'' ''workflow_key'' [(''workflow'', workflowKey)]))
        | Some workflow \<Rightarrow>
            if \<not> ws_Enabled workflow
              then ret (Inl (workflowRouteStartError ''backend.workflow.not_found'' ''workflow_key'' [(''workflow'', workflowKey)]))
            else tries (ret (workflowRouteApprovalNode workflow)) (\<lambda>(node, route). (let recordID = trim_space (sr_RecordID request) in
              if recordID = [] then ret (Inl (workflowRouteStartError ''backend.workflow.route_record_required'' ''record_id''
                [(''workflow'', workflowKey)]))
              else if int (length (sr_Steps request)) < rc_MinSteps route \<or> int (length (sr_Steps request)) > rc_MaxSteps route
                then ret (Inl (workflowRouteStartError ''backend.workflow.route_step_count_invalid'' ''route.steps''
                  [(''workflow'', workflowKey), (''min'', itoa (rc_MinSteps route)), (''max'', itoa (rc_MaxSteps route)),
                   (''actual'', itoa (int (length (sr_Steps request))))]))
              else tries (ret (workflowRouteEligibleAssignees (ee_Assignees env) workflow route)) (\<lambda>voters. do {
                now \<leftarrow> now_text env;
                process \<leftarrow> workflowRouteStartProcess env workflow request recordID actor now;
                ret (map_sum id (\<lambda>steps. \<lparr> wc_Process = process, wc_RouteSteps = steps,
                    wc_Intent = workflowRouteStartIntent workflow process actor now \<rparr>)
                  (stage_steps (\<lambda>i authored. workflowRouteStartStep i authored node route voters ''route.steps'' now)
                    process (pr_WorkspaceID actor) 0 (sr_Steps request) [])) }))))))"

subsection \<open>Activation of a step\<close>

definition workflowRouteAdminAssignees :: "assignee_env \<Rightarrow> string list \<Rightarrow> WorkflowRouteAssignee list" where
  "workflowRouteAdminAssignees env userIDs = map (\<lambda>userID. \<lparr> ra_UserID = userID,
     ra_DisplayName = (case (if ae_HasIdentity env then ae_FindUser env userID else Inr None) of Inr (Some user) \<Rightarrow> us_Name user | _ \<Rightarrow> []),
     ra_RoleKey = ''admin'' \<rparr>) userIDs"

text \<open>
  The voters a step opens with, and the policy that applies when there are none. Nothing is decided
  while every voter of the snapshot is still eligible.
\<close>

definition revalidateRouteStepAssignees :: "engine_env \<Rightarrow> WorkflowProcessInstance \<Rightarrow> WorkflowGraphNode \<Rightarrow>
    WorkflowApprovalRouteContract \<Rightarrow> WorkflowRouteStep \<Rightarrow> Principal \<Rightarrow> (engine_error + WorkflowRouteAssignee list \<times> string) engine" where
  "revalidateRouteStepAssignees env process node route step actor =
     tries (ret (workflowRouteEligibleAssignees (ee_Assignees env) (wp_DefinitionSnapshot process) route)) (\<lambda>voters. (let
       ok = (\<lambda>a. trim_space (ra_UserID a) \<in> fst ` set (el_Eligible voters));
       kept = filter ok (rs_AssigneeSnapshot step);
       invalid = map ra_UserID (filter (\<lambda>a. \<not> ok a) (rs_AssigneeSnapshot step));
       policy = rc_RevalidateOnActivation route
     in if invalid = [] then ret (Inr (kept, []))
        else do {
          _ \<leftarrow> appendEvent env (wp_WorkspaceID process) (wp_ID process) (gn_ID node) [] ''route_step_revalidated'' (pr_UserID actor)
            (rs_Title step) [(''step_key'', VStr (rs_StepKey step)), (''step_no'', VInt (rs_StepNo step)),
              (''invalid_user_ids'', VStrs invalid), (''policy'', VStr policy)];
          ret (if policy = ''skip_invalid'' then Inr (if kept \<noteq> [] then (kept, [])
              else ([], valueOrDefault (trim_space (ac_EmptyAssigneePolicy (WorkflowApprovalNodeContract node))) ''fail''))
            else if policy = ''admin'' then res_bind (usersForApprovalRole (ee_Assignees env) ''admin'') (\<lambda>admins.
              Inr (workflowRouteAdminAssignees (ee_Assignees env) admins, []))
            else Inr ([], ''fail'')) }))"

definition route_task :: "WorkflowProcessInstance \<Rightarrow> WorkflowGraphNode \<Rightarrow> WorkflowApprovalNodeContract \<Rightarrow> WorkflowRouteStep \<Rightarrow>
    string \<Rightarrow> int \<Rightarrow> string \<Rightarrow> nat \<Rightarrow> string \<Rightarrow> WorkflowRouteAssignee \<Rightarrow> WorkflowTask" where
  "route_task process node contract step nodeInstanceID createdAt now index i assignee = (let
     resolverKey = ''route:'' @ trim_space (rs_StepKey step)
   in zero_task \<lparr> wt_WorkspaceID := wp_WorkspaceID process, wt_ID := i, wt_ProcessID := wp_ID process,
     wt_NodeInstanceID := nodeInstanceID, wt_NodeID := gn_ID node,
     wt_Title := valueOrDefault (trim_space (rs_Title step)) (valueOrDefault (trim_space (ac_Title contract)) (gn_Name node)),
     wt_AssigneeUserID := ra_UserID assignee, wt_AssigneeName := ra_DisplayName assignee, wt_AssigneeRoleKey := ra_RoleKey assignee,
     wt_AssigneeResolverKey := resolverKey,
     wt_AssigneeEvidence := [\<lparr> em_ResolverType = ''route'', em_ResolverKey = resolverKey, em_ResolverIndex = int index,
       em_RoleKey = ra_RoleKey assignee, em_VariableKey = [], em_ObjectKey = [], em_RecordID = [], em_FieldKey = [],
       em_SubjectUserID = [], em_Facts = [] \<rparr>],
     wt_CandidateSource := ''route'', wt_NodeDefinitionVersion := WorkflowGraphContractVersion (wp_DefinitionSnapshot process),
     wt_Sequence := int index + 1, wt_Status := ''open'', wt_DueAt := WorkflowApprovalDueAt contract node createdAt,
     wt_CreatedAt := now, wt_UpdatedAt := now \<rparr>)"

fun route_tasks :: "engine_env \<Rightarrow> (nat \<Rightarrow> string \<Rightarrow> WorkflowRouteAssignee \<Rightarrow> WorkflowTask) \<Rightarrow> nat \<Rightarrow> WorkflowRouteAssignee list \<Rightarrow>
    WorkflowTask list engine" where
  "route_tasks env build index [] = ret []"
| "route_tasks env build index (assignee # rest) = do {
     i \<leftarrow> workflowProcessID env ''task'';
     tasks \<leftarrow> route_tasks env build (Suc index) rest;
     ret (build index i assignee # tasks) }"

definition WorkflowRouteStepTasks :: "engine_env \<Rightarrow> WorkflowProcessInstance \<Rightarrow> WorkflowGraphNode \<Rightarrow> WorkflowApprovalNodeContract \<Rightarrow>
    WorkflowRouteStep \<Rightarrow> string \<Rightarrow> string \<Rightarrow> WorkflowTask list engine" where
  "WorkflowRouteStepTasks env process node contract step nodeInstanceID now = do {
     createdAt \<leftarrow> (case parse_rfc3339 now of Some t \<Rightarrow> ret t | None \<Rightarrow> clock env);
     route_tasks env (route_task process node contract step nodeInstanceID createdAt now) 0 (rs_AssigneeSnapshot step) }"

definition route_task_metadata :: "engine_env \<Rightarrow> WorkflowRouteStep \<Rightarrow> WorkflowTask \<Rightarrow> int \<Rightarrow> data" where
  "route_task_metadata env step task n = [(''assignee_user_id'', VStr (wt_AssigneeUserID task)),
     (''assignee_role_key'', VStr (wt_AssigneeRoleKey task)), (''resolver_key'', VStr (wt_AssigneeResolverKey task)),
     (''assignee_evidence'', ee_EvidenceValue env (wt_AssigneeEvidence task)), (''mode'', VStr (rs_Mode step)),
     (''sequence'', VInt n), (''step_key'', VStr (rs_StepKey step))]"

definition activated_metadata :: "WorkflowRouteStep \<Rightarrow> nat \<Rightarrow> data" where
  "activated_metadata step n = [(''step_key'', VStr (rs_StepKey step)), (''step_no'', VInt (rs_StepNo step)), (''assignee_count'', VInt (int n))]"

text \<open>The part of the activation that writes: the node, its tasks, the step, from \<open>pending\<close> to \<open>active\<close>.\<close>

definition open_route_step :: "engine_env \<Rightarrow> WorkflowProcessInstance \<Rightarrow> WorkflowGraphNode \<Rightarrow> WorkflowRouteStep \<Rightarrow> Principal \<Rightarrow>
    (engine_error + string \<times> bool) engine" where
  "open_route_step env process node step actor = do {
     i \<leftarrow> newNodeInstance env (wp_WorkspaceID process) (wp_ID process) node ''waiting'' (WorkflowCloneMap (wp_Variables process)) [];
     (let nodeInstance = i \<lparr> wn_Iteration := rs_StepNo step \<rparr> in
      tries (store_or ''insert route approval node'' (InsertNode (ee_Store env) (wp_WorkspaceID process) nodeInstance)) (\<lambda>_. do {
        now \<leftarrow> now_text env;
        tasks \<leftarrow> WorkflowRouteStepTasks env process node (WorkflowApprovalNodeContract node) step (wn_ID nodeInstance) now;
        tries (tries_each (\<lambda>index task. do {
            e \<leftarrow> insertApprovalTaskWithNotification env process task [];
            (case e of
               Some c \<Rightarrow> ret (Inl (wrap_internal ''insert workflow route task'' c))
             | None \<Rightarrow> do {
                 _ \<leftarrow> appendEvent env (wp_WorkspaceID process) (wp_ID process) (gn_ID node) (wt_ID task) ''task_created'' ''system''
                   (wt_Title task) (route_task_metadata env step task (int index + 1));
                 ret (Inr ()) }) }) 0 tasks) (\<lambda>_.
          tries (reads_or ''activate workflow route step'' (transact (UpdateRouteStepCAS (ee_Store env) (wp_WorkspaceID process)
              (step \<lparr> rs_Status := ''active'', rs_NodeInstanceID := wn_ID nodeInstance, rs_UpdatedAt := now \<rparr>) ''pending''))) (\<lambda>activated.
            if \<not> activated then ret (Inl (conflict ''backend.workflow.route_step_not_activatable'' [''step_key'', rs_StepKey step]))
            else do {
              _ \<leftarrow> appendEvent env (wp_WorkspaceID process) (wp_ID process) (gn_ID node) [] ''route_step_activated'' (pr_UserID actor)
                (rs_Title step) (activated_metadata step (length (rs_AssigneeSnapshot step)));
              _ \<leftarrow> appendEvent env (wp_WorkspaceID process) (wp_ID process) (gn_ID node) [] ''approval_waiting'' (pr_UserID actor)
                (gn_Name node) [];
              ret (Inr (''waiting'', True)) })) })) }"

definition activateRouteApprovalStep :: "engine_env \<Rightarrow> WorkflowProcessInstance \<Rightarrow> WorkflowGraphNode \<Rightarrow> WorkflowApprovalRouteContract \<Rightarrow>
    Principal \<Rightarrow> (engine_error + string \<times> bool) engine" where
  "activateRouteApprovalStep env process node route actor =
     (if \<not> ee_HasRoutes env then ret (Inl (internalError ''activate workflow route step''))
      else tries (reads_or ''list workflow route steps'' (read_db (ListRouteSteps (wp_WorkspaceID process) (wp_ID process)))) (\<lambda>steps.
        (case WorkflowRouteStepAfter steps 0 of (step, found) \<Rightarrow>
          if \<not> found \<or> rs_NodeID step \<noteq> gn_ID node
            then ret (Inl (bad_request ''backend.workflow.route_steps_missing'' [''node'', gn_ID node]))
          else if rs_Status step \<noteq> ''pending''
            then ret (Inl (bad_request ''backend.workflow.route_step_not_activatable'' [''node'', gn_ID node, ''step_key'', rs_StepKey step]))
          else tries (revalidateRouteStepAssignees env process node route step actor) (\<lambda>(assignees, outcome).
            if assignees = [] then
              (if outcome = ''skip'' then ret (Inr (''skipped'', False))
               else if outcome = ''fail'' then ret (Inl (bad_request ''backend.workflow.route_step_revalidation_failed''
                 [''node'', gn_ID node, ''step_key'', rs_StepKey step]))
               else ret (Inl (bad_request ''backend.workflow.approval_assignee_not_found'' [''node'', gn_ID node])))
            else open_route_step env process node (step \<lparr> rs_AssigneeSnapshot := assignees \<rparr>) actor))))"

subsection \<open>Who configures a deferred step\<close>

definition workflowRouteStepHasAssignee :: "WorkflowRouteStep \<Rightarrow> string \<Rightarrow> bool" where
  "workflowRouteStepHasAssignee step userID \<longleftrightarrow> (\<exists>a \<in> set (rs_AssigneeSnapshot step). trim_space (ra_UserID a) = userID)"

definition workflowRouteConfigurerAllows :: "WorkflowApprovalRouteContract \<Rightarrow> WorkflowRouteStep list \<Rightarrow> int \<Rightarrow>
    WorkflowProcessInstance \<Rightarrow> string \<Rightarrow> bool" where
  "workflowRouteConfigurerAllows route steps index process userID0 = (let userID = trim_space userID0 in
     if userID = [] then False
     else if rc_DeferredConfigurer route = ''initiator'' then trim_space (wp_InitiatorID process) = userID
     else if index \<le> 0 \<or> index > int (length steps) - 1 then False
     else workflowRouteStepHasAssignee (steps ! nat (index - 1)) userID)"

lemma db_steps_route [steps]:
  "db_steps (revalidateRouteStepAssignees env process node route st actor)"
  "db_steps (route_tasks env build i xs)"
  "db_steps (WorkflowRouteStepTasks env process node contract st n now)"
proof -
  show r: "db_steps (route_tasks env build i xs)" for build i xs
    by (induction xs arbitrary: i) (auto intro!: steps)
  show "db_steps (revalidateRouteStepAssignees env process node route st actor)"
    unfolding revalidateRouteStepAssignees_def Let_def by (intro steps)
  show "db_steps (WorkflowRouteStepTasks env process node contract st n now)"
    unfolding WorkflowRouteStepTasks_def by (intro steps r)
qed

lemma db_steps_activate [steps]:
  "db_steps (open_route_step env process node st actor)" "db_steps (activateRouteApprovalStep env process node route actor)"
proof -
  show o: "db_steps (open_route_step env process node st actor)" for st
    unfolding open_route_step_def Let_def by (intro steps)
  show "db_steps (activateRouteApprovalStep env process node route actor)"
    unfolding activateRouteApprovalStep_def by (intro steps o)
qed

subsection \<open>A staged route is complete and can be decided\<close>

lemma fold_update_keyed:
  assumes "\<And>x. x \<in> set xs \<Longrightarrow> P (f x) (g x)" and "\<And>k v. map_of m k = Some v \<Longrightarrow> P k v"
  shows "map_of (fold (\<lambda>x. AList.update (f x) (g x)) xs m) k = Some v \<Longrightarrow> P k v"
  using assms
proof (induction xs arbitrary: m)
  case (Cons x xs)
  show ?case
  proof (rule Cons.IH)
    show "map_of (fold (\<lambda>x. AList.update (f x) (g x)) xs (AList.update (f x) (g x) m)) k = Some v" using Cons.prems(1) by simp
    show "P (f y) (g y)" if "y \<in> set xs" for y using Cons.prems(2) that by simp
    show "P i w" if "map_of (AList.update (f x) (g x) m) i = Some w" for i w
      using that Cons.prems(2) [of x] Cons.prems(3) [of i w] by (auto simp: update_conv split: if_splits)
  qed
qed simp

lemma active_users_keyed: "map_of (active_users users) k = Some u \<Longrightarrow> us_ID u = k \<and> us_Status u = UserStatusActive"
  unfolding active_users_def by (rule fold_update_keyed [where P = "\<lambda>k u. us_ID u = k \<and> us_Status u = UserStatusActive"]) auto

lemma eligible_keyed_fold:
  assumes "map_of (fold (eligible_assignment (active_users users) roles) as m) k = Some a"
    and "\<And>k a. map_of m k = Some a \<Longrightarrow> ra_UserID a = k"
  shows "ra_UserID a = k"
  using assms
proof (induction as arbitrary: m)
  case (Cons x xs)
  show ?case
  proof (rule Cons.IH)
    show "map_of (fold (eligible_assignment (active_users users) roles) xs (eligible_assignment (active_users users) roles x m)) k = Some a"
      using Cons.prems(1) by simp
    show "ra_UserID b = i" if "map_of (eligible_assignment (active_users users) roles x m) i = Some b" for i b
      using that Cons.prems(2) [of i b]
      by (auto simp: eligible_assignment_def update_conv split: option.splits if_splits dest: active_users_keyed)
  qed
qed simp

text \<open>An electorate names every voter by the id it is found under.\<close>

lemma eligible_keyed:
  assumes "workflowRouteEligibleAssignees env workflow route = Inr voters" and "map_of (el_Eligible voters) k = Some a"
  shows "ra_UserID a = k"
proof -
  have everyone: "ra_UserID a = k" if "map_of (map (\<lambda>(i, u). (us_ID u, \<lparr> ra_UserID = us_ID u, ra_DisplayName = us_Name u, ra_RoleKey = [] \<rparr>)) xs) k
      = Some a" for xs :: "(string \<times> User) list"
    using map_of_SomeD [OF that] by auto
  from assms show ?thesis
    by (auto simp: workflowRouteEligibleAssignees_def res_bind_Inr or_internal_def Let_def
        split: if_splits sum.splits dest!: eligible_keyed_fold dest: everyone)
qed

lemma validate_assignees_spec:
  assumes "validate_assignees voters field i seen ids acc = Inr assignees"
    and "\<And>k a. map_of (el_Eligible voters) k = Some a \<Longrightarrow> ra_UserID a = k"
  shows "\<exists>rest. assignees = acc @ rest \<and> map ra_UserID rest = map trim_space ids \<and> distinct (map ra_UserID rest) \<and>
    set (map ra_UserID rest) \<inter> set seen = {} \<and> (\<forall>a \<in> set rest. map_of (el_Eligible voters) (ra_UserID a) = Some a \<and>
      ra_UserID a \<in> set (el_Active voters))"
  using assms(1)
proof (induction ids arbitrary: i seen acc)
  case (Cons raw ids)
  from Cons.prems obtain a where a: "map_of (el_Eligible voters) (trim_space raw) = Some a" "trim_space raw \<notin> set seen"
      "trim_space raw \<in> set (el_Active voters)"
    and r: "validate_assignees voters field (Suc i) (trim_space raw # seen) ids (acc @ [a]) = Inr assignees"
    by (auto simp: Let_def split: if_splits option.splits)
  note u = assms(2) [OF a(1)]
  from Cons.IH [OF r] obtain rest where "assignees = (acc @ [a]) @ rest" "map ra_UserID rest = map trim_space ids"
    "distinct (map ra_UserID rest)" "set (map ra_UserID rest) \<inter> set (trim_space raw # seen) = {}"
    "\<forall>a \<in> set rest. map_of (el_Eligible voters) (ra_UserID a) = Some a \<and> ra_UserID a \<in> set (el_Active voters)" by blast
  then show ?case using a u by (intro exI [of _ "a # rest"]) auto
qed simp

text \<open>What a staged step may be: deferred, without voters, or open to distinct eligible voters who can reach its threshold.\<close>

definition route_step_ready :: "WorkflowApprovalRouteContract \<Rightarrow> WorkflowRouteElectorate \<Rightarrow> WorkflowRouteStep \<Rightarrow> bool" where
  "route_step_ready route voters step \<longleftrightarrow> rs_Status step = ''pending'' \<and> rs_AssigneeSnapshot step \<noteq> [] \<and>
     int (length (rs_AssigneeSnapshot step)) \<le> rc_MaxAssigneesPerStep route \<and> distinct (map ra_UserID (rs_AssigneeSnapshot step)) \<and>
     (\<forall>a \<in> set (rs_AssigneeSnapshot step). map_of (el_Eligible voters) (ra_UserID a) = Some a \<and> ra_UserID a \<in> set (el_Active voters)) \<and>
     WorkflowRouteStepThreshold step = rs_RequiredApprovals step"

definition route_step_deferred :: "WorkflowApprovalRouteContract \<Rightarrow> WorkflowRouteStep \<Rightarrow> bool" where
  "route_step_deferred route step \<longleftrightarrow> rs_Status step = ''configurable'' \<and> rs_AssigneeSnapshot step = [] \<and> rs_StepNo step > 1 \<and>
     rc_DeferredSteps route = ''allow''"

lemma relabelled_step [simp]:
  "route_step_ready route voters (st \<lparr> rs_WorkspaceID := p, rs_ProcessID := q, rs_ID := u \<rparr>) = route_step_ready route voters st"
  "route_step_deferred route (st \<lparr> rs_WorkspaceID := p, rs_ProcessID := q, rs_ID := u \<rparr>) = route_step_deferred route st"
  by (simp_all add: route_step_ready_def route_step_deferred_def WorkflowRouteStepThreshold_def Let_def)

lemma trimmed_default: "valueOrDefault (trim_space m) d = m' \<Longrightarrow> trim_space d = d \<Longrightarrow> trim_space m' = m'"
  by (auto simp: valueOrDefault_def)

lemma step_mode_idem: "WorkflowRouteStepMode (WorkflowRouteStepMode m) = WorkflowRouteStepMode m"
proof -
  have "trim_space ''any'' = ''any''" by code_simp
  then show ?thesis by (auto simp: WorkflowRouteStepMode_def valueOrDefault_def)
qed

lemma required_approvals_threshold:
  assumes "WorkflowRouteRequiredApprovals mode authored (int (length assignees)) path = Inr required" and "assignees \<noteq> []"
    and "rs_Mode step = mode" and "rs_AssigneeSnapshot step = assignees" and "rs_RequiredApprovals step = required"
  shows "WorkflowRouteStepThreshold step = required"
  using assms by (auto simp: WorkflowRouteRequiredApprovals_def WorkflowRouteStepThreshold_def Let_def split: if_splits)

lemma assignees_ready:
  assumes "WorkflowValidateRouteStepAssignees ids route voters field = Inr assignees" and "assignees \<noteq> []"
    and "WorkflowRouteRequiredApprovals mode authored (int (length assignees)) path = Inr required"
    and "\<And>k a. map_of (el_Eligible voters) k = Some a \<Longrightarrow> ra_UserID a = k"
    and "rs_Status step = ''pending''" "rs_AssigneeSnapshot step = assignees" "rs_RequiredApprovals step = required" "rs_Mode step = mode"
  shows "route_step_ready route voters step" and "map ra_UserID assignees = map trim_space ids"
proof -
  from assms(1) have n: "int (length ids) \<le> rc_MaxAssigneesPerStep route" and va: "validate_assignees voters field 0 [] ids [] = Inr assignees"
    by (auto simp: WorkflowValidateRouteStepAssignees_def split: if_splits)
  from validate_assignees_spec [OF va assms(4)] have spec: "map ra_UserID assignees = map trim_space ids" "distinct (map ra_UserID assignees)"
    "\<forall>a \<in> set assignees. map_of (el_Eligible voters) (ra_UserID a) = Some a \<and> ra_UserID a \<in> set (el_Active voters)" by auto
  from arg_cong [OF spec(1), of length] have "length assignees = length ids" by simp
  with n assms(2) spec(2,3) assms(5-7) required_approvals_threshold [OF assms(3,2) assms(8,6,7)] show "route_step_ready route voters step"
    by (auto simp: route_step_ready_def)
  show "map ra_UserID assignees = map trim_space ids" by (rule spec(1))
qed

lemma start_step_ready:
  assumes "workflowRouteStartStep i authored node route voters field now = Inr step"
    and "\<And>k a. map_of (el_Eligible voters) k = Some a \<Longrightarrow> ra_UserID a = k"
  shows "rs_StepNo step = int i + 1 \<and> rs_NodeID step = gn_ID node \<and>
    (route_step_ready route voters step \<or> route_step_deferred route step)"
proof (cases "st_Deferred authored")
  case True
  with assms(1) show ?thesis
    by (auto simp: workflowRouteStartStep_def Let_def route_step_deferred_def zero_step_def split: if_splits)
next
  case False
  with assms(1) obtain assignees required where
    v: "WorkflowValidateRouteStepAssignees (st_AssigneeUserIDs authored) route voters (indexed field i @ ''.assignees'') = Inr assignees"
    and ne: "assignees \<noteq> []"
    and q: "WorkflowRouteRequiredApprovals (WorkflowRouteStepMode (st_Mode authored)) (st_RequiredApprovals authored) (int (length assignees))
        (indexed field i @ ''.required_approvals'') = Inr required"
    and s: "rs_StepNo step = int i + 1" "rs_NodeID step = gn_ID node" "rs_Status step = ''pending''"
      "rs_AssigneeSnapshot step = assignees" "rs_RequiredApprovals step = required" "rs_Mode step = WorkflowRouteStepMode (st_Mode authored)"
    by (auto simp: workflowRouteStartStep_def Let_def res_bind_Inr split: if_splits)
  from assignees_ready(1) [OF v ne q assms(2) s(3-6)] s(1,2) show ?thesis by blast
qed

lemma stage_steps_spec:
  assumes "stage_steps build process w i authored acc = Inr out"
    and "\<And>j a st. build j a = Inr st \<Longrightarrow> rs_StepNo st = int j + 1 \<and> P st"
    and "\<And>st p q u. P st \<Longrightarrow> P (st \<lparr> rs_WorkspaceID := p, rs_ProcessID := q, rs_ID := u \<rparr>)"
    and "distinct (map rs_StepKey acc)"
  shows "\<exists>rest. out = acc @ rest \<and> length rest = length authored \<and> distinct (map rs_StepKey out) \<and>
    map rs_StepNo rest = map (\<lambda>j. int j + 1) [i..<i + length authored] \<and>
    (\<forall>st \<in> set rest. P st \<and> rs_WorkspaceID st = w \<and> rs_ProcessID st = wp_ID process \<and>
       rs_ID st = wp_ID process @ ''_step_'' @ itoa (rs_StepNo st))"
  using assms(1,4)
proof (induction authored arbitrary: i acc)
  case (Cons a as)
  from Cons.prems obtain st where st: "build i a = Inr st" "rs_StepKey st \<notin> set (map rs_StepKey acc)"
    and r: "stage_steps build process w (Suc i) as (acc @ [st \<lparr> rs_WorkspaceID := w, rs_ProcessID := wp_ID process,
      rs_ID := wp_ID process @ ''_step_'' @ itoa (rs_StepNo st) \<rparr>]) = Inr out"
    by (auto simp: res_bind_Inr split: if_splits)
  define st' where "st' = st \<lparr> rs_WorkspaceID := w, rs_ProcessID := wp_ID process, rs_ID := wp_ID process @ ''_step_'' @ itoa (rs_StepNo st) \<rparr>"
  note b = assms(2) [OF st(1)]
  from b assms(3) have p: "P st'" by (simp add: st'_def)
  from st(2) Cons.prems(2) have d: "distinct (map rs_StepKey (acc @ [st']))" by (simp add: st'_def)
  from Cons.IH [OF r [folded st'_def] d] obtain rest where "out = (acc @ [st']) @ rest" "length rest = length as"
    "distinct (map rs_StepKey out)" "map rs_StepNo rest = map (\<lambda>j. int j + 1) [Suc i..<Suc i + length as]"
    "\<forall>st \<in> set rest. P st \<and> rs_WorkspaceID st = w \<and> rs_ProcessID st = wp_ID process \<and>
       rs_ID st = wp_ID process @ ''_step_'' @ itoa (rs_StepNo st)" by blast
  with b p show ?case
    by (intro exI [of _ "st' # rest"]) (auto simp: st'_def upt_conv_Cons simp del: upt_Suc)
qed simp

text \<open>
  C25: a route an action stages is complete and can be decided. When staging succeeds, nothing is
  written yet; the workflow is granted, enabled and has a route-driven approval; the number of steps
  is within the bounds of the route; the steps are numbered from one, have different keys and
  different ids and all belong to the staged process and its approval node; the first step can be
  opened, and every step is either deferred, which the route must allow, or has different active
  eligible voters, no more than the route's maximum, whose number the required approvals do not
  exceed. The intent of the same transaction resumes this process.
\<close>

theorem staged_route_complete:
  assumes "run_state (StageWorkflowRouteStart env registry request actor) s = (Inr commit, s')"
  shows "es_DB s' = es_DB s \<and> we_ProcessID (wc_Intent commit) = wp_ID (wc_Process commit) \<and> we_Status (wc_Intent commit) = ''pending'' \<and>
    wp_Status (wc_Process commit) = ''starting'' \<and>
    (\<exists>workflow node route voters. registry (trim_space (sr_WorkflowKey request)) = Some workflow \<and> ws_Enabled workflow \<and>
       wp_DefinitionSnapshot (wc_Process commit) = workflow \<and> workflowRouteApprovalNode workflow = Inr (node, route) \<and>
       workflowRouteEligibleAssignees (ee_Assignees env) workflow route = Inr voters \<and>
       length (wc_RouteSteps commit) = length (sr_Steps request) \<and>
       rc_MinSteps route \<le> int (length (wc_RouteSteps commit)) \<and> int (length (wc_RouteSteps commit)) \<le> rc_MaxSteps route \<and>
       map rs_StepNo (wc_RouteSteps commit) = map (\<lambda>j. int j + 1) [0..<length (wc_RouteSteps commit)] \<and>
       distinct (map rs_StepKey (wc_RouteSteps commit)) \<and> distinct (map rs_ID (wc_RouteSteps commit)) \<and>
       (\<forall>step \<in> set (wc_RouteSteps commit). rs_ProcessID step = wp_ID (wc_Process commit) \<and> rs_NodeID step = gn_ID node \<and>
          (route_step_ready route voters step \<or> route_step_deferred route step) \<and>
          (rs_StepNo step = 1 \<longrightarrow> route_step_ready route voters step)))"
proof -
  from assms obtain workflow node route voters now process s1 where
    g: "registry (trim_space (sr_WorkflowKey request)) = Some workflow" "ws_Enabled workflow"
      "workflowRouteApprovalNode workflow = Inr (node, route)"
      "rc_MinSteps route \<le> int (length (sr_Steps request))" "int (length (sr_Steps request)) \<le> rc_MaxSteps route"
    and v: "workflowRouteEligibleAssignees (ee_Assignees env) workflow route = Inr voters"
    and p: "run_state (workflowRouteStartProcess env workflow request (trim_space (sr_RecordID request)) actor now)
        (s \<lparr> es_Tick := Suc (es_Tick s) \<rparr>) = (process, s')"
    and st: "stage_steps (\<lambda>i authored. workflowRouteStartStep i authored node route voters ''route.steps'' now)
        process (pr_WorkspaceID actor) 0 (sr_Steps request) [] = Inr (wc_RouteSteps commit)"
    and c: "wc_Process commit = process" "wc_Intent commit = workflowRouteStartIntent workflow process actor now"
    unfolding StageWorkflowRouteStart_def Let_def
    by (auto simp: run_tries_Inr run_bind_eq map_sum_Inr not_less simp del: State_Monad.run_state_bind split: option.splits if_splits)
  note k = start_step_ready [OF _ eligible_keyed [OF v]]
  from p have proc: "es_DB s' = es_DB s" "wp_Status process = ''starting''" "wp_DefinitionSnapshot process = workflow"
    by (auto simp: workflowRouteStartProcess_def Let_def run_process_id split: if_splits)
  let ?P = "\<lambda>st. rs_NodeID st = gn_ID node \<and> (route_step_ready route voters st \<or> route_step_deferred route st)"
  have "\<exists>rest. wc_RouteSteps commit = [] @ rest \<and> length rest = length (sr_Steps request) \<and> distinct (map rs_StepKey (wc_RouteSteps commit)) \<and>
    map rs_StepNo rest = map (\<lambda>j. int j + 1) [0..<0 + length (sr_Steps request)] \<and>
    (\<forall>x \<in> set rest. ?P x \<and> rs_WorkspaceID x = pr_WorkspaceID actor \<and> rs_ProcessID x = wp_ID process \<and>
       rs_ID x = wp_ID process @ ''_step_'' @ itoa (rs_StepNo x))"
    by (rule stage_steps_spec [OF st]) (use k in simp_all)
  then have spec: "length (wc_RouteSteps commit) = length (sr_Steps request)" "distinct (map rs_StepKey (wc_RouteSteps commit))"
      "map rs_StepNo (wc_RouteSteps commit) = map (\<lambda>j. int j + 1) [0..<length (wc_RouteSteps commit)]"
    and each: "\<And>x. x \<in> set (wc_RouteSteps commit) \<Longrightarrow> ?P x \<and> rs_ProcessID x = wp_ID process \<and>
        rs_ID x = wp_ID process @ ''_step_'' @ itoa (rs_StepNo x)"
    by simp_all
  have "distinct (map rs_StepNo (wc_RouteSteps commit))" unfolding spec(3) by (simp add: distinct_map inj_on_def)
  then have "distinct (map rs_ID (wc_RouteSteps commit))"
    unfolding distinct_map inj_on_def using each by (metis parse_int_itoa option.inject same_append_eq)
  moreover have "\<not> route_step_deferred route x" if "rs_StepNo x = 1" for x using that by (simp add: route_step_deferred_def)
  ultimately show ?thesis using g v c proc spec each by (auto simp: workflowRouteStartIntent_def)
qed

subsection \<open>Witness\<close>

definition routed_node :: WorkflowGraphNode where
  "routed_node = zero_node \<lparr> gn_ID := ''n1'', gn_Type := ''approval'', gn_Contract := Some \<lparr> nc_Condition = None,
     nc_Approval = Some (zero_approval \<lparr> ac_Mode := ''any'', ac_Route := Some (zero_route \<lparr> rc_Source := ''instance'', rc_MinSteps := 1,
       rc_MaxSteps := 3, rc_MaxAssigneesPerStep := 2, rc_DeferredSteps := ''allow'' \<rparr>) \<rparr>),
     nc_Action = None, nc_CC = None, nc_Timer = None, nc_AgentTask = None \<rparr> \<rparr>"

definition routed_workflow :: WorkflowSchema where
  "routed_workflow = zero_schema \<lparr> ws_Key := ''wf'', ws_Enabled := True,
     ws_Graph := Some \<lparr> gs_Version = 2, gs_Nodes = [routed_node], gs_Edges = [] \<rparr> \<rparr>"

definition routed_request :: WorkflowRouteStartRequest where
  "routed_request = \<lparr> sr_WorkflowKey = ''wf'', sr_ObjectKey = ''order'', sr_RecordID = ''r1'',
     sr_Steps = [\<lparr> st_StepKey = [], st_Title = ''First'', st_Mode = ''quorum'', st_RequiredApprovals = 2, st_AssigneeUserIDs = ['' a'', ''b''],
         st_Deferred = False \<rparr>,
       \<lparr> st_StepKey = ''late'', st_Title = [], st_Mode = [], st_RequiredApprovals = 0, st_AssigneeUserIDs = [], st_Deferred = True \<rparr>],
     sr_Variables = [], sr_GrantedWorkflowKeys = ['' wf''], sr_ActionKey = [], sr_ExecutionID = ''x'', sr_StageIndex = 0 \<rparr>"

definition routed_contract :: WorkflowApprovalRouteContract where
  "routed_contract = fst (WorkflowApprovalRoute routed_node)"

definition routed_voters :: WorkflowRouteElectorate where
  "routed_voters = \<lparr> el_Known = [''a'', ''b'', ''c''], el_Active = [''a'', ''b'', ''c''],
     el_Eligible = map (\<lambda>u. (u, \<lparr> ra_UserID = u, ra_DisplayName = u, ra_RoleKey = [] \<rparr>)) [''a'', ''b'', ''c''] \<rparr>"

lemma routed_facts: "workflowAuthorizeCommand (example_actor ''a'') = None" "trim_space (sr_WorkflowKey routed_request) = ''wf''"
  "workflowRouteStartGranted (sr_GrantedWorkflowKeys routed_request) ''wf''" "ws_Enabled routed_workflow"
  "trim_space (sr_RecordID routed_request) = ''r1''"
  "rc_MinSteps routed_contract \<le> int (length (sr_Steps routed_request))" "int (length (sr_Steps routed_request)) \<le> rc_MaxSteps routed_contract"
  "workflowRouteApprovalNode routed_workflow = Inr (routed_node, routed_contract)"
  "workflowRouteEligibleAssignees example_identity routed_workflow routed_contract = Inr routed_voters"
  by code_simp+

lemma routed_steps: "map_sum (\<lambda>e. ()) (map (\<lambda>st. (rs_StepKey st, map ra_UserID (rs_AssigneeSnapshot st), rs_Status st)))
   (stage_steps (\<lambda>i authored. workflowRouteStartStep i authored routed_node routed_contract routed_voters ''route.steps'' now)
     process w 0 (sr_Steps routed_request) []) = Inr [(''s1'', [''a'', ''b''], ''pending''), (''late'', [], ''configurable'')]"
  by code_simp

lemma run_routed_process: "\<exists>process t. run_state (workflowRouteStartProcess env workflow request recordID actor now) s = (process, t)"
  by fastforce

theorem staged_route_complete_witness:
  "\<exists>commit s'. run_state (StageWorkflowRouteStart example_engine [''wf'' \<mapsto> routed_workflow] routed_request (example_actor ''a'')) empty_state =
      (Inr commit, s') \<and> map rs_StepKey (wc_RouteSteps commit) = [''s1'', ''late''] \<and>
    map (\<lambda>st. map ra_UserID (rs_AssigneeSnapshot st)) (wc_RouteSteps commit) = [[''a'', ''b''], []] \<and>
    map rs_Status (wc_RouteSteps commit) = [''pending'', ''configurable''] \<and> distinct (map rs_ID (wc_RouteSteps commit)) \<and>
    es_DB s' = es_DB empty_state"
proof -
  let ?now = "format_rfc3339nano (ee_Now example_engine (es_Tick empty_state))"
  obtain process t where p: "run_state (workflowRouteStartProcess example_engine routed_workflow routed_request ''r1'' (example_actor ''a'') ?now)
      (empty_state \<lparr> es_Tick := Suc (es_Tick empty_state) \<rparr>) = (process, t)"
    using run_routed_process by blast
  from routed_steps obtain steps where st: "stage_steps (\<lambda>i authored. workflowRouteStartStep i authored routed_node routed_contract
        routed_voters ''route.steps'' ?now) process (pr_WorkspaceID (example_actor ''a'')) 0 (sr_Steps routed_request) [] = Inr steps"
      and e: "map (\<lambda>st. (rs_StepKey st, map ra_UserID (rs_AssigneeSnapshot st), rs_Status st)) steps =
        [(''s1'', [''a'', ''b''], ''pending''), (''late'', [], ''configurable'')]"
    by (fastforce simp: map_sum_Inr)
  have i: "ee_Assignees example_engine = example_identity" by (simp add: example_engine_def)
  have "\<exists>commit. run_state (StageWorkflowRouteStart example_engine [''wf'' \<mapsto> routed_workflow] routed_request (example_actor ''a'')) empty_state =
      (Inr commit, t) \<and> wc_RouteSteps commit = steps"
    by (simp add: StageWorkflowRouteStart_def run_tries routed_facts Let_def i p st not_less)
  then obtain commit where r: "run_state (StageWorkflowRouteStart example_engine [''wf'' \<mapsto> routed_workflow] routed_request
      (example_actor ''a'')) empty_state = (Inr commit, t)" and c: "wc_RouteSteps commit = steps" by blast
  from staged_route_complete [OF r] e r c show ?thesis by (auto simp: map_eq_Cons_conv)
qed
end
