(* ===== verification/Workflow_Engine.thy ===== *)
theory Workflow_Engine
  imports Workflow_Route
begin

text \<open>
  The process engine (\<open>workflow_process_engine_application_service.go\<close> and the files of its node
  handlers): the handler of every node type, the run from node to node, starting a process and
  resuming it when a timer fires.

  The lemmas show that a run ends, give the rule by which its loop is reasoned about, and show that
  all the engine stores are steps of the store's step relation, so that what holds in every
  interleaving of store operations holds for every engine.
\<close>

subsection \<open>Approval nodes\<close>

definition deadline :: "engine_env \<Rightarrow> WorkflowProcessInstance \<Rightarrow> WorkflowTask \<Rightarrow> int \<Rightarrow> string \<Rightarrow> int \<Rightarrow> engine_error option" where
  "deadline env process task createdAt phase at = (case ee_DeadlineTimers env of
      None \<Rightarrow> None
    | Some f \<Rightarrow> map_option (\<lambda>e. internalError (''schedule workflow approval '' @ phase @ '' timer''))
        (f \<lparr> td_WorkspaceID = wp_WorkspaceID process, td_ProcessID = wp_ID process, td_NodeID = wt_NodeID task,
          td_TaskID = wt_ID task, td_Phase = phase, td_DueAt = at, td_CreatedAt = createdAt \<rparr>))"

definition scheduleApprovalDeadlineTimers ::
    "engine_env \<Rightarrow> WorkflowProcessInstance \<Rightarrow> WorkflowTask \<Rightarrow> WorkflowApprovalNodeContract \<Rightarrow> int \<Rightarrow> engine_error option" where
  "scheduleApprovalDeadlineTimers env process task contract createdAt =
     (if trim_space (wt_DueAt task) = [] \<or> trim_space (ac_ReminderActionKey contract) = [] \<and> ac_EscalationSeconds contract \<le> 0 then None
      else if ee_DeadlineTimers env = None then Some (internalError ''schedule workflow approval deadline'')
      else (case parse_rfc3339 (trim_space (wt_DueAt task)) of
          None \<Rightarrow> Some (bad_request ''backend.workflow.approval_due_at_invalid'' [''task'', wt_ID task])
        | Some dueAt \<Rightarrow> err_seq
            (if trim_space (ac_ReminderActionKey contract) \<noteq> [] then deadline env process task createdAt ''reminder'' dueAt else None)
            (if ac_EscalationSeconds contract > 0
              then deadline env process task createdAt ''escalation'' (dueAt + wrap64 (ac_EscalationSeconds contract * second)) else None)))"

definition approval_task ::
    "WorkflowProcessInstance \<Rightarrow> WorkflowGraphNode \<Rightarrow> string \<Rightarrow> int \<Rightarrow> string \<Rightarrow> nat \<Rightarrow> ResolvedAssignee \<Rightarrow> string \<Rightarrow> WorkflowTask" where
  "approval_task process node nodeInstanceID nowTime i index assignee name = (let
     contract = WorkflowApprovalNodeContract node;
     mode = valueOrDefault (trim_space (ac_Mode contract)) ''any'';
     title = trim_space (ac_Title contract);
     resolvers = WorkflowOrderedApprovalResolvers (ac_Resolvers contract)
   in zero_task \<lparr> wt_ID := i, wt_ProcessID := wp_ID process, wt_NodeInstanceID := nodeInstanceID, wt_NodeID := gn_ID node,
     wt_Title := (if title = [] \<or> title = nil_text then gn_Name node else title), wt_AssigneeUserID := rv_UserID assignee,
     wt_AssigneeName := name, wt_AssigneeRoleKey := rv_RoleKey assignee, wt_AssigneeResolverKey := rv_ResolverKey assignee,
     wt_AssigneeEvidence := rv_Evidence assignee, wt_ResolverSnapshot := resolvers,
     wt_CandidateSource := WorkflowCandidateSource resolvers,
     wt_NodeDefinitionVersion := WorkflowGraphContractVersion (wp_DefinitionSnapshot process), wt_Sequence := int index + 1,
     wt_Status := (if mode = ''sequential'' \<and> index > 0 then ''pending'' else ''open''),
     wt_DueAt := WorkflowApprovalDueAt contract node nowTime, wt_CreatedAt := format_rfc3339nano nowTime,
     wt_UpdatedAt := format_rfc3339nano nowTime \<rparr>)"

definition task_metadata :: "engine_env \<Rightarrow> WorkflowTask \<Rightarrow> string \<Rightarrow> data" where
  "task_metadata env task mode = [(''assignee_user_id'', VStr (wt_AssigneeUserID task)),
     (''assignee_role_key'', VStr (wt_AssigneeRoleKey task)), (''resolver_key'', VStr (wt_AssigneeResolverKey task)),
     (''assignee_evidence'', ee_EvidenceValue env (wt_AssigneeEvidence task)), (''mode'', VStr mode),
     (''sequence'', VInt (wt_Sequence task))]"

definition create_task ::
    "engine_env \<Rightarrow> WorkflowProcessInstance \<Rightarrow> WorkflowGraphNode \<Rightarrow> string \<Rightarrow> int \<Rightarrow> nat \<Rightarrow> ResolvedAssignee \<Rightarrow> (engine_error + unit) engine" where
  "create_task env process node nodeInstanceID nowTime index assignee = do {
     i \<leftarrow> workflowProcessID env ''task'';
     let user = (case ae_FindUser (ee_Assignees env) (rv_UserID assignee) of Inr (Some u) \<Rightarrow> Some u | _ \<Rightarrow> None);
     let task = approval_task process node nodeInstanceID nowTime i index assignee (case user of Some u \<Rightarrow> us_Name u | None \<Rightarrow> []);
     e \<leftarrow> insertApprovalTaskWithNotification env process task (case user of Some u \<Rightarrow> us_Locale u | None \<Rightarrow> []);
     (case e of
        Some c \<Rightarrow> ret (Inl (wrap_internal ''insert workflow task'' c))
      | None \<Rightarrow> tries (check (scheduleApprovalDeadlineTimers env process task (WorkflowApprovalNodeContract node) nowTime)) (\<lambda>_. do {
          _ \<leftarrow> appendEvent env (wp_WorkspaceID process) (wp_ID process) (gn_ID node) (wt_ID task) ''task_created'' ''system'' (wt_Title task)
            (task_metadata env task (valueOrDefault (trim_space (ac_Mode (WorkflowApprovalNodeContract node))) ''any''));
          ret (Inr ()) })) }"

definition createApprovalTasks ::
    "engine_env \<Rightarrow> WorkflowProcessInstance \<Rightarrow> WorkflowGraphNode \<Rightarrow> WorkflowNodeInstance \<Rightarrow> (engine_error + nat) engine" where
  "createApprovalTasks env process node nodeInstance = (case resolveApprovalAssignees (ee_Assignees env) process node of
      Inl e \<Rightarrow> ret (Inl e)
    | Inr assignees \<Rightarrow>
        if assignees = [] then (if valueOrDefault (trim_space (ac_EmptyAssigneePolicy (WorkflowApprovalNodeContract node))) ''fail'' = ''skip''
            then ret (Inr 0) else ret (Inl (bad_request ''backend.workflow.approval_assignee_not_found'' [''node'', gn_ID node])))
        else do {
          nowTime \<leftarrow> clock env;
          tries (tries_each (create_task env process node (wn_ID nodeInstance) nowTime) 0 assignees) (\<lambda>_. ret (Inr (length assignees))) })"

subsection \<open>Action and notification nodes\<close>

text \<open>
  The attempts of one action, with the same idempotency key: \<open>n\<close> are left after this one. A retry is
  recorded as an event.
\<close>

fun invoke_attempts :: "engine_env \<Rightarrow> WorkflowProcessInstance \<Rightarrow> WorkflowGraphNode \<Rightarrow> WorkflowBusinessActionInvocation \<Rightarrow> int \<Rightarrow>
    nat \<Rightarrow> nat \<Rightarrow> (WorkflowBusinessActionInvocationResult \<times> engine_error option) engine" where
  "invoke_attempts env process node invocation maxAttempts 0 attempt = ee_Invoke env invocation"
| "invoke_attempts env process node invocation maxAttempts (Suc n) attempt = do {
     r \<leftarrow> ee_Invoke env invocation;
     if snd r = None \<or> \<not> ir_Retryable (fst r) then ret r
     else do {
       _ \<leftarrow> appendEvent env (wp_WorkspaceID process) (wp_ID process) (gn_ID node) [] ''business_action_retry_scheduled''
         (pr_UserID (iv_Principal invocation)) (gn_Name node)
         [(''attempt'', VInt (int attempt)), (''max_attempts'', VInt maxAttempts), (''error_code'', VStr (ir_ErrorCode (fst r)))];
       invoke_attempts env process node invocation maxAttempts n (Suc attempt) } }"

text \<open>The output of an action: the entries of its \<open>data\<close> that are not reserved, and the five fixed ones.\<close>

definition action_output :: "string \<Rightarrow> string \<Rightarrow> WorkflowBusinessActionInvocationResult \<Rightarrow> data" where
  "action_output actionKey recordID r = (let
     output = (case data_get (ir_Output r) ''data'' of
         VMap d \<Rightarrow> ir_Output r @ filter (\<lambda>(k, v). \<not> map_has (ir_Output r) k) d | _ \<Rightarrow> ir_Output r);
     resolved = (case ir_RecordID r of Some i \<Rightarrow> if trim_space i \<noteq> [] then i else recordID | None \<Rightarrow> recordID)
   in fold (\<lambda>(k, v). AList.update k v) [(''action_key'', VStr actionKey), (''record_id'', VStr resolved),
       (''invocation_id'', VStr (ir_InvocationID r)), (''status'', VStr (ir_Status r)), (''outbox_ids'', VStrs (ir_OutboxIDs r))] output)"

definition action_invocation ::
    "engine_env \<Rightarrow> WorkflowProcessInstance \<Rightarrow> WorkflowGraphNode \<Rightarrow> Principal \<Rightarrow> Principal \<Rightarrow> int \<Rightarrow> WorkflowBusinessActionInvocation" where
  "action_invocation env process node actor actionPrincipal iteration = (let
     contract = WorkflowBusinessActionNodeContract node;
     objectKey = trim_space (bc_ObjectKey contract);
     recordID = ee_RenderString env (bc_RecordID contract) (wp_Variables process) actor
   in \<lparr> iv_ActionKey = trim_space (bc_ActionKey contract),
     iv_ObjectKey = (if objectKey = [] \<or> objectKey = nil_text then wp_ObjectKey process else objectKey),
     iv_RecordID = (if recordID = [] \<or> recordID = nil_text then wp_RecordID process else recordID),
     iv_Input = ee_RenderData env (bc_Input contract) (wp_Variables process) actionPrincipal, iv_Principal = actionPrincipal,
     iv_ProcessID = wp_ID process, iv_NodeID = gn_ID node,
     iv_IdempotencyKey = wp_ID process @ '':'' @ gn_ID node @ '':'' @ itoa iteration @ '':'' @
       valueOrDefault (wp_DefinitionHash process) (itoa (wp_DefinitionVersion process)) \<rparr>)"

definition executeActionNode ::
    "engine_env \<Rightarrow> WorkflowProcessInstance \<Rightarrow> WorkflowGraphNode \<Rightarrow> Principal \<Rightarrow>
       (WorkflowProcessInstance \<times> (engine_error + data)) engine" where
  "executeActionNode env process node actor = (let
     contract = WorkflowBusinessActionNodeContract node; actionKey = trim_space (bc_ActionKey contract)
   in if actionKey = [] \<or> actionKey = nil_text
        then ret (process, Inl (bad_request ''backend.workflow.action_key_required'' [''node'', gn_ID node]))
      else (case ee_ActionPrincipal env (wp_DefinitionSnapshot process) actor (wp_ID process @ '':'' @ gn_ID node) of
          Inl e \<Rightarrow> ret (process, Inl e)
        | Inr actionPrincipal \<Rightarrow> do {
            iteration \<leftarrow> nextNodeIteration env (wp_WorkspaceID process) (wp_ID process) (gn_ID node);
            let invocation = action_invocation env process node actor actionPrincipal iteration;
            let maxAttempts = (case bc_Retry contract of Some r \<Rightarrow> max 1 (rp_MaxAttempts r) | None \<Rightarrow> 1);
            (r, e) \<leftarrow> invoke_attempts env process node invocation maxAttempts (nat (maxAttempts - 1)) 1;
            (case e of
               Some c \<Rightarrow> ret (process, Inl c)
             | None \<Rightarrow> (let output = action_output actionKey (iv_RecordID invocation) r in
                 ret (if bc_OutputVariable contract = [] then process
                   else process \<lparr> wp_Variables := AList.update (bc_OutputVariable contract) (VMap output) (wp_Variables process) \<rparr>,
                   Inr output))) }))"

definition cc_input :: "engine_env \<Rightarrow> WorkflowProcessInstance \<Rightarrow> WorkflowGraphNode \<Rightarrow> Principal \<Rightarrow> string list \<Rightarrow> data" where
  "cc_input env process node actionPrincipal recipients = fold (\<lambda>(k, v). AList.update k v)
     (ee_RenderData env (cc_Input (WorkflowCCNodeContract node)) (wp_Variables process) actionPrincipal @
       [(''recipients'', VStrs recipients), (''workflow_process_id'', VStr (wp_ID process)), (''workflow_node_id'', VStr (gn_ID node))])
     (WorkflowCloneMap (wp_Variables process))"

definition executeCCNode ::
    "engine_env \<Rightarrow> WorkflowProcessInstance \<Rightarrow> WorkflowGraphNode \<Rightarrow> Principal \<Rightarrow> (engine_error + data) engine" where
  "executeCCNode env process node actor = (let contract = WorkflowCCNodeContract node in
     if trim_space (cc_NotificationActionKey contract) = []
       then ret (Inl (bad_request ''backend.workflow.cc_notification_action_required'' [''node'', gn_ID node]))
     else tries (ret (resolveWorkflowAssignees (ee_Assignees env) process (gn_ID node) (cc_Resolvers contract))) (\<lambda>assignees.
       (let recipients = map rv_UserID assignees in
        if recipients = [] then ret (Inl (bad_request ''backend.workflow.cc_recipient_not_found'' [''node'', gn_ID node]))
        else tries (ret (ee_ActionPrincipal env (wp_DefinitionSnapshot process) actor (wp_ID process @ '':'' @ gn_ID node)))
          (\<lambda>actionPrincipal. do {
            (r, e) \<leftarrow> ee_Invoke env \<lparr> iv_ActionKey = cc_NotificationActionKey contract, iv_ObjectKey = wp_ObjectKey process,
              iv_RecordID = wp_RecordID process, iv_Input = cc_input env process node actionPrincipal recipients,
              iv_Principal = actionPrincipal, iv_ProcessID = wp_ID process, iv_NodeID = gn_ID node,
              iv_IdempotencyKey = wp_ID process @ '':'' @ gn_ID node @ '':cc-notification'' \<rparr>;
            (case e of Some c \<Rightarrow> ret (Inl c)
             | None \<Rightarrow> (let details = [(''recipients'', VStrs recipients),
                   (''resolved_assignees'', ee_AssigneesValue env assignees),
                   (''action_key'', VStr (cc_NotificationActionKey contract)), (''invocation_id'', VStr (ir_InvocationID r))]
                 in do {
                   _ \<leftarrow> appendEvent env (wp_WorkspaceID process) (wp_ID process) (gn_ID node) [] ''cc_notified'' ''system'' (gn_Name node) details;
                   ret (Inr ((''notified'', VBool True) # details)) })) }))))"

subsection \<open>One node\<close>

definition with_process :: "WorkflowProcessInstance \<Rightarrow> 'a engine \<Rightarrow> (WorkflowProcessInstance \<times> 'a) engine" where
  "with_process process m = do { r \<leftarrow> m; ret (process, r) }"

text \<open>
  A node whose configuration failed: its instance is closed with the error; what becomes of the
  update is not looked at.
\<close>

definition close_failed_node ::
    "engine_env \<Rightarrow> WorkflowProcessInstance \<Rightarrow> WorkflowNodeInstance \<Rightarrow> engine_error \<Rightarrow> (engine_error + string \<times> bool) engine" where
  "close_failed_node env process nodeInstance e = do {
     now \<leftarrow> now_text env;
     _ \<leftarrow> store (UpdateNode (ee_Store env) (wp_WorkspaceID process) (nodeInstance \<lparr> wn_Status := ''configuration_error'',
       wn_ErrorCode := serviceErrorCode e, wn_CompletedAt := now \<rparr>));
     ret (Inl e) }"

definition skipped_details :: data where
  "skipped_details = [(''reason'', VStr ''assignee_not_found''), (''policy'', VStr ''skip'')]"

definition executeApprovalNode ::
    "engine_env \<Rightarrow> WorkflowProcessInstance \<Rightarrow> WorkflowGraphNode \<Rightarrow> data \<Rightarrow> Principal \<Rightarrow> (engine_error + string \<times> bool) engine" where
  "executeApprovalNode env process node input actor = (case WorkflowApprovalRoute node of
      (route, True) \<Rightarrow> tries (activateRouteApprovalStep env process node route actor) (\<lambda>(outcome, waiting).
        if outcome = ''skipped'' then do {
          _ \<leftarrow> appendEvent env (wp_WorkspaceID process) (wp_ID process) (gn_ID node) [] ''approval_skipped'' (pr_UserID actor)
            (gn_Name node) skipped_details;
          ret (Inr (outcome, waiting)) }
        else ret (Inr (outcome, waiting)))
    | (route, False) \<Rightarrow> do {
        nodeInstance \<leftarrow> newNodeInstance env (wp_WorkspaceID process) (wp_ID process) node ''waiting'' input [];
        tries (store_or ''insert approval node'' (InsertNode (ee_Store env) (wp_WorkspaceID process) nodeInstance)) (\<lambda>_. do {
          created \<leftarrow> createApprovalTasks env process node nodeInstance;
          (case created of
             Inl e \<Rightarrow> close_failed_node env process nodeInstance e
           | Inr taskCount \<Rightarrow>
               if taskCount = 0 then do {
                 now \<leftarrow> now_text env;
                 tries (store_or ''skip approval node'' (UpdateNode (ee_Store env) (wp_WorkspaceID process) (nodeInstance
                   \<lparr> wn_Status := ''skipped'', wn_Output := skipped_details, wn_CompletedAt := now \<rparr>))) (\<lambda>_. do {
                   _ \<leftarrow> appendEvent env (wp_WorkspaceID process) (wp_ID process) (gn_ID node) [] ''approval_skipped'' (pr_UserID actor)
                     (gn_Name node) skipped_details;
                   ret (Inr (''skipped'', False)) }) }
               else do {
                 _ \<leftarrow> appendEvent env (wp_WorkspaceID process) (wp_ID process) (gn_ID node) [] ''approval_waiting'' (pr_UserID actor)
                   (gn_Name node) [];
                 ret (Inr (''waiting'', True)) }) }) })"

definition executeTimerNode ::
    "engine_env \<Rightarrow> WorkflowProcessInstance \<Rightarrow> WorkflowGraphNode \<Rightarrow> data \<Rightarrow> Principal \<Rightarrow> (engine_error + string \<times> bool) engine" where
  "executeTimerNode env process node input actor = (case ee_WaitTimers env of
      None \<Rightarrow> ret (Inl (internalError ''schedule workflow timer''))
    | Some schedule \<Rightarrow> do {
        nodeInstance \<leftarrow> newNodeInstance env (wp_WorkspaceID process) (wp_ID process) node ''waiting'' input [];
        tries (store_or ''insert timer node'' (InsertNode (ee_Store env) (wp_WorkspaceID process) nodeInstance)) (\<lambda>_. do {
          now \<leftarrow> clock env;
          (case schedule \<lparr> tw_WorkspaceID = wp_WorkspaceID process, tw_ProcessID = wp_ID process, tw_NodeID = gn_ID node,
              tw_ObjectKey = wp_ObjectKey process, tw_RecordID = wp_RecordID process, tw_Contract = WorkflowTimerNodeContract node,
              tw_Variables = WorkflowCloneMap (wp_Variables process), tw_CreatedAt = now \<rparr> of
             Inl e \<Rightarrow> close_failed_node env process nodeInstance e
           | Inr timerID \<Rightarrow> tries (store_or ''update timer node'' (UpdateNode (ee_Store env) (wp_WorkspaceID process)
               (nodeInstance \<lparr> wn_Output := [(''timer_id'', VStr timerID)] \<rparr>))) (\<lambda>_. do {
               _ \<leftarrow> appendEvent env (wp_WorkspaceID process) (wp_ID process) (gn_ID node) [] ''timer_waiting'' (pr_UserID actor)
                 (gn_Name node) [(''timer_id'', VStr timerID)];
               ret (Inr (''waiting'', True)) })) }) })"

text \<open>
  The run of an agent is correlated with the node by a digest of process, node and iteration. The
  agent is started before its node is stored; a failure of the commit leaves a started agent behind.
\<close>

definition workflowAgentTaskCorrelation :: "(string \<Rightarrow> string) \<Rightarrow> string \<Rightarrow> string \<Rightarrow> int \<Rightarrow> string \<times> string" where
  "workflowAgentTaskCorrelation sha256 processID nodeID iteration = (let
     hash = take 24 (sha256 (trim_space processID @ '':'' @ trim_space nodeID @ '':'' @ itoa iteration))
   in (''agent_node_'' @ hash, ''agent_task_'' @ hash))"

definition agent_commit :: "engine_env \<Rightarrow> WorkflowProcessInstance \<Rightarrow> WorkflowGraphNode \<Rightarrow> WorkflowAgentTaskNodeContract \<Rightarrow> Principal \<Rightarrow>
    WorkflowNodeInstance \<Rightarrow> string \<Rightarrow> string \<Rightarrow> string \<Rightarrow> string \<Rightarrow> WorkflowStateCommit" where
  "agent_commit env process node contract actor nodeInstance runID external i now = \<lparr> sc_WorkspaceID = wp_WorkspaceID process, sc_Process = None,
     sc_InsertNodes = [nodeInstance], sc_UpdateNodes = [], sc_UpdateTasks = [],
     sc_Events = [\<lparr> ev_WorkspaceID = wp_WorkspaceID process, ev_ID = i, ev_ProcessID = wp_ID process, ev_NodeID = gn_ID node, ev_TaskID = [],
       ev_Event = ''agent_task_waiting'', ev_ActorID = valueOrDefault (pr_UserID actor) ''system'', ev_Summary = gn_Name node,
       ev_Metadata = [(''task_run_id'', VStr runID), (''task_key'', VStr (at_TaskKey contract)),
         (''task_version'', VStr (at_TaskVersion contract)), (''agent_external_run_id'', VStr external)], ev_CreatedAt = now \<rparr>],
     sc_WorkflowExecution = None, sc_InsertExecutions = [] \<rparr>"

definition executeAgentTaskNode ::
    "engine_env \<Rightarrow> WorkflowProcessInstance \<Rightarrow> WorkflowGraphNode \<Rightarrow> Principal \<Rightarrow>
       (WorkflowProcessInstance \<times> (engine_error + string \<times> bool)) engine" where
  "executeAgentTaskNode env process node actor = (case ee_StartAgentTask env of
      None \<Rightarrow> ret (process, Inl (internalError ''prepare Agent Task''))
    | Some start \<Rightarrow>
        if \<not> ee_HasStateStore env then ret (process, Inl (internalError ''commit Agent Task''))
        else (case node_contract nc_AgentTask node of
            None \<Rightarrow> ret (process, Inl (bad_request ''backend.workflow.agent_task_contract_required'' [''node'', gn_ID node]))
          | Some contract \<Rightarrow> do {
              i \<leftarrow> newNodeInstance env (wp_WorkspaceID process) (wp_ID process) node ''waiting'' (WorkflowCloneMap (wp_Variables process)) [];
              (let (nodeInstanceID, runID) = workflowAgentTaskCorrelation (ee_Sha256 env) (wp_ID process) (gn_ID node) (wn_Iteration i);
                   input = ee_RenderData env (case at_Input contract of None \<Rightarrow> [] | Some d \<Rightarrow> d) (wp_Variables process) actor;
                   nodeInstance = i \<lparr> wn_ID := nodeInstanceID,
                     wn_Input := AList.update ''agent_task_run_id'' (VStr runID) (WorkflowCloneMap input) \<rparr>
               in do {
                 r \<leftarrow> start \<lparr> ap_RunID = runID, ap_WorkspaceID = wp_WorkspaceID process, ap_ProcessID = wp_ID process,
                   ap_NodeInstanceID = nodeInstanceID, ap_NodeID = gn_ID node, ap_Iteration = wn_Iteration i,
                   ap_DefinitionVersionID = wp_DefinitionVersionID process, ap_DefinitionSnapshotHash = wp_DefinitionHash process,
                   ap_Contract = contract, ap_Input = input, ap_Initiator = actor \<rparr>;
                 (case r of
                    Inl e \<Rightarrow> ret (process, Inl e)
                  | Inr (started, external) \<Rightarrow>
                      if \<not> started then ret (process, Inl (internalError ''start Agent Task''))
                      else do {
                        now \<leftarrow> now_text env;
                        eventID \<leftarrow> workflowProcessID env ''event'';
                        e \<leftarrow> transact (CommitWorkflowState (ee_Store env)
                          (agent_commit env process node contract actor nodeInstance runID external eventID now));
                        (case e of
                           Some c \<Rightarrow> ret (process, Inl (InternalErr ''commit Agent Task'' (Some c)))
                         | None \<Rightarrow> ret (if trim_space (at_OutputVariable contract) = [] then process
                             else process \<lparr> wp_Variables := AList.update (''agent_task:'' @ gn_ID node @ '':output_variable'')
                               (VStr (trim_space (at_OutputVariable contract))) (wp_Variables process) \<rparr>, Inr (''waiting'', True))) }) }) }))"

definition executeNode ::
    "engine_env \<Rightarrow> WorkflowProcessInstance \<Rightarrow> WorkflowGraphNode \<Rightarrow> Principal \<Rightarrow>
       (WorkflowProcessInstance \<times> (engine_error + string \<times> bool)) engine" where
  "executeNode env process node actor = (let input = WorkflowCloneMap (wp_Variables process); t = gn_Type node in
     if t = ''condition'' then (let matched = ee_Condition env node input in
       with_process process (tries (recordCompletedNode env process node input [(''matched'', VBool matched)] (pr_UserID actor))
         (\<lambda>_. ret (Inr (if matched then ''true'' else ''false'', False)))))
     else if t = ''approval'' then with_process process (executeApprovalNode env process node input actor)
     else if t = ''agent_task'' then executeAgentTaskNode env process node actor
     else if t = ''action'' then do {
       (process', r) \<leftarrow> executeActionNode env process node actor;
       (case r of
          Inl e \<Rightarrow> do {
            _ \<leftarrow> recordFailedNode env process' node input e (pr_UserID actor);
            (let onError = valueOrDefault (trim_space (bc_OnError (WorkflowBusinessActionNodeContract node))) ''fail'' in
             ret (process', if onError = ''continue'' then Inr (''success'', False)
               else if onError = ''error_branch'' then Inr (''error'', False) else Inl e)) }
        | Inr output \<Rightarrow> with_process process' (tries (recordCompletedNode env process' node input output (pr_UserID actor))
            (\<lambda>_. ret (Inr (''success'', False))))) }
     else if t = ''cc'' then with_process process (do {
       r \<leftarrow> executeCCNode env process node actor;
       (case r of
          Inl e \<Rightarrow> do { _ \<leftarrow> recordFailedNode env process node input e (pr_UserID actor); ret (Inl e) }
        | Inr output \<Rightarrow> tries (recordCompletedNode env process node input output (pr_UserID actor)) (\<lambda>_. ret (Inr (''success'', False)))) })
     else if t = ''wait_until'' \<or> t = ''wait_duration'' \<or> t = ''timer''
       then with_process process (executeTimerNode env process node input actor)
     else ret (process, Inl (bad_request ''backend.workflow.graph_node_type_invalid'' [''node'', gn_ID node])))"

subsection \<open>Running a process\<close>

text \<open>
  The loop over the queue of nodes. \<open>visited\<close> are the nodes it has run, latest first, each with the
  outcome it took, or none when it has to wait for it; \<open>waiting\<close> are the nodes it has to wait for.
  It ends with the waiting nodes, with the error of the context, or with the process that
  \<open>failProcess\<close> returns and its error.
\<close>

datatype loop_end = LoopDone "string list" | LoopError "engine_error option"

type_synonym visits = "(string \<times> string option) list"

abbreviation run_nodes :: "visits \<Rightarrow> string set" where
  "run_nodes visited \<equiv> fst ` set visited"

definition fail_loop ::
    "engine_env \<Rightarrow> WorkflowProcessInstance \<Rightarrow> string \<Rightarrow> string \<Rightarrow> visits \<Rightarrow> engine_state \<Rightarrow>
       (WorkflowProcessInstance \<times> loop_end \<times> visits) \<times> engine_state" where
  "fail_loop env process code actorID visited s = (case run_state (failProcess env process code actorID) s of
     ((process', e), s') \<Rightarrow> ((process', LoopError e, visited), s'))"

function run_loop :: "engine_env \<Rightarrow> WorkflowGraphSchema option \<Rightarrow> Principal \<Rightarrow> visits \<Rightarrow> string list \<Rightarrow> string list \<Rightarrow>
    WorkflowProcessInstance \<Rightarrow> engine_state \<Rightarrow> (WorkflowProcessInstance \<times> loop_end \<times> visits) \<times> engine_state" where
  "run_loop env graph actor visited [] waiting process s = ((process, LoopDone waiting, visited), s)"
| "run_loop env graph actor visited (nodeID # queue) waiting process s =
     (case ee_Err env (es_Tick s) of
        Some e \<Rightarrow> ((process, LoopError (Some e), visited), s)
      | None \<Rightarrow>
          if nodeID \<in> run_nodes visited then run_loop env graph actor visited queue waiting process s
          else if \<not> snd (WorkflowGraphNode graph nodeID)
            then fail_loop env process ''backend.workflow.graph_node_missing'' (pr_UserID actor) visited s
          else (let node = fst (WorkflowGraphNode graph nodeID); r = run_state (executeNode env process node actor) s;
              process' = fst (fst r); s' = snd r
            in (case snd (fst r) of
                Inl e \<Rightarrow> fail_loop env process' (serviceErrorCode e) (pr_UserID actor) visited s'
              | Inr (outcome, nodeWaiting) \<Rightarrow>
                  if nodeWaiting
                    then run_loop env graph actor ((nodeID, None) # visited) queue (appendUniqueString waiting (gn_ID node)) process' s'
                  else run_loop env graph actor ((nodeID, Some outcome) # visited)
                    (queue @ nextNodeIDs graph (gn_ID node) outcome) waiting process' s')))"
  by pat_completeness auto

definition graph_ids :: "WorkflowGraphSchema option \<Rightarrow> string set" where
  "graph_ids graph = (case graph of None \<Rightarrow> {} | Some g \<Rightarrow> gn_ID ` set (gs_Nodes g))"

lemma find_node_Some: "find_node ns i = Some n \<Longrightarrow> n \<in> set ns \<and> gn_ID n = i"
  by (induction ns) (auto split: if_splits)

lemma graph_node_found:
  "snd (WorkflowGraphNode graph i) \<Longrightarrow> gn_ID (fst (WorkflowGraphNode graph i)) = i \<and> i \<in> graph_ids graph"
  by (auto simp: WorkflowGraphNode_def graph_ids_def image_iff dest: find_node_Some split: option.splits)

lemma graph_ids_finite: "finite (graph_ids graph)"
  by (simp add: graph_ids_def split: option.split)

lemma graph_ids_visited:
  assumes "snd (WorkflowGraphNode graph i)" and "i \<notin> run_nodes visited"
  shows "card (graph_ids graph - run_nodes ((i, r) # visited)) < card (graph_ids graph - run_nodes visited)"
proof (rule psubset_card_mono)
  show "finite (graph_ids graph - run_nodes visited)" using graph_ids_finite by blast
  show "graph_ids graph - run_nodes ((i, r) # visited) \<subset> graph_ids graph - run_nodes visited"
    using graph_node_found [OF assms(1)] assms(2) by auto
qed

text \<open>Every round either runs a node that was not run before or shortens the queue.\<close>

termination run_loop
  by (relation "measures [\<lambda>(env, graph, actor, visited, queue, waiting, process, s). card (graph_ids graph - run_nodes visited),
      \<lambda>(env, graph, actor, visited, queue, waiting, process, s). length queue]")
    (use graph_ids_visited in auto)

definition runWithContext ::
    "engine_env \<Rightarrow> WorkflowProcessInstance \<Rightarrow> string list \<Rightarrow> string list \<Rightarrow> Principal \<Rightarrow>
       (WorkflowProcessInstance \<times> engine_error option) engine" where
  "runWithContext env process queue waiting actor = do {
     (process, result, visited) \<leftarrow> State (run_loop env (ws_Graph (wp_DefinitionSnapshot process)) actor [] queue waiting process);
     (case result of
        LoopError e \<Rightarrow> ret (process, e)
      | LoopDone waiting \<Rightarrow> do {
          now \<leftarrow> now_text env;
          let process = process \<lparr> wp_UpdatedAt := now, wp_CurrentNodeIDs := uniqueSortedStrings waiting \<rparr>;
          let process = (if waiting \<noteq> [] then process \<lparr> wp_Status := ''waiting'' \<rparr>
            else process \<lparr> wp_Status := ''completed'', wp_CompletedAt := now \<rparr>);
          e \<leftarrow> store (UpdateProcess (ee_Store env) (wp_WorkspaceID process) process);
          (case e of
             Some c \<Rightarrow> ret (process, Some (InternalErr ''update workflow process'' (Some c)))
           | None \<Rightarrow> if wp_Status process = ''completed'' then do {
                 _ \<leftarrow> appendEvent env (wp_WorkspaceID process) (wp_ID process) [] [] ''process_completed'' (pr_UserID actor)
                   ''workflow.event.process.completed'' [];
                 ret (process, None) }
               else ret (process, None)) }) }"

subsection \<open>Starting and resuming\<close>

text \<open>What \<open>Start\<close> and the activation of a staged process do alike: the trigger is recorded and its successors run.\<close>

definition run_trigger :: "engine_env \<Rightarrow> WorkflowProcessInstance \<Rightarrow> string \<Rightarrow> Principal \<Rightarrow>
    (WorkflowProcessInstance \<times> engine_error option) engine" where
  "run_trigger env process initiator actor = (let
     graph = ws_Graph (wp_DefinitionSnapshot process); trigger = WorkflowGraphTrigger graph
   in do {
     _ \<leftarrow> appendEvent env (wp_WorkspaceID process) (wp_ID process) [] [] ''process_started'' initiator ''workflow.event.process.started''
       [(''workflow_key'', VStr (wp_WorkflowKey process))];
     i \<leftarrow> newNodeInstance env (wp_WorkspaceID process) (wp_ID process) trigger ''success'' (wp_Variables process) [(''triggered'', VBool True)];
     e \<leftarrow> store (InsertNode (ee_Store env) (wp_WorkspaceID process) i);
     (case e of
        Some c \<Rightarrow> failProcess env process ''backend.workflow.node_insert_failed'' (pr_UserID actor)
      | None \<Rightarrow> do {
          _ \<leftarrow> appendEvent env (wp_WorkspaceID process) (wp_ID process) (gn_ID trigger) [] ''node_completed'' (pr_UserID actor)
            (gn_Name trigger) [(''node_type'', VStr (gn_Type trigger))];
          runWithContext env (process \<lparr> wp_Status := ''running'' \<rparr>) (nextNodeIDs graph (gn_ID trigger) ''success'') [] actor }) })"

definition started_process :: "engine_env \<Rightarrow> WorkflowSchema \<Rightarrow> data \<Rightarrow> Principal \<Rightarrow> string \<Rightarrow> string \<Rightarrow> WorkflowProcessInstance" where
  "started_process env workflow variables actor i now = (let
     v = WorkflowCloneMap variables;
     given = WorkflowPayloadString v ''object_key'';
     objectKey = (if given = [] then (case ws_TriggerContract workflow of Some t \<Rightarrow> trim_space (tr_ObjectKey t) | None \<Rightarrow> []) else given);
     v = (if given = [] \<and> objectKey \<noteq> [] then AList.update ''object_key'' (VStr objectKey) v else v);
     recordID = WorkflowPayloadString v ''record_id'';
     v = (if recordID \<noteq> [] then AList.update ''record_id'' (VStr recordID) v else v)
   in zero_process \<lparr> wp_WorkspaceID := pr_WorkspaceID actor, wp_ID := i, wp_WorkflowKey := ws_Key workflow, wp_WorkflowName := ws_Name workflow,
     wp_DefinitionVersionID := ws_DefinitionVersionID workflow, wp_DefinitionVersion := WorkflowPublishedVersion workflow,
     wp_DefinitionHash := ee_DefinitionHash env workflow, wp_DefinitionSnapshot := workflow, wp_ObjectKey := objectKey,
     wp_RecordID := recordID, wp_InitiatorID := pr_UserID actor, wp_InitiatorRoleKey := pr_RoleKey actor, wp_Status := ''running'',
     wp_Variables := v, wp_Result := [], wp_CreatedAt := now, wp_UpdatedAt := now \<rparr>)"

text \<open>An error without a process is given with the zero process.\<close>

definition refused :: "engine_error \<Rightarrow> (WorkflowProcessInstance \<times> engine_error option) engine" where
  "refused e = ret (zero_process, Some e)"

text \<open>The validation sets a version in place, so that the process keeps it.\<close>

definition Start :: "engine_env \<Rightarrow> Workflow_Graph.workflow_env \<Rightarrow> WorkflowSchema \<Rightarrow> data \<Rightarrow> Principal \<Rightarrow>
    (WorkflowProcessInstance \<times> engine_error option) engine" where
  "Start env genv workflow variables actor = (case workflowAuthorizeCommand actor of
      Some e \<Rightarrow> refused e
    | None \<Rightarrow> (case ws_Graph workflow of
        None \<Rightarrow> refused (bad_request ''backend.workflow.process_graph_required'' [])
      | Some graph \<Rightarrow>
          if gs_Nodes graph = [] then refused (bad_request ''backend.workflow.process_graph_required'' [])
          else (case WorkflowValidateGraph genv (Some graph) of
              (graph', Some e) \<Rightarrow> refused (AppErr e)
            | (graph', None) \<Rightarrow> do {
                now \<leftarrow> now_text env;
                i \<leftarrow> workflowProcessID env ''process'';
                let process = started_process env (workflow \<lparr> ws_Graph := graph' \<rparr>) variables actor i now;
                e \<leftarrow> store (InsertProcess (ee_Store env) (pr_WorkspaceID actor) process);
                (case e of
                   Some c \<Rightarrow> refused (InternalErr ''insert workflow process'' (Some c))
                 | None \<Rightarrow> run_trigger env process (pr_UserID actor) actor) })))"

definition activateStartingProcess :: "engine_env \<Rightarrow> WorkflowProcessInstance \<Rightarrow> Principal \<Rightarrow>
    (WorkflowProcessInstance \<times> engine_error option) engine" where
  "activateStartingProcess env process actor =
     (if trim_space (wp_Status process) \<noteq> ''starting'' then ret (process, None)
      else (case ws_Graph (wp_DefinitionSnapshot process) of
          None \<Rightarrow> failProcess env process ''backend.workflow.process_graph_required'' (pr_UserID actor)
        | Some graph \<Rightarrow>
            if gs_Nodes graph = [] then failProcess env process ''backend.workflow.process_graph_required'' (pr_UserID actor)
            else run_trigger env process (wp_InitiatorID process) actor))"

definition containsWorkflowString :: "string list \<Rightarrow> string \<Rightarrow> bool" where
  "containsWorkflowString values expected \<longleftrightarrow> (\<exists>v \<in> set values. trim_space v = trim_space expected)"

text \<open>The last waiting instance of the node resumes; a node that succeeded before does not resume again.\<close>

definition ResumeTimerNode :: "engine_env \<Rightarrow> string \<Rightarrow> string \<Rightarrow> string \<Rightarrow> Principal \<Rightarrow>
    (WorkflowProcessInstance \<times> engine_error option) engine" where
  "ResumeTimerNode env workspaceID processID nodeID actor = (case workflowAuthorizeCommand actor of
      Some e \<Rightarrow> refused e
    | None \<Rightarrow> do {
        found \<leftarrow> read_db (GetProcess (ee_Store env) workspaceID (trim_space processID));
        (case found of
           Inl e \<Rightarrow> refused (InternalErr ''get timer workflow process'' (Some e))
         | Inr None \<Rightarrow> refused (notFound ''backend.workflow.process_not_found'')
         | Inr (Some process) \<Rightarrow> do {
             listed \<leftarrow> read_db (ListNodes (ee_Store env) workspaceID (wp_ID process));
             (case listed of
                Inl e \<Rightarrow> refused (InternalErr ''list timer workflow nodes'' (Some e))
              | Inr nodes \<Rightarrow> (let waiting = filter (\<lambda>n. wn_NodeID n = nodeID \<and> wn_Status n = ''waiting'') nodes;
                   late = ret (process, Some (conflict ''backend.workflow.timer_node_not_waiting'' []))
                 in if \<exists>n \<in> set nodes. wn_NodeID n = nodeID \<and> wn_Status n = ''success'' then ret (process, None)
                    else if wp_Status process \<noteq> ''waiting'' \<or> \<not> containsWorkflowString (wp_CurrentNodeIDs process) nodeID then late
                    else if waiting = [] then late
                    else do {
                      completed \<leftarrow> now_text env;
                      now \<leftarrow> now_text env;
                      let node = (last waiting) \<lparr> wn_Status := ''success'', wn_CompletedAt := completed,
                        wn_Output := AList.update ''resumed'' (VBool True) (wn_Output (last waiting)) \<rparr>;
                      let claimed = process \<lparr> wp_Status := ''running'', wp_UpdatedAt := now \<rparr>;
                      r \<leftarrow> transact (ClaimWorkflowTimer (ee_Store env) workspaceID claimed node (wp_UpdatedAt process));
                      (case r of
                         Inl e \<Rightarrow> ret (claimed, Some (InternalErr ''claim workflow timer process'' (Some e)))
                       | Inr False \<Rightarrow> ret (claimed, Some (conflict ''backend.workflow.timer_node_not_waiting'' []))
                       | Inr True \<Rightarrow> do {
                           _ \<leftarrow> appendEvent env workspaceID (wp_ID process) nodeID [] ''timer_fired'' (pr_UserID actor)
                             ''workflow.event.timer.fired'' [];
                           runWithContext env claimed (nextNodeIDs (ws_Graph (wp_DefinitionSnapshot process)) nodeID ''success'')
                             (WorkflowRemoveString (wp_CurrentNodeIDs process) nodeID) actor }) })) }) })"

subsection \<open>The rule of the loop\<close>

text \<open>
  How a run can stop at a node before its queue is empty: the context has ended, the graph has no
  such node, or the handler of the node failed; in the last two cases the process is failed.
\<close>

definition loop_stops :: "engine_env \<Rightarrow> WorkflowGraphSchema option \<Rightarrow> Principal \<Rightarrow> string \<Rightarrow> WorkflowProcessInstance \<Rightarrow> engine_state \<Rightarrow>
    WorkflowProcessInstance \<Rightarrow> engine_error option \<Rightarrow> engine_state \<Rightarrow> bool" where
  "loop_stops env graph actor nodeID process s process' e s' \<longleftrightarrow>
     e \<noteq> None \<and> e = ee_Err env (es_Tick s) \<and> process' = process \<and> s' = s \<or>
     \<not> snd (WorkflowGraphNode graph nodeID) \<and>
       run_state (failProcess env process ''backend.workflow.graph_node_missing'' (pr_UserID actor)) s = ((process', e), s') \<or>
     (\<exists>cause p t. snd (WorkflowGraphNode graph nodeID) \<and>
        run_state (executeNode env process (fst (WorkflowGraphNode graph nodeID)) actor) s = ((p, Inl cause), t) \<and>
        run_state (failProcess env p (serviceErrorCode cause) (pr_UserID actor)) t = ((process', e), s'))"

lemma run_fail: "run_state (failProcess env process code a) s = ((process', e), t) \<Longrightarrow>
    e = Some (bad_request (valueOrDefault (trim_space code) ''backend.workflow.process_failed'') []) \<and> wp_Status process' = ''configuration_error''"
  by (auto simp: failProcess_def Let_def split: prod.splits)

lemma node_answer:
  fixes x :: "'e + 'a \<times> bool"
  obtains (Failed) e where "x = Inl e" | (Waits) oc where "x = Inr (oc, True)" | (Goes) oc where "x = Inr (oc, False)"
proof (cases x)
  case (Inr y)
  then show ?thesis using that by (cases y; cases "snd y") auto
qed (use that in blast)

text \<open>What every round keeps holds when the run ends or stops.\<close>

lemma run_loop_rule:
  assumes "run_loop env graph actor visited queue waiting process s = ((process', result, visited'), s')"
    and "P visited queue waiting process s"
    and "\<And>v i q w p s. P v (i # q) w p s \<Longrightarrow> i \<in> run_nodes v \<Longrightarrow> P v q w p s"
    and "\<And>v i q w p s p' oc s'. P v (i # q) w p s \<Longrightarrow> i \<notin> run_nodes v \<Longrightarrow> snd (WorkflowGraphNode graph i) \<Longrightarrow>
      run_state (executeNode env p (fst (WorkflowGraphNode graph i)) actor) s = ((p', Inr (oc, True)), s') \<Longrightarrow>
      P ((i, None) # v) q (appendUniqueString w i) p' s'"
    and "\<And>v i q w p s p' oc s'. P v (i # q) w p s \<Longrightarrow> i \<notin> run_nodes v \<Longrightarrow> snd (WorkflowGraphNode graph i) \<Longrightarrow>
      run_state (executeNode env p (fst (WorkflowGraphNode graph i)) actor) s = ((p', Inr (oc, False)), s') \<Longrightarrow>
      P ((i, Some oc) # v) (q @ nextNodeIDs graph i oc) w p' s'"
  shows "case result of LoopDone w \<Rightarrow> P visited' [] w process' s'
    | LoopError e \<Rightarrow> \<exists>i q w p t. P visited' (i # q) w p t \<and> loop_stops env graph actor i p t process' e s'"
  using assms
proof (induction env graph actor visited queue waiting process s rule: run_loop.induct)
  case (1 env graph actor visited waiting process s)
  then show ?case by auto
next
  case (2 env graph actor visited i queue waiting process s)
  note run = 2(4) and P = 2(5) and keep = 2(6-8)
  let ?node = "fst (WorkflowGraphNode graph i)"
  let ?r = "run_state (executeNode env process ?node actor) s"
  have stopped: "case result of LoopDone w \<Rightarrow> P visited' [] w process' s'
      | LoopError e \<Rightarrow> \<exists>i q w p t. P visited' (i # q) w p t \<and> loop_stops env graph actor i p t process' e s'"
    if "result = LoopError e" "visited' = visited" "loop_stops env graph actor i process s process' e s'" for e
    unfolding that(1,2) loop_end.case using that(3) P by blast
  obtain p x t where r: "?r = ((p, x), t)" by (metis surj_pair)
  consider (ctx) e where "ee_Err env (es_Tick s) = Some e"
    | (seen) "ee_Err env (es_Tick s) = None" "i \<in> run_nodes visited"
    | (missing) "ee_Err env (es_Tick s) = None" "i \<notin> run_nodes visited" "\<not> snd (WorkflowGraphNode graph i)"
    | (failed) e p t where "ee_Err env (es_Tick s) = None" "i \<notin> run_nodes visited" "snd (WorkflowGraphNode graph i)" "?r = ((p, Inl e), t)"
    | (waits) p oc t where "ee_Err env (es_Tick s) = None" "i \<notin> run_nodes visited" "snd (WorkflowGraphNode graph i)" "?r = ((p, Inr (oc, True)), t)"
    | (goes) p oc t where "ee_Err env (es_Tick s) = None" "i \<notin> run_nodes visited" "snd (WorkflowGraphNode graph i)" "?r = ((p, Inr (oc, False)), t)"
    using r by (cases "ee_Err env (es_Tick s)"; cases rule: node_answer [of x]) blast+
  then show ?case
  proof cases
    case ctx
    with run show ?thesis by (intro stopped) (auto simp: loop_stops_def)
  next
    case seen
    with run have "run_loop env graph actor visited queue waiting process s = ((process', result, visited'), s')" by simp
    from 2(1) [OF seen this keep(1) [OF P seen(2)] keep] show ?thesis .
  next
    case missing
    obtain p' e' t' where f: "run_state (failProcess env process ''backend.workflow.graph_node_missing'' (pr_UserID actor)) s = ((p', e'), t')"
      by (metis surj_pair)
    from missing run f show ?thesis by (intro stopped) (auto simp: loop_stops_def fail_loop_def)
  next
    case (failed e p t)
    obtain p' e' t' where f: "run_state (failProcess env p (serviceErrorCode e) (pr_UserID actor)) t = ((p', e'), t')" by (metis surj_pair)
    from failed run f show ?thesis by (intro stopped) (auto simp: loop_stops_def fail_loop_def)
  next
    case (waits p oc t)
    note n = graph_node_found [OF waits(3)]
    from waits run n have "run_loop env graph actor ((i, None) # visited) queue (appendUniqueString waiting i) p t =
      ((process', result, visited'), s')" by simp
    with waits n 2(2) [OF waits(1,2) _ refl refl refl refl, of "(oc, True)" oc True] keep(2) [OF P waits(2,3,4)] keep show ?thesis by simp
  next
    case (goes p oc t)
    note n = graph_node_found [OF goes(3)]
    from goes run n have "run_loop env graph actor ((i, Some oc) # visited) (queue @ nextNodeIDs graph i oc) waiting p t =
      ((process', result, visited'), s')" by simp
    with goes n 2(3) [OF goes(1,2) _ refl refl refl refl, of "(oc, False)" oc False] keep(3) [OF P goes(2,3,4)] keep show ?thesis by simp
  qed
qed

subsection \<open>Everything the engine stores is a step of the store\<close>

text \<open>Actions and agents may change the tables themselves; they are asked to keep to the operations of the store.\<close>

definition services_keep_steps :: "engine_env \<Rightarrow> bool" where
  "services_keep_steps env \<longleftrightarrow> (\<forall>i. db_steps (ee_Invoke env i)) \<and>
     (\<forall>start p. ee_StartAgentTask env = Some start \<longrightarrow> db_steps (start p))"

lemma db_steps_approval [steps]:
  "db_steps (create_task env process node i t n a)" "db_steps (createApprovalTasks env process node inst)"
  "db_steps (close_failed_node env process inst e)" "db_steps (executeApprovalNode env process node input actor)"
  "db_steps (executeTimerNode env process node input actor)"
proof -
  show c: "db_steps (create_task env process node i t n a)" for i t n a unfolding create_task_def Let_def by (intro steps)
  show t: "db_steps (createApprovalTasks env process node inst)" for inst unfolding createApprovalTasks_def by (intro steps c)
  show f: "db_steps (close_failed_node env process inst e)" for inst e unfolding close_failed_node_def by (intro steps)
  show "db_steps (executeApprovalNode env process node input actor)"
    unfolding executeApprovalNode_def by (auto intro!: steps t f split: prod.split bool.split)
  show "db_steps (executeTimerNode env process node input actor)" unfolding executeTimerNode_def by (intro steps f)
qed

lemma db_steps_let [steps]: "(\<And>x. db_steps (f x)) \<Longrightarrow> db_steps (Let v f)"
  by simp

lemma db_steps_with_process [steps]: "db_steps m \<Longrightarrow> db_steps (with_process process m)"
  unfolding with_process_def by (intro steps)

lemma db_steps_invoke: "services_keep_steps env \<Longrightarrow> db_steps (ee_Invoke env i)"
  by (simp add: services_keep_steps_def)

lemma db_steps_attempts: "services_keep_steps env \<Longrightarrow> db_steps (invoke_attempts env process node call k n attempt)"
  by (induction n arbitrary: attempt) (auto intro!: steps db_steps_invoke)

lemma db_steps_agent: "services_keep_steps env \<Longrightarrow> db_steps (executeAgentTaskNode env process node actor)"
  unfolding executeAgentTaskNode_def
  by (auto intro!: steps simp: services_keep_steps_def split: option.split)

lemma db_steps_node:
  assumes "services_keep_steps env"
  shows "db_steps (executeNode env process node actor)"
proof -
  have "db_steps (executeActionNode env process node actor)" unfolding executeActionNode_def
    by (intro steps db_steps_attempts assms)
  moreover have "db_steps (executeCCNode env process node actor)" unfolding executeCCNode_def
    by (intro steps db_steps_invoke assms)
  ultimately show ?thesis unfolding executeNode_def by (intro steps db_steps_agent assms)
qed

lemma db_steps_loop:
  assumes "services_keep_steps env"
  shows "db_steps (State (run_loop env graph actor visited queue waiting process))"
  unfolding db_steps_def
proof
  fix s
  obtain process' result visited' s' where r: "run_loop env graph actor visited queue waiting process s = ((process', result, visited'), s')"
    by (metis surj_pair)
  note node = db_stepsD [OF db_steps_node [OF assms]] and fail = db_stepsD [OF db_steps_parts(2)]
  have "case result of LoopDone w \<Rightarrow> workflow_step\<^sup>*\<^sup>* (es_DB s) (es_DB s')
    | LoopError e \<Rightarrow> \<exists>i (q :: string list) (w :: string list) p t. workflow_step\<^sup>*\<^sup>* (es_DB s) (es_DB t) \<and> loop_stops env graph actor i p t process' e s'"
    by (rule run_loop_rule [where P = "\<lambda>v q w p t. workflow_step\<^sup>*\<^sup>* (es_DB s) (es_DB t)", OF r]) (auto dest!: node)
  then have "workflow_step\<^sup>*\<^sup>* (es_DB s) (es_DB s')"
    by (auto simp: loop_stops_def split: loop_end.splits dest!: node fail)
  then show "workflow_step\<^sup>*\<^sup>* (es_DB s) (es_DB (snd (run_state (State (run_loop env graph actor visited queue waiting process)) s)))"
    by (simp add: r)
qed

lemma db_steps_run: "services_keep_steps env \<Longrightarrow> db_steps (runWithContext env process queue waiting actor)"
  unfolding runWithContext_def by (rule db_steps_bind, rule db_steps_loop, assumption)
    (auto intro!: steps split: prod.split loop_end.split)

lemma db_steps_start:
  assumes "services_keep_steps env"
  shows "db_steps (run_trigger env process i actor)" "db_steps (Start env genv workflow variables actor)"
    "db_steps (activateStartingProcess env process actor)" "db_steps (ResumeTimerNode env w p n actor)"
proof -
  show t: "db_steps (run_trigger env process i actor)" for process i
    unfolding run_trigger_def by (intro steps db_steps_run assms)
  show "db_steps (Start env genv workflow variables actor)"
    unfolding Start_def refused_def by (auto intro!: steps t split: option.split prod.split)
  show "db_steps (activateStartingProcess env process actor)"
    unfolding activateStartingProcess_def by (intro steps t)
  show "db_steps (ResumeTimerNode env w p n actor)"
    unfolding ResumeTimerNode_def refused_def Let_def
    by (auto intro!: steps db_steps_run assms split: option.split sum.split bool.split)
qed

end
