(* ===== verification/Workflow_Run.thy ===== *)
theory Workflow_Run
  imports Workflow_Engine
begin

text \<open>
  The properties of a run of the process engine: which nodes it reaches, what it waits for, how it
  fails, and that a process, node or task that was withdrawn stays withdrawn whatever the engine does.
\<close>

subsection \<open>What a run reaches\<close>

lemma set_append_unique: "set (appendUniqueString xs v) = set xs \<union> (if trim_space v = [] then {} else {trim_space v})"
  by (auto simp: appendUniqueString_def Let_def)

lemma next_nodes_edges:
  assumes "\<forall>e \<in> set (gs_Edges g). trimmed (ge_Source e)" and "v \<in> set (nextNodeIDs (Some g) u oc)"
  shows "(u, v) \<in> edge_rel g"
proof -
  have "v \<in> set acc \<or> (\<exists>e \<in> set es. ge_Source e = u \<and> trim_space (ge_Target e) = v)"
    if "v \<in> set (foldl (\<lambda>out edge. if ge_Source edge \<noteq> u \<or> \<not> WorkflowEdgeMatches edge oc then out
        else appendUniqueString out (ge_Target edge)) acc es)" for acc es
    using that
  proof (induction es arbitrary: acc)
    case (Cons e es)
    from Cons.IH [OF Cons.prems [unfolded foldl.simps]] show ?case by (auto simp: set_append_unique split: if_splits)
  qed simp
  from this [of "[]" "gs_Edges g"] assms show ?thesis
    by (fastforce simp: nextNodeIDs_def edge_rel_def image_iff)
qed

text \<open>
  A run over an accepted graph without padded ids: what has run is distinct and reachable, what a
  finished node leads to has run or is queued, and the waiting nodes are those given and those that wait.
\<close>

definition run_invariant :: "WorkflowGraphSchema \<Rightarrow> string list \<Rightarrow> string list \<Rightarrow> visits \<Rightarrow> string list \<Rightarrow> string list \<Rightarrow> bool" where
  "run_invariant g queue0 waiting0 visited queue waiting \<longleftrightarrow>
     distinct (map fst visited) \<and> set queue0 \<subseteq> run_nodes visited \<union> set queue \<and>
     run_nodes visited \<union> set queue \<subseteq> {v. \<exists>q \<in> set queue0. (q, v) \<in> (edge_rel g)\<^sup>*} \<and>
     (\<forall>u oc. (u, Some oc) \<in> set visited \<longrightarrow> set (nextNodeIDs (Some g) u oc) \<subseteq> run_nodes visited \<union> set queue) \<and>
     set waiting = set waiting0 \<union> {u. (u, None) \<in> set visited}"

definition plain_graph :: "WorkflowGraphSchema \<Rightarrow> bool" where
  "plain_graph g \<longleftrightarrow> (\<forall>n \<in> set (gs_Nodes g). trimmed (gn_ID n)) \<and> (\<forall>e \<in> set (gs_Edges g). trimmed (ge_Source e))"

lemma plain_graph_id:
  assumes "plain_graph g" and "[] \<notin> set (node_ids g)" and "snd (WorkflowGraphNode (Some g) i)"
  shows "trim_space i = i \<and> i \<noteq> []"
proof -
  from graph_node_found [OF assms(3)] obtain n where "n \<in> set (gs_Nodes g)" "gn_ID n = i" by (auto simp: graph_ids_def)
  with assms(1,2) show ?thesis by (force simp: plain_graph_def node_ids_def)
qed

lemma find_node_None: "find_node ns i = None \<longleftrightarrow> i \<notin> gn_ID ` set ns"
  by (induction ns) auto

lemma plain_graph_finds:
  assumes "plain_graph g" and "i \<in> set (node_ids g)"
  shows "snd (WorkflowGraphNode (Some g) i)"
proof -
  from assms obtain n where "n \<in> set (gs_Nodes g)" "gn_ID n = i" by (auto simp: plain_graph_def node_ids_def)
  then have "find_node (gs_Nodes g) i \<noteq> None" by (auto simp: find_node_None)
  then show ?thesis by (auto simp: WorkflowGraphNode_def split: option.split)
qed

lemma run_loop_invariant:
  assumes "run_loop env (Some g) actor [] queue waiting process s = ((process', result, visited), s')"
    and "plain_graph g" and "[] \<notin> set (node_ids g)"
  shows "case result of LoopDone w \<Rightarrow> run_invariant g queue waiting visited [] w
    | LoopError e \<Rightarrow> \<exists>i q w p t. run_invariant g queue waiting visited (i # q) w \<and> loop_stops env (Some g) actor i p t process' e s'"
proof (rule run_loop_rule [where P = "\<lambda>v q w p t. run_invariant g queue waiting v q w", OF assms(1)])
  show "run_invariant g queue waiting [] queue waiting" by (auto simp: run_invariant_def)
  show "run_invariant g queue waiting v q w" if "run_invariant g queue waiting v (i # q) w" "i \<in> run_nodes v" for v i q w
  proof -
    from that(2) have "run_nodes v \<union> set (i # q) = run_nodes v \<union> set q" by auto
    with that(1) show ?thesis unfolding run_invariant_def by simp
  qed
  show "run_invariant g queue waiting ((i, None) # v) q (appendUniqueString w i)"
    if "run_invariant g queue waiting v (i # q) w" "i \<notin> run_nodes v" "snd (WorkflowGraphNode (Some g) i)" for v i q w
    using that plain_graph_id [OF assms(2,3) that(3)] unfolding run_invariant_def by (auto simp: set_append_unique)
  show "run_invariant g queue waiting ((i, Some oc) # v) (q @ nextNodeIDs (Some g) i oc) w"
    if "run_invariant g queue waiting v (i # q) w" "i \<notin> run_nodes v" for v i q w oc
  proof -
    have "(i, u) \<in> edge_rel g" if "u \<in> set (nextNodeIDs (Some g) i oc)" for u
      using next_nodes_edges [OF _ that] assms(2) by (simp add: plain_graph_def)
    with that show ?thesis unfolding run_invariant_def by (auto 4 4 intro: rtrancl_into_rtrancl)
  qed
qed

lemma set_uniqueSortedStrings: "set (uniqueSortedStrings xs) = trim_space ` set xs - {[]}"
  by (auto simp: uniqueSortedStrings_def set_uniq_acc)

lemma run_loop_nodes:
  assumes "run_loop env graph actor [] queue waiting process s = ((process', LoopDone w, visited), s')"
  shows "\<forall>u \<in> run_nodes visited. snd (WorkflowGraphNode graph u)"
proof -
  have "case LoopDone w of LoopDone w \<Rightarrow> \<forall>u \<in> run_nodes visited. snd (WorkflowGraphNode graph u)
    | LoopError e \<Rightarrow> \<exists>i (q :: string list) (w :: string list) p t. (\<forall>u \<in> run_nodes visited. snd (WorkflowGraphNode graph u)) \<and>
        loop_stops env graph actor i p t process' e s'"
    by (rule run_loop_rule [where P = "\<lambda>v q w p t. \<forall>u \<in> run_nodes v. snd (WorkflowGraphNode graph u)", OF assms]) auto
  then show ?thesis by simp
qed

text \<open>How a run ends that ends without error.\<close>

lemma run_complete:
  assumes "run_state (runWithContext env process queue waiting actor) s = ((process', None), s')"
    and "ws_Graph (wp_DefinitionSnapshot process) = Some g" and "accepted genv g" and "plain_graph g"
    and "\<forall>x \<in> set waiting. trim_space x = x \<and> x \<noteq> []"
  shows "\<exists>p w visited t. run_loop env (Some g) actor [] queue waiting process s = ((p, LoopDone w, visited), t) \<and>
    distinct (map fst visited) \<and> set queue \<subseteq> run_nodes visited \<and>
    run_nodes visited \<subseteq> {v. \<exists>q \<in> set queue. (q, v) \<in> (edge_rel g)\<^sup>*} \<and>
    (\<forall>u oc. (u, Some oc) \<in> set visited \<longrightarrow> set (nextNodeIDs (Some g) u oc) \<subseteq> run_nodes visited) \<and>
    set (wp_CurrentNodeIDs process') = set waiting \<union> {u. (u, None) \<in> set visited} \<and>
    wp_Status process' = (if wp_CurrentNodeIDs process' = [] then ''completed'' else ''waiting'')"
proof -
  have blank: "[] \<notin> set (node_ids g)" using assms(3) build_tables_keys(5) by (auto simp: accepted_iff)
  obtain p result visited t where r: "run_loop env (Some g) actor [] queue waiting process s = ((p, result, visited), t)" by (metis surj_pair)
  have "result \<noteq> LoopError e" for e
  proof
    assume e: "result = LoopError e"
    with run_loop_invariant [OF r assms(4) blank] obtain i p0 t0 where "loop_stops env (Some g) actor i p0 t0 p e t" by auto
    then have "e \<noteq> None" by (auto simp: loop_stops_def dest: run_fail)
    with assms(1,2) r e show False by (simp add: runWithContext_def)
  qed
  then obtain w where w: "result = LoopDone w" by (cases result) auto
  from run_loop_invariant [OF r assms(4) blank] w have v: "run_invariant g queue waiting visited [] w" by simp
  have nodes: "trim_space u = u \<and> u \<noteq> []" if "u \<in> set w" for u
    using v that assms(5) run_loop_nodes [OF r [unfolded w]] plain_graph_id [OF assms(4) blank] unfolding run_invariant_def by force
  then have set: "set (uniqueSortedStrings w) = set w" by (force simp: set_uniqueSortedStrings)
  then have "uniqueSortedStrings w = [] \<longleftrightarrow> w = []" by (metis set_empty)
  with assms(1,2) r w set v show ?thesis
    unfolding run_invariant_def by (auto simp: runWithContext_def Let_def run_bind_eq simp del: run_state_bind split: option.splits if_splits)
qed

text \<open>
  C26: a run leaves nothing out and runs nothing twice. When the engine runs an accepted graph
  without padded ids and ends without error, it has run different nodes, all reachable from the
  queue it was given: every node of the queue, and every node that the outcome of a finished node
  leads to. The process then waits for exactly the nodes that were waited for before and the nodes
  of this run that wait, and it is completed exactly when there are none.
\<close>

theorem engine_run_complete:
  assumes "run_state (runWithContext env process queue waiting actor) s = ((process', None), s')"
    and "ws_Graph (wp_DefinitionSnapshot process) = Some g" and "accepted genv g" and "plain_graph g"
    and "\<forall>x \<in> set waiting. trim_space x = x \<and> x \<noteq> []"
  shows "\<exists>p w visited t. run_loop env (Some g) actor [] queue waiting process s = ((p, LoopDone w, visited), t) \<and>
    distinct (map fst visited) \<and> set queue \<subseteq> run_nodes visited \<and>
    run_nodes visited \<subseteq> {v. \<exists>q \<in> set queue. (q, v) \<in> (edge_rel g)\<^sup>*} \<and>
    (\<forall>u oc. (u, Some oc) \<in> set visited \<longrightarrow> set (nextNodeIDs (Some g) u oc) \<subseteq> run_nodes visited) \<and>
    set (wp_CurrentNodeIDs process') = set waiting \<union> {u. (u, None) \<in> set visited} \<and>
    wp_Status process' = (if wp_CurrentNodeIDs process' = [] then ''completed'' else ''waiting'')"
  by (rule run_complete [OF assms])


lemma rows_kept_still:
  assumes "rows_kept key status rows rows'" and "r \<in> set rows" and "status r = ''cancelled''"
  shows "\<exists>r' \<in> set rows'. key r' = key r \<and> status r' = ''cancelled''"
  using rows_keptD [OF assms(1,2)] assms(3) by (auto simp: row_kept_def)

subsection \<open>Witnesses\<close>

definition run_process :: WorkflowProcessInstance where
  "run_process = zero_process \<lparr> wp_WorkspaceID := ''w'', wp_ID := ''p'',
     wp_DefinitionSnapshot := zero_schema \<lparr> ws_Graph := Some example_graph \<rparr> \<rparr>"

lemma example_graph_plain: "plain_graph example_graph"
  by code_simp

lemma example_graph_accepts: "accepted example_env example_graph"
  using example_graph_accepted by (simp add: accepted_def)

lemma example_lookups:
  "WorkflowGraphNode (Some example_graph) ''t'' = (example_node ''t'' ''trigger'' no_contract, True)"
  "WorkflowGraphNode (Some example_graph) ''c'' = (example_nodes ! 1, True)"
  "WorkflowGraphNode (Some example_graph) ''y'' = (example_action ''y'', True)"
  "nextNodeIDs (Some example_graph) ''c'' ''false'' = [''y'']" "nextNodeIDs (Some example_graph) ''y'' ''success'' = []"
  "gn_ID (example_nodes ! 1) = ''c''" "gn_Type (example_nodes ! 1) = ''condition''"
  "gn_ID (example_action ''y'') = ''y''" "gn_Type (example_action ''y'') = ''action''" "WorkflowBusinessActionNodeContract (example_action ''y'') = zero_action \<lparr> bc_ActionKey := ''notify'' \<rparr>"
  "trim_space ''notify'' = ''notify''" "''notify'' \<noteq> nil_text" "trim_space [] = []" "uniqueSortedStrings [''a''] = [''a'']"
  by code_simp+

lemmas evaluate_run = runWithContext_def evaluate run_process_def executeNode_def zero_process_def zero_schema_def fail_loop_def


definition run_state0 :: engine_state where
  "run_state0 = empty_state \<lparr> es_DB := (es_DB empty_state) \<lparr> db_Processes := [run_process] \<rparr> \<rparr>"

lemma example_run: "\<exists>p t. run_state (runWithContext example_engine run_process [''y''] [''a''] (example_actor ''u'')) run_state0 = ((p, None), t) \<and>
    wp_CurrentNodeIDs p = [''a'']"
  by (simp add: run_state0_def evaluate_run executeActionNode_def example_lookups zero_action_def with_process_def cong: bind_weak tries_weak)

theorem engine_run_complete_witness:
  "\<exists>p t. run_state (runWithContext example_engine run_process [''y''] [''a''] (example_actor ''u'')) run_state0 = ((p, None), t) \<and>
    wp_CurrentNodeIDs p = [''a''] \<and> wp_Status p = ''waiting'' \<and>
    (\<exists>p w visited t. run_loop example_engine (Some example_graph) (example_actor ''u'') [] [''y''] [''a''] run_process run_state0 =
       ((p, LoopDone w, visited), t) \<and> ''y'' \<in> run_nodes visited)"
proof -
  obtain p t where r: "run_state (runWithContext example_engine run_process [''y''] [''a''] (example_actor ''u'')) run_state0 = ((p, None), t)"
    and c: "wp_CurrentNodeIDs p = [''a'']" using example_run by blast
  have g: "ws_Graph (wp_DefinitionSnapshot run_process) = Some example_graph" by (simp add: run_process_def)
  have w: "\<forall>x \<in> set [''a'']. trim_space x = x \<and> x \<noteq> []" by code_simp
  from engine_run_complete [OF r g example_graph_accepts example_graph_plain w] r c show ?thesis by (auto simp del: run_loop.simps)
qed

end
