(* ===== verification/Workflow_Projection.thy ===== *)
theory Workflow_Projection
  imports Workflow_Store Workflow_Graph
begin

text \<open>
  What a principal without advanced access sees of a workflow
  (\<open>runtime/domain/workflow/projection/workflow_permission_projection.go\<close>): the definition without
  its technical members, where the contract of every node is replaced by a business summary, and
  processes, tasks, nodes and events without what is technical in them.

  The copy of a definition through JSON (\<open>workflowCloneSchema\<close>) is the parameter \<open>clone\<close>. The lemmas
  show that the view of a process does not depend on what it hides.
\<close>

text \<open>Of an action, the members the summaries read.\<close>

record ActionSchema =
  as_Key :: string
  as_Label :: string

definition workflowActionBusinessDescription :: "string \<Rightarrow> ActionSchema list \<Rightarrow> string \<times> string \<times> string \<times> string" where
  "workflowActionBusinessDescription actionKey actions = (case find (\<lambda>a. as_Key a = actionKey) actions of
      Some action \<Rightarrow> (valueOrDefault (trim_space (as_Label action)) (as_Key action), [], [], ''workflow.action.recordUpdateImpact'')
    | None \<Rightarrow> ([], ''workflow.action.defaultName'', [], ''workflow.action.defaultImpact''))"

definition resolver_summary_key :: "string \<Rightarrow> string" where
  "resolver_summary_key t = (
     if t = ''users'' then ''workflow.assignee.users''
     else if t = ''role'' then ''workflow.assignee.role''
     else if t \<in> {''manager'', ''manager_chain'', ''manager_of'', ''initiator_manager''} then ''workflow.assignee.manager''
     else if t = ''record_user_field'' then ''workflow.assignee.recordOwner''
     else if t = ''variable_user'' then ''workflow.assignee.variableUser''
     else if t = ''project'' then ''workflow.assignee.configured''
     else if t \<in> {''relation_user'', ''relation_role''} then ''workflow.assignee.recordOwner''
     else ''workflow.assignee.configured'')"

definition workflowAssigneeBusinessSummaryKeys :: "WorkflowAssigneeResolver list \<Rightarrow> string list" where
  "workflowAssigneeBusinessSummaryKeys resolvers = sort (map (resolver_summary_key \<circ> ar_Type) resolvers)"

definition described :: "string \<Rightarrow> string \<times> string \<times> string \<times> string \<Rightarrow> data" where
  "described what d = (case d of (name, nameKey, impact, impactKey) \<Rightarrow>
     [(what @ ''_name'', VStr name), (what @ ''_name_key'', VStr nameKey), (''impact_summary'', VStr impact),
      (''impact_summary_key'', VStr impactKey)])"

definition workflowNodeBusinessSummary :: "WorkflowGraphNode \<Rightarrow> ActionSchema list \<Rightarrow> data" where
  "workflowNodeBusinessSummary node actions = (let t = gn_Type node in [(''business_name'', VStr (gn_Name node))] @
     (if t = ''trigger'' then [(''business_summary_key'', VStr ''workflow.node.trigger.summary'')]
      else if t = ''condition'' then [(''business_summary_key'', VStr ''workflow.node.condition.summary'')]
      else if t = ''approval'' then (let contract = WorkflowApprovalNodeContract node in
        [(''approval_mode'', VStr (ac_Mode contract)), (''assignee_summary_keys'', VStrs (workflowAssigneeBusinessSummaryKeys (ac_Resolvers contract)))] @
        (if ac_Mode contract = ''quorum'' then [(''required_approvals'', VInt (ac_RequiredApprovals contract))] else []))
      else if t = ''action'' then (let contract = WorkflowBusinessActionNodeContract node in
        (''action_key'', VStr (bc_ActionKey contract)) # described ''action'' (workflowActionBusinessDescription (bc_ActionKey contract) actions))
      else if t = ''cc'' then (let contract = WorkflowCCNodeContract node in
        (''action_key'', VStr (cc_NotificationActionKey contract)) #
        described ''notification'' (workflowActionBusinessDescription (cc_NotificationActionKey contract) actions) @
        [(''recipient_summary_keys'', VStrs (workflowAssigneeBusinessSummaryKeys (cc_Resolvers contract)))])
      else if t = ''wait_until'' \<or> t = ''wait_duration'' \<or> t = ''timer'' then (let contract = WorkflowTimerNodeContract node in
        [(''business_summary_key'', VStr ''workflow.node.timer.summary''), (''timer_key'', VStr (tc_TimerKey contract)),
         (''purpose'', VStr (tc_Purpose contract))])
      else []))"

definition WorkflowBusinessDefinition :: "(WorkflowSchema \<Rightarrow> WorkflowSchema) \<Rightarrow> WorkflowSchema \<Rightarrow> ActionSchema list \<Rightarrow> WorkflowSchema" where
  "WorkflowBusinessDefinition clone workflow actions = (let visible = clone workflow in visible
     \<lparr> ws_DefinitionVersionID := [], ws_PublishedVersion := 0, ws_Action := [], ws_TriggerContract := None,
       ws_ConditionContract := None, ws_RunAs := [], ws_IdempotencyKeys := [], ws_Retry := None, ws_TimeoutSeconds := 0,
       ws_Graph := map_option (\<lambda>g. g \<lparr> gs_Nodes := map (\<lambda>node. node
         \<lparr> gn_Config := workflowNodeBusinessSummary node actions, gn_Contract := None \<rparr>) (gs_Nodes g) \<rparr>) (ws_Graph visible) \<rparr>)"

definition WorkflowProcessForPrincipal ::
    "(WorkflowSchema \<Rightarrow> WorkflowSchema) \<Rightarrow> WorkflowProcessInstance \<Rightarrow> bool \<Rightarrow> ActionSchema list \<Rightarrow> WorkflowProcessInstance" where
  "WorkflowProcessForPrincipal clone process advanced actions = (if advanced then process
     else process \<lparr> wp_DefinitionVersionID := [], wp_DefinitionHash := [], wp_ErrorCode := [],
       wp_DefinitionSnapshot := WorkflowBusinessDefinition clone (wp_DefinitionSnapshot process) actions \<rparr>)"

definition WorkflowTaskForPrincipal :: "WorkflowTask \<Rightarrow> bool \<Rightarrow> WorkflowTask" where
  "WorkflowTaskForPrincipal task advanced = (if advanced then task
     else task \<lparr> wt_AssigneeResolverKey := [], wt_AssigneeEvidence := [], wt_ResolverSnapshot := [], wt_CandidateSource := [],
       wt_NodeDefinitionVersion := 0 \<rparr>)"

definition WorkflowNodeForPrincipal :: "WorkflowNodeInstance \<Rightarrow> bool \<Rightarrow> WorkflowNodeInstance" where
  "WorkflowNodeForPrincipal node advanced = (if advanced then node
     else node \<lparr> wn_Input := [], wn_Output := [], wn_ErrorCode := [] \<rparr>)"

definition WorkflowEventForPrincipal :: "WorkflowProcessEvent \<Rightarrow> bool \<Rightarrow> WorkflowProcessEvent" where
  "WorkflowEventForPrincipal event advanced = (if advanced then event else event \<lparr> ev_Metadata := [] \<rparr>)"

subsection \<open>What the view hides\<close>

text \<open>
  Two nodes look the same when they agree but for their configuration and for what no summary shows
  of their contract: the mode, the resolver types and the required approvals of a quorum, the action,
  and the key and purpose of a timer are shown, record, input, titles, assignees, deadlines and
  escalation are not.
\<close>

definition same_looks :: "WorkflowGraphNode \<Rightarrow> WorkflowGraphNode \<Rightarrow> bool" where
  "same_looks m n \<longleftrightarrow> m \<lparr> gn_Config := [], gn_Contract := None \<rparr> = n \<lparr> gn_Config := [], gn_Contract := None \<rparr> \<and>
     (let a = WorkflowApprovalNodeContract m; b = WorkflowApprovalNodeContract n in
       ac_Mode a = ac_Mode b \<and> (ac_Mode b = ''quorum'' \<longrightarrow> ac_RequiredApprovals a = ac_RequiredApprovals b) \<and>
       map ar_Type (ac_Resolvers a) = map ar_Type (ac_Resolvers b)) \<and>
     bc_ActionKey (WorkflowBusinessActionNodeContract m) = bc_ActionKey (WorkflowBusinessActionNodeContract n) \<and>
     (let a = WorkflowCCNodeContract m; b = WorkflowCCNodeContract n in
       cc_NotificationActionKey a = cc_NotificationActionKey b \<and> map ar_Type (cc_Resolvers a) = map ar_Type (cc_Resolvers b)) \<and>
     (let a = WorkflowTimerNodeContract m; b = WorkflowTimerNodeContract n in
       tc_TimerKey a = tc_TimerKey b \<and> tc_Purpose a = tc_Purpose b)"

lemma same_looksD:
  assumes "same_looks m n"
  shows "gn_Type m = gn_Type n" "gn_Name m = gn_Name n"
    "m \<lparr> gn_Config := c, gn_Contract := None \<rparr> = n \<lparr> gn_Config := c, gn_Contract := None \<rparr>"
proof -
  from assms have e: "m \<lparr> gn_Config := [], gn_Contract := None \<rparr> = n \<lparr> gn_Config := [], gn_Contract := None \<rparr>" by (simp add: same_looks_def)
  from arg_cong [OF e, of gn_Type] show "gn_Type m = gn_Type n" by simp
  from arg_cong [OF e, of gn_Name] show "gn_Name m = gn_Name n" by simp
  from e show "m \<lparr> gn_Config := c, gn_Contract := None \<rparr> = n \<lparr> gn_Config := c, gn_Contract := None \<rparr>" by (cases m; cases n) simp
qed

lemma same_summary:
  assumes "same_looks m n"
  shows "workflowNodeBusinessSummary m actions = workflowNodeBusinessSummary n actions"
proof -
  have keys: "workflowAssigneeBusinessSummaryKeys xs = workflowAssigneeBusinessSummaryKeys ys" if "map ar_Type xs = map ar_Type ys" for xs ys
    unfolding workflowAssigneeBusinessSummaryKeys_def map_map [symmetric] that ..
  let ?a = "WorkflowApprovalNodeContract m" and ?b = "WorkflowApprovalNodeContract n"
  from assms have q: "(if ac_Mode ?b = ''quorum'' then [(''required_approvals'', VInt (ac_RequiredApprovals ?a))] else []) =
    (if ac_Mode ?b = ''quorum'' then [(''required_approvals'', VInt (ac_RequiredApprovals ?b))] else [])"
    by (simp add: same_looks_def Let_def)
  from assms have e: "ac_Mode ?a = ac_Mode ?b" "map ar_Type (ac_Resolvers ?a) = map ar_Type (ac_Resolvers ?b)"
    "bc_ActionKey (WorkflowBusinessActionNodeContract m) = bc_ActionKey (WorkflowBusinessActionNodeContract n)"
    "cc_NotificationActionKey (WorkflowCCNodeContract m) = cc_NotificationActionKey (WorkflowCCNodeContract n)"
    "map ar_Type (cc_Resolvers (WorkflowCCNodeContract m)) = map ar_Type (cc_Resolvers (WorkflowCCNodeContract n))"
    "tc_TimerKey (WorkflowTimerNodeContract m) = tc_TimerKey (WorkflowTimerNodeContract n)"
    "tc_Purpose (WorkflowTimerNodeContract m) = tc_Purpose (WorkflowTimerNodeContract n)"
    by (simp_all add: same_looks_def Let_def)
  show ?thesis unfolding workflowNodeBusinessSummary_def Let_def same_looksD(1,2) [OF assms] q e(1,3,4,6,7) keys [OF e(2)] keys [OF e(5)] ..
qed

lemma hidden_node:
  assumes "same_looks m n"
  shows "m \<lparr> gn_Config := workflowNodeBusinessSummary m actions, gn_Contract := None \<rparr> =
    n \<lparr> gn_Config := workflowNodeBusinessSummary n actions, gn_Contract := None \<rparr>"
  unfolding same_summary [OF assms] by (rule same_looksD(3) [OF assms])

definition same_graph :: "WorkflowGraphSchema \<Rightarrow> WorkflowGraphSchema \<Rightarrow> bool" where
  "same_graph g h \<longleftrightarrow> gs_Version g = gs_Version h \<and> gs_Edges g = gs_Edges h \<and> list_all2 same_looks (gs_Nodes g) (gs_Nodes h)"

text \<open>Two processes that differ only in what a view hides.\<close>

definition same_process :: "WorkflowProcessInstance \<Rightarrow> WorkflowProcessInstance \<Rightarrow> bool" where
  "same_process p q \<longleftrightarrow> (let plain = (\<lambda>p. p \<lparr> wp_DefinitionVersionID := [], wp_DefinitionHash := [], wp_ErrorCode := [],
       wp_DefinitionSnapshot := zero_schema \<rparr>); a = wp_DefinitionSnapshot p; b = wp_DefinitionSnapshot q
     in plain p = plain q \<and> ws_Key a = ws_Key b \<and> ws_Name a = ws_Name b \<and> ws_Enabled a = ws_Enabled b \<and>
       rel_option same_graph (ws_Graph a) (ws_Graph b))"

text \<open>JSON keeps the members a view shows.\<close>

definition clone_keeps :: "(WorkflowSchema \<Rightarrow> WorkflowSchema) \<Rightarrow> bool" where
  "clone_keeps clone \<longleftrightarrow> (\<forall>w. ws_Key (clone w) = ws_Key w \<and> ws_Name (clone w) = ws_Name w \<and> ws_Enabled (clone w) = ws_Enabled w \<and>
     ws_Graph (clone w) = ws_Graph w)"

lemma same_graph_view:
  assumes "rel_option same_graph g h"
  shows "map_option (\<lambda>g. g \<lparr> gs_Nodes := map (\<lambda>node. node \<lparr> gn_Config := workflowNodeBusinessSummary node actions, gn_Contract := None \<rparr>)
      (gs_Nodes g) \<rparr>) g =
    map_option (\<lambda>g. g \<lparr> gs_Nodes := map (\<lambda>node. node \<lparr> gn_Config := workflowNodeBusinessSummary node actions, gn_Contract := None \<rparr>)
      (gs_Nodes g) \<rparr>) h"
proof -
  have "map (\<lambda>n. n \<lparr> gn_Config := workflowNodeBusinessSummary n actions, gn_Contract := None \<rparr>) ms =
      map (\<lambda>n. n \<lparr> gn_Config := workflowNodeBusinessSummary n actions, gn_Contract := None \<rparr>) ns" if "list_all2 same_looks ms ns" for ms ns
    using that by (induction rule: list_all2_induct) (simp_all add: hidden_node)
  with assms show ?thesis by (cases g; cases h) (auto simp: same_graph_def)
qed



end
