(* ===== verification/Workflow_Command.thy ===== *)
theory Workflow_Command
  imports Workflow_Run Workflow_Projection
begin

text \<open>
  The commands on a process (\<open>workflow_process_application_service.go\<close>,
  \<open>workflow_withdrawal_application_service.go\<close>, \<open>workflow_execution_idempotency_application_service.go\<close>):
  withdrawal, retry after a failure, resolution of a failure, and the keys under which a process
  remembers the commands that were applied to it.

  The theorems: only the initiator withdraws, and only a waiting process without a record; the same
  withdrawal repeated is answered from the memory of the process and changes nothing; a retry
  continues a process only at the failed node, so that it no longer waits for the approvals that
  were open beside it.
\<close>

subsection \<open>The memory of commands\<close>

definition workflowCommandKey :: "engine_env \<Rightarrow> string \<Rightarrow> string \<Rightarrow> string \<Rightarrow> data \<Rightarrow> string" where
  "workflowCommandKey env scope target callerKey payload =
     ee_Fingerprint env (''workflow.command.'' @ trim_space scope) (trim_space target) (trim_space callerKey) payload"

definition workflowCommandResultField :: "string \<Rightarrow> string" where
  "workflowCommandResultField scope =
     ''idempotency_command_'' @ map (\<lambda>c. if c = CHR ''.'' \<or> c = CHR '':'' then CHR ''_'' else c) (trim_space scope)"

definition workflowStringValue :: "gval \<Rightarrow> string" where
  "workflowStringValue v = (if v = VNil then [] else sprint_trim v)"

definition workflowProcessHasCommand :: "WorkflowProcessInstance \<Rightarrow> string \<Rightarrow> string \<Rightarrow> bool" where
  "workflowProcessHasCommand process scope key \<longleftrightarrow>
     trim_space (workflowStringValue (data_get (wp_Result process) (workflowCommandResultField scope))) = trim_space key"

definition workflowRecordCommand :: "WorkflowProcessInstance \<Rightarrow> string \<Rightarrow> string \<Rightarrow> WorkflowProcessInstance" where
  "workflowRecordCommand process scope key =
     process \<lparr> wp_Result := AList.update (workflowCommandResultField scope) (VStr (trim_space key)) (wp_Result process) \<rparr>"

lemma has_recorded_command: "workflowProcessHasCommand (workflowRecordCommand process scope key) scope key"
  by (simp add: workflowProcessHasCommand_def workflowRecordCommand_def workflowStringValue_def sprint_trim_def update_conv map_get_def)

subsection \<open>The service\<close>

text \<open>
  \<open>sv_Actions\<close> are the actions of the schema the principal sees, \<open>sv_Truncate\<close> the integer part of a
  floating point number given by its text, \<open>sv_HasWithdrawalStore\<close> says that the store commits withdrawals.
\<close>

record service_env =
  sv_Engine :: engine_env
  sv_Actions :: "Principal \<Rightarrow> ActionSchema list"
  sv_Truncate :: "string \<Rightarrow> int"
  sv_HasWithdrawalStore :: bool

type_synonym process_answer = "WorkflowProcessInstance \<times> engine_error option"

definition for_principal :: "service_env \<Rightarrow> WorkflowProcessInstance \<Rightarrow> Principal \<Rightarrow> WorkflowProcessInstance" where
  "for_principal sv process actor =
     WorkflowProcessForPrincipal (en_RecodeDefinition (ee_Store (sv_Engine sv))) process False (sv_Actions sv actor)"

definition ctx_err :: "engine_env \<Rightarrow> engine_error option engine" where
  "ctx_err env = do { s \<leftarrow> State_Monad.get; ret (ee_Err env (es_Tick s)) }"

definition workflowDecisionEvent :: "engine_env \<Rightarrow> string \<Rightarrow> string \<Rightarrow> string \<Rightarrow> string \<Rightarrow> string \<Rightarrow> string \<Rightarrow> data \<Rightarrow> string \<Rightarrow>
    WorkflowProcessEvent engine" where
  "workflowDecisionEvent env processID nodeID taskID event actorID summary metadata createdAt = do {
     i \<leftarrow> workflowProcessID env ''event'';
     ret \<lparr> ev_WorkspaceID = [], ev_ID = i, ev_ProcessID = processID, ev_NodeID = nodeID, ev_TaskID = taskID, ev_Event = event,
       ev_ActorID = valueOrDefault actorID ''system'', ev_Summary = summary, ev_Metadata = WorkflowCloneMap metadata,
       ev_CreatedAt = createdAt \<rparr> }"

text \<open>A process by its id: an error of the store, or that there is none, ends the command.\<close>

definition with_stored :: "engine_env \<Rightarrow> string \<Rightarrow> string \<Rightarrow> string \<Rightarrow> (WorkflowProcessInstance \<Rightarrow> process_answer engine) \<Rightarrow> process_answer engine" where
  "with_stored env operation workspaceID processID f = do {
     found \<leftarrow> read_db (GetProcess (ee_Store env) workspaceID (trim_space processID));
     (case found of
        Inl e \<Rightarrow> refused (InternalErr operation (Some e))
      | Inr None \<Rightarrow> refused (notFound ''backend.workflow.process_not_found'')
      | Inr (Some process) \<Rightarrow> f process) }"

subsection \<open>Withdrawal\<close>

definition cancel_payload :: data where
  "cancel_payload = [(''command'', VStr ''cancel'')]"

definition cloneWorkflowWithdrawalMap :: "data \<Rightarrow> data" where
  "cloneWorkflowWithdrawalMap source = foldl (\<lambda>target (key, v). AList.update key v target) [] source"

definition prepareWorkflowWithdrawal :: "engine_env \<Rightarrow> WorkflowProcessInstance \<Rightarrow> string \<Rightarrow> Principal \<Rightarrow>
    (engine_error + WorkflowWithdrawalCommit) engine" where
  "prepareWorkflowWithdrawal env process callerKey actor =
     (if wp_InitiatorID process \<noteq> pr_UserID actor then ret (Inl (forbidden ''backend.workflow.process_cancel_denied''))
      else if wp_Status process \<noteq> ''waiting'' then ret (Inl (conflict ''backend.workflow.process_not_cancellable'' []))
      else if trim_space (wp_UpdatedAt process) = [] then ret (Inl (conflict ''backend.workflow.withdrawal_revision_required'' []))
      else do {
        let commandID = workflowCommandKey env ''process.cancel'' (wp_ID process) callerKey cancel_payload;
        now \<leftarrow> now_text env;
        let cancelled = process \<lparr> wp_Result := cloneWorkflowWithdrawalMap (wp_Result process), wp_Status := ''cancelled'',
          wp_CurrentNodeIDs := [], wp_UpdatedAt := now, wp_CompletedAt := now,
          wp_Variables := AList.update ''approval_decision'' (VStr ''withdrawn'') (cloneWorkflowWithdrawalMap (wp_Variables process)) \<rparr>;
        ret (Inr \<lparr> wd_Process = workflowRecordCommand cancelled ''process.cancel'' commandID, wd_ExpectedUpdatedAt = wp_UpdatedAt process,
          wd_ExpectedStatus = wp_Status process, wd_CommandID = commandID, wd_ActorID = pr_UserID actor \<rparr>) })"

record WorkflowWithdrawalRequest =
  ww_WorkflowKey :: string
  ww_ObjectKey :: string
  ww_RecordID :: string
  ww_ProcessID :: string

definition StageWorkflowWithdrawal :: "engine_env \<Rightarrow> WorkflowWithdrawalRequest \<Rightarrow> string \<Rightarrow> Principal \<Rightarrow>
    (engine_error + WorkflowWithdrawalCommit) engine" where
  "StageWorkflowWithdrawal env request callerKey actor = tries (check (workflowAuthorizeCommand actor)) (\<lambda>_.
     if trim_space (ww_WorkflowKey request) = [] \<or> trim_space (ww_ObjectKey request) = [] \<or> trim_space (ww_RecordID request) = [] \<or>
       trim_space (ww_ProcessID request) = [] \<or> trim_space callerKey = []
       then ret (Inl (bad_request ''backend.workflow.withdrawal_binding_required'' []))
     else tries (reads_or ''get withdrawal workflow process''
         (read_db (GetProcess (ee_Store env) (pr_WorkspaceID actor) (trim_space (ww_ProcessID request))))) (\<lambda>found.
       (case found of
          None \<Rightarrow> ret (Inl (notFound ''backend.workflow.process_not_found''))
        | Some process \<Rightarrow>
            if wp_WorkflowKey process \<noteq> trim_space (ww_WorkflowKey request) \<or> wp_ObjectKey process \<noteq> trim_space (ww_ObjectKey request) \<or>
              wp_RecordID process \<noteq> trim_space (ww_RecordID request)
              then ret (Inl (forbidden ''backend.workflow.withdrawal_binding_mismatch''))
            else prepareWorkflowWithdrawal env process callerKey actor)))"

text \<open>A process of a record is withdrawn only through the action that owns the record.\<close>

definition CancelWorkflowProcessWithKey :: "service_env \<Rightarrow> string \<Rightarrow> string \<Rightarrow> Principal \<Rightarrow> process_answer engine" where
  "CancelWorkflowProcessWithKey sv processID callerKey actor = (let env = sv_Engine sv in (case workflowAuthorizeCommand actor of
      Some e \<Rightarrow> refused e
    | None \<Rightarrow> with_stored env ''get workflow process'' (pr_WorkspaceID actor) processID (\<lambda>process.
        if wp_InitiatorID process \<noteq> pr_UserID actor then refused (forbidden ''backend.workflow.process_cancel_denied'')
        else if workflowProcessHasCommand process ''process.cancel''
            (workflowCommandKey env ''process.cancel'' (wp_ID process) callerKey cancel_payload)
          then ret (for_principal sv process actor, None)
        else if wp_ObjectKey process \<noteq> [] \<and> wp_RecordID process \<noteq> []
          then refused (conflict ''backend.workflow.business_withdrawal_required'' [])
        else do {
          prepared \<leftarrow> prepareWorkflowWithdrawal env process callerKey actor;
          (case prepared of
             Inl e \<Rightarrow> refused e
           | Inr commit \<Rightarrow>
               if \<not> sv_HasWithdrawalStore sv then refused (internalError ''atomic workflow withdrawal unavailable'')
               else do {
                 e \<leftarrow> transact (CommitWorkflowWithdrawal (ee_Store env) commit);
                 (case e of
                    Some c \<Rightarrow> refused (InternalErr [] (Some c))
                  | None \<Rightarrow> ret (for_principal sv (wd_Process commit) actor, None)) }) })))"

definition CancelWorkflowProcess :: "service_env \<Rightarrow> string \<Rightarrow> Principal \<Rightarrow> process_answer engine" where
  "CancelWorkflowProcess sv processID actor =
     CancelWorkflowProcessWithKey sv processID (''system:'' @ trim_space processID @ '':cancel'') actor"

subsection \<open>Retry and resolution\<close>

text \<open>\<open>json.Number.Int64\<close> keeps to the bounds of 64 bits; its error is ignored.\<close>

definition WorkflowRetryCount :: "(string \<Rightarrow> int) \<Rightarrow> gval \<Rightarrow> int" where
  "WorkflowRetryCount trunc v = (case v of VInt i \<Rightarrow> i | VInt64 i \<Rightarrow> i | VFloat t \<Rightarrow> trunc t
     | VNumber t \<Rightarrow> (case parse_int t of Some i \<Rightarrow> max (- (2 ^ 63)) (min (2 ^ 63 - 1) i) | None \<Rightarrow> 0)
     | _ \<Rightarrow> 0)"

definition RunWithContext :: "engine_env \<Rightarrow> WorkflowProcessInstance \<Rightarrow> string list \<Rightarrow> string list \<Rightarrow> Principal \<Rightarrow> process_answer engine" where
  "RunWithContext env process queue waiting actor = (case workflowAuthorizeCommand actor of
      Some e \<Rightarrow> refused e | None \<Rightarrow> runWithContext env process queue waiting actor)"

definition failed_node :: "WorkflowNodeInstance list \<Rightarrow> string" where
  "failed_node nodes = (case find (\<lambda>n. wn_Status n = ''failed'' \<or> wn_Status n = ''configuration_error'') (rev nodes) of
     Some n \<Rightarrow> wn_NodeID n | None \<Rightarrow> [])"

definition retried :: "(string \<Rightarrow> int) \<Rightarrow> WorkflowProcessInstance \<Rightarrow> string \<Rightarrow> string \<Rightarrow> string \<Rightarrow> WorkflowProcessInstance" where
  "retried trunc process commandKey failedNodeID now = (let
     count = wrap64 (WorkflowRetryCount trunc (data_get (wp_Result process) ''retry_count'') + 1);
     process = process \<lparr> wp_Result := AList.update ''retry_count'' (VInt count) (wp_Result process) \<rparr>
   in (workflowRecordCommand process ''process.retry'' commandKey) \<lparr> wp_Status := ''running'', wp_ErrorCode := [], wp_CompletedAt := [],
     wp_CurrentNodeIDs := [failedNodeID], wp_UpdatedAt := now \<rparr>)"

text \<open>The part that writes: the process runs again from the failed node.\<close>

definition retry_run :: "service_env \<Rightarrow> WorkflowProcessInstance \<Rightarrow> string \<Rightarrow> string \<Rightarrow> Principal \<Rightarrow> process_answer engine" where
  "retry_run sv process0 commandKey failedNodeID actor = (let env = sv_Engine sv in do {
     now \<leftarrow> now_text env;
     let process = retried (sv_Truncate sv) process0 commandKey failedNodeID now;
     e \<leftarrow> store (UpdateProcess (ee_Store env) (pr_WorkspaceID actor) process);
     (case e of
        Some c \<Rightarrow> ret (process, Some (InternalErr ''prepare workflow process retry'' (Some c)))
      | None \<Rightarrow> do {
          _ \<leftarrow> appendEvent env (wp_WorkspaceID process) (wp_ID process) failedNodeID [] ''process_retry_started''
            (pr_UserID actor) ''workflow.event.process.retryStarted''
            [(''retry_count'', data_get (wp_Result process) ''retry_count'')];
          (continued, runErr) \<leftarrow> RunWithContext env process [failedNodeID] [] actor;
          ret (for_principal sv continued actor, runErr) }) })"

definition RetryWorkflowProcessWithKey :: "service_env \<Rightarrow> string \<Rightarrow> string \<Rightarrow> Principal \<Rightarrow> process_answer engine" where
  "RetryWorkflowProcessWithKey sv processID callerKey actor = (let env = sv_Engine sv in do {
     ctx \<leftarrow> ctx_err env;
     (case (case ctx of Some e \<Rightarrow> Some e | None \<Rightarrow> workflowAuthorizeCommand actor) of
        Some e \<Rightarrow> refused e
      | None \<Rightarrow> with_stored env ''get retry workflow process'' (pr_WorkspaceID actor) processID (\<lambda>process. (let
          commandKey = workflowCommandKey env ''process.retry'' (wp_ID process) callerKey [(''command'', VStr ''retry'')]
        in if workflowProcessHasCommand process ''process.retry'' commandKey then ret (for_principal sv process actor, None)
           else if wp_Status process \<noteq> ''configuration_error'' \<and> wp_Status process \<noteq> ''failed''
             then ret (process, Some (conflict ''backend.workflow.process_not_retryable'' []))
           else do {
             listed \<leftarrow> read_db (ListNodes (ee_Store env) (pr_WorkspaceID actor) (wp_ID process));
             (case listed of
                Inl e \<Rightarrow> ret (process, Some (InternalErr ''list retry workflow nodes'' (Some e)))
              | Inr nodes \<Rightarrow>
                  if failed_node nodes = [] then ret (process, Some (conflict ''backend.workflow.process_failed_node_missing'' []))
                  else retry_run sv process commandKey (failed_node nodes) actor) }))) })"

definition RetryWorkflowProcess :: "service_env \<Rightarrow> string \<Rightarrow> Principal \<Rightarrow> process_answer engine" where
  "RetryWorkflowProcess sv processID actor =
     RetryWorkflowProcessWithKey sv processID (''system:'' @ trim_space processID @ '':retry'') actor"

definition empty_state_commit :: "string \<Rightarrow> WorkflowStateCommit" where
  "empty_state_commit workspaceID = \<lparr> sc_WorkspaceID = workspaceID, sc_Process = None, sc_InsertNodes = [], sc_UpdateNodes = [],
     sc_UpdateTasks = [], sc_Events = [], sc_WorkflowExecution = None, sc_InsertExecutions = [] \<rparr>"

definition ResolveWorkflowProcessFailure :: "service_env \<Rightarrow> string \<Rightarrow> string \<Rightarrow> Principal \<Rightarrow> process_answer engine" where
  "ResolveWorkflowProcessFailure sv processID note0 actor = (let env = sv_Engine sv in (case workflowAuthorizeCommand actor of
      Some e \<Rightarrow> refused e
    | None \<Rightarrow>
        if trim_space note0 = [] then refused (bad_request ''backend.workflow.process_resolution_note_required'' [])
        else with_stored env ''get workflow process resolution'' (pr_WorkspaceID actor) processID (\<lambda>process.
          if wp_Status process \<noteq> ''configuration_error'' \<and> wp_Status process \<noteq> ''failed''
            then ret (process, Some (conflict ''backend.workflow.process_not_resolvable'' []))
          else do {
            now \<leftarrow> now_text env;
            let process = process \<lparr> wp_Status := ''resolved'', wp_UpdatedAt := now,
              wp_CompletedAt := (if wp_CompletedAt process = [] then now else wp_CompletedAt process) \<rparr>;
            if \<not> ee_HasStateStore env then ret (process, Some (internalError ''resolve workflow process''))
            else do {
              event \<leftarrow> workflowDecisionEvent env (wp_ID process) [] [] ''process_failure_resolved'' (pr_UserID actor)
                ''workflow.event.process.failureResolved'' [(''note'', VStr (trim_space note0)), (''error_code'', VStr (wp_ErrorCode process))] now;
              e \<leftarrow> transact (CommitWorkflowState (ee_Store env)
                ((empty_state_commit (pr_WorkspaceID actor)) \<lparr> sc_Process := Some process, sc_Events := [event] \<rparr>));
              (case e of
                 Some c \<Rightarrow> ret (process, Some (InternalErr ''resolve workflow process'' (Some c)))
               | None \<Rightarrow> ret (for_principal sv process actor, None)) } })))"

subsection \<open>Withdrawal is the initiator's\<close>

lemma run_with_stored: "run_state (with_stored env operation w i f) s =
    (case GetProcess (ee_Store env) w (trim_space i) (es_DB s) of
        Inl e \<Rightarrow> ((zero_process, Some (InternalErr operation (Some e))), s)
      | Inr None \<Rightarrow> ((zero_process, Some (notFound ''backend.workflow.process_not_found'')), s)
      | Inr (Some process) \<Rightarrow> run_state (f process) s)"
  by (simp add: with_stored_def refused_def split: sum.split option.split)

text \<open>What is read of a stored process.\<close>

lemma get_process:
  assumes "GetProcess env w i db = Inr (Some process)"
  obtains v r where "requireWorkflowWorkspaceID w = Inr v" "r \<in> set (db_Processes db)" "process_key r = (v, i)" "process = scanWorkflowProcess env r"
  using assms by (auto simp: GetProcess_def read_in_def find_Some_iff split: sum.splits)

lemma scanned [simp]:
  "wp_WorkspaceID (scanWorkflowProcess env r) = wp_WorkspaceID r" "wp_ID (scanWorkflowProcess env r) = wp_ID r"
  "wp_InitiatorID (scanWorkflowProcess env r) = wp_InitiatorID r" "wp_Status (scanWorkflowProcess env r) = wp_Status r"
  "wp_ObjectKey (scanWorkflowProcess env r) = wp_ObjectKey r" "wp_RecordID (scanWorkflowProcess env r) = wp_RecordID r"
  "wp_UpdatedAt (scanWorkflowProcess env r) = wp_UpdatedAt r" "wp_WorkflowKey (scanWorkflowProcess env r) = wp_WorkflowKey r"
  "wp_Result (scanWorkflowProcess env r) = en_Recode env (wp_Result r)"
  by (simp_all add: scanWorkflowProcess_def)

lemma prepared_withdrawal:
  assumes "run_state (prepareWorkflowWithdrawal env process callerKey actor) s = (r, s')"
  shows "es_DB s' = es_DB s" and "r = Inr commit \<Longrightarrow> wp_InitiatorID process = pr_UserID actor \<and> wp_Status process = ''waiting'' \<and>
    process_key (wd_Process commit) = process_key process \<and> wp_Status (wd_Process commit) = ''cancelled'' \<and>
    wp_InitiatorID (wd_Process commit) = wp_InitiatorID process \<and> wd_ActorID commit = pr_UserID actor \<and>
    data_get (wp_Result (wd_Process commit)) (workflowCommandResultField ''process.cancel'') =
      VStr (trim_space (workflowCommandKey env ''process.cancel'' (wp_ID process) callerKey cancel_payload))"
  using assms by (auto simp: prepareWorkflowWithdrawal_def workflowRecordCommand_def Let_def update_conv map_get_def split: if_splits)

lemma withdrawal_stored:
  assumes "CommitWorkflowWithdrawal env c db = (db', None)"
  shows "\<exists>r \<in> set (db_Processes db'). process_key r = process_key (wd_Process c) \<and> wp_Status r = ''cancelled'' \<and>
    wp_InitiatorID r = wd_ActorID c \<and> wp_Result r = wp_Result (wd_Process c)"
proof -
  let ?p = "wd_Process c"
  let ?m = "\<lambda>r. wp_WorkspaceID r = wp_WorkspaceID ?p \<and> wp_ID r = wp_ID ?p \<and> wp_WorkflowKey r = wp_WorkflowKey ?p \<and>
    wp_InitiatorID r = wd_ActorID c \<and> wp_Status r = wd_ExpectedStatus c \<and> wp_UpdatedAt r = wd_ExpectedUpdatedAt c"
  let ?f = "\<lambda>r. r \<lparr> wp_Status := wp_Status ?p, wp_CurrentNodeIDs := [], wp_Variables := wp_Variables ?p,
    wp_Result := wp_Result ?p, wp_UpdatedAt := wp_UpdatedAt ?p, wp_CompletedAt := wp_CompletedAt ?p \<rparr>"
  from assms have st: "wp_Status ?p = ''cancelled''" and one: "length (filter ?m (db_Processes db)) = 1"
    and db': "db_Processes db' = update_rows ?m ?f (db_Processes db)"
    by (auto simp: CommitWorkflowWithdrawal_def ApplyWorkflowWithdrawalTx_def withdrawal_children_def withdrawal_ok_def Let_def
        split: sum.splits if_splits option.splits)
  from one have "filter ?m (db_Processes db) \<noteq> []" by (metis length_0_conv zero_neq_one)
  then obtain r where r: "r \<in> set (db_Processes db)" "?m r" unfolding filter_empty_conv by blast
  then have "?f r \<in> set (db_Processes db')" unfolding db' update_rows_def by (auto simp: image_iff intro!: bexI [of _ r])
  with r st show ?thesis by (intro bexI [of _ "?f r"]) simp_all
qed

lemma withdrawal_refused: "snd (CommitWorkflowWithdrawal env c db) = Some e \<Longrightarrow> fst (CommitWorkflowWithdrawal env c db) = db"
  by (simp add: CommitWorkflowWithdrawal_def split: sum.splits)

text \<open>
  When a command is answered from the memory of the process. A withdrawal that is neither refused nor
  answered so stores the prepared commit.
\<close>

definition cancel_repeats :: "service_env \<Rightarrow> string \<Rightarrow> string \<Rightarrow> Principal \<Rightarrow> workflow_db \<Rightarrow> bool" where
  "cancel_repeats sv processID callerKey actor db \<longleftrightarrow> workflowAuthorizeCommand actor = None \<and>
     (\<exists>q. GetProcess (ee_Store (sv_Engine sv)) (pr_WorkspaceID actor) (trim_space processID) db = Inr (Some q) \<and>
       wp_InitiatorID q = pr_UserID actor \<and> workflowProcessHasCommand q ''process.cancel''
         (workflowCommandKey (sv_Engine sv) ''process.cancel'' (wp_ID q) callerKey cancel_payload))"

lemma cancel_repeated:
  "cancel_repeats sv processID callerKey actor (es_DB s) \<Longrightarrow> \<exists>p. run_state (CancelWorkflowProcessWithKey sv processID callerKey actor) s = ((p, None), s)"
  by (auto simp: cancel_repeats_def CancelWorkflowProcessWithKey_def Let_def run_with_stored)

lemma cancel_cases:
  assumes "run_state (CancelWorkflowProcessWithKey sv processID callerKey actor) s = ((p, e), s')"
  obtains (Kept) "es_DB s' = es_DB s" "e = None \<Longrightarrow> cancel_repeats sv processID callerKey actor (es_DB s)" | (Stored) r v c where
    "e = None" "requireWorkflowWorkspaceID (pr_WorkspaceID actor) = Inr v" "r \<in> set (db_Processes (es_DB s))"
    "process_key r = (v, trim_space processID)" "wp_InitiatorID r = pr_UserID actor" "wp_Status r = ''waiting''"
    "wp_ObjectKey r = [] \<or> wp_RecordID r = []" "process_key (wd_Process c) = process_key r" "wd_ActorID c = pr_UserID actor"
    "CommitWorkflowWithdrawal (ee_Store (sv_Engine sv)) c (es_DB s) = (es_DB s', None)"
    "data_get (wp_Result (wd_Process c)) (workflowCommandResultField ''process.cancel'') =
      VStr (trim_space (workflowCommandKey (sv_Engine sv) ''process.cancel'' (wp_ID r) callerKey cancel_payload))"
    "workflowAuthorizeCommand actor = None"
proof (cases "es_DB s' = es_DB s \<and> (e = None \<longrightarrow> cancel_repeats sv processID callerKey actor (es_DB s))")
  case False
  let ?env = "sv_Engine sv"
  from assms False obtain q where q: "GetProcess (ee_Store ?env) (pr_WorkspaceID actor) (trim_space processID) (es_DB s) = Inr (Some q)"
    by (auto simp: CancelWorkflowProcessWithKey_def Let_def run_with_stored refused_def split: option.splits sum.splits)
  from get_process [OF q] obtain v r where r: "requireWorkflowWorkspaceID (pr_WorkspaceID actor) = Inr v" "r \<in> set (db_Processes (es_DB s))"
    "process_key r = (v, trim_space processID)" "q = scanWorkflowProcess (ee_Store ?env) r" by metis
  obtain x t where x: "run_state (prepareWorkflowWithdrawal ?env q callerKey actor) s = (x, t)" by fastforce
  from assms False q x prepared_withdrawal(1) [OF x] obtain c where c: "x = Inr c" "wp_ObjectKey q = [] \<or> wp_RecordID q = []"
      "fst (CommitWorkflowWithdrawal (ee_Store ?env) c (es_DB t)) = es_DB s'" "snd (CommitWorkflowWithdrawal (ee_Store ?env) c (es_DB t)) = None"
      "e = None" "workflowAuthorizeCommand actor = None"
    by (auto simp: CancelWorkflowProcessWithKey_def Let_def run_with_stored refused_def withdrawal_refused cancel_repeats_def
        split: option.splits sum.splits if_splits)
  with prepared_withdrawal [OF x] r show ?thesis by (intro Stored [of v r c]) (simp_all add: prod_eq_iff)
qed (use Kept in blast)


text \<open>JSON keeps the texts of a document.\<close>

definition keeps_texts :: "(data \<Rightarrow> data) \<Rightarrow> bool" where
  "keeps_texts f \<longleftrightarrow> (\<forall>d k t. data_get d k = VStr t \<longrightarrow> data_get (f d) k = VStr t)"

text \<open>
  A withdrawal repeated under the same key is answered again and changes nothing. When the command
  succeeded and the tables are as it left them, the same command of the same principal succeeds
  without a write.
\<close>

theorem withdrawal_replays:
  assumes "keys_unique (es_DB s)" and "keeps_texts (en_Recode (ee_Store (sv_Engine sv)))"
    and "run_state (CancelWorkflowProcessWithKey sv processID callerKey actor) s = ((p, None), s')" and "es_DB t = es_DB s'"
  shows "\<exists>q. run_state (CancelWorkflowProcessWithKey sv processID callerKey actor) t = ((q, None), t)"
proof (rule cancel_repeated)
  from assms(3) show "cancel_repeats sv processID callerKey actor (es_DB t)"
  proof (cases rule: cancel_cases)
    case (Stored r v c)
    let ?env = "sv_Engine sv"
    from withdrawal_stored [OF Stored(10)] obtain r' where r': "r' \<in> set (db_Processes (es_DB s'))" "process_key r' = process_key r"
      "wp_InitiatorID r' = pr_UserID actor" "wp_Result r' = wp_Result (wd_Process c)" using Stored(8,9) by auto
    have "workflow_step (es_DB s) (es_DB s')" using workflow_step.Withdraw [of "es_DB s" "ee_Store ?env" c] Stored(10) by simp
    then have "keys_unique (es_DB s')" using keys_unique_kept [OF workflow_steps_kept assms(1)] by blast
    then have "find (\<lambda>x. process_key x = process_key r') (db_Processes (es_DB s')) = Some r'"
      using r'(1) by (intro find_key) (simp add: keys_unique_def)
    then have "GetProcess (ee_Store ?env) (pr_WorkspaceID actor) (trim_space processID) (es_DB s') = Inr (Some (scanWorkflowProcess (ee_Store ?env) r'))"
      using r'(2) Stored(2,4) by (simp add: GetProcess_def read_in_def)
    with Stored(4,11,12) r' assms(2,4) show ?thesis
      by (auto simp: cancel_repeats_def keeps_texts_def workflowProcessHasCommand_def workflowStringValue_def sprint_trim_def)
  qed (use assms(4) in simp)
qed

subsection \<open>Retry starts over at the failed node only\<close>

lemma for_principal_keeps [simp]: "wp_CurrentNodeIDs (for_principal sv p a) = wp_CurrentNodeIDs p" "wp_Status (for_principal sv p a) = wp_Status p"
  by (simp_all add: for_principal_def WorkflowProcessForPrincipal_def)

lemma retried_snapshot: "wp_DefinitionSnapshot (retried trunc process key i now) = wp_DefinitionSnapshot process"
  by (simp add: retried_def workflowRecordCommand_def Let_def)

lemma retry_run_ends:
  assumes "run_state (retry_run sv process key i actor) s = ((p, None), s')"
  shows "\<exists>q c t t'. run_state (runWithContext (sv_Engine sv) q [i] [] actor) t = ((c, None), t') \<and>
    wp_DefinitionSnapshot q = wp_DefinitionSnapshot process \<and> p = for_principal sv c actor"
proof -
  define q where "q = retried (sv_Truncate sv) process key i (format_rfc3339nano (ee_Now (sv_Engine sv) (es_Tick s)))"
  obtain a u where u: "run_state (store (UpdateProcess (ee_Store (sv_Engine sv)) (pr_WorkspaceID actor) q)) (s \<lparr> es_Tick := Suc (es_Tick s) \<rparr>) = (a, u)"
    by (metis surj_pair)
  obtain b v where v: "run_state (appendEvent (sv_Engine sv) (wp_WorkspaceID q) (wp_ID q) i [] ''process_retry_started'' (pr_UserID actor)
      ''workflow.event.process.retryStarted'' [(''retry_count'', data_get (wp_Result q) ''retry_count'')]) u = (b, v)" by (metis surj_pair)
  obtain c e w where w: "run_state (RunWithContext (sv_Engine sv) q [i] [] actor) v = ((c, e), w)" by (metis surj_pair)
  from assms have "a = None \<and> e = None \<and> p = for_principal sv c actor"
    unfolding retry_run_def Let_def by (simp add: q_def [symmetric] u v w del: run_store split: option.splits)
  with w have "run_state (runWithContext (sv_Engine sv) q [i] [] actor) v = ((c, None), w)" "p = for_principal sv c actor"
    by (auto simp: RunWithContext_def refused_def split: option.splits)
  then show ?thesis using retried_snapshot unfolding q_def by blast
qed

text \<open>
  A retry forgets the nodes the process was waiting for. When the retry of a failed process whose
  graph is accepted ends without error, the process waits only for nodes that are reachable from the
  failed node, and is completed when there are none, whatever approvals were open beside it.
\<close>

theorem retry_forgets_waiting_nodes:
  assumes "GetProcess (ee_Store (sv_Engine sv)) (pr_WorkspaceID actor) (trim_space processID) (es_DB s) = Inr (Some process)"
    and "ListNodes (ee_Store (sv_Engine sv)) (pr_WorkspaceID actor) (wp_ID process) (es_DB s) = Inr nodes"
    and "\<not> workflowProcessHasCommand process ''process.retry''
      (workflowCommandKey (sv_Engine sv) ''process.retry'' (wp_ID process) callerKey [(''command'', VStr ''retry'')])"
    and "ws_Graph (wp_DefinitionSnapshot process) = Some g" and "accepted genv g" and "plain_graph g"
    and "run_state (RetryWorkflowProcessWithKey sv processID callerKey actor) s = ((p, None), s')"
  shows "set (wp_CurrentNodeIDs p) \<subseteq> {u. (failed_node nodes, u) \<in> (edge_rel g)\<^sup>*} \<and>
    wp_Status p = (if wp_CurrentNodeIDs p = [] then ''completed'' else ''waiting'')"
proof -
  from assms(1-3,7) have r: "run_state (retry_run sv process (workflowCommandKey (sv_Engine sv) ''process.retry'' (wp_ID process) callerKey
      [(''command'', VStr ''retry'')]) (failed_node nodes) actor) s = ((p, None), s')"
    by (auto simp: RetryWorkflowProcessWithKey_def ctx_err_def run_with_stored refused_def Let_def split: option.splits if_splits)
  from retry_run_ends [OF r] obtain q c t t' where run: "run_state (runWithContext (sv_Engine sv) q [failed_node nodes] [] actor) t = ((c, None), t')"
    and q: "wp_DefinitionSnapshot q = wp_DefinitionSnapshot process" and p: "p = for_principal sv c actor" by blast
  from q assms(4) have g: "ws_Graph (wp_DefinitionSnapshot q) = Some g" by simp
  from run_complete [OF run g assms(5,6)] obtain visited where v: "run_nodes visited \<subseteq> {u. (failed_node nodes, u) \<in> (edge_rel g)\<^sup>*}"
    "set (wp_CurrentNodeIDs c) = {u. (u, None) \<in> set visited}" "wp_Status c = (if wp_CurrentNodeIDs c = [] then ''completed'' else ''waiting'')"
    by auto
  have "set (wp_CurrentNodeIDs c) \<subseteq> run_nodes visited" unfolding v(2) by force
  with v(1,3) show ?thesis unfolding p by simp
qed

subsection \<open>Witnesses\<close>

definition example_service :: service_env where
  "example_service = \<lparr> sv_Engine = example_engine, sv_Actions = (\<lambda>_. []), sv_Truncate = (\<lambda>_. 0), sv_HasWithdrawalStore = True \<rparr>"

definition withdrawal_state :: engine_state where
  "withdrawal_state = empty_state \<lparr> es_DB := example_db \<rparr>"

lemma withdrawal_facts: "workflowAuthorizeCommand (example_actor ''i'') = None" "format_rfc3339nano 0 = ''1970-01-01T00:00:00Z''"
  "trim_space ''p'' = ''p''" "trim_space ''1'' = ''1''" "trim_space ''w'' = ''w''"
  "GetProcess example_workflow_env ''w'' ''p'' example_db = Inr (Some (scanWorkflowProcess example_workflow_env stored_process))"
  "workflowCommandKey example_engine ''process.cancel'' ''p'' ''k'' cancel_payload = ''workflow.command.process.cancel:p:k:cancel''"
  "workflowProcessHasCommand (scanWorkflowProcess example_workflow_env stored_process) ''process.cancel'' ''workflow.command.process.cancel:p:k:cancel'' = False"
  by code_simp+

lemma example_fields [simp]: "ee_Store example_engine = example_workflow_env" "ee_Now example_engine n = int n * 1000000000" "ee_Err example_engine n = None"
  "pr_WorkspaceID (example_actor u) = ''w''" "pr_UserID (example_actor u) = u" "es_Tick empty_state = 0" "es_Sequence empty_state = 0"
  "wp_InitiatorID stored_process = ''i''" "wp_ID stored_process = ''p''" "wp_WorkspaceID stored_process = ''w''" "wp_Status stored_process = ''waiting''"
  "wp_UpdatedAt stored_process = ''1''" "wp_ObjectKey stored_process = []" "wp_WorkflowKey stored_process = ''k''" "wp_Result stored_process = []" "wp_Variables stored_process = []"
  "en_Recode example_workflow_env d = d" "en_Encodable example_workflow_env d = True" "en_Fenced example_workflow_env a b c = False"
  "db_Processes example_db = [stored_process]" "db_Events example_db = []"
  by (simp_all add: example_db_def example_engine_def example_actor_def empty_state_def stored_process_def example_process_def example_workflow_env_def)

lemma example_withdrawal_run:
  "\<exists>p t. run_state (CancelWorkflowProcessWithKey example_service ''p'' ''k'' (example_actor ''i'')) withdrawal_state = ((p, None), t) \<and>
    map wp_Status (db_Processes (es_DB t)) = [''cancelled'']"
  by (simp add: CancelWorkflowProcessWithKey_def run_with_stored withdrawal_state_def example_service_def withdrawal_facts prepareWorkflowWithdrawal_def
     Let_def CommitWorkflowWithdrawal_def ApplyWorkflowWithdrawalTx_def withdrawal_ok_def workflowRecordCommand_def update_rows_def withdrawal_children_def insertTx_def)


theorem withdrawal_replays_witness:
  "\<exists>p q t. run_state (CancelWorkflowProcessWithKey example_service ''p'' ''k'' (example_actor ''i'')) withdrawal_state = ((p, None), t) \<and>
    run_state (CancelWorkflowProcessWithKey example_service ''p'' ''k'' (example_actor ''i'')) t = ((q, None), t)"
proof -
  from example_withdrawal_run obtain p t where r: "run_state (CancelWorkflowProcessWithKey example_service ''p'' ''k'' (example_actor ''i'')) withdrawal_state = ((p, None), t)"
    by blast
  have k: "keys_unique (es_DB withdrawal_state)" using example_db_facts(1) by (simp add: withdrawal_state_def)
  have e: "keeps_texts (en_Recode (ee_Store (sv_Engine example_service)))" by (simp add: example_service_def keeps_texts_def)
  from withdrawal_replays [OF k e r refl] r show ?thesis by blast
qed

definition parallel_graph :: WorkflowGraphSchema where
  "parallel_graph = \<lparr> gs_Version = 2, gs_Nodes = [example_node ''t'' ''trigger'' no_contract, example_nodes ! 2, example_action ''y''],
     gs_Edges = [example_edge ''t'' ''a'' [], example_edge ''t'' ''y'' []] \<rparr>"

definition parallel_process :: WorkflowProcessInstance where
  "parallel_process = run_process \<lparr> wp_DefinitionSnapshot := zero_schema \<lparr> ws_Graph := Some parallel_graph \<rparr>, wp_Status := ''configuration_error'' \<rparr>"

definition failed_instance :: WorkflowNodeInstance where
  "failed_instance = \<lparr> wn_WorkspaceID = ''w'', wn_ID = ''n'', wn_ProcessID = ''p'', wn_NodeID = ''y'', wn_NodeType = ''action'', wn_Iteration = 1,
     wn_Status = ''failed'', wn_Input = [], wn_Output = [], wn_ErrorCode = [], wn_StartedAt = [], wn_CompletedAt = [] \<rparr>"

definition parallel_state :: engine_state where
  "parallel_state = empty_state \<lparr> es_DB := (es_DB empty_state) \<lparr> db_Processes := [parallel_process], db_Nodes := [failed_instance],
     db_Tasks := [(stored_task ''a'' ''u1'') \<lparr> wt_NodeID := ''a'' \<rparr>] \<rparr> \<rparr>"

lemma parallel_accepted: "accepted example_env parallel_graph" "plain_graph parallel_graph"
  unfolding accepted_def by code_simp+

lemma parallel_facts:
  "map_sum (\<lambda>_. ()) (map_option (\<lambda>q. q = parallel_process)) (GetProcess example_workflow_env ''w'' ''p'' (es_DB parallel_state)) = Inr (Some True)"
  "ListNodes example_workflow_env ''w'' ''p'' (es_DB parallel_state) = Inr [failed_instance]"
  "failed_node [failed_instance] = ''y''"
  "WorkflowGraphNode (Some parallel_graph) ''y'' = (example_action ''y'', True)" "nextNodeIDs (Some parallel_graph) ''y'' ''success'' = []"
  "workflowCommandKey example_engine ''process.retry'' ''p'' ''k'' [(''command'', VStr ''retry'')] = ''workflow.command.process.retry:p:k:retry''"
  "workflowProcessHasCommand parallel_process ''process.retry'' ''workflow.command.process.retry:p:k:retry'' = False"
  "workflowAuthorizeCommand (example_actor ''u'') = None" "workflowCommandResultField ''process.retry'' = ''idempotency_command_process_retry''"
  by code_simp+

lemma parallel_stored: "GetProcess example_workflow_env ''w'' ''p'' (es_DB parallel_state) = Inr (Some parallel_process)"
  using parallel_facts(1)
  by (cases "GetProcess example_workflow_env ''w'' ''p'' (es_DB parallel_state)") (auto split: option.splits)

lemma parallel_fields: "wp_ID parallel_process = ''p''" "wp_Status parallel_process = ''configuration_error''" "wp_Result parallel_process = []"
  "wp_DefinitionSnapshot parallel_process = zero_schema \<lparr> ws_Graph := Some parallel_graph \<rparr>" "wp_WorkspaceID parallel_process = ''w''"
  "wp_Variables parallel_process = []"
  by (simp_all add: parallel_process_def run_process_def zero_process_def)

lemma example_folded: "en_NodeErased example_workflow_env n = False" "en_EventErased example_workflow_env ev = False" "en_RecodeDefinition example_workflow_env df = df"
  "ee_Invoke example_engine i = State_Monad.return (\<lparr> ir_InvocationID = ''inv'', ir_Status = ''succeeded'', ir_Output = [], ir_ErrorCode = [],
       ir_Retryable = False, ir_OutboxIDs = [], ir_RecordID = None \<rparr>, None)"
  "ee_RenderString example_engine t d a = t" "ee_RenderData example_engine e d a = e" "ee_ActionPrincipal example_engine w a k = Inr a"
  by (simp_all add: example_engine_def example_workflow_env_def)

text \<open>
  Evaluation on a state of which only the tables that are read are known. An event is appended to the
  table of events, and nothing else changes.
\<close>

definition appended :: "'a engine \<Rightarrow> engine_state \<Rightarrow> WorkflowProcessEvent list" where
  "appended m s = db_Events (es_DB (snd (run_state m s)))"

lemma insert_event_only: "fst (stmt (InsertEvent env w ev) db) = db \<lparr> db_Events := db_Events (fst (stmt (InsertEvent env w ev) db)) \<rparr>"
  by (simp add: stmt_def InsertEvent_def in_workspace_def insertEventTx_def split: sum.split option.split)

lemma run_append_event: "run_state (appendEvent env w p n t ev a sm md) s = ((), s \<lparr> es_Tick := Suc (Suc (es_Tick s)), es_Sequence := Suc (es_Sequence s),
    es_DB := (es_DB s) \<lparr> db_Events := appended (appendEvent env w p n t ev a sm md) s \<rparr> \<rparr>)"
  unfolding appended_def by (simp add: appendEvent_def run_process_id insert_event_only [symmetric])

lemmas evaluate_folded = run_tries run_process_id store_or_def internal_def reads_or_def Let_def stmt_def in_workspace_def read_in_def
  UpdateProcess_def InsertNode_def UpdateNode_def insertTx_def updateTx_def insertNodeTx_def
  updateProcessTx_def ListNodes_def newNodeInstance_def nextNodeIteration_def run_append_event
  recordCompletedNode_def failProcess_def example_folded runWithContext_def executeNode_def fail_loop_def

lemma failed_fields: "wn_WorkspaceID failed_instance = ''w''" "wn_ProcessID failed_instance = ''p''" "wn_NodeID failed_instance = ''y''"
  "wn_Iteration failed_instance = 1" "wn_ID failed_instance = ''n''" "scanWorkflowNode example_workflow_env failed_instance = failed_instance"
  "uniqueSortedStrings [] = []"
  by (simp_all add: failed_instance_def scanWorkflowNode_def uniqueSortedStrings_def)

lemma run_action:
  assumes "wp_ID q = ''p''" "wp_WorkspaceID q = ''w''" "wp_DefinitionSnapshot q = schema" "ws_Graph schema = Some parallel_graph"
    "db_Nodes (es_DB s) = [failed_instance]" "db_Processes (es_DB s) = [r]" "wp_WorkspaceID r = ''w''" "wp_ID r = ''p''" "wp_Status r \<noteq> ''cancelled''"
  shows "\<exists>p t. run_state (runWithContext example_engine q [''y''] [] (example_actor ''u'')) s = ((p, None), t) \<and>
    wp_CurrentNodeIDs p = [] \<and> db_Tasks (es_DB t) = db_Tasks (es_DB s)"
  by (simp add: assms failed_fields parallel_facts evaluate_folded executeActionNode_def example_lookups zero_action_def with_process_def
      cong: bind_weak tries_weak)

lemma retried_fields: "wp_ID (retried trunc p key i now) = wp_ID p" "wp_WorkspaceID (retried trunc p key i now) = wp_WorkspaceID p"
  "wp_Status (retried trunc p key i now) = ''running''"
  by (simp_all add: retried_def workflowRecordCommand_def Let_def)

lemma put_fields: "wp_ID (put_process q r) = wp_ID r" "wp_WorkspaceID (put_process q r) = wp_WorkspaceID r" "wp_Status (put_process q r) = wp_Status q"
  by (simp_all add: put_process_def)

lemma example_retry_run:
  "\<exists>p t. run_state (retry_run example_service parallel_process key ''y'' (example_actor ''u'')) parallel_state = ((p, None), t) \<and>
    wp_CurrentNodeIDs p = [] \<and> map wt_Status (db_Tasks (es_DB t)) = [''open'']"
proof -
  define q where "q = retried (\<lambda>_. 0) parallel_process key ''y'' (format_rfc3339nano 0)"
  have q: "wp_ID q = ''p''" "wp_WorkspaceID q = ''w''" "wp_Status q = ''running''" "wp_DefinitionSnapshot q = zero_schema \<lparr> ws_Graph := Some parallel_graph \<rparr>"
    by (simp_all add: q_def retried_fields retried_snapshot parallel_fields)
  define s where "s = snd (run_state (appendEvent example_engine ''w'' ''p'' ''y'' [] ''process_retry_started'' ''u'' ''workflow.event.process.retryStarted''
      [(''retry_count'', data_get (wp_Result q) ''retry_count'')]) (parallel_state \<lparr> es_Tick := 1,
        es_DB := (es_DB parallel_state) \<lparr> db_Processes := [put_process q parallel_process] \<rparr> \<rparr>))"
  have s: "db_Nodes (es_DB s) = [failed_instance]" "db_Processes (es_DB s) = [put_process q parallel_process]"
    "map wt_Status (db_Tasks (es_DB s)) = [''open'']"
    by (simp_all add: s_def run_append_event parallel_state_def stored_task_def example_task_def)
  from run_action [of q _ s, OF q(1,2,4) _ s(1,2)] obtain p t where r: "run_state (runWithContext example_engine q [''y''] [] (example_actor ''u'')) s = ((p, None), t)"
    "wp_CurrentNodeIDs p = []" "db_Tasks (es_DB t) = db_Tasks (es_DB s)"
    by (auto simp: put_fields parallel_fields q)
  have tick: "es_Tick parallel_state = 0" by (simp add: parallel_state_def)
  have u: "stmt (UpdateProcess example_workflow_env ''w'' q) (es_DB parallel_state) =
      ((es_DB parallel_state) \<lparr> db_Processes := [put_process q parallel_process] \<rparr>, None)"
    by (simp add: evaluate_folded q parallel_state_def parallel_fields put_process_def)
  have e: "run_state (appendEvent example_engine ''w'' ''p'' ''y'' [] ''process_retry_started'' ''u'' ''workflow.event.process.retryStarted''
      [(''retry_count'', data_get (wp_Result q) ''retry_count'')]) (parallel_state \<lparr> es_Tick := Suc 0,
        es_DB := (es_DB parallel_state) \<lparr> db_Processes := [put_process q parallel_process] \<rparr> \<rparr>) = ((), s)"
    by (simp add: s_def prod_eq_iff)
  have "run_state (retry_run example_service parallel_process key ''y'' (example_actor ''u'')) parallel_state = ((for_principal example_service p (example_actor ''u''), None), t)"
    using r(1) by (simp add: retry_run_def Let_def example_service_def tick q_def [symmetric] u q e RunWithContext_def parallel_facts)
  with r s show ?thesis by simp
qed

lemma example_retry:
  "\<exists>p t. run_state (RetryWorkflowProcessWithKey example_service ''p'' ''k'' (example_actor ''u'')) parallel_state = ((p, None), t) \<and>
    wp_CurrentNodeIDs p = [] \<and> map wt_Status (db_Tasks (es_DB t)) = [''open'']"
  using example_retry_run
  by (simp add: RetryWorkflowProcessWithKey_def run_with_stored ctx_err_def example_service_def parallel_facts parallel_stored withdrawal_facts
    parallel_fields Let_def)

text \<open>The approval beside the failed action is still open; the process is completed and nothing will close it.\<close>

theorem retry_forgets_waiting_nodes_witness:
  "\<exists>p t. run_state (RetryWorkflowProcessWithKey example_service ''p'' ''k'' (example_actor ''u'')) parallel_state = ((p, None), t) \<and>
    wp_Status p = ''completed'' \<and> map wt_Status (db_Tasks (es_DB t)) = [''open'']"
proof -
  from example_retry obtain p t where r: "run_state (RetryWorkflowProcessWithKey example_service ''p'' ''k'' (example_actor ''u'')) parallel_state = ((p, None), t)"
    and c: "wp_CurrentNodeIDs p = []" "map wt_Status (db_Tasks (es_DB t)) = [''open'']" by (elim exE conjE)
  have f: "GetProcess (ee_Store (sv_Engine example_service)) (pr_WorkspaceID (example_actor ''u'')) (trim_space ''p'') (es_DB parallel_state) = Inr (Some parallel_process)"
    "ListNodes (ee_Store (sv_Engine example_service)) (pr_WorkspaceID (example_actor ''u'')) (wp_ID parallel_process) (es_DB parallel_state) = Inr [failed_instance]"
    "\<not> workflowProcessHasCommand parallel_process ''process.retry''
      (workflowCommandKey (sv_Engine example_service) ''process.retry'' (wp_ID parallel_process) ''k'' [(''command'', VStr ''retry'')])"
    "ws_Graph (wp_DefinitionSnapshot parallel_process) = Some parallel_graph"
    by (simp_all add: example_service_def parallel_stored parallel_facts parallel_fields withdrawal_facts)
  from retry_forgets_waiting_nodes [OF f parallel_accepted r] r c show ?thesis by auto
qed

end
