(* ===== verification/Workflow_Decision.thy ===== *)
theory Workflow_Decision
  imports Workflow_Command
begin

text \<open>
  The decision of an approval task (\<open>workflow_process_decision_recovery_application_service.go\<close>,
  \<open>workflow_route_decision_application_service.go\<close>, \<open>workflow_approval_quorum_application_service.go\<close>,
  \<open>workflow_process_notification_application_service.go\<close>, \<open>DecideTask\<close> of
  \<open>workflow_process_application_service.go\<close>): the checks on task, principal and next step, the outcome of
  the node, the commit with everything the vote changes, and the continuation after it.

  A vote is computed from what was read and stored in one transaction guarded by the revision of the
  process. The store keeps a task decided once and refuses a stale vote (\<open>Workflow_Store\<close>); this theory
  shows what the service puts into the transaction.
\<close>

subsection \<open>Requests\<close>

definition workflowAuthorizeTaskDecision :: "Principal \<Rightarrow> string \<Rightarrow> engine_error option" where
  "workflowAuthorizeTaskDecision actor decision = (case workflowAuthorizeCommand actor of
      Some e \<Rightarrow> Some e
    | None \<Rightarrow> if to_lower (trim_space decision) \<in> {''approve'', ''approved'', ''reject'', ''rejected'', ''return'', ''returned''} then None
        else Some (bad_request ''backend.workflow.task_decision_invalid'' []))"

definition workflowTaskDecisionCommandPayload :: "string \<Rightarrow> WorkflowTaskDecisionRequest \<Rightarrow> data" where
  "workflowTaskDecisionCommandPayload decision req = [(''decision'', VStr decision), (''comment'', VStr (trim_space (dr_Comment req)))] @
     (case dr_NextStep req of None \<Rightarrow> [] | Some n \<Rightarrow> [(''next_step'', VMap [(''step_key'', VStr (trim_space (ns_StepKey n))),
        (''assignee_user_ids'', VStrs (uniqueSortedStrings (ns_AssigneeUserIDs n))), (''required_approvals'', VInt (ns_RequiredApprovals n))])])"

definition decision_scope :: "WorkflowTask \<Rightarrow> string" where
  "decision_scope task = ''task.decision:'' @ wt_ID task"

definition workflowDecisionReplay :: "engine_env \<Rightarrow> string \<Rightarrow> WorkflowTask \<Rightarrow> WorkflowTaskDecisionRequest \<Rightarrow> (WorkflowProcessInstance \<times> bool) engine" where
  "workflowDecisionReplay env workspaceID task req = do {
     found \<leftarrow> read_db (GetProcess (ee_Store env) workspaceID (wt_ProcessID task));
     ret (case found of
         Inr (Some process) \<Rightarrow> (process, workflowProcessHasCommand process (decision_scope task) (workflowCommandKey env ''task.decision''
           (wt_ID task) (dr_IdempotencyKey req) (workflowTaskDecisionCommandPayload (to_lower (trim_space (dr_Decision req))) req)))
       | _ \<Rightarrow> (zero_process, False)) }"

definition workflowApprovalDecisionTasks :: "engine_env \<Rightarrow> WorkflowProcessInstance \<Rightarrow> WorkflowTask \<Rightarrow> (engine_error + WorkflowTask list) engine" where
  "workflowApprovalDecisionTasks env process task = (let
     node = fst (WorkflowGraphNode (ws_Graph (wp_DefinitionSnapshot process)) (wt_NodeID task)); op = ''list workflow tasks''
   in if trim_space (ac_Mode (WorkflowApprovalNodeContract node)) \<noteq> ''quorum''
        then reads_or op (read_db (ListTasks (ee_Store env) (wp_WorkspaceID process) (wp_ID process) [] [] 500))
      else tries (reads_or op (read_db (ListApprovalTasks (ee_Store env) (wp_WorkspaceID process) (wp_ID process) (wt_NodeInstanceID task)))) (\<lambda>tasks.
        (case WorkflowValidateApprovalAssigneeCount node (int (length tasks)) of
           Some e \<Rightarrow> ret (Inl (internalError op)) | None \<Rightarrow> ret (Inr tasks))))"

definition workflowApprovalDecisionCommit :: "WorkflowProcessInstance \<Rightarrow> WorkflowTask \<Rightarrow> WorkflowDecisionCommit" where
  "workflowApprovalDecisionCommit process task = \<lparr> dc_WorkspaceID = wp_WorkspaceID process, dc_DecidedTask = task, dc_ExpectedTaskStatus = ''open'',
     dc_ExpectedAssigneeID = wt_CompletedBy task,
     dc_ExpectedProcessUpdatedAt = (if trim_space (ac_Mode (WorkflowApprovalNodeContract (fst (WorkflowGraphNode
       (ws_Graph (wp_DefinitionSnapshot process)) (wt_NodeID task))))) = ''quorum'' then wp_UpdatedAt process else []),
     dc_Process = None, dc_InsertNodes = [], dc_UpdateNodes = [], dc_InsertTasks = [], dc_UpdateTasks = [], dc_UpdateRouteSteps = [],
     dc_Events = [], dc_RecordMutations = [], dc_WorkflowExecution = None, dc_InsertExecutions = [], dc_NotificationEvents = [] \<rparr>"

text \<open>An event of the decision, appended to the commit.\<close>

definition add_event :: "engine_env \<Rightarrow> string \<Rightarrow> string \<Rightarrow> string \<Rightarrow> string \<Rightarrow> string \<Rightarrow> string \<Rightarrow> data \<Rightarrow> string \<Rightarrow>
    WorkflowDecisionCommit \<Rightarrow> WorkflowDecisionCommit engine" where
  "add_event env processID nodeID taskID event actorID summary metadata now commit = do {
     e \<leftarrow> workflowDecisionEvent env processID nodeID taskID event actorID summary metadata now;
     ret (commit \<lparr> dc_Events := dc_Events commit @ [e] \<rparr>) }"

subsection \<open>Notifications\<close>

definition lifecycle_intent :: "engine_env \<Rightarrow> WorkflowProcessInstance \<Rightarrow> WorkflowTask \<Rightarrow> string \<Rightarrow> string \<Rightarrow> string \<Rightarrow> string \<Rightarrow> NotificationIntent" where
  "lifecycle_intent env process task eventType lifecycle locale0 occurredAt = \<lparr>
     ni_ID = ''notification_'' @ wt_ID task @ ''_'' @ lifecycle @ ''_'' @
       take 16 (ee_Sha256 env (wt_ID task @ '':'' @ lifecycle @ '':'' @ wt_UpdatedAt task)),
     ni_WorkspaceID = wp_WorkspaceID process, ni_SourceEventID = wt_ID task @ '':'' @ lifecycle @ '':'' @ wt_UpdatedAt task,
     ni_EventType = eventType, ni_RecipientUserIDs = [wt_AssigneeUserID task], ni_SubjectType = ''workflow_task'', ni_SubjectID = wt_ID task,
     ni_SubjectVersion = wt_UpdatedAt task, ni_GroupKey = ''workflow_task:'' @ trim_space (wt_ID task),
     ni_ActionState = (if lifecycle = ''cancelled'' then ''cancelled'' else ''completed''), ni_OccurredAt = occurredAt, ni_ExpiresAt = [],
     ni_Locale = locale0, ni_Variables = [(''task_title'', VStr (wt_Title task)), (''workflow_name'', VStr (wp_WorkflowName process)),
       (''decision'', VStr (wt_Decision task))] \<rparr>"

definition add_notification :: "engine_error + NotificationEvent \<Rightarrow> WorkflowDecisionCommit \<Rightarrow> engine_error + WorkflowDecisionCommit" where
  "add_notification compiled commit = res_bind compiled (\<lambda>event.
     Inr (commit \<lparr> dc_NotificationEvents := dc_NotificationEvents commit @ [event] \<rparr>))"

definition prepareWorkflowDecisionNotifications :: "engine_env \<Rightarrow> WorkflowDecisionCommit \<Rightarrow> WorkflowProcessInstance \<Rightarrow> string \<Rightarrow>
    engine_error + WorkflowDecisionCommit" where
  "prepareWorkflowDecisionNotifications env commit process occurredAt = (case ee_CompileNotification env of
      None \<Rightarrow> Inr commit
    | Some compiler \<Rightarrow> res_bind (add_notification (compiler (lifecycle_intent env process (dc_DecidedTask commit)
          ''workflow.task.completed'' ''completed'' [] occurredAt)) commit) (\<lambda>c.
        res_fold (\<lambda>task c.
          if wt_Status task = ''open'' then add_notification (compiler (assigned_intent process task [])) c
          else if wt_Status task = ''cancelled''
            then add_notification (compiler (lifecycle_intent env process task ''workflow.task.cancelled'' ''cancelled'' [] occurredAt)) c
          else Inr c) (dc_UpdateTasks commit @ dc_InsertTasks commit) c))"

subsection \<open>The next step of a route\<close>

record workflowRouteDecisionPlan =
  rp_Route :: WorkflowApprovalRouteContract
  rp_Steps :: "WorkflowRouteStep list"
  rp_CurrentIndex :: int
  rp_Current :: WorkflowRouteStep
  rp_Next :: WorkflowRouteStep
  rp_HasNext :: bool
  rp_Configured :: "WorkflowRouteStep option"
  rp_NextStepGiven :: bool

definition workflowRouteDecisionError :: "error_kind \<Rightarrow> string \<Rightarrow> string \<Rightarrow> (string \<times> string) list \<Rightarrow> engine_error" where
  "workflowRouteDecisionError kind code fieldPath parameters = AppErr \<lparr> err_Kind = kind, err_Code = code,
     err_Params = fold (\<lambda>(k, v). AList.update k v) parameters [(''field_path'', fieldPath)] \<rparr>"

definition workflowRouteBusinessError :: "engine_error \<Rightarrow> engine_error" where
  "workflowRouteBusinessError e = (case e of
      BusinessErr code params \<Rightarrow> if trim_space code \<noteq> [] then AppErr \<lparr> err_Kind = KindBadRequest, err_Code = code, err_Params = params \<rparr> else e
    | _ \<Rightarrow> e)"

text \<open>The step of the node instance of the task, with its index.\<close>

definition current_step :: "WorkflowRouteStep list \<Rightarrow> WorkflowTask \<Rightarrow> (int \<times> WorkflowRouteStep) option" where
  "current_step steps task = map_option (\<lambda>(i, st). (int i, st))
     (find (\<lambda>(i, st). rs_NodeInstanceID st \<noteq> [] \<and> rs_NodeInstanceID st = wt_NodeInstanceID task) (enumerate 0 steps))"

text \<open>The rules for a next step that somebody has to configure, and the configuration.\<close>

definition configure_step :: "engine_env \<Rightarrow> WorkflowProcessInstance \<Rightarrow> workflowRouteDecisionPlan \<Rightarrow> WorkflowNextStepConfiguration \<Rightarrow>
    Principal \<Rightarrow> string \<Rightarrow> engine_error + WorkflowRouteStep" where
  "configure_step env process plan given actor now = (let route = rp_Route plan; next = rp_Next plan in
     if \<not> workflowRouteConfigurerAllows route (rp_Steps plan) (rp_CurrentIndex plan + 1) process (pr_UserID actor)
       then Inl (workflowRouteDecisionError KindForbidden ''backend.workflow.next_step_configurer_denied'' ''next_step''
         [(''step_key'', rs_StepKey next), (''configurer'', rc_DeferredConfigurer route)])
     else if trim_space (ns_StepKey given) \<noteq> [] \<and> trim_space (ns_StepKey given) \<noteq> rs_StepKey next
       then Inl (workflowRouteDecisionError KindBadRequest ''backend.workflow.next_step_not_configurable'' ''next_step.step_key''
         [(''step_key'', trim_space (ns_StepKey given)), (''expected'', rs_StepKey next)])
     else res_bind (workflowRouteEligibleAssignees (ee_Assignees env) (wp_DefinitionSnapshot process) route) (\<lambda>voters.
       (case WorkflowValidateRouteStepAssignees (ns_AssigneeUserIDs given) route voters ''next_step.assignee_user_ids'' of
          Inl e \<Rightarrow> Inl (workflowRouteBusinessError e)
        | Inr assignees \<Rightarrow>
            if assignees = [] then Inl (workflowRouteDecisionError KindBadRequest ''backend.workflow.route_step_count_invalid''
              ''next_step.assignee_user_ids'' [(''min'', ''1''), (''actual'', ''0'')])
            else (case WorkflowRouteRequiredApprovals (rs_Mode next) (ns_RequiredApprovals given) (int (length assignees)) ''next_step.required_approvals'' of
                Inl e \<Rightarrow> Inl (workflowRouteBusinessError e)
              | Inr required \<Rightarrow> Inr (next \<lparr> rs_Status := ''pending'', rs_AssigneeSnapshot := assignees, rs_RequiredApprovals := required,
                  rs_ConfiguredBy := pr_UserID actor, rs_ConfiguredAt := now, rs_ConfigureSource := ''decision'', rs_UpdatedAt := now \<rparr>)))))"

definition planRouteDecision :: "engine_env \<Rightarrow> WorkflowProcessInstance \<Rightarrow> WorkflowGraphNode \<Rightarrow> WorkflowApprovalRouteContract \<Rightarrow> WorkflowTask \<Rightarrow>
    WorkflowTaskDecisionRequest \<Rightarrow> string \<Rightarrow> Principal \<Rightarrow> string \<Rightarrow> (engine_error + workflowRouteDecisionPlan) engine" where
  "planRouteDecision env process node route task req decision actor now =
     (if \<not> ee_HasRoutes env then ret (Inl (internalError ''read workflow route''))
      else tries (reads_or ''list workflow route steps'' (read_db (ListRouteSteps (wp_WorkspaceID process) (wp_ID process)))) (\<lambda>steps. ret
        (case current_step steps task of
           None \<Rightarrow> Inl (bad_request ''backend.workflow.route_steps_missing'' [''node'', gn_ID node])
         | Some (index, current) \<Rightarrow> (let
             (next, hasNext) = WorkflowRouteStepAfter steps (rs_StepNo current);
             plan = \<lparr> rp_Route = route, rp_Steps = steps, rp_CurrentIndex = index, rp_Current = current, rp_Next = next, rp_HasNext = hasNext,
               rp_Configured = None, rp_NextStepGiven = dr_NextStep req \<noteq> None \<rparr>
           in if decision \<noteq> ''approved'' then (if dr_NextStep req \<noteq> None
                then Inl (workflowRouteDecisionError KindBadRequest ''backend.workflow.next_step_not_applicable'' ''next_step'' [(''decision'', decision)])
                else Inr plan)
              else if \<not> hasNext then (if dr_NextStep req \<noteq> None
                then Inl (workflowRouteDecisionError KindBadRequest ''backend.workflow.next_step_not_configurable'' ''next_step'' [(''step_key'', rs_StepKey current)])
                else Inr plan)
              else if rs_Status next \<noteq> ''configurable'' then (case dr_NextStep req of
                  None \<Rightarrow> Inr plan
                | Some given \<Rightarrow>
                    if trim_space (rs_ConfiguredAt next) = []
                      then Inl (workflowRouteDecisionError KindBadRequest ''backend.workflow.next_step_not_configurable'' ''next_step'' [(''step_key'', rs_StepKey next)])
                    else if \<not> WorkflowRouteStepConfigurationMatches next (ns_AssigneeUserIDs given) (ns_RequiredApprovals given)
                      then Inl (workflowRouteDecisionError KindConflict ''backend.workflow.next_step_already_configured'' ''next_step''
                        [(''step_key'', rs_StepKey next), (''configured_by'', rs_ConfiguredBy next), (''configured_at'', rs_ConfiguredAt next),
                         (''assignee_user_ids'', str_join '','' (WorkflowRouteStepAssigneeIDs next)), (''required_approvals'', itoa (rs_RequiredApprovals next))])
                    else Inr plan)
              else (case dr_NextStep req of
                  None \<Rightarrow> Inl (workflowRouteDecisionError KindBadRequest ''backend.workflow.next_step_required'' ''next_step'' [(''step_key'', rs_StepKey next)])
                | Some given \<Rightarrow> res_bind (configure_step env process plan given actor now) (\<lambda>st. Inr (plan \<lparr> rp_Configured := Some st \<rparr>)))))))"


definition routeProcessConfigurationError :: "WorkflowProcessInstance \<Rightarrow> string \<Rightarrow> string \<Rightarrow> WorkflowProcessInstance" where
  "routeProcessConfigurationError process code now = process \<lparr> wp_Status := ''configuration_error'', wp_ErrorCode := code,
     wp_CurrentNodeIDs := [], wp_CompletedAt := now, wp_UpdatedAt := now \<rparr>"

fun add_task_events :: "engine_env \<Rightarrow> (WorkflowTask \<Rightarrow> data) \<Rightarrow> string \<Rightarrow> string \<Rightarrow> string \<Rightarrow> WorkflowTask list \<Rightarrow>
    WorkflowDecisionCommit \<Rightarrow> WorkflowDecisionCommit engine" where
  "add_task_events env metadata processID nodeID now [] commit = ret commit"
| "add_task_events env metadata processID nodeID now (task # tasks) commit = do {
     c \<leftarrow> add_event env processID nodeID (wt_ID task) ''task_created'' ''system'' (wt_Title task) (metadata task) now
       (commit \<lparr> dc_InsertTasks := dc_InsertTasks commit @ [task] \<rparr>);
     add_task_events env metadata processID nodeID now tasks c }"

text \<open>The next step opens in the same commit: its node, its tasks, the step, and the process that waits for it.\<close>

definition open_next_step :: "engine_env \<Rightarrow> WorkflowDecisionCommit \<Rightarrow> WorkflowProcessInstance \<Rightarrow> WorkflowGraphNode \<Rightarrow> WorkflowRouteStep \<Rightarrow>
    Principal \<Rightarrow> string \<Rightarrow> (WorkflowDecisionCommit \<times> WorkflowProcessInstance) engine" where
  "open_next_step env commit process node next actor now = do {
     i \<leftarrow> newNodeInstance env (wp_WorkspaceID process) (wp_ID process) node ''waiting'' (wp_Variables process) [];
     let instance0 = i \<lparr> wn_Iteration := rs_StepNo next \<rparr>;
     tasks \<leftarrow> WorkflowRouteStepTasks env process node (WorkflowApprovalNodeContract node) next (wn_ID instance0) now;
     commit \<leftarrow> add_task_events env (\<lambda>task. route_task_metadata env next task (wt_Sequence task)) (wp_ID process) (gn_ID node) now tasks
       (commit \<lparr> dc_InsertNodes := dc_InsertNodes commit @ [instance0] \<rparr>);
     let active = next \<lparr> rs_Status := ''active'', rs_NodeInstanceID := wn_ID instance0, rs_UpdatedAt := now \<rparr>;
     commit \<leftarrow> add_event env (wp_ID process) (gn_ID node) [] ''route_step_activated'' (pr_UserID actor) (rs_Title next)
       (activated_metadata next (length (rs_AssigneeSnapshot next))) now
       (commit \<lparr> dc_UpdateRouteSteps := dc_UpdateRouteSteps commit @ [active] \<rparr>);
     commit \<leftarrow> add_event env (wp_ID process) (gn_ID node) [] ''approval_waiting'' (pr_UserID actor) (gn_Name node) [] now commit;
     ret (commit, process \<lparr> wp_Status := ''waiting'', wp_CurrentNodeIDs := [gn_ID node], wp_CompletedAt := [], wp_UpdatedAt := now \<rparr>) }"

text \<open>The commit, the process, and whether the process stays at the node or is in error.\<close>

definition applyRouteDecision :: "engine_env \<Rightarrow> WorkflowDecisionCommit \<Rightarrow> WorkflowProcessInstance \<Rightarrow> WorkflowGraphNode \<Rightarrow>
    workflowRouteDecisionPlan \<Rightarrow> string \<Rightarrow> bool \<Rightarrow> Principal \<Rightarrow> string \<Rightarrow>
    (engine_error + WorkflowDecisionCommit \<times> WorkflowProcessInstance \<times> bool) engine" where
  "applyRouteDecision env commit process node plan outcome complete actor now = do {
     commit \<leftarrow> (case rp_Configured plan of
         None \<Rightarrow> ret commit
       | Some st \<Rightarrow> add_event env (wp_ID process) (gn_ID node) [] ''route_step_configured'' (pr_UserID actor) (rs_Title st)
           [(''step_key'', VStr (rs_StepKey st)), (''step_no'', VInt (rs_StepNo st)), (''assignee_count'', VInt (int (length (rs_AssigneeSnapshot st)))),
            (''required_approvals'', VInt (rs_RequiredApprovals st))] now
           (commit \<lparr> dc_UpdateRouteSteps := dc_UpdateRouteSteps commit @ [st] \<rparr>));
     if \<not> complete then ret (Inr (commit, process, False))
     else (let
         commit = commit \<lparr> dc_UpdateRouteSteps := dc_UpdateRouteSteps commit @ [(rp_Current plan) \<lparr> rs_Status := outcome, rs_UpdatedAt := now \<rparr>] \<rparr>;
         next = (case rp_Configured plan of None \<Rightarrow> rp_Next plan | Some st \<Rightarrow> st)
       in if outcome \<noteq> ''approved'' \<or> \<not> rp_HasNext plan \<or> rs_Status next = ''configurable'' then ret (Inr (commit, process, False))
          else tries (revalidateRouteStepAssignees env process node (rp_Route plan) next actor) (\<lambda>(assignees, policy).
            if assignees = [] then ret (
              if policy = ''skip'' then Inr (commit, process, False)
              else if policy = ''fail'' then Inr (commit, routeProcessConfigurationError process ''backend.workflow.route_step_revalidation_failed'' now, True)
              else Inl (bad_request ''backend.workflow.approval_assignee_not_found'' [''node'', gn_ID node]))
            else do {
              (commit, process) \<leftarrow> open_next_step env commit process node (next \<lparr> rs_AssigneeSnapshot := assignees \<rparr>) actor now;
              ret (Inr (commit, process, True)) })) }"

subsection \<open>Approvals that follow\<close>

definition user_names :: "assignee_env \<Rightarrow> (string \<times> string) list" where
  "user_names env = (if \<not> ae_HasIdentity env then []
     else (case ae_ListUsers env of Inl e \<Rightarrow> [] | Inr users \<Rightarrow> fold (\<lambda>u. AList.update (us_ID u) (us_Name u)) users []))"

fun next_tasks :: "engine_env \<Rightarrow> (string \<times> string) list \<Rightarrow> WorkflowProcessInstance \<Rightarrow> WorkflowGraphNode \<Rightarrow> string \<Rightarrow> string \<Rightarrow> nat \<Rightarrow>
    ResolvedAssignee list \<Rightarrow> WorkflowDecisionCommit \<Rightarrow> WorkflowDecisionCommit engine" where
  "next_tasks env names process node instanceID now index [] commit = ret commit"
| "next_tasks env names process node instanceID now index (assignee # rest) commit = (let
     contract = WorkflowApprovalNodeContract node; mode = valueOrDefault (trim_space (ac_Mode contract)) ''any'' in do {
     i \<leftarrow> workflowProcessID env ''task'';
     at \<leftarrow> clock env;
     let task = (approval_task process node instanceID at i index assignee
         (case map_of names (rv_UserID assignee) of Some n \<Rightarrow> n | None \<Rightarrow> [])) \<lparr> wt_Title := valueOrDefault (trim_space (ac_Title contract)) (gn_Name node),
       wt_CreatedAt := now, wt_UpdatedAt := now \<rparr>;
     commit \<leftarrow> add_event env (wp_ID process) (gn_ID node) (wt_ID task) ''task_created'' ''system'' (wt_Title task) (task_metadata env task mode) now
       (commit \<lparr> dc_InsertTasks := dc_InsertTasks commit @ [task] \<rparr>);
     next_tasks env names process node instanceID now (Suc index) rest commit })"

text \<open>
  The approvals the outcome leads to, with their tasks, when it leads to approvals only; the flag says
  that all of them are prepared. A node that nobody has to approve ends the preparation with what the
  commit has by then.
\<close>

fun prepare_nodes :: "engine_env \<Rightarrow> (string \<times> string) list \<Rightarrow> WorkflowProcessInstance \<Rightarrow> Principal \<Rightarrow> string \<Rightarrow> WorkflowGraphNode list \<Rightarrow>
    WorkflowDecisionCommit \<Rightarrow> (engine_error + WorkflowDecisionCommit \<times> bool) engine" where
  "prepare_nodes env names process actor now [] commit = ret (Inr (commit, True))"
| "prepare_nodes env names process actor now (node # nodes) commit = (case resolveApprovalAssignees (ee_Assignees env) process node of
      Inl e \<Rightarrow> ret (Inl e)
    | Inr assignees \<Rightarrow>
        if assignees = [] then ret (if valueOrDefault (trim_space (ac_EmptyAssigneePolicy (WorkflowApprovalNodeContract node))) ''fail'' = ''skip''
          then Inr (commit, False) else Inl (bad_request ''backend.workflow.approval_assignee_not_found'' [''node'', gn_ID node]))
        else do {
          i \<leftarrow> newNodeInstance env (wp_WorkspaceID process) (wp_ID process) node ''waiting'' (wp_Variables process) [];
          commit \<leftarrow> add_event env (wp_ID process) (gn_ID node) [] ''approval_waiting'' (pr_UserID actor) (gn_Name node) [] now
            (commit \<lparr> dc_InsertNodes := dc_InsertNodes commit @ [i] \<rparr>);
          commit \<leftarrow> next_tasks env names process node (wn_ID i) now 0 assignees commit;
          prepare_nodes env names process actor now nodes commit })"

definition prepareNextApprovalNodes :: "engine_env \<Rightarrow> WorkflowDecisionCommit \<Rightarrow> WorkflowProcessInstance \<Rightarrow> string list \<Rightarrow> Principal \<Rightarrow> string \<Rightarrow>
    (engine_error + WorkflowDecisionCommit \<times> bool) engine" where
  "prepareNextApprovalNodes env commit process nodeIDs actor now = (let
     found = map (WorkflowGraphNode (ws_Graph (wp_DefinitionSnapshot process))) nodeIDs
   in if \<exists>(node, ok) \<in> set found. \<not> ok \<or> gn_Type node \<noteq> ''approval'' then ret (Inr (commit, False))
      else prepare_nodes env (user_names (ee_Assignees env)) process actor now (map fst found) commit)"

subsection \<open>Continuation\<close>

definition workflowDecisionExecution :: "WorkflowProcessInstance \<Rightarrow> Principal \<Rightarrow> string \<Rightarrow> WorkflowExecution" where
  "workflowDecisionExecution process actor now = zero_execution \<lparr> we_WorkspaceID := wp_WorkspaceID process, we_ID := wp_ID process,
     we_WorkflowKey := wp_WorkflowKey process, we_Name := wp_WorkflowName process, we_Trigger := ''workflow_decision_continuation'',
     we_Status := wp_Status process, we_ActionType := ''workflow_graph'', we_Action := WorkflowCloneMap (ws_Action (wp_DefinitionSnapshot process)),
     we_Payload := WorkflowCloneMap (wp_Variables process), we_ProcessID := wp_ID process, we_ObjectKey := wp_ObjectKey process,
     we_RecordID := wp_RecordID process, we_ActorID := pr_UserID actor, we_RunAs := WorkflowRunAs (wp_DefinitionSnapshot process),
     we_MaxAttempts := WorkflowMaxAttempts (wp_DefinitionSnapshot process), we_Message := ''workflow.message.decisionCommitted'',
     we_CreatedAt := wp_CreatedAt process, we_UpdatedAt := now \<rparr>"

definition workflowNodeIDsFromAny :: "gval \<Rightarrow> string list" where
  "workflowNodeIDsFromAny v = uniqueSortedStrings (case v of
      VStrs ss \<Rightarrow> filter (\<lambda>s. s \<noteq> []) (map trim_space ss)
    | VList vs \<Rightarrow> filter (\<lambda>s. s \<noteq> [] \<and> s \<noteq> nil_text) (map sprint_trim vs)
    | _ \<Rightarrow> [])"

definition recoverWorkflowDecision :: "engine_env \<Rightarrow> WorkflowProcessInstance \<Rightarrow> WorkflowNodeInstance list \<Rightarrow> WorkflowTask list \<Rightarrow> WorkflowTask \<Rightarrow>
    engine_error \<Rightarrow> string \<Rightarrow> WorkflowExecution option \<Rightarrow> process_answer engine" where
  "recoverWorkflowDecision env process nodes tasks decidedTask decisionErr actorID recoveryExecution = do {
     now \<leftarrow> now_text env;
     let process = process \<lparr> wp_UpdatedAt := now \<rparr>;
     if \<not> ee_HasStateStore env then refused (internalError ''restore workflow decision state'')
     else do {
       event \<leftarrow> workflowDecisionEvent env (wp_ID process) (wt_NodeID decidedTask) (wt_ID decidedTask) ''task_decision_rolled_back'' actorID
         (serviceErrorCode decisionErr) [] now;
       e \<leftarrow> transact (CommitWorkflowState (ee_Store env) ((empty_state_commit (wp_WorkspaceID process)) \<lparr> sc_Process := Some process,
         sc_UpdateNodes := nodes, sc_UpdateTasks := map (\<lambda>t. t \<lparr> wt_UpdatedAt := now \<rparr>) tasks, sc_Events := [event],
         sc_WorkflowExecution := recoveryExecution \<rparr>));
       (case e of
          Some c \<Rightarrow> refused (InternalErr ''restore workflow decision state'' (Some c))
        | None \<Rightarrow> ret (process, Some decisionErr)) } }"

text \<open>
  The continuation after the commit, by the one who voted, when no worker was faster. The answer is the
  process, whether the continuation was claimed, and the error. A failed run is rolled back to what
  was read before the vote; the failure that is marked on the claimed execution is not stored.
\<close>

definition resumed_execution :: "WorkflowExecution \<Rightarrow> WorkflowProcessInstance \<Rightarrow> WorkflowExecution" where
  "resumed_execution execution processSnapshot = execution \<lparr> we_Result := AList.delete ''resume_node_ids''
     (AList.update ''current_node_ids'' (VStrs (wp_CurrentNodeIDs processSnapshot)) (AList.update ''process_status'' (VStr (wp_Status processSnapshot))
       (WorkflowCloneMap (we_Result execution)))) \<rparr>"

definition runCommittedWorkflowContinuation :: "engine_env \<Rightarrow> WorkflowExecution \<Rightarrow> Principal \<Rightarrow> WorkflowProcessInstance \<Rightarrow> WorkflowNodeInstance list \<Rightarrow>
    WorkflowTask list \<Rightarrow> WorkflowTask \<Rightarrow> (WorkflowProcessInstance \<times> bool \<times> engine_error option) engine" where
  "runCommittedWorkflowContinuation env execution actor processSnapshot nodeSnapshots taskSnapshots decidedTask = do {
     now \<leftarrow> now_text env;
     let claimed = execution \<lparr> we_Status := ''running'', we_UpdatedAt := now \<rparr>;
     updated \<leftarrow> transact (UpdateExecutionWhere_store (ee_Store env) (we_WorkspaceID execution) claimed
       (no_conditions \<lparr> ec_Status := Some ''pending'', ec_UpdatedAt := Some (we_UpdatedAt execution) \<rparr>));
     (case updated of
        Inl c \<Rightarrow> ret (zero_process, False, Some (InternalErr ''claim workflow continuation'' (Some c)))
      | Inr False \<Rightarrow> ret (zero_process, False, None)
      | Inr True \<Rightarrow> do {
          found \<leftarrow> read_db (GetProcess (ee_Store env) (we_WorkspaceID execution) (we_ProcessID execution));
          (case found of
             Inl c \<Rightarrow> ret (zero_process, True, Some (InternalErr ''load workflow continuation process'' (Some c)))
           | Inr None \<Rightarrow> ret (zero_process, True, Some (internalError ''load workflow continuation process''))
           | Inr (Some process) \<Rightarrow> (let
               resume = workflowNodeIDsFromAny (data_get (we_Result execution) ''resume_node_ids'');
               nodeIDs = (if resume = [] then wp_CurrentNodeIDs process else resume)
             in do {
               (continued, runErr) \<leftarrow> runWithContext env process nodeIDs [] actor;
               at \<leftarrow> now_text env;
               let claimed = claimed \<lparr> we_Attempt := wrap64 (we_Attempt claimed + 1), we_UpdatedAt := at \<rparr>;
               (case runErr of
                  Some e \<Rightarrow> do {
                    _ \<leftarrow> clock env;
                    restored \<leftarrow> now_text env;
                    (process, err) \<leftarrow> recoverWorkflowDecision env processSnapshot nodeSnapshots taskSnapshots decidedTask e (pr_UserID actor)
                      (Some ((resumed_execution execution processSnapshot) \<lparr> we_Status := ''waiting'', we_Message := ''workflow.message.approvalWaiting'',
                        we_LastError := [], we_UpdatedAt := restored, we_NextRunAt := [] \<rparr>));
                    ret (process, True, err) }
                | None \<Rightarrow> do {
                    e \<leftarrow> transact (UpdateExecution_store (ee_Store env) (we_WorkspaceID execution) ((resumed_execution claimed continued) \<lparr>
                      we_Status := wp_Status continued, we_Message := ''workflow.message.continuationCompleted'', we_LastError := [], we_NextRunAt := [],
                      we_NodeID := (case wp_CurrentNodeIDs continued of [] \<Rightarrow> [] | n # _ \<Rightarrow> n) \<rparr>));
                    ret (continued, True, internal ''complete workflow continuation'' e) }) })) }) }"

subsection \<open>Storing a decision\<close>

text \<open>Notifications, the transaction, and the answer when another request decided the task meanwhile.\<close>

definition store_decision :: "engine_env \<Rightarrow> WorkflowDecisionCommit \<Rightarrow> WorkflowProcessInstance \<Rightarrow> WorkflowTask \<Rightarrow> WorkflowTaskDecisionRequest \<Rightarrow>
    Principal \<Rightarrow> string \<Rightarrow> process_answer engine \<Rightarrow> process_answer engine" where
  "store_decision env commit process task req actor now after = (case prepareWorkflowDecisionNotifications env commit process now of
      Inl e \<Rightarrow> refused e
    | Inr commit \<Rightarrow> do {
        committed \<leftarrow> transact (CommitWorkflowDecision (ee_Store env) commit);
        (case committed of
           Inl c \<Rightarrow> refused (InternalErr ''commit workflow task decision'' (Some c))
         | Inr True \<Rightarrow> after
         | Inr False \<Rightarrow> do {
             (replay, found) \<leftarrow> workflowDecisionReplay env (pr_WorkspaceID actor) task req;
             if found then ret (replay, None) else refused (conflict ''backend.workflow.task_already_decided'' []) }) })"

text \<open>The execution of the process, if there is one.\<close>

definition with_execution :: "engine_env \<Rightarrow> Principal \<Rightarrow> WorkflowProcessInstance \<Rightarrow> (WorkflowExecution option \<Rightarrow> process_answer engine) \<Rightarrow> process_answer engine" where
  "with_execution env actor process f = (if \<not> ee_HasWorkers env then f None
     else do {
       loaded \<leftarrow> read_db (GetExecution (ee_Store env) (pr_WorkspaceID actor) (wp_ID process));
       (case loaded of Inl c \<Rightarrow> refused (InternalErr ''get workflow execution'' (Some c)) | Inr found \<Rightarrow> f found) })"

definition put_in_commit :: "WorkflowExecution option \<Rightarrow> WorkflowExecution \<Rightarrow> WorkflowDecisionCommit \<Rightarrow> WorkflowDecisionCommit" where
  "put_in_commit found execution commit = (case found of
      Some _ \<Rightarrow> commit \<lparr> dc_WorkflowExecution := Some execution \<rparr>
    | None \<Rightarrow> commit \<lparr> dc_InsertExecutions := dc_InsertExecutions commit @ [execution] \<rparr>)"

definition waiting_execution :: "WorkflowExecution option \<Rightarrow> WorkflowProcessInstance \<Rightarrow> Principal \<Rightarrow> string \<Rightarrow> WorkflowExecution" where
  "waiting_execution found process actor now = (let
     execution = (case found of Some e \<Rightarrow> e | None \<Rightarrow> workflowDecisionExecution process actor now)
   in execution \<lparr> we_Status := wp_Status process, we_UpdatedAt := now, we_Message := ''workflow.message.approvalWaiting'',
     we_Result := fold (\<lambda>(k, v). AList.update k v) [(''process_id'', VStr (wp_ID process)), (''current_node_ids'', VStrs (wp_CurrentNodeIDs process)),
       (''process_status'', VStr (wp_Status process))] (WorkflowCloneMap (we_Result execution)) \<rparr>)"

definition commitRouteApprovalContinuation :: "engine_env \<Rightarrow> WorkflowDecisionCommit \<Rightarrow> WorkflowProcessInstance \<Rightarrow> WorkflowTask \<Rightarrow>
    WorkflowTaskDecisionRequest \<Rightarrow> Principal \<Rightarrow> string \<Rightarrow> process_answer engine" where
  "commitRouteApprovalContinuation env commit process task req actor now = with_execution env actor process (\<lambda>found.
     store_decision env (put_in_commit found (waiting_execution found process actor now) commit) process task req actor now (ret (process, None)))"

subsection \<open>The decision\<close>

text \<open>What a decision is computed from, after the checks: the request, what was read, and the time of the vote.\<close>

record vote =
  vo_Req :: WorkflowTaskDecisionRequest
  vo_Actor :: Principal
  vo_Snapshot :: WorkflowProcessInstance
  vo_Open :: WorkflowTask
  vo_Task :: WorkflowTask
  vo_Node :: WorkflowGraphNode
  vo_Tasks :: "WorkflowTask list"
  vo_Nodes :: "WorkflowNodeInstance list"
  vo_Plan :: "workflowRouteDecisionPlan option"
  vo_Now :: string

definition vote_event :: "engine_env \<Rightarrow> vote \<Rightarrow> WorkflowDecisionCommit \<Rightarrow> WorkflowDecisionCommit engine" where
  "vote_event env v = add_event env (wp_ID (vo_Snapshot v)) (wt_NodeID (vo_Task v)) (wt_ID (vo_Task v)) (''task_'' @ wt_Decision (vo_Task v))
     (pr_UserID (vo_Actor v)) (''workflow.event.task.'' @ wt_Decision (vo_Task v)) [(''comment'', VStr (wt_Comment (vo_Task v)))] (vo_Now v)"

text \<open>
  A vote that does not complete the node. In sequential mode the pending task with the least sequence
  opens; \<open>sort.Slice\<close> is not stable, and the sequences of the tasks of a node are different.
\<close>

definition partial_vote :: "engine_env \<Rightarrow> vote \<Rightarrow> WorkflowDecisionCommit \<Rightarrow> WorkflowProcessInstance \<Rightarrow> string \<Rightarrow> process_answer engine" where
  "partial_vote env v commit process outcome = do {
     commit \<leftarrow> vote_event env v (if trim_space (dr_IdempotencyKey (vo_Req v)) \<noteq> [] then commit \<lparr> dc_Process := Some process \<rparr> else commit);
     applied \<leftarrow> (case vo_Plan v of
         None \<Rightarrow> ret (Inr (commit, process, False))
       | Some plan \<Rightarrow> applyRouteDecision env commit process (vo_Node v) plan outcome False (vo_Actor v) (vo_Now v));
     (case applied of
        Inl e \<Rightarrow> refused e
      | Inr (commit, process, _) \<Rightarrow> do {
          commit \<leftarrow> (if vo_Plan v = None \<and> valueOrDefault (trim_space (ac_Mode (WorkflowApprovalNodeContract (vo_Node v)))) ''any'' = ''sequential''
            then (case sort_key wt_Sequence (filter (\<lambda>t. wt_NodeID t = wt_NodeID (vo_Task v) \<and> wt_Status t = ''pending'') (vo_Tasks v)) of
                [] \<Rightarrow> ret commit
              | t # _ \<Rightarrow> add_event env (wp_ID process) (wt_NodeID (vo_Task v)) (wt_ID t) ''task_opened'' ''system'' (wt_Title t) [] (vo_Now v)
                  (commit \<lparr> dc_UpdateTasks := dc_UpdateTasks commit @ [t \<lparr> wt_Status := ''open'', wt_UpdatedAt := vo_Now v \<rparr>] \<rparr>))
            else ret commit);
          store_decision env commit process (vo_Task v) (vo_Req v) (vo_Actor v) (vo_Now v) (ret (process, None)) }) }"

fun cancel_siblings :: "engine_env \<Rightarrow> vote \<Rightarrow> WorkflowTask list \<Rightarrow> WorkflowDecisionCommit \<Rightarrow> WorkflowDecisionCommit engine" where
  "cancel_siblings env v [] commit = ret commit"
| "cancel_siblings env v (t # ts) commit = (let task = vo_Task v in
     if wt_ID t = wt_ID task \<or> wt_NodeID t \<noteq> wt_NodeID task \<or> wt_NodeInstanceID t \<noteq> wt_NodeInstanceID task \<or>
       wt_Status t \<noteq> ''open'' \<and> wt_Status t \<noteq> ''pending'' then cancel_siblings env v ts commit
     else do {
       commit \<leftarrow> add_event env (wp_ID (vo_Snapshot v)) (wt_NodeID task) (wt_ID t) ''task_cancelled'' (pr_UserID (vo_Actor v)) (wt_Title t) [] (vo_Now v)
         (commit \<lparr> dc_UpdateTasks := dc_UpdateTasks commit @ [t \<lparr> wt_Status := ''cancelled'', wt_UpdatedAt := vo_Now v \<rparr>] \<rparr>);
       cancel_siblings env v ts commit })"

text \<open>The waiting instance of the node, completed with the outcome.\<close>

definition close_node :: "engine_env \<Rightarrow> vote \<Rightarrow> string \<Rightarrow> WorkflowDecisionCommit \<Rightarrow> WorkflowDecisionCommit option engine" where
  "close_node env v outcome commit = (let task = vo_Task v in
     (case find (\<lambda>n. \<not> (wn_NodeID n \<noteq> wt_NodeID task \<or> wn_Status n \<noteq> ''waiting'' \<or> wt_NodeInstanceID task \<noteq> [] \<and> wn_ID n \<noteq> wt_NodeInstanceID task)) (vo_Nodes v) of
        None \<Rightarrow> ret None
      | Some n \<Rightarrow> do {
          commit \<leftarrow> add_event env (wp_ID (vo_Snapshot v)) (wt_NodeID task) [] (''approval_'' @ outcome) (pr_UserID (vo_Actor v))
            (''workflow.event.approval.'' @ outcome) [] (vo_Now v) (commit \<lparr> dc_UpdateNodes := dc_UpdateNodes commit @
              [n \<lparr> wn_Status := outcome, wn_Output := [(''decision'', VStr outcome)], wn_CompletedAt := vo_Now v \<rparr>] \<rparr>);
          ret (Some commit) }))"

text \<open>The three endings of a completed node: approvals follow, other nodes follow, nothing follows.\<close>

definition wait_for_approvals :: "engine_env \<Rightarrow> vote \<Rightarrow> WorkflowDecisionCommit \<Rightarrow> WorkflowProcessInstance \<Rightarrow> string list \<Rightarrow> process_answer engine" where
  "wait_for_approvals env v commit process0 nodeIDs = (let
     process = process0 \<lparr> wp_Status := ''waiting'', wp_CurrentNodeIDs := uniqueSortedStrings nodeIDs, wp_CompletedAt := [], wp_UpdatedAt := vo_Now v \<rparr>
   in with_execution env (vo_Actor v) process (\<lambda>found.
     store_decision env (put_in_commit found (waiting_execution found process (vo_Actor v) (vo_Now v)) (commit \<lparr> dc_Process := Some process \<rparr>))
       process (vo_Task v) (vo_Req v) (vo_Actor v) (vo_Now v) (ret (process, None))))"

definition queued_execution :: "WorkflowExecution option \<Rightarrow> WorkflowProcessInstance \<Rightarrow> Principal \<Rightarrow> string \<Rightarrow> string list \<Rightarrow> WorkflowExecution" where
  "queued_execution found process actor now nodeIDs = (let
     execution = (case found of Some e \<Rightarrow> e | None \<Rightarrow> workflowDecisionExecution process actor now)
   in execution \<lparr> we_Status := ''pending'', we_Attempt := 0, we_UpdatedAt := now, we_Message := ''workflow.message.continuationQueued'',
     we_LastError := [], we_NextRunAt := [],
     we_Result := fold (\<lambda>(k, v). AList.update k v) [(''transactional_continuation'', VBool True), (''resume_process_id'', VStr (wp_ID process)),
       (''resume_node_ids'', VStrs nodeIDs)] (WorkflowCloneMap (we_Result execution)) \<rparr>)"

definition continue_process :: "engine_env \<Rightarrow> vote \<Rightarrow> WorkflowDecisionCommit \<Rightarrow> WorkflowProcessInstance \<Rightarrow> string list \<Rightarrow> process_answer engine" where
  "continue_process env v commit process0 nodeIDs = (let
     process = process0 \<lparr> wp_Status := ''running'', wp_CurrentNodeIDs := uniqueSortedStrings nodeIDs, wp_CompletedAt := [], wp_UpdatedAt := vo_Now v \<rparr>
   in do {
     commit \<leftarrow> add_event env (wp_ID process) (wt_NodeID (vo_Task v)) (wt_ID (vo_Task v)) ''workflow_continuation_queued'' (pr_UserID (vo_Actor v))
       ''workflow.event.continuation.queued'' [(''node_ids'', VStrs nodeIDs)] (vo_Now v) (commit \<lparr> dc_Process := Some process \<rparr>);
     with_execution env (vo_Actor v) process (\<lambda>found. (let execution = queued_execution found process (vo_Actor v) (vo_Now v) nodeIDs in
       store_decision env (put_in_commit found execution commit) process (vo_Task v) (vo_Req v) (vo_Actor v) (vo_Now v)
         (if \<not> ee_HasWorkers env then ret (process, None)
          else do {
            (continued, claimed, err) \<leftarrow> runCommittedWorkflowContinuation env execution (vo_Actor v) (vo_Snapshot v) (vo_Nodes v) (vo_Tasks v) (vo_Open v);
            ret (if err \<noteq> None then (process, err) else if claimed then (continued, None) else (process, None)) }))) })"

definition end_process :: "engine_env \<Rightarrow> vote \<Rightarrow> WorkflowDecisionCommit \<Rightarrow> WorkflowProcessInstance \<Rightarrow> string \<Rightarrow> process_answer engine" where
  "end_process env v commit process0 outcome = (let
     approved = (outcome = ''approved'');
     process = process0 \<lparr> wp_Status := (if approved then ''completed'' else ''rejected''),
       wp_CurrentNodeIDs := WorkflowRemoveString (wp_CurrentNodeIDs process0) (wt_NodeID (vo_Task v)), wp_CompletedAt := vo_Now v, wp_UpdatedAt := vo_Now v \<rparr>
   in do {
     commit \<leftarrow> add_event env (wp_ID process) (wt_NodeID (vo_Task v)) (wt_ID (vo_Task v)) (if approved then ''process_completed'' else ''process_rejected'')
       (pr_UserID (vo_Actor v)) (if approved then ''workflow.event.process.completed'' else ''workflow.event.process.rejected'') [] (vo_Now v)
       (commit \<lparr> dc_Process := Some process \<rparr>);
     with_execution env (vo_Actor v) process (\<lambda>found. (let
       commit = (case found of
           None \<Rightarrow> commit
         | Some execution \<Rightarrow> commit \<lparr> dc_WorkflowExecution := Some (execution \<lparr> we_ProcessID := wp_ID process, we_Status := wp_Status process,
             we_UpdatedAt := wp_UpdatedAt process, we_NodeID := [], we_LastError := [], we_NextRunAt := [],
             we_Result := AList.delete ''node_id'' (fold (\<lambda>(k, v). AList.update k v) [(''process_id'', VStr (wp_ID process)),
               (''current_node_ids'', VStrs (wp_CurrentNodeIDs process)), (''process_status'', VStr (wp_Status process))]
               (WorkflowCloneMap (we_Result execution))) \<rparr>) \<rparr>)
       in store_decision env commit process (vo_Task v) (vo_Req v) (vo_Actor v) (vo_Now v) (ret (process, None)))) })"

definition follow_outcome :: "engine_env \<Rightarrow> vote \<Rightarrow> WorkflowDecisionCommit \<Rightarrow> WorkflowProcessInstance \<Rightarrow> string \<Rightarrow> process_answer engine" where
  "follow_outcome env v commit process outcome = (let
     nodeIDs = nextNodeIDs (ws_Graph (wp_DefinitionSnapshot process)) (wt_NodeID (vo_Task v)) outcome
   in if nodeIDs = [] then end_process env v commit process outcome
      else do {
        prepared \<leftarrow> prepareNextApprovalNodes env commit process nodeIDs (vo_Actor v) (vo_Now v);
        (case prepared of
           Inl e \<Rightarrow> refused e
         | Inr (commit, True) \<Rightarrow> wait_for_approvals env v commit process nodeIDs
         | Inr (commit, False) \<Rightarrow> continue_process env v commit process nodeIDs) })"

text \<open>What follows when the node is closed: the next step of its route, or the nodes the outcome leads to.\<close>

definition after_close :: "engine_env \<Rightarrow> vote \<Rightarrow> WorkflowDecisionCommit \<Rightarrow> WorkflowProcessInstance \<Rightarrow> string \<Rightarrow> process_answer engine" where
  "after_close env v commit process0 outcome = (let
     process = process0 \<lparr> wp_Variables := AList.update ''approval_comment'' (VStr (wt_Comment (vo_Task v)))
       (AList.update ''approval_decision'' (VStr outcome) (WorkflowCloneMap (wp_Variables process0))) \<rparr>
   in (case vo_Plan v of
       None \<Rightarrow> follow_outcome env v commit process outcome
     | Some plan \<Rightarrow> do {
         applied \<leftarrow> applyRouteDecision env commit process (vo_Node v) plan outcome True (vo_Actor v) (vo_Now v);
         (case applied of
            Inl e \<Rightarrow> refused e
          | Inr (commit, process, activated) \<Rightarrow>
              if activated then commitRouteApprovalContinuation env (commit \<lparr> dc_Process := Some process \<rparr>) process (vo_Task v) (vo_Req v)
                (vo_Actor v) (vo_Now v)
              else if outcome = ''approved'' \<and> rp_HasNext plan \<and> rs_Status (rp_Next plan) = ''configurable'' \<and> rp_Configured plan = None
                then (let process = routeProcessConfigurationError process ''backend.workflow.next_step_required'' (vo_Now v) in do {
                  commit \<leftarrow> add_event env (wp_ID process) (wt_NodeID (vo_Task v)) (wt_ID (vo_Task v)) ''process_failed'' (pr_UserID (vo_Actor v))
                    (wp_ErrorCode process) [(''step_key'', VStr (rs_StepKey (rp_Next plan)))] (vo_Now v) (commit \<lparr> dc_Process := Some process \<rparr>);
                  commitRouteApprovalContinuation env commit process (vo_Task v) (vo_Req v) (vo_Actor v) (vo_Now v) })
              else follow_outcome env v commit process outcome) }))"

definition complete_vote :: "engine_env \<Rightarrow> vote \<Rightarrow> WorkflowDecisionCommit \<Rightarrow> WorkflowProcessInstance \<Rightarrow> string \<Rightarrow> process_answer engine" where
  "complete_vote env v commit process outcome = do {
     commit \<leftarrow> vote_event env v commit;
     commit \<leftarrow> cancel_siblings env v (vo_Tasks v) commit;
     closed \<leftarrow> close_node env v outcome commit;
     (case closed of
        None \<Rightarrow> refused (notFound ''backend.workflow.approval_node_instance_not_found'')
      | Some commit \<Rightarrow> after_close env v commit process outcome) }"

text \<open>A vote at the revision of the process has the next nanosecond for its time.\<close>

definition vote_time :: "engine_env \<Rightarrow> WorkflowProcessInstance \<Rightarrow> string engine" where
  "vote_time env process = do {
     now \<leftarrow> now_text env;
     ret (if now = wp_UpdatedAt process then format_rfc3339nano ((case parse_rfc3339 now of Some t \<Rightarrow> t | None \<Rightarrow> - (unix_epoch_days * day)) + 1) else now) }"

definition cast_vote :: "engine_env \<Rightarrow> vote \<Rightarrow> process_answer engine" where
  "cast_vote env v = (let
     process = vo_Snapshot v;
     commit = (workflowApprovalDecisionCommit process (vo_Task v)) \<lparr> dc_ExpectedProcessUpdatedAt := wp_UpdatedAt process \<rparr>;
     process' = (if wp_UpdatedAt process \<noteq> [] then process \<lparr> wp_UpdatedAt := vo_Now v \<rparr> else process);
     commit = (if wp_UpdatedAt process \<noteq> [] then commit \<lparr> dc_Process := Some process' \<rparr> else commit);
     (outcome, complete) = (case vo_Plan v of
         None \<Rightarrow> WorkflowTerminalApprovalOutcome process' (vo_Tasks v) (vo_Task v)
       | Some plan \<Rightarrow> WorkflowTerminalRouteApprovalOutcome (rp_Current plan) (vo_Tasks v) (vo_Task v))
   in if complete then complete_vote env v commit process' outcome else partial_vote env v commit process' outcome)"

definition decided_task :: "WorkflowTask \<Rightarrow> string \<Rightarrow> WorkflowTaskDecisionRequest \<Rightarrow> Principal \<Rightarrow> string \<Rightarrow> WorkflowTask" where
  "decided_task task decision req actor now = task \<lparr> wt_Status := decision, wt_Decision := decision, wt_Comment := trim_space (dr_Comment req),
     wt_CompletedBy := pr_UserID actor, wt_CompletedAt := now, wt_UpdatedAt := now \<rparr>"

text \<open>The decision of an open task: what it is computed from is read, a next step is checked, the vote is cast.\<close>

definition decide_open :: "engine_env \<Rightarrow> WorkflowTask \<Rightarrow> string \<Rightarrow> WorkflowTaskDecisionRequest \<Rightarrow> Principal \<Rightarrow> process_answer engine" where
  "decide_open env task decision req actor = do {
     found \<leftarrow> read_db (GetProcess (ee_Store env) (pr_WorkspaceID actor) (wt_ProcessID task));
     (case found of
        Inl c \<Rightarrow> refused (InternalErr ''get workflow process'' (Some c))
      | Inr None \<Rightarrow> refused (internalError ''get workflow process'')
      | Inr (Some stored) \<Rightarrow> (let
          process = (if trim_space (dr_IdempotencyKey req) \<noteq> [] then workflowRecordCommand stored (decision_scope task)
            (workflowCommandKey env ''task.decision'' (wt_ID task) (dr_IdempotencyKey req) (workflowTaskDecisionCommandPayload decision req)) else stored);
          node = fst (WorkflowGraphNode (ws_Graph (wp_DefinitionSnapshot process)) (wt_NodeID task));
          (route, routed) = WorkflowApprovalRoute node
        in if \<not> routed \<and> dr_NextStep req \<noteq> None
             then refused (bad_request ''backend.workflow.next_step_not_configurable'' [''node'', wt_NodeID task])
           else do {
             listed \<leftarrow> workflowApprovalDecisionTasks env process task;
             (case listed of
                Inl e \<Rightarrow> refused e
              | Inr tasks \<Rightarrow> do {
                  instances \<leftarrow> read_db (ListNodes (ee_Store env) (pr_WorkspaceID actor) (wp_ID process));
                  (case instances of
                     Inl c \<Rightarrow> refused (InternalErr ''list workflow nodes'' (Some c))
                   | Inr nodes \<Rightarrow> do {
                       now \<leftarrow> vote_time env process;
                       planned \<leftarrow> (if routed then do { r \<leftarrow> planRouteDecision env process node route task req decision actor now; ret (map_sum (\<lambda>e. e) Some r) }
                         else ret (Inr None));
                       (case planned of
                          Inl e \<Rightarrow> refused e
                        | Inr plan \<Rightarrow> cast_vote env \<lparr> vo_Req = req, vo_Actor = actor, vo_Snapshot = process, vo_Open = task,
                            vo_Task = decided_task task decision req actor now, vo_Node = node, vo_Tasks = tasks, vo_Nodes = nodes, vo_Plan = plan,
                            vo_Now = now \<rparr>) }) }) })) }"

text \<open>No answer stands for a request that is not handled.\<close>

definition decideTerminalWorkflowTaskWithContext :: "engine_env \<Rightarrow> string \<Rightarrow> WorkflowTaskDecisionRequest \<Rightarrow> Principal \<Rightarrow> process_answer option engine" where
  "decideTerminalWorkflowTaskWithContext env taskID req actor = (let decision = to_lower (trim_space (dr_Decision req)) in
     if decision \<notin> {''approved'', ''rejected'', ''returned''} then ret (Some (zero_process, Some (bad_request ''backend.workflow.task_decision_invalid'' [])))
     else if \<not> ee_HasDecisions env then ret None
     else do { answer \<leftarrow> (if \<not> pr_Known actor then refused (forbidden ''backend.role.unknown'')
       else do {
         found \<leftarrow> read_db (GetTask (ee_Store env) (pr_WorkspaceID actor) taskID);
         (case found of
            Inl c \<Rightarrow> refused (InternalErr ''get workflow task'' (Some c))
          | Inr None \<Rightarrow> refused (notFound ''backend.workflow.task_not_found'')
          | Inr (Some task) \<Rightarrow>
              if wt_AssigneeUserID task \<noteq> pr_UserID actor then refused (forbidden ''backend.workflow.task_assignee_required'')
              else (case workflowAuthorizeTaskDecision actor decision of
                  Some e \<Rightarrow> refused e
                | None \<Rightarrow>
                    if wt_Status task \<noteq> ''open'' then do {
                      (replay, found) \<leftarrow> (if dr_IdempotencyKey req \<noteq> [] then workflowDecisionReplay env (pr_WorkspaceID actor) task req
                        else ret (zero_process, False));
                      if found then ret (replay, None) else refused (conflict ''backend.workflow.task_already_decided'' []) }
                    else decide_open env task decision req actor)) }); ret (Some answer) })"

text \<open>Attempts while the revision of the process changed meanwhile, five at most; the pauses between them are not modelled.\<close>

definition snapshot_changed :: "process_answer option \<Rightarrow> bool" where
  "snapshot_changed answer \<longleftrightarrow> (case answer of Some (_, Some (InternalErr _ (Some WorkflowSnapshotChanged))) \<Rightarrow> True | _ \<Rightarrow> False)"

fun decide_attempts :: "engine_env \<Rightarrow> string \<Rightarrow> WorkflowTaskDecisionRequest \<Rightarrow> Principal \<Rightarrow> nat \<Rightarrow> process_answer option engine" where
  "decide_attempts env taskID req actor 0 = ret (Some (zero_process, Some (conflict ''backend.workflow.task_decision_conflict'' [])))"
| "decide_attempts env taskID req actor (Suc n) = do {
     ctx \<leftarrow> ctx_err env;
     (case ctx of
        Some e \<Rightarrow> ret (Some (zero_process, Some e))
      | None \<Rightarrow> do {
          answer \<leftarrow> decideTerminalWorkflowTaskWithContext env taskID req actor;
          if \<not> snapshot_changed answer then ret answer
          else do {
            done \<leftarrow> ctx_err env;
            (case done of Some e \<Rightarrow> ret (Some (zero_process, Some e)) | None \<Rightarrow> decide_attempts env taskID req actor n) } }) }"

definition DecideTerminalTask :: "engine_env \<Rightarrow> string \<Rightarrow> WorkflowTaskDecisionRequest \<Rightarrow> Principal \<Rightarrow> process_answer option engine" where
  "DecideTerminalTask env taskID req actor = (case workflowAuthorizeCommand actor of
      Some e \<Rightarrow> ret (Some (zero_process, Some e)) | None \<Rightarrow> decide_attempts env taskID req actor 5)"

text \<open>
  The service answers a repeated request before it decides. The payload it looks for has no next step, so
  that a request with a next step is recognised only by the decision itself.
\<close>

definition DecideTask :: "service_env \<Rightarrow> string \<Rightarrow> WorkflowTaskDecisionRequest \<Rightarrow> Principal \<Rightarrow> process_answer engine" where
  "DecideTask sv taskID req actor = (let
     env = sv_Engine sv;
     decide = (do {
       answer \<leftarrow> DecideTerminalTask env (trim_space taskID) req actor;
       (case answer of
          Some (process, e) \<Rightarrow> ret (for_principal sv process actor, e)
        | None \<Rightarrow> refused (internalError ''commit workflow task decision'')) })
   in do {
     ctx \<leftarrow> ctx_err env;
     (case (case ctx of Some e \<Rightarrow> Some e | None \<Rightarrow> workflowAuthorizeCommand actor) of
        Some e \<Rightarrow> refused e
      | None \<Rightarrow>
          if trim_space (dr_IdempotencyKey req) = [] then decide
          else do {
            found \<leftarrow> read_db (GetTask (ee_Store env) (pr_WorkspaceID actor) (trim_space taskID));
            (case found of
               Inl c \<Rightarrow> refused (InternalErr ''get workflow task idempotency state'' (Some c))
             | Inr None \<Rightarrow> decide
             | Inr (Some task) \<Rightarrow>
                 if wt_AssigneeUserID task \<noteq> pr_UserID actor then refused (forbidden ''backend.workflow.task_assignee_required'')
                 else (case workflowAuthorizeTaskDecision actor (dr_Decision req) of
                     Some e \<Rightarrow> refused e
                   | None \<Rightarrow> do {
                       stored \<leftarrow> read_db (GetProcess (ee_Store env) (pr_WorkspaceID actor) (wt_ProcessID task));
                       (case stored of
                          Inl c \<Rightarrow> refused (InternalErr ''get workflow decision idempotency state'' (Some c))
                        | Inr None \<Rightarrow> decide
                        | Inr (Some process) \<Rightarrow>
                            if workflowProcessHasCommand process (decision_scope task) (workflowCommandKey env ''task.decision'' (wt_ID task)
                                (dr_IdempotencyKey req) [(''decision'', VStr (to_lower (trim_space (dr_Decision req)))), (''comment'', VStr (trim_space (dr_Comment req)))])
                              then ret (for_principal sv process actor, None)
                            else decide) })) }) })"

subsection \<open>Parts that only note events\<close>

text \<open>
  Before a decision is stored its parts read, and at most append to the trail of events: a step of a
  route that is checked again writes its event outside the transaction of the vote.
\<close>

definition noted :: "workflow_db \<Rightarrow> workflow_db \<Rightarrow> bool" where
  "noted db db' \<longleftrightarrow> workflow_step\<^sup>*\<^sup>* db db' \<and> db' = db \<lparr> db_Events := db_Events db' \<rparr>"

abbreviation only_notes :: "'a engine \<Rightarrow> bool" where
  "only_notes \<equiv> keeps_to noted"

lemma noted_trans: "noted a b \<Longrightarrow> noted b c \<Longrightarrow> noted a c"
  unfolding noted_def by (metis rtranclp_trans workflow_db.surjective workflow_db.update_convs(5))

interpretation noting: table_relation noted
  by unfold_locales (simp add: noted_def, rule noted_trans)

named_theorems quiet
lemmas notes_rules [quiet] = noting.keeps_rules

lemma notes_steps: "only_notes m \<Longrightarrow> db_steps m"
  by (simp add: keeps_to_def noted_def)

lemma notes_insert [quiet]: "only_notes (store (InsertEvent env w e))"
proof -
  have "fst (stmt (InsertEvent env w e) db) = db \<lparr> db_Events := db_Events (fst (stmt (InsertEvent env w e) db)) \<rparr>" for db
    by (simp add: stmt_def InsertEvent_def in_workspace_def insertEventTx_def split: sum.split option.split)
  moreover have "workflow_step\<^sup>*\<^sup>* db (fst (stmt (InsertEvent env w e) db))" for db
    by (rule r_into_rtranclp, rule workflow_step.Statement) blast
  ultimately show ?thesis unfolding keeps_to_def noted_def by (simp add: store_def)
qed

lemma notes_parts [quiet]:
  "only_notes (appendEvent env w p n t ev a sm md)" "only_notes (ctx_err env)" "only_notes (refused e)"
  "only_notes (workflowDecisionEvent env p n t ev a sm md c)" "only_notes (add_event env p n t ev a sm md now commit)"
  "only_notes (workflowDecisionReplay env w task req)" "only_notes (workflowApprovalDecisionTasks env process task)"
  "only_notes (planRouteDecision env process node route task req decision actor now)" "only_notes (vote_event env v commit)"
  "only_notes (close_node env v outcome commit)" "only_notes (vote_time env process)"
proof -
  show "only_notes (appendEvent env w p n t ev a sm md)" unfolding appendEvent_def by (intro quiet)
  show "only_notes (ctx_err env)" by (rule noting.keeps_same) (simp add: ctx_err_def)
  show "only_notes (refused e)" unfolding refused_def by (intro quiet)
  show e: "only_notes (workflowDecisionEvent env p n t ev a sm md c)" for p n t ev a sm md c unfolding workflowDecisionEvent_def by (intro quiet)
  show a: "only_notes (add_event env p n t ev a sm md now commit)" for p n t ev a sm md now commit unfolding add_event_def by (intro quiet e)
  show "only_notes (workflowDecisionReplay env w task req)" unfolding workflowDecisionReplay_def by (intro quiet)
  show "only_notes (workflowApprovalDecisionTasks env process task)" unfolding workflowApprovalDecisionTasks_def Let_def by (intro quiet)
  show "only_notes (planRouteDecision env process node route task req decision actor now)" unfolding planRouteDecision_def by (intro quiet)
  show "only_notes (vote_event env v commit)" unfolding vote_event_def by (rule a)
  show "only_notes (close_node env v outcome commit)" unfolding close_node_def Let_def by (intro quiet a)
  show "only_notes (vote_time env process)" unfolding vote_time_def by (intro quiet)
qed

lemma notes_lists [quiet]:
  "only_notes (add_task_events env md p n now ts c)" "only_notes (next_tasks env names process node i now k xs c)"
  "only_notes (prepare_nodes env names process actor now ns c)" "only_notes (cancel_siblings env v ts c)" "only_notes (route_tasks env build k as)"
proof -
  show "only_notes (add_task_events env md p n now ts c)" by (induction ts arbitrary: c) (auto intro!: quiet)
  show n: "only_notes (next_tasks env names process node i now k xs c)" for node i k xs c
    by (induction xs arbitrary: k c) (auto simp: Let_def intro!: quiet)
  show "only_notes (prepare_nodes env names process actor now ns c)" by (induction ns arbitrary: c) (auto intro!: quiet n split: sum.split)
  show "only_notes (cancel_siblings env v ts c)" by (induction ts arbitrary: c) (auto simp: Let_def intro!: quiet)
  show "only_notes (route_tasks env build k as)" by (induction as arbitrary: k) (auto intro!: quiet)
qed

lemma notes_route [quiet]:
  "only_notes (revalidateRouteStepAssignees env process node route st actor)" "only_notes (WorkflowRouteStepTasks env process node contract st n now)"
  "only_notes (open_next_step env c process node nx actor now)" "only_notes (applyRouteDecision env c process node plan oc b actor now)"
  "only_notes (prepareNextApprovalNodes env c process ids actor now)"
proof -
  show r: "only_notes (revalidateRouteStepAssignees env process node route st actor)" for route st
    unfolding revalidateRouteStepAssignees_def Let_def by (intro quiet)
  show t: "only_notes (WorkflowRouteStepTasks env process node contract st n now)" for contract st n
    unfolding WorkflowRouteStepTasks_def Let_def by (intro quiet)
  show o: "only_notes (open_next_step env c process node nx actor now)" for c nx unfolding open_next_step_def Let_def by (intro quiet t)
  show "only_notes (applyRouteDecision env c process node plan oc b actor now)" unfolding applyRouteDecision_def Let_def by (intro quiet o r)
  show "only_notes (prepareNextApprovalNodes env c process ids actor now)" unfolding prepareNextApprovalNodes_def Let_def by (intro quiet)
qed

lemmas notes_db_steps [steps] = notes_parts [THEN notes_steps] notes_lists [THEN notes_steps] notes_route [THEN notes_steps]

lemma db_steps_recover [steps]: "db_steps (recoverWorkflowDecision env process nodes tasks task e a x)"
  unfolding recoverWorkflowDecision_def Let_def by (intro steps)

lemma db_steps_with_stored [steps]: "(\<And>p. db_steps (f p)) \<Longrightarrow> db_steps (with_stored env op w i f)"
  unfolding with_stored_def by (intro steps)

subsection \<open>The commit of a vote\<close>

text \<open>
  What the parts of a decision do to its commit: the vote itself and its guards stay, rows to write are
  only added.
\<close>

definition extends :: "WorkflowDecisionCommit \<Rightarrow> WorkflowDecisionCommit \<Rightarrow> bool" where
  "extends c c' \<longleftrightarrow> dc_WorkspaceID c' = dc_WorkspaceID c \<and> dc_DecidedTask c' = dc_DecidedTask c \<and>
     dc_ExpectedTaskStatus c' = dc_ExpectedTaskStatus c \<and> dc_ExpectedAssigneeID c' = dc_ExpectedAssigneeID c \<and>
     dc_ExpectedProcessUpdatedAt c' = dc_ExpectedProcessUpdatedAt c \<and>
     set (dc_UpdateTasks c) \<subseteq> set (dc_UpdateTasks c') \<and> set (dc_UpdateNodes c) \<subseteq> set (dc_UpdateNodes c') \<and>
     set (dc_UpdateRouteSteps c) \<subseteq> set (dc_UpdateRouteSteps c') \<and> dc_RecordMutations c' = dc_RecordMutations c"

lemma extends_refl [simp]: "extends c c"
  by (simp add: extends_def)

lemma extends_trans: "extends a b \<Longrightarrow> extends b c \<Longrightarrow> extends a c"
  by (auto simp: extends_def)

lemma extends_updates [simp]:
  "extends c (c \<lparr> dc_Process := p \<rparr>)" "extends c (c \<lparr> dc_InsertTasks := t \<rparr>)" "extends c (c \<lparr> dc_InsertNodes := n \<rparr>)"
  "extends c (c \<lparr> dc_Events := e \<rparr>)" "extends c (c \<lparr> dc_InsertExecutions := x \<rparr>)" "extends c (c \<lparr> dc_WorkflowExecution := y \<rparr>)"
  "extends c (c \<lparr> dc_NotificationEvents := z \<rparr>)" "extends c (c \<lparr> dc_UpdateTasks := dc_UpdateTasks c @ ts \<rparr>)"
  "extends c (c \<lparr> dc_UpdateNodes := dc_UpdateNodes c @ ns \<rparr>)" "extends c (c \<lparr> dc_UpdateRouteSteps := dc_UpdateRouteSteps c @ rs \<rparr>)"
  by (simp_all add: extends_def)

lemma yields_event: "extends c c1 \<Longrightarrow> yields (add_event env p n t ev a sm md now c1) (extends c)"
  unfolding add_event_def by (intro yields_skip yields_return) (blast intro: extends_trans extends_updates)

lemma yields_task_events: "extends c c1 \<Longrightarrow> yields (add_task_events env md p n now ts c1) (extends c)"
proof (induction ts arbitrary: c1)
  case (Cons t ts)
  show ?case unfolding add_task_events.simps
    by (rule yields_bind [OF yields_event [OF extends_trans [OF Cons(2) extends_updates(2)]]]) (rule Cons(1))
qed (simp add: yields_return)

lemma yields_next_tasks: "extends c c1 \<Longrightarrow> yields (next_tasks env names process node i now k xs c1) (extends c)"
proof (induction xs arbitrary: k c1)
  case (Cons x xs)
  show ?case unfolding next_tasks.simps Let_def
    by (rule yields_skip, rule yields_skip, rule yields_bind [OF yields_event [OF extends_trans [OF Cons(2) extends_updates(2)]]]) (rule Cons(1))
qed (simp add: yields_return)

lemma yields_siblings: "extends c c1 \<Longrightarrow> yields (cancel_siblings env v ts c1) (extends c)"
proof (induction ts arbitrary: c1)
  case (Cons t ts)
  show ?case unfolding cancel_siblings.simps Let_def
    using Cons(1) [OF Cons(2)] yields_bind [OF yields_event [OF extends_trans [OF Cons(2) extends_updates(8)]] Cons(1)] by simp
qed (simp add: yields_return)

lemma yields_prepare_nodes: "extends c c1 \<Longrightarrow> yields (prepare_nodes env names process actor now ns c1) (case_sum (\<lambda>_. True) (\<lambda>(c', _). extends c c'))"
proof (induction ns arbitrary: c1)
  case (Cons n ns)
  have "yields (State_Monad.bind (add_event env p ni t ev a sm md now (c1 \<lparr> dc_InsertNodes := is \<rparr>)) (\<lambda>commit.
      State_Monad.bind (next_tasks env names process n i now 0 xs commit) (prepare_nodes env names process actor now ns)))
      (case_sum (\<lambda>_. True) (\<lambda>(c', _). extends c c'))" for p ni t ev a sm md "is" i xs
    by (rule yields_bind [OF yields_event [OF extends_trans [OF Cons(2) extends_updates(3)]]], rule yields_bind [OF yields_next_tasks], assumption)
       (rule Cons(1))
  from yields_skip [OF this] show ?case using Cons(2) by (auto intro!: yields_return split: sum.split)
qed (simp add: yields_return)

lemma yields_prepare: "extends c c1 \<Longrightarrow> yields (prepareNextApprovalNodes env c1 process ids actor now) (case_sum (\<lambda>_. True) (\<lambda>(c', _). extends c c'))"
  unfolding prepareNextApprovalNodes_def Let_def using yields_prepare_nodes by (auto intro!: yields_return)

lemma yields_close: "extends c c1 \<Longrightarrow> yields (close_node env v oc c1) (case_option True (extends c))"
  unfolding close_node_def Let_def
  by (auto intro!: yields_return yields_bind [OF yields_event [OF extends_trans [OF _ extends_updates(9)]]] split: option.split)

lemma yields_open_next: "extends c c1 \<Longrightarrow> yields (open_next_step env c1 process node next actor now) (\<lambda>(c', _). extends c c')"
  unfolding open_next_step_def Let_def
proof (rule yields_skip, rule yields_skip, rule yields_bind)
  fix i tasks md p n
  assume c1: "extends c c1"
  show "yields (add_task_events env md p n now tasks (c1 \<lparr> dc_InsertNodes := dc_InsertNodes c1 @ [i] \<rparr>)) (extends c)"
    by (rule yields_task_events [OF extends_trans [OF c1 extends_updates(3)]])
qed (rule yields_bind [OF yields_event [OF extends_trans [OF _ extends_updates(10)]]], assumption,
  rule yields_bind [OF yields_event], assumption, simp add: yields_return)

lemma yields_apply: "yields (applyRouteDecision env c process node plan oc complete actor now) (case_sum (\<lambda>_. True) (\<lambda>(c', _). extends c c'))"
proof -
  let ?P = "case_sum (\<lambda>_. True) (\<lambda>(c', _). extends c c')"
  have open_next: "yields (State_Monad.bind (open_next_step env (c1 \<lparr> dc_UpdateRouteSteps := dc_UpdateRouteSteps c1 @ [st] \<rparr>) process node nx actor now)
      (\<lambda>(commit, process). ret (Inr (commit, process, True)))) ?P" if "extends c c1" for c1 st nx
    by (rule yields_bind [OF yields_open_next [OF extends_trans [OF that extends_updates(10)]]]) (auto intro!: yields_return)
  have configured: "yields (case rp_Configured plan of None \<Rightarrow> ret c | Some st \<Rightarrow> add_event env p n t ev a (sm st) (md st) now
      (c \<lparr> dc_UpdateRouteSteps := dc_UpdateRouteSteps c @ [st] \<rparr>)) (extends c)" for p n t ev a sm md
    by (auto intro!: yields_return yields_event split: option.split)
  have last_step: "extends c c1 \<Longrightarrow> extends c (c1 \<lparr> dc_UpdateRouteSteps := dc_UpdateRouteSteps c1 @ [st] \<rparr>)" for c1 st
    by (rule extends_trans [OF _ extends_updates(10)])
  show ?thesis unfolding applyRouteDecision_def Let_def tries_def
    by (rule yields_bind [OF configured])
       (auto intro!: yields_return yields_skip [where m = "revalidateRouteStepAssignees _ _ _ _ _ _"] open_next last_step split: sum.split)
qed

lemma notified_extends:
  assumes "prepareWorkflowDecisionNotifications env c process now = Inr c'"
  shows "extends c c'"
proof -
  have add: "add_notification r a = Inr b \<Longrightarrow> extends a b" for r a b
    by (auto simp: add_notification_def res_bind_Inr)
  from assms show ?thesis unfolding prepareWorkflowDecisionNotifications_def
    by (auto simp: res_bind_Inr split: option.splits if_splits
        elim!: res_fold_keeps [where P = "extends c"] dest!: add intro: extends_trans)
qed

lemma db_steps_commands:
  assumes "services_keep_steps (sv_Engine sv)"
  shows "db_steps (CancelWorkflowProcessWithKey sv i key actor)" "db_steps (RetryWorkflowProcessWithKey sv i key actor)"
    "db_steps (ResolveWorkflowProcessFailure sv i note0 actor)"
proof -
  have p: "db_steps (prepareWorkflowWithdrawal env process key actor)" for env process unfolding prepareWorkflowWithdrawal_def Let_def by (intro steps)
  show "db_steps (CancelWorkflowProcessWithKey sv i key actor)" unfolding CancelWorkflowProcessWithKey_def Let_def by (intro steps p)
  have r: "db_steps (RunWithContext (sv_Engine sv) process q w actor)" for process q w
    unfolding RunWithContext_def by (intro steps db_steps_run assms)
  have "db_steps (retry_run sv process k n actor)" for process k n unfolding retry_run_def Let_def by (intro steps r)
  then show "db_steps (RetryWorkflowProcessWithKey sv i key actor)" unfolding RetryWorkflowProcessWithKey_def Let_def by (intro steps)
  show "db_steps (ResolveWorkflowProcessFailure sv i note0 actor)" unfolding ResolveWorkflowProcessFailure_def Let_def by (intro steps)
qed

subsection \<open>A vote is stored by one transaction\<close>

text \<open>
  What a decision does to the tables: it notes events, or it notes events, has one transaction that
  satisfies \<open>V\<close> accepted, and continues by steps of the store.
\<close>

definition stores :: "engine_env \<Rightarrow> (WorkflowDecisionCommit \<Rightarrow> bool) \<Rightarrow> workflow_db \<Rightarrow> workflow_db \<Rightarrow> bool" where
  "stores env V db db' \<longleftrightarrow> workflow_step\<^sup>*\<^sup>* db db' \<and> (noted db db' \<or> (\<exists>c db0 db1. V c \<and> noted db db0 \<and>
     CommitWorkflowDecision (ee_Store env) c db0 = (db1, Inr True) \<and> workflow_step\<^sup>*\<^sup>* db1 db'))"

lemma stores_trans: "stores env V a b \<Longrightarrow> stores env V b c \<Longrightarrow> stores env V a c"
  unfolding stores_def by (meson noted_trans rtranclp_trans)

lemma noted_stores: "noted a b \<Longrightarrow> stores env V a b"
  by (simp add: stores_def noted_def)

lemma stores_mono: "stores env V a b \<Longrightarrow> (\<And>c. V c \<Longrightarrow> W c) \<Longrightarrow> stores env W a b"
  unfolding stores_def by metis

interpretation storing: table_relation "stores env V" for env V
  by unfold_locales (simp add: stores_def noted_def, rule stores_trans)

lemma notes_stores: "only_notes m \<Longrightarrow> keeps_to (stores env V) m"
  by (simp add: keeps_to_def noted_stores)

lemma stores_steps: "keeps_to (stores env V) m \<Longrightarrow> db_steps m"
  by (simp add: keeps_to_def stores_def)

lemma keeps_mono: "keeps_to (stores env V) m \<Longrightarrow> (\<And>c. V c \<Longrightarrow> W c) \<Longrightarrow> keeps_to (stores env W) m"
  unfolding keeps_to_def using stores_mono by metis

named_theorems voting
lemmas stores_rules [voting] = storing.keeps_rules
lemmas stores_quiet [voting] = notes_parts [THEN notes_stores] notes_lists [THEN notes_stores] notes_route [THEN notes_stores]

abbreviation votes :: "engine_env \<Rightarrow> WorkflowDecisionCommit \<Rightarrow> 'a engine \<Rightarrow> bool" where
  "votes env b \<equiv> keeps_to (stores env (extends b))"

lemma votes_store_decision:
  assumes "extends b c" and "dc_ExpectedTaskStatus b = ''open''" and "db_steps after"
  shows "votes env b (store_decision env c process task req actor now after)"
proof (cases "prepareWorkflowDecisionNotifications env c process now")
  case (Inr c')
  from extends_trans [OF assms(1) notified_extends [OF Inr]] have c': "extends b c'" .
  then have st: "workflow_step db (fst (CommitWorkflowDecision (ee_Store env) c' db))" for db
    using assms(2) by (intro workflow_step.Decision) (simp add: extends_def)
  have failed: "fst (CommitWorkflowDecision (ee_Store env) c' db) = db" if "snd (CommitWorkflowDecision (ee_Store env) c' db) \<noteq> Inr True" for db
    using that by (auto simp: CommitWorkflowDecision_def split: sum.splits prod.splits if_splits)
  show ?thesis unfolding keeps_to_def
  proof
    fix s :: engine_state
    let ?m = "store_decision env c process task req actor now after"
    let ?r = "CommitWorkflowDecision (ee_Store env) c' (es_DB s)"
    let ?t = "s \<lparr> es_DB := fst ?r \<rparr>"
    consider (Done) "snd ?r = Inr True" | (Other) "snd ?r \<noteq> Inr True" by blast
    then show "stores env (extends b) (es_DB s) (es_DB (snd (run_state ?m s)))"
    proof cases
      case Done
      have "workflow_step\<^sup>*\<^sup>* (fst ?r) (es_DB (snd (run_state after ?t)))" using assms(3) by (metis db_steps_def engine_state.select_convs(1) engine_state.surjective engine_state.update_convs(1))
      moreover have "es_DB (snd (run_state ?m s)) = es_DB (snd (run_state after ?t))" using Done Inr by (simp add: store_decision_def)
      moreover have "?r = (fst ?r, Inr True)" using Done by (metis prod.collapse)
      moreover have "noted (es_DB s) (es_DB s)" by (rule noting.refl)
      ultimately show ?thesis unfolding stores_def using c' st by (metis converse_rtranclp_into_rtranclp)
    next
      case Other
      have "only_notes (case snd ?r of Inl c \<Rightarrow> refused (InternalErr ''commit workflow task decision'' (Some c)) | Inr x \<Rightarrow> State_Monad.bind
          (workflowDecisionReplay env (pr_WorkspaceID actor) task req) (\<lambda>(replay, found). if found then ret (replay, None)
            else refused (conflict ''backend.workflow.task_already_decided'' [])))" by (intro quiet)
      then have "noted (es_DB s) (es_DB (snd (run_state ?m s)))"
        using Other Inr failed [OF Other] by (auto simp: store_decision_def keeps_to_def split: sum.splits bool.splits)
      then show ?thesis by (rule noted_stores)
    qed
  qed
qed (simp add: store_decision_def voting)

lemma put_in_commit_extends: "extends b c \<Longrightarrow> extends b (put_in_commit found e c)"
  by (auto simp: put_in_commit_def intro: extends_trans split: option.split)

lemma votes_with_execution [voting]: "(\<And>x. votes env b (f x)) \<Longrightarrow> votes env b (with_execution env actor process f)"
  unfolding with_execution_def by (intro voting)

lemma db_steps_continuation:
  assumes "services_keep_steps env"
  shows "db_steps (runCommittedWorkflowContinuation env execution actor p ns ts t)"
  unfolding runCommittedWorkflowContinuation_def Let_def
  by (auto intro!: steps db_steps_run assms split: sum.split bool.split option.split)

lemma votes_event:
  assumes "extends b c" and "\<And>c. extends b c \<Longrightarrow> votes env b (f c)"
  shows "votes env b (State_Monad.bind (add_event env p n t ev a sm md now c) f)"
  by (rule storing.keeps_bind_yields [OF yields_event [OF assms(1)]]) (auto intro: voting assms(2))

lemmas extends_by = extends_trans [OF _ extends_updates(1)] extends_trans [OF _ extends_updates(8)] extends_trans [OF _ extends_updates(6)]

lemma votes_follow:
  assumes "services_keep_steps env" and "dc_ExpectedTaskStatus b = ''open''" and "extends b c"
  shows "votes env b (follow_outcome env v c q oc)"
proof -
  have w: "votes env b (wait_for_approvals env v c2 q ids)" if "extends b c2" for c2 ids
    unfolding wait_for_approvals_def Let_def by (intro votes_with_execution votes_store_decision put_in_commit_extends extends_by(1) that assms(2) steps)
  have k: "votes env b (continue_process env v c2 q ids)" if "extends b c2" for c2 ids
    unfolding continue_process_def Let_def
    by (rule votes_event [OF extends_by(1) [OF that]])
       (intro votes_with_execution votes_store_decision put_in_commit_extends assms(2) steps db_steps_continuation assms(1))
  have d: "votes env b (end_process env v c q oc)" unfolding end_process_def Let_def
    by (rule votes_event [OF extends_by(1) [OF assms(3)]])
       (intro votes_with_execution votes_store_decision assms(2) steps, auto intro: extends_by split: option.split)
  have "votes env b (State_Monad.bind (prepareNextApprovalNodes env c q ids (vo_Actor v) (vo_Now v)) (\<lambda>prepared. case prepared of Inl e \<Rightarrow> refused e
      | Inr (c2, True) \<Rightarrow> wait_for_approvals env v c2 q ids | Inr (c2, False) \<Rightarrow> continue_process env v c2 q ids))" for ids
  proof (rule storing.keeps_bind_yields [OF yields_prepare [OF assms(3)]])
    fix x :: "engine_error + WorkflowDecisionCommit \<times> bool"
    assume "case_sum (\<lambda>_. True) (\<lambda>(c', _). extends b c') x"
    then show "votes env b (case x of Inl e \<Rightarrow> refused e | Inr (c2, True) \<Rightarrow> wait_for_approvals env v c2 q ids
        | Inr (c2, False) \<Rightarrow> continue_process env v c2 q ids)"
      using w k by (auto intro: voting split: sum.splits bool.split)
  qed (rule voting)
  with d show ?thesis unfolding follow_outcome_def Let_def by simp
qed

lemma votes_applied:
  assumes "extends b c" and "\<And>e. votes env b (f (Inl e))" and "\<And>c2 q x. extends b c2 \<Longrightarrow> votes env b (f (Inr (c2, q, x)))"
  shows "votes env b (State_Monad.bind (applyRouteDecision env c q node plan oc full actor now) f)"
proof (rule storing.keeps_bind_yields [OF yields_apply])
  fix x :: "engine_error + WorkflowDecisionCommit \<times> WorkflowProcessInstance \<times> bool"
  assume "case_sum (\<lambda>_. True) (\<lambda>(c', _). extends c c') x"
  then show "votes env b (f x)" using assms extends_trans [OF assms(1)] by (cases x) auto
qed (rule voting)

lemma votes_opened:
  assumes "extends b c" and "dc_ExpectedTaskStatus b = ''open''"
  shows "votes env b (State_Monad.bind (if sequential then case xs of [] \<Rightarrow> ret c | t # _ \<Rightarrow> add_event env p n (wt_ID t) ev a (wt_Title t) md now
      (c \<lparr> dc_UpdateTasks := dc_UpdateTasks c @ [g t] \<rparr>) else ret c) (\<lambda>c2. store_decision env c2 q task req actor now (ret r)))"
proof -
  have stored: "votes env b (store_decision env c2 q task req actor now (ret r))" if "extends b c2" for c2
    by (intro votes_store_decision that assms(2) steps)
  show ?thesis
  proof (cases sequential)
    case True
    show ?thesis
    proof (cases xs)
      case (Cons t ts)
      show ?thesis unfolding Cons list.case if_P [OF True] by (rule votes_event [OF extends_by(2) [OF assms(1)] stored])
    qed (use stored [OF assms(1)] True in simp)
  qed (use stored [OF assms(1)] in simp)
qed

lemma votes_partial:
  assumes "extends b c" and "dc_ExpectedTaskStatus b = ''open''"
  shows "votes env b (partial_vote env v c process oc)"
  unfolding partial_vote_def vote_event_def
proof (rule votes_event)
  fix c1 assume c1: "extends b c1"
  show "votes env b (State_Monad.bind (case vo_Plan v of None \<Rightarrow> ret (Inr (c1, process, False))
       | Some plan \<Rightarrow> applyRouteDecision env c1 process (vo_Node v) plan oc False (vo_Actor v) (vo_Now v)) (\<lambda>applied. case applied of
       Inl e \<Rightarrow> refused e | Inr (commit, process, _) \<Rightarrow> State_Monad.bind
         (if vo_Plan v = None \<and> valueOrDefault (trim_space (ac_Mode (WorkflowApprovalNodeContract (vo_Node v)))) ''any'' = ''sequential''
          then case sort_key wt_Sequence (filter (\<lambda>t. wt_NodeID t = wt_NodeID (vo_Task v) \<and> wt_Status t = ''pending'') (vo_Tasks v)) of
              [] \<Rightarrow> ret commit
            | t # _ \<Rightarrow> add_event env (wp_ID process) (wt_NodeID (vo_Task v)) (wt_ID t) ''task_opened'' ''system'' (wt_Title t) [] (vo_Now v)
                (commit \<lparr> dc_UpdateTasks := dc_UpdateTasks commit @ [t \<lparr> wt_Status := ''open'', wt_UpdatedAt := vo_Now v \<rparr>] \<rparr>)
          else ret commit) (\<lambda>commit. store_decision env commit process (vo_Task v) (vo_Req v) (vo_Actor v) (vo_Now v) (ret (process, None)))))"
  proof (cases "vo_Plan v")
    case None
    show ?thesis unfolding None option.case bind_left_identity sum.case prod.case by (rule votes_opened [OF c1 assms(2)])
  next
    case (Some plan)
    show ?thesis unfolding Some option.case
      by (rule votes_applied [OF c1], unfold sum.case prod.case) (rule voting, rule votes_opened [OF _ assms(2)])
  qed
qed (use assms(1) in \<open>auto intro: extends_by\<close>)

lemma votes_after_close:
  assumes "services_keep_steps env" and "dc_ExpectedTaskStatus b = ''open''" and "extends b c"
  shows "votes env b (after_close env v c process oc)"
proof -
  have route: "votes env b (commitRouteApprovalContinuation env c1 q t req actor now)" if "extends b c1" for c1 q t req actor now
    unfolding commitRouteApprovalContinuation_def by (intro votes_with_execution votes_store_decision put_in_commit_extends that assms(2) steps)
  have failed: "votes env b (State_Monad.bind (add_event env p n t ev a sm md now (c1 \<lparr> dc_Process := x \<rparr>)) (\<lambda>c. commitRouteApprovalContinuation env c q tk req actor now))"
    if "extends b c1" for p n t ev a sm md now c1 x q tk req actor
    by (rule votes_event [OF extends_by(1) [OF that] route])
  note follow = votes_follow [OF assms(1,2)]
  show ?thesis
  proof (cases "vo_Plan v")
    case None
    then show ?thesis unfolding after_close_def Let_def by (simp add: follow [OF assms(3)])
  next
    case (Some plan)
    show ?thesis unfolding after_close_def Let_def Some option.case
      by (rule votes_applied [OF assms(3)]) (auto intro: voting route failed follow extends_by)
  qed
qed

lemma votes_closed:
  assumes "services_keep_steps env" and "dc_ExpectedTaskStatus b = ''open''" and "extends b c"
  shows "votes env b (State_Monad.bind (close_node env v oc c) (\<lambda>closed. case closed of
      None \<Rightarrow> refused (notFound ''backend.workflow.approval_node_instance_not_found'') | Some c \<Rightarrow> after_close env v c process oc))"
proof (rule storing.keeps_bind_yields [OF yields_close [OF assms(3)]])
  fix x assume "case_option True (extends b) x"
  then show "votes env b (case x of None \<Rightarrow> refused (notFound ''backend.workflow.approval_node_instance_not_found'') | Some c \<Rightarrow> after_close env v c process oc)"
    using votes_after_close [OF assms(1,2)] by (auto intro: voting split: option.splits)
qed (rule voting)

lemma votes_complete:
  assumes "services_keep_steps env" and "dc_ExpectedTaskStatus b = ''open''" and "extends b c"
  shows "votes env b (complete_vote env v c process oc)"
  unfolding complete_vote_def vote_event_def
  by (rule votes_event [OF assms(3)], rule storing.keeps_bind_yields [OF yields_siblings]) (assumption | rule votes_closed [OF assms(1,2)] | rule voting)+

text \<open>
  The commits of a request: the open task with the id, decided as the principal asks, who must be its
  assignee.
\<close>

definition cast_by :: "string \<Rightarrow> WorkflowTaskDecisionRequest \<Rightarrow> Principal \<Rightarrow> WorkflowDecisionCommit \<Rightarrow> bool" where
  "cast_by taskID req actor c \<longleftrightarrow> (\<exists>task now. wt_ID task = taskID \<and>
     dc_DecidedTask c = decided_task task (to_lower (trim_space (dr_Decision req))) req actor now) \<and>
     dc_WorkspaceID c = trim_space (pr_WorkspaceID actor) \<and> dc_ExpectedTaskStatus c = ''open'' \<and>
     dc_ExpectedAssigneeID c = pr_UserID actor \<and> pr_Known actor \<and>
     to_lower (trim_space (dr_Decision req)) \<in> {''approved'', ''rejected'', ''returned''} \<and>
     workflowAuthorizeTaskDecision actor (to_lower (trim_space (dr_Decision req))) = None"

lemma yields_get_task: "yields (read_db (GetTask env w i)) (\<lambda>r. \<forall>t. r = Inr (Some t) \<longrightarrow> wt_ID t = i)"
  by (auto simp: yields_def read_db_def GetTask_def read_in_def scanWorkflowTask_def find_Some_iff split: sum.splits)

lemma yields_get_process:
  "yields (read_db (GetProcess env w i)) (\<lambda>r. \<forall>p. r = Inr (Some p) \<longrightarrow> wp_WorkspaceID p = trim_space w)"
  by (auto simp: yields_def read_db_def GetProcess_def read_in_def requireWorkflowWorkspaceID_def scanWorkflowProcess_def Let_def find_Some_iff
      split: if_splits)

lemma stores_cast:
  assumes "services_keep_steps env" and "wp_WorkspaceID (vo_Snapshot v) = trim_space (pr_WorkspaceID actor)"
    and "vo_Task v = decided_task task (to_lower (trim_space (dr_Decision req))) req actor now" and "wt_ID task = i"
    and "pr_Known actor" and "to_lower (trim_space (dr_Decision req)) \<in> {''approved'', ''rejected'', ''returned''}"
    and "workflowAuthorizeTaskDecision actor (to_lower (trim_space (dr_Decision req))) = None"
  shows "keeps_to (stores env (cast_by i req actor)) (cast_vote env v)"
proof -
  define b where "b = (workflowApprovalDecisionCommit (vo_Snapshot v) (vo_Task v)) \<lparr> dc_ExpectedProcessUpdatedAt := wp_UpdatedAt (vo_Snapshot v) \<rparr>"
  have o: "dc_ExpectedTaskStatus b = ''open''" by (simp add: b_def workflowApprovalDecisionCommit_def)
  have "votes env b (cast_vote env v)"
    unfolding cast_vote_def Let_def b_def [symmetric] by (auto intro!: votes_complete [OF assms(1) o] votes_partial [OF _ o] split: prod.split)
  moreover have "cast_by i req actor c" if "extends b c" for c
    using that assms(2-7) unfolding cast_by_def extends_def b_def workflowApprovalDecisionCommit_def by (auto simp: decided_task_def)
  ultimately show ?thesis by (rule keeps_mono)
qed

lemma stores_open:
  assumes "services_keep_steps env" and "wt_ID task = i" and "pr_Known actor"
    and "to_lower (trim_space (dr_Decision req)) \<in> {''approved'', ''rejected'', ''returned''}"
    and "workflowAuthorizeTaskDecision actor (to_lower (trim_space (dr_Decision req))) = None"
  shows "keeps_to (stores env (cast_by i req actor)) (decide_open env task (to_lower (trim_space (dr_Decision req))) req actor)"
  unfolding decide_open_def Let_def
  by (rule storing.keeps_bind_yields [OF yields_get_process storing.keeps_read])
     (auto intro!: voting stores_cast [OF assms(1) _ _ assms(2-5)] simp: workflowRecordCommand_def split: prod.split sum.split option.split)

lemma stores_terminal:
  assumes "services_keep_steps env"
  shows "keeps_to (stores env (cast_by i req actor)) (decideTerminalWorkflowTaskWithContext env i req actor)"
proof -
  let ?S = "keeps_to (stores env (cast_by i req actor))" and ?d = "to_lower (trim_space (dr_Decision req))"
  note vote = stores_open [OF assms]
  show ?thesis
  proof (cases "?d \<in> {''approved'', ''rejected'', ''returned''} \<and> pr_Known actor \<and> workflowAuthorizeTaskDecision actor ?d = None")
    case True
    have get: "?S (State_Monad.bind (read_db (GetTask (ee_Store env) (pr_WorkspaceID actor) i)) (\<lambda>found. case found of
        Inl c \<Rightarrow> refused (InternalErr ''get workflow task'' (Some c))
      | Inr None \<Rightarrow> refused (notFound ''backend.workflow.task_not_found'')
      | Inr (Some task) \<Rightarrow> if wt_AssigneeUserID task \<noteq> pr_UserID actor then refused (forbidden ''backend.workflow.task_assignee_required'')
          else if wt_Status task \<noteq> ''open'' then f task else decide_open env task ?d req actor))" if f: "\<And>task. ?S (f task)" for f
      by (rule storing.keeps_bind_yields [OF yields_get_task storing.keeps_read])
         (use True in \<open>auto intro!: f vote stores_quiet split: sum.split option.split\<close>)
    from True have t: "\<not> \<not> pr_Known actor" "workflowAuthorizeTaskDecision actor ?d = None" by simp_all
    show ?thesis unfolding decideTerminalWorkflowTaskWithContext_def Let_def t(2) option.case if_not_P [OF t(1)]
      by (intro storing.keeps_if storing.keeps_return storing.keeps_bind [OF get]) (intro voting)
  next
    case False
    then consider "?d \<notin> {''approved'', ''rejected'', ''returned''}" | "\<not> pr_Known actor" | e where "workflowAuthorizeTaskDecision actor ?d = Some e"
      using option.exhaust_sel by blast
    then show ?thesis
    proof cases
      case 3
      show ?thesis unfolding decideTerminalWorkflowTaskWithContext_def Let_def 3 option.case by (intro voting)
    qed (simp_all add: decideTerminalWorkflowTaskWithContext_def Let_def voting)
  qed
qed

lemma stores_decide:
  assumes "services_keep_steps (sv_Engine sv)"
  shows "keeps_to (stores (sv_Engine sv) (cast_by (trim_space taskID) req actor)) (DecideTask sv taskID req actor)"
proof -
  let ?env = "sv_Engine sv" and ?i = "trim_space taskID"
  have "keeps_to (stores ?env (cast_by ?i req actor)) (decide_attempts ?env ?i req actor n)" for n
    by (induction n) (auto intro!: voting stores_terminal [OF assms] split: option.split)
  then have "keeps_to (stores ?env (cast_by ?i req actor)) (DecideTerminalTask ?env ?i req actor)" unfolding DecideTerminalTask_def by (intro voting)
  then show ?thesis unfolding DecideTask_def Let_def by (intro voting)
qed

lemmas db_steps_decide = stores_decide [THEN stores_steps]

end
