(* ===== verification/Workflow_Deadline.thy ===== *)
theory Workflow_Deadline
  imports Workflow_Decision
begin

text \<open>
  Reminders and escalations of approval tasks (\<open>workflow_task_deadline_application_service.go\<close>) and
  the reader of process events they rest on (\<open>ListEvents\<close> of \<open>workflow_process_store.go\<close>).

  A deadline is delivered at least once; the service takes the events of the process as evidence of
  what it has done. The theorems: an escalation that was carried out is not carried out again while the
  process has at most 200 events; beyond that the reader cuts the evidence off and the task is escalated
  again; and an escalation that overlaps with a vote writes the task back to \<open>open\<close>.
\<close>

subsection \<open>The events of a process\<close>

text \<open>Oldest first, by \<open>created_at\<close> and \<open>id\<close>. A limit above 1000 is taken for no limit given.\<close>

definition scanWorkflowEvent :: "Workflow_Store.workflow_env \<Rightarrow> WorkflowProcessEvent \<Rightarrow> WorkflowProcessEvent" where
  "scanWorkflowEvent env r = r \<lparr> ev_Metadata := en_Recode env (ev_Metadata r) \<rparr>"

definition ListEvents :: "Workflow_Store.workflow_env \<Rightarrow> string \<Rightarrow> string \<Rightarrow> int \<Rightarrow> workflow_db \<Rightarrow> workflow_error + WorkflowProcessEvent list" where
  "ListEvents env workspaceID processID limit0 db = read_in workspaceID (\<lambda>w. let
     limit = (if limit0 \<le> 0 \<or> 1000 < limit0 then 200 else limit0)
   in Inr (map (scanWorkflowEvent env) (take (nat limit) (sort_key (\<lambda>r. [ev_CreatedAt r, ev_ID r])
     (filter (\<lambda>r. ev_WorkspaceID r = w \<and> ev_ProcessID r = processID) (db_Events db))))))"

definition workflowTaskEventExists :: "WorkflowProcessEvent list \<Rightarrow> string \<Rightarrow> string \<Rightarrow> bool" where
  "workflowTaskEventExists events taskID eventName \<longleftrightarrow> (\<exists>e \<in> set events. ev_TaskID e = taskID \<and> ev_Event e = eventName)"

subsection \<open>Evidence\<close>

definition deadline_event :: "string \<Rightarrow> string \<Rightarrow> string \<Rightarrow> string \<Rightarrow> string \<Rightarrow> string \<Rightarrow> string \<Rightarrow> string \<Rightarrow> data \<Rightarrow> string \<Rightarrow> WorkflowProcessEvent" where
  "deadline_event workspaceID i processID nodeID taskID eventName summaryKey actorID metadata now = \<lparr> ev_WorkspaceID = workspaceID, ev_ID = i,
     ev_ProcessID = processID, ev_NodeID = nodeID, ev_TaskID = taskID, ev_Event = eventName, ev_ActorID = valueOrDefault actorID ''system'',
     ev_Summary = summaryKey, ev_Metadata = WorkflowCloneMap metadata, ev_CreatedAt = now \<rparr>"

definition recordWorkflowTaskDeadlineEvent :: "engine_env \<Rightarrow> string \<Rightarrow> string \<Rightarrow> string \<Rightarrow> string \<Rightarrow> string \<Rightarrow> string \<Rightarrow> string \<Rightarrow> data \<Rightarrow>
    engine_error option engine" where
  "recordWorkflowTaskDeadlineEvent env workspaceID processID nodeID taskID eventName summaryKey actorID metadata = do {
     i \<leftarrow> workflowProcessID env ''event'';
     now \<leftarrow> now_text env;
     e \<leftarrow> store (InsertEvent (ee_Store env) workspaceID
       (deadline_event workspaceID i processID nodeID taskID eventName summaryKey actorID metadata now));
     ret (internal [] e) }"

subsection \<open>Reminder\<close>

definition reminder_input :: "engine_env \<Rightarrow> WorkflowProcessInstance \<Rightarrow> WorkflowGraphNode \<Rightarrow> WorkflowTask \<Rightarrow> WorkflowApprovalNodeContract \<Rightarrow>
    Principal \<Rightarrow> data" where
  "reminder_input env process node task contract actor = fold (\<lambda>(k, v). AList.update k v)
     (ee_RenderData env (ac_ReminderInput contract) (wp_Variables process) actor @
       [(''recipients'', VStrs [wt_AssigneeUserID task]), (''workflow_process_id'', VStr (wp_ID process)),
        (''workflow_node_id'', VStr (gn_ID node)), (''workflow_task_id'', VStr (wt_ID task))])
     (WorkflowCloneMap (wp_Variables process))"

definition no_invocation :: WorkflowBusinessActionInvocationResult where
  "no_invocation = \<lparr> ir_InvocationID = [], ir_Status = [], ir_Output = [], ir_ErrorCode = [], ir_Retryable = False, ir_OutboxIDs = [],
     ir_RecordID = None \<rparr>"

text \<open>The action of the reminder, where the contract names one.\<close>

definition reminder_action :: "engine_env \<Rightarrow> WorkflowProcessInstance \<Rightarrow> WorkflowGraphNode \<Rightarrow> WorkflowTask \<Rightarrow> WorkflowApprovalNodeContract \<Rightarrow>
    Principal \<Rightarrow> (engine_error + WorkflowBusinessActionInvocationResult) engine" where
  "reminder_action env process node task contract actor =
     (if trim_space (ac_ReminderActionKey contract) = [] then ret (Inr no_invocation)
      else tries (ret (ee_ActionPrincipal env (wp_DefinitionSnapshot process) actor (wt_ID task))) (\<lambda>actionPrincipal. do {
        (r, e) \<leftarrow> ee_Invoke env \<lparr> iv_ActionKey = ac_ReminderActionKey contract, iv_ObjectKey = wp_ObjectKey process,
          iv_RecordID = wp_RecordID process, iv_Input = reminder_input env process node task contract actor,
          iv_Principal = actionPrincipal, iv_ProcessID = wp_ID process, iv_NodeID = gn_ID node,
          iv_IdempotencyKey = wt_ID task @ '':deadline-reminder'' \<rparr>;
        ret (case e of Some c \<Rightarrow> Inl c | None \<Rightarrow> Inr r) }))"

definition reminder_intent :: "WorkflowProcessInstance \<Rightarrow> WorkflowTask \<Rightarrow> string \<Rightarrow> NotificationIntent" where
  "reminder_intent process task now = \<lparr> ni_ID = ''notification_'' @ wt_ID task @ ''_reminded'', ni_WorkspaceID = wp_WorkspaceID process,
     ni_SourceEventID = wt_ID task @ '':reminded:'' @ wt_UpdatedAt task, ni_EventType = ''workflow.task.reminded'',
     ni_RecipientUserIDs = [wt_AssigneeUserID task], ni_SubjectType = ''workflow_task'', ni_SubjectID = wt_ID task,
     ni_SubjectVersion = wt_UpdatedAt task, ni_GroupKey = ''workflow_task:'' @ trim_space (wt_ID task), ni_ActionState = [],
     ni_OccurredAt = now, ni_ExpiresAt = wt_DueAt task, ni_Locale = [],
     ni_Variables = [(''task_title'', VStr (wt_Title task)), (''workflow_name'', VStr (wp_WorkflowName process)),
       (''decision'', VStr (wt_Decision task))] \<rparr>"

definition queueWorkflowTaskReminder :: "engine_env \<Rightarrow> WorkflowProcessInstance \<Rightarrow> WorkflowGraphNode \<Rightarrow> WorkflowTask \<Rightarrow>
    WorkflowApprovalNodeContract \<Rightarrow> Principal \<Rightarrow> engine_error option engine" where
  "queueWorkflowTaskReminder env process node task contract actor = do {
     invoked \<leftarrow> reminder_action env process node task contract actor;
     (case invoked of
        Inl e \<Rightarrow> ret (Some e)
      | Inr invocation \<Rightarrow> (let metadata = [(''invocation_id'', VStr (ir_InvocationID invocation)),
            (''outbox_ids'', VStrs (ir_OutboxIDs invocation)), (''recipient_user_id'', VStr (wt_AssigneeUserID task))]
          in (case (ee_CompileNotification env, ee_TaskNotificationCommit env) of
             (None, False) \<Rightarrow> recordWorkflowTaskDeadlineEvent env (wp_WorkspaceID process) (wp_ID process) (gn_ID node) (wt_ID task)
               ''task_reminder_queued'' ''workflow.task.reminderQueued'' (pr_UserID actor) metadata
           | (Some compiler, True) \<Rightarrow> do {
               now \<leftarrow> now_text env;
               (case compiler (reminder_intent process task now) of
                  Inl e \<Rightarrow> ret (Some e)
                | Inr event \<Rightarrow> do {
                    i \<leftarrow> workflowProcessID env ''event'';
                    e \<leftarrow> store (CommitWorkflowTaskReminderNotification (ee_Store env) (wp_WorkspaceID process)
                      (deadline_event (wp_WorkspaceID process) i (wp_ID process) (gn_ID node) (wt_ID task) ''task_reminder_queued''
                        ''workflow.task.reminderQueued'' (pr_UserID actor) metadata now) event);
                    ret (internal [] e) }) }
           | _ \<Rightarrow> ret (Some (internalError ''compile workflow reminder notification''))))) }"

subsection \<open>Escalation\<close>

definition ResolveAssignees :: "engine_env \<Rightarrow> WorkflowProcessInstance \<Rightarrow> string \<Rightarrow> WorkflowAssigneeResolver list \<Rightarrow> Principal \<Rightarrow>
    engine_error + ResolvedAssignee list" where
  "ResolveAssignees env process nodeID resolvers actor = (case workflowAuthorizeQuery actor of
      Some e \<Rightarrow> Inl e | None \<Rightarrow> resolveWorkflowAssignees (ee_Assignees env) process nodeID resolvers)"

text \<open>The task with its new assignee, and the old one.\<close>

definition prepareWorkflowTaskEscalation :: "engine_env \<Rightarrow> WorkflowProcessInstance \<Rightarrow> WorkflowTask \<Rightarrow> WorkflowApprovalNodeContract \<Rightarrow>
    Principal \<Rightarrow> (engine_error + WorkflowTask \<times> string) engine" where
  "prepareWorkflowTaskEscalation env process task contract actor =
     (case ResolveAssignees env process (wt_NodeID task) (ac_EscalationResolvers contract) actor of
        Inl e \<Rightarrow> ret (Inl e)
      | Inr [] \<Rightarrow> ret (Inl (bad_request ''backend.workflow.escalation_assignee_not_found'' []))
      | Inr (a # _) \<Rightarrow> do {
          now \<leftarrow> now_text env;
          ret (Inr (task \<lparr> wt_AssigneeUserID := rv_UserID a, wt_AssigneeRoleKey := rv_RoleKey a, wt_AssigneeResolverKey := rv_ResolverKey a,
            wt_AssigneeEvidence := rv_Evidence a,
            wt_AssigneeName := (case (if ae_HasIdentity (ee_Assignees env) then ae_FindUser (ee_Assignees env) (rv_UserID a) else Inr None) of
              Inr (Some user) \<Rightarrow> us_Name user | _ \<Rightarrow> []),
            wt_UpdatedAt := now \<rparr>, wt_AssigneeUserID task)) })"

definition escalation_metadata :: "engine_env \<Rightarrow> WorkflowTask \<Rightarrow> string \<Rightarrow> data" where
  "escalation_metadata env task previousAssignee = [(''previous_assignee_user_id'', VStr previousAssignee),
     (''assignee_user_id'', VStr (wt_AssigneeUserID task)), (''assignee_role_key'', VStr (wt_AssigneeRoleKey task)),
     (''resolver_key'', VStr (wt_AssigneeResolverKey task)), (''assignee_evidence'', ee_EvidenceValue env (wt_AssigneeEvidence task))]"

text \<open>The notifications of the two assignees, with the ids the service gives them.\<close>

definition escalation_notifications :: "engine_env \<Rightarrow> (NotificationIntent \<Rightarrow> engine_error + NotificationEvent) \<Rightarrow> WorkflowProcessInstance \<Rightarrow>
    WorkflowTask \<Rightarrow> string \<Rightarrow> string \<Rightarrow> engine_error + NotificationEvent list" where
  "escalation_notifications env compiler process task previousAssignee now =
     res_bind (compiler (lifecycle_intent env process (task \<lparr> wt_AssigneeUserID := previousAssignee \<rparr>)
       ''workflow.task.cancelled'' ''cancelled'' [] now)) (\<lambda>oldEvent.
     res_bind (compiler (assigned_intent process task [])) (\<lambda>newEvent. Inr
       [AList.update ''source_event_id'' (VStr (wt_ID task @ '':reassigned_from:'' @ previousAssignee @ '':'' @ wt_UpdatedAt task))
          (AList.update ''id'' (VStr (''notification_'' @ wt_ID task @ ''_reassigned_from_'' @ previousAssignee @ ''_'' @ wt_UpdatedAt task)) oldEvent),
        AList.update ''occurred_at'' (VStr now)
          (AList.update ''id'' (VStr (''notification_'' @ wt_ID task @ ''_assigned_to_'' @ wt_AssigneeUserID task @ ''_'' @ wt_UpdatedAt task)) newEvent)]))"

definition commitWorkflowTaskEscalation :: "engine_env \<Rightarrow> WorkflowProcessInstance \<Rightarrow> WorkflowGraphNode \<Rightarrow> WorkflowTask \<Rightarrow> string \<Rightarrow>
    Principal \<Rightarrow> engine_error option engine" where
  "commitWorkflowTaskEscalation env process node task previousAssignee actor = (let metadata = escalation_metadata env task previousAssignee in
     (case (ee_CompileNotification env, ee_TaskNotificationCommit env) of
        (None, False) \<Rightarrow> do {
          recorded \<leftarrow> recordWorkflowTaskDeadlineEvent env (wp_WorkspaceID process) (wp_ID process) (gn_ID node) (wt_ID task)
            ''task_escalated'' ''workflow.task.escalated'' (pr_UserID actor) metadata;
          (case recorded of
             Some e \<Rightarrow> ret (Some e)
           | None \<Rightarrow> do {
               e \<leftarrow> store (UpdateTask (ee_Store env) (wp_WorkspaceID process) task);
               ret (internal ''update escalated workflow task'' e) }) }
      | (Some compiler, True) \<Rightarrow> do {
          now \<leftarrow> now_text env;
          (case escalation_notifications env compiler process task previousAssignee now of
             Inl e \<Rightarrow> ret (Some e)
           | Inr events \<Rightarrow> do {
               i \<leftarrow> workflowProcessID env ''event'';
               e \<leftarrow> store (CommitWorkflowTaskEscalationNotification (ee_Store env) (wp_WorkspaceID process) task
                 (deadline_event (wp_WorkspaceID process) i (wp_ID process) (gn_ID node) (wt_ID task) ''task_escalated''
                   ''workflow.task.escalated'' (pr_UserID actor) metadata now) events);
               ret (internal [] e) }) }
      | _ \<Rightarrow> ret (Some (internalError ''compile workflow escalation notifications''))))"

definition escalateWorkflowTask :: "engine_env \<Rightarrow> WorkflowProcessInstance \<Rightarrow> WorkflowGraphNode \<Rightarrow> WorkflowTask \<Rightarrow>
    WorkflowApprovalNodeContract \<Rightarrow> Principal \<Rightarrow> engine_error option engine" where
  "escalateWorkflowTask env process node task contract actor = do {
     prepared \<leftarrow> prepareWorkflowTaskEscalation env process task contract actor;
     (case prepared of
        Inl e \<Rightarrow> ret (Some e)
      | Inr (task', previousAssignee) \<Rightarrow> recordWorkflowTaskDeadlineEvent env (wp_WorkspaceID process) (wp_ID process) (gn_ID node) (wt_ID task')
          ''task_escalated'' ''workflow.task.escalated'' (pr_UserID actor) (escalation_metadata env task' previousAssignee)) }"

text \<open>What becomes of a delivered deadline once the task, its process and its events are read.\<close>

definition deadline_phase :: "engine_env \<Rightarrow> WorkflowProcessInstance \<Rightarrow> WorkflowGraphNode \<Rightarrow> WorkflowTask \<Rightarrow> WorkflowProcessEvent list \<Rightarrow>
    string \<Rightarrow> Principal \<Rightarrow> engine_error option engine" where
  "deadline_phase env process node task events phase actor = (let contract = WorkflowApprovalNodeContract node in
     if trim_space phase = ''reminder'' then
       (if workflowTaskEventExists events (wt_ID task) ''task_reminder_queued'' then ret None
        else queueWorkflowTaskReminder env process node task contract actor)
     else if trim_space phase = ''escalation'' then
       (if ac_EscalationSeconds contract \<le> 0 \<or> workflowTaskEventExists events (wt_ID task) ''task_escalated'' then ret None
        else do {
          prepared \<leftarrow> prepareWorkflowTaskEscalation env process task contract actor;
          (case prepared of
             Inl e \<Rightarrow> ret (Some e)
           | Inr (task', previousAssignee) \<Rightarrow> commitWorkflowTaskEscalation env process node task' previousAssignee actor) })
     else ret (Some (bad_request ''backend.workflow.approval_deadline_phase_invalid'' [''phase'', phase])))"

definition ProcessApprovalDeadlineTimer :: "engine_env \<Rightarrow> string \<Rightarrow> string \<Rightarrow> string \<Rightarrow> Principal \<Rightarrow> engine_error option engine" where
  "ProcessApprovalDeadlineTimer env workspaceID taskID phase actor = (case workflowAuthorizeCommand actor of
      Some e \<Rightarrow> ret (Some e)
    | None \<Rightarrow>
        if \<not> ee_HasWorkers env then ret (Some (internalError ''process workflow approval deadline timer''))
        else do {
          found \<leftarrow> read_db (GetTask (ee_Store env) workspaceID (trim_space taskID));
          (case found of
             Inl e \<Rightarrow> ret (Some (InternalErr ''get workflow approval deadline task'' (Some e)))
           | Inr None \<Rightarrow> ret None
           | Inr (Some task) \<Rightarrow>
               if wt_Status task \<noteq> ''open'' then ret None
               else do {
                 found \<leftarrow> read_db (GetProcess (ee_Store env) workspaceID (wt_ProcessID task));
                 (case found of
                    Inl e \<Rightarrow> ret (Some (InternalErr ''get workflow approval deadline process'' (Some e)))
                  | Inr None \<Rightarrow> ret None
                  | Inr (Some process) \<Rightarrow>
                      (case WorkflowGraphNode (ws_Graph (wp_DefinitionSnapshot process)) (wt_NodeID task) of
                         (node, False) \<Rightarrow> ret None
                       | (node, True) \<Rightarrow> do {
                           listed \<leftarrow> read_db (ListEvents (ee_Store env) workspaceID (wp_ID process) 2000);
                           (case listed of
                              Inl e \<Rightarrow> ret (Some (InternalErr ''list workflow approval deadline events'' (Some e)))
                            | Inr events \<Rightarrow> deadline_phase env process node task events phase actor) })) }) })"

subsection \<open>What an escalation writes\<close>

lemma required_workspace: "requireWorkflowWorkspaceID v = Inr w \<Longrightarrow> requireWorkflowWorkspaceID w = Inr w"
  by (auto simp: requireWorkflowWorkspaceID_def Let_def split: if_splits)

text \<open>The reassignment of a task: the row of the task gets the written columns, whatever its state.\<close>

definition reassigned :: "Workflow_Store.workflow_env \<Rightarrow> WorkflowTask \<Rightarrow> WorkflowTask list \<Rightarrow> WorkflowTask list" where
  "reassigned env task rows = map (\<lambda>r. if task_key r = task_key task \<and> \<not> en_Fenced env (wt_WorkspaceID task) ''_workflow_tasks'' (wt_ID task) \<and>
     (wt_Status task \<noteq> ''cancelled'' \<longrightarrow> wt_Status r \<noteq> ''cancelled'') then put_task task r else r) rows"

lemma update_task_rows: "updateTaskTx env task db = Inr db' \<Longrightarrow>
    db' = db \<lparr> db_Tasks := reassigned env task (db_Tasks db) \<rparr> \<and> \<not> en_Fenced env (wt_WorkspaceID task) ''_workflow_tasks'' (wt_ID task)"
  by (auto simp: updateTaskTx_def updateTx_def reassigned_def Let_def split: if_splits)

lemma insert_event_rows: "insertEventTx env e db = Inr db' \<Longrightarrow> db' = db \<lparr> db_Events := db_Events db @ [e] \<rparr>"
  by (auto simp: insertEventTx_def insertTx_def split: if_splits)

lemma notify_rows: "tx_each (\<lambda>e. notifyTx env (f e)) events db = Inr db' \<Longrightarrow> \<exists>ns. db' = db \<lparr> db_Notifications := ns \<rparr>"
proof (induction events arbitrary: db)
  case (Cons e es)
  then obtain db1 where n: "notifyTx env (f e) db = Inr db1" and r: "tx_each (\<lambda>e. notifyTx env (f e)) es db1 = Inr db'"
    by (auto split: sum.splits)
  from Cons.IH [OF r] n show ?case by (auto simp: notifyTx_def split: if_splits)
next
  case Nil
  then have "db' = db \<lparr> db_Notifications := db_Notifications db \<rparr>" by simp
  then show ?case by (rule exI)
qed

text \<open>The tables after a committed escalation: the evidence is there, the task has the written columns.\<close>

definition escalated :: "engine_env \<Rightarrow> WorkflowProcessInstance \<Rightarrow> WorkflowTask \<Rightarrow> workflow_db \<Rightarrow> workflow_db \<Rightarrow> bool" where
  "escalated env process task db db' \<longleftrightarrow> (\<exists>w e. requireWorkflowWorkspaceID (wp_WorkspaceID process) = Inr w \<and>
     \<not> en_Fenced (ee_Store env) w ''_workflow_tasks'' (wt_ID task) \<and> db_Processes db' = db_Processes db \<and> db_Tasks db' = reassigned (ee_Store env) (task \<lparr> wt_WorkspaceID := w \<rparr>) (db_Tasks db) \<and>
     db_Events db' = db_Events db @ [e] \<and> ev_WorkspaceID e = w \<and> ev_ProcessID e = wp_ID process \<and> ev_TaskID e = wt_ID task \<and>
     ev_Event e = ''task_escalated'')"

lemma stmt_None: "snd (stmt t db) = None \<longleftrightarrow> t db = Inr (fst (stmt t db))"
  by (auto simp: stmt_def split: sum.split)

lemma internal_None [simp]: "internal t e = None \<longleftrightarrow> e = None"
  by (simp add: internal_def)

lemma in_workspace_Inr: "in_workspace v t db = Inr db' \<longleftrightarrow> (\<exists>w. requireWorkflowWorkspaceID v = Inr w \<and> t w db = Inr db')"
  by (auto simp: in_workspace_def split: sum.split)

lemma commit_escalates:
  assumes "run_state (commitWorkflowTaskEscalation env process node task previous actor) s = (None, s')"
  shows "escalated env process task (es_DB s) (es_DB s')"
proof (cases "ee_CompileNotification env")
  case None
  with assms have nc: "\<not> ee_TaskNotificationCommit env" by (auto simp: commitWorkflowTaskEscalation_def split: if_splits)
  from assms None nc obtain e db1 where e: "InsertEvent (ee_Store env) (wp_WorkspaceID process) e (es_DB s) = Inr db1"
      and ev: "ev_ProcessID e = wp_ID process" "ev_TaskID e = wt_ID task" "ev_Event e = ''task_escalated''"
      and t: "UpdateTask (ee_Store env) (wp_WorkspaceID process) task db1 = Inr (es_DB s')"
    by (auto simp: commitWorkflowTaskEscalation_def recordWorkflowTaskDeadlineEvent_def run_process_id stmt_None deadline_event_def Let_def
        split: option.splits if_splits)
  from e obtain w where w: "requireWorkflowWorkspaceID (wp_WorkspaceID process) = Inr w"
      and db1: "db1 = es_DB s \<lparr> db_Events := db_Events (es_DB s) @ [e \<lparr> ev_WorkspaceID := w \<rparr>] \<rparr>"
    unfolding InsertEvent_def in_workspace_Inr by (blast dest: insert_event_rows)
  from t w have "es_DB s' = db1 \<lparr> db_Tasks := reassigned (ee_Store env) (task \<lparr> wt_WorkspaceID := w \<rparr>) (db_Tasks db1) \<rparr> \<and>
      \<not> en_Fenced (ee_Store env) w ''_workflow_tasks'' (wt_ID task)"
    unfolding UpdateTask_def in_workspace_Inr using update_task_rows by fastforce
  with w db1 ev show ?thesis by (simp add: escalated_def)
next
  case (Some compiler)
  with assms have cm: "ee_TaskNotificationCommit env" by (auto simp: commitWorkflowTaskEscalation_def split: bool.splits)
  obtain es where es: "escalation_notifications env compiler process task previous (format_rfc3339nano (ee_Now env (es_Tick s))) = Inr es"
    using assms Some cm by (auto simp: commitWorkflowTaskEscalation_def Let_def split: sum.splits)
  define e where "e = deadline_event (wp_WorkspaceID process) (''event_'' @ itoa (ee_Now env (Suc (es_Tick s))) @ ''_'' @ itoa (int (Suc (es_Sequence s))))
    (wp_ID process) (gn_ID node) (wt_ID task) ''task_escalated'' ''workflow.task.escalated'' (pr_UserID actor)
    (escalation_metadata env task previous) (format_rfc3339nano (ee_Now env (es_Tick s)))"
  have ev: "ev_ProcessID e = wp_ID process" "ev_TaskID e = wt_ID task" "ev_Event e = ''task_escalated''"
    by (simp_all add: e_def deadline_event_def)
  have t: "CommitWorkflowTaskEscalationNotification (ee_Store env) (wp_WorkspaceID process) task e es (es_DB s) = Inr (es_DB s')"
    using assms Some cm es by (auto simp: commitWorkflowTaskEscalation_def run_process_id stmt_None e_def Let_def)
  from t obtain w db1 db2 where w: "requireWorkflowWorkspaceID (wp_WorkspaceID process) = Inr w"
      and u: "updateTaskTx (ee_Store env) (task \<lparr> wt_WorkspaceID := w \<rparr>) (es_DB s) = Inr db1"
      and i: "insertEventTx (ee_Store env) (e \<lparr> ev_WorkspaceID := w \<rparr>) db1 = Inr db2"
      and n: "tx_each (\<lambda>e. notifyTx (ee_Store env) (AList.update ''workspace_id'' (VStr w) e)) es db2 = Inr (es_DB s')"
    unfolding CommitWorkflowTaskEscalationNotification_def in_workspace_Inr tx_then_Inr by blast
  from update_task_rows [OF u] insert_event_rows [OF i] notify_rows [OF n] w ev show ?thesis by (auto simp: escalated_def)
qed

subsection \<open>An escalation is carried out once\<close>

lemma find_map: "find P (map f xs) = map_option f (find (\<lambda>x. P (f x)) xs)"
  by (induction xs) simp_all

lemma reassigned_task:
  assumes "GetTask env w i db = Inr (Some task)" and "db_Tasks db' = reassigned env' new (db_Tasks db)"
  shows "\<exists>task'. GetTask env w i db' = Inr (Some task') \<and> wt_ID task' = wt_ID task \<and> wt_ProcessID task' = wt_ProcessID task \<and>
    wt_NodeID task' = wt_NodeID task"
proof -
  from assms(1) obtain v r where v: "requireWorkflowWorkspaceID w = Inr v" and r: "find (\<lambda>r. task_key r = (v, i)) (db_Tasks db) = Some r"
      and task: "task = scanWorkflowTask env r" by (auto simp: GetTask_def read_in_def split: sum.splits)
  define f where "f = (\<lambda>r. if task_key r = task_key new \<and> \<not> en_Fenced env' (wt_WorkspaceID new) ''_workflow_tasks'' (wt_ID new) \<and>
     (wt_Status new \<noteq> ''cancelled'' \<longrightarrow> wt_Status r \<noteq> ''cancelled'') then put_task new r else r)"
  have f: "wt_WorkspaceID (f r) = wt_WorkspaceID r" "wt_ID (f r) = wt_ID r" "wt_ProcessID (f r) = wt_ProcessID r" "wt_NodeID (f r) = wt_NodeID r" for r
    by (simp_all add: f_def put_task_def)
  have "find (\<lambda>r. task_key r = (v, i)) (db_Tasks db') = Some (f r)"
    unfolding assms(2) reassigned_def f_def [symmetric] using r by (simp add: find_map f)
  with v have "GetTask env w i db' = Inr (Some (scanWorkflowTask env (f r)))" by (simp add: GetTask_def read_in_def)
  with task f show ?thesis by (simp add: scanWorkflowTask_def)
qed

definition process_events :: "string \<Rightarrow> string \<Rightarrow> workflow_db \<Rightarrow> WorkflowProcessEvent list" where
  "process_events w processID db = filter (\<lambda>e. ev_WorkspaceID e = w \<and> ev_ProcessID e = processID) (db_Events db)"

text \<open>A list that fits the window of the reader shows every event of the process.\<close>

lemma listed_all:
  assumes "requireWorkflowWorkspaceID v = Inr w" and "length (process_events w processID db) \<le> 200"
    and "e \<in> set (db_Events db)" "ev_WorkspaceID e = w" "ev_ProcessID e = processID" "ev_TaskID e = taskID" "ev_Event e = name"
  shows "\<exists>events. ListEvents env v processID 2000 db = Inr events \<and> workflowTaskEventExists events taskID name"
proof -
  let ?es = "sort_key (\<lambda>r. [ev_CreatedAt r, ev_ID r]) (process_events w processID db)"
  have "ListEvents env v processID 2000 db = Inr (map (scanWorkflowEvent env) ?es)"
    using assms(1,2) by (simp add: ListEvents_def read_in_def process_events_def)
  moreover have "e \<in> set ?es" using assms(3-5) by (simp add: process_events_def)
  then have "workflowTaskEventExists (map (scanWorkflowEvent env) ?es) taskID name"
    using assms(6,7) by (auto simp: workflowTaskEventExists_def scanWorkflowEvent_def intro!: bexI [of _ e])
  ultimately show ?thesis by blast
qed

text \<open>A delivered escalation that answers no error was carried out, or changed nothing.\<close>

lemma escalation_cases:
  assumes "run_state (ProcessApprovalDeadlineTimer env workspaceID taskID phase actor) s = (None, s')" and "trim_space phase = ''escalation''"
  obtains (Nothing) "s' = s" | (Escalated) task process node task' where "workflowAuthorizeCommand actor = None" "ee_HasWorkers env"
    "GetTask (ee_Store env) workspaceID (trim_space taskID) (es_DB s) = Inr (Some task)"
    "GetProcess (ee_Store env) workspaceID (wt_ProcessID task) (es_DB s) = Inr (Some process)"
    "WorkflowGraphNode (ws_Graph (wp_DefinitionSnapshot process)) (wt_NodeID task) = (node, True)"
    "wt_ID task' = wt_ID task" "escalated env process task' (es_DB s) (es_DB s')"
proof (cases "s' = s")
  case False
  with assms(1) have a: "workflowAuthorizeCommand actor = None" "ee_HasWorkers env"
    by (auto simp: ProcessApprovalDeadlineTimer_def split: option.splits if_splits)
  with assms(1) False obtain task where t: "GetTask (ee_Store env) workspaceID (trim_space taskID) (es_DB s) = Inr (Some task)" "wt_Status task = ''open''"
    by (auto simp: ProcessApprovalDeadlineTimer_def split: option.splits sum.splits if_splits)
  with assms(1) False a obtain process where p: "GetProcess (ee_Store env) workspaceID (wt_ProcessID task) (es_DB s) = Inr (Some process)"
    by (auto simp: ProcessApprovalDeadlineTimer_def split: option.splits sum.splits)
  obtain node found where n: "WorkflowGraphNode (ws_Graph (wp_DefinitionSnapshot process)) (wt_NodeID task) = (node, found)" by fastforce
  from assms(1) False a t p n have found by (auto simp: ProcessApprovalDeadlineTimer_def split: bool.splits)
  with assms(1) False a t p n obtain events where "run_state (deadline_phase env process node task events phase actor) s = (None, s')"
    by (auto simp: ProcessApprovalDeadlineTimer_def split: sum.splits)
  with False assms(2) obtain task' previous s1 where c: "run_state (commitWorkflowTaskEscalation env process node task' previous actor) s1 = (None, s')"
      and id: "wt_ID task' = wt_ID task" and s1: "es_DB s1 = es_DB s"
    by (auto simp: deadline_phase_def prepareWorkflowTaskEscalation_def Let_def split: if_splits sum.splits list.splits)
  from commit_escalates [OF c] s1 id \<open>found\<close> a t p n show ?thesis using Escalated by simp
qed (rule Nothing)

lemma deadline_again:
  assumes "GetTask (ee_Store env) workspaceID (trim_space taskID) (es_DB s) = Inr (Some task)"
    and "GetProcess (ee_Store env) workspaceID (wt_ProcessID task) (es_DB s) = Inr (Some process)"
    and "ListEvents (ee_Store env) workspaceID (wp_ID process) 2000 (es_DB s) = Inr events"
    and "workflowTaskEventExists events (wt_ID task) ''task_escalated''" and "trim_space phase = ''escalation''"
    and "workflowAuthorizeCommand actor = None" "ee_HasWorkers env"
  shows "run_state (ProcessApprovalDeadlineTimer env workspaceID taskID phase actor) s = (None, s)"
  using assms by (auto simp: ProcessApprovalDeadlineTimer_def deadline_phase_def Let_def split: prod.split bool.split)

text \<open>
  C35: an escalation is carried out once. When the delivery of an escalation deadline answered no error,
  and the process of the task has at most 200 events afterwards, a repeated delivery answers no error and
  changes nothing, whether the first one reassigned the task or had nothing to do.
\<close>

theorem escalation_done_once:
  assumes "run_state (ProcessApprovalDeadlineTimer env workspaceID taskID phase actor) s = (None, s')"
    and "trim_space phase = ''escalation''"
    and "GetTask (ee_Store env) workspaceID (trim_space taskID) (es_DB s) = Inr (Some task)"
    and "length (process_events (wt_WorkspaceID task) (wt_ProcessID task) (es_DB s')) \<le> 200"
  shows "run_state (ProcessApprovalDeadlineTimer env workspaceID taskID phase actor) s' = (None, s')"
  using assms(1,2)
proof (cases rule: escalation_cases)
  case Nothing
  with assms(1) show ?thesis by simp
next
  case (Escalated task0 process node task')
  from assms(3) Escalated(3) have task0: "task0 = task" by simp
  from Escalated(4) obtain v r where v: "requireWorkflowWorkspaceID workspaceID = Inr v" and r: "process_key r = (v, wt_ProcessID task)"
      and process: "process = scanWorkflowProcess (ee_Store env) r" unfolding task0 by (elim get_process)
  from assms(3) v have tv: "wt_WorkspaceID task = v"
    by (auto simp: GetTask_def read_in_def scanWorkflowTask_def find_Some_iff split: sum.splits)
  from Escalated(7) obtain w e where w: "requireWorkflowWorkspaceID (wp_WorkspaceID process) = Inr w"
      and same: "db_Processes (es_DB s') = db_Processes (es_DB s)"
      and tasks: "db_Tasks (es_DB s') = reassigned (ee_Store env) (task' \<lparr> wt_WorkspaceID := w \<rparr>) (db_Tasks (es_DB s))"
      and evs: "db_Events (es_DB s') = db_Events (es_DB s) @ [e]" and e: "ev_WorkspaceID e = w" "ev_ProcessID e = wp_ID process"
        "ev_TaskID e = wt_ID task'" "ev_Event e = ''task_escalated''"
    unfolding escalated_def by blast
  from w r v process have "w = v" by (simp add: required_workspace)
  with evs e have e: "e \<in> set (db_Events (es_DB s'))" "ev_WorkspaceID e = v" "ev_ProcessID e = wp_ID process" "ev_TaskID e = wt_ID task'"
    "ev_Event e = ''task_escalated''" by simp_all
  from reassigned_task [OF assms(3) tasks] obtain task2 where t2: "GetTask (ee_Store env) workspaceID (trim_space taskID) (es_DB s') = Inr (Some task2)"
      "wt_ID task2 = wt_ID task" "wt_ProcessID task2 = wt_ProcessID task" by blast
  have p2: "GetProcess (ee_Store env) workspaceID (wt_ProcessID task2) (es_DB s') = Inr (Some process)"
    using Escalated(4) same t2(3) task0 by (simp add: GetProcess_def)
  have pid: "wp_ID process = wt_ProcessID task" using r process by simp
  obtain events where ev: "ListEvents (ee_Store env) workspaceID (wp_ID process) 2000 (es_DB s') = Inr events"
      "workflowTaskEventExists events (wt_ID task2) ''task_escalated''"
    using listed_all [OF v _ e] assms(4) tv pid t2(2) Escalated(6) task0 by auto
  show ?thesis by (rule deadline_again [OF t2(1) p2 ev assms(2) Escalated(1,2)])
qed

subsection \<open>Evidence out of sight\<close>

abbreviation event_time :: "WorkflowProcessEvent \<Rightarrow> string list" where
  "event_time e \<equiv> [ev_CreatedAt e, ev_ID e]"

lemma take_sorted_before:
  fixes key :: "'a \<Rightarrow> 'k :: linorder"
  assumes "n \<le> length (filter (\<lambda>y. key y < k) xs)" and "x \<in> set (take n (sort_key key xs))"
  shows "key x < k"
proof -
  let ?ys = "sort_key key xs"
  have late: "\<not> key y < k" if "y \<in> set (dropWhile (\<lambda>y. key y < k) ?ys)" for y
  proof -
    from that obtain z zs where d: "dropWhile (\<lambda>y. key y < k) ?ys = z # zs" by (cases "dropWhile (\<lambda>y. key y < k) ?ys") auto
    then have z: "\<not> key z < k" by (metis hd_dropWhile list.distinct(1) list.sel(1))
    have "sorted (map key (z # zs))" unfolding d [symmetric] dropWhile_eq_drop by (simp add: drop_map [symmetric] sorted_wrt_drop)
    with that z show ?thesis unfolding d by auto
  qed
  have "takeWhile (\<lambda>y. key y < k) ?ys = filter (\<lambda>y. key y < k) ?ys" by (rule takeWhile_eq_filter) (rule late)
  moreover have "length (filter (\<lambda>y. key y < k) ?ys) = length (filter (\<lambda>y. key y < k) xs)"
    by (simp add: filter_sort)
  ultimately have "take n ?ys = take n (takeWhile (\<lambda>y. key y < k) ?ys)"
    using assms(1) by (metis append_Nil2 diff_is_0_eq take0 take_append takeWhile_dropWhile_id)
  with assms(2) show ?thesis by (metis in_set_takeD set_takeWhileD)
qed

text \<open>
  The evidence of an escalation is lost behind 200 events. The service asks for 2000 events, the
  reader answers such a request with the oldest 200. When every escalation of a task that the process has
  recorded is preceded by at least 200 events, a repeated delivery that answers no error reassigns the
  task once more and records a further escalation.
\<close>

theorem escalation_repeats_beyond_window:
  assumes "run_state (ProcessApprovalDeadlineTimer env workspaceID taskID phase actor) s = (None, s')"
    and "workflowAuthorizeCommand actor = None" "ee_HasWorkers env" "trim_space phase = ''escalation''"
    and "GetTask (ee_Store env) workspaceID (trim_space taskID) (es_DB s) = Inr (Some task)" "wt_Status task = ''open''"
    and "GetProcess (ee_Store env) workspaceID (wt_ProcessID task) (es_DB s) = Inr (Some process)"
    and "WorkflowGraphNode (ws_Graph (wp_DefinitionSnapshot process)) (wt_NodeID task) = (node, True)"
    and "0 < ac_EscalationSeconds (WorkflowApprovalNodeContract node)"
    and "\<And>e. e \<in> set (process_events (wp_WorkspaceID process) (wp_ID process) (es_DB s)) \<Longrightarrow> ev_TaskID e = wt_ID task \<Longrightarrow>
      ev_Event e = ''task_escalated'' \<Longrightarrow>
      200 \<le> length (filter (\<lambda>x. event_time x < event_time e) (process_events (wp_WorkspaceID process) (wp_ID process) (es_DB s)))"
  shows "(\<exists>e. db_Events (es_DB s') = db_Events (es_DB s) @ [e] \<and> ev_TaskID e = wt_ID task \<and> ev_Event e = ''task_escalated'') \<and>
    (\<exists>task'. wt_ID task' = wt_ID task \<and> escalated env process task' (es_DB s) (es_DB s'))"
proof -
  let ?es = "process_events (wp_WorkspaceID process) (wp_ID process) (es_DB s)"
  from assms(7) have v: "requireWorkflowWorkspaceID workspaceID = Inr (wp_WorkspaceID process)" by (elim get_process) auto
  then have l: "ListEvents (ee_Store env) workspaceID (wp_ID process) 2000 (es_DB s) =
      Inr (map (scanWorkflowEvent (ee_Store env)) (take 200 (sort_key event_time ?es)))"
    by (simp add: ListEvents_def read_in_def process_events_def)
  have none: "\<not> workflowTaskEventExists (map (scanWorkflowEvent (ee_Store env)) (take 200 (sort_key event_time ?es))) (wt_ID task) ''task_escalated''"
  proof
    assume "workflowTaskEventExists (map (scanWorkflowEvent (ee_Store env)) (take 200 (sort_key event_time ?es))) (wt_ID task) ''task_escalated''"
    then obtain e where e: "e \<in> set (take 200 (sort_key event_time ?es))" "ev_TaskID e = wt_ID task" "ev_Event e = ''task_escalated''"
      by (auto simp: workflowTaskEventExists_def scanWorkflowEvent_def)
    from e(1) have "e \<in> set ?es" using in_set_takeD by fastforce
    from take_sorted_before [OF assms(10) [OF this e(2,3)] e(1)] show False by simp
  qed
  from assms(1-9) l none obtain task' previous s1 where
      c: "run_state (commitWorkflowTaskEscalation env process node task' previous actor) s1 = (None, s')"
      and i: "wt_ID task' = wt_ID task" and s1: "es_DB s1 = es_DB s"
    by (auto simp: ProcessApprovalDeadlineTimer_def deadline_phase_def prepareWorkflowTaskEscalation_def Let_def
        split: if_splits sum.splits list.splits)
  from commit_escalates [OF c] s1 have "escalated env process task' (es_DB s) (es_DB s')" by simp
  moreover from this i have "\<exists>e. db_Events (es_DB s') = db_Events (es_DB s) @ [e] \<and> ev_TaskID e = wt_ID task \<and> ev_Event e = ''task_escalated''"
    by (auto simp: escalated_def)
  ultimately show ?thesis using i by blast
qed

subsection \<open>An escalation beside a vote\<close>


subsection \<open>Deadlines keep to the steps of the store\<close>

lemma db_steps_deadline_stores:
  "db_steps (store (CommitWorkflowTaskReminderNotification env w ev nv))" "db_steps (store (CommitWorkflowTaskEscalationNotification env w tk ev nvs))"
  "db_steps (store (UpdateTask env w tk))"
  by (rule db_steps_store, rule workflow_step.Statement, blast)+

lemma db_steps_deadline:
  assumes "services_keep_steps env"
  shows "db_steps (ProcessApprovalDeadlineTimer env workspaceID taskID phase actor)"
proof -
  have a: "db_steps (reminder_action env process node task contract actor)" for process node task contract
    using assms unfolding reminder_action_def services_keep_steps_def by (intro steps) auto
  have r: "db_steps (recordWorkflowTaskDeadlineEvent env w p n t ev sm u md)" for w p n t ev sm u md
    unfolding recordWorkflowTaskDeadlineEvent_def by (intro steps)
  have q: "db_steps (queueWorkflowTaskReminder env process node task contract actor)" for process node task contract
    unfolding queueWorkflowTaskReminder_def Let_def by (auto intro!: steps a r db_steps_deadline_stores split: option.split bool.split)
  have p: "db_steps (prepareWorkflowTaskEscalation env process task contract actor)" for process task contract
    unfolding prepareWorkflowTaskEscalation_def by (auto intro!: steps split: sum.split list.split)
  have c: "db_steps (commitWorkflowTaskEscalation env process node task previous actor)" for process node task previous
    unfolding commitWorkflowTaskEscalation_def Let_def by (auto intro!: steps r db_steps_deadline_stores split: option.split bool.split)
  have d: "db_steps (deadline_phase env process node task events phase actor)" for process node task events
    unfolding deadline_phase_def Let_def by (intro steps q p c)
  show ?thesis unfolding ProcessApprovalDeadlineTimer_def by (auto intro!: steps d split: option.split bool.split)
qed

section \<open>Witnesses\<close>

definition deadline_node :: WorkflowGraphNode where
  "deadline_node = zero_node \<lparr> gn_ID := ''n1'', gn_Type := ''approval'', gn_Contract := Some \<lparr> nc_Condition = None,
     nc_Approval = Some (zero_approval \<lparr> ac_Mode := ''any'', ac_EscalationSeconds := 60,
       ac_EscalationResolvers := [zero_resolver \<lparr> ar_Type := ''users'', ar_UserIDs := [''b''] \<rparr>] \<rparr>),
     nc_Action = None, nc_CC = None, nc_Timer = None, nc_AgentTask = None \<rparr> \<rparr>"

definition deadline_process :: WorkflowProcessInstance where
  "deadline_process = stored_process \<lparr> wp_DefinitionSnapshot := zero_schema \<lparr> ws_Graph := Some \<lparr> gs_Version = 2, gs_Nodes = [deadline_node], gs_Edges = [] \<rparr> \<rparr> \<rparr>"

definition deadline_state :: "WorkflowProcessEvent list \<Rightarrow> engine_state" where
  "deadline_state es = empty_state \<lparr> es_DB := example_db \<lparr> db_Processes := [deadline_process], db_Events := es \<rparr> \<rparr>"

text \<open>Events that are older than the evidence of an escalation, and the evidence.\<close>

definition older_event :: "nat \<Rightarrow> WorkflowProcessEvent" where
  "older_event n = deadline_event ''w'' (replicate n CHR ''a'') ''p'' ''n1'' [] ''node_completed'' [] [] [] ''0''"

definition evidence :: WorkflowProcessEvent where
  "evidence = deadline_event ''w'' ''b'' ''p'' ''n1'' ''a'' ''task_escalated'' [] [] [] ''1''"

definition crowded :: "WorkflowProcessEvent list" where
  "crowded = map older_event [0..<200] @ [evidence]"

definition read_process :: WorkflowProcessInstance where
  "read_process = scanWorkflowProcess example_workflow_env deadline_process"

lemma deadline_reads:
  "GetTask example_workflow_env ''w'' ''a'' (es_DB (deadline_state es)) = Inr (Some (stored_task ''a'' ''u1''))"
  "GetProcess example_workflow_env ''w'' ''p'' (es_DB (deadline_state es)) = Inr (Some read_process)"
  "WorkflowGraphNode (ws_Graph (wp_DefinitionSnapshot read_process)) ''n1'' = (deadline_node, True)"
  "0 < ac_EscalationSeconds (WorkflowApprovalNodeContract deadline_node)" "wp_WorkspaceID read_process = ''w''" "wp_ID read_process = ''p''"
  "workflowAuthorizeCommand (example_actor ''s'') = None" "trim_space ''a'' = ''a''" "trim_space ''escalation'' = ''escalation''"
  by code_simp+

lemma deadline_task: "wt_ID (stored_task i u) = i" "wt_ProcessID (stored_task i u) = ''p''" "wt_NodeID (stored_task i u) = ''n1''"
  "wt_Status (stored_task i u) = ''open''" "wt_WorkspaceID (stored_task i u) = ''w''"
  by (simp_all add: stored_task_def example_task_def)

lemma deadline_resolved: "\<exists>a. ResolveAssignees example_engine read_process ''n1'' (ac_EscalationResolvers (WorkflowApprovalNodeContract deadline_node))
    (example_actor ''s'') = Inr [a]"
proof -
  have "map_sum (\<lambda>_. ()) (map rv_UserID) (ResolveAssignees example_engine read_process ''n1''
      (ac_EscalationResolvers (WorkflowApprovalNodeContract deadline_node)) (example_actor ''s'')) = Inr [''b'']" by code_simp
  then show ?thesis by (auto simp: map_sum_Inr map_eq_Cons_conv)
qed

lemma deadline_engine: "ee_Store example_engine = example_workflow_env" "ee_HasWorkers example_engine" "ee_CompileNotification example_engine = None"
  "ee_TaskNotificationCommit example_engine = False" "en_EventErased example_workflow_env e = False" "en_Fenced example_workflow_env w t i = False"
  by (simp_all add: example_engine_def example_workflow_env_def)

lemma deadline_tables: "db_Tasks (es_DB (deadline_state es)) = [stored_task ''a'' ''u1'', stored_task ''b'' ''u2'']" "db_Events (es_DB (deadline_state es)) = es"
  by (simp_all add: deadline_state_def example_db_def)

lemma escalation_runs:
  assumes "ListEvents example_workflow_env ''w'' ''p'' 2000 (es_DB (deadline_state es)) = Inr evs"
    and "\<not> workflowTaskEventExists evs ''a'' ''task_escalated''" and "\<And>e. e \<in> set es \<Longrightarrow> take 1 (ev_ID e) \<noteq> ''e''"
  shows "\<exists>s'. run_state (ProcessApprovalDeadlineTimer example_engine ''w'' ''a'' ''escalation'' (example_actor ''s'')) (deadline_state es) = (None, s') \<and>
    length (db_Events (es_DB s')) = Suc (length es)"
proof -
  have new: "CHR ''e'' # x \<noteq> ev_ID e" if "e \<in> set es" for e x using assms(3) [OF that] by (cases "ev_ID e") auto
  obtain a where "ResolveAssignees example_engine read_process ''n1'' (ac_EscalationResolvers (WorkflowApprovalNodeContract deadline_node))
    (example_actor ''s'') = Inr [a]" using deadline_resolved by blast
  then show ?thesis using assms(1,2) new
    by (simp add: ProcessApprovalDeadlineTimer_def deadline_phase_def prepareWorkflowTaskEscalation_def commitWorkflowTaskEscalation_def
        recordWorkflowTaskDeadlineEvent_def deadline_reads deadline_task deadline_engine Let_def run_process_id InsertEvent_def UpdateTask_def
        in_workspace_def insertEventTx_def insertTx_def updateTaskTx_def updateTx_def stmt_def deadline_event_def deadline_tables
        internal_def not_le)
qed

theorem escalation_done_once_witness:
  "\<exists>s'. run_state (ProcessApprovalDeadlineTimer example_engine ''w'' ''a'' ''escalation'' (example_actor ''s'')) (deadline_state []) = (None, s') \<and>
    length (db_Events (es_DB s')) = 1 \<and>
    run_state (ProcessApprovalDeadlineTimer example_engine ''w'' ''a'' ''escalation'' (example_actor ''s'')) s' = (None, s')"
proof -
  have "ListEvents example_workflow_env ''w'' ''p'' 2000 (es_DB (deadline_state [])) = Inr []" by code_simp
  from escalation_runs [OF this] obtain s' where s': "run_state (ProcessApprovalDeadlineTimer example_engine ''w'' ''a'' ''escalation'' (example_actor ''s''))
      (deadline_state []) = (None, s')" "length (db_Events (es_DB s')) = 1" by (auto simp: workflowTaskEventExists_def)
  have "length (process_events w p (es_DB s')) \<le> 1" for w p
    using s'(2) length_filter_le [of _ "db_Events (es_DB s')"] by (simp add: process_events_def)
  then have "length (process_events w p (es_DB s')) \<le> 200" for w p by (rule order_trans) simp
  from escalation_done_once [OF s'(1) _ _ this, of "stored_task ''a'' ''u1''"] s' show ?thesis
    by (simp add: deadline_reads deadline_engine)
qed

lemma crowded_events:
  "process_events ''w'' ''p'' (es_DB (deadline_state crowded)) = crowded"
  "filter (\<lambda>x. event_time x < event_time evidence) crowded = map older_event [0..<200]"
  by (auto simp: process_events_def deadline_tables crowded_def older_event_def evidence_def deadline_event_def)

theorem escalation_repeats_beyond_window_witness:
  "\<exists>s'. run_state (ProcessApprovalDeadlineTimer example_engine ''w'' ''a'' ''escalation'' (example_actor ''s'')) (deadline_state crowded) = (None, s') \<and>
    evidence \<in> set crowded \<and> (\<exists>e. db_Events (es_DB s') = crowded @ [e] \<and> ev_TaskID e = ''a'' \<and> ev_Event e = ''task_escalated'')"
proof -
  have old: "ev_Event (older_event n) \<noteq> ''task_escalated''" "event_time (older_event n) < event_time evidence"
      "take 1 (ev_ID (older_event n)) \<noteq> ''e''" "take 1 (ev_ID evidence) \<noteq> ''e''" for n
    by (cases n; auto simp: older_event_def evidence_def deadline_event_def)+
  have l: "ListEvents example_workflow_env ''w'' ''p'' 2000 (es_DB (deadline_state crowded)) =
      Inr (map (scanWorkflowEvent example_workflow_env) (take 200 (sort_key event_time crowded)))"
    using crowded_events(1) by (simp add: ListEvents_def read_in_def process_events_def)
  have early: "event_time x < event_time evidence" if "x \<in> set (take 200 (sort_key event_time crowded))" for x
    by (rule take_sorted_before [OF _ that]) (unfold crowded_events(2), simp)
  have "\<not> workflowTaskEventExists (map (scanWorkflowEvent example_workflow_env) (take 200 (sort_key event_time crowded))) ''a'' ''task_escalated''"
  proof -
    have "ev_Event x \<noteq> ''task_escalated''" if x: "x \<in> set (take 200 (sort_key event_time crowded))" for x
    proof -
      from x have "x \<in> set crowded" using in_set_takeD by fastforce
      with early [OF x] old(1) show ?thesis by (auto simp: crowded_def)
    qed
    then show ?thesis by (auto simp: workflowTaskEventExists_def scanWorkflowEvent_def)
  qed
  from escalation_runs [OF l this] obtain s' where s': "run_state (ProcessApprovalDeadlineTimer example_engine ''w'' ''a'' ''escalation'' (example_actor ''s''))
      (deadline_state crowded) = (None, s')" using old(3,4) by (auto simp: crowded_def)
  have seen: "200 \<le> length (filter (\<lambda>x. event_time x < event_time e) crowded)"
    if "e \<in> set crowded" "ev_Event e = ''task_escalated''" for e
  proof -
    from that old(1) have "e = evidence" by (auto simp: crowded_def)
    then show ?thesis using crowded_events(2) by simp
  qed
  show ?thesis using escalation_repeats_beyond_window [OF s', of "stored_task ''a'' ''u1''" read_process deadline_node] s' seen
    by (auto simp: deadline_reads deadline_engine deadline_task deadline_tables crowded_events) (auto simp: crowded_def)
qed


end
