(* ===== verification/Workflow_Voting.thy ===== *)
theory Workflow_Voting
  imports Workflow_Deadline
begin

text \<open>
  What the handlers of the workflow service promise together: cancelled rows stay cancelled under every
  command, a vote is stored by one transaction of the assignee of an open task, a vote that closes
  its node cancels the tasks beside it, the next step of a route is configured by somebody entitled to
  and can be decided. Two theorems show where the code does not do what it means to: a vote that was
  rolled back is answered as done when it is repeated, and a vote whose outcome leads to a routed
  approval is refused.
\<close>

section \<open>Every command of the service\<close>


section \<open>One transaction for a vote\<close>

text \<open>The decided row is written by the transaction and by nothing else in it.\<close>

definition tx_holds :: "WorkflowTask \<Rightarrow> tx \<Rightarrow> bool" where
  "tx_holds r t \<longleftrightarrow> (\<forall>db db'. t db = Inr db' \<longrightarrow> r \<in> set (db_Tasks db) \<longrightarrow> r \<in> set (db_Tasks db'))"

named_theorems holds

lemma tx_holds_fixes [holds]: "tx_fixes db_Tasks t \<Longrightarrow> tx_holds r t"
  by (simp add: tx_holds_def tx_fixes_def)

lemma tx_holds_then [holds]: "tx_holds r a \<Longrightarrow> tx_holds r b \<Longrightarrow> tx_holds r (tx_then a b)"
  unfolding tx_holds_def tx_then_Inr by blast

lemma tx_holds_each [holds]: "(\<And>x. tx_holds r (f x)) \<Longrightarrow> tx_holds r (tx_each f xs)"
proof (induction xs)
  case (Cons x xs)
  then have "tx_holds r (f x)" "tx_holds r (tx_each f xs)" by blast+
  then show ?case unfolding tx_holds_def by (auto split: sum.splits)
qed (simp add: tx_holds_def)

lemma tx_holds_tasks [holds]: "tx_holds r (insertTaskTx env t)" "wt_ID r \<noteq> wt_ID t \<Longrightarrow> tx_holds r (updateTaskTx env t)"
  by (auto simp: tx_holds_def insertTaskTx_def updateTaskTx_def insertTx_def updateTx_def Let_def image_iff split: if_splits option.splits)

lemma decision_writes_hold: "wt_ID r = wt_ID (dc_DecidedTask c) \<Longrightarrow> tx_holds r (decision_writes env w c)"
proof -
  assume "wt_ID r = wt_ID (dc_DecidedTask c)"
  then have u: "tx_holds r (if wt_ID t = wt_ID (dc_DecidedTask c) then Inr else updateTaskTx env (t \<lparr> wt_WorkspaceID := w \<rparr>))" for t
    by (auto simp: tx_holds_def dest: tx_holds_tasks(2) [of r "t \<lparr> wt_WorkspaceID := w \<rparr>" env, unfolded tx_holds_def, rule_format, rotated])
  have "tx_holds r (decision_rows env w c)" unfolding decision_rows_def
    by (rule tx_holds_then, rule tx_holds_fixes, intro fixes_intros, rule tx_holds_then, rule tx_holds_fixes, intro fixes_intros,
        rule tx_holds_then, rule tx_holds_fixes, intro fixes_intros, rule tx_holds_then, intro holds, rule tx_holds_then, intro holds u,
        rule tx_holds_fixes, intro fixes_intros)
  then show ?thesis unfolding decision_writes_def
    by (rule tx_holds_then) (rule tx_holds_then, rule tx_holds_fixes, intro fixes_intros, rule tx_holds_fixes [OF decision_parts_fix(3)])
qed

lemma decided_row:
  assumes "CommitWorkflowDecision env c db = (db', Inr True)" and "dc_ExpectedTaskStatus c = ''open''"
  shows "\<exists>r \<in> set (db_Tasks db). task_key r = (trim_space (dc_WorkspaceID c), wt_ID (dc_DecidedTask c)) \<and>
    wt_AssigneeUserID r = dc_ExpectedAssigneeID c \<and> wt_Status r = ''open'' \<and> decide_task (dc_DecidedTask c) r \<in> set (db_Tasks db')"
proof -
  obtain w db1 db2 where w: "requireWorkflowWorkspaceID (dc_WorkspaceID c) = Inr w" and g: "guardApprovalSnapshotTx w c db = Inr db1"
    and d: "decideTaskTx w c db1 = (db2, True)" and wr: "decision_writes env w c db2 = Inr db'"
    by (rule commit_decision_Inr [OF assms(1)])
  let ?p = "\<lambda>r. wt_WorkspaceID r = w \<and> wt_ID r = wt_ID (dc_DecidedTask c) \<and> wt_AssigneeUserID r = dc_ExpectedAssigneeID c \<and> wt_Status r = ''open''"
  have "trim_space ''open'' = ''open''" by code_simp
  with d assms(2) have l: "length (filter ?p (db_Tasks db1)) = 1" and db2: "db_Tasks db2 = update_rows ?p (decide_task (dc_DecidedTask c)) (db_Tasks db1)"
    by (auto simp: decideTaskTx_def Let_def)
  from filter_hit [OF l] obtain r where r: "r \<in> set (db_Tasks db1)" "?p r" by blast
  have "decide_task (dc_DecidedTask c) r \<in> set (db_Tasks db2)" unfolding db2 by (rule update_rows_hit [of r _ ?p, OF r])
  then have "decide_task (dc_DecidedTask c) r \<in> set (db_Tasks db')"
    using decision_writes_hold [of "decide_task (dc_DecidedTask c) r" c env w] wr r(2) by (simp add: tx_holds_def decide_task_def)
  moreover have "db_Tasks db1 = db_Tasks db" using g by (auto simp: guardApprovalSnapshotTx_def Let_def split: if_splits option.splits)
  moreover have "w = trim_space (dc_WorkspaceID c)" using w by (auto simp: requireWorkflowWorkspaceID_def Let_def split: if_splits)
  ultimately show ?thesis using r by auto
qed

lemma noted_tasks: "noted db db' \<Longrightarrow> db_Tasks db' = db_Tasks db"
  unfolding noted_def by (metis (no_types, lifting) workflow_db.ext_inject workflow_db.surjective workflow_db.update_convs(5))

lemma decided_vote:
  assumes "CommitWorkflowDecision env c db0 = (db1, Inr True)" and "cast_by taskID req actor c" and "noted db db0"
  shows "\<exists>r \<in> set (db_Tasks db). task_key r = (trim_space (pr_WorkspaceID actor), taskID) \<and> wt_AssigneeUserID r = pr_UserID actor \<and>
    wt_Status r = ''open'' \<and> (\<exists>r' \<in> set (db_Tasks db1). task_key r' = task_key r \<and> wt_AssigneeUserID r' = pr_UserID actor \<and>
      wt_Status r' = to_lower (trim_space (dr_Decision req)) \<and> wt_Decision r' = to_lower (trim_space (dr_Decision req)) \<and>
      wt_Comment r' = trim_space (dr_Comment req) \<and> wt_CompletedBy r' = pr_UserID actor)"
proof -
  from assms(2) obtain task now where c: "wt_ID task = taskID"
      "dc_DecidedTask c = decided_task task (to_lower (trim_space (dr_Decision req))) req actor now"
      "dc_WorkspaceID c = trim_space (pr_WorkspaceID actor)" "dc_ExpectedTaskStatus c = ''open''" "dc_ExpectedAssigneeID c = pr_UserID actor"
    unfolding cast_by_def by blast
  from decided_row [OF assms(1) c(4)] obtain r where r: "r \<in> set (db_Tasks db0)" "task_key r = (trim_space (dc_WorkspaceID c), wt_ID (dc_DecidedTask c))"
      "wt_AssigneeUserID r = dc_ExpectedAssigneeID c" "wt_Status r = ''open''" "decide_task (dc_DecidedTask c) r \<in> set (db_Tasks db1)" by blast
  then show ?thesis
    by (intro bexI [of _ r] conjI bexI [of _ "decide_task (dc_DecidedTask c) r"])
       (simp_all add: c decided_task_def decide_task_def noted_tasks [OF assms(3)])
qed


section \<open>A vote that closes its node\<close>

abbreviation sibling :: "WorkflowTask \<Rightarrow> WorkflowTask \<Rightarrow> bool" where
  "sibling task t \<equiv> wt_ID t \<noteq> wt_ID task \<and> wt_NodeID t = wt_NodeID task \<and> wt_NodeInstanceID t = wt_NodeInstanceID task \<and>
     (wt_Status t = ''open'' \<or> wt_Status t = ''pending'')"

lemma siblings_in_commit:
  assumes "extends b c" and "\<And>t. t \<in> set ts0 \<Longrightarrow> sibling (vo_Task v) t \<Longrightarrow> t \<lparr> wt_Status := ''cancelled'', wt_UpdatedAt := vo_Now v \<rparr> \<in> set (dc_UpdateTasks c)"
  shows "yields (cancel_siblings env v ts c) (\<lambda>c'. extends b c' \<and> (\<forall>t \<in> set (ts0 @ ts). sibling (vo_Task v) t \<longrightarrow>
    t \<lparr> wt_Status := ''cancelled'', wt_UpdatedAt := vo_Now v \<rparr> \<in> set (dc_UpdateTasks c')))"
  using assms
proof (induction ts arbitrary: c ts0)
  case (Cons t ts)
  let ?f = "\<lambda>t. t \<lparr> wt_Status := ''cancelled'', wt_UpdatedAt := vo_Now v \<rparr>"
  let ?c = "c \<lparr> dc_UpdateTasks := dc_UpdateTasks c @ [?f t] \<rparr>"
  show ?case
  proof (cases "sibling (vo_Task v) t")
    case True
    have "yields (cancel_siblings env v ts c1) (\<lambda>c'. extends b c' \<and> (\<forall>x \<in> set ((ts0 @ [t]) @ ts). sibling (vo_Task v) x \<longrightarrow>
        ?f x \<in> set (dc_UpdateTasks c')))" if "extends ?c c1" for c1
    proof (rule Cons.IH)
      show "extends b c1" using that extends_trans [OF Cons.prems(1)] extends_trans [OF extends_updates(8)] by blast
      show "?f x \<in> set (dc_UpdateTasks c1)" if "x \<in> set (ts0 @ [t])" "sibling (vo_Task v) x" for x
        using that \<open>extends ?c c1\<close> Cons.prems(2) [of x] by (auto simp: extends_def)
    qed
    from yields_bind [OF yields_event [OF extends_refl] this] True show ?thesis by (auto simp: Let_def)
  next
    case False
    have "yields (cancel_siblings env v ts c) (\<lambda>c'. extends b c' \<and> (\<forall>x \<in> set ((ts0 @ [t]) @ ts). sibling (vo_Task v) x \<longrightarrow>
        ?f x \<in> set (dc_UpdateTasks c')))"
      by (rule Cons.IH [OF Cons.prems(1)]) (use Cons.prems(2) False in auto)
    with False show ?thesis by (auto simp: Let_def)
  qed
qed (use assms in \<open>simp add: yields_return\<close>)

definition cancels_siblings :: "vote \<Rightarrow> WorkflowDecisionCommit \<Rightarrow> bool" where
  "cancels_siblings v c \<longleftrightarrow> dc_WorkspaceID c = wp_WorkspaceID (vo_Snapshot v) \<and> dc_DecidedTask c = vo_Task v \<and>
     (\<forall>t \<in> set (vo_Tasks v). sibling (vo_Task v) t \<longrightarrow> t \<lparr> wt_Status := ''cancelled'', wt_UpdatedAt := vo_Now v \<rparr> \<in> set (dc_UpdateTasks c))"

lemma stores_closing:
  assumes "services_keep_steps env" and "dc_ExpectedTaskStatus b = ''open''" and "dc_WorkspaceID b = wp_WorkspaceID (vo_Snapshot v)"
    and "dc_DecidedTask b = vo_Task v" and "extends b c"
  shows "keeps_to (stores env (cancels_siblings v)) (complete_vote env v c process oc)"
  unfolding complete_vote_def vote_event_def
proof (rule storing.keeps_bind_yields [OF yields_event [OF assms(5)]])
  fix c1 assume c1: "extends b c1"
  have cancelled: "yields (cancel_siblings env v (vo_Tasks v) c1) (\<lambda>c'. extends b c' \<and> (\<forall>t \<in> set (vo_Tasks v). sibling (vo_Task v) t \<longrightarrow>
      t \<lparr> wt_Status := ''cancelled'', wt_UpdatedAt := vo_Now v \<rparr> \<in> set (dc_UpdateTasks c')))"
    using siblings_in_commit [OF c1, of "[]"] by simp
  show "keeps_to (stores env (cancels_siblings v)) (State_Monad.bind (cancel_siblings env v (vo_Tasks v) c1) (\<lambda>c. State_Monad.bind
      (close_node env v oc c) (\<lambda>closed. case closed of None \<Rightarrow> refused (notFound ''backend.workflow.approval_node_instance_not_found'')
        | Some c \<Rightarrow> after_close env v c process oc)))"
  proof (rule storing.keeps_bind_yields [OF cancelled])
    fix c2
    assume "extends b c2 \<and> (\<forall>t \<in> set (vo_Tasks v). sibling (vo_Task v) t \<longrightarrow>
      t \<lparr> wt_Status := ''cancelled'', wt_UpdatedAt := vo_Now v \<rparr> \<in> set (dc_UpdateTasks c2))"
    then have c2: "extends b c2" and up: "cancels_siblings v c" if "extends c2 c" for c
      using that assms(3,4) unfolding cancels_siblings_def extends_def by auto
    have o: "dc_ExpectedTaskStatus c2 = ''open''" using c2 [OF extends_refl] assms(2) by (simp add: extends_def)
    have "votes env c2 (State_Monad.bind (close_node env v oc c2) (\<lambda>closed. case closed of
        None \<Rightarrow> refused (notFound ''backend.workflow.approval_node_instance_not_found'') | Some c \<Rightarrow> after_close env v c process oc))"
      by (rule votes_closed [OF assms(1) o extends_refl])
    then show "keeps_to (stores env (cancels_siblings v)) (State_Monad.bind (close_node env v oc c2) (\<lambda>closed. case closed of
        None \<Rightarrow> refused (notFound ''backend.workflow.approval_node_instance_not_found'') | Some c \<Rightarrow> after_close env v c process oc))"
      using up by (rule keeps_mono)
  qed (rule voting)
qed (rule voting)


section \<open>The next step of a route\<close>

lemma configured_ready:
  assumes "configure_step env process plan given actor now = Inr st"
  obtains voters where "workflowRouteEligibleAssignees (ee_Assignees env) (wp_DefinitionSnapshot process) (rp_Route plan) = Inr voters"
    "route_step_ready (rp_Route plan) voters st" "map ra_UserID (rs_AssigneeSnapshot st) = map trim_space (ns_AssigneeUserIDs given)"
    "workflowRouteConfigurerAllows (rp_Route plan) (rp_Steps plan) (rp_CurrentIndex plan + 1) process (pr_UserID actor)"
    "rs_StepKey st = rs_StepKey (rp_Next plan)" "rs_StepNo st = rs_StepNo (rp_Next plan)" "rs_ConfiguredBy st = pr_UserID actor"
proof -
  let ?route = "rp_Route plan" and ?nx = "rp_Next plan"
  from assms obtain voters where v: "workflowRouteEligibleAssignees (ee_Assignees env) (wp_DefinitionSnapshot process) ?route = Inr voters"
    unfolding configure_step_def Let_def by (auto simp: res_bind_Inr split: if_split_asm)
  from assms v obtain assignees where a: "WorkflowValidateRouteStepAssignees (ns_AssigneeUserIDs given) ?route voters ''next_step.assignee_user_ids'' = Inr assignees"
    by (cases "WorkflowValidateRouteStepAssignees (ns_AssigneeUserIDs given) ?route voters ''next_step.assignee_user_ids''")
       (simp_all add: configure_step_def Let_def res_bind_Inr split: if_split_asm)
  from assms v a obtain required where q: "WorkflowRouteRequiredApprovals (rs_Mode ?nx) (ns_RequiredApprovals given) (int (length assignees)) ''next_step.required_approvals'' = Inr required"
    by (cases "WorkflowRouteRequiredApprovals (rs_Mode ?nx) (ns_RequiredApprovals given) (int (length assignees)) ''next_step.required_approvals''")
       (simp_all add: configure_step_def Let_def res_bind_Inr split: if_split_asm)
  from assms v a q have ne: "assignees \<noteq> []" and c: "workflowRouteConfigurerAllows ?route (rp_Steps plan) (rp_CurrentIndex plan + 1) process (pr_UserID actor)"
      and st: "st = ?nx \<lparr> rs_Status := ''pending'', rs_AssigneeSnapshot := assignees, rs_RequiredApprovals := required,
        rs_ConfiguredBy := pr_UserID actor, rs_ConfiguredAt := now, rs_ConfigureSource := ''decision'', rs_UpdatedAt := now \<rparr>"
    by (simp_all add: configure_step_def Let_def res_bind_Inr split: if_split_asm)
  note ready = assignees_ready [OF a ne q eligible_keyed [OF v], where step = st]
  show ?thesis by (rule that [OF v _ _ c]) (use ready in \<open>auto simp: st\<close>)
qed

text \<open>
  C33: who approves a step of a route leaves a step that can be decided. When the rules for the next step
  accept an approving decision, nothing has been written, and if the step after the current one was
  left to be configured, then the request configures it, the principal is the one the route lets
  configure it, and the configured step has different active eligible voters, as many as the route
  allows at most, who are the users of the request, and a number of required approvals they can reach.
\<close>

theorem approved_step_has_successor:
  assumes "run_state (planRouteDecision env process node route task req ''approved'' actor now) s = (Inr plan, s')"
    and "rp_HasNext plan" and "rs_Status (rp_Next plan) = ''configurable''"
  shows "s' = s \<and> (\<exists>given st voters. dr_NextStep req = Some given \<and> rp_Configured plan = Some st \<and>
    workflowRouteConfigurerAllows route (rp_Steps plan) (rp_CurrentIndex plan + 1) process (pr_UserID actor) \<and>
    workflowRouteEligibleAssignees (ee_Assignees env) (wp_DefinitionSnapshot process) route = Inr voters \<and>
    route_step_ready route voters st \<and> map ra_UserID (rs_AssigneeSnapshot st) = map trim_space (ns_AssigneeUserIDs given) \<and>
    rs_StepNo st = rs_StepNo (rp_Next plan) \<and> rs_StepKey st = rs_StepKey (rp_Next plan) \<and> rs_ConfiguredBy st = pr_UserID actor)"
proof -
  from assms obtain given plan0 st where g: "dr_NextStep req = Some given" and c: "configure_step env process plan0 given actor now = Inr st"
      and p: "plan = plan0 \<lparr> rp_Configured := Some st \<rparr>" "rp_Route plan0 = route" and s: "s' = s"
    by (auto simp: planRouteDecision_def run_tries Let_def res_bind_Inr reads_or_def split: if_splits sum.splits option.splits prod.splits)
  show ?thesis by (rule configured_ready [OF c]) (use g p s in auto)
qed

section \<open>An outcome that leads to a routed approval\<close>

lemma routed_without_resolvers:
  assumes "approval_node_check i node = None" and "snd (WorkflowApprovalRoute node)"
  shows "ac_Resolvers (WorkflowApprovalNodeContract node) = []"
  using assms by (auto simp: approval_node_check_def WorkflowApprovalRoute_def WorkflowApprovalNodeContract_def node_contract_def Let_def
      split: option.splits if_splits)

lemma routed_not_prepared:
  assumes "approval_node_check i node = None" and "snd (WorkflowApprovalRoute node)"
    and "valueOrDefault (trim_space (ac_EmptyAssigneePolicy (WorkflowApprovalNodeContract node))) ''fail'' = ''fail''"
  shows "\<exists>e. prepare_nodes env names process actor now (node # nodes) commit = ret (Inl e)"
proof -
  have ordered: "WorkflowOrderedApprovalResolvers [] = []" by (simp add: WorkflowOrderedApprovalResolvers_def insertion_sort_def)
  have "resolveApprovalAssignees (ee_Assignees env) process node = Inr [] \<or> (\<exists>e. resolveApprovalAssignees (ee_Assignees env) process node = Inl e)"
    unfolding resolveApprovalAssignees_def Let_def routed_without_resolvers [OF assms(1,2)] ordered resolve_each.simps res_bind_def assms(3)
    by (simp split: option.split)
  with assms(3) show ?thesis by auto
qed

text \<open>
  The vote that leads to a routed approval is refused. When the outcome of an approval leads to a
  valid approval node that is driven by a route, and nobody else is configured to take its place,
  then a vote that would close the node ends with an error and stores nothing but events: the next
  node is prepared from its resolvers, of which a routed node has none.
\<close>

theorem routed_successor_refused:
  assumes "approval_node_check i node = None" and "snd (WorkflowApprovalRoute node)" and "gn_Type node = ''approval''"
    and "valueOrDefault (trim_space (ac_EmptyAssigneePolicy (WorkflowApprovalNodeContract node))) ''fail'' = ''fail''"
    and "nextNodeIDs (ws_Graph (wp_DefinitionSnapshot process)) (wt_NodeID (vo_Task v)) outcome = [i]"
    and "WorkflowGraphNode (ws_Graph (wp_DefinitionSnapshot process)) i = (node, True)" and "vo_Plan v = None"
    and "run_state (complete_vote env v commit process outcome) s = ((p, e), s')"
  shows "e \<noteq> None \<and> es_DB s' = (es_DB s) \<lparr> db_Events := db_Events (es_DB s') \<rparr>"
proof -
  have "\<exists>e. follow_outcome env v c (process \<lparr> wp_Variables := x \<rparr>) outcome = refused e" for c x
    using routed_not_prepared [OF assms(1,2,4), of env "user_names (ee_Assignees env)" "process \<lparr> wp_Variables := x \<rparr>" "vo_Actor v" "vo_Now v" "[]" c] assms(3,5,6)
    by (auto simp: follow_outcome_def prepareNextApprovalNodes_def Let_def simp del: prepare_nodes.simps)
  then have f: "\<exists>e. after_close env v c process outcome = refused e" for c using assms(7) by (simp add: after_close_def Let_def)
  have q: "only_notes (after_close env v c process outcome)" and y: "yields (after_close env v c process outcome) (\<lambda>(p, e). e \<noteq> None)" for c
    using f [of c] by (auto simp: quiet yields_def refused_def)
  have "only_notes (complete_vote env v commit process outcome)" unfolding complete_vote_def by (intro quiet q)
  moreover have "yields (complete_vote env v commit process outcome) (\<lambda>(p, e). e \<noteq> None)" unfolding complete_vote_def
    by (intro yields_skip) (simp add: y yields_return refused_def del: not_None_eq split: option.split)
  ultimately show ?thesis using keeps_toD [OF _ assms(8)] yieldsD [OF _ assms(8)] unfolding noted_def by fastforce
qed

section \<open>A vote that was rolled back\<close>

lemma state_process_written:
  assumes "state_writes env w c db = Inr db'" and "sc_Process c = Some p"
  shows "updateTx process_key wp_Status put_process (en_Fenced env w ''_workflow_process_instances'' (wp_ID p))
    (p \<lparr> wp_WorkspaceID := w \<rparr>) (db_Processes db) = Some (db_Processes db')"
proof -
  let ?before = "tx_then (tx_each (\<lambda>n. insertNodeTx env (n \<lparr> wn_WorkspaceID := w \<rparr>)) (sc_InsertNodes c))
    (tx_then (tx_each (\<lambda>n. updateNodeTx env (n \<lparr> wn_WorkspaceID := w \<rparr>)) (sc_UpdateNodes c))
      (tx_each (\<lambda>t. updateTaskTx env (t \<lparr> wt_WorkspaceID := w \<rparr>)) (sc_UpdateTasks c)))"
  let ?after = "tx_then (tx_each (\<lambda>e. insertEventTx env (e \<lparr> ev_WorkspaceID := w \<rparr>)) (sc_Events c))
    (tx_then (tx_opt (\<lambda>e. updateExecutionTx env (e \<lparr> we_WorkspaceID := w \<rparr>)) (sc_WorkflowExecution c))
     (tx_each (\<lambda>e. tx_then (insertExecutionTx env (e \<lparr> we_WorkspaceID := w \<rparr>))
        (RegisterWorkflowContinuationScope env w (we_UpdatedAt e))) (sc_InsertExecutions c)))"
  from assms obtain a b where a: "?before db = Inr a" "updateProcessTx env (p \<lparr> wp_WorkspaceID := w \<rparr>) a = Inr b" "?after b = Inr db'"
    unfolding state_writes_def tx_then_Inr by (auto simp: tx_opt_def)
  have "tx_fixes db_Processes ?before" "tx_fixes db_Processes ?after" by (intro fixes_intros)+
  then have "db_Processes a = db_Processes db" "db_Processes db' = db_Processes b" using a tx_fixesD by fast+
  with a(2) show ?thesis by (auto simp: updateProcessTx_def split: option.splits)
qed

lemma update_put:
  assumes "updateTx key status put fenced new rows = Some rows'"
  shows "\<exists>r \<in> set rows. key r = key new \<and> put new r \<in> set rows'"
proof -
  let ?p = "\<lambda>r. key r = key new \<and> \<not> fenced \<and> (status new \<noteq> ''cancelled'' \<longrightarrow> status r \<noteq> ''cancelled'')"
  from assms obtain r where r: "r \<in> set rows" "?p r" and rows': "rows' = map (\<lambda>r. if ?p r then put new r else r) rows"
    unfolding updateTx_def Let_def by (auto split: if_splits)
  have "put new r \<in> set rows'" unfolding rows' using r by force
  with r show ?thesis by blast
qed

text \<open>The process a state commit wrote is the process that is read afterwards.\<close>

lemma state_process_read:
  assumes "CommitWorkflowState env c db = (db', None)" and "sc_Process c = Some p" and "keys_unique db'"
    and "sc_WorkspaceID c = wp_WorkspaceID p" and "trim_space workspaceID = trim_space (wp_WorkspaceID p)"
  shows "\<exists>r. GetProcess env workspaceID (wp_ID p) db' = Inr (Some (scanWorkflowProcess env r)) \<and> wp_ID r = wp_ID p \<and> wp_Result r = wp_Result p"
proof -
  from assms(1) obtain w where w: "requireWorkflowWorkspaceID (sc_WorkspaceID c) = Inr w" and wr: "state_writes env w c db = Inr db'"
    by (auto simp: CommitWorkflowState_def split: sum.splits)
  from update_put [OF state_process_written [OF wr assms(2)]] obtain r where r: "process_key r = (w, wp_ID p)"
      and m: "put_process (p \<lparr> wp_WorkspaceID := w \<rparr>) r \<in> set (db_Processes db')" by auto
  let ?r = "put_process (p \<lparr> wp_WorkspaceID := w \<rparr>) r"
  have k: "process_key ?r = (w, wp_ID p)" using r by (simp add: put_process_def)
  from find_key [of process_key, OF _ m] assms(3) have "find (\<lambda>x. process_key x = (w, wp_ID p)) (db_Processes db') = Some ?r"
    unfolding k by (simp add: keys_unique_def)
  moreover have "requireWorkflowWorkspaceID workspaceID = Inr w" using w assms(4,5) by (simp add: requireWorkflowWorkspaceID_def Let_def)
  ultimately show ?thesis using r by (auto simp: GetProcess_def read_in_def put_process_def)
qed

lemma rolled_back:
  assumes "run_state (recoverWorkflowDecision env snapshot nodes tasks task failure user execution) s = ((p, Some failure), s')"
    and "wp_ID p = wp_ID snapshot" and "wp_ID snapshot \<noteq> []"
  obtains c u where "CommitWorkflowState (ee_Store env) c (es_DB s) = (es_DB s', None)"
      "sc_Process c = Some (snapshot \<lparr> wp_UpdatedAt := u \<rparr>)" "sc_WorkspaceID c = wp_WorkspaceID snapshot"
proof -
  define now where "now = format_rfc3339nano (ee_Now env (es_Tick s))"
  obtain event s1 where e: "run_state (workflowDecisionEvent env (wp_ID snapshot) (wt_NodeID task) (wt_ID task) ''task_decision_rolled_back'' user
      (serviceErrorCode failure) [] now) (s \<lparr> es_Tick := Suc (es_Tick s) \<rparr>) = (event, s1)" by fastforce
  then have d: "es_DB s1 = es_DB s" by (auto simp: workflowDecisionEvent_def run_process_id)
  define c where "c = (empty_state_commit (wp_WorkspaceID snapshot)) \<lparr> sc_Process := Some (snapshot \<lparr> wp_UpdatedAt := now \<rparr>),
    sc_UpdateNodes := nodes, sc_UpdateTasks := map (\<lambda>t. t \<lparr> wt_UpdatedAt := now \<rparr>) tasks, sc_Events := [event], sc_WorkflowExecution := execution \<rparr>"
  from assms e d have "snd (CommitWorkflowState (ee_Store env) c (es_DB s)) = None \<and> fst (CommitWorkflowState (ee_Store env) c (es_DB s)) = es_DB s'"
    by (auto simp: recoverWorkflowDecision_def Let_def now_def [symmetric] c_def [symmetric] refused_def zero_process_def split: if_splits option.splits)
  then show ?thesis by (intro that [of c now]) (auto simp: c_def empty_state_commit_def prod_eq_iff)
qed


section \<open>Witnesses\<close>

definition approve :: "string \<Rightarrow> WorkflowTaskDecisionRequest" where
  "approve key = \<lparr> dr_Decision = ''approved'', dr_Comment = ''ok'', dr_IdempotencyKey = key, dr_NextStep = None \<rparr>"

definition waiting_instance :: WorkflowNodeInstance where
  "waiting_instance = failed_instance \<lparr> wn_ID := ''ni'', wn_NodeID := ''n1'', wn_NodeType := ''approval'', wn_Status := ''waiting'' \<rparr>"

definition voting_state :: engine_state where
  "voting_state = empty_state \<lparr> es_DB := example_db \<lparr> db_Nodes := [waiting_instance] \<rparr> \<rparr>"

text \<open>
  A process that waits for the votes of two assignees, one of whom is enough. The reads are evaluated, the run
  is rewritten with the commit of the vote as one term; the ids of the events differ in their last digit.
\<close>

lemma vote_facts:
  "GetTask example_workflow_env ''w'' ''a'' (es_DB voting_state) = Inr (Some (stored_task ''a'' ''u1''))"
  "GetProcess example_workflow_env ''w'' ''p'' (es_DB voting_state) = Inr (Some stored_process)"
  "ListTasks example_workflow_env ''w'' ''p'' [] [] 500 (es_DB voting_state) = Inr [stored_task ''b'' ''u2'', stored_task ''a'' ''u1'']"
  "ListNodes example_workflow_env ''w'' ''p'' (es_DB voting_state) = Inr [waiting_instance]"
  "workflowAuthorizeTaskDecision (example_actor ''u1'') ''approved'' = None" "workflowAuthorizeCommand (example_actor ''u1'') = None"
  "to_lower (trim_space ''approved'') = ''approved''" "trim_space ''ok'' = ''ok''" "trim_space ''a'' = ''a''"
  "WorkflowApprovalRoute (fst (WorkflowGraphNode (ws_Graph (wp_DefinitionSnapshot stored_process)) ''n1'')) = (zero_route, False)"
  "trim_space (ac_Mode (WorkflowApprovalNodeContract (fst (WorkflowGraphNode (ws_Graph (wp_DefinitionSnapshot stored_process)) ''n1'')))) = ''any''"
  "nextNodeIDs (ws_Graph (wp_DefinitionSnapshot stored_process)) ''n1'' ''approved'' = []"
  "WorkflowTerminalApprovalOutcome (stored_process \<lparr> wp_UpdatedAt := ''1970-01-01T00:00:00Z'' \<rparr>) [stored_task ''b'' ''u2'', stored_task ''a'' ''u1'']
    (decided_task (stored_task ''a'' ''u1'') ''approved'' (approve []) (example_actor ''u1'') ''1970-01-01T00:00:00Z'') = (''approved'', True)"
  by code_simp+
lemma stored_fields: "wt_ID (stored_task i u) = i" "wt_ProcessID (stored_task i u) = ''p''" "wt_NodeID (stored_task i u) = ''n1''" "wt_NodeInstanceID (stored_task i u) = ''ni''"
  "wt_Status (stored_task i u) = ''open''" "wt_AssigneeUserID (stored_task i u) = u" "wt_WorkspaceID (stored_task i u) = ''w''"
  "wn_NodeID waiting_instance = ''n1''" "wn_ID waiting_instance = ''ni''" "wn_Status waiting_instance = ''waiting''" "wn_WorkspaceID waiting_instance = ''w''" "wn_ProcessID waiting_instance = ''p''"
  by (simp_all add: stored_task_def example_task_def waiting_instance_def failed_instance_def)

definition ballot :: vote where
  "ballot = (let now = ''1970-01-01T00:00:00Z'' in \<lparr> vo_Req = approve [], vo_Actor = example_actor ''u1'', vo_Snapshot = stored_process, vo_Open = stored_task ''a'' ''u1'',
     vo_Task = decided_task (stored_task ''a'' ''u1'') ''approved'' (approve []) (example_actor ''u1'') now,
     vo_Node = fst (WorkflowGraphNode (ws_Graph (wp_DefinitionSnapshot stored_process)) ''n1''),
     vo_Tasks = [stored_task ''b'' ''u2'', stored_task ''a'' ''u1''], vo_Nodes = [waiting_instance], vo_Plan = None, vo_Now = now \<rparr>)"


lemma ballot_fields: "vo_Plan ballot = None" "vo_Snapshot ballot = stored_process" "vo_Actor ballot = example_actor ''u1''" "vo_Req ballot = approve []"
  "vo_Tasks ballot = [stored_task ''b'' ''u2'', stored_task ''a'' ''u1'']" "vo_Nodes ballot = [waiting_instance]" "vo_Now ballot = ''1970-01-01T00:00:00Z''"
  "vo_Task ballot = decided_task (stored_task ''a'' ''u1'') ''approved'' (approve []) (example_actor ''u1'') ''1970-01-01T00:00:00Z''"
  by (simp_all add: ballot_def Let_def)

lemma decided_fields: "wt_ID (decided_task t d r a n) = wt_ID t" "wt_ProcessID (decided_task t d r a n) = wt_ProcessID t" "wt_NodeID (decided_task t d r a n) = wt_NodeID t"
  "wt_NodeInstanceID (decided_task t d r a n) = wt_NodeInstanceID t" "wt_Decision (decided_task t d r a n) = d" "wt_Status (decided_task t d r a n) = d"
  "wt_CompletedBy (decided_task t d r a n) = pr_UserID a"
  by (simp_all add: decided_task_def)

lemma engine_fields: "ee_HasWorkers example_engine" "ee_CompileNotification example_engine = None" "ee_HasDecisions example_engine" "ee_HasStateStore example_engine"
  "en_TaskErased example_workflow_env t = False" "pr_Known (example_actor u)" 
  by (simp_all add: example_engine_def example_workflow_env_def example_actor_def)

lemma state_fields: "db_Tasks (es_DB voting_state) = [stored_task ''a'' ''u1'', stored_task ''b'' ''u2'']" "db_Nodes (es_DB voting_state) = [waiting_instance]"
  "db_Processes (es_DB voting_state) = [stored_process]" "db_Executions (es_DB voting_state) = []" "db_Events (es_DB voting_state) = []" "es_Tick voting_state = 0" "es_Sequence voting_state = 0"
  by (simp_all add: voting_state_def example_db_def empty_state_def)


definition noted_event :: "engine_env \<Rightarrow> string \<Rightarrow> string \<Rightarrow> string \<Rightarrow> string \<Rightarrow> string \<Rightarrow> string \<Rightarrow> data \<Rightarrow> string \<Rightarrow> nat \<Rightarrow> nat \<Rightarrow> WorkflowProcessEvent" where
  "noted_event env p n t ev a sm md now tick sequence0 = fst (run_state (workflowDecisionEvent env p n t ev a sm md now)
     \<lparr> es_DB = example_db, es_Tick = tick, es_Sequence = sequence0 \<rparr>)"

lemma run_add_event: "run_state (add_event env p n t ev a sm md now c) s =
    (c \<lparr> dc_Events := dc_Events c @ [noted_event env p n t ev a sm md now (es_Tick s) (es_Sequence s)] \<rparr>,
     s \<lparr> es_Tick := Suc (es_Tick s), es_Sequence := Suc (es_Sequence s) \<rparr>)"
  by (simp add: add_event_def noted_event_def workflowDecisionEvent_def run_process_id)

lemma noted_event_id: "ev_ID (noted_event env p n t ev a sm md now tick sq) = ''event_'' @ itoa (ee_Now env tick) @ ''_'' @ itoa (int (Suc sq))"
  by (simp add: noted_event_def workflowDecisionEvent_def run_process_id)

lemmas evaluate_vote = cast_vote_def complete_vote_def vote_event_def run_add_event close_node_def
  after_close_def follow_outcome_def end_process_def with_execution_def store_decision_def prepareWorkflowDecisionNotifications_def
  workflowApprovalDecisionCommit_def GetExecution_def read_in_def Let_def


lemma insert_events:
  assumes "distinct (map ev_ID es)" and "\<And>e r. e \<in> set es \<Longrightarrow> r \<in> set (db_Events db) \<Longrightarrow> ev_ID e \<noteq> ev_ID r" and "\<And>e. \<not> en_EventErased env e"
  shows "tx_each (\<lambda>e. insertEventTx env (e \<lparr> ev_WorkspaceID := w \<rparr>)) es db = Inr (db \<lparr> db_Events := db_Events db @ map (\<lambda>e. e \<lparr> ev_WorkspaceID := w \<rparr>) es \<rparr>)"
  using assms
proof (induction es arbitrary: db)
  case (Cons e es)
  let ?db = "db \<lparr> db_Events := db_Events db @ [e \<lparr> ev_WorkspaceID := w \<rparr>] \<rparr>"
  have "insertEventTx env (e \<lparr> ev_WorkspaceID := w \<rparr>) db = Inr ?db" using Cons.prems by (auto simp: insertEventTx_def insertTx_def)
  moreover have "tx_each (\<lambda>e. insertEventTx env (e \<lparr> ev_WorkspaceID := w \<rparr>)) es ?db = Inr (?db \<lparr> db_Events := db_Events ?db @ map (\<lambda>e. e \<lparr> ev_WorkspaceID := w \<rparr>) es \<rparr>)"
    by (rule Cons.IH) (use Cons.prems in \<open>auto simp: image_iff\<close>)
  ultimately show ?case by simp
qed simp

lemma vote_accepted:
  assumes "dc_WorkspaceID c = ''w''" "dc_ExpectedTaskStatus c = ''open''" "dc_ExpectedAssigneeID c = ''u1''" "dc_ExpectedProcessUpdatedAt c = ''1''"
    "wt_ID (dc_DecidedTask c) = ''a''" "wt_ProcessID (dc_DecidedTask c) = ''p''"
    "dc_Process c = Some q" "wp_ID q = ''p''" "wp_UpdatedAt q \<noteq> ''1''" "wp_Status q = ''completed''" "dc_InsertNodes c = []"
    "dc_UpdateNodes c = [n]" "wn_ID n = ''ni''" "wn_Status n = ''approved''" "dc_InsertTasks c = []" "dc_UpdateTasks c = [t]" "wt_ID t = ''b''" "wt_Status t = ''cancelled''"
    "dc_UpdateRouteSteps c = []" "distinct (map ev_ID (dc_Events c))" "dc_RecordMutations c = []" "dc_WorkflowExecution c = None" "dc_InsertExecutions c = []" "dc_NotificationEvents c = []"
    "wt_Status (dc_DecidedTask c) = ''approved''"
  shows "\<exists>db. CommitWorkflowDecision example_workflow_env c (es_DB voting_state) = (db, Inr True) \<and> map wt_Status (db_Tasks db) = [''approved'', ''cancelled'']"
proof -
  have trail: "db_Events db = [] \<Longrightarrow> tx_each (\<lambda>e. insertEventTx example_workflow_env (e \<lparr> ev_WorkspaceID := ''w'' \<rparr>)) (dc_Events c) db =
      Inr (db \<lparr> db_Events := map (\<lambda>e. e \<lparr> ev_WorkspaceID := ''w'' \<rparr>) (dc_Events c) \<rparr>)" for db
    using insert_events [OF assms(20), of db example_workflow_env "''w''"] by (simp add: example_folded)
  have opened: "trim_space ''open'' = ''open''" by code_simp
  show ?thesis
    by (simp add: CommitWorkflowDecision_def guardApprovalSnapshotTx_def decideTaskTx_def decision_writes_def decision_rows_def decision_trail_def Let_def
      tx_then_def tx_opt_def updateNodeTx_def updateTaskTx_def updateProcessTx_def updateTx_def update_rows_def decide_task_def put_task_def
      assms opened trail state_fields stored_fields engine_fields example_folded vote_facts)
qed

lemma event_numbers: "itoa 1 = ''1''" "itoa 2 = ''2''" "itoa 3 = ''3''" "itoa 4 = ''4''"
  by code_simp+

lemma event_last: "last (ev_ID (noted_event env p n t ev a sm md now tick 0)) = CHR ''1''" "last (ev_ID (noted_event env p n t ev a sm md now tick (Suc 0))) = CHR ''2''"
  "last (ev_ID (noted_event env p n t ev a sm md now tick (Suc (Suc 0)))) = CHR ''3''" "last (ev_ID (noted_event env p n t ev a sm md now tick (Suc (Suc (Suc 0))))) = CHR ''4''"
  by (simp_all add: noted_event_id event_numbers)

lemma distinct_events: "distinct (map (last \<circ> ev_ID) es) \<Longrightarrow> distinct (map ev_ID es)"
  using distinct_map [of last "map ev_ID es"] by simp

lemma run_ballot: "\<exists>p t. run_state (cast_vote example_engine ballot) (voting_state \<lparr> es_Tick := Suc 0 \<rparr>) = ((p, None), t) \<and>
    map wt_Status (db_Tasks (es_DB t)) = [''approved'', ''cancelled''] \<and> wp_Status p = ''completed''"
proof -
  define q where "q = (stored_process \<lparr> wp_Variables := AList.update ''approval_comment'' (VStr (wt_Comment (vo_Task ballot)))
     (AList.update ''approval_decision'' (VStr ''approved'') (WorkflowCloneMap [])), wp_Status := ''completed'',
     wp_CurrentNodeIDs := WorkflowRemoveString (wp_CurrentNodeIDs stored_process) ''n1'', wp_CompletedAt := vo_Now ballot, wp_UpdatedAt := vo_Now ballot \<rparr>)"
  define es where "es = [noted_event example_engine ''p'' ''n1'' ''a'' ''task_approved'' ''u1'' ''workflow.event.task.approved''
       [(''comment'', VStr (wt_Comment (vo_Task ballot)))] (vo_Now ballot) (Suc 0) 0,
     noted_event example_engine ''p'' ''n1'' ''b'' ''task_cancelled'' ''u1'' (wt_Title (stored_task ''b'' ''u2'')) [] (vo_Now ballot) (Suc (Suc 0)) (Suc 0),
     noted_event example_engine ''p'' ''n1'' [] ''approval_approved'' ''u1'' ''workflow.event.approval.approved'' [] (vo_Now ballot) (Suc (Suc (Suc 0))) (Suc (Suc 0)),
     noted_event example_engine ''p'' ''n1'' ''a'' ''process_completed'' ''u1'' ''workflow.event.process.completed'' [] (vo_Now ballot)
       (Suc (Suc (Suc (Suc 0)))) (Suc (Suc (Suc 0)))]"
  define c where "c = (workflowApprovalDecisionCommit stored_process (vo_Task ballot)) \<lparr> dc_ExpectedProcessUpdatedAt := ''1'', dc_Process := Some q,
     dc_UpdateNodes := [waiting_instance \<lparr> wn_Status := ''approved'', wn_Output := [(''decision'', VStr ''approved'')], wn_CompletedAt := vo_Now ballot \<rparr>],
     dc_UpdateTasks := [(stored_task ''b'' ''u2'') \<lparr> wt_Status := ''cancelled'', wt_UpdatedAt := vo_Now ballot \<rparr>], dc_Events := es \<rparr>"
  have "distinct (map ev_ID es)" by (rule distinct_events) (simp add: es_def event_last)
  then have "\<exists>db. CommitWorkflowDecision example_workflow_env c (es_DB voting_state) = (db, Inr True) \<and> map wt_Status (db_Tasks db) = [''approved'', ''cancelled'']"
    by (intro vote_accepted [where q = q and n = "hd (dc_UpdateNodes c)" and t = "hd (dc_UpdateTasks c)"]) (simp_all add: c_def q_def workflowApprovalDecisionCommit_def ballot_fields decided_fields stored_fields)
  then obtain db where db: "CommitWorkflowDecision example_workflow_env c (es_DB voting_state) = (db, Inr True)"
      "map wt_Status (db_Tasks db) = [''approved'', ''cancelled'']" by (elim exE conjE)
  have "run_state (cast_vote example_engine ballot) (voting_state \<lparr> es_Tick := Suc 0 \<rparr>) =
      ((q, None), voting_state \<lparr> es_Tick := Suc (Suc (Suc (Suc (Suc 0)))), es_Sequence := Suc (Suc (Suc (Suc 0))), es_DB := db \<rparr>)"
    using db(1) by (simp add: c_def q_def es_def evaluate_vote ballot_fields decided_fields stored_fields state_fields vote_facts engine_fields cong: bind_weak)
  with db(2) show ?thesis by (simp add: q_def)
qed

lemma example_time: "run_state (vote_time example_engine stored_process) voting_state = (''1970-01-01T00:00:00Z'', voting_state \<lparr> es_Tick := Suc 0 \<rparr>)"
  by (simp add: vote_time_def withdrawal_facts state_fields)

lemma run_decide: "\<exists>p t. run_state (DecideTask example_service ''a'' (approve []) (example_actor ''u1'')) voting_state = ((p, None), t) \<and>
    map wt_Status (db_Tasks (es_DB t)) = [''approved'', ''cancelled'']"
proof -
  from run_ballot obtain p t where r: "run_state (cast_vote example_engine ballot) (voting_state \<lparr> es_Tick := Suc 0 \<rparr>) = ((p, None), t)"
    "map wt_Status (db_Tasks (es_DB t)) = [''approved'', ''cancelled'']" by (elim exE conjE)
  have f: "dr_Decision (approve []) = ''approved''" "dr_IdempotencyKey (approve []) = []" "dr_NextStep (approve []) = None" "trim_space [] = []" 
    by (simp_all add: approve_def) 
  have o: "run_state (decide_open example_engine (stored_task ''a'' ''u1'') ''approved'' (approve []) (example_actor ''u1'')) voting_state = ((p, None), t)"
    using r(1) by (simp add: decide_open_def f vote_facts stored_fields workflowApprovalDecisionTasks_def Let_def reads_or_def example_time ballot_def)
  have "run_state (decideTerminalWorkflowTaskWithContext example_engine ''a'' (approve []) (example_actor ''u1'')) voting_state = (Some (p, None), t)"
    by (simp add: decideTerminalWorkflowTaskWithContext_def f vote_facts stored_fields engine_fields o Let_def)
  then have "run_state (DecideTerminalTask example_engine ''a'' (approve []) (example_actor ''u1'')) voting_state = (Some (p, None), t)"
    by (simp add: DecideTerminalTask_def vote_facts eval_nat_numeral ctx_err_def snapshot_changed_def)
  then have "run_state (DecideTask example_service ''a'' (approve []) (example_actor ''u1'')) voting_state = ((for_principal example_service p (example_actor ''u1''), None), t)"
    by (simp add: DecideTask_def Let_def ctx_err_def example_service_def vote_facts f)
  with r(2) show ?thesis by (intro exI conjI)
qed

lemma example_services_keep: "services_keep_steps (sv_Engine example_service)"
  by (simp add: services_keep_steps_def example_service_def example_engine_def db_steps_return)





definition leads_to_route :: WorkflowProcessInstance where
  "leads_to_route = stored_process \<lparr> wp_DefinitionSnapshot := zero_schema \<lparr> ws_Graph := Some \<lparr> gs_Version = 2,
     gs_Nodes = [example_node ''n1'' ''approval'' no_contract, routed_node \<lparr> gn_ID := ''n2'' \<rparr>], gs_Edges = [example_edge ''n1'' ''n2'' ''approved''] \<rparr> \<rparr> \<rparr>"

lemma leads_facts: "approval_node_check ''n2'' (routed_node \<lparr> gn_ID := ''n2'' \<rparr>) = None" "snd (WorkflowApprovalRoute (routed_node \<lparr> gn_ID := ''n2'' \<rparr>))"
  "gn_Type (routed_node \<lparr> gn_ID := ''n2'' \<rparr>) = ''approval''"
  "valueOrDefault (trim_space (ac_EmptyAssigneePolicy (WorkflowApprovalNodeContract (routed_node \<lparr> gn_ID := ''n2'' \<rparr>)))) ''fail'' = ''fail''"
  "nextNodeIDs (ws_Graph (wp_DefinitionSnapshot leads_to_route)) ''n1'' ''approved'' = [''n2'']"
  "WorkflowGraphNode (ws_Graph (wp_DefinitionSnapshot leads_to_route)) ''n2'' = (routed_node \<lparr> gn_ID := ''n2'' \<rparr>, True)"
  by code_simp+

theorem routed_successor_refused_witness:
  "\<exists>p e t. run_state (complete_vote example_engine ballot (workflowApprovalDecisionCommit leads_to_route (vo_Task ballot)) leads_to_route ''approved'')
      voting_state = ((p, e), t) \<and> e \<noteq> None \<and> db_Tasks (es_DB t) = db_Tasks (es_DB voting_state)"
proof -
  obtain p e t where r: "run_state (complete_vote example_engine ballot (workflowApprovalDecisionCommit leads_to_route (vo_Task ballot)) leads_to_route ''approved'')
      voting_state = ((p, e), t)" by (metis surj_pair)
  have n: "nextNodeIDs (ws_Graph (wp_DefinitionSnapshot leads_to_route)) (wt_NodeID (vo_Task ballot)) ''approved'' = [''n2'']"
    by (simp add: ballot_fields decided_fields stored_fields leads_facts)
  from routed_successor_refused [OF leads_facts(1-4) n leads_facts(6) ballot_fields(1) r] have "e \<noteq> None"
    "es_DB t = (es_DB voting_state) \<lparr> db_Events := db_Events (es_DB t) \<rparr>" by blast+
  then have "e \<noteq> None \<and> db_Tasks (es_DB t) = db_Tasks (es_DB voting_state)" by (metis workflow_db.select_convs(3) workflow_db.surjective workflow_db.update_convs(5))
  with r show ?thesis by blast
qed

definition route_steps :: "WorkflowRouteStep list" where
  "route_steps = [zero_step \<lparr> rs_WorkspaceID := ''w'', rs_ProcessID := ''p'', rs_NodeID := ''n1'', rs_StepNo := 1, rs_StepKey := ''s1'', rs_Status := ''active'',
       rs_AssigneeSnapshot := [\<lparr> ra_UserID = ''a'', ra_DisplayName = ''a'', ra_RoleKey = [] \<rparr>], rs_NodeInstanceID := ''ni'' \<rparr>,
     zero_step \<lparr> rs_WorkspaceID := ''w'', rs_ProcessID := ''p'', rs_NodeID := ''n1'', rs_StepNo := 2, rs_StepKey := ''late'', rs_Mode := ''quorum'', rs_Status := ''configurable'' \<rparr>]"

definition configuring :: WorkflowTaskDecisionRequest where
  "configuring = (approve []) \<lparr> dr_NextStep := Some \<lparr> ns_StepKey = ''late'', ns_AssigneeUserIDs = [''b'', '' c''], ns_RequiredApprovals = 2 \<rparr> \<rparr>"

definition routed_process :: WorkflowProcessInstance where
  "routed_process = stored_process \<lparr> wp_DefinitionSnapshot := routed_workflow \<rparr>"

definition planned :: workflowRouteDecisionPlan where
  "planned = \<lparr> rp_Route = routed_contract, rp_Steps = route_steps, rp_CurrentIndex = 0, rp_Current = hd route_steps, rp_Next = last route_steps, rp_HasNext = True,
     rp_Configured = None, rp_NextStepGiven = True \<rparr>"

definition route_state :: engine_state where
  "route_state = voting_state \<lparr> es_DB := (es_DB voting_state) \<lparr> db_Steps := route_steps \<rparr> \<rparr>"

lemma route_facts:
  "ListRouteSteps ''w'' ''p'' (es_DB route_state) = Inr route_steps" "current_step route_steps (stored_task ''a'' ''a'') = Some (0, hd route_steps)"
  "WorkflowRouteStepAfter route_steps (rs_StepNo (hd route_steps)) = (last route_steps, True)" "rs_Status (last route_steps) = ''configurable''"
  "map_sum (\<lambda>e. ()) (\<lambda>st. (map ra_UserID (rs_AssigneeSnapshot st), rs_RequiredApprovals st)) (configure_step example_engine routed_process planned
     \<lparr> ns_StepKey = ''late'', ns_AssigneeUserIDs = [''b'', '' c''], ns_RequiredApprovals = 2 \<rparr> (example_actor ''a'') ''now'') = Inr ([''b'', ''c''], 2)"
  "dr_NextStep configuring = Some \<lparr> ns_StepKey = ''late'', ns_AssigneeUserIDs = [''b'', '' c''], ns_RequiredApprovals = 2 \<rparr>"
  "trim_space '' c'' = ''c''" "trim_space ''b'' = ''b''" "ee_HasRoutes example_engine"
  by code_simp+

theorem approved_step_has_successor_witness:
  "\<exists>plan st. run_state (planRouteDecision example_engine routed_process routed_node routed_contract (stored_task ''a'' ''a'') configuring ''approved''
      (example_actor ''a'') ''now'') route_state = (Inr plan, route_state) \<and> rp_Configured plan = Some st \<and>
    map ra_UserID (rs_AssigneeSnapshot st) = [''b'', ''c''] \<and> WorkflowRouteStepThreshold st = rs_RequiredApprovals st"
proof -
  from route_facts(5) obtain st where c: "configure_step example_engine routed_process planned
     \<lparr> ns_StepKey = ''late'', ns_AssigneeUserIDs = [''b'', '' c''], ns_RequiredApprovals = 2 \<rparr> (example_actor ''a'') ''now'' = Inr st"
    by (auto simp: map_sum_Inr)
  have f: "wp_WorkspaceID routed_process = ''w''" "wp_ID routed_process = ''p''" by (simp_all add: routed_process_def)
  have r: "run_state (planRouteDecision example_engine routed_process routed_node routed_contract (stored_task ''a'' ''a'') configuring ''approved''
      (example_actor ''a'') ''now'') route_state = (Inr (planned \<lparr> rp_Configured := Some st \<rparr>), route_state)"
    using c by (simp add: planRouteDecision_def run_tries reads_or_def f route_facts Let_def planned_def res_bind_def)
  have n: "rp_HasNext (planned \<lparr> rp_Configured := Some st \<rparr>)" "rs_Status (rp_Next (planned \<lparr> rp_Configured := Some st \<rparr>)) = ''configurable''"
    by (simp_all add: planned_def route_facts)
  from approved_step_has_successor [OF r n] r show ?thesis by (auto simp: route_facts route_step_ready_def)
qed


definition rolled_back_state :: engine_state where
  "rolled_back_state = voting_state \<lparr> es_DB := (es_DB voting_state) \<lparr> db_Tasks := [(stored_task ''a'' ''u1'') \<lparr> wt_Status := ''approved'' \<rparr>],
     db_Processes := [stored_process \<lparr> wp_Status := ''running'', wp_UpdatedAt := ''2'' \<rparr>] \<rparr> \<rparr>"

definition voted_snapshot :: WorkflowProcessInstance where
  "voted_snapshot = workflowRecordCommand stored_process (decision_scope (stored_task ''a'' ''u1'')) (workflowCommandKey (sv_Engine example_service) ''task.decision''
     (wt_ID (stored_task ''a'' ''u1'')) (dr_IdempotencyKey (approve ''key'')) (workflowTaskDecisionCommandPayload
       (to_lower (trim_space (dr_Decision (approve ''key'')))) (approve ''key'')))"

lemma voted_fields: "wp_ID voted_snapshot = ''p''" "wp_WorkspaceID voted_snapshot = ''w''" "wp_Status voted_snapshot = ''waiting''"
  by (simp_all add: voted_snapshot_def workflowRecordCommand_def)

lemma rolled_back_run: "\<exists>p t. run_state (recoverWorkflowDecision (sv_Engine example_service) voted_snapshot [waiting_instance] [stored_task ''a'' ''u1''] (stored_task ''a'' ''u1'')
      (internalError ''x'') ''u1'' None) rolled_back_state = ((p, Some (internalError ''x'')), t) \<and> wp_ID p = ''p'' \<and>
    (\<exists>task. GetTask example_workflow_env ''w'' ''a'' (es_DB t) = Inr (Some task) \<and> wt_Status task = ''open'' \<and> wt_ID task = ''a'' \<and>
      wt_ProcessID task = ''p'' \<and> wt_AssigneeUserID task = ''u1'')"
  by (simp add: recoverWorkflowDecision_def Let_def example_service_def workflowDecisionEvent_def run_process_id CommitWorkflowState_def state_writes_def
     tx_then_def tx_opt_def updateNodeTx_def updateTaskTx_def updateProcessTx_def updateTx_def insertEventTx_def insertTx_def empty_state_commit_def rolled_back_state_def
     state_fields stored_fields voted_fields engine_fields example_folded GetTask_def read_in_def scanWorkflowTask_def put_task_def)

lemma rolled_back_facts: "workflowAuthorizeCommand (example_actor ''u1'') = None" "workflowAuthorizeTaskDecision (example_actor ''u1'') (dr_Decision (approve ''key'')) = None"
  "trim_space (dr_IdempotencyKey (approve ''key'')) \<noteq> []" "dr_NextStep (approve ''key'') = None"
  by code_simp+


end
