(* ===== verification/Workflow_Route_View.thy ===== *)
theory Workflow_Route_View
  imports Workflow_Route
begin

text \<open>
  The approval route of a process as one reader may see it (\<open>workflow_route_projection.go\<close>,
  \<open>workflow_route_query_application_service.go\<close>): who may read it, and whose names it shows.

  The theorem: a route is answered only to the initiator of the process and to assignees of its steps, and
  a step shows its assignees only to the initiator, to its own assignees, or after it was completed. The
  route inside the detail of a process obeys the same rule.
\<close>

subsection \<open>The projection\<close>

record WorkflowRouteStepView =
  rw_StepNo :: int
  rw_StepKey :: string
  rw_Title :: string
  rw_Status :: string
  rw_Mode :: string
  rw_RequiredApprovals :: int
  rw_ApprovedCount :: nat
  rw_AssigneeCount :: nat
  rw_ConfigurableByMe :: bool
  rw_ConfiguredBy :: string
  rw_ConfiguredAt :: string
  rw_ConfigureSource :: string
  rw_Assignees :: "WorkflowRouteAssignee list"

record WorkflowRouteView =
  rt_ProcessID :: string
  rt_NodeID :: string
  rt_Steps :: "WorkflowRouteStepView list"
  rt_PendingConfiguration :: "string list"
  rt_ConfigurableByMe :: bool

definition WorkflowRouteVisibleTo :: "WorkflowProcessInstance \<Rightarrow> WorkflowRouteStep list \<Rightarrow> string \<Rightarrow> bool" where
  "WorkflowRouteVisibleTo process steps userID0 \<longleftrightarrow> (let userID = trim_space userID0 in userID \<noteq> [] \<and>
     (trim_space (wp_InitiatorID process) = userID \<or> (\<exists>st \<in> set steps. \<exists>a \<in> set (rs_AssigneeSnapshot st). trim_space (ra_UserID a) = userID)))"

definition workflowRouteStepCompleted :: "WorkflowRouteStep \<Rightarrow> bool" where
  "workflowRouteStepCompleted st \<longleftrightarrow> rs_Status st \<in> {''approved'', ''rejected'', ''returned'', ''skipped''}"

definition workflowRouteContract :: "WorkflowProcessInstance \<Rightarrow> WorkflowRouteStep list \<Rightarrow> WorkflowApprovalRouteContract \<times> bool" where
  "workflowRouteContract process steps = (let nodeID = (case steps of [] \<Rightarrow> [] | st # _ \<Rightarrow> rs_NodeID st) in
     (case WorkflowGraphNode (ws_Graph (wp_DefinitionSnapshot process)) nodeID of
        (node, False) \<Rightarrow> (WorkflowApprovalRouteDefaults zero_route, False)
      | (node, True) \<Rightarrow> (case WorkflowApprovalRoute node of
          (route, False) \<Rightarrow> (WorkflowApprovalRouteDefaults zero_route, False)
        | (route, True) \<Rightarrow> (route, True))))"

definition approvals :: "WorkflowTask list \<Rightarrow> string \<Rightarrow> nat" where
  "approvals tasks nodeInstanceID = length (filter (\<lambda>t. wt_Status t = ''approved'' \<and> wt_NodeInstanceID t = nodeInstanceID) tasks)"

definition configurable_by :: "WorkflowApprovalRouteContract \<Rightarrow> WorkflowRouteStep list \<Rightarrow> WorkflowProcessInstance \<Rightarrow> string \<Rightarrow> nat \<Rightarrow> bool" where
  "configurable_by route ordered process userID index \<longleftrightarrow> rs_Status (ordered ! index) = ''configurable'' \<and>
     workflowRouteConfigurerAllows route ordered (int index) process userID"

definition step_view :: "WorkflowApprovalRouteContract \<Rightarrow> WorkflowRouteStep list \<Rightarrow> WorkflowProcessInstance \<Rightarrow> WorkflowTask list \<Rightarrow> string \<Rightarrow>
    nat \<Rightarrow> WorkflowRouteStepView" where
  "step_view route ordered process tasks userID index = (let st = ordered ! index; initiator = (trim_space (wp_InitiatorID process) = userID) in \<lparr>
     rw_StepNo = rs_StepNo st, rw_StepKey = rs_StepKey st, rw_Title = rs_Title st, rw_Status = rs_Status st,
     rw_Mode = WorkflowRouteStepMode (rs_Mode st), rw_RequiredApprovals = rs_RequiredApprovals st,
     rw_ApprovedCount = approvals tasks (rs_NodeInstanceID st), rw_AssigneeCount = length (rs_AssigneeSnapshot st),
     rw_ConfigurableByMe = configurable_by route ordered process userID index, rw_ConfiguredBy = rs_ConfiguredBy st,
     rw_ConfiguredAt = rs_ConfiguredAt st, rw_ConfigureSource = rs_ConfigureSource st,
     rw_Assignees = (if initiator \<or> workflowRouteStepHasAssignee st userID \<or> workflowRouteStepCompleted st then rs_AssigneeSnapshot st else []) \<rparr>)"

definition WorkflowRouteForPrincipal :: "WorkflowProcessInstance \<Rightarrow> WorkflowRouteStep list \<Rightarrow> WorkflowTask list \<Rightarrow> string \<Rightarrow> WorkflowRouteView" where
  "WorkflowRouteForPrincipal process steps tasks userID0 = (let
     userID = trim_space userID0; ordered = sort_key rs_StepNo steps; route = fst (workflowRouteContract process ordered);
     indices = [0..<length ordered]
   in \<lparr> rt_ProcessID = wp_ID process,
     rt_NodeID = (case find (\<lambda>st. rs_NodeID st \<noteq> []) ordered of Some st \<Rightarrow> rs_NodeID st | None \<Rightarrow> []),
     rt_Steps = map (step_view route ordered process tasks userID) indices,
     rt_PendingConfiguration = map rs_StepKey (filter (\<lambda>st. rs_Status st = ''configurable'') ordered),
     rt_ConfigurableByMe = list_ex (configurable_by route ordered process userID) indices \<rparr>)"

subsection \<open>The query\<close>

definition workflowRouteSnapshot :: "engine_env \<Rightarrow> string \<Rightarrow> Principal \<Rightarrow> workflow_db \<Rightarrow>
    engine_error + WorkflowProcessInstance \<times> WorkflowRouteStep list \<times> WorkflowTask list" where
  "workflowRouteSnapshot env processID actor db = (case GetProcess (ee_Store env) (pr_WorkspaceID actor) (trim_space processID) db of
      Inl e \<Rightarrow> Inl (InternalErr ''get workflow process'' (Some e))
    | Inr None \<Rightarrow> Inl (notFound ''backend.workflow.process_not_found'')
    | Inr (Some process) \<Rightarrow>
        if \<not> ee_HasRoutes env then Inr (process, [], [])
        else (case ListRouteSteps (pr_WorkspaceID actor) (wp_ID process) db of
            Inl e \<Rightarrow> Inl (InternalErr ''list workflow route steps'' (Some e))
          | Inr [] \<Rightarrow> Inr (process, [], [])
          | Inr steps \<Rightarrow> (case ListTasks (ee_Store env) (pr_WorkspaceID actor) (wp_ID process) [] [] 500 db of
              Inl e \<Rightarrow> Inl (InternalErr ''list workflow process tasks'' (Some e))
            | Inr tasks \<Rightarrow> Inr (process, steps, tasks))))"

definition ParticipantWorkflowRoute :: "engine_env \<Rightarrow> string \<Rightarrow> Principal \<Rightarrow> workflow_db \<Rightarrow> engine_error + WorkflowRouteView" where
  "ParticipantWorkflowRoute env processID actor db = (case workflowAuthorizeQuery actor of
      Some e \<Rightarrow> Inl e
    | None \<Rightarrow> res_bind (workflowRouteSnapshot env processID actor db) (\<lambda>(process, steps, tasks).
        if \<not> WorkflowRouteVisibleTo process steps (pr_UserID actor) then Inl (forbidden ''backend.workflow.process_access_denied'')
        else Inr (WorkflowRouteForPrincipal process steps tasks (pr_UserID actor))))"

text \<open>The route inside the detail of a process: nothing where there is none to show.\<close>

definition workflowProcessRouteView :: "engine_env \<Rightarrow> WorkflowProcessInstance \<Rightarrow> WorkflowTask list \<Rightarrow> Principal \<Rightarrow> workflow_db \<Rightarrow>
    WorkflowRouteView option" where
  "workflowProcessRouteView env process tasks actor db =
     (if \<not> ee_HasRoutes env then None
      else (case ListRouteSteps (pr_WorkspaceID actor) (wp_ID process) db of
          Inl e \<Rightarrow> None
        | Inr steps \<Rightarrow>
            if steps = [] \<or> \<not> WorkflowRouteVisibleTo process steps (pr_UserID actor) then None
            else Some (WorkflowRouteForPrincipal process steps tasks (pr_UserID actor))))"

subsection \<open>Disclosure\<close>

text \<open>What a step shows of its assignees to a reader.\<close>

definition discloses :: "WorkflowProcessInstance \<Rightarrow> string \<Rightarrow> WorkflowRouteStep \<Rightarrow> WorkflowRouteStepView \<Rightarrow> bool" where
  "discloses process reader st v \<longleftrightarrow> rw_StepKey v = rs_StepKey st \<and> rw_AssigneeCount v = length (rs_AssigneeSnapshot st) \<and>
     (if trim_space (wp_InitiatorID process) = reader \<or> (\<exists>a \<in> set (rs_AssigneeSnapshot st). trim_space (ra_UserID a) = reader) \<or>
         rs_Status st \<in> {''approved'', ''rejected'', ''returned'', ''skipped''}
      then rw_Assignees v = rs_AssigneeSnapshot st else rw_Assignees v = [])"

lemma listed_steps_ordered: "ListRouteSteps w p db = Inr steps \<Longrightarrow> sort_key rs_StepNo steps = steps"
  by (auto simp: ListRouteSteps_def read_in_def intro!: sort_key_id_if_sorted split: sum.splits if_splits)

lemma view_discloses:
  assumes "sort_key rs_StepNo steps = steps"
  shows "list_all2 (discloses process (trim_space user)) steps (rt_Steps (WorkflowRouteForPrincipal process steps tasks user))"
  unfolding list_all2_conv_all_nth
  by (auto simp: WorkflowRouteForPrincipal_def Let_def assms step_view_def discloses_def workflowRouteStepHasAssignee_def workflowRouteStepCompleted_def)

lemma visible_to: "WorkflowRouteVisibleTo process steps user \<Longrightarrow> trim_space user \<noteq> [] \<and>
    (trim_space (wp_InitiatorID process) = trim_space user \<or> (\<exists>st \<in> set steps. \<exists>a \<in> set (rs_AssigneeSnapshot st). trim_space (ra_UserID a) = trim_space user))"
  by (simp add: WorkflowRouteVisibleTo_def Let_def)

text \<open>
  C38: a route tells only its participants, and only what concerns them. When the query of a route, or the
  detail of a process that embeds it, answers a view, the reader is known, and is the initiator of the
  stored process or an assignee of one of its steps; the view has one entry per stored step, in order, with
  the number of its assignees, and names them exactly when the reader is the initiator, an assignee of that
  step, or the step has been completed.
\<close>

theorem route_discloses_to_participants:
  assumes "ParticipantWorkflowRoute env processID actor db = Inr view \<or>
      GetProcess (ee_Store env) (pr_WorkspaceID actor) (trim_space processID) db = Inr (Some p) \<and> workflowProcessRouteView env p ts actor db = Some view"
  shows "\<exists>process steps. GetProcess (ee_Store env) (pr_WorkspaceID actor) (trim_space processID) db = Inr (Some process) \<and>
    (steps = [] \<or> ListRouteSteps (pr_WorkspaceID actor) (wp_ID process) db = Inr steps) \<and> trim_space (pr_UserID actor) \<noteq> [] \<and>
    (trim_space (wp_InitiatorID process) = trim_space (pr_UserID actor) \<or>
      (\<exists>st \<in> set steps. \<exists>a \<in> set (rs_AssigneeSnapshot st). trim_space (ra_UserID a) = trim_space (pr_UserID actor))) \<and>
    list_all2 (discloses process (trim_space (pr_UserID actor))) steps (rt_Steps view)"
proof -
  have "\<exists>process steps tasks. GetProcess (ee_Store env) (pr_WorkspaceID actor) (trim_space processID) db = Inr (Some process) \<and>
      (steps = [] \<or> ListRouteSteps (pr_WorkspaceID actor) (wp_ID process) db = Inr steps) \<and>
      WorkflowRouteVisibleTo process steps (pr_UserID actor) \<and> view = WorkflowRouteForPrincipal process steps tasks (pr_UserID actor)"
    using assms by (auto simp: ParticipantWorkflowRoute_def workflowRouteSnapshot_def workflowProcessRouteView_def res_bind_Inr
        split: option.splits sum.splits if_splits list.splits)
  then obtain process steps tasks where r: "GetProcess (ee_Store env) (pr_WorkspaceID actor) (trim_space processID) db = Inr (Some process)"
      "steps = [] \<or> ListRouteSteps (pr_WorkspaceID actor) (wp_ID process) db = Inr steps"
      "WorkflowRouteVisibleTo process steps (pr_UserID actor)" "view = WorkflowRouteForPrincipal process steps tasks (pr_UserID actor)"
    by (elim exE conjE)
  from r(2) have "sort_key rs_StepNo steps = steps" using listed_steps_ordered by auto
  from view_discloses [OF this] r visible_to [OF r(3)] show ?thesis by (intro exI [of _ process] exI [of _ steps]) simp
qed

subsection \<open>Witness\<close>

definition read_step :: "int \<Rightarrow> string \<Rightarrow> WorkflowRouteStep" where
  "read_step n user = zero_step \<lparr> rs_WorkspaceID := ''w'', rs_ID := user, rs_ProcessID := ''p'', rs_NodeID := ''n1'', rs_StepNo := n, rs_StepKey := user,
     rs_Status := ''pending'', rs_Mode := ''any'', rs_AssigneeSnapshot := [\<lparr> ra_UserID = user, ra_DisplayName = user, ra_RoleKey = [] \<rparr>] \<rparr>"

definition read_db0 :: workflow_db where
  "read_db0 = example_db \<lparr> db_Steps := [read_step 2 ''b'', read_step 1 ''a''] \<rparr>"

theorem route_discloses_to_participants_witness:
  "\<exists>view process steps. ParticipantWorkflowRoute example_engine ''p'' (example_actor ''b'') read_db0 = Inr view \<and> map rw_StepKey (rt_Steps view) = [''a'', ''b''] \<and>
    map rw_AssigneeCount (rt_Steps view) = [1, 1] \<and> map (map ra_UserID \<circ> rw_Assignees) (rt_Steps view) = [[], [''b'']] \<and>
    list_all2 (discloses process ''b'') steps (rt_Steps view)"
proof -
  have e: "map_sum (\<lambda>_. ()) (\<lambda>view. (map rw_StepKey (rt_Steps view), map rw_AssigneeCount (rt_Steps view), map (map ra_UserID \<circ> rw_Assignees) (rt_Steps view)))
      (ParticipantWorkflowRoute example_engine ''p'' (example_actor ''b'') read_db0) = Inr ([''a'', ''b''], [1, 1], [[], [''b'']])" by code_simp
  then obtain view where v: "ParticipantWorkflowRoute example_engine ''p'' (example_actor ''b'') read_db0 = Inr view"
    "map rw_StepKey (rt_Steps view) = [''a'', ''b'']" "map rw_AssigneeCount (rt_Steps view) = [1, 1]"
    "map (map ra_UserID \<circ> rw_Assignees) (rt_Steps view) = [[], [''b'']]" by (auto simp: map_sum_Inr simp del: map_eq_conv)
  have u: "trim_space (pr_UserID (example_actor ''b'')) = ''b''" by code_simp
  from route_discloses_to_participants [OF disjI1, OF v(1), unfolded u] obtain process steps where
    "list_all2 (discloses process ''b'') steps (rt_Steps view)" by (elim exE conjE)
  with v show ?thesis by (intro exI conjI)
qed

end
