(* ===== verification/Workflow_Simulation.thy ===== *)
theory Workflow_Simulation
  imports Workflow_Run
begin

text \<open>
  The simulation of a workflow (\<open>workflow_process_simulation_application_service.go\<close>): the graph is
  walked from its trigger without touching the tables, and every node that could be reached is previewed,
  a node with several possible outcomes along all of them.

  The theorems: the simulation ends and previews exactly the nodes that are reachable through the simulated
  outcomes, each once; it does not dereference a missing contract when every agent task has a retry policy;
  the validator does not ask for one, and without it the simulation panics.
\<close>

subsection \<open>Previews\<close>

record WorkflowSimulationNode =
  sn_NodeID :: string
  sn_NodeType :: string
  sn_Status :: string
  sn_Outcome :: string
  sn_ResolvedAssignees :: "string list"
  sn_ActionKey :: string
  sn_Details :: data

definition simulated :: "WorkflowGraphNode \<Rightarrow> WorkflowSimulationNode" where
  "simulated node = \<lparr> sn_NodeID = gn_ID node, sn_NodeType = gn_Type node, sn_Status = ''simulated'', sn_Outcome = [],
     sn_ResolvedAssignees = [], sn_ActionKey = [], sn_Details = [] \<rparr>"

text \<open>
  A preview with the outcomes to follow, or an error. \<open>None\<close> is a panic: the handler of an agent task reads
  its contract and the retry policy of the contract through pointers it does not check. \<open>exists_action\<close> says
  which actions there are.
\<close>

type_synonym preview = "(engine_error + WorkflowSimulationNode \<times> string list) option"

definition approval_preview :: "engine_env \<Rightarrow> WorkflowGraphNode \<Rightarrow> ResolvedAssignee list \<Rightarrow> WorkflowSimulationNode" where
  "approval_preview env node assignees = (let contract = WorkflowApprovalNodeContract node in (simulated node) \<lparr>
     sn_ResolvedAssignees := map rv_UserID assignees,
     sn_Details := [(''resolver_mode'', VStr (ac_ResolverMode contract)), (''resolved_assignees'', ee_AssigneesValue env assignees),
       (''empty_assignee_policy'', VStr (ac_EmptyAssigneePolicy contract)), (''mode'', VStr (ac_Mode contract))] @
       (if ac_Mode contract = ''quorum'' then [(''required_approvals'', VInt (ac_RequiredApprovals contract))] else []) \<rparr>)"

definition agent_preview :: "WorkflowGraphNode \<Rightarrow> WorkflowAgentTaskNodeContract \<Rightarrow> WorkflowRetryPolicy \<Rightarrow> WorkflowSimulationNode" where
  "agent_preview node contract retry = (simulated node) \<lparr> sn_Outcome := ''waiting'',
     sn_Details := [(''task_key'', VStr (at_TaskKey contract)), (''task_version'', VStr (at_TaskVersion contract)),
       (''identity_mode'', VStr (ai_Mode (at_Identity contract))), (''service_principal_key'', VStr (ai_PrincipalKey (at_Identity contract))),
       (''output_variable'', VStr (at_OutputVariable contract)), (''timeout_seconds'', VInt (at_TimeoutSeconds contract)),
       (''max_attempts'', VInt (rp_MaxAttempts retry)), (''model_invoked'', VBool False), (''durable_task_created'', VBool False),
       (''business_side_effects'', VBool False)] \<rparr>"

definition timer_preview :: "WorkflowGraphNode \<Rightarrow> WorkflowSimulationNode" where
  "timer_preview node = (let contract = WorkflowTimerNodeContract node in (simulated node) \<lparr> sn_Outcome := ''scheduled'',
     sn_Details := [(''timer_key'', VStr (tc_TimerKey contract)), (''purpose'', VStr (tc_Purpose contract)), (''at'', VStr (tc_At contract)),
       (''duration_seconds'', VInt (tc_DurationSeconds contract)), (''source_field'', VStr (tc_SourceField contract)),
       (''offset_seconds'', VInt (tc_OffsetSeconds contract)), (''timezone'', VStr (tc_Timezone contract)),
       (''business_calendar_key'', VStr (tc_BusinessCalendarKey contract))] \<rparr>)"

definition simulateNode :: "engine_env \<Rightarrow> (string \<Rightarrow> bool) \<Rightarrow> WorkflowProcessInstance \<Rightarrow> WorkflowGraphNode \<Rightarrow> preview" where
  "simulateNode env exists_action process node = (let t = gn_Type node in
     if t = ''trigger'' then Some (Inr ((simulated node) \<lparr> sn_Outcome := ''success'' \<rparr>, [''success'']))
     else if t = ''condition'' then (let
         matched = ee_Condition env node (wp_Variables process); outcome = (if matched then ''true'' else ''false'')
       in Some (Inr ((simulated node) \<lparr> sn_Outcome := outcome, sn_Details := [(''matched'', VBool matched)] \<rparr>, [outcome])))
     else if t = ''approval'' then Some (res_bind (resolveApprovalAssignees (ee_Assignees env) process node) (\<lambda>assignees.
       Inr (approval_preview env node assignees, [''approved'', ''rejected''])))
     else if t = ''action'' then (let contract = WorkflowBusinessActionNodeContract node in
       if \<not> exists_action (trim_space (bc_ActionKey contract))
         then Some (Inl (bad_request ''backend.workflow.action_not_found'' [''action'', bc_ActionKey contract]))
       else Some (Inr ((simulated node) \<lparr> sn_ActionKey := bc_ActionKey contract \<rparr>,
         ''success'' # (if bc_OnError contract = ''error_branch'' then [''error''] else []))))
     else if t = ''agent_task'' then (case node_contract nc_AgentTask node of
         None \<Rightarrow> None
       | Some contract \<Rightarrow> (case at_Retry contract of
           None \<Rightarrow> None
         | Some retry \<Rightarrow> Some (Inr (agent_preview node contract retry, at_AllowedOutcomes contract))))
     else if t = ''cc'' then (let contract = WorkflowCCNodeContract node in
       Some (res_bind (resolveWorkflowAssignees (ee_Assignees env) process (gn_ID node) (cc_Resolvers contract)) (\<lambda>assignees.
         Inr ((simulated node) \<lparr> sn_ActionKey := cc_NotificationActionKey contract, sn_ResolvedAssignees := map rv_UserID assignees,
           sn_Details := [(''resolved_assignees'', ee_AssigneesValue env assignees)] \<rparr>, [''success'']))))
     else if t = ''wait_until'' \<or> t = ''wait_duration'' \<or> t = ''timer'' then Some (Inr (timer_preview node, [''success'']))
     else Some (Inl (bad_request ''backend.workflow.graph_node_type_invalid'' [''node'', gn_ID node])))"

lemma simulated_node: "simulateNode env ex process node = Some (Inr (pre, outcomes)) \<Longrightarrow> sn_NodeID pre = gn_ID node"
  by (auto simp: simulateNode_def simulated_def approval_preview_def agent_preview_def timer_preview_def res_bind_Inr Let_def
      split: if_splits option.splits)

lemma simulated_found: "simulateNode env ex process (fst (WorkflowGraphNode graph i)) = Some (Inr y) \<Longrightarrow> snd (WorkflowGraphNode graph i)"
  by (auto simp: simulateNode_def WorkflowGraphNode_def zero_node_def Let_def split: option.splits)

subsection \<open>The walk\<close>

definition successors :: "WorkflowGraphSchema option \<Rightarrow> string \<Rightarrow> string list \<Rightarrow> string list" where
  "successors graph nodeID outcomes = concat (map (nextNodeIDs graph nodeID) outcomes)"

function simulate_loop :: "engine_env \<Rightarrow> (string \<Rightarrow> bool) \<Rightarrow> WorkflowProcessInstance \<Rightarrow> WorkflowGraphSchema option \<Rightarrow> string list \<Rightarrow>
    string list \<Rightarrow> WorkflowSimulationNode list \<Rightarrow> (engine_error + WorkflowSimulationNode list) option" where
  "simulate_loop env ex process graph visited [] nodes = Some (Inr nodes)"
| "simulate_loop env ex process graph visited (nodeID # queue) nodes =
     (if nodeID \<in> set visited then simulate_loop env ex process graph visited queue nodes
      else (let node = fst (WorkflowGraphNode graph nodeID) in (case simulateNode env ex process node of
          None \<Rightarrow> None
        | Some (Inl e) \<Rightarrow> Some (Inl e)
        | Some (Inr (pre, outcomes)) \<Rightarrow> simulate_loop env ex process graph (nodeID # visited)
            (queue @ successors graph (gn_ID node) outcomes) (nodes @ [pre]))))"
  by pat_completeness auto

lemma simulation_shrinks:
  assumes "snd (WorkflowGraphNode graph i)" and "i \<notin> set visited"
  shows "card (graph_ids graph - set (i # visited)) < card (graph_ids graph - set visited)"
  using graph_ids_visited [OF assms(1), of "map (\<lambda>v. (v, None)) visited"] assms(2) by (simp add: image_image)

text \<open>Every round either previews a node of the graph that was not previewed before or shortens the queue.\<close>

termination simulate_loop
  by (relation "measures [\<lambda>(env, ex, process, graph, visited, queue, nodes). card (graph_ids graph - set visited),
      \<lambda>(env, ex, process, graph, visited, queue, nodes). length queue]")
    (use simulation_shrinks simulated_found in \<open>auto simp del: set_simps\<close>)

definition simulated_process :: "WorkflowSchema \<Rightarrow> data \<Rightarrow> Principal \<Rightarrow> WorkflowProcessInstance" where
  "simulated_process workflow variables actor = zero_process \<lparr> wp_WorkflowKey := ws_Key workflow, wp_WorkflowName := ws_Name workflow,
     wp_DefinitionVersionID := ws_DefinitionVersionID workflow, wp_DefinitionVersion := WorkflowPublishedVersion workflow,
     wp_DefinitionSnapshot := workflow, wp_ObjectKey := WorkflowPayloadString variables ''object_key'',
     wp_RecordID := WorkflowPayloadString variables ''record_id'', wp_InitiatorID := pr_UserID actor, wp_InitiatorRoleKey := pr_RoleKey actor,
     wp_Variables := WorkflowCloneMap variables \<rparr>"

definition Simulate :: "engine_env \<Rightarrow> Workflow_Graph.workflow_env \<Rightarrow> (string \<Rightarrow> bool) \<Rightarrow> WorkflowSchema \<Rightarrow> data \<Rightarrow> Principal \<Rightarrow>
    (engine_error + WorkflowSimulationNode list) option" where
  "Simulate env genv ex workflow variables actor = (case workflowAuthorizeQuery actor of
      Some e \<Rightarrow> Some (Inl e)
    | None \<Rightarrow> (case WorkflowValidateGraph genv (ws_Graph workflow) of
        (graph, Some e) \<Rightarrow> Some (Inl (AppErr e))
      | (graph, None) \<Rightarrow> simulate_loop env ex (simulated_process (workflow \<lparr> ws_Graph := graph \<rparr>) variables actor) graph []
          [gn_ID (WorkflowGraphTrigger graph)] []))"

subsection \<open>What is previewed\<close>

text \<open>One step along a simulated outcome.\<close>

definition simulated_steps :: "engine_env \<Rightarrow> (string \<Rightarrow> bool) \<Rightarrow> WorkflowProcessInstance \<Rightarrow> WorkflowGraphSchema option \<Rightarrow> (string \<times> string) set" where
  "simulated_steps env ex process graph = {(u, v). \<exists>pre outcomes oc. simulateNode env ex process (fst (WorkflowGraphNode graph u)) = Some (Inr (pre, outcomes)) \<and>
     oc \<in> set outcomes \<and> v \<in> set (nextNodeIDs graph u oc)}"

definition walk_invariant :: "(string \<times> string) set \<Rightarrow> string \<Rightarrow> string list \<Rightarrow> string list \<Rightarrow> WorkflowSimulationNode list \<Rightarrow> bool" where
  "walk_invariant steps start visited queue nodes \<longleftrightarrow> map sn_NodeID nodes = rev visited \<and> distinct visited \<and>
     start \<in> set visited \<union> set queue \<and> set visited \<union> set queue \<subseteq> steps\<^sup>* `` {start} \<and> steps `` set visited \<subseteq> set visited \<union> set queue"

lemma walk_result:
  assumes "simulate_loop env ex process graph visited queue nodes = Some (Inr result)"
    and "walk_invariant (simulated_steps env ex process graph) start visited queue nodes"
  shows "\<exists>all. walk_invariant (simulated_steps env ex process graph) start all [] result"
  using assms
proof (induction env ex process graph visited queue nodes rule: simulate_loop.induct)
  case (1 env ex process graph visited nodes)
  then show ?case by auto
next
  case (2 env ex process graph visited i queue nodes)
  let ?R = "simulated_steps env ex process graph"
  show ?case
  proof (cases "i \<in> set visited")
    case True
    with 2(3,4) have "walk_invariant ?R start visited queue nodes" by (auto simp: walk_invariant_def)
    with 2(1) [OF True] 2(3) True show ?thesis by simp
  next
    case False
    let ?n = "fst (WorkflowGraphNode graph i)"
    from 2(3) False obtain pre ocs where n: "simulateNode env ex process ?n = Some (Inr (pre, ocs))"
      by (auto simp: Let_def split: option.splits sum.splits)
    from graph_node_found [OF simulated_found [OF n]] have i: "gn_ID ?n = i" by simp
    from 2(3) False n i have r: "simulate_loop env ex process graph (i # visited) (queue @ successors graph i ocs) (nodes @ [pre]) = Some (Inr result)"
      by simp
    have step: "?R `` {i} = set (successors graph i ocs)" using n by (auto simp: simulated_steps_def successors_def)
    from 2(4) have reach: "i \<in> ?R\<^sup>* `` {start}" by (auto simp: walk_invariant_def)
    then have "?R `` {i} \<subseteq> ?R\<^sup>* `` {start}" by (auto intro: rtrancl_into_rtrancl)
    moreover have "?R `` set (i # visited) = ?R `` set visited \<union> set (successors graph i ocs)" unfolding step [symmetric] by auto
    ultimately have "walk_invariant ?R start (i # visited) (queue @ successors graph i ocs) (nodes @ [pre])"
      using 2(4) False simulated_node [OF n] i reach unfolding walk_invariant_def step by auto
    with 2(2) [OF False refl n refl refl] r i show ?thesis by simp
  qed
qed

lemma walk_complete:
  assumes "walk_invariant steps start all [] result"
  shows "distinct (map sn_NodeID result) \<and> set (map sn_NodeID result) = {v. (start, v) \<in> steps\<^sup>*}"
proof -
  have "v \<in> set all" if "(start, v) \<in> steps\<^sup>*" for v
    using that assms by (induction rule: rtrancl_induct) (auto simp: walk_invariant_def)
  with assms show ?thesis by (auto simp: walk_invariant_def)
qed

text \<open>
  C37: a simulation shows everything that can happen, once. When the simulation of a workflow answers
  previews, they are of different nodes, and the previewed nodes are exactly those that are reachable from
  the trigger of the validated graph through the simulated outcomes of the nodes on the way.
\<close>

theorem simulation_is_reachability:
  assumes "Simulate env genv ex workflow variables actor = Some (Inr nodes)"
    and "graph = fst (WorkflowValidateGraph genv (ws_Graph workflow))"
  shows "distinct (map sn_NodeID nodes) \<and> set (map sn_NodeID nodes) = {v. (gn_ID (WorkflowGraphTrigger graph), v) \<in>
    (simulated_steps env ex (simulated_process (workflow \<lparr> ws_Graph := graph \<rparr>) variables actor) graph)\<^sup>*}"
proof -
  from assms have "simulate_loop env ex (simulated_process (workflow \<lparr> ws_Graph := graph \<rparr>) variables actor) graph []
      [gn_ID (WorkflowGraphTrigger graph)] [] = Some (Inr nodes)"
    by (auto simp: Simulate_def simp del: simulate_loop.simps split: option.splits prod.splits)
  moreover have "walk_invariant steps i [] [i] []" for steps and i by (simp add: walk_invariant_def)
  ultimately obtain all where "walk_invariant (simulated_steps env ex (simulated_process (workflow \<lparr> ws_Graph := graph \<rparr>) variables actor) graph)
      (gn_ID (WorkflowGraphTrigger graph)) all [] nodes" using walk_result by blast
  then show ?thesis by (rule walk_complete)
qed

subsection \<open>Panics\<close>

definition agents_retry :: "WorkflowGraphSchema \<Rightarrow> bool" where
  "agents_retry g \<longleftrightarrow> (\<forall>n \<in> set (gs_Nodes g). \<forall>c. gn_Type n = ''agent_task'' \<and> node_contract nc_AgentTask n = Some c \<longrightarrow> at_Retry c \<noteq> None)"

lemma nodes_checked:
  assumes "graph_nodes env ns table trigger = Inr r" and "n \<in> set ns"
  shows "node_check env (trim_space (gn_Type n)) (trim_space (gn_ID n)) n = None"
  using assms
proof (induction env ns table trigger rule: graph_nodes.induct)
  case (2 env node rest nodes triggerID)
  then show ?case by (auto simp: Let_def split: if_splits option.splits)
qed simp

lemma agent_task_trimmed: "trim_space ''agent_task'' = ''agent_task''"
  by code_simp

lemma accepted_agents:
  assumes "accepted env g" and "n \<in> set (gs_Nodes g)" and "gn_Type n = ''agent_task''"
  shows "node_contract nc_AgentTask n \<noteq> None"
proof -
  from assms(1) obtain r where "graph_nodes env (gs_Nodes g) [] [] = Inr r"
    by (auto simp: accepted_iff build_tables_def split: sum.splits)
  from nodes_checked [OF this assms(2)] have "agent_task_node_check env (trim_space (gn_ID n)) n = None"
    using assms(3) agent_task_trimmed by (simp add: node_check_def)
  then show ?thesis by (cases "node_contract nc_AgentTask n") (simp_all add: agent_task_node_check_def)
qed

lemma simulated_ok:
  assumes "accepted genv g" and "agents_retry g" and "gs_Nodes g' = gs_Nodes g"
  shows "simulateNode env ex process (fst (WorkflowGraphNode (Some g') i)) \<noteq> None"
proof (cases "find_node (gs_Nodes g') i")
  case None
  then show ?thesis by (simp add: WorkflowGraphNode_def simulateNode_def zero_node_def Let_def)
next
  case (Some n)
  with find_node_Some [OF Some] assms(3) have n: "n \<in> set (gs_Nodes g)" "fst (WorkflowGraphNode (Some g') i) = n" by (auto simp: WorkflowGraphNode_def)
  show ?thesis
  proof (cases "gn_Type n = ''agent_task''")
    case True
    with accepted_agents [OF assms(1) n(1)] obtain c where c: "node_contract nc_AgentTask n = Some c" by auto
    with True assms(2) n(1) obtain retry where "at_Retry c = Some retry" by (auto simp: agents_retry_def)
    with True c n(2) show ?thesis by (simp add: simulateNode_def Let_def)
  next
    case False
    with n(2) show ?thesis by (simp add: simulateNode_def Let_def)
  qed
qed

lemma walk_ok:
  assumes "\<And>i. simulateNode env ex process (fst (WorkflowGraphNode graph i)) \<noteq> None"
  shows "simulate_loop env ex process graph visited queue nodes \<noteq> None"
  using assms
proof (induction env ex process graph visited queue nodes rule: simulate_loop.induct)
  case (2 env ex process graph visited i queue nodes)
  obtain r where r: "simulateNode env ex process (fst (WorkflowGraphNode graph i)) = Some r" using 2(3) by blast
  show ?case
  proof (cases r)
    case (Inr y)
    then show ?thesis using 2 r by (cases y) (simp add: Let_def)
  qed (use 2 r in simp)
qed simp

text \<open>
  A simulation does not panic on a graph whose agent tasks have retry policies. The validator that
  runs before the simulation refuses a graph with an agent task without a contract, so that every pointer
  the simulation follows is there, except the retry policy of an agent task.
\<close>

theorem simulation_does_not_panic:
  assumes "ws_Graph workflow = Some g" and "agents_retry g"
  shows "Simulate env genv ex workflow variables actor \<noteq> None"
proof (cases "accepted genv g")
  case True
  let ?g = "if gs_Version g = 0 then g \<lparr> gs_Version := 2 \<rparr> else g"
  have g: "WorkflowValidateGraph genv (ws_Graph workflow) = (Some ?g, None)"
    using True assms(1) by (simp add: accepted_def WorkflowValidateGraph_def Let_def)
  have "simulateNode env ex process (fst (WorkflowGraphNode (Some ?g) i)) \<noteq> None" for process i
    by (rule simulated_ok [OF True assms(2)]) simp
  then have "simulate_loop env ex process (Some ?g) v q n \<noteq> None" for process v q n by (rule walk_ok)
  then show ?thesis by (simp add: Simulate_def g del: simulate_loop.simps split: option.split)
next
  case False
  with assms(1) obtain e where "snd (WorkflowValidateGraph genv (ws_Graph workflow)) = Some e" by (auto simp: accepted_def)
  then show ?thesis by (auto simp: Simulate_def split: option.split prod.split)
qed

subsection \<open>An example with an agent task\<close>

definition agent_graph :: "WorkflowRetryPolicy option \<Rightarrow> WorkflowGraphSchema" where
  "agent_graph retry = \<lparr> gs_Version = 2, gs_Nodes = [example_node ''t'' ''trigger'' no_contract, example_node ''g'' ''agent_task'' (no_contract \<lparr>
       nc_AgentTask := Some (zero_agent \<lparr> at_TaskKey := ''k'', at_TaskVersion := ''1'', at_Input := Some [], at_OutputVariable := ''v'',
         at_ExecutionMode := ''async'', at_TimeoutSeconds := 60, at_Identity := \<lparr> ai_Mode = ''inherit'', ai_PrincipalKey = [] \<rparr>, at_Retry := retry,
         at_AllowedOutcomes := [''success''] \<rparr>) \<rparr>), example_action ''y''],
     gs_Edges = [example_edge ''t'' ''g'' [], example_edge ''g'' ''y'' ''success''] \<rparr>"

definition agent_workflow :: "WorkflowRetryPolicy option \<Rightarrow> WorkflowSchema" where
  "agent_workflow retry = zero_schema \<lparr> ws_Graph := Some (agent_graph retry) \<rparr>"

definition one_attempt :: WorkflowRetryPolicy where
  "one_attempt = \<lparr> rp_MaxAttempts = 1, rp_DelaySeconds = 0 \<rparr>"

text \<open>
  A simulation panics on a valid workflow. The validator accepts the graph of a trigger, an agent
  task without a retry policy and an action; the simulation of a workflow with this graph dereferences the
  missing policy, while the same workflow with a policy is previewed to its end.
\<close>

theorem simulation_panics_without_retry:
  "snd (WorkflowValidateGraph example_env (ws_Graph (agent_workflow None))) = None \<and>
   Simulate example_engine example_env (\<lambda>_. True) (agent_workflow None) [] (example_actor ''u'') = None \<and>
   map_option (map_sum (\<lambda>_. ()) (map sn_NodeID)) (Simulate example_engine example_env (\<lambda>_. True) (agent_workflow (Some one_attempt)) []
     (example_actor ''u'')) = Some (Inr [''t'', ''g'', ''y''])"
  by (intro conjI; code_simp)

lemma agent_preview: "\<exists>nodes. Simulate example_engine example_env (\<lambda>_. True) (agent_workflow (Some one_attempt)) [] (example_actor ''u'') = Some (Inr nodes) \<and>
    map sn_NodeID nodes = [''t'', ''g'', ''y'']"
proof -
  have "map_option (map_sum (\<lambda>_. ()) (map sn_NodeID)) (Simulate example_engine example_env (\<lambda>_. True) (agent_workflow (Some one_attempt)) []
     (example_actor ''u'')) = Some (Inr [''t'', ''g'', ''y''])" by code_simp
  then show ?thesis by (auto simp: map_sum_Inr)
qed

theorem simulation_is_reachability_witness:
  "\<exists>nodes graph. Simulate example_engine example_env (\<lambda>_. True) (agent_workflow (Some one_attempt)) [] (example_actor ''u'') = Some (Inr nodes) \<and>
    map sn_NodeID nodes = [''t'', ''g'', ''y''] \<and>
    {v. (''t'', v) \<in> (simulated_steps example_engine (\<lambda>_. True) (simulated_process (agent_workflow (Some one_attempt) \<lparr> ws_Graph := graph \<rparr>) []
      (example_actor ''u'')) graph)\<^sup>*} = {''t'', ''g'', ''y''}"
proof -
  let ?w = "agent_workflow (Some one_attempt)"
  let ?g = "fst (WorkflowValidateGraph example_env (ws_Graph ?w))"
  obtain nodes where n: "Simulate example_engine example_env (\<lambda>_. True) ?w [] (example_actor ''u'') = Some (Inr nodes)"
    "map sn_NodeID nodes = [''t'', ''g'', ''y'']" using agent_preview by (elim exE conjE)
  have t: "gn_ID (WorkflowGraphTrigger ?g) = ''t''" by code_simp
  from simulation_is_reachability [OF n(1) refl, unfolded t n(2) list.set, THEN conjunct2, symmetric] n show ?thesis
    by (intro exI conjI)
qed

theorem simulation_does_not_panic_witness:
  "agents_retry (agent_graph (Some one_attempt)) \<and>
   Simulate example_engine example_env (\<lambda>_. True) (agent_workflow (Some one_attempt)) [] (example_actor ''u'') \<noteq> None"
proof -
  have g: "ws_Graph (agent_workflow (Some one_attempt)) = Some (agent_graph (Some one_attempt))" by (simp add: agent_workflow_def)
  have r: "agents_retry (agent_graph (Some one_attempt))"
    by (auto simp: agents_retry_def agent_graph_def example_node_def node_contract_def no_contract_def example_action_def)
  from simulation_does_not_panic [OF g r] r show ?thesis by blast
qed

end
