(* ===== verification/Workflow_Condition.thy ===== *)
theory Workflow_Condition
  imports Workflow_Runtime Go_Scan "HOL-Library.Multiset"
begin

text \<open>
  Which workflows an event of a record starts (\<open>workflow_record_condition_policy.go\<close>,
  \<open>workflow_trigger_intent_application_service.go\<close>, \<open>workflowProcessConditionMatches\<close>): the triggers of a
  record update, the trigger and condition contracts, the textual conditions, and the intents that are stored
  with the mutation.

  A \<open>float64\<close> is a parameter type with its operations. The clock is read by every comparison that needs it;
  \<open>ce_Now\<close> gives the reading at a comparison by its position in the condition, so that no two readings of
  one evaluation need to agree.

  The theorems: over all triggers of an update, a workflow matches at most once, and exactly when its
  contract says so; the intents are one per enabled matching workflow; a comparison with a negative number
  never holds.
\<close>

subsection \<open>Triggers\<close>

text \<open>The changed fields of a record, sorted; a missing key reads as nil.\<close>

definition WorkflowChangedRecordFieldKeys :: "data \<Rightarrow> data \<Rightarrow> string list" where
  "WorkflowChangedRecordFieldKeys before after = sort (filter (\<lambda>k. \<not> deep_equal (data_get before k) (data_get after k))
     (remdups (map fst before @ map fst after)))"

definition WorkflowRecordUpdatedTriggers :: "string \<Rightarrow> data \<Rightarrow> data \<Rightarrow> string list" where
  "WorkflowRecordUpdatedTriggers objectKey before after = (''record_updated:'' @ objectKey) #
     map (\<lambda>fieldKey. ''record_updated:'' @ objectKey @ ''.'' @ fieldKey) (WorkflowChangedRecordFieldKeys before after)"

definition WorkflowTriggerContractTypeIsValid :: "string \<Rightarrow> bool" where
  "WorkflowTriggerContractTypeIsValid triggerType \<longleftrightarrow> trim_space triggerType \<in> set [''manual'', ''record_created'', ''record_updated'',
     ''field_changed'', ''action_completed'', ''scheduled'', ''integration_event'']"

definition workflowTriggerContractMatches :: "WorkflowTriggerContract \<Rightarrow> string \<Rightarrow> string \<Rightarrow> bool" where
  "workflowTriggerContractMatches contract objectKey trigger = (let t = trim_space (tr_Type contract) in
     if tr_ObjectKey contract \<noteq> [] \<and> tr_ObjectKey contract \<noteq> objectKey then False
     else if t = ''record_created'' then trigger = ''record_created:'' @ objectKey
     else if t = ''record_updated'' then trigger = ''record_updated:'' @ objectKey
     else if t = ''field_changed'' then trim_space (tr_FieldKey contract) \<noteq> [] \<and>
       trigger = ''record_updated:'' @ objectKey @ ''.'' @ trim_space (tr_FieldKey contract)
     else if t = ''action_completed'' then trim_space (tr_Event contract) \<noteq> [] \<and> trigger = ''action_executed:'' @ trim_space (tr_Event contract)
     else False)"

definition WorkflowTriggerObjectKeys :: "WorkflowSchema \<Rightarrow> string list" where
  "WorkflowTriggerObjectKeys workflow = (case ws_TriggerContract workflow of
      None \<Rightarrow> []
    | Some c \<Rightarrow> uniq_acc [] (filter (\<lambda>v. v \<noteq> []) (map trim_space (tr_ObjectKey c # tr_ObjectKeys c))))"

subsection \<open>Values of a condition\<close>

record 'f condition_env =
  ce_Now :: "nat list \<Rightarrow> int"
  ce_Float :: "string \<Rightarrow> 'f"
  ce_OfInt :: "int \<Rightarrow> 'f"
  ce_Scan :: "string \<Rightarrow> 'f option"
  ce_Minus :: "'f \<Rightarrow> 'f \<Rightarrow> 'f"
  ce_Le :: "'f \<Rightarrow> 'f \<Rightarrow> bool"
  ce_Less :: "'f \<Rightarrow> 'f \<Rightarrow> bool"

definition numericAny :: "'f condition_env \<Rightarrow> gval \<Rightarrow> 'f option" where
  "numericAny env v = (case v of VFloat t \<Rightarrow> Some (ce_Float env t) | VInt i \<Rightarrow> Some (ce_OfInt env i) | VInt64 i \<Rightarrow> Some (ce_OfInt env i)
     | VStr s \<Rightarrow> ce_Scan env s | _ \<Rightarrow> None)"

definition boolAny :: "gval \<Rightarrow> bool option" where
  "boolAny v = (case v of VBool b \<Rightarrow> Some b
     | VStr s \<Rightarrow> (let text = to_lower (trim_space s) in
         if text \<in> set [''true'', ''1'', ''yes''] then Some True else if text \<in> set [''false'', ''0'', ''no''] then Some False else None)
     | _ \<Rightarrow> None)"

text \<open>A term of a difference: the value of the field of this name, or else the number itself.\<close>

definition numeric_term :: "'f condition_env \<Rightarrow> data \<Rightarrow> string \<Rightarrow> 'f option" where
  "numeric_term env data part0 = (let part = trim_space part0 in
     if part = [] then None
     else (case numericAny env (data_get data part) of Some x \<Rightarrow> Some x | None \<Rightarrow> numericAny env (VStr part)))"

fun subtract_terms :: "'f condition_env \<Rightarrow> data \<Rightarrow> 'f \<Rightarrow> string list \<Rightarrow> 'f option" where
  "subtract_terms env data acc [] = Some acc"
| "subtract_terms env data acc (part # parts) = (case numeric_term env data part of
     None \<Rightarrow> None | Some x \<Rightarrow> subtract_terms env data (ce_Minus env acc x) parts)"

definition numericExpressionAny :: "'f condition_env \<Rightarrow> string \<Rightarrow> data \<Rightarrow> 'f option" where
  "numericExpressionAny env expression data = (let text = trim_space expression in
     if text = [] then None
     else (case str_split ''-'' text of
         [] \<Rightarrow> None
       | part # parts \<Rightarrow> (case numeric_term env data part of None \<Rightarrow> None | Some x \<Rightarrow> subtract_terms env data x parts)))"

definition stringListFromAny :: "gval \<Rightarrow> string list" where
  "stringListFromAny v = (case v of VStrs xs \<Rightarrow> xs | VList vs \<Rightarrow> map sprint vs | _ \<Rightarrow> [])"

definition stringInCSV :: "string \<Rightarrow> string \<Rightarrow> bool" where
  "stringInCSV v csv \<longleftrightarrow> list_ex (\<lambda>candidate. equal_fold (trim_space v) (trim_space candidate)) (str_split '','' csv)"

definition truncate_day :: "int \<Rightarrow> int" where
  "truncate_day t = t div day * day"

text \<open>\<open>fmt.Sscan\<close> of the number of days skips leading space, which is trimmed away before.\<close>

definition daysAgoCutoff :: "int \<Rightarrow> string \<Rightarrow> int option" where
  "daysAgoCutoff now v = (case sscan_int (trim_space v) of
     Some days \<Rightarrow> if days < 0 then None else Some (truncate_day (add_days utc_location now (- days))) | None \<Rightarrow> None)"

definition daysAheadCutoff :: "int \<Rightarrow> string \<Rightarrow> int option" where
  "daysAheadCutoff now v = (case sscan_int (trim_space v) of
     Some days \<Rightarrow> if days < 0 then None else Some (truncate_day (add_days utc_location now days)) | None \<Rightarrow> None)"

definition workflowRecordDateOnly :: "gval \<Rightarrow> int option" where
  "workflowRecordDateOnly v = (let text = sprint_trim v in
     if text = [] \<or> text = nil_text then None
     else map_option (\<lambda>n. (n - unix_epoch_days) * day) (parse_date (if 10 \<le> length text then take 10 text else text)))"

text \<open>The layouts with a space between date and time, with a zone or without.\<close>

definition parse_spaced :: "bool \<Rightarrow> string \<Rightarrow> int option" where
  "parse_spaced zoned s =
     Option.bind (parse_civil s) (\<lambda>(n, s1).
     Option.bind (expect (CHR '' '') s1) (\<lambda>s2.
     Option.bind (parse_clock3 s2) (\<lambda>(h, mi, se, s3). (let (ns, s4) = parse_frac s3 in
     Option.bind (if zoned then parse_zone s4 else if s4 = [] then Some 0 else None) (\<lambda>off.
       Some ((n - unix_epoch_days) * day + int h * hour + int mi * minute + (int se - off) * second + int ns))))))"

definition workflowRecordTime :: "gval \<Rightarrow> int option" where
  "workflowRecordTime v = (let text = sprint_trim v in
     if text = [] \<or> text = nil_text then None
     else (case parse_rfc3339 text of Some t \<Rightarrow> Some t
       | None \<Rightarrow> (case parse_spaced True text of Some t \<Rightarrow> Some t | None \<Rightarrow> parse_spaced False text)))"

definition workflowRecordIsEmptyValue :: "gval \<Rightarrow> bool" where
  "workflowRecordIsEmptyValue v = (case v of VNil \<Rightarrow> True | VStr s \<Rightarrow> trim_space s = [] | _ \<Rightarrow> False)"

subsection \<open>Textual conditions\<close>

definition sides :: "string \<Rightarrow> string \<Rightarrow> string \<times> string" where
  "sides sep text = (case str_cut sep text of Some ab \<Rightarrow> ab | None \<Rightarrow> (text, []))"

definition ends_with :: "string \<Rightarrow> string \<Rightarrow> bool" where
  "ends_with text end0 \<longleftrightarrow> suffix end0 text"

definition before_end :: "string \<Rightarrow> string \<Rightarrow> string" where
  "before_end text end0 = trim_space (take (length text - length end0) text)"

definition both :: "('a \<Rightarrow> 'b \<Rightarrow> bool) \<Rightarrow> 'a option \<Rightarrow> 'b option \<Rightarrow> bool" where
  "both p x y = (case (x, y) of (Some a, Some b) \<Rightarrow> p a b | _ \<Rightarrow> False)"

definition field_text :: "data \<Rightarrow> string \<Rightarrow> string" where
  "field_text data part = sprint_trim (data_get data (trim_space part))"

text \<open>The comparisons of a date with a number of days, of a field with a moment, and of two numbers.\<close>

definition compare_days :: "(int \<Rightarrow> int \<Rightarrow> bool) \<Rightarrow> (string \<Rightarrow> int option) \<Rightarrow> string \<Rightarrow> string \<Rightarrow> data \<Rightarrow> bool" where
  "compare_days p cutoff sep text data = (case sides sep text of (field, days) \<Rightarrow>
     both p (workflowRecordDateOnly (data_get data (trim_space field))) (cutoff days))"

definition compare_moment :: "(int \<Rightarrow> int \<Rightarrow> bool) \<Rightarrow> (gval \<Rightarrow> int option) \<Rightarrow> string \<Rightarrow> int \<Rightarrow> string \<Rightarrow> data \<Rightarrow> bool" where
  "compare_moment p read end0 moment text data = both p (read (data_get data (before_end text end0))) (Some moment)"

definition compare_numbers :: "'f condition_env \<Rightarrow> ('f \<Rightarrow> 'f \<Rightarrow> bool) \<Rightarrow> string \<Rightarrow> string \<Rightarrow> data \<Rightarrow> bool" where
  "compare_numbers env p sep text data = (case sides sep text of (left, right) \<Rightarrow>
     both p (numericExpressionAny env left data) (numericExpressionAny env right data))"

definition comparison :: "'f condition_env \<Rightarrow> nat list \<Rightarrow> string \<Rightarrow> data \<Rightarrow> bool" where
  "comparison env path text data = (let now = ce_Now env path; today = truncate_day now in
     if str_contains text '' <= days_ago:'' then compare_days (\<le>) (daysAgoCutoff now) '' <= days_ago:'' text data
     else if str_contains text '' < days_ago:'' then compare_days (<) (daysAgoCutoff now) '' < days_ago:'' text data
     else if str_contains text '' <= days_ahead:'' then compare_days (\<le>) (daysAheadCutoff now) '' <= days_ahead:'' text data
     else if str_contains text '' < days_ahead:'' then compare_days (<) (daysAheadCutoff now) '' < days_ahead:'' text data
     else if ends_with text '' <= today'' then compare_moment (\<le>) workflowRecordDateOnly '' <= today'' today text data
     else if ends_with text '' < today'' then compare_moment (<) workflowRecordDateOnly '' < today'' today text data
     else if ends_with text '' <= now'' then compare_moment (\<le>) workflowRecordTime '' <= now'' now text data
     else if ends_with text '' < now'' then compare_moment (<) workflowRecordTime '' < now'' now text data
     else if ends_with text '' >= now'' then compare_moment (\<ge>) workflowRecordTime '' >= now'' now text data
     else if ends_with text '' > now'' then compare_moment (>) workflowRecordTime '' > now'' now text data
     else if ends_with text '' is empty'' then workflowRecordIsEmptyValue (data_get data (before_end text '' is empty''))
     else if ends_with text '' is present'' then \<not> workflowRecordIsEmptyValue (data_get data (before_end text '' is present''))
     else if str_contains text '' == '' then (case sides '' == '' text of (l, r) \<Rightarrow> equal_fold (field_text data l) (trim_space r))
     else if str_contains text '' != '' then (case sides '' != '' text of (l, r) \<Rightarrow> \<not> equal_fold (field_text data l) (trim_space r))
     else if str_contains text '' not in '' then (case sides '' not in '' text of (l, r) \<Rightarrow> \<not> stringInCSV (field_text data l) r)
     else if str_contains text '' in '' then (case sides '' in '' text of (l, r) \<Rightarrow> stringInCSV (field_text data l) r)
     else if str_contains text '' >= '' then compare_numbers env (\<lambda>a b. ce_Le env b a) '' >= '' text data
     else if str_contains text '' > '' then compare_numbers env (\<lambda>a b. ce_Less env b a) '' > '' text data
     else if str_contains text '' <= '' then compare_numbers env (ce_Le env) '' <= '' text data
     else if str_contains text '' < '' then compare_numbers env (ce_Less env) '' < '' text data
     else False)"

lemma split_shorter:
  assumes "str_contains s sep" and "sep \<noteq> []" and "part \<in> set (str_split sep s)"
  shows "length part < length s"
proof -
  have short: "length p \<le> length s" if "p \<in> set (str_split sep s)" for p s
    using that assms(2)
  proof (induction sep s rule: str_split.induct)
    case (1 sep s)
    then show ?case by (subst (asm) (2) str_split.simps) (fastforce split: option.splits dest: str_cut_Some)
  qed
  obtain a b where c: "str_cut sep s = Some (a, b)" using assms(1) by (auto simp: str_contains_def)
  from str_cut_Some [OF this] have s: "s = a @ sep @ b" .
  have "str_split sep s = a # str_split sep b" using c assms(2) by (subst str_split.simps) simp
  with assms(2,3) s short [of part b] show ?thesis by (cases sep) auto
qed

lemma length_trim_space: "length (trim_space s) \<le> length s"
proof -
  have "length (trim_space s) \<le> length (trim_left s)" unfolding trim_space_def by (rule prefix_length_le [OF prefix_trim_right])
  also have "\<dots> \<le> length s" unfolding trim_left_def by (rule suffix_length_le [OF suffix_strip_pats])
  finally show ?thesis .
qed

lemma length_to_lower [simp]: "length (to_lower s) = length s"
  by (simp add: to_lower_def)

text \<open>The conjunction is split first, so that \<open>or\<close> binds closer than \<open>and\<close>; every part is shorter than the whole.\<close>

function condition_matches :: "'f condition_env \<Rightarrow> nat list \<Rightarrow> string \<Rightarrow> data \<Rightarrow> bool" where
  "condition_matches env path expression data = (let text = trim_space (to_lower expression) in
     if str_contains text '' and ''
       then list_all (\<lambda>(i, part). condition_matches env (i # path) part data) (enumerate 0 (str_split '' and '' text))
     else if str_contains text '' or ''
       then list_ex (\<lambda>(i, part). condition_matches env (i # path) part data) (enumerate 0 (str_split '' or '' text))
     else comparison env path text data)"
  by pat_completeness auto

lemma enumerate_member: "(i, x) \<in> set (enumerate n xs) \<Longrightarrow> x \<in> set xs"
  unfolding enumerate_eq_zip by (rule set_zip_rightD)

lemma part_shorter:
  assumes "str_contains (trim_space (to_lower e)) sep" and "sep \<noteq> []" and "(i, part) \<in> set (enumerate 0 (str_split sep (trim_space (to_lower e))))"
  shows "length part < length e"
proof -
  from split_shorter [OF assms(1,2) enumerate_member [OF assms(3)]] length_trim_space [of "to_lower e"] show ?thesis by simp
qed

termination condition_matches
  by (relation "measure (\<lambda>(env, path, e, data). length e)") (auto dest: part_shorter)

declare condition_matches.simps [simp del]

definition WorkflowConditionExpressionMatches :: "'f condition_env \<Rightarrow> string \<Rightarrow> data \<Rightarrow> bool" where
  "WorkflowConditionExpressionMatches env expression data = condition_matches env [] expression data"

subsection \<open>Condition contracts\<close>

definition trim_prefix :: "string \<Rightarrow> string \<Rightarrow> string" where
  "trim_prefix s p = (if prefix p s then drop (length p) s else s)"

definition resolvePayloadPath :: "data \<Rightarrow> string \<Rightarrow> gval" where
  "resolvePayloadPath data field0 = (let field = trim_prefix (trim_prefix (trim_prefix (trim_space field0) ''$'') ''record.'') ''after.'' in
     if field = [] then VNil else data_get data field)"

function contract_matches :: "'f condition_env \<Rightarrow> nat list \<Rightarrow> WorkflowConditionContract \<Rightarrow> data \<Rightarrow> data \<Rightarrow> bool" where
  "contract_matches env path c data before = (let t = valueOrDefault (trim_space (wc_Type c)) ''always'' in
     if t = ''always'' then True
     else if t = ''field_equals'' then deep_equal (resolvePayloadPath data (wc_Field c)) (wc_Value c)
     else if t = ''field_changed'' then \<not> deep_equal (resolvePayloadPath before (wc_Field c)) (resolvePayloadPath data (wc_Field c))
     else if t = ''expression'' then condition_matches env path (wc_Expression c) data
     else if t = ''all'' \<or> t = ''and''
       then list_all (\<lambda>(i, child). contract_matches env (i # path) child data before) (enumerate 0 (wc_Conditions c))
     else if t = ''any'' \<or> t = ''or''
       then list_ex (\<lambda>(i, child). contract_matches env (i # path) child data before) (enumerate 0 (wc_Conditions c))
     else if t = ''not'' then (case wc_Condition c of None \<Rightarrow> False | Some child \<Rightarrow> \<not> contract_matches env (0 # path) child data before)
     else False)"
  by pat_completeness auto

lemma child_smaller: "(i, child) \<in> set (enumerate 0 (wc_Conditions c)) \<Longrightarrow> size child < size c"
proof (cases c)
  case (WorkflowConditionContract t f v e op0 cs o1 fs)
  assume "(i, child) \<in> set (enumerate 0 (wc_Conditions c))"
  then have "child \<in> set cs" using WorkflowConditionContract enumerate_member by fastforce
  from size_list_estimation' [OF this order_refl, of size] show ?thesis unfolding WorkflowConditionContract by simp
qed

lemma only_child_smaller: "wc_Condition c = Some child \<Longrightarrow> size child < size c"
  by (cases c) auto

termination contract_matches
  by (relation "measure (\<lambda>(env, path, c, data, before). size c)") (auto dest: child_smaller only_child_smaller)

declare contract_matches.simps [simp del]

definition WorkflowConditionContractMatches :: "'f condition_env \<Rightarrow> WorkflowConditionContract \<Rightarrow> data \<Rightarrow> data \<Rightarrow> bool" where
  "WorkflowConditionContractMatches env c data before = contract_matches env [] c data before"

definition workflowConditionMatchesChange :: "'f condition_env \<Rightarrow> WorkflowSchema \<Rightarrow> data \<Rightarrow> data \<Rightarrow> bool" where
  "workflowConditionMatchesChange env workflow data before = (case ws_ConditionContract workflow of
      None \<Rightarrow> True
    | Some c \<Rightarrow> trim_space (wc_Type c) = [] \<or> WorkflowConditionContractMatches env c data before)"

definition WorkflowConditionMatches :: "'f condition_env \<Rightarrow> WorkflowSchema \<Rightarrow> data \<Rightarrow> bool" where
  "WorkflowConditionMatches env workflow data = workflowConditionMatchesChange env workflow data []"

definition WorkflowMatchesRecordEvent :: "'f condition_env \<Rightarrow> WorkflowSchema \<Rightarrow> string \<Rightarrow> data \<Rightarrow> data \<Rightarrow> string \<Rightarrow> bool" where
  "WorkflowMatchesRecordEvent env workflow objectKey data before trigger = (case ws_TriggerContract workflow of
      None \<Rightarrow> False
    | Some c \<Rightarrow> trim_space (tr_Type c) \<noteq> [] \<and> workflowTriggerContractMatches c objectKey trigger \<and>
        workflowConditionMatchesChange env workflow data before)"

definition structuredWorkflowConditionMatches :: "data \<Rightarrow> data \<Rightarrow> bool" where
  "structuredWorkflowConditionMatches condition data = (let field = sprint_trim (data_get condition ''field'') in
     if condition = [] \<or> field = [] \<or> field = nil_text then True
     else (let actual = sprint_trim (data_get data field) in
       if map_has condition ''equals'' then equal_fold actual (sprint_trim (data_get condition ''equals''))
       else if map_has condition ''not_equals'' then \<not> equal_fold actual (sprint_trim (data_get condition ''not_equals''))
       else (let listed = stringListFromAny (data_get condition ''in'');
           values0 = (if listed = [] then stringListFromAny (data_get condition ''values'') else listed)
         in values0 = [] \<or> list_ex (\<lambda>v. equal_fold actual (trim_space v)) values0)))"

text \<open>A condition node of a process: its contract on the record after and before the change, or the expression of its configuration.\<close>

definition mapFromAny :: "gval \<Rightarrow> data" where
  "mapFromAny v = (case v of VMap m \<Rightarrow> m | _ \<Rightarrow> [])"

definition workflowProcessConditionMatches :: "'f condition_env \<Rightarrow> WorkflowGraphNode \<Rightarrow> data \<Rightarrow> bool" where
  "workflowProcessConditionMatches env node variables = (case node_contract nc_Condition node of
      Some c \<Rightarrow> (let after = mapFromAny (data_get variables ''after'') in
        WorkflowConditionContractMatches env c (if after = [] then variables else after) (mapFromAny (data_get variables ''before'')))
    | None \<Rightarrow> WorkflowConditionExpressionMatches env (sprint_trim (data_get (gn_Config node) ''expression'')) variables)"

subsection \<open>Intents\<close>

record WorkflowRunSummary =
  su_WorkflowKey :: string
  su_Name :: string
  su_Status :: string
  su_Action :: data
  su_ExecutionID :: string
  su_Message :: string

text \<open>\<open>before\<close> is absent when the record was created.\<close>

definition workflowPayloadForRecordChange :: "string \<Rightarrow> Record \<Rightarrow> data option \<Rightarrow> string \<Rightarrow> data" where
  "workflowPayloadForRecordChange objectKey record0 before trigger = fold (\<lambda>(k, v). AList.update k v)
     ([(''object_key'', VStr objectKey), (''id'', VStr (rec_ID record0)), (''record_id'', VStr (rec_ID record0)),
       (''created_at'', VStr (rec_CreatedAt record0)), (''updated_at'', VStr (rec_UpdatedAt record0)),
       (''after'', VMap (WorkflowCloneMap (rec_Data record0)))] @
      (case before of None \<Rightarrow> []
        | Some b \<Rightarrow> [(''before'', VMap (WorkflowCloneMap b)), (''changed_fields'', VStrs (WorkflowChangedRecordFieldKeys b (rec_Data record0)))]) @
      (if trigger = [] then [] else [(''trigger_event'', VStr trigger)]))
     (WorkflowCloneMap (rec_Data record0))"

text \<open>
  \<open>ti_Action\<close> is the untyped action of a schema, \<open>ti_RequestID\<close> the request of the principal, \<open>ti_Fingerprint\<close>
  the fingerprint of an idempotency key, \<open>ti_Clock\<close> the readings of the clock while the intents are made.
\<close>

record 'f intent_env =
  ti_Condition :: "'f condition_env"
  ti_Action :: "WorkflowSchema \<Rightarrow> data"
  ti_Fingerprint :: "string \<Rightarrow> data \<Rightarrow> string option"
  ti_Clock :: "nat \<Rightarrow> int"

record trigger_event =
  te_ObjectKey :: string
  te_Record :: Record
  te_Before :: "data option"
  te_RequestID :: string
  te_Actor :: Principal
  te_Trigger :: string

definition trigger_payload :: "trigger_event \<Rightarrow> data" where
  "trigger_payload e = fold (\<lambda>(k, v). if v = [] then (\<lambda>d. d) else AList.update k (VStr v))
     [(''request_id'', te_RequestID e), (''initiating_user_id'', pr_UserID (te_Actor e)), (''initiating_role_key'', pr_RoleKey (te_Actor e))]
     (workflowPayloadForRecordChange (te_ObjectKey e) (te_Record e) (te_Before e) (te_Trigger e))"

text \<open>The conditions of the workflow at one position of the iteration read the clock at positions of their own.\<close>

definition at_workflow :: "nat \<Rightarrow> 'f condition_env \<Rightarrow> 'f condition_env" where
  "at_workflow j env = env \<lparr> ce_Now := \<lambda>path. ce_Now env (path @ [j]) \<rparr>"

definition triggered :: "'f intent_env \<Rightarrow> trigger_event \<Rightarrow> nat \<times> WorkflowSchema \<Rightarrow> bool" where
  "triggered env e = (\<lambda>(j, workflow). ws_Enabled workflow \<and> WorkflowMatchesRecordEvent (at_workflow j (ti_Condition env)) workflow (te_ObjectKey e)
     (rec_Data (te_Record e)) (case te_Before e of None \<Rightarrow> [] | Some b \<Rightarrow> b) (te_Trigger e))"

definition runnable_graph :: "WorkflowSchema \<Rightarrow> bool" where
  "runnable_graph workflow = (case ws_Graph workflow of None \<Rightarrow> False | Some g \<Rightarrow> gs_Version g = 2 \<and> gs_Nodes g \<noteq> [])"

definition workflowTriggerIntentID :: "int \<Rightarrow> string" where
  "workflowTriggerIntentID now = ''intent_'' @ itoa now"

text \<open>The intent that is made as number \<open>k\<close>: its time is one reading of the clock, its id the next one.\<close>

definition trigger_intent :: "'f intent_env \<Rightarrow> trigger_event \<Rightarrow> nat \<Rightarrow> WorkflowSchema \<Rightarrow> WorkflowExecution" where
  "trigger_intent env e k workflow = (let now = format_rfc3339nano (ti_Clock env (2 * k)) in zero_execution \<lparr>
     we_ID := workflowTriggerIntentID (ti_Clock env (2 * k + 1)), we_WorkflowKey := ws_Key workflow, we_Name := ws_Name workflow,
     we_Trigger := te_Trigger e, we_Status := ''pending'', we_ActionType := ''workflow_graph'', we_Action := WorkflowCloneMap (ti_Action env workflow),
     we_Payload := trigger_payload e, we_Result := [(''transactional_intent'', VBool True)], we_ObjectKey := te_ObjectKey e,
     we_RecordID := rec_ID (te_Record e), we_ActorID := pr_UserID (te_Actor e), we_RunAs := WorkflowRunAs workflow,
     we_IdempotencyKey := WorkflowIdempotencyKey (ti_Fingerprint env) workflow (trigger_payload e), we_Attempt := 0,
     we_MaxAttempts := WorkflowMaxAttempts workflow, we_Message := ''workflow.message.queued'', we_CreatedAt := now, we_UpdatedAt := now \<rparr>)"

definition intent_summary :: "'f intent_env \<Rightarrow> WorkflowSchema \<Rightarrow> WorkflowExecution \<Rightarrow> WorkflowRunSummary" where
  "intent_summary env workflow intent = \<lparr> su_WorkflowKey = ws_Key workflow, su_Name = ws_Name workflow, su_Status = we_Status intent,
     su_Action = ti_Action env workflow, su_ExecutionID = we_ID intent, su_Message = we_Message intent \<rparr>"

fun prepare_intents :: "'f intent_env \<Rightarrow> trigger_event \<Rightarrow> nat \<Rightarrow> (nat \<times> WorkflowSchema) list \<Rightarrow>
    engine_error + (WorkflowExecution \<times> WorkflowRunSummary) list" where
  "prepare_intents env e k [] = Inr []"
| "prepare_intents env e k ((j, workflow) # rest) =
     (if \<not> triggered env e (j, workflow) then prepare_intents env e k rest
      else if \<not> runnable_graph workflow then Inl (AppErr \<lparr> err_Kind = KindBadRequest, err_Code = ''backend.workflow.graph_v2_required'',
        err_Params = [(''workflow'', trim_space (ws_Key workflow))] \<rparr>)
      else (let intent = trigger_intent env e k workflow in
        res_bind (prepare_intents env e (Suc k) rest) (\<lambda>made. Inr ((intent, intent_summary env workflow intent) # made))))"

text \<open>
  The workflows are given in the order of the iteration over their map, which Go does not fix. The results
  are sorted by key; the order of equal keys is that of the iteration here and is not fixed in the source.
\<close>

definition WorkflowPrepareTriggerIntents :: "'f intent_env \<Rightarrow> engine_error option \<Rightarrow> WorkflowSchema list \<Rightarrow> trigger_event \<Rightarrow>
    engine_error + WorkflowExecution list \<times> WorkflowRunSummary list" where
  "WorkflowPrepareTriggerIntents env ctx workflows e = (case ctx of
      Some x \<Rightarrow> Inl x
    | None \<Rightarrow> res_bind (prepare_intents env e 0 (enumerate 0 workflows)) (\<lambda>made.
        Inr (sort_key we_WorkflowKey (map fst made), sort_key su_WorkflowKey (map snd made))))"

subsection \<open>A workflow matches an update at most once\<close>

lemma update_triggers_distinct: "distinct (WorkflowRecordUpdatedTriggers objectKey before after)"
  by (auto simp: WorkflowRecordUpdatedTriggers_def WorkflowChangedRecordFieldKeys_def distinct_map inj_on_def)

text \<open>What the contract of a workflow says of the update of a record.\<close>

definition fires_on_update :: "WorkflowTriggerContract \<Rightarrow> string \<Rightarrow> data \<Rightarrow> data \<Rightarrow> bool" where
  "fires_on_update c objectKey before after \<longleftrightarrow> (tr_ObjectKey c = [] \<or> tr_ObjectKey c = objectKey) \<and>
     (trim_space (tr_Type c) = ''record_updated'' \<or> trim_space (tr_Type c) = ''field_changed'' \<and> trim_space (tr_FieldKey c) \<noteq> [] \<and>
        \<not> deep_equal (data_get before (trim_space (tr_FieldKey c))) (data_get after (trim_space (tr_FieldKey c))))"

lemma deep_equal_VNil: "deep_equal VNil VNil"
  by simp

lemma changed_field: "k \<in> set (WorkflowChangedRecordFieldKeys before after) \<longleftrightarrow> \<not> deep_equal (data_get before k) (data_get after k)"
proof -
  have "data_get d k = VNil" if "k \<notin> fst ` set d" for d
    using that by (auto simp: map_get_def split: option.split dest!: map_of_SomeD intro: rev_image_eqI)
  then show ?thesis using deep_equal_VNil by (auto simp: WorkflowChangedRecordFieldKeys_def) metis
qed

lemma filter_one_match: "distinct xs \<Longrightarrow> filter (\<lambda>x. x = u) xs = (if u \<in> set xs then [u] else [])"
  by (induction xs) auto

definition update_trigger :: "WorkflowTriggerContract \<Rightarrow> string \<Rightarrow> string" where
  "update_trigger c objectKey = ''record_updated:'' @ objectKey @
     (if trim_space (tr_Type c) = ''record_updated'' then [] else ''.'' @ trim_space (tr_FieldKey c))"

lemma contract_matches_update:
  assumes "t \<in> set (WorkflowRecordUpdatedTriggers objectKey before after)"
  shows "workflowTriggerContractMatches c objectKey t \<longleftrightarrow> fires_on_update c objectKey before after \<and> t = update_trigger c objectKey"
  using assms unfolding workflowTriggerContractMatches_def Let_def
  by (auto simp: WorkflowRecordUpdatedTriggers_def changed_field fires_on_update_def update_trigger_def split: if_splits)

lemma update_trigger_listed:
  "fires_on_update c objectKey before after \<Longrightarrow> update_trigger c objectKey \<in> set (WorkflowRecordUpdatedTriggers objectKey before after)"
  by (auto simp: WorkflowRecordUpdatedTriggers_def changed_field fires_on_update_def update_trigger_def)


subsection \<open>One intent for each workflow that matches\<close>

definition made_intent :: "'f intent_env \<Rightarrow> trigger_event \<Rightarrow> nat \<times> WorkflowSchema \<Rightarrow> WorkflowExecution \<times> WorkflowRunSummary" where
  "made_intent env e = (\<lambda>(i, w). (trigger_intent env e i w, intent_summary env w (trigger_intent env e i w)))"

lemma prepared:
  assumes "prepare_intents env e k ws = Inr made"
  shows "made = map (made_intent env e) (enumerate k (map snd (filter (triggered env e) ws))) \<and> (\<forall>(j, w) \<in> set (filter (triggered env e) ws). runnable_graph w)"
  using assms
proof (induction env e k ws arbitrary: made rule: prepare_intents.induct)
  case (2 env e k j w rest)
  show ?case
  proof (cases "triggered env e (j, w)")
    case True
    with 2(3) obtain made' where "runnable_graph w" "prepare_intents env e (Suc k) rest = Inr made'"
        "made = (trigger_intent env e k w, intent_summary env w (trigger_intent env e k w)) # made'"
      by (auto simp: Let_def res_bind_Inr split: if_splits)
    with True 2(2) [OF _ _ refl, of made'] show ?thesis by (simp add: made_intent_def)
  next
    case False
    with 2 show ?thesis by simp
  qed
qed simp

lemma intent_fields: "we_WorkflowKey (trigger_intent env e i w) = ws_Key w" "we_ID (trigger_intent env e i w) = workflowTriggerIntentID (ti_Clock env (2 * i + 1))"
  "we_Status (trigger_intent env e i w) = ''pending''" "we_Payload (trigger_intent env e i w) = trigger_payload e"
  "we_IdempotencyKey (trigger_intent env e i w) = WorkflowIdempotencyKey (ti_Fingerprint env) w (trigger_payload e)"
  "su_WorkflowKey (intent_summary env w x) = ws_Key w"
  by (simp_all add: trigger_intent_def intent_summary_def Let_def)

lemma made_fields:
  "map (we_WorkflowKey \<circ> fst) (map (made_intent env e) (enumerate k ws)) = map ws_Key ws"
  "map (su_WorkflowKey \<circ> snd) (map (made_intent env e) (enumerate k ws)) = map ws_Key ws"
  "map (we_ID \<circ> fst) (map (made_intent env e) (enumerate k ws)) = map (\<lambda>i. workflowTriggerIntentID (ti_Clock env (2 * i + 1))) [k..<k + length ws]"
  by (induction ws arbitrary: k) (simp_all add: made_intent_def intent_fields upt_conv_Cons del: upt_Suc)

lemma map_sort_key: "map key (sort_key key xs) = sort (map key xs)"
  by (rule properties_for_sort [symmetric]) (simp_all add: mset_map)

lemma intent_id_inject: "workflowTriggerIntentID a = workflowTriggerIntentID b \<longleftrightarrow> a = b"
  unfolding workflowTriggerIntentID_def by (metis append_same_eq parse_int_itoa same_append_eq option.inject)

text \<open>
  C40: the intents of an event are exactly those of the workflows that match it. When the intents of an
  event are prepared, there is one for every enabled workflow whose trigger and condition match, and one
  summary, both in the order of the workflow keys; each intent is pending, carries the payload of the change and
  the idempotency key of its workflow over that payload, and belongs to a workflow with a graph that can run. The ids
  of the intents differ exactly when the clock did not show one instant twice while they were made.
\<close>

theorem intents_of_triggered_workflows:
  assumes "WorkflowPrepareTriggerIntents env ctx workflows e = Inr (intents, summaries)"
  shows "map we_WorkflowKey intents = sort (map (ws_Key \<circ> snd) (filter (triggered env e) (enumerate 0 workflows))) \<and>
    map su_WorkflowKey summaries = map we_WorkflowKey intents \<and>
    (\<forall>x \<in> set intents. \<exists>w \<in> set workflows. ws_Enabled w \<and> runnable_graph w \<and> we_WorkflowKey x = ws_Key w \<and> we_Status x = ''pending'' \<and>
       we_Payload x = trigger_payload e \<and> we_IdempotencyKey x = WorkflowIdempotencyKey (ti_Fingerprint env) w (trigger_payload e)) \<and>
    (distinct (map we_ID intents) \<longleftrightarrow> inj_on (\<lambda>i. ti_Clock env (2 * i + 1)) {0..<length intents})"
proof -
  from assms obtain made where m: "prepare_intents env e 0 (enumerate 0 workflows) = Inr made"
      and r: "intents = sort_key we_WorkflowKey (map fst made)" "summaries = sort_key su_WorkflowKey (map snd made)"
    by (auto simp: WorkflowPrepareTriggerIntents_def res_bind_Inr split: option.splits)
  let ?picks = "map snd (filter (triggered env e) (enumerate 0 workflows))"
  note p = conjunct1 [OF prepared [OF m]]
  have keys: "map (we_WorkflowKey \<circ> fst) made = map ws_Key ?picks" "map (su_WorkflowKey \<circ> snd) made = map ws_Key ?picks"
      "map (we_ID \<circ> fst) made = map (\<lambda>i. workflowTriggerIntentID (ti_Clock env (2 * i + 1))) [0..<length made]"
    unfolding p using made_fields [of env e 0 ?picks] by simp_all
  have each: "\<exists>w \<in> set workflows. ws_Enabled w \<and> runnable_graph w \<and> we_WorkflowKey x = ws_Key w \<and> we_Status x = ''pending'' \<and>
       we_Payload x = trigger_payload e \<and> we_IdempotencyKey x = WorkflowIdempotencyKey (ti_Fingerprint env) w (trigger_payload e)" if "x \<in> set intents" for x
  proof -
    from that r(1) p obtain i w where x: "x = trigger_intent env e i w" "(i, w) \<in> set (enumerate 0 ?picks)" by (auto simp: made_intent_def)
    from enumerate_member [OF x(2)] obtain j where j: "(j, w) \<in> set (enumerate 0 workflows)" "triggered env e (j, w)" by auto
    with prepared [OF m] have "runnable_graph w" by auto
    with j enumerate_member [OF j(1)] x(1) show ?thesis by (auto simp: triggered_def intent_fields)
  qed
  have "mset (map we_ID intents) = mset (map (we_ID \<circ> fst) made)" unfolding r by (simp add: mset_map image_mset.compositionality)
  then have "distinct (map we_ID intents) \<longleftrightarrow> distinct (map (\<lambda>i. workflowTriggerIntentID (ti_Clock env (2 * i + 1))) [0..<length made])"
    unfolding keys(3) by (rule mset_eq_imp_distinct_iff)
  also have "\<dots> \<longleftrightarrow> inj_on (\<lambda>i. ti_Clock env (2 * i + 1)) {0..<length intents}"
    using r(1) by (simp add: distinct_map inj_on_def intent_id_inject)
  finally show ?thesis using each keys(1,2) unfolding r map_sort_key by (simp add: o_def)
qed

subsection \<open>Negative numbers\<close>

text \<open>
  A difference is split at every minus sign, so a term that starts with one has an empty first part: a
  comparison with a negative number does not hold, whatever the field.
\<close>

lemma negative_term: "trim_space expression = CHR ''-'' # t \<Longrightarrow> numericExpressionAny env expression data = None"
proof -
  assume e: "trim_space expression = CHR ''-'' # t"
  have "str_cut ''-'' (CHR ''-'' # t) = Some ([], t)" by simp
  then have "str_split ''-'' (CHR ''-'' # t) = [] # str_split ''-'' t" by (subst str_split.simps) simp
  with e show ?thesis by (simp add: numericExpressionAny_def numeric_term_def)
qed

lemma negative_bound_never_holds:
  assumes "sides sep text = (l, r)" and "trim_space r = CHR ''-'' # t"
  shows "\<not> compare_numbers env p sep text data"
  using assms negative_term [OF assms(2), of env data] by (auto simp: compare_numbers_def both_def split: option.splits)

subsection \<open>Witnesses\<close>

text \<open>Numbers that are integers, and a clock that advances with every reading.\<close>

definition example_conditions :: "int condition_env" where
  "example_conditions = \<lparr> ce_Now = (\<lambda>path. int (length path)), ce_Float = (\<lambda>_. 0), ce_OfInt = (\<lambda>i. i), ce_Scan = parse_int,
     ce_Minus = (-), ce_Le = (\<le>), ce_Less = (<) \<rparr>"

definition status_trigger :: WorkflowTriggerContract where
  "status_trigger = \<lparr> tr_Type = ''field_changed '', tr_ObjectKey = ''task'', tr_ObjectKeys = [], tr_FieldKey = ''status'', tr_Offset = [], tr_Event = [] \<rparr>"

definition status_workflow :: "string \<Rightarrow> WorkflowSchema" where
  "status_workflow key = zero_schema \<lparr> ws_Key := key, ws_Enabled := True, ws_TriggerContract := Some status_trigger,
     ws_ConditionContract := Some (WorkflowConditionContract ''expression'' [] VNil ''Amount - fee > 5 and status in open,done or id is present'' [] [] None []),
     ws_Graph := Some example_graph \<rparr>"

abbreviation task_before :: data where
  "task_before \<equiv> [(''status'', VStr ''new''), (''amount'', VInt 9), (''fee'', VStr ''3'')]"

abbreviation task_after :: data where
  "task_after \<equiv> [(''status'', VStr ''Open''), (''amount'', VInt 9), (''fee'', VStr ''3'')]"


definition example_intents :: "int intent_env" where
  "example_intents = \<lparr> ti_Condition = example_conditions, ti_Action = (\<lambda>_. []), ti_Fingerprint = (\<lambda>k d. Some k), ti_Clock = int \<rparr>"

definition status_event :: trigger_event where
  "status_event = \<lparr> te_ObjectKey = ''task'', te_Record = \<lparr> rec_ID = ''r'', rec_Data = task_after, rec_CreatedAt = [], rec_UpdatedAt = [], rec_Deleted = False,
     rec_ExtInfo = None, rec_CreateBy = [], rec_UpdateBy = [], rec_OwnerUserID = [], rec_OwnerOrgID = [] \<rparr>, te_Before = Some task_before, te_RequestID = ''q'',
     te_Actor = example_actor ''u'', te_Trigger = ''record_updated:task.status'' \<rparr>"

definition plain_workflow :: "string \<Rightarrow> bool \<Rightarrow> WorkflowSchema" where
  "plain_workflow key enabled = (status_workflow key) \<lparr> ws_ConditionContract := None, ws_Enabled := enabled \<rparr>"

lemma plain_triggered: "triggered example_intents status_event (j, plain_workflow key enabled) \<longleftrightarrow> enabled" "runnable_graph (plain_workflow key enabled)"
  "ws_Key (plain_workflow key enabled) = key"
proof -
  have "workflowTriggerContractMatches status_trigger ''task'' ''record_updated:task.status''" "trim_space (tr_Type status_trigger) \<noteq> []" by code_simp+
  then show "triggered example_intents status_event (j, plain_workflow key enabled) \<longleftrightarrow> enabled"
    by (simp add: triggered_def plain_workflow_def status_workflow_def status_event_def WorkflowMatchesRecordEvent_def workflowConditionMatchesChange_def)
qed (simp_all add: runnable_graph_def plain_workflow_def status_workflow_def example_graph_def example_nodes_def)

theorem intents_of_triggered_workflows_witness:
  "\<exists>intents summaries. WorkflowPrepareTriggerIntents example_intents None [plain_workflow ''b'' True, plain_workflow ''c'' False, plain_workflow ''a'' True]
     status_event = Inr (intents, summaries) \<and> map we_WorkflowKey intents = [''a'', ''b''] \<and> distinct (map we_ID intents) \<and> map su_WorkflowKey summaries = [''a'', ''b'']"
proof -
  let ?ws = "[plain_workflow ''b'' True, plain_workflow ''c'' False, plain_workflow ''a'' True]"
  have "\<exists>intents summaries. WorkflowPrepareTriggerIntents example_intents None ?ws status_event = Inr (intents, summaries) \<and>
      map we_WorkflowKey intents = [''a'', ''b'']"
    by (simp add: WorkflowPrepareTriggerIntents_def Let_def intent_fields plain_triggered)
  then obtain intents summaries where r: "WorkflowPrepareTriggerIntents example_intents None ?ws status_event = Inr (intents, summaries)"
    "map we_WorkflowKey intents = [''a'', ''b'']" by (elim exE conjE)
  note all = intents_of_triggered_workflows [OF r(1)]
  have "inj_on (\<lambda>i. ti_Clock example_intents (2 * i + 1)) {0..<length intents}" by (simp add: inj_on_def example_intents_def)
  with all have "distinct (map we_ID intents)" by (elim conjE) (rule iffD2)
  moreover from all r(2) have "map su_WorkflowKey summaries = [''a'', ''b'']" by (elim conjE) (simp only:)
  ultimately show ?thesis using r by (intro exI conjI)
qed

lemma negative_bound_example:
  "\<not> WorkflowConditionExpressionMatches example_conditions ''balance > -5'' [(''balance'', VInt 3)]"
  "WorkflowConditionExpressionMatches example_conditions ''balance > 5'' [(''balance'', VInt 7)]"
  by code_simp+

end
