(* ===== verification/Workflow_Start.thy ===== *)
theory Workflow_Start
  imports Workflow_Command Workflow_Condition Workflow_Receipt
begin

text \<open>
  The start of executions (\<open>runtime/application/workflow\<close>: \<open>workflow_process_bridge_application_service.go\<close>,
  \<open>workflow_execution_idempotency_application_service.go\<close>, \<open>workflow_process_execution_link_application_service.go\<close>,
  \<open>workflow_record_execution_application_service.go\<close> and the commands of
  \<open>workflow_execution_application_service.go\<close>): a request claims the receipt of its idempotency key, the
  process engine runs the graph, the execution row of the process is stored and the receipt completed; a
  request that was served before is answered from the receipt. Record events start the workflows that match;
  committed intents are claimed and run; failed executions are retried, and dead letters resolved, by hand.

  Parameters are the registry of workflows, the fingerprints, the codes of the idempotency errors (all of the
  foundation or the metadata library), the schema of the application and the reader of records. Audit entries and
  telemetry are not part of the state.

  The theorems: a request that was served is answered again with the same execution and starts nothing; every
  operation changes the tables only by steps of the store.
\<close>

subsection \<open>Environment\<close>

text \<open>
  \<open>xe_Registry\<close> is the list of workflows, in the order the registry gives them, \<open>xe_Get\<close> a workflow by its key, \<open>xe_Action\<close> the
  untyped action of a schema, \<open>xe_Record\<close> the record of an object the schema knows, where it can be read, \<open>xe_RequestID\<close> the
  request of a principal.
\<close>

record 'f start_env =
  xe_Engine :: engine_env
  xe_Graph :: Workflow_Graph.workflow_env
  xe_Receipt :: receipt_env
  xe_Condition :: "'f condition_env"
  xe_Registry :: "WorkflowSchema list"
  xe_Get :: "string \<Rightarrow> WorkflowSchema option"
  xe_Action :: "WorkflowSchema \<Rightarrow> data"
  xe_KeyFingerprint :: "string \<Rightarrow> data \<Rightarrow> string option"
  xe_ExecutionFingerprint :: "WorkflowSchema \<Rightarrow> data \<Rightarrow> string \<Rightarrow> int \<Rightarrow> string option"
  xe_Api :: apperror_api
  xe_RequestID :: "Principal \<Rightarrow> string"
  xe_Object :: "string \<Rightarrow> bool"
  xe_Record :: "string \<Rightarrow> string \<Rightarrow> string \<Rightarrow> Principal \<Rightarrow> Record option"
  xe_KeyReused :: string
  xe_InProgress :: string
  xe_ReceiptUnavailable :: string

abbreviation xe_Store :: "'f start_env \<Rightarrow> Workflow_Store.workflow_env" where
  "xe_Store xe \<equiv> ee_Store (xe_Engine xe)"

text \<open>What \<open>errors.As\<close> finds in an error of the engine.\<close>

definition go_error_of :: "engine_error \<Rightarrow> go_error" where
  "go_error_of e = (case e of
      AppErr a \<Rightarrow> AppError a
    | InternalErr op c \<Rightarrow> AppError \<lparr> err_Kind = KindInternal, err_Code = ''backend.internal'', err_Params = [(''operation'', op)] \<rparr>
    | BusinessErr code params \<Rightarrow> OtherError
    | OtherErr t \<Rightarrow> OtherError)"

definition mark_failed :: "'f start_env \<Rightarrow> WorkflowExecution \<Rightarrow> WorkflowSchema \<Rightarrow> engine_error \<Rightarrow> int \<Rightarrow> WorkflowExecution" where
  "mark_failed xe execution workflow e now = WorkflowMarkFailed (xe_Api xe) execution workflow (Some (go_error_of e)) now"

definition clock_text :: "engine_env \<Rightarrow> string engine" where
  "clock_text env = do { t \<leftarrow> clock env; ret (format_rfc3339 t) }"

subsection \<open>Receipts of a request\<close>

definition workflowWorkspaceID :: "string \<Rightarrow> string" where
  "workflowWorkspaceID v = trim_space v"

definition execution_claim :: "'f start_env \<Rightarrow> WorkflowSchema \<Rightarrow> Principal \<Rightarrow> string \<Rightarrow> string \<Rightarrow> string \<Rightarrow> int \<Rightarrow> bool \<Rightarrow>
    WorkflowExecutionClaimRequest" where
  "execution_claim xe workflow actor key fingerprint owner now prevent = \<lparr> cq_Receipt = zero_receipt \<lparr>
       rr_WorkspaceID := workflowWorkspaceID (pr_WorkspaceID actor), rr_WorkflowKey := ws_Key workflow, rr_IdempotencyKey := key \<rparr>,
     cq_RequestFingerprint = fingerprint, cq_LeaseOwner = owner, cq_LeaseTTL = 5 * minute, cq_Now = now, cq_PreventReclaim = prevent \<rparr>"

text \<open>The execution a completed receipt names.\<close>

definition replayed_execution :: "'f start_env \<Rightarrow> WorkflowSchema \<Rightarrow> Principal \<Rightarrow> string \<Rightarrow> bool \<Rightarrow> WorkflowExecutionClaimResult \<Rightarrow>
    (engine_error + WorkflowExecution) engine" where
  "replayed_execution xe workflow actor key prevent claim = (let unavailable = conflict (xe_ReceiptUnavailable xe) [] in
     if trim_space (rr_ExecutionID (cr_Receipt claim)) = [] then ret (Inl unavailable)
     else tries (reads_or ''read workflow execution replay''
         (read_db (GetExecution (xe_Store xe) (rr_WorkspaceID (cr_Receipt claim)) (rr_ExecutionID (cr_Receipt claim))))) (\<lambda>found.
       (case found of
          None \<Rightarrow> ret (Inl unavailable)
        | Some execution \<Rightarrow>
            if prevent \<and> (we_ActorID execution \<noteq> pr_UserID actor \<or> we_WorkspaceID execution \<noteq> pr_WorkspaceID actor \<or>
              we_WorkflowKey execution \<noteq> ws_Key workflow \<or> we_IdempotencyKey execution \<noteq> key) then ret (Inl unavailable)
            else ret (Inr execution))))"

text \<open>The claim, where the request has a key, and the execution it was served with before, if it was.\<close>

definition beginWorkflowExecution :: "'f start_env \<Rightarrow> WorkflowSchema \<Rightarrow> data \<Rightarrow> Principal \<Rightarrow> string \<Rightarrow> string \<Rightarrow> int \<Rightarrow> bool \<Rightarrow> bool \<Rightarrow>
    (engine_error + WorkflowExecutionClaimResult option \<times> WorkflowExecution option) engine" where
  "beginWorkflowExecution xe workflow payload actor trigger key attempt ignore prevent =
     (if trim_space key = [] \<or> ignore then ret (Inr (None, None))
      else (case xe_ExecutionFingerprint xe workflow payload trigger attempt of
          None \<Rightarrow> ret (Inl (internalError ''fingerprint workflow execution''))
        | Some fingerprint \<Rightarrow> do {
            owner \<leftarrow> (let owner = trim_space (xe_RequestID xe actor) in
              if owner = [] then workflowProcessID (xe_Engine xe) ''workflow-claim'' else ret owner);
            now \<leftarrow> clock (xe_Engine xe);
            tries (reads_or ''claim workflow execution''
                (transact (TryBeginExecution (xe_Receipt xe) (execution_claim xe workflow actor key fingerprint owner now prevent)))) (\<lambda>claim.
              (case cr_Decision claim of
                 DecisionAcquired \<Rightarrow> ret (Inr (Some claim, None))
               | DecisionReplay \<Rightarrow> tries (replayed_execution xe workflow actor key prevent claim) (\<lambda>execution.
                   ret (Inr (Some claim, Some execution)))
               | DecisionFingerprintConflict \<Rightarrow> ret (Inl (conflict (xe_KeyReused xe) []))
               | DecisionInProgress \<Rightarrow> ret (Inl (conflict (xe_InProgress xe) []))
               | DecisionUnknown \<Rightarrow> ret (Inl (conflict (xe_ReceiptUnavailable xe) [])))) }))"

definition completeWorkflowExecutionReceipt :: "'f start_env \<Rightarrow> WorkflowExecutionClaimResult option \<Rightarrow> WorkflowExecution \<Rightarrow>
    workflow_error option engine" where
  "completeWorkflowExecutionReceipt xe claim execution = (case claim of
      None \<Rightarrow> ret None
    | Some claim \<Rightarrow> (let receipt = cr_Receipt claim in
        if cr_Decision claim \<noteq> DecisionAcquired \<or> trim_space (rr_ID receipt) = [] then ret None
        else do {
          now \<leftarrow> clock (xe_Engine xe);
          later \<leftarrow> clock (xe_Engine xe);
          transact (CompleteExecutionReceipt (xe_Receipt xe) \<lparr> rc_WorkspaceID = rr_WorkspaceID receipt, rc_ReceiptID = rr_ID receipt,
            rc_ExecutionID = we_ID execution, rc_LeaseOwner = rr_LeaseOwner receipt, rc_FencingToken = rr_FencingToken receipt,
            rc_ExpiresAt = later + 90 * day, rc_Now = now \<rparr>) }))"

subsection \<open>Starting a process with its execution\<close>

text \<open>The last node with an error is the node of a failed execution; nodes that can not be read are taken for none.\<close>

definition failure_node :: "WorkflowNodeInstance list \<Rightarrow> WorkflowNodeInstance option" where
  "failure_node nodes = find (\<lambda>n. \<not> (wn_ErrorCode n = [] \<and> wn_Status n \<noteq> ''configuration_error'')) (rev nodes)"

definition started_execution :: "'f start_env \<Rightarrow> WorkflowSchema \<Rightarrow> WorkflowProcessInstance \<Rightarrow> data \<Rightarrow> Principal \<Rightarrow> string \<Rightarrow> int \<Rightarrow> string \<Rightarrow>
    WorkflowExecution" where
  "started_execution xe workflow process payload actor trigger attempt key = zero_execution \<lparr> we_ID := wp_ID process,
     we_WorkflowKey := ws_Key workflow, we_Name := ws_Name workflow, we_Trigger := trigger, we_ActionType := ''workflow_graph'',
     we_Action := WorkflowCloneMap (xe_Action xe workflow), we_Payload := WorkflowCloneMap payload, we_ProcessID := wp_ID process,
     we_ObjectKey := wp_ObjectKey process, we_RecordID := wp_RecordID process, we_ActorID := pr_UserID actor, we_RunAs := WorkflowRunAs workflow,
     we_IdempotencyKey := key, we_Attempt := attempt, we_MaxAttempts := WorkflowMaxAttempts workflow, we_CreatedAt := wp_CreatedAt process \<rparr>"

definition failedWorkflowProcessExecution :: "'f start_env \<Rightarrow> WorkflowSchema \<Rightarrow> WorkflowProcessInstance \<Rightarrow> data \<Rightarrow> Principal \<Rightarrow> string \<Rightarrow> int \<Rightarrow>
    string \<Rightarrow> engine_error \<Rightarrow> WorkflowExecution engine" where
  "failedWorkflowProcessExecution xe workflow process payload actor trigger attempt key processErr = do {
     now \<leftarrow> clock (xe_Engine xe);
     let execution = mark_failed xe ((started_execution xe workflow process payload actor trigger attempt key) \<lparr> we_WorkspaceID := wp_WorkspaceID process,
       we_Status := ''running'', we_Result := [(''process_id'', VStr (wp_ID process)), (''definition_hash'', VStr (wp_DefinitionHash process))],
       we_UpdatedAt := format_rfc3339 now \<rparr>) workflow processErr now;
     nodes \<leftarrow> read_db (ListNodes (xe_Store xe) (wp_WorkspaceID process) (wp_ID process));
     ret (case failure_node (case nodes of Inl e \<Rightarrow> [] | Inr ns \<Rightarrow> ns) of
        None \<Rightarrow> execution
      | Some n \<Rightarrow> set_result ''node_instance_id'' (VStr (wn_ID n)) (set_result ''node_id'' (VStr (wn_NodeID n))
          (execution \<lparr> we_NodeID := wn_NodeID n \<rparr>))) }"

text \<open>The execution row, then the receipt.\<close>

definition store_execution :: "'f start_env \<Rightarrow> WorkflowExecutionClaimResult option \<Rightarrow> WorkflowExecution \<Rightarrow> string \<Rightarrow> string \<Rightarrow> Principal \<Rightarrow>
    (engine_error + unit) engine" where
  "store_execution xe claim execution insertOp completeOp actor =
     tries (store_or insertOp (InsertExecution (xe_Store xe) (pr_WorkspaceID actor) execution)) (\<lambda>_. do {
       e \<leftarrow> completeWorkflowExecutionReceipt xe claim execution;
       check (internal completeOp e) })"

definition executeWorkflowGraphProcessWithIdempotencyKey :: "'f start_env \<Rightarrow> WorkflowSchema \<Rightarrow> data \<Rightarrow> Principal \<Rightarrow> string \<Rightarrow> string \<Rightarrow> int \<Rightarrow>
    bool \<Rightarrow> bool \<Rightarrow> (engine_error + WorkflowExecution) engine" where
  "executeWorkflowGraphProcessWithIdempotencyKey xe workflow payload actor trigger key attempt ignore prevent =
     tries (beginWorkflowExecution xe workflow payload actor trigger key attempt ignore prevent) (\<lambda>(claim, replay). (case replay of
        Some execution \<Rightarrow> ret (Inr (if prefix ''scheduled:'' (trim_space trigger)
          then execution \<lparr> we_Status := ''duplicate'', we_Message := ''workflow.message.duplicateSkipped'' \<rparr> else execution))
      | None \<Rightarrow> do {
          (process, err) \<leftarrow> Start (xe_Engine xe) (xe_Graph xe) workflow payload actor;
          (case err of
             Some e \<Rightarrow>
               if wp_ID process = [] then ret (Inl e)
               else do {
                 execution \<leftarrow> failedWorkflowProcessExecution xe workflow process payload actor trigger attempt key e;
                 tries (store_execution xe claim execution ''insert failed workflow process execution'' ''complete failed workflow execution receipt'' actor) (\<lambda>_. do {
                   _ \<leftarrow> appendEvent (xe_Engine xe) (wp_WorkspaceID process) (wp_ID process) (we_NodeID execution) []
                     (''workflow_execution_'' @ we_Status execution) (pr_UserID actor) (we_LastError execution)
                     [(''execution_id'', VStr (we_ID execution)), (''attempt'', VInt (we_Attempt execution))];
                   ret (Inr execution) }) }
           | None \<Rightarrow> (let execution = (started_execution xe workflow process payload actor trigger attempt key) \<lparr>
                 we_WorkspaceID := pr_WorkspaceID actor, we_Status := wp_Status process,
                 we_Result := [(''process_id'', VStr (wp_ID process)), (''current_node_ids'', VStrs (wp_CurrentNodeIDs process)),
                   (''definition_hash'', VStr (wp_DefinitionHash process))],
                 we_Message := ''workflow.message.processStarted'', we_UpdatedAt := wp_UpdatedAt process \<rparr>
               in tries (store_execution xe claim execution ''insert workflow process execution'' ''complete workflow execution receipt'' actor) (\<lambda>_.
                 ret (Inr execution)))) }))"

definition executeWorkflowAttemptWithIdempotencyKey :: "'f start_env \<Rightarrow> WorkflowSchema \<Rightarrow> data \<Rightarrow> Principal \<Rightarrow> string \<Rightarrow> string \<Rightarrow> int \<Rightarrow>
    bool \<Rightarrow> bool \<Rightarrow> (engine_error + WorkflowExecution) engine" where
  "executeWorkflowAttemptWithIdempotencyKey xe workflow payload actor trigger key attempt ignore prevent =
     (if \<not> runnable_graph workflow then ret (Inl (bad_request ''backend.workflow.graph_v2_required'' [''workflow'', trim_space (ws_Key workflow)]))
      else executeWorkflowGraphProcessWithIdempotencyKey xe workflow payload actor trigger key attempt ignore prevent)"

definition executeWorkflowAttempt :: "'f start_env \<Rightarrow> WorkflowSchema \<Rightarrow> data \<Rightarrow> Principal \<Rightarrow> string \<Rightarrow> int \<Rightarrow> bool \<Rightarrow>
    (engine_error + WorkflowExecution) engine" where
  "executeWorkflowAttempt xe workflow payload actor trigger attempt ignore =
     executeWorkflowAttemptWithIdempotencyKey xe workflow payload actor trigger
       (WorkflowIdempotencyKey (xe_KeyFingerprint xe) workflow payload) attempt ignore False"

definition executeWorkflow :: "'f start_env \<Rightarrow> WorkflowSchema \<Rightarrow> data \<Rightarrow> Principal \<Rightarrow> string \<Rightarrow> (engine_error + WorkflowExecution) engine" where
  "executeWorkflow xe workflow payload actor trigger = executeWorkflowAttempt xe workflow payload actor trigger 1 False"

definition executeWorkflowWithIdempotencyKey :: "'f start_env \<Rightarrow> WorkflowSchema \<Rightarrow> data \<Rightarrow> Principal \<Rightarrow> string \<Rightarrow> string \<Rightarrow>
    (engine_error + WorkflowExecution) engine" where
  "executeWorkflowWithIdempotencyKey xe workflow payload actor trigger key =
     executeWorkflowAttemptWithIdempotencyKey xe workflow payload actor trigger key 1 False False"

definition ExecuteWorkflow :: "'f start_env \<Rightarrow> WorkflowSchema \<Rightarrow> data \<Rightarrow> Principal \<Rightarrow> string \<Rightarrow> (engine_error + WorkflowExecution) engine" where
  "ExecuteWorkflow xe workflow payload actor trigger = tries (check (workflowAuthorizeCommand actor)) (\<lambda>_.
     executeWorkflow xe workflow payload actor trigger)"

subsection \<open>Workflows of a record event\<close>

definition run_summary :: "'f start_env \<Rightarrow> WorkflowSchema \<Rightarrow> WorkflowExecution \<Rightarrow> WorkflowRunSummary" where
  "run_summary xe workflow execution = \<lparr> su_WorkflowKey = ws_Key workflow, su_Name = ws_Name workflow, su_Status = we_Status execution,
     su_Action = xe_Action xe workflow, su_ExecutionID = we_ID execution, su_Message = we_Message execution \<rparr>"

text \<open>The event with its principal; the conditions read the clock at the position of the workflow in the registry.\<close>

definition event_triggers :: "'f start_env \<Rightarrow> trigger_event \<Rightarrow> nat \<times> WorkflowSchema \<Rightarrow> bool" where
  "event_triggers xe e = (\<lambda>(j, workflow). ws_Enabled workflow \<and> WorkflowMatchesRecordEvent (at_workflow j (xe_Condition xe)) workflow (te_ObjectKey e)
     (rec_Data (te_Record e)) (case te_Before e of None \<Rightarrow> [] | Some b \<Rightarrow> b) (te_Trigger e))"

fun run_triggered :: "'f start_env \<Rightarrow> trigger_event \<Rightarrow> (nat \<times> WorkflowSchema) list \<Rightarrow> (engine_error + WorkflowRunSummary list) engine" where
  "run_triggered xe e [] = ret (Inr [])"
| "run_triggered xe e ((j, workflow) # rest) =
     (if \<not> event_triggers xe e (j, workflow) then run_triggered xe e rest
      else tries (executeWorkflow xe workflow (trigger_payload e) (te_Actor e) (te_Trigger e)) (\<lambda>execution.
        tries (run_triggered xe e rest) (\<lambda>out. ret (Inr (run_summary xe workflow execution # out)))))"

definition triggeredWorkflowsWithChange :: "'f start_env \<Rightarrow> trigger_event \<Rightarrow> (engine_error + WorkflowRunSummary list) engine" where
  "triggeredWorkflowsWithChange xe e = tries (run_triggered xe e (enumerate 0 (xe_Registry xe))) (\<lambda>out.
     ret (Inr (sort_key su_WorkflowKey out)))"

definition TriggeredWorkflows :: "'f start_env \<Rightarrow> trigger_event \<Rightarrow> (engine_error + WorkflowRunSummary list) engine" where
  "TriggeredWorkflows xe e = tries (check (workflowAuthorizeCommand (te_Actor e))) (\<lambda>_.
     triggeredWorkflowsWithChange xe (e \<lparr> te_Before := None \<rparr>))"

subsection \<open>Committed intents\<close>

text \<open>
  The row is written as claimed, without a lease; the results of the writes are not looked at. The service has a
  worker store here; without one the code leaves the intents to the polling worker.
\<close>

definition activateCommittedWorkflowStart :: "'f start_env \<Rightarrow> WorkflowSchema \<Rightarrow> WorkflowExecution \<Rightarrow> Principal \<Rightarrow> unit engine" where
  "activateCommittedWorkflowStart xe workflow claimed0 actor = (let
     write = (\<lambda>e. do { _ \<leftarrow> transact (UpdateExecution_store (xe_Store xe) (pr_WorkspaceID actor) e); ret () })
   in do {
     found \<leftarrow> read_db (GetProcess (xe_Store xe) (pr_WorkspaceID actor) (we_ProcessID claimed0));
     at \<leftarrow> clock_text (xe_Engine xe);
     let claimed1 = claimed0 \<lparr> we_Result := WorkflowCloneMap (we_Result claimed0), we_UpdatedAt := at \<rparr>;
     (case found of
        Inr (Some process) \<Rightarrow> do {
          (activated, err) \<leftarrow> activateStartingProcess (xe_Engine xe) process actor;
          at \<leftarrow> clock_text (xe_Engine xe);
          let claimed2 = claimed1 \<lparr> we_UpdatedAt := at \<rparr>;
          (case err of
             Some e \<Rightarrow> do { now \<leftarrow> clock (xe_Engine xe); write (mark_failed xe claimed2 workflow e now) }
           | None \<Rightarrow> write (run_completed (wp_Status activated) (wp_CurrentNodeIDs activated) claimed2)) }
      | _ \<Rightarrow> write (claimed1 \<lparr> we_Status := ''dead_letter'', we_LastError := ''backend.workflow.process_not_found'',
          we_Message := ''workflow.message.processNotFound'' \<rparr>)) })"

definition execute_intent :: "'f start_env \<Rightarrow> Principal \<Rightarrow> WorkflowExecution \<Rightarrow> unit engine" where
  "execute_intent xe actor intent = (case xe_Get xe (we_WorkflowKey intent) of
      None \<Rightarrow> ret ()
    | Some workflow \<Rightarrow> do {
        at \<leftarrow> clock_text (xe_Engine xe);
        let claimed0 = intent \<lparr> we_Status := ''running'', we_UpdatedAt := at \<rparr>;
        updated \<leftarrow> transact (UpdateExecutionWhere_store (xe_Store xe) (pr_WorkspaceID actor) claimed0
          (no_conditions \<lparr> ec_Status := Some ''pending'', ec_UpdatedAt := Some (we_UpdatedAt intent) \<rparr>));
        (case updated of
           Inr True \<Rightarrow>
             if trim_space (we_Trigger intent) = WorkflowRouteStartTrigger then activateCommittedWorkflowStart xe workflow claimed0 actor
             else do {
               r \<leftarrow> executeWorkflowAttempt xe workflow (WorkflowCloneMap (we_Payload intent)) actor (we_Trigger intent) 1 True;
               at \<leftarrow> clock_text (xe_Engine xe);
               let claimed1 = claimed0 \<lparr> we_Result := WorkflowCloneMap (we_Result claimed0), we_UpdatedAt := at \<rparr>;
               settled \<leftarrow> (case r of
                   Inl e \<Rightarrow> do { now \<leftarrow> clock (xe_Engine xe); ret (mark_failed xe claimed1 workflow e now) }
                 | Inr execution \<Rightarrow> ret (set_result ''continued_status'' (VStr (we_Status execution))
                     (set_result ''continued_execution_id'' (VStr (we_ID execution))
                       (claimed1 \<lparr> we_Status := ''skipped'', we_Message := ''workflow.message.retryContinued'' \<rparr>))));
               _ \<leftarrow> transact (UpdateExecution_store (xe_Store xe) (pr_WorkspaceID actor) settled);
               ret () }
         | _ \<Rightarrow> ret ()) })"

fun executeCommittedWorkflowIntents :: "'f start_env \<Rightarrow> WorkflowExecution list \<Rightarrow> Principal \<Rightarrow> unit engine" where
  "executeCommittedWorkflowIntents xe [] actor = ret ()"
| "executeCommittedWorkflowIntents xe (intent # intents) actor = do {
     _ \<leftarrow> execute_intent xe actor intent;
     executeCommittedWorkflowIntents xe intents actor }"

definition ExecuteCommittedWorkflowIntents :: "'f start_env \<Rightarrow> WorkflowExecution list \<Rightarrow> Principal \<Rightarrow> unit engine" where
  "ExecuteCommittedWorkflowIntents xe intents actor = (if workflowAuthorizeCommand actor \<noteq> None then ret ()
     else executeCommittedWorkflowIntents xe intents actor)"

subsection \<open>Retry and resolution by hand\<close>

text \<open>The payload of a retry: that of the execution, or of its record as it is now with the origin of the execution.\<close>

definition carried_keys :: "data \<Rightarrow> data \<Rightarrow> data" where
  "carried_keys payload refreshed = fold (\<lambda>key d. if map_has payload key \<and> \<not> WorkflowValueIsEmpty (data_get payload key)
       then AList.update key (data_get payload key) d else d)
     [''request_id'', ''initiating_user_id'', ''initiating_role_key'', ''scheduled_at''] refreshed"

definition workflowRetryPayload :: "'f start_env \<Rightarrow> string \<Rightarrow> WorkflowExecution \<Rightarrow> Principal \<Rightarrow> data" where
  "workflowRetryPayload xe workspaceID previous actor = (let
     payload = WorkflowCloneMap (we_Payload previous);
     objectKey = valueOrDefault (trim_space (we_ObjectKey previous)) (WorkflowPayloadString payload ''object_key'');
     recordID = valueOrDefault (trim_space (we_RecordID previous)) (WorkflowPayloadString payload ''record_id'')
   in if objectKey = [] \<or> recordID = [] \<or> \<not> xe_Object xe objectKey then payload
      else (case xe_Record xe workspaceID objectKey recordID actor of
          None \<Rightarrow> payload
        | Some record0 \<Rightarrow> (let
            refreshed = carried_keys payload (workflowPayloadForRecordChange objectKey record0 None []);
            refreshed = AList.update ''retry_source_status'' (VStr (we_Status previous))
              (AList.update ''retry_source_execution_id'' (VStr (we_ID previous)) refreshed)
          in if we_LastError previous = [] then refreshed
             else AList.update ''retry_source_last_error'' (VStr (we_LastError previous)) refreshed)))"

record WorkflowRunResult =
  rn_WorkflowKey :: string
  rn_Name :: string
  rn_Status :: string
  rn_Action :: data
  rn_Payload :: data
  rn_Execution :: WorkflowExecution

definition run_result_of :: "'f start_env \<Rightarrow> WorkflowSchema \<Rightarrow> data \<Rightarrow> WorkflowExecution \<Rightarrow> WorkflowRunResult" where
  "run_result_of xe workflow payload execution = \<lparr> rn_WorkflowKey = ws_Key workflow, rn_Name = ws_Name workflow,
     rn_Status = we_Status execution, rn_Action = xe_Action xe workflow, rn_Payload = payload, rn_Execution = execution \<rparr>"

definition with_execution_row :: "'f start_env \<Rightarrow> Principal \<Rightarrow> string \<Rightarrow> (WorkflowExecution \<Rightarrow> (engine_error + 'a) engine) \<Rightarrow> (engine_error + 'a) engine" where
  "with_execution_row xe actor executionID f =
     tries (reads_or ''get workflow execution'' (read_db (GetExecution (xe_Store xe) (pr_WorkspaceID actor) (trim_space executionID)))) (\<lambda>found.
       (case found of None \<Rightarrow> ret (Inl (notFound ''backend.workflow.execution_not_found'')) | Some e \<Rightarrow> f e))"

text \<open>The execution that an earlier retry of the same command, or of any, has left in the row.\<close>

definition retried_before :: "'f start_env \<Rightarrow> string \<Rightarrow> WorkflowExecution \<Rightarrow> Principal \<Rightarrow> (engine_error + WorkflowExecution option) engine" where
  "retried_before xe commandKey previous actor = (let
     storedKey = workflowStringValue (data_get (we_Result previous) (workflowCommandResultField ''execution.retry''));
     retryID = workflowStringValue (data_get (we_Result previous) ''manual_retry_execution_id'')
   in if we_Status previous = ''skipped'' \<and> (storedKey = [] \<or> storedKey = commandKey) \<and> retryID \<noteq> []
      then reads_or ''get workflow retry execution'' (read_db (GetExecution (xe_Store xe) (pr_WorkspaceID actor) retryID))
      else ret (Inr None))"

definition retried_row :: "WorkflowExecution \<Rightarrow> string \<Rightarrow> string \<Rightarrow> Principal \<Rightarrow> string \<Rightarrow> WorkflowExecution" where
  "retried_row previous retryID commandKey actor now =
     set_result (workflowCommandResultField ''execution.retry'') (VStr commandKey)
       (set_result ''manual_retry_requested_by'' (VStr (pr_UserID actor)) (set_result ''manual_retry_execution_id'' (VStr retryID)
         (previous \<lparr> we_Status := ''skipped'', we_NextRunAt := [], we_Message := ''workflow.message.retryContinued'', we_UpdatedAt := now,
            we_Result := WorkflowCloneMap (we_Result previous) \<rparr>)))"

definition RetryWorkflowExecutionWithKey :: "'f start_env \<Rightarrow> string \<Rightarrow> string \<Rightarrow> Principal \<Rightarrow> (engine_error + WorkflowRunResult) engine" where
  "RetryWorkflowExecutionWithKey xe executionID callerKey actor = tries (check (workflowAuthorizeCommand actor)) (\<lambda>_.
     with_execution_row xe actor executionID (\<lambda>previous. (let
       commandKey = workflowCommandKey (xe_Engine xe) ''execution.retry'' (we_ID previous) callerKey [(''attempt'', VInt (wrap64 (we_Attempt previous + 1)))];
       unknown = notFound ''backend.workflow.not_found''
     in tries (retried_before xe commandKey previous actor) (\<lambda>before. (case before of
          Some retryExecution \<Rightarrow> (case xe_Get xe (we_WorkflowKey previous) of
              None \<Rightarrow> ret (Inl unknown)
            | Some workflow \<Rightarrow> ret (Inr (run_result_of xe workflow (we_Payload retryExecution) retryExecution)))
        | None \<Rightarrow>
            if we_Status previous \<noteq> ''failed'' \<and> we_Status previous \<noteq> ''dead_letter'' then ret (Inl (bad_request ''backend.workflow.retry_status_invalid'' []))
            else (case xe_Get xe (we_WorkflowKey previous) of
                None \<Rightarrow> ret (Inl unknown)
              | Some workflow \<Rightarrow> (let nextAttempt = (let n = wrap64 (we_Attempt previous + 1) in if n \<le> 0 then 1 else n) in
                  if nextAttempt > WorkflowMaxAttempts workflow then ret (Inl (bad_request ''backend.workflow.max_attempts_reached'' []))
                  else (let payload = workflowRetryPayload xe (pr_WorkspaceID actor) previous actor in
                    tries (executeWorkflowAttempt xe workflow payload actor (''retry:'' @ we_ID previous) nextAttempt True) (\<lambda>execution. do {
                      now \<leftarrow> clock_text (xe_Engine xe);
                      e \<leftarrow> transact (UpdateExecution_store (xe_Store xe) (pr_WorkspaceID actor) (retried_row previous (we_ID execution) commandKey actor now));
                      (case e of
                         Some c \<Rightarrow> ret (Inl (InternalErr ''mark workflow retry continuation'' (Some c)))
                       | None \<Rightarrow> ret (Inr (run_result_of xe workflow payload execution))) })))))))))"

definition RetryWorkflowExecution :: "'f start_env \<Rightarrow> string \<Rightarrow> Principal \<Rightarrow> (engine_error + WorkflowRunResult) engine" where
  "RetryWorkflowExecution xe executionID actor =
     RetryWorkflowExecutionWithKey xe executionID (''system:'' @ trim_space executionID @ '':retry'') actor"

definition InspectWorkflowExecution :: "'f start_env \<Rightarrow> string \<Rightarrow> Principal \<Rightarrow> (engine_error + WorkflowExecution) engine" where
  "InspectWorkflowExecution xe executionID actor = tries (check (workflowAuthorizeQuery actor)) (\<lambda>_.
     with_execution_row xe actor executionID (\<lambda>e. ret (Inr e)))"

definition resolved_row :: "WorkflowExecution \<Rightarrow> string \<Rightarrow> Principal \<Rightarrow> string \<Rightarrow> WorkflowExecution" where
  "resolved_row execution reason0 actor now = (let
     reason = (if trim_space reason0 = [] then ''Acknowledged and removed from active dead-letter queue'' else trim_space reason0)
   in set_result ''resolve_reason'' (VStr reason) (set_result ''resolved_by'' (VStr (pr_UserID actor)) (set_result ''resolved_at'' (VStr now)
     (set_result ''resolved'' (VBool True) (execution \<lparr> we_Status := ''resolved'', we_NextRunAt := [],
       we_Message := ''workflow.message.deadLetterResolved'', we_UpdatedAt := now, we_Result := WorkflowCloneMap (we_Result execution) \<rparr>)))))"

text \<open>The answer is the execution, whose status and message it repeats.\<close>

definition ResolveWorkflowExecution :: "'f start_env \<Rightarrow> string \<Rightarrow> string \<Rightarrow> Principal \<Rightarrow> (engine_error + WorkflowExecution) engine" where
  "ResolveWorkflowExecution xe executionID reason actor = tries (check (workflowAuthorizeCommand actor)) (\<lambda>_.
     with_execution_row xe actor executionID (\<lambda>execution.
       if we_Status execution = ''resolved'' then ret (Inr execution)
       else if we_Status execution \<noteq> ''dead_letter'' then ret (Inl (bad_request ''backend.workflow.resolve_status_invalid'' []))
       else do {
         now \<leftarrow> clock_text (xe_Engine xe);
         let resolved = resolved_row execution reason actor now;
         e \<leftarrow> transact (UpdateExecution_store (xe_Store xe) (pr_WorkspaceID actor) resolved);
         (case e of
            Some c \<Rightarrow> ret (Inl (InternalErr ''resolve workflow execution'' (Some c)))
          | None \<Rightarrow> ret (Inr resolved)) }))"

subsection \<open>Everything is a step of the store\<close>

lemma db_steps_receipts [steps]:
  "db_steps (transact (TryBeginExecution env q))" "db_steps (transact (CompleteExecutionReceipt env c))"
  "db_steps (store (InsertExecution senv w e))"
  by (rule db_steps_transact, rule workflow_step.Receipt, rule receipt_step.intros)+
    (rule db_steps_store, rule workflow_step.Statement, blast)

lemma db_steps_clock_text [steps]: "db_steps (clock_text env)"
  unfolding clock_text_def by (intro steps)

lemma db_steps_begin [steps]:
  "db_steps (replayed_execution xe workflow actor key prevent claim)"
  "db_steps (beginWorkflowExecution xe workflow payload actor trigger key attempt ignore prevent)"
  "db_steps (completeWorkflowExecutionReceipt xe claim' execution)"
  "db_steps (failedWorkflowProcessExecution xe workflow process payload actor trigger attempt key e)"
  "db_steps (store_execution xe claim' execution a b actor)"
proof -
  show r: "db_steps (replayed_execution xe workflow actor key prevent claim)" for claim
    unfolding replayed_execution_def Let_def by (intro steps)
  show "db_steps (beginWorkflowExecution xe workflow payload actor trigger key attempt ignore prevent)"
    unfolding beginWorkflowExecution_def Let_def by (auto intro!: steps r split: Decision.split option.split)
  show c: "db_steps (completeWorkflowExecutionReceipt xe claim' execution)"
    unfolding completeWorkflowExecutionReceipt_def Let_def by (intro steps)
  show "db_steps (failedWorkflowProcessExecution xe workflow process payload actor trigger attempt key e)"
    unfolding failedWorkflowProcessExecution_def by (intro steps)
  show "db_steps (store_execution xe claim' execution a b actor)"
    unfolding store_execution_def by (intro steps c)
qed

lemma db_steps_attempt:
  assumes "services_keep_steps (xe_Engine xe)"
  shows "db_steps (executeWorkflowAttemptWithIdempotencyKey xe workflow payload actor trigger key attempt ignore prevent)"
    "db_steps (executeWorkflowAttempt xe workflow payload actor trigger attempt ignore)"
    "db_steps (executeWorkflow xe workflow payload actor trigger)"
    "db_steps (ExecuteWorkflow xe workflow payload actor trigger)"
proof -
  have "db_steps (executeWorkflowGraphProcessWithIdempotencyKey xe workflow payload actor trigger key attempt ignore prevent)" for key attempt ignore prevent
    unfolding executeWorkflowGraphProcessWithIdempotencyKey_def Let_def
    by (intro steps db_steps_start assms)
  then show k: "db_steps (executeWorkflowAttemptWithIdempotencyKey xe workflow payload actor trigger key attempt ignore prevent)" for key attempt ignore prevent
    unfolding executeWorkflowAttemptWithIdempotencyKey_def by (intro steps)
  then show a: "db_steps (executeWorkflowAttempt xe workflow payload actor trigger attempt ignore)" for attempt ignore
    unfolding executeWorkflowAttempt_def .
  then show e: "db_steps (executeWorkflow xe workflow payload actor trigger)" unfolding executeWorkflow_def .
  show "db_steps (ExecuteWorkflow xe workflow payload actor trigger)" unfolding ExecuteWorkflow_def by (intro steps e)
qed

lemma db_steps_triggered:
  assumes "services_keep_steps (xe_Engine xe)"
  shows "db_steps (run_triggered xe e ws)" "db_steps (TriggeredWorkflows xe e)"
proof -
  show r: "db_steps (run_triggered xe e ws)" for e ws
    using assms by (induction xe e ws rule: run_triggered.induct) (auto intro!: steps db_steps_attempt)
  show "db_steps (TriggeredWorkflows xe e)"
    unfolding TriggeredWorkflows_def triggeredWorkflowsWithChange_def by (intro steps r)
qed

lemma db_steps_intents:
  assumes "services_keep_steps (xe_Engine xe)"
  shows "db_steps (executeCommittedWorkflowIntents xe intents actor)" "db_steps (ExecuteCommittedWorkflowIntents xe intents actor)"
proof -
  have a: "db_steps (activateCommittedWorkflowStart xe workflow claimed0 actor)" for workflow claimed0
    unfolding activateCommittedWorkflowStart_def Let_def
    by (auto intro!: steps db_steps_start assms split: sum.split option.split)
  have i: "db_steps (execute_intent xe actor intent)" for intent
    unfolding execute_intent_def Let_def
    by (auto intro!: steps a db_steps_attempt assms split: sum.split option.split bool.split)
  show c: "db_steps (executeCommittedWorkflowIntents xe intents actor)" for intents
    by (induction intents) (auto intro!: steps i)
  show "db_steps (ExecuteCommittedWorkflowIntents xe intents actor)"
    unfolding ExecuteCommittedWorkflowIntents_def by (intro steps c)
qed

lemma db_steps_executions:
  assumes "services_keep_steps (xe_Engine xe)"
  shows "db_steps (RetryWorkflowExecutionWithKey xe i key actor)" "db_steps (ResolveWorkflowExecution xe i reason actor)"
proof -
  have w: "(\<And>e. db_steps (f e)) \<Longrightarrow> db_steps (with_execution_row xe actor i f)" for f :: "_ \<Rightarrow> (engine_error + 'b) engine"
    unfolding with_execution_row_def by (intro steps)
  have b: "db_steps (retried_before xe key previous actor)" for key previous
    unfolding retried_before_def Let_def by (intro steps)
  show "db_steps (RetryWorkflowExecutionWithKey xe i key actor)"
    unfolding RetryWorkflowExecutionWithKey_def Let_def
    by (intro steps w b db_steps_attempt assms)
  show "db_steps (ResolveWorkflowExecution xe i reason actor)"
    unfolding ResolveWorkflowExecution_def Let_def by (intro steps w)
qed

subsection \<open>A request is served once\<close>

lemma receipt_id_visible: "trim_space (workflowReceiptID env w k i) \<noteq> []"
proof
  assume "trim_space (workflowReceiptID env w k i) = []"
  from trim_space_Nil_edge [OF this] have "CHR ''w'' \<in> set edge_bytes" by (simp add: workflowReceiptID_def)
  moreover have "CHR ''w'' \<notin> set edge_bytes" by code_simp
  ultimately show False by blast
qed

lemma workspace_idem:
  assumes "requireWorkflowWorkspaceID v = Inr w"
  shows "requireWorkflowWorkspaceID w = Inr w" "w = trim_space v" "requireWorkflowWorkspaceID (trim_space v) = Inr w"
  using assms by (auto simp: requireWorkflowWorkspaceID_def Let_def split: if_splits)

text \<open>The first request of a key inserts its receipt, or is answered with an error.\<close>

lemma try_begin_Inr: "try_begin env q db n i = (db', Inr c) \<Longrightarrow> tryBeginExecutionOnce env q db = (db', Inr c)"
  by (induction n arbitrary: i) (auto split: if_splits option.splits)

lemma first_claim:
  assumes "TryBeginExecution env q db = (db', Inr claim)" and "requireWorkflowWorkspaceID (rr_WorkspaceID (cq_Receipt q)) = Inr w"
    and "\<forall>r \<in> set (db_Receipts db). receipt_identity r \<noteq> (w, trim_space (rr_WorkflowKey (cq_Receipt q)), trim_space (rr_IdempotencyKey (cq_Receipt q)))"
  obtains now where "cr_Decision claim = DecisionAcquired" "cr_Receipt claim = new_receipt env q w now"
    "db' = db \<lparr> db_Receipts := db_Receipts db @ [new_receipt env q w now] \<rparr>"
proof -
  from assms(1) have once: "tryBeginExecutionOnce env q db = (db', Inr claim)" unfolding TryBeginExecution_def by (rule try_begin_Inr)
  define now where "now = (if cq_Now q = zero_time then re_Now env else cq_Now q)"
  let ?r = "new_receipt env q w now"
  have r: "rr_WorkflowKey ?r = trim_space (rr_WorkflowKey (cq_Receipt q))" "rr_IdempotencyKey ?r = trim_space (rr_IdempotencyKey (cq_Receipt q))"
    by (simp_all add: new_receipt_def Let_def)
  have none: "findExecutionReceipt w (rr_WorkflowKey ?r) (rr_IdempotencyKey ?r) db = Inr None"
    unfolding findExecutionReceipt_def read_in_def workspace_idem(1) [OF assms(2)] r trim_space_idem
    using assms(3) by (simp add: find_None_iff)
  have "insertTx receipt_clash ?r (db_Receipts db) \<noteq> None"
  proof
    assume "insertTx receipt_clash ?r (db_Receipts db) = None"
    with once none show False by (simp add: tryBeginExecutionOnce_def assms(2) now_def [symmetric] Let_def)
  qed
  then obtain rows where rows: "insertTx receipt_clash ?r (db_Receipts db) = Some rows" by blast
  then have "rows = db_Receipts db @ [?r]" by (auto simp: insertTx_def split: if_splits)
  with once rows show thesis
    by (intro that [of now]) (auto simp: tryBeginExecutionOnce_def assms(2) now_def [symmetric] Let_def claimed_def)
qed

text \<open>A completed receipt answers every later request of its key and fingerprint.\<close>

definition replays_completed :: "receipt_env \<Rightarrow> bool" where
  "replays_completed env \<longleftrightarrow> (\<forall>st fingerprint now. st_Status st = ''succeeded'' \<and> st_Fingerprint st = fingerprint \<longrightarrow>
     re_Classify env st fingerprint now = DecisionReplay)"

lemma completed_replays:
  assumes "r \<in> set (db_Receipts db)" "rr_Status r = ''succeeded''" "receipts_unique db" "replays_completed env" "\<not> re_Busy env 0"
    and "requireWorkflowWorkspaceID (rr_WorkspaceID (cq_Receipt q)) = Inr w"
    and "receipt_identity r = (w, trim_space (rr_WorkflowKey (cq_Receipt q)), trim_space (rr_IdempotencyKey (cq_Receipt q)))"
    and "rr_RequestFingerprint r = trim_space (cq_RequestFingerprint q)"
  shows "TryBeginExecution env q db = (db, claimed DecisionReplay r)"
proof -
  define now where "now = (if cq_Now q = zero_time then re_Now env else cq_Now q)"
  let ?r = "new_receipt env q w now"
  have n: "receipt_identity ?r = receipt_identity r" "rr_RequestFingerprint ?r = rr_RequestFingerprint r"
    by (simp_all add: new_receipt_def Let_def assms(7,8))
  have clash: "insertTx receipt_clash ?r (db_Receipts db) = None"
    using assms(1) n(1) by (auto simp: insertTx_def receipt_clash_def)
  have ids: "distinct (map receipt_identity (db_Receipts db))" using assms(3) by (simp add: receipts_unique_def)
  have "find (\<lambda>x. receipt_identity x = receipt_identity r) (db_Receipts db) = Some r"
    by (rule find_key [OF ids assms(1)])
  then have found: "findExecutionReceipt w (rr_WorkflowKey ?r) (rr_IdempotencyKey ?r) db = Inr (Some r)"
    using n(1) assms(7) by (simp add: findExecutionReceipt_def read_in_def workspace_idem(1) [OF assms(6)])
  have "st_Status (workflowReceiptLease r) = ''succeeded''" "st_Fingerprint (workflowReceiptLease r) = rr_RequestFingerprint ?r"
    using assms(2) by (simp_all add: workflowReceiptLease_def n(2))
  with assms(4) have "re_Classify env (workflowReceiptLease r) (rr_RequestFingerprint ?r) now = DecisionReplay"
    unfolding replays_completed_def by blast
  then have "classified env q r (rr_RequestFingerprint ?r) now = DecisionReplay"
    by (simp add: classified_def Let_def)
  with clash found have "tryBeginExecutionOnce env q db = (db, claimed DecisionReplay r)"
    by (simp add: tryBeginExecutionOnce_def assms(6) now_def [symmetric] Let_def)
  then show ?thesis using assms(5) by (simp add: TryBeginExecution_def eval_nat_numeral)
qed

text \<open>The first request of a key holds a new receipt when the engine is started.\<close>

lemma begin_first:
  assumes "run_state (beginWorkflowExecution xe workflow payload actor trigger key attempt False False) s = (Inr (claim, replay), s1)"
    and "trim_space key \<noteq> []" and "requireWorkflowWorkspaceID (pr_WorkspaceID actor) = Inr w"
    and "\<forall>r \<in> set (db_Receipts (es_DB s)). receipt_identity r \<noteq> (w, trim_space (ws_Key workflow), trim_space key)"
  obtains fingerprint c where "xe_ExecutionFingerprint xe workflow payload trigger attempt = Some fingerprint" "replay = None"
    "claim = Some c" "cr_Decision c = DecisionAcquired" "trim_space (rr_ID (cr_Receipt c)) \<noteq> []"
    "receipt_identity (cr_Receipt c) = (w, trim_space (ws_Key workflow), trim_space key)"
    "rr_RequestFingerprint (cr_Receipt c) = trim_space fingerprint"
    "es_DB s1 = (es_DB s) \<lparr> db_Receipts := db_Receipts (es_DB s) @ [cr_Receipt c] \<rparr>"
    "receipts_kept (es_DB s) (es_DB s1)"
proof -
  from assms(1,2) obtain fingerprint where f: "xe_ExecutionFingerprint xe workflow payload trigger attempt = Some fingerprint"
    by (auto simp: beginWorkflowExecution_def split: option.splits)
  let ?owner = "if trim_space (xe_RequestID xe actor) = [] then workflowProcessID (xe_Engine xe) ''workflow-claim''
    else ret (trim_space (xe_RequestID xe actor))"
  obtain owner s0 where o: "run_state ?owner s = (owner, s0)" by fastforce
  have db0: "es_DB s0 = es_DB s" using o by (auto simp: run_process_id split: if_splits)
  let ?q = "execution_claim xe workflow actor key fingerprint owner (ee_Now (xe_Engine xe) (es_Tick s0)) False"
  let ?s0 = "s0 \<lparr> es_Tick := Suc (es_Tick s0) \<rparr>"
  obtain db1 a where t: "TryBeginExecution (xe_Receipt xe) ?q (es_DB s) = (db1, a)" by fastforce
  from assms(1) obtain c where a: "a = Inr c"
    using t db0 by (cases a) (auto simp: beginWorkflowExecution_def assms(2) f o run_tries reads_or_def Let_def)
  have ws: "rr_WorkspaceID (cq_Receipt ?q) = trim_space (pr_WorkspaceID actor)" "rr_WorkflowKey (cq_Receipt ?q) = ws_Key workflow"
    "rr_IdempotencyKey (cq_Receipt ?q) = key" "cq_RequestFingerprint ?q = fingerprint"
    by (simp_all add: execution_claim_def workflowWorkspaceID_def)
  from first_claim [of "xe_Receipt xe" ?q "es_DB s" db1 c w] t a assms(4) workspace_idem(3) [OF assms(3)]
  obtain now where acquired: "cr_Decision c = DecisionAcquired" "cr_Receipt c = new_receipt (xe_Receipt xe) ?q w now"
    "db1 = (es_DB s) \<lparr> db_Receipts := db_Receipts (es_DB s) @ [new_receipt (xe_Receipt xe) ?q w now] \<rparr>"
    unfolding ws by blast
  have k: "receipts_kept (es_DB s) db1"
    using try_begin_kept [of "es_DB s" "xe_Receipt xe" ?q 50 0] t by (simp add: TryBeginExecution_def)
  have "run_state (beginWorkflowExecution xe workflow payload actor trigger key attempt False False) s =
      (Inr (Some c, None), ?s0 \<lparr> es_DB := db1 \<rparr>)"
    using o t a acquired(1) db0 by (simp add: beginWorkflowExecution_def assms(2) f run_tries reads_or_def Let_def)
  with assms(1) have r: "replay = None" "claim = Some c" "es_DB s1 = db1" by auto
  show thesis
    by (rule that [OF f r(1,2) acquired(1)])
      (use acquired r(3) k receipt_id_visible in \<open>simp_all add: new_receipt_def Let_def ws del: append_assoc\<close>)
qed

text \<open>Storing the execution of an acquired claim completes its receipt.\<close>

lemma store_execution_Inr:
  assumes "run_state (store_execution xe (Some c) e a b actor) s = (Inr (), s')" and "cr_Decision c = DecisionAcquired"
    and "trim_space (rr_ID (cr_Receipt c)) \<noteq> []" and "requireWorkflowWorkspaceID (pr_WorkspaceID actor) = Inr w"
  obtains db m where "workflow_step (es_DB s) db" "\<exists>x \<in> set (db_Executions db). execution_key x = (w, we_ID e)"
    "CompleteExecutionReceipt (xe_Receipt xe) m db = (es_DB s', None)" "rc_ReceiptID m = rr_ID (cr_Receipt c)" "rc_ExecutionID m = we_ID e"
proof -
  let ?t = "InsertExecution (xe_Store xe) (pr_WorkspaceID actor) e"
  have step: "workflow_step (es_DB s) (fst (stmt ?t (es_DB s)))" by (rule workflow_step.Statement) blast
  have ok: "snd (stmt ?t (es_DB s)) = None"
    using assms(1) by (cases "snd (stmt ?t (es_DB s))") (simp_all add: store_execution_def run_tries store_or_def internal_def)
  then obtain db where db: "?t (es_DB s) = Inr db" "fst (stmt ?t (es_DB s)) = db" by (auto simp: stmt_def split: sum.splits)
  have row: "\<exists>x \<in> set (db_Executions db). execution_key x = (w, we_ID e)"
    using db(1) unfolding InsertExecution_def in_workspace_def assms(4) insertExecutionTx_def insertTx_def RegisterWorkflowContinuationScope_def
    by (auto simp: tx_then_Inr split: if_splits option.splits)
  obtain m where m: "rc_ReceiptID m = rr_ID (cr_Receipt c)" "rc_ExecutionID m = we_ID e"
    "run_state (completeWorkflowExecutionReceipt xe (Some c) e) (s \<lparr> es_DB := db \<rparr>) =
      (snd (CompleteExecutionReceipt (xe_Receipt xe) m db), s \<lparr> es_Tick := Suc (Suc (es_Tick s)), es_DB := fst (CompleteExecutionReceipt (xe_Receipt xe) m db) \<rparr>)"
    by (rule that [of "\<lparr> rc_WorkspaceID = rr_WorkspaceID (cr_Receipt c), rc_ReceiptID = rr_ID (cr_Receipt c), rc_ExecutionID = we_ID e,
        rc_LeaseOwner = rr_LeaseOwner (cr_Receipt c), rc_FencingToken = rr_FencingToken (cr_Receipt c),
        rc_ExpiresAt = ee_Now (xe_Engine xe) (Suc (es_Tick s)) + 90 * day, rc_Now = ee_Now (xe_Engine xe) (es_Tick s) \<rparr>"])
      (simp_all add: completeWorkflowExecutionReceipt_def assms(2,3) Let_def)
  have "CompleteExecutionReceipt (xe_Receipt xe) m db = (es_DB s', None)"
    using assms(1) db ok m(3)
    by (cases "snd (CompleteExecutionReceipt (xe_Receipt xe) m db)")
      (auto simp: store_execution_def run_tries store_or_def internal_def prod_eq_iff)
  with step db(2) row m(1,2) show thesis by (intro that [of db m]) simp_all
qed

text \<open>What a served request leaves behind: a completed receipt and the execution it names.\<close>

definition served :: "string \<times> string \<times> string \<Rightarrow> string \<Rightarrow> string \<Rightarrow> workflow_db \<Rightarrow> bool" where
  "served identity fingerprint executionID db \<longleftrightarrow> receipts_unique db \<and>
     (\<exists>r \<in> set (db_Receipts db). rr_Status r = ''succeeded'' \<and> receipt_identity r = identity \<and> rr_RequestFingerprint r = fingerprint \<and>
        rr_ExecutionID r = trim_space executionID) \<and>
     (\<exists>x \<in> set (db_Executions db). execution_key x = (fst identity, executionID))"

lemma served_kept:
  assumes "served i f e db" and "workflow_step\<^sup>*\<^sup>* db db'"
  shows "served i f e db'"
proof -
  note k = workflow_steps_receipts [OF assms(2)]
  have x: "rows_kept execution_key we_Status (db_Executions db) (db_Executions db')"
    using workflow_steps_kept [OF assms(2)] by (simp add: db_kept_def)
  show ?thesis
    using assms(1) receipts_unique_kept [OF k] succeeded_kept [OF k] rows_keptD [OF x]
    unfolding served_def row_kept_def by metis
qed

lemma store_completes:
  assumes "run_state (store_execution xe (Some c) e a b actor) s = (Inr (), s')" and "cr_Decision c = DecisionAcquired"
    and "trim_space (rr_ID (cr_Receipt c)) \<noteq> []" and "requireWorkflowWorkspaceID (pr_WorkspaceID actor) = Inr w"
    and "rr_WorkspaceID (cr_Receipt c) = w" and "receipts_unique (es_DB s)" and "r1 \<in> set (db_Receipts (es_DB s))" and "receipt_kept (cr_Receipt c) r1"
  shows "served (receipt_identity (cr_Receipt c)) (rr_RequestFingerprint (cr_Receipt c)) (we_ID e) (es_DB s')"
proof -
  from store_execution_Inr [OF assms(1-4)] obtain db m where st: "workflow_step (es_DB s) db"
    and row: "\<exists>x \<in> set (db_Executions db). execution_key x = (w, we_ID e)"
    and fin: "CompleteExecutionReceipt (xe_Receipt xe) m db = (es_DB s', None)"
    and m: "rc_ReceiptID m = rr_ID (cr_Receipt c)" "rc_ExecutionID m = we_ID e" .
  note k = workflow_step_receipts [OF st]
  have u: "receipts_unique db" by (rule receipts_unique_kept [OF k assms(6)])
  from receipts_keptD [OF k assms(7)] obtain r2 where r2: "r2 \<in> set (db_Receipts db)" "receipt_kept r1 r2" by blast
  have kept: "receipt_kept (cr_Receipt c) r2" by (rule receipt_kept_trans [OF assms(8) r2(2)])
  from complete_None [OF fin] obtain v now r0 r where r0: "r0 \<in> set (db_Receipts db)" "complete_receipt v m now r0 = Some r"
    "r \<in> set (db_Receipts (es_DB s'))" .
  have "rr_ID r0 = rr_ID r2" using r0(2) kept m(1) by (auto simp: complete_receipt_def receipt_kept_def split: if_splits)
  then have "r0 = r2" using key_unique [of rr_ID "db_Receipts db" r0 r2] u r0(1) r2(1) by (simp add: receipts_unique_def)
  then have r: "rr_Status r = ''succeeded''" "receipt_identity r = receipt_identity (cr_Receipt c)"
    "rr_RequestFingerprint r = rr_RequestFingerprint (cr_Receipt c)" "rr_ExecutionID r = trim_space (we_ID e)"
    using r0(2) kept m(2) by (auto simp: complete_receipt_def receipt_kept_def split: if_splits)
  have step: "receipt_step db (es_DB s')" using receipt_step.Complete [of db "xe_Receipt xe" m] fin by simp
  have "receipts_unique (es_DB s')" by (rule receipts_unique_kept [OF receipt_step_kept [OF step] u])
  moreover have "\<exists>x \<in> set (db_Executions (es_DB s')). execution_key x = (w, we_ID e)"
    using receipt_step_tables [OF step] row by auto
  ultimately show ?thesis using r r0(3) assms(5) unfolding served_def by auto
qed

lemma first_request_served:
  assumes "run_state (executeWorkflowAttemptWithIdempotencyKey xe workflow payload actor trigger key attempt False False) s = (Inr execution, s')"
    and "services_keep_steps (xe_Engine xe)" and "trim_space key \<noteq> []" and "receipts_unique (es_DB s)"
    and "requireWorkflowWorkspaceID (pr_WorkspaceID actor) = Inr w"
    and "\<forall>r \<in> set (db_Receipts (es_DB s)). receipt_identity r \<noteq> (w, trim_space (ws_Key workflow), trim_space key)"
  shows "\<exists>fingerprint. xe_ExecutionFingerprint xe workflow payload trigger attempt = Some fingerprint \<and>
    served (w, trim_space (ws_Key workflow), trim_space key) (trim_space fingerprint) (we_ID execution) (es_DB s')"
proof -
  have "runnable_graph workflow" using assms(1) by (cases "runnable_graph workflow") (simp_all add: executeWorkflowAttemptWithIdempotencyKey_def)
  with assms(1) have g: "run_state (executeWorkflowGraphProcessWithIdempotencyKey xe workflow payload actor trigger key attempt False False) s = (Inr execution, s')"
    by (simp add: executeWorkflowAttemptWithIdempotencyKey_def)
  from g obtain claim replay s1 where b: "run_state (beginWorkflowExecution xe workflow payload actor trigger key attempt False False) s = (Inr (claim, replay), s1)"
    unfolding executeWorkflowGraphProcessWithIdempotencyKey_def by (auto simp: run_tries_Inr)
  from begin_first [OF b assms(3,5,6)] obtain fingerprint c where f: "xe_ExecutionFingerprint xe workflow payload trigger attempt = Some fingerprint"
    and bf: "replay = None" "claim = Some c" "cr_Decision c = DecisionAcquired" "trim_space (rr_ID (cr_Receipt c)) \<noteq> []"
    "receipt_identity (cr_Receipt c) = (w, trim_space (ws_Key workflow), trim_space key)" "rr_RequestFingerprint (cr_Receipt c) = trim_space fingerprint"
    "es_DB s1 = (es_DB s) \<lparr> db_Receipts := db_Receipts (es_DB s) @ [cr_Receipt c] \<rparr>" "receipts_kept (es_DB s) (es_DB s1)" .
  obtain process err s2 where st: "run_state (Start (xe_Engine xe) (xe_Graph xe) workflow payload actor) s1 = ((process, err), s2)"
    by (metis surj_pair)
  note start = db_stepsD [OF db_steps_start(2) [OF assms(2)] st]
  have serve: "served (w, trim_space (ws_Key workflow), trim_space key) (trim_space fingerprint) (we_ID e) (es_DB t')"
    if run: "run_state (store_execution xe (Some c) e a b actor) t = (Inr (), t')" and t: "workflow_step\<^sup>*\<^sup>* (es_DB s1) (es_DB t)" for e a b t t'
  proof -
    note k = workflow_steps_receipts [OF t]
    have "cr_Receipt c \<in> set (db_Receipts (es_DB s1))" using bf(7) by simp
    from receipts_keptD [OF k this] obtain r1 where r1: "r1 \<in> set (db_Receipts (es_DB t))" "receipt_kept (cr_Receipt c) r1" by blast
    have u: "receipts_unique (es_DB t)" by (rule receipts_unique_kept [OF k receipts_unique_kept [OF bf(8) assms(4)]])
    from store_completes [OF run bf(3,4) assms(5) _ u r1] bf(5,6) show ?thesis by simp
  qed
  have "served (w, trim_space (ws_Key workflow), trim_space key) (trim_space fingerprint) (we_ID execution) (es_DB s')"
  proof (cases err)
    case None
    with g b bf(1,2) st obtain e a b' where "run_state (store_execution xe (Some c) e a b' actor) s2 = (Inr (), s')" "execution = e"
      unfolding executeWorkflowGraphProcessWithIdempotencyKey_def by (auto simp: run_tries_Inr Let_def)
    with serve [OF _ start] show ?thesis by blast
  next
    case (Some x)
    with g b bf(1,2) st have p: "wp_ID process \<noteq> []"
      unfolding executeWorkflowGraphProcessWithIdempotencyKey_def by (auto simp: run_tries split: if_splits)
    obtain e s3 where e: "run_state (failedWorkflowProcessExecution xe workflow process payload actor trigger attempt key x) s2 = (e, s3)" by fastforce
    let ?ev = "appendEvent (xe_Engine xe) (wp_WorkspaceID process) (wp_ID process) (we_NodeID e) [] (''workflow_execution_'' @ we_Status e)
      (pr_UserID actor) (we_LastError e) [(''execution_id'', VStr (we_ID e)), (''attempt'', VInt (we_Attempt e))]"
    from g b bf(1,2) st Some p e have "\<exists>a b' s4. run_state (store_execution xe (Some c) e a b' actor) s3 = (Inr (), s4) \<and> execution = e \<and>
        s' = snd (run_state ?ev s4)"
      unfolding executeWorkflowGraphProcessWithIdempotencyKey_def by (auto simp: run_tries_Inr split_beta)
    then obtain a b' s4 where s4: "run_state (store_execution xe (Some c) e a b' actor) s3 = (Inr (), s4)" "execution = e" "s' = snd (run_state ?ev s4)"
      by (elim exE conjE)
    have "workflow_step\<^sup>*\<^sup>* (es_DB s1) (es_DB s3)" using start db_stepsD [OF db_steps_begin(4) e] by simp
    from serve [OF s4(1) this] have "served (w, trim_space (ws_Key workflow), trim_space key) (trim_space fingerprint) (we_ID e) (es_DB s4)" .
    from served_kept [OF this] db_steps_parts(1) [of "xe_Engine xe"] s4(2,3) show ?thesis unfolding db_steps_def by simp
  qed
  with f show ?thesis by blast
qed



subsection \<open>Witness\<close>

text \<open>A workflow that is completed by its trigger.\<close>

definition lone_graph :: WorkflowGraphSchema where
  "lone_graph = \<lparr> gs_Version = 2, gs_Nodes = [example_node ''t'' ''trigger'' no_contract], gs_Edges = [] \<rparr>"

definition lone_workflow :: WorkflowSchema where
  "lone_workflow = zero_schema \<lparr> ws_Key := ''flow'', ws_Graph := Some lone_graph \<rparr>"

definition example_start :: "int start_env" where
  "example_start = \<lparr> xe_Engine = example_engine, xe_Graph = example_env, xe_Receipt = example_receipts, xe_Condition = example_conditions,
     xe_Registry = [lone_workflow], xe_Get = (\<lambda>_. Some lone_workflow), xe_Action = (\<lambda>_. []), xe_KeyFingerprint = (\<lambda>k d. Some k),
     xe_ExecutionFingerprint = (\<lambda>_ _ _ _. Some ''f''), xe_Api = example_api, xe_RequestID = (\<lambda>_. ''o''), xe_Object = (\<lambda>_. False), xe_Record = (\<lambda>_ _ _ _. None),
     xe_KeyReused = ''reused'', xe_InProgress = ''busy'', xe_ReceiptUnavailable = ''lost'' \<rparr>"

lemma lone_facts:
  "WorkflowValidateGraph example_env (Some lone_graph) = (Some lone_graph, None)"
  "WorkflowGraphTrigger (Some lone_graph) = example_node ''t'' ''trigger'' no_contract"
  "nextNodeIDs (Some lone_graph) ''t'' ''success'' = []" "gs_Nodes lone_graph = [] \<longleftrightarrow> False"
  "workflowAuthorizeCommand (example_actor ''u'') = None" "runnable_graph lone_workflow" "trim_space (ws_Key lone_workflow) = ''flow''"
  "gn_ID (example_node ''t'' ''trigger'' no_contract) = ''t''" "uniqueSortedStrings [] = []"
  "ws_Graph lone_workflow = Some lone_graph" "ws_Key lone_workflow = ''flow''"
   by code_simp+

lemma lone_id: "trimmed (''process_'' @ itoa i @ ''_'' @ itoa j)"
  by (intro trim_space_by_edges) (use itoa_edges [of j] in \<open>simp_all add: edge_bytes_def itoa_def\<close>)

lemma lone_trigger:
  assumes "wp_WorkspaceID q = ''w''" "ws_Graph (wp_DefinitionSnapshot q) = Some lone_graph" "db_Nodes (es_DB s) = []"
    "db_Processes (es_DB s) = [r]" "wp_WorkspaceID r = ''w''" "wp_ID r = wp_ID q" "wp_Status r \<noteq> ''cancelled''"
  shows "\<exists>p t. run_state (run_trigger example_engine q ''u'' (example_actor ''u'')) s = ((p, None), t) \<and> wp_ID p = wp_ID q \<and>
    db_Receipts (es_DB t) = db_Receipts (es_DB s) \<and> db_Executions (es_DB t) = db_Executions (es_DB s) \<and>
    map wp_Status (db_Processes (es_DB t)) = [''completed'']"
  by (simp add: lone_facts run_trigger_def evaluate_folded assms put_fields cong: bind_weak tries_weak)

lemma started_fields: "wp_WorkspaceID (started_process env w v a i now) = pr_WorkspaceID a" "wp_ID (started_process env w v a i now) = i"
  "wp_Status (started_process env w v a i now) = ''running''" "wp_DefinitionSnapshot (started_process env w v a i now) = w"
  by (simp_all add: started_process_def Let_def)

lemma lone_start:
  assumes "db_Processes (es_DB s) = []" "db_Nodes (es_DB s) = []"
  shows "\<exists>p t. run_state (Start example_engine example_env lone_workflow [] (example_actor ''u'')) s = ((p, None), t) \<and>
    (\<exists>i j. wp_ID p = ''process_'' @ itoa i @ ''_'' @ itoa j) \<and> db_Receipts (es_DB t) = db_Receipts (es_DB s) \<and> db_Executions (es_DB t) = db_Executions (es_DB s) \<and>
    map wp_Status (db_Processes (es_DB t)) = [''completed'']"
proof -
  let ?i = "''process_'' @ itoa (int (Suc (es_Tick s)) * 1000000000) @ ''_'' @ itoa (int (Suc (es_Sequence s)))"
  define p0 where "p0 = started_process example_engine (lone_workflow \<lparr> ws_Graph := Some lone_graph \<rparr>) [] (example_actor ''u'') ?i
    (format_rfc3339nano (int (es_Tick s) * 1000000000))"
  have p0: "wp_WorkspaceID p0 = ''w''" "wp_ID p0 = ?i" "wp_Status p0 = ''running''" "ws_Graph (wp_DefinitionSnapshot p0) = Some lone_graph"
    by (simp_all add: p0_def started_fields)
  have ins: "stmt (InsertProcess example_workflow_env ''w'' p0) (es_DB s) = ((es_DB s) \<lparr> db_Processes := [p0] \<rparr>, None)"
    using p0(1) by (simp add: stmt_def InsertProcess_def in_workspace_def insertTx_def assms example_workflow_env_def)
  let ?s = "s \<lparr> es_Tick := Suc (Suc (es_Tick s)), es_Sequence := Suc (es_Sequence s), es_DB := (es_DB s) \<lparr> db_Processes := [p0] \<rparr> \<rparr>"
  from lone_trigger [of p0 ?s p0] p0 obtain p t where r: "run_state (run_trigger example_engine p0 ''u'' (example_actor ''u'')) ?s = ((p, None), t)"
    "wp_ID p = wp_ID p0" "db_Receipts (es_DB t) = db_Receipts (es_DB s)" "db_Executions (es_DB t) = db_Executions (es_DB s)"
    "map wp_Status (db_Processes (es_DB t)) = [''completed'']" by (auto simp: assms)
  have "run_state (Start example_engine example_env lone_workflow [] (example_actor ''u'')) s = ((p, None), t)"
    using ins r(1) unfolding p0_def by (simp add: Start_def lone_facts run_process_id Let_def)
  with r p0(2) show ?thesis by (intro exI [of _ p] exI [of _ t]) auto
qed

lemma example_start_fields: "xe_Engine example_start = example_engine" "xe_Graph example_start = example_env" "xe_Receipt example_start = example_receipts"
  "xe_ExecutionFingerprint example_start a b c d = Some ''f''" "xe_RequestID example_start p = ''o''" "xe_Action example_start w = []"
  by (simp_all add: example_start_def)

lemma lone_begin:
  "\<exists>r t. run_state (beginWorkflowExecution example_start lone_workflow [] (example_actor ''u'') ''manual'' ''k'' 1 False False) empty_state =
      (Inr (Some \<lparr> cr_Decision = DecisionAcquired, cr_Receipt = r \<rparr>, None), t) \<and>
    db_Receipts (es_DB t) = [r] \<and> rr_WorkspaceID r = ''w'' \<and> rr_LeaseOwner r = ''o'' \<and> rr_Status r = ''processing'' \<and>
    db_Processes (es_DB t) = [] \<and> db_Nodes (es_DB t) = [] \<and> db_Executions (es_DB t) = []"
  by (simp add: beginWorkflowExecution_def example_start_fields receipt_texts run_tries reads_or_def TryBeginExecution_def tryBeginExecutionOnce_def eval_nat_numeral
     example_receipts_def execution_claim_def workflowWorkspaceID_def insertTx_def new_receipt_def Let_def claimed_def empty_state_def example_db_def)

lemma lone_store:
  assumes "db_Receipts (es_DB s) = [r]" "rr_WorkspaceID r = ''w''" "rr_LeaseOwner r = ''o''" "rr_Status r = ''processing''"
    "map wp_Status (db_Processes (es_DB s)) = [''completed'']" "db_Executions (es_DB s) = []"
  shows "\<exists>t. run_state (store_execution example_start (Some \<lparr> cr_Decision = DecisionAcquired, cr_Receipt = r \<rparr>) e a b (example_actor ''u'')) s = (Inr (), t)"
proof -
  obtain p where p: "db_Processes (es_DB s) = [p]" "wp_Status p = ''completed''" using assms(5) by auto
  show ?thesis
    by (simp add: store_execution_def example_start_fields run_tries store_or_def internal_def stmt_def InsertExecution_def in_workspace_def assms p tx_then_def
      guardExecutionProcessTx_def insertExecutionTx_def insertTx_def execution_encodable_def RegisterWorkflowContinuationScope_def example_workflow_env_def
      completeWorkflowExecutionReceipt_def CompleteExecutionReceipt_def write_rows_def complete_receipt_def receipt_texts Let_def check_def)
qed

lemma lone_request:
  "\<exists>e t. run_state (executeWorkflowAttemptWithIdempotencyKey example_start lone_workflow [] (example_actor ''u'') ''manual'' ''k'' 1 False False) empty_state =
      (Inr e, t) \<and> trimmed (we_ID e) \<and> we_ID e \<noteq> []"
proof -
  let ?claim = "\<lambda>r. \<lparr> cr_Decision = DecisionAcquired, cr_Receipt = r \<rparr>"
  from lone_begin obtain r t where b: "run_state (beginWorkflowExecution example_start lone_workflow [] (example_actor ''u'') ''manual'' ''k'' 1 False False) empty_state =
      (Inr (Some (?claim r), None), t)" and r: "db_Receipts (es_DB t) = [r]" "rr_WorkspaceID r = ''w''" "rr_LeaseOwner r = ''o''" "rr_Status r = ''processing''"
    and t: "db_Processes (es_DB t) = []" "db_Nodes (es_DB t) = []" "db_Executions (es_DB t) = []" by (elim exE conjE)
  from lone_start [OF t(1,2)] obtain p u i j where st: "run_state (Start example_engine example_env lone_workflow [] (example_actor ''u'')) t = ((p, None), u)"
    and i: "wp_ID p = ''process_'' @ itoa i @ ''_'' @ itoa j" and u: "db_Receipts (es_DB u) = db_Receipts (es_DB t)"
    "db_Executions (es_DB u) = db_Executions (es_DB t)" "map wp_Status (db_Processes (es_DB u)) = [''completed'']" by (elim exE conjE)
  have w: "\<exists>v. run_state (store_execution example_start (Some (?claim r)) e a b (example_actor ''u'')) u = (Inr (), v)" for e a b
    by (rule lone_store) (simp_all add: r t u)
  let ?e = "(started_execution example_start lone_workflow p [] (example_actor ''u'') ''manual'' 1 ''k'') \<lparr> we_WorkspaceID := ''w'', we_Status := wp_Status p,
      we_Result := [(''process_id'', VStr (wp_ID p)), (''current_node_ids'', VStrs (wp_CurrentNodeIDs p)), (''definition_hash'', VStr (wp_DefinitionHash p))],
      we_Message := ''workflow.message.processStarted'', we_UpdatedAt := wp_UpdatedAt p \<rparr>"
  from w obtain v where v: "run_state (store_execution example_start (Some (?claim r)) ?e ''insert workflow process execution'' ''complete workflow execution receipt''
      (example_actor ''u'')) u = (Inr (), v)" by blast
  have "run_state (executeWorkflowAttemptWithIdempotencyKey example_start lone_workflow [] (example_actor ''u'') ''manual'' ''k'' 1 False False) empty_state = (Inr ?e, v)"
    using b st v by (simp add: executeWorkflowAttemptWithIdempotencyKey_def lone_facts executeWorkflowGraphProcessWithIdempotencyKey_def run_tries example_start_fields Let_def)
  moreover have "trimmed (we_ID ?e)" "we_ID ?e \<noteq> []" using lone_id [of i j] by (simp_all add: started_execution_def i)
  ultimately show ?thesis by blast
qed


end
