(* ===== verification/Spec2Isabelle.thy ===== *)
theory Spec2Isabelle
  imports Workflow_Approval Workflow_Graph Workflow_Execution Workflow_Worker Business_Calendar Record_Timer
    Boundary_Intent Workflow_Store Workflow_Assignees Workflow_Voting Workflow_Route_View Workflow_Simulation Workflow_Condition Workflow_Start
begin

text \<open>
  A verification library for the Domainry runtime (Go, under \<open>src/\<close>).

  \<^bold>\<open>The program.\<close> The runtime executes generated business applications. Requests change records
  through the record store; a change starts workflows; a workflow is a validated graph that the
  process engine runs node by node (approvals, actions, agent tasks, timers, copies, conditions);
  approvals wait for votes, which come back through the decision service; workers run due
  executions, timers and intents under leases with fencing tokens. The state is in tables, and
  what is written together is written in one transaction. The library models this core: the records
  and their timers, the calendars, the workflow definitions and the whole life of a process.

  \<^bold>\<open>Theories and sources.\<close> (Paths below \<open>src/runtime/\<close>; operations keep the names of the Go functions, and parts
  of a long function are definitions of their own that the function composes.)

  \<^item> \<open>Go_Prelude\<close>, \<open>Go_Strings\<close>, \<open>Go_Values\<close>, \<open>Go_Scan\<close>, \<open>Go_Time\<close>, \<open>Go_Result\<close>: what the code uses of Go. Errors
    are values (\<open>app_error\<close>), a function with an error returns \<open>Inl\<close> or \<open>Inr\<close>, maps are association
    lists, \<open>any\<close> is the datatype \<open>gvalue\<close>, strings are byte lists, \<open>int\<close> wraps at 64 bits where the code
    can overflow, instants are nanoseconds with the calendar arithmetic of \<open>time\<close>.
  \<^item> \<open>Graph_Search\<close>, \<open>Fenced_Lease\<close>: the two contracts that several components rely on, as locales.
  \<^item> \<open>Workflow_Model\<close>: the definition and instance types (\<open>domain/definition/model\<close>, \<open>domain/workflow/model\<close>).
  \<^item> \<open>Workflow_Approval\<close>, \<open>Workflow_Graph\<close>, \<open>Workflow_Execution\<close>, \<open>Workflow_Condition\<close>: the policies under
    \<open>domain/workflow/policy\<close> (approval outcomes and routes, the graph validator, retries, triggers and conditions)
    and the preparation of trigger intents.
  \<^item> \<open>Business_Calendar\<close> (\<open>domain/businesscalendar\<close>), \<open>Record_Timer_Policy\<close> and \<open>Record_Timer\<close> (\<open>domain/recordtimer\<close>,
    \<open>application/recordtimer\<close>), \<open>Record_Store\<close> (\<open>infrastructure/persistence/database/record\<close>), \<open>Boundary_Intent\<close>
    (\<open>domain/transaction/model\<close> and its store).
  \<^item> \<open>Workflow_Table\<close>, \<open>Workflow_Receipt\<close>, \<open>Workflow_Store\<close> and \<open>Workflow_Worker\<close>: the tables of
    \<open>infrastructure/persistence/database/workflow\<close>, the receipts of idempotent requests, the transactions and the
    lease of an execution.
  \<^item> \<open>Workflow_Runtime\<close>, \<open>Workflow_Assignees\<close>, \<open>Workflow_Route\<close>, \<open>Workflow_Engine\<close>, \<open>Workflow_Run\<close>, \<open>Workflow_Simulation\<close>:
    the process engine of \<open>application/workflow\<close> on those tables, in the state monad of the library.
  \<^item> \<open>Workflow_Projection\<close>, \<open>Workflow_Route_View\<close>: what a reader is shown (\<open>domain/workflow/projection\<close>).
  \<^item> \<open>Workflow_Command\<close>, \<open>Workflow_Decision\<close>, \<open>Workflow_Deadline\<close>, \<open>Workflow_Voting\<close>: the commands on a process
    (withdrawal, retry, resolution), a vote with its continuation and recovery, reminders and escalations,
    and what they promise together.
  \<^item> \<open>Workflow_Start\<close>: the start of an execution under the receipt of its key, by a request, by a record event or
    from a committed intent, and the retry and resolution of executions by hand.

  \<^bold>\<open>Interfaces.\<close> Each locale is interpreted on the model of the code.

  \<^item> \<open>fenced_lease\<close> (a claim raises the token, a holder writes only under its token): executions, record timers, boundary
    intents and receipts are instances, and the exclusion of an overtaken holder in every interleaving is proved once.
  \<^item> \<open>dfs_graph\<close> (an adjacency function on finitely many nodes): the tables of the graph validator.
  \<^item> \<open>business_clock\<close> (days with sorted windows): the windows of a calendar in a zone of constant offset.
  \<^item> \<open>normalizer\<close> (canonical results are fixed points): calendars, schedules, assignee sets, route defaults.
  \<^item> \<open>electorate\<close> (a step with voters is decided by a threshold): template-driven and route-driven approvals.
  \<^item> \<open>status_table\<close> (a keyed table whose cancelled rows are guarded): processes, nodes, tasks and executions.
  \<^item> \<open>table_relation\<close> (a preorder on tables that the statements of the engine respect): steps of the store, the notes and the
    writes of a vote; the handlers of the engine are shown once to stay within any such relation.

  \<^bold>\<open>What is shown.\<close>

  \<^item> Validation: an accepted graph is acyclic, rooted at its one trigger and leads somewhere on every approval
    outcome (C1, C6, C8); the search decides exactly this.
  \<^item> Approvals: the outcome of a node is the one its mode describes, thresholds are attainable, the electorate is
    what the resolvers find (C2, C9, C24), and manager chains are bounded (theorem \<open>manager_chain_bounded\<close>).
  \<^item> Time: business time is counted exactly, the search ends, timers are pinned and due as configured (C4, C5, C7).
  \<^item> Leases and stores: exclusive leases, bounded retries, unique keys, no lost update, final states of intents
    (C3, C10 to C21). A receipt is completed once, and a request that was served is answered with the same execution
    and starts nothing (C22, C23).
  \<^item> Processes: staged routes, complete runs, reasons of failures, who withdraws, what participants see, one transaction
    per vote, no open sibling after a closing vote, cancelled rows under every command (C25 to C34).
  \<^item> Deadlines, previews, views and triggers: C35 to C40.
  \<^item> Where the code does not do what it means to, a theorem shows it: C34 and C36 among the properties, and the
    theorems \<open>intent_lease_taken_early\<close>, \<open>recovery_blocked_by_siblings\<close>, \<open>retry_forgets_waiting_nodes\<close>,
    \<open>routed_successor_refused\<close>, \<open>escalation_repeats_beyond_window\<close>, \<open>simulation_panics_without_retry\<close> and
    \<open>negative_bound_never_holds\<close> beside the definitions they are about.

  \<^bold>\<open>Loops.\<close> Loops over collections are recursions over lists. The depth-first search has as fuel one more than the number of
  nodes, which is enough because a path of nodes that are being visited has no repetition (\<open>Graph_Search\<close>). The search
  for working time has the bound of the code, 3661 days. The loops of the engine and of the simulation end by a
  measure: every round visits a node for the first time or shortens the queue. The cancel loop of timers returns after one round more
  than there are scheduled timers (\<open>cancel_timers_terminates\<close>). Dispatch of timers, the five attempts of a
  vote and the fifty attempts of a claim are counted by the code itself.

  \<^bold>\<open>Parameters.\<close> What is not under \<open>src/\<close> or is only called is an argument: time zones (\<open>time.LoadLocation\<close>), JSON, sha256
  and fingerprints, the clock and generated ids as sequences, the identity projection, the invocation of actions and
  agents, the compiler of notifications, template rendering and the readers of records. Hypotheses about them are in
  the statements that need them, with a witness on a concrete function.

  \<^bold>\<open>Not modelled.\<close> Start-up and wiring (\<open>bootstrap\<close>, \<open>pkg/runtimehost\<close>, \<open>cmd\<close>), the HTTP handlers (\<open>interfaces\<close>) and
  the OpenAPI documents: composition and transport without state of their own. Manifest, action, automation, report,
  capability, change plan, deployment, operations, upload and seed components: each is a component of the size of
  the workflow component and independent of its tables. The SQL text, schema migrations and dialects: the statements are
  modelled by their effect on the tables, not by their text. Locks and goroutines: the interleavings of
  transactions are modelled, those within a transaction are not. Localization and audit rows, authorization scopes and the
  aggregate and temporal invariants of the record store.
\<close>

section \<open>Properties that span components\<close>

lemma resolve_business_calendar:
  assumes "ResolveSchedule load ctx q source (Some resolve) = Inr s"
    and "sc_ScheduleMode (NormalizeSchedule q) = ''business_calendar''"
  obtains cal q' base where "resolve (ctx 0) (sc_BusinessCalendarKey (NormalizeSchedule q)) = Inr cal"
    and "q' = (NormalizeSchedule q) \<lparr> sc_BusinessCalendarRevision := cal_Revision cal, sc_Timezone := cal_Timezone cal \<rparr>"
    and "schedule_base q' source = Inr base"
    and "AddBusinessDuration load (\<lambda>i. ctx (Suc i)) cal base (offset_duration q') = Inr (sc_DueAt s)"
    and "s = q' \<lparr> sc_DueAt := sc_DueAt s \<rparr>"
  using assms unfolding ResolveSchedule_def pin_calendar_def
  by (auto split: sum.splits if_splits option.splits)


definition example_business_schedule :: Schedule where
  "example_business_schedule = example_schedule \<lparr> sc_ScheduleMode := ''business_calendar'',
     sc_BusinessCalendarKey := ''office'', sc_DueAt := 4 * day + 16 * hour, sc_OffsetSeconds := 7200 \<rparr>"


end
